(* ===== verification/Py_Prelude.thy ===== *)
theory Py_Prelude
  imports Main "HOL-Library.Char_ord" "HOL-Library.List_Lexorder" "HOL-Library.Multiset"
begin

text \<open>
  Shared vocabulary of the development: the exception classes of the packages, the result type
  of a Python call that may raise, sequencing of such calls, Python strings, and the generic
  lemmas on \<open>sorted\<close>, \<open>set\<close> and duplicate detection that every component uses.

  A Python call is a value of \<open>exn + 'a\<close>: \<open>Inl e\<close> when it raises \<open>e\<close>, \<open>Inr v\<close> when it returns
  \<open>v\<close>.  Messages of exceptions are not modelled, their classes are.  A Python \<open>str\<close> is a HOL
  string whose characters are the code points below 256, compared code point by code point as
  Python does.
\<close>

section \<open>Exceptions\<close>

text \<open>The exception classes of \<open>personal_context\<close> (\<open>errors.py\<close>).\<close>

datatype context_exn =
    InvalidOwnerError
  | InvalidContextQueryError
  | ContextInvariantError
  | InconsistentSourceStateError

text \<open>The exception classes of \<open>memory\<close>: every one is a subclass of \<open>AyyoMemoryError\<close>.\<close>

datatype memory_exn =
    InvalidMemoryDataError
  | InvalidConfidenceError
  | InvalidProvenanceError
  | MemoryNotFoundError
  | InvalidCorrectionTargetError
  | InvalidRetractionTargetError
  | AlreadyRetractedError
  | MemoryPersistenceError
  | PersistenceConflictError
  | StoreClosedError

text \<open>The exception classes of \<open>executive\<close>: every one is a subclass of \<open>ExecutiveError\<close>.\<close>

datatype executive_exn =
    ExecutiveValidationError
  | InvalidRequestError
  | InvalidCapabilityDefinitionError
  | InvalidCapabilityParametersError
  | PlanInvariantError
  | DecisionInvariantError

text \<open>The exception classes of \<open>safety_kernel\<close>: every one is a subclass of \<open>SafetyKernelError\<close>.\<close>

datatype safety_exn =
    SafetyValidationError
  | InvalidSafetyPolicyError
  | InvalidSafetyProposalError
  | SafetyPlanInvariantError
  | SafetyDecisionInvariantError
  | StaleSafetyDecisionError

text \<open>
  The exception classes of \<open>skill_manager\<close>: every one is a subclass of \<open>SkillManagerError\<close>.
\<close>

datatype skill_exn =
    SkillValidationError
  | InvalidSchemaError
  | InvalidSkillDefinitionError
  | InvalidSkillRegistryError
  | InvalidSkillParametersError
  | InvalidSkillBindingError
  | StaleSkillBindingError
  | SkillInvocationInvariantError

text \<open>
  The exception classes of \<open>runtime_bridge\<close> that the package itself raises: every one is a subclass of
  \<open>RuntimeBridgeError\<close>, and all but the last of \<open>RuntimeValidationError\<close>.
\<close>

datatype runtime_exn =
    RuntimeValidationError
  | InvalidRuntimeContractError
  | InvalidRosEndpointError
  | InvalidRuntimeRegistryError
  | InvalidRuntimeBindingError
  | StaleRuntimeDecisionError

text \<open>
  The exception classes of \<open>memory_validation\<close>: every one is a subclass of \<open>MemoryValidationPolicyError\<close>,
  and \<open>UnsupportedValueError\<close> of \<open>NormalizationError\<close>, which is one of \<open>CandidateValidationError\<close> as the
  other \<open>Candidate\<close> errors and \<open>InvalidCorrectionRequestError\<close> are. A \<open>CyclicValueError\<close> needs an object
  graph with a cycle; the values of the model are trees.
\<close>

datatype validation_exn =
    CandidateValidationError
  | CandidateProvenanceError
  | CandidateConfidenceError
  | CandidateTimestampError
  | InvalidCorrectionRequestError
  | NormalizationError
  | UnsupportedValueError
  | DecisionNotApplicableError
  | StaleDecisionError
  | PolicyInvariantError

text \<open>The exceptions of the standard library that the modelled code can raise.\<close>

datatype builtin_exn =
    AssertionError | KeyError | RecursionError | ValueError | OverflowError | IntegrityError

datatype exn =
    MemoryExn memory_exn
  | ContextExn context_exn
  | ExecutiveExn executive_exn
  | SafetyExn safety_exn
  | SkillExn skill_exn
  | RuntimeExn runtime_exn
  | ValidationExn validation_exn
  | BuiltinExn builtin_exn

type_synonym 'a res = "exn + 'a"

section \<open>Sequencing fallible calls\<close>

definition tryE :: "'e + 'a \<Rightarrow> ('a \<Rightarrow> 'e + 'b) \<Rightarrow> 'e + 'b" where
  "tryE r k = (case r of Inl e \<Rightarrow> Inl e | Inr v \<Rightarrow> k v)"

definition raise_if :: "bool \<Rightarrow> 'e \<Rightarrow> 'e + 'b \<Rightarrow> 'e + 'b" where
  "raise_if c e k = (if c then Inl e else k)"

text \<open>\<open>tuple(f(x) for x in xs)\<close>: left to right, the first exception ends it.\<close>

fun traverse :: "('a \<Rightarrow> 'e + 'b) \<Rightarrow> 'a list \<Rightarrow> 'e + 'b list" where
  "traverse f [] = Inr []"
| "traverse f (x # xs) =
     tryE (f x) (\<lambda>y. tryE (traverse f xs) (\<lambda>ys. Inr (y # ys)))"

text \<open>\<open>for x in xs: f(x)\<close> where \<open>f\<close> only validates.\<close>

fun for_each :: "('a \<Rightarrow> 'e + unit) \<Rightarrow> 'a list \<Rightarrow> 'e + unit" where
  "for_each f [] = Inr ()"
| "for_each f (x # xs) = tryE (f x) (\<lambda>_. for_each f xs)"

named_theorems res_simps \<open>rewrite rules for sequenced fallible calls\<close>

lemma tryE_simps [simp]:
  "tryE (Inl e) k = Inl e"
  "tryE (Inr v) k = k v"
  by (simp_all add: tryE_def)

lemma raise_if_simps [simp]:
  "raise_if True e k = Inl e"
  "raise_if False e k = k"
  by (simp_all add: raise_if_def)

lemma tryE_Inr [res_simps]: "tryE r k = Inr b \<longleftrightarrow> (\<exists>a. r = Inr a \<and> k a = Inr b)"
  by (cases r) auto

lemma tryE_Inl [res_simps]:
  "tryE r k = Inl e \<longleftrightarrow> r = Inl e \<or> (\<exists>a. r = Inr a \<and> k a = Inl e)"
  by (cases r) auto

lemma raise_if_Inr [res_simps]: "raise_if c e k = Inr b \<longleftrightarrow> \<not> c \<and> k = Inr b"
  by (simp add: raise_if_def)

lemma raise_if_Inl [res_simps]: "raise_if c e k = Inl x \<longleftrightarrow> (if c then x = e else k = Inl x)"
  by (auto simp: raise_if_def)

lemma tryE_cong [fundef_cong]:
  "r = r' \<Longrightarrow> (\<And>a. r' = Inr a \<Longrightarrow> k a = k' a) \<Longrightarrow> tryE r k = tryE r' k'"
  by (cases r') auto

lemma raise_if_cong [fundef_cong]:
  "c = c' \<Longrightarrow> e = e' \<Longrightarrow> (\<not> c' \<Longrightarrow> k = k') \<Longrightarrow> raise_if c e k = raise_if c' e' k'"
  by (auto simp: raise_if_def)

lemma traverse_Inr: "traverse f xs = Inr ys \<longleftrightarrow> list_all2 (\<lambda>x y. f x = Inr y) xs ys"
  by (induction xs arbitrary: ys) (auto simp: res_simps list_all2_Cons1)

lemma traverse_length: "traverse f xs = Inr ys \<Longrightarrow> length ys = length xs"
  by (auto simp: traverse_Inr dest: list_all2_lengthD)

lemma traverse_map: "(\<And>x. x \<in> set xs \<Longrightarrow> f x = Inr (g x)) \<Longrightarrow> traverse f xs = Inr (map g xs)"
  by (induction xs) auto

lemma traverse_cong [fundef_cong]:
  "xs = ys \<Longrightarrow> (\<And>x. x \<in> set ys \<Longrightarrow> f x = g x) \<Longrightarrow> traverse f xs = traverse g ys"
  by (induction xs arbitrary: ys) auto

lemma traverse_Inl: "traverse f xs = Inl e \<Longrightarrow> \<exists>x \<in> set xs. f x = Inl e"
  by (induction xs) (auto simp: res_simps)

lemma traverse_total: "(\<And>x. x \<in> set xs \<Longrightarrow> \<exists>y. f x = Inr y) \<Longrightarrow> \<exists>ys. traverse f xs = Inr ys"
proof (induction xs)
  case (Cons x xs)
  then obtain y ys where "f x = Inr y" "traverse f xs = Inr ys" by fastforce
  then show ?case by simp
qed simp

lemma for_each_Inr: "for_each f xs = Inr u \<longleftrightarrow> (\<forall>x \<in> set xs. f x = Inr ())"
  by (induction xs) (auto simp: res_simps)

lemma for_each_Inl: "for_each f xs = Inl e \<Longrightarrow> \<exists>x \<in> set xs. f x = Inl e"
  by (induction xs) (auto simp: res_simps)

lemma for_each_cong [fundef_cong]:
  "xs = ys \<Longrightarrow> (\<And>x. x \<in> set ys \<Longrightarrow> f x = g x) \<Longrightarrow> for_each f xs = for_each g ys"
  by (induction xs arbitrary: ys) auto

section \<open>Strings\<close>

definition code_point :: "char \<Rightarrow> nat" where
  "code_point c = of_char c"

text \<open>\<open>str.isspace\<close> and \<open>str.isalnum\<close> of one character, for code points below 256.\<close>

definition py_isspace :: "char \<Rightarrow> bool" where
  "py_isspace c = (let n = code_point c in
     (9 \<le> n \<and> n \<le> 13) \<or> (28 \<le> n \<and> n \<le> 32) \<or> n = 133 \<or> n = 160)"

definition py_isalnum :: "char \<Rightarrow> bool" where
  "py_isalnum c = (let n = code_point c in
     (48 \<le> n \<and> n \<le> 57) \<or> (65 \<le> n \<and> n \<le> 90) \<or> (97 \<le> n \<and> n \<le> 122) \<or>
     n = 170 \<or> n = 178 \<or> n = 179 \<or> n = 181 \<or> n = 185 \<or> n = 186 \<or>
     (188 \<le> n \<and> n \<le> 190) \<or> (192 \<le> n \<and> n \<le> 214) \<or> (216 \<le> n \<and> n \<le> 246) \<or>
     (248 \<le> n \<and> n \<le> 255))"

definition py_strip :: "string \<Rightarrow> string" where
  "py_strip s = rev (dropWhile py_isspace (rev (dropWhile py_isspace s)))"

text \<open>
  \<open>str.encode("utf-8")\<close> raises exactly on surrogate code points.  No character below 256 is
  one, so the check always passes in the model; it is kept where the code performs it.
\<close>

definition utf8_encodable :: "string \<Rightarrow> bool" where
  "utf8_encodable s = list_all (\<lambda>c. \<not> (55296 \<le> code_point c \<and> code_point c \<le> 57343)) s"

lemma code_point_less [simp]: "code_point c < 256"
  by (simp add: code_point_def)

lemma utf8_encodable_all [simp]: "utf8_encodable s"
  by (auto simp: utf8_encodable_def list_all_iff not_le
      intro: order.strict_trans [OF code_point_less])

text \<open>\<open>character in "0123456789abcdef"\<close>.\<close>

definition is_lower_hex :: "char \<Rightarrow> bool" where
  "is_lower_hex c = (c \<in> set ''0123456789abcdef'')"

definition hex_digest_ok :: "string \<Rightarrow> bool" where
  "hex_digest_ok s = (length s = 64 \<and> list_all is_lower_hex s)"


text \<open>
  Which exceptions an operation can raise: a predicate on results with one rule per construct of the
  error monad, so that the exceptions of an operation follow from those of its parts.
\<close>

definition raises_only :: "'e set \<Rightarrow> 'e + 'a \<Rightarrow> bool" where
  "raises_only S r \<longleftrightarrow> (\<forall>e. r = Inl e \<longrightarrow> e \<in> S)"

named_theorems raises "rules for the exceptions that an operation can raise"

lemma raises_onlyD: "raises_only S r \<Longrightarrow> r = Inl e \<Longrightarrow> e \<in> S"
  by (simp add: raises_only_def)

lemma raises_mono: "raises_only S r \<Longrightarrow> S \<subseteq> T \<Longrightarrow> raises_only T r"
  by (auto simp: raises_only_def)

lemma raises_Inr [raises]: "raises_only S (Inr x)"
  by (simp add: raises_only_def)

lemma raises_Inl [raises]: "e \<in> S \<Longrightarrow> raises_only S (Inl e)"
  by (simp add: raises_only_def)

lemma raises_tryE [raises]:
  "raises_only S r \<Longrightarrow> (\<And>a. r = Inr a \<Longrightarrow> raises_only S (k a)) \<Longrightarrow> raises_only S (tryE r k)"
  by (cases r) (simp_all add: raises_only_def)

lemma raises_raise_if [raises]:
  "(c \<Longrightarrow> e \<in> S) \<Longrightarrow> (\<not> c \<Longrightarrow> raises_only S r) \<Longrightarrow> raises_only S (raise_if c e r)"
  by (simp add: raise_if_def raises_only_def)

lemma raises_if [raises]:
  "(c \<Longrightarrow> raises_only S r) \<Longrightarrow> (\<not> c \<Longrightarrow> raises_only S r') \<Longrightarrow> raises_only S (if c then r else r')"
  by simp

lemma raises_option [raises]:
  "(x = None \<Longrightarrow> raises_only S r) \<Longrightarrow> (\<And>y. x = Some y \<Longrightarrow> raises_only S (k y)) \<Longrightarrow>
   raises_only S (case x of None \<Rightarrow> r | Some y \<Rightarrow> k y)"
  by (cases x) simp_all

lemma raises_prod [raises]:
  "(\<And>x y. p = (x, y) \<Longrightarrow> raises_only S (k x y)) \<Longrightarrow> raises_only S (case p of (x, y) \<Rightarrow> k x y)"
  by (cases p) simp

lemma raises_traverse [raises]:
  "(\<And>x. x \<in> set xs \<Longrightarrow> raises_only S (f x)) \<Longrightarrow> raises_only S (traverse f xs)"
  using traverse_Inl [of f xs] by (fastforce simp: raises_only_def)

lemma raises_for_each [raises]:
  "(\<And>x. x \<in> set xs \<Longrightarrow> raises_only S (f x)) \<Longrightarrow> raises_only S (for_each f xs)"
  using for_each_Inl [of f xs] by (fastforce simp: raises_only_def)

end
