(* ===== verification/Py_Order.thy ===== *)
theory Py_Order
  imports Py_Prelude "HOL-Library.Product_Lexorder"
begin

text \<open>
  Sorting and duplicate detection as the packages write them, and the contract
  \<open>ordered_unique\<close> that seven helper functions of the program share: a tuple is accepted when
  it is short enough and its keys are distinct, and is then returned sorted by key.
\<close>

section \<open>sorted, set and len\<close>

text \<open>\<open>tuple(sorted(set(xs)))\<close>.\<close>

definition sorted_set :: "'a::linorder list \<Rightarrow> 'a list" where
  "sorted_set xs = sort (remdups xs)"

text \<open>\<open>len(xs) != len(set(xs))\<close>.\<close>

definition has_dup :: "'a list \<Rightarrow> bool" where
  "has_dup xs = (length xs \<noteq> card (set xs))"

text \<open>
  \<open>tuple(sorted(set(xs), key=rank.get))\<close> and \<open>tuple(x for x in Enum if x in xs)\<close>, for an
  enumeration whose members are listed in declaration order.
\<close>

definition enum_ordered :: "'a list \<Rightarrow> 'a set \<Rightarrow> 'a list" where
  "enum_ordered members S = filter (\<lambda>x. x \<in> S) members"

lemma has_dup_iff [simp]: "has_dup xs \<longleftrightarrow> \<not> distinct xs"
  by (auto simp: has_dup_def distinct_card dest: sym card_distinct)

lemma sorted_set_props [simp]:
  "set (sorted_set xs) = set xs" "sorted (sorted_set xs)" "distinct (sorted_set xs)"
  by (simp_all add: sorted_set_def)

lemma sorted_set_id_iff: "sorted_set xs = xs \<longleftrightarrow> sorted xs \<and> distinct xs"
  by (metis distinct_remdups_id sorted_set_def sorted_set_props sorted_sort_id)

lemma sorted_set_eq_sym [simp]: "xs = sorted_set xs \<longleftrightarrow> sorted xs \<and> distinct xs"
  using sorted_set_id_iff [of xs] by auto

lemma sorted_set_cong: "set xs = set ys \<Longrightarrow> sorted_set xs = sorted_set ys"
  by (metis sorted_distinct_set_unique sorted_set_props)

lemma sorted_set_idem [simp]: "sorted_set (sorted_set xs) = sorted_set xs"
  by (rule sorted_set_cong) simp

lemma length_sorted_set: "length (sorted_set xs) = length xs \<longleftrightarrow> distinct xs"
  by (metis card_distinct distinct_card sorted_set_props(1,3))

lemma length_sorted_set_le: "length (sorted_set xs) \<le> length xs"
  by (simp add: sorted_set_def)

lemma sorted_set_Nil_iff [simp]: "sorted_set xs = [] \<longleftrightarrow> xs = []"
  by (metis empty_set set_empty sorted_set_props(1))

lemma enum_ordered_set: "set (enum_ordered ms S) = S \<inter> set ms"
  by (auto simp: enum_ordered_def)

lemma enum_ordered_distinct: "distinct ms \<Longrightarrow> distinct (enum_ordered ms S)"
  by (simp add: enum_ordered_def)

lemma enum_ordered_idem: "enum_ordered ms (set (enum_ordered ms S)) = enum_ordered ms S"
  by (auto simp: enum_ordered_def intro: filter_cong)

lemma enum_ordered_Nil: "S \<subseteq> set ms \<Longrightarrow> enum_ordered ms S = [] \<longleftrightarrow> S = {}"
  by (auto simp: enum_ordered_def filter_empty_conv)

text \<open>Two lists with the same elements and distinct keys sort to the same list.\<close>

lemma sort_key_unique:
  assumes "distinct (map f xs)" "distinct (map f ys)" "set xs = set ys"
  shows "sort_key f xs = sort_key f ys"
proof (rule map_sorted_distinct_set_unique [where f = f])
  from assms(1,3) show "inj_on f (set (sort_key f xs) \<union> set (sort_key f ys))"
    by (simp add: distinct_map)
  show "distinct (map f (sort_key f xs))" "distinct (map f (sort_key f ys))"
    using assms(1,2) by (simp_all add: distinct_map)
qed (use assms(3) in simp_all)

lemma sort_key_Nil_iff [simp]: "sort_key f xs = [] \<longleftrightarrow> xs = []" "[] = sort_key f xs \<longleftrightarrow> xs = []"
  by (metis length_0_conv length_sort)+

lemma sort_key_sorted_id: "sorted (map f xs) \<Longrightarrow> sort_key f xs = xs"
  by (induction xs) (auto simp: insort_is_Cons)

lemma sort_key_idem [simp]: "sort_key f (sort_key f xs) = sort_key f xs"
  by (rule sort_key_sorted_id) simp

lemma distinct_map_sort_key [simp]: "distinct (map f (sort_key g xs)) = distinct (map f xs)"
  by (simp add: distinct_map)

text \<open>
  \<open>xs != tuple(sorted(xs, key=f))\<close>, where \<open>!=\<close> compares the items with an equality of their own that
  does not confuse items with different keys.
\<close>

definition unsorted_by :: "('a \<Rightarrow> 'a \<Rightarrow> bool) \<Rightarrow> ('a \<Rightarrow> 'k::linorder) \<Rightarrow> 'a list \<Rightarrow> bool" where
  "unsorted_by eq f xs = (\<not> list_all2 eq xs (sort_key f xs))"

lemma unsorted_by_iff:
  assumes "\<And>x. eq x x" "\<And>x y. eq x y \<Longrightarrow> f x = f y"
  shows "unsorted_by eq f xs \<longleftrightarrow> \<not> sorted (map f xs)"
proof -
  have "map f xs = map f ys" if "list_all2 eq xs ys" for ys
    using that by (induction rule: list_all2_induct) (auto simp: assms(2))
  from this [of "sort_key f xs"] have "list_all2 eq xs (sort_key f xs) \<Longrightarrow> sorted (map f xs)"
    by (metis sorted_sort_key)
  moreover have "sorted (map f xs) \<Longrightarrow> list_all2 eq xs (sort_key f xs)"
    by (simp add: sort_key_sorted_id list_all2_same assms(1))
  ultimately show ?thesis by (auto simp: unsorted_by_def)
qed

section \<open>The contract of the ordered unique tuples\<close>

locale ordered_unique =
  fixes build :: "'a list \<Rightarrow> 'e + 'a list"
    and key :: "'a \<Rightarrow> 'k::linorder"
    and limit :: nat
    and err :: 'e
  assumes build_eq:
    "build xs = (if length xs \<le> limit \<and> distinct (map key xs)
                 then Inr (sort_key key xs) else Inl err)"
begin

lemma build_Inr_iff:
  "build xs = Inr ys \<longleftrightarrow>
     length xs \<le> limit \<and> distinct (map key xs) \<and> ys = sort_key key xs"
  by (auto simp: build_eq)

lemma build_Inl_iff:
  "build xs = Inl e \<longleftrightarrow> e = err \<and> (limit < length xs \<or> \<not> distinct (map key xs))"
  by (auto simp: build_eq)

lemma build_sorted: "build xs = Inr ys \<Longrightarrow> sorted (map key ys) \<and> distinct (map key ys)"
  by (auto simp: build_Inr_iff)

lemma build_set: "build xs = Inr ys \<Longrightarrow> set ys = set xs"
  by (auto simp: build_Inr_iff)

lemma build_length: "build xs = Inr ys \<Longrightarrow> length ys = length xs \<and> length ys \<le> limit"
  by (auto simp: build_Inr_iff)

lemma build_distinct: "build xs = Inr ys \<Longrightarrow> distinct ys"
  by (auto simp: build_Inr_iff distinct_map)

lemma build_Nil_iff: "build xs = Inr ys \<Longrightarrow> ys = [] \<longleftrightarrow> xs = []"
  by (metis build_length length_0_conv)

lemma build_idem: "build xs = Inr ys \<Longrightarrow> build ys = Inr ys"
  by (auto simp: build_Inr_iff)

lemma build_fixpoint:
  "length xs \<le> limit \<Longrightarrow> sorted (map key xs) \<Longrightarrow> distinct (map key xs) \<Longrightarrow> build xs = Inr xs"
  by (simp add: build_eq sort_key_sorted_id)

text \<open>The order in which the caller lists the items is not semantic.\<close>

lemma build_perm:
  assumes "mset xs = mset ys"
  shows "build xs = build ys"
proof -
  have len: "length xs = length ys" and st: "set xs = set ys"
    using assms by (auto dest: mset_eq_length mset_eq_setD)
  have "mset (map key xs) = mset (map key ys)"
    using assms by simp
  then have ds: "distinct (map key xs) = distinct (map key ys)"
    by (rule mset_eq_imp_distinct_iff)
  then show ?thesis
    by (auto simp: build_eq len st intro: sort_key_unique)
qed

end

section \<open>Lookup in a tuple indexed by its distinct keys\<close>

text \<open>\<open>{item.key: item for item in items}.get(k)\<close> for items with distinct keys.\<close>

definition index_get :: "('a \<Rightarrow> 'k) \<Rightarrow> 'a list \<Rightarrow> 'k \<Rightarrow> 'a option" where
  "index_get key items k = map_of (rev (map (\<lambda>x. (key x, x)) items)) k"

lemma index_get_Some:
  "distinct (map key items) \<Longrightarrow> index_get key items k = Some x \<longleftrightarrow> x \<in> set items \<and> key x = k"
  by (auto simp: index_get_def map_of_eq_Some_iff rev_map o_def simp flip: rev_map)

lemma index_get_None: "index_get key items k = None \<longleftrightarrow> k \<notin> key ` set items"
  by (auto simp: index_get_def map_of_eq_None_iff image_image)

lemma index_get_in: "index_get key items k = Some x \<Longrightarrow> x \<in> set items \<and> key x = k"
  by (auto simp: index_get_def dest!: map_of_SomeD)


text \<open>
  Grouping of the items of a list by a key, as the packages do it with \<open>defaultdict(list)\<close> and
  \<open>setdefault\<close>, and its laws.
\<close>

section \<open>Grouping\<close>

text \<open>\<open>groups[key].append(item)\<close> on a \<open>defaultdict(list)\<close>: keys stay in the order of their insertion.\<close>

fun group_append :: "'k \<Rightarrow> 'v \<Rightarrow> ('k \<times> 'v list) list \<Rightarrow> ('k \<times> 'v list) list" where
  "group_append k v [] = [(k, [v])]"
| "group_append k v ((l, vs) # groups) =
     (if l = k then (l, vs @ [v]) # groups else (l, vs) # group_append k v groups)"

definition group_pairs :: "('k \<times> 'v) list \<Rightarrow> ('k \<times> 'v list) list" where
  "group_pairs ps = fold (\<lambda>(k, v). group_append k v) ps []"

text \<open>\<open>for x in xs: groups[f(x)].append(g(x))\<close>, where \<open>f\<close> may raise.\<close>

definition group_by :: "('a \<Rightarrow> 'k res) \<Rightarrow> ('a \<Rightarrow> 'v) \<Rightarrow> 'a list \<Rightarrow> ('k \<times> 'v list) list res" where
  "group_by f g xs =
     tryE (traverse (\<lambda>x. tryE (f x) (\<lambda>k. Inr (k, g x))) xs) (\<lambda>ps. Inr (group_pairs ps))"

definition group_get :: "('k \<times> 'v list) list \<Rightarrow> 'k \<Rightarrow> 'v list" where
  "group_get groups k = (case map_of groups k of None \<Rightarrow> [] | Some vs \<Rightarrow> vs)"

section \<open>Laws\<close>

lemma group_append_keys [simp]: "fst ` set (group_append k v G) = insert k (fst ` set G)"
  by (induction k v G rule: group_append.induct) auto

lemma group_append_distinct: "distinct (map fst G) \<Longrightarrow> distinct (map fst (group_append k v G))"
proof (induction k v G rule: group_append.induct)
  case (2 k v l vs groups)
  then show ?case using group_append_keys [of k v groups] by (auto simp flip: set_map)
qed simp

lemma group_get_append:
  "group_get (group_append k v G) j = (if j = k then group_get G j @ [v] else group_get G j)"
  by (induction k v G rule: group_append.induct) (auto simp: group_get_def)

lemma group_pairs_snoc: "group_pairs (ps @ [p]) = group_append (fst p) (snd p) (group_pairs ps)"
  by (cases p) (simp add: group_pairs_def)

lemma group_pairs_Nil [simp]: "group_pairs [] = []"
  by (simp add: group_pairs_def)

lemma group_pairs_keys [simp]: "fst ` set (group_pairs ps) = fst ` set ps"
  by (induction ps rule: rev_induct) (simp_all add: group_pairs_snoc)

lemma group_pairs_distinct [simp]: "distinct (map fst (group_pairs ps))"
  by (induction ps rule: rev_induct) (simp_all add: group_pairs_snoc group_append_distinct)

lemma group_get_pairs: "group_get (group_pairs ps) k = map snd (filter (\<lambda>p. fst p = k) ps)"
  by (induction ps rule: rev_induct) (auto simp: group_pairs_snoc group_get_append, simp add: group_get_def)

lemma group_get_member: "distinct (map fst G) \<Longrightarrow> (k, vs) \<in> set G \<Longrightarrow> group_get G k = vs"
  by (simp add: group_get_def)

section \<open>Dicts\<close>

text \<open>A dict as the list of its items; \<open>d[k] = x\<close> keeps the place of a key.\<close>

fun dict_set :: "'k \<Rightarrow> 'a \<Rightarrow> ('k \<times> 'a) list \<Rightarrow> ('k \<times> 'a) list" where
  "dict_set k x [] = [(k, x)]"
| "dict_set k x ((j, y) # m) = (if j = k then (k, x) # m else (j, y) # dict_set k x m)"

lemma map_of_dict_set [simp]: "map_of (dict_set k x m) = (map_of m)(k \<mapsto> x)"
  by (induction k x m rule: dict_set.induct) auto

lemma keys_dict_set: "set (map fst (dict_set k x m)) = insert k (set (map fst m))"
  by (induction k x m rule: dict_set.induct) auto

lemma distinct_dict_set: "distinct (map fst m) \<Longrightarrow> distinct (map fst (dict_set k x m))"
proof (induction k x m rule: dict_set.induct)
  case (2 k x j y m)
  then show ?case using keys_dict_set [of k x m] by auto
qed simp

end
