(* ===== verification/Json_Value.thy ===== *)
theory Json_Value
  imports Py_Order
begin

text \<open>
  JSON data as the packages handle it (\<open>executive/json_value.py\<close>, \<open>safety_kernel/canonical.py\<close>,
  \<open>personal_context/json_value.py\<close>): Python values as finite trees, the bounds a value has to
  meet, the iterative canonical printer, and a recursive printer it equals.  The theory
  \<open>Json_Graph\<close> models the validation loop on object graphs and shows that the bounds checked
  here on trees are the ones that loop checks.
\<close>

section \<open>Python values\<close>

text \<open>
  A finite \<open>float\<close> is represented by its \<open>repr\<close> text, which identifies it; infinities and NaN
  are \<open>NonFinite\<close>.  A dict is the list of its items in insertion order.  \<open>POther\<close> is any object
  that is none of these types, \<open>KOther\<close> any key that is not a string.
\<close>

datatype pyfloat = NonFinite | Finite string

datatype pykey = KStr string | KOther

datatype pyval =
    PNone
  | PBool bool
  | PInt int
  | PFloat pyfloat
  | PStr string
  | PList "pyval list"
  | PDict "(pykey \<times> pyval) list"
  | POther

fun is_dict :: "pyval \<Rightarrow> bool" where
  "is_dict (PDict _) = True"
| "is_dict _ = False"

fun key_str :: "pykey \<Rightarrow> string" where
  "key_str (KStr s) = s"
| "key_str KOther = []"

fun dict_items :: "pyval \<Rightarrow> (pykey \<times> pyval) list" where
  "dict_items (PDict kvs) = kvs"
| "dict_items _ = []"

text \<open>A dict display with string keys, and a list of strings.\<close>

definition obj :: "(string \<times> pyval) list \<Rightarrow> pyval" where
  "obj kvs = PDict (map (\<lambda>(k, v). (KStr k, v)) kvs)"

definition str_list :: "string list \<Rightarrow> pyval" where
  "str_list ss = PList (map PStr ss)"

text \<open>Every dict of a value has distinct keys, as every Python dict has.\<close>

fun dicts_ok :: "pyval \<Rightarrow> bool" where
  "dicts_ok (PList vs) = list_all dicts_ok vs"
| "dicts_ok (PDict kvs) = (distinct (map fst kvs) \<and> list_all (\<lambda>kv. dicts_ok (snd kv)) kvs)"
| "dicts_ok _ = True"

section \<open>Bounds\<close>

record json_limits =
  max_depth :: nat
  max_nodes :: nat
  max_characters :: nat

text \<open>\<open>int.bit_length() > MAX_JSON_INTEGER_BITS\<close> for \<open>MAX_JSON_INTEGER_BITS = 13_000\<close>.\<close>

definition max_json_integer_bits :: nat where
  "max_json_integer_bits = 13000"

definition int_oversized :: "int \<Rightarrow> bool" where
  "int_oversized i = (2 ^ max_json_integer_bits \<le> \<bar>i\<bar>)"

fun check_keys :: "json_limits \<Rightarrow> 'e \<Rightarrow> pykey list \<Rightarrow> nat \<Rightarrow> 'e + nat" where
  "check_keys L e [] chars = Inr chars"
| "check_keys L e (k # ks) chars =
     raise_if (max_characters L < chars + length (key_str k)) e
    (raise_if (\<not> utf8_encodable (key_str k)) e
    (check_keys L e ks (chars + length (key_str k))))"

text \<open>
  The checks of one value at a depth, given the nodes and characters counted before it; returns
  the counts after it.  Nodes are visited in the order of the validation loop.
\<close>

fun check_value :: "json_limits \<Rightarrow> 'e \<Rightarrow> nat \<Rightarrow> pyval \<Rightarrow> nat \<times> nat \<Rightarrow> 'e + nat \<times> nat"
and check_values :: "json_limits \<Rightarrow> 'e \<Rightarrow> nat \<Rightarrow> pyval list \<Rightarrow> nat \<times> nat \<Rightarrow> 'e + nat \<times> nat"
and check_items :: "json_limits \<Rightarrow> 'e \<Rightarrow> nat \<Rightarrow> (pykey \<times> pyval) list \<Rightarrow> nat \<times> nat \<Rightarrow> 'e + nat \<times> nat"
where
  "check_value L e d v (nodes, chars) =
     raise_if (max_nodes L < Suc nodes) e
    (raise_if (max_depth L < d) e
    (case v of
       PStr s \<Rightarrow>
         raise_if (max_characters L < chars + length s) e
        (raise_if (\<not> utf8_encodable s) e (Inr (Suc nodes, chars + length s)))
     | PNone \<Rightarrow> Inr (Suc nodes, chars)
     | PBool b \<Rightarrow> Inr (Suc nodes, chars)
     | PInt i \<Rightarrow> raise_if (int_oversized i) e (Inr (Suc nodes, chars))
     | PFloat x \<Rightarrow> raise_if (x = NonFinite) e (Inr (Suc nodes, chars))
     | PList vs \<Rightarrow>
         raise_if (max_nodes L - Suc nodes < length vs) e
        (check_values L e (Suc d) vs (Suc nodes, chars))
     | PDict kvs \<Rightarrow>
         raise_if (max_nodes L - Suc nodes < length kvs) e
        (raise_if (KOther \<in> set (map fst kvs)) e
        (tryE (check_keys L e (map fst kvs) chars) (\<lambda>chars'.
          check_items L e (Suc d) kvs (Suc nodes, chars'))))
     | POther \<Rightarrow> Inl e))"
| "check_values L e d [] c = Inr c"
| "check_values L e d (v # vs) c =
     tryE (check_value L e d v c) (\<lambda>c'. check_values L e d vs c')"
| "check_items L e d [] c = Inr c"
| "check_items L e d ((k, v) # kvs) c =
     tryE (check_value L e d v c) (\<lambda>c'. check_items L e d kvs c')"

declare check_value.simps [simp del]

definition validate_value :: "json_limits \<Rightarrow> 'e \<Rightarrow> pyval \<Rightarrow> 'e + unit" where
  "validate_value L e v = tryE (check_value L e 0 v (0, 0)) (\<lambda>_. Inr ())"

lemma check_keys_error: "check_keys L e ks c = Inl x \<Longrightarrow> x = e"
  by (induction L e ks c rule: check_keys.induct) (auto simp: res_simps split: if_splits)

lemma validate_value_error: "validate_value L e v = Inl x \<Longrightarrow> x = e"
proof -
  have "check_value L e d v c = Inl x \<Longrightarrow> x = e"
    and "check_values L e d vs c = Inl x \<Longrightarrow> x = e"
    and "check_items L e d kvs c = Inl x \<Longrightarrow> x = e" for d c vs kvs
  proof (induction L e d v c and L e d vs c and L e d kvs c rule: check_value_check_values_check_items.induct)
    case (1 L e d v nodes chars)
    then show ?case
      by (auto simp: check_value.simps [of L e d v] res_simps Let_def
          split: if_splits pyval.splits dest: check_keys_error)
  qed (auto simp: res_simps)
  then show "validate_value L e v = Inl x \<Longrightarrow> x = e"
    by (auto simp: validate_value_def res_simps)
qed

lemma check_keys_cong: "check_keys L e ks c = Inr n \<longleftrightarrow> check_keys L e' ks c = Inr n"
  by (induction ks arbitrary: c) (auto simp: res_simps)

text \<open>Acceptance does not depend on the exception class passed for the rejection.\<close>

lemma validate_value_cong: "validate_value L e v = Inr u \<longleftrightarrow> validate_value L e' v = Inr u"
proof -
  have "(\<forall>n. check_value L e d v c = Inr n \<longleftrightarrow> check_value L e' d v c = Inr n)"
    and "(\<forall>n. check_values L e d vs c = Inr n \<longleftrightarrow> check_values L e' d vs c = Inr n)"
    and "(\<forall>n. check_items L e d kvs c = Inr n \<longleftrightarrow> check_items L e' d kvs c = Inr n)" for d c vs kvs
  proof (induction L e d v c and L e d vs c and L e d kvs c rule: check_value_check_values_check_items.induct)
    case (1 L e d v nodes chars)
    then show ?case
      by (auto simp: check_value.simps [of L _ d v] res_simps check_keys_cong [of L e _ _ _ e'] split: pyval.splits)
  next
    case (3 L e d v vs c)
    then show ?case by (simp add: tryE_Inr) metis
  next
    case (5 L e d k v kvs c)
    then show ?case by (simp add: tryE_Inr) metis
  qed simp_all
  then show ?thesis
    by (auto simp: validate_value_def res_simps)
qed

section \<open>The canonical printer\<close>

text \<open>\<open>json.dumps(s, ensure_ascii=False)\<close> of a string: the standard library's escapes.\<close>

definition json_escape :: "char \<Rightarrow> string" where
  "json_escape c =
     (if c = CHR 0x22 then [CHR 0x5C, CHR 0x22]
      else if c = CHR 0x5C then [CHR 0x5C, CHR 0x5C]
      else if c = CHR 0x0A then [CHR 0x5C, CHR ''n'']
      else if c = CHR 0x0D then [CHR 0x5C, CHR ''r'']
      else if c = CHR 0x09 then [CHR 0x5C, CHR ''t'']
      else if c = CHR 0x0C then [CHR 0x5C, CHR ''f'']
      else if c = CHR 0x08 then [CHR 0x5C, CHR ''b'']
      else if code_point c < 32 then
        [CHR 0x5C, CHR ''u'', CHR ''0'', CHR ''0'',
         ''0123456789abcdef'' ! (code_point c div 16), ''0123456789abcdef'' ! (code_point c mod 16)]
      else [c])"

definition json_quote :: "string \<Rightarrow> string" where
  "json_quote s = [CHR 0x22] @ concat (map json_escape s) @ [CHR 0x22]"

fun nat_digits :: "nat \<Rightarrow> string" where
  "nat_digits n = (if n < 10 then [''0123456789'' ! n]
                   else nat_digits (n div 10) @ [''0123456789'' ! (n mod 10)])"

declare nat_digits.simps [simp del]

definition int_repr :: "int \<Rightarrow> string" where
  "int_repr i = (if i < 0 then CHR ''-'' # nat_digits (nat (- i)) else nat_digits (nat i))"

text \<open>\<open>json.dumps\<close> of a scalar; containers are never passed to it.\<close>

fun dumps_scalar :: "pyval \<Rightarrow> string" where
  "dumps_scalar PNone = ''null''"
| "dumps_scalar (PBool b) = (if b then ''true'' else ''false'')"
| "dumps_scalar (PInt i) = int_repr i"
| "dumps_scalar (PFloat (Finite r)) = r"
| "dumps_scalar (PStr s) = json_quote s"
| "dumps_scalar _ = []"

text \<open>
  The loop keeps a stack of values still to print and of literal tokens; \<open>pushed_list\<close> and
  \<open>pushed_dict\<close> are what it pushes for a container, in the order in which it will pop them.
\<close>

datatype fragment = Token string | Value pyval

fun separated :: "fragment list list \<Rightarrow> fragment list" where
  "separated [] = []"
| "separated [f] = f"
| "separated (f # fs) = f @ Token '','' # separated fs"

definition pushed_list :: "pyval list \<Rightarrow> fragment list" where
  "pushed_list vs = Token ''['' # separated (map (\<lambda>v. [Value v]) vs) @ [Token '']'']"

definition sorted_items :: "(pykey \<times> 'a) list \<Rightarrow> (pykey \<times> 'a) list" where
  "sorted_items kvs = sort_key (\<lambda>kv. key_str (fst kv)) kvs"

definition pushed_dict :: "(pykey \<times> pyval) list \<Rightarrow> fragment list" where
  "pushed_dict kvs =
     Token ''{'' #
     separated (map (\<lambda>kv. [Token (json_quote (key_str (fst kv))), Token '':'', Value (snd kv)])
                    (sorted_items kvs)) @ [Token ''}'']"

fun print_weight :: "pyval \<Rightarrow> nat" where
  "print_weight (PList vs) = 4 + sum_list (map (\<lambda>v. print_weight v + 1) vs)"
| "print_weight (PDict kvs) = 4 + sum_list (map (\<lambda>kv. print_weight (snd kv) + 3) kvs)"
| "print_weight _ = 1"

fun fragment_weight :: "fragment \<Rightarrow> nat" where
  "fragment_weight (Token t) = 1"
| "fragment_weight (Value v) = print_weight v"

lemma separated_weight:
  "sum_list (map fragment_weight (separated fs)) \<le>
     sum_list (map (\<lambda>f. sum_list (map fragment_weight f) + 1) fs)"
  by (induction fs rule: separated.induct) auto

lemma sum_list_sorted_items: "sum_list (map f (sorted_items kvs)) = (sum_list (map f kvs) :: nat)"
proof -
  have "mset (sorted_items kvs) = mset kvs"
    by (simp add: sorted_items_def)
  then show ?thesis
    by (metis mset_map sum_mset_sum_list)
qed

lemma pushed_list_weight: "sum_list (map fragment_weight (pushed_list vs)) < print_weight (PList vs)"
  using separated_weight [of "map (\<lambda>v. [Value v]) vs"]
  by (simp add: pushed_list_def o_def)

lemma pushed_dict_weight: "sum_list (map fragment_weight (pushed_dict kvs)) < print_weight (PDict kvs)"
  using separated_weight [of "map (\<lambda>kv. [Token (json_quote (key_str (fst kv))), Token '':'',
      Value (snd kv)]) (sorted_items kvs)"]
  by (simp add: pushed_dict_def o_def sum_list_sorted_items numeral_3_eq_3)

function canon_loop :: "fragment list \<Rightarrow> string list \<Rightarrow> string" where
  "canon_loop [] out = concat out"
| "canon_loop (Token t # stack) out = canon_loop stack (out @ [t])"
| "canon_loop (Value v # stack) out =
     (case v of
        PList vs \<Rightarrow> canon_loop (pushed_list vs @ stack) out
      | PDict kvs \<Rightarrow> canon_loop (pushed_dict kvs @ stack) out
      | _ \<Rightarrow> canon_loop stack (out @ [dumps_scalar v]))"
  by pat_completeness auto
termination
  by (relation "measure (\<lambda>(stack, out). sum_list (map fragment_weight stack))")
    (use pushed_list_weight pushed_dict_weight in auto)

text \<open>\<open>canonicalize_json\<close>: validate, then print.\<close>

definition canonicalize_value :: "json_limits \<Rightarrow> 'e \<Rightarrow> pyval \<Rightarrow> 'e + string" where
  "canonicalize_value L e v =
     tryE (validate_value L e v) (\<lambda>_. Inr (canon_loop [Value v] []))"

section \<open>The printer as a recursive function\<close>

fun join_comma :: "string list \<Rightarrow> string" where
  "join_comma [] = []"
| "join_comma [s] = s"
| "join_comma (s # ss) = s @ '','' @ join_comma ss"

fun canon :: "pyval \<Rightarrow> string" where
  "canon (PList vs) = ''['' @ join_comma (map canon vs) @ '']''"
| "canon (PDict kvs) =
     ''{'' @ join_comma (map (\<lambda>kt. json_quote (key_str (fst kt)) @ '':'' @ snd kt)
       (sorted_items (map (\<lambda>kv. (fst kv, canon (snd kv))) kvs))) @ ''}''"
| "canon v = dumps_scalar v"

fun render :: "fragment \<Rightarrow> string" where
  "render (Token t) = t"
| "render (Value v) = canon v"

lemma sort_key_map: "sort_key f (map g xs) = map g (sort_key (f \<circ> g) xs)"
proof (induction xs)
  case Nil
  then show ?case by simp
next
  case (Cons x xs)
  have "insort_key f (g x) (map g ys) = map g (insort_key (f \<circ> g) x ys)" for ys
    by (induction ys) auto
  with Cons show ?case by (simp add: o_def)
qed

lemma sorted_items_map: "sorted_items (map (\<lambda>kv. (fst kv, h (snd kv))) kvs) =
   map (\<lambda>kv. (fst kv, h (snd kv))) (sorted_items kvs)"
  by (simp add: sorted_items_def sort_key_map o_def)

lemma concat_map_separated: "concat (map render (separated fs)) = join_comma (map (concat \<circ> map render) fs)"
  by (induction fs rule: separated.induct) auto

lemma render_pushed_list: "concat (map render (pushed_list vs)) = canon (PList vs)"
  by (simp add: pushed_list_def concat_map_separated o_def)

lemma render_pushed_dict: "concat (map render (pushed_dict kvs)) = canon (PDict kvs)"
  by (simp add: pushed_dict_def concat_map_separated o_def sorted_items_map)

lemma canon_loop_render: "canon_loop stack out = concat out @ concat (map render stack)"
proof (induction stack out rule: canon_loop.induct)
  case (3 v stack out)
  then show ?case
    using render_pushed_list render_pushed_dict
    by (cases v) simp_all
qed auto

lemma canonicalize_value_canon:
  "canonicalize_value L e v = tryE (validate_value L e v) (\<lambda>_. Inr (canon v))"
  by (simp add: canonicalize_value_def canon_loop_render)

end
