(* ===== verification/Json_Graph.thy ===== *)
theory Json_Graph
  imports Json_Value
begin

text \<open>
  The validation loop of \<open>safety_kernel/canonical.py\<close> on Python objects as they are: references
  into a heap that may share structure and may contain cycles.  The loop always ends, because the
  node limit bounds it; it accepts an object exactly when the object unfolds to a finite tree
  whose \<open>validate_value\<close> succeeds, and it raises nothing but the requested error.
\<close>

section \<open>Objects in a heap\<close>

datatype pyref =
    RNone
  | RBool bool
  | RInt int
  | RFloat pyfloat
  | RStr string
  | RRef nat
  | ROther

datatype pycell = CList "pyref list" | CDict "(pykey \<times> pyref) list"

type_synonym pyheap = "nat \<Rightarrow> pycell"

text \<open>
  \<open>unfolds P h r v\<close>: following references from \<open>r\<close> in the heap \<open>h\<close>, through addresses that
  satisfy \<open>P\<close> only, yields the finite tree \<open>v\<close>.
\<close>

inductive unfolds :: "(nat \<Rightarrow> bool) \<Rightarrow> pyheap \<Rightarrow> pyref \<Rightarrow> pyval \<Rightarrow> bool" for P h where
  unfolds_none: "unfolds P h RNone PNone"
| unfolds_bool: "unfolds P h (RBool b) (PBool b)"
| unfolds_int: "unfolds P h (RInt i) (PInt i)"
| unfolds_float: "unfolds P h (RFloat x) (PFloat x)"
| unfolds_str: "unfolds P h (RStr s) (PStr s)"
| unfolds_other: "unfolds P h ROther POther"
| unfolds_list: "P a \<Longrightarrow> h a = CList rs \<Longrightarrow> list_all2 (unfolds P h) rs vs \<Longrightarrow>
    unfolds P h (RRef a) (PList vs)"
| unfolds_dict: "P a \<Longrightarrow> h a = CDict kvs \<Longrightarrow> list_all2 (unfolds P h) (map snd kvs) vs \<Longrightarrow>
    unfolds P h (RRef a) (PDict (zip (map fst kvs) vs))"

inductive_cases unfolds_refE: "unfolds P h (RRef a) v"

inductive_simps unfolds_scalar_simps [simp]:
  "unfolds P h RNone v" "unfolds P h (RBool b) v" "unfolds P h (RInt i) v"
  "unfolds P h (RFloat x) v" "unfolds P h (RStr s) v" "unfolds P h ROther v"

lemma list_all2_unique:
  "list_all2 (\<lambda>x y. R x y \<and> (\<forall>z. R x z \<longrightarrow> z = y)) xs ys \<Longrightarrow> list_all2 R xs zs \<Longrightarrow> zs = ys"
  by (induction xs arbitrary: ys zs) (auto simp: list_all2_Cons1)

lemma unfolds_unique: "unfolds P h r v \<Longrightarrow> unfolds P h r w \<Longrightarrow> w = v"
proof (induction arbitrary: w rule: unfolds.induct)
  case (unfolds_list a rs vs)
  from unfolds_list.prems unfolds_list.hyps(2) obtain ws
    where "w = PList ws" "list_all2 (unfolds P h) rs ws"
    by (auto elim: unfolds_refE)
  then show ?case using unfolds_list.IH by (auto dest: list_all2_unique)
next
  case (unfolds_dict a kvs vs)
  from unfolds_dict.prems unfolds_dict.hyps(2) obtain ws
    where "w = PDict (zip (map fst kvs) ws)" "list_all2 (unfolds P h) (map snd kvs) ws"
    by (auto elim: unfolds_refE)
  then show ?case using unfolds_dict.IH by (auto dest: list_all2_unique)
qed auto

lemma unfolds_cong:
  assumes "\<And>a. P a \<Longrightarrow> h' a = h a \<and> Q a"
  shows "unfolds P h r v \<Longrightarrow> unfolds Q h' r v"
proof (induction rule: unfolds.induct)
  case (unfolds_list a rs vs)
  then show ?case using assms [of a]
    by (intro unfolds.unfolds_list [of _ _ _ rs]) (auto elim: list_all2_mono)
next
  case (unfolds_dict a kvs vs)
  then show ?case using assms [of a]
    by (intro unfolds.unfolds_dict) (auto elim: list_all2_mono)
qed (auto intro: unfolds.intros)

abbreviation unfolds_to :: "pyheap \<Rightarrow> pyref \<Rightarrow> pyval \<Rightarrow> bool" where
  "unfolds_to \<equiv> unfolds (\<lambda>_. True)"

section \<open>The validation loop\<close>

text \<open>
  The stack holds \<open>(object, depth, leaving)\<close>, its top first; \<open>active\<close> is the set of the
  identities of the containers being visited.
\<close>

type_synonym visit = "pyref \<times> nat \<times> bool"

function validate_loop ::
  "json_limits \<Rightarrow> exn \<Rightarrow> pyheap \<Rightarrow> visit list \<Rightarrow> nat set \<Rightarrow> nat \<Rightarrow> nat \<Rightarrow> unit res" where
  "validate_loop L e h [] active nodes chars = Inr ()"
| "validate_loop L e h ((r, d, leaving) # stack) active nodes chars =
    (if leaving then
       (case r of
          RRef a \<Rightarrow> raise_if (a \<notin> active) (BuiltinExn KeyError)
                     (validate_loop L e h stack (active - {a}) nodes chars)
        | _ \<Rightarrow> Inl (BuiltinExn KeyError))
     else
       raise_if (max_nodes L < Suc nodes) e
      (raise_if (max_depth L < d) e
      (case r of
         RStr s \<Rightarrow>
           raise_if (max_characters L < chars + length s) e
          (raise_if (\<not> utf8_encodable s) e
          (validate_loop L e h stack active (Suc nodes) (chars + length s)))
       | RNone \<Rightarrow> validate_loop L e h stack active (Suc nodes) chars
       | RBool b \<Rightarrow> validate_loop L e h stack active (Suc nodes) chars
       | RInt i \<Rightarrow>
           raise_if (int_oversized i) e
          (validate_loop L e h stack active (Suc nodes) chars)
       | RFloat x \<Rightarrow>
           raise_if (x = NonFinite) e
          (validate_loop L e h stack active (Suc nodes) chars)
       | RRef a \<Rightarrow>
           (case h a of
              CList rs \<Rightarrow>
                raise_if (max_nodes L - Suc nodes < length rs) e
               (raise_if (a \<in> active) e
               (validate_loop L e h
                  (map (\<lambda>x. (x, Suc d, False)) rs @ (r, d, True) # stack)
                  (insert a active) (Suc nodes) chars))
            | CDict kvs \<Rightarrow>
                raise_if (max_nodes L - Suc nodes < length kvs) e
               (raise_if (a \<in> active) e
               (raise_if (KOther \<in> set (map fst kvs)) e
               (tryE (check_keys L e (map fst kvs) chars) (\<lambda>chars'.
                validate_loop L e h
                  (map (\<lambda>x. (x, Suc d, False)) (map snd kvs) @ (r, d, True) # stack)
                  (insert a active) (Suc nodes) chars')))))
       | ROther \<Rightarrow> Inl e)))"
  by pat_completeness auto
termination
  by (relation "measures [\<lambda>(L, e, h, stack, active, nodes, chars). max_nodes L + 1 - nodes,
                          \<lambda>(L, e, h, stack, active, nodes, chars). length stack]") auto

declare validate_loop.simps(2) [simp del]

text \<open>\<open>validate_json(value, ...)\<close>.\<close>

definition validate_json :: "json_limits \<Rightarrow> exn \<Rightarrow> pyheap \<Rightarrow> pyref \<Rightarrow> unit res" where
  "validate_json L e h r = validate_loop L e h [(r, 0, False)] {} 0 0"

section \<open>On finite objects the loop is the check of the tree\<close>

definition above :: "pyheap \<Rightarrow> nat set \<Rightarrow> pyval \<Rightarrow> bool" where
  "above h A v \<longleftrightarrow> (\<forall>a \<in> A. \<forall>w. unfolds_to h (RRef a) w \<longrightarrow> print_weight v < print_weight w)"

definition loop_after ::
  "json_limits \<Rightarrow> exn \<Rightarrow> pyheap \<Rightarrow> visit list \<Rightarrow> nat set \<Rightarrow> exn + nat \<times> nat \<Rightarrow> unit res" where
  "loop_after L e h stack A r = tryE r (\<lambda>c. validate_loop L e h stack A (fst c) (snd c))"

lemma loop_after_simps [simp]:
  "loop_after L e h stack A (Inl x) = Inl x"
  "loop_after L e h stack A (Inr (n, c)) = validate_loop L e h stack A n c"
  "loop_after L e h stack A (raise_if b x k) = raise_if b x (loop_after L e h stack A k)"
  by (auto simp: loop_after_def raise_if_def)

lemma loop_after_tryE: "loop_after L e h stack A (tryE r k) =
   tryE r (\<lambda>x. loop_after L e h stack A (k x))"
  by (cases r) (auto simp: loop_after_def)

lemma check_items_values: "check_items L e d kvs c = check_values L e d (map snd kvs) c"
proof (induction kvs arbitrary: c)
  case (Cons kv kvs)
  then have "check_items L e d kvs = check_values L e d (map snd kvs)" by (rule ext)
  then show ?case by (cases kv) simp
qed simp

lemma weight_list_child: "v \<in> set vs \<Longrightarrow> print_weight v < sum_list (map (\<lambda>v. print_weight v + k) vs) + 1"
  by (induction vs) auto

lemma weight_dict_child:
  "length ks = length vs \<Longrightarrow> v \<in> set vs \<Longrightarrow> print_weight v < print_weight (PDict (zip ks vs))"
proof -
  assume "length ks = length vs" and v: "v \<in> set vs"
  then have "map snd (zip ks vs) = vs" by simp
  then have "map (\<lambda>kv. print_weight (snd kv) + 3) (zip ks vs) = map (\<lambda>v. print_weight v + 3) vs"
    by (metis (no_types, lifting) list.map_comp comp_apply map_eq_conv)
  with weight_list_child [OF v, of 3] show ?thesis by simp
qed

lemma above_child:
  assumes "above h A p" "unfolds_to h (RRef a) p" "print_weight v < print_weight p"
  shows "above h (insert a A) v"
  unfolding above_def
proof (intro ballI allI impI)
  fix b w
  assume "b \<in> insert a A" and w: "unfolds_to h (RRef b) w"
  then consider "b = a" | "b \<in> A" by blast
  then show "print_weight v < print_weight w"
  proof cases
    case 1
    then show ?thesis using w assms(2,3) unfolds_unique by blast
  next
    case 2
    then have "print_weight p < print_weight w" using w assms(1) by (simp add: above_def)
    with assms(3) show ?thesis by simp
  qed
qed

lemma above_fresh: "above h A v \<Longrightarrow> unfolds_to h (RRef a) v \<Longrightarrow> a \<notin> A"
  by (auto simp: above_def)

lemma loop_values:
  assumes "list_all2 (\<lambda>r v. \<forall>stack n c. validate_loop L e h ((r, d, False) # stack) A n c =
      loop_after L e h stack A (check_value L e d v (n, c))) rs vs"
  shows "validate_loop L e h (map (\<lambda>x. (x, d, False)) rs @ stack) A n c =
      loop_after L e h stack A (check_values L e d vs (n, c))"
  using assms
proof (induction rs vs arbitrary: n c rule: list_all2_induct)
  case (Cons r rs v vs)
  have "loop_after L e h (map (\<lambda>x. (x, d, False)) rs @ stack) A c' =
        loop_after L e h stack A (tryE c' (check_values L e d vs))" for c'
    using Cons.IH by (cases c') (auto simp: loop_after_def)
  with Cons.hyps show ?case by simp
qed simp

lemma loop_value:
  "unfolds_to h r v \<Longrightarrow> above h A v \<Longrightarrow>
   validate_loop L e h ((r, d, False) # stack) A n c =
     loop_after L e h stack A (check_value L e d v (n, c))"
proof (induction arbitrary: A d stack n c rule: unfolds.induct)
  case (unfolds_list a rs vs)
  let ?v = "PList vs" and ?stack = "(RRef a, d, True) # stack"
  have tree: "list_all2 (unfolds_to h) rs vs"
    using unfolds_list.IH by (auto elim: list_all2_mono)
  then have here: "unfolds_to h (RRef a) ?v"
    using unfolds_list.hyps by (auto intro: unfolds.unfolds_list)
  have a: "a \<notin> A" using above_fresh unfolds_list.prems here by blast
  have "above h (insert a A) v" if "v \<in> set vs" for v
    using above_child [OF unfolds_list.prems here] weight_list_child [OF that, of 1] by simp
  then have "list_all2 (\<lambda>r v. \<forall>stack n c. validate_loop L e h ((r, Suc d, False) # stack) (insert a A) n c =
      loop_after L e h stack (insert a A) (check_value L e (Suc d) v (n, c))) rs vs"
    using unfolds_list.IH by (auto simp: list_all2_conv_all_nth)
  note children = loop_values [OF this, of ?stack "Suc n" c]
  have leave: "loop_after L e h ?stack (insert a A) x = loop_after L e h stack A x" for x
    using a by (cases x) (auto simp: loop_after_def validate_loop.simps(2))
  have len: "length rs = length vs" using tree by (rule list_all2_lengthD)
  from children leave a len unfolds_list.hyps show ?case
    by (simp add: validate_loop.simps(2) [of _ _ _ "RRef a"] check_value.simps)
next
  case (unfolds_dict a kvs vs)
  let ?v = "PDict (zip (map fst kvs) vs)" and ?stack = "(RRef a, d, True) # stack"
  have tree: "list_all2 (unfolds_to h) (map snd kvs) vs"
    using unfolds_dict.IH by (auto elim: list_all2_mono)
  then have here: "unfolds_to h (RRef a) ?v"
    using unfolds_dict.hyps by (auto intro: unfolds.unfolds_dict)
  have a: "a \<notin> A" using above_fresh unfolds_dict.prems here by blast
  have len: "length kvs = length vs" using tree by (auto dest: list_all2_lengthD)
  have "above h (insert a A) v" if "v \<in> set vs" for v
    using above_child [OF unfolds_dict.prems here] weight_dict_child [OF _ that, of "map fst kvs"] len
    by simp
  then have "list_all2 (\<lambda>r v. \<forall>stack n c. validate_loop L e h ((r, Suc d, False) # stack) (insert a A) n c =
      loop_after L e h stack (insert a A) (check_value L e (Suc d) v (n, c))) (map snd kvs) vs"
    using unfolds_dict.IH by (auto simp: list_all2_conv_all_nth)
  then have children: "validate_loop L e h (map (\<lambda>x. (x, Suc d, False)) (map snd kvs) @ ?stack)
      (insert a A) (Suc n) = (\<lambda>c. loop_after L e h ?stack (insert a A) (check_values L e (Suc d) vs (Suc n, c)))"
    by (intro ext loop_values)
  have leave: "loop_after L e h ?stack (insert a A) x = loop_after L e h stack A x" for x
    using a by (cases x) (auto simp: loop_after_def validate_loop.simps(2))
  from children leave a len unfolds_dict.hyps show ?case
    by (simp del: map_map add: validate_loop.simps(2) [of _ _ _ "RRef a"] check_value.simps check_items_values
        loop_after_tryE)
qed (auto simp: validate_loop.simps(2) check_value.simps)

lemma validate_json_tree:
  assumes "unfolds_to h r v"
  shows "validate_json L e h r = validate_value L e v"
proof -
  have "above h {} v" by (simp add: above_def)
  from loop_value [OF assms this] show ?thesis
    by (simp add: validate_json_def validate_value_def loop_after_def)
qed

section \<open>Objects that are not finite trees are rejected\<close>

lemma loop_accepts_trees:
  "validate_loop L e h stack A n c = Inr u \<Longrightarrow> (r, d, False) \<in> set stack \<Longrightarrow> \<exists>v. unfolds_to h r v"
proof (induction L e h stack A n c arbitrary: r d rule: validate_loop.induct)
  case (2 L e h r0 d0 leaving stack A n c)
  show ?case
  proof (cases "(r, d, False) \<in> set stack")
    case True
    with 2 show ?thesis
      by (fastforce simp: validate_loop.simps(2) res_simps split: if_splits pyref.splits pycell.splits)
  next
    case False
    with "2.prems" have [simp]: "r0 = r" "d0 = d" "\<not> leaving" by auto
    show ?thesis
    proof (cases r)
      case (RRef a)
      show ?thesis
      proof (cases "h a")
        case (CList rs)
        have "\<exists>v. unfolds_to h x v" if "x \<in> set rs" for x
          using "2.IH"(7) [of a rs x "Suc d"] "2.prems"(1) RRef CList that
          by (auto simp: validate_loop.simps(2) res_simps)
        then obtain f where "\<forall>x \<in> set rs. unfolds_to h x (f x)" by metis
        then have "list_all2 (unfolds_to h) rs (map f rs)"
          by (auto simp: list_all2_conv_all_nth)
        with RRef CList show ?thesis by (auto intro: unfolds.unfolds_list)
      next
        case (CDict kvs)
        have "\<exists>v. unfolds_to h x v" if "x \<in> set (map snd kvs)" for x
          using "2.IH"(8) [of a kvs _ x "Suc d"] "2.prems"(1) RRef CDict that
          by (auto simp: validate_loop.simps(2) res_simps)
        then obtain f where "\<forall>x \<in> set (map snd kvs). unfolds_to h x (f x)" by metis
        then have "list_all2 (unfolds_to h) (map snd kvs) (map f (map snd kvs))"
          by (auto simp: list_all2_conv_all_nth)
        with RRef CDict show ?thesis by (auto intro: unfolds.unfolds_dict)
      qed
    qed auto
  qed
qed simp

text \<open>
  The references still to be left are exactly the active containers, so \<open>remove\<close> never misses
  and the loop raises no error but the requested one.
\<close>

definition leaving_inv :: "nat set \<Rightarrow> visit list \<Rightarrow> bool" where
  "leaving_inv A stack \<longleftrightarrow>
     (\<exists>bs. map fst (filter (\<lambda>x. snd (snd x)) stack) = map RRef bs \<and> distinct bs \<and> set bs = A)"

lemma leaving_inv_simps:
  "leaving_inv A ((r, d, False) # stack) = leaving_inv A stack"
  "leaving_inv A (map (\<lambda>x. (x, d, False)) rs @ stack) = leaving_inv A stack"
  "leaving_inv A ((RRef a, d, True) # stack) \<longleftrightarrow> a \<in> A \<and> leaving_inv (A - {a}) stack"
proof -
  have "filter (\<lambda>x. snd (snd x)) (map (\<lambda>x. (x, d, False)) rs) = []" for rs :: "pyref list"
    by (induction rs) auto
  then show "leaving_inv A (map (\<lambda>x. (x, d, False)) rs @ stack) = leaving_inv A stack"
    by (simp add: leaving_inv_def)
  show "leaving_inv A ((r, d, False) # stack) = leaving_inv A stack"
    by (simp add: leaving_inv_def)
  show "leaving_inv A ((RRef a, d, True) # stack) \<longleftrightarrow> a \<in> A \<and> leaving_inv (A - {a}) stack"
  proof
    assume "leaving_inv A ((RRef a, d, True) # stack)"
    then obtain bs where "map fst (filter (\<lambda>x. snd (snd x)) ((RRef a, d, True) # stack)) = map RRef bs"
      "distinct bs" "set bs = A" unfolding leaving_inv_def by blast
    then show "a \<in> A \<and> leaving_inv (A - {a}) stack"
      by (cases bs) (auto simp: leaving_inv_def)
  next
    assume "a \<in> A \<and> leaving_inv (A - {a}) stack"
    then obtain bs where "map fst (filter (\<lambda>x. snd (snd x)) stack) = map RRef bs"
      "distinct bs" "set bs = A - {a}" "a \<in> A" by (auto simp: leaving_inv_def)
    then show "leaving_inv A ((RRef a, d, True) # stack)"
      unfolding leaving_inv_def by (intro exI [of _ "a # bs"]) auto
  qed
qed

lemma leaving_inv_ref: "leaving_inv A ((r, d, True) # stack) \<Longrightarrow> \<exists>a. r = RRef a"
  by (auto simp: leaving_inv_def)

lemma loop_error: "validate_loop L e h stack A n c = Inl x \<Longrightarrow> leaving_inv A stack \<Longrightarrow> x = e"
proof (induction L e h stack A n c rule: validate_loop.induct)
  case (2 L e h r d leaving stack A n c)
  show ?case
  proof (cases leaving)
    case True
    with "2.prems"(2) obtain a where "r = RRef a" by (auto dest: leaving_inv_ref)
    with True 2 show ?thesis
      by (auto simp: validate_loop.simps(2) leaving_inv_simps)
  next
    case False
    then have inv: "leaving_inv A stack"
      using "2.prems"(2) by (simp add: leaving_inv_simps)
    show ?thesis
    proof (cases r)
      case (RRef a)
      have step: "leaving_inv (insert a A) (map (\<lambda>x. (x, Suc d, False)) rs @ (r, d, True) # stack)"
        if "a \<notin> A" for rs
        using inv that RRef by (simp add: leaving_inv_simps)
      show ?thesis
      proof (cases "h a")
        case (CList rs)
        with RRef False step [of rs] "2.prems"(1) "2.IH"(7) [of a rs] show ?thesis
          by (auto simp: validate_loop.simps(2) res_simps split: if_splits)
      next
        case (CDict kvs)
        with RRef False step [of "map snd kvs"] "2.prems"(1) "2.IH"(8) [of a kvs] show ?thesis
          by (auto simp: validate_loop.simps(2) res_simps split: if_splits dest: check_keys_error)
      qed
    qed (use False inv 2 in \<open>auto simp: validate_loop.simps(2) res_simps split: if_splits\<close>)
  qed
qed simp

theorem validate_json_rejects:
  assumes "\<nexists>v. unfolds_to h r v"
  shows "validate_json L e h r = Inl e"
proof (cases "validate_json L e h r")
  case (Inl x)
  moreover have "leaving_inv {} [(r, 0, False)]" by (simp add: leaving_inv_def)
  ultimately show ?thesis
    unfolding validate_json_def by (metis loop_error)
next
  case (Inr u)
  then show ?thesis
    using assms loop_accepts_trees [of L e h "[(r, 0, False)]" "{}" 0 0 u r 0]
    by (simp add: validate_json_def)
qed

lemma validate_json_eq:
  "validate_json L e h r =
     (if \<exists>v. unfolds_to h r v then validate_value L e (THE v. unfolds_to h r v) else Inl e)"
proof (cases "\<exists>v. unfolds_to h r v")
  case True
  then obtain v where v: "unfolds_to h r v" by blast
  then have "(THE v. unfolds_to h r v) = v" by (auto intro: unfolds_unique)
  with v show ?thesis by (auto simp: validate_json_tree)
qed (simp add: validate_json_rejects)

end
