(* ===== verification/Json_Copy.thy ===== *)
theory Json_Copy
  imports Json_Graph
begin

text \<open>
  The defensive copy of \<open>safety_kernel/canonical.py\<close> (\<open>copy_json\<close>) on the heap: the loop fills
  freshly allocated containers from the ones it copies.  For a validated object it ends, leaves
  every existing object as it was, and returns an object that unfolds to the same tree through
  new addresses only, so no later mutation of the original can change the copy.
\<close>

section \<open>The copy loop\<close>

text \<open>
  \<open>next\<close> is the first unused address.  \<open>copy_children\<close> is the inner \<open>for item in source\<close>: a
  container child gets a fresh empty container, which is queued with the child it copies.
\<close>

definition is_container :: "pyref \<Rightarrow> bool" where
  "is_container r = (case r of RRef a \<Rightarrow> True | _ \<Rightarrow> False)"

fun empty_like :: "pycell \<Rightarrow> pycell" where
  "empty_like (CList rs) = CList []"
| "empty_like (CDict kvs) = CDict []"

fun copy_children :: "pyheap \<Rightarrow> nat \<Rightarrow> pyref list \<Rightarrow> (nat \<times> nat) list \<Rightarrow>
    pyref list \<times> pyheap \<times> nat \<times> (nat \<times> nat) list" where
  "copy_children h next [] stack = ([], h, next, stack)"
| "copy_children h next (RRef a # rs) stack =
     (case copy_children (h(next := empty_like (h a))) (Suc next) rs ((next, a) # stack) of
        (out, rest) \<Rightarrow> (RRef next # out, rest))"
| "copy_children h next (r # rs) stack =
     (case copy_children h next rs stack of (out, rest) \<Rightarrow> (r # out, rest))"

partial_function (option) copy_loop ::
  "pyheap \<Rightarrow> nat \<Rightarrow> (nat \<times> nat) list \<Rightarrow> (pyheap \<times> nat) option" where
  "copy_loop h next stack =
     (case stack of
        [] \<Rightarrow> Some (h, next)
      | (target, source) # stack' \<Rightarrow>
          (case h source of
             CList rs \<Rightarrow>
               (case copy_children h next rs stack' of
                  (out, h', next', stack'') \<Rightarrow>
                    copy_loop (h'(target := CList out)) next' stack'')
           | CDict kvs \<Rightarrow>
               (case copy_children h next (map snd kvs) stack' of
                  (out, h', next', stack'') \<Rightarrow>
                    copy_loop (h'(target := CDict (zip (map fst kvs) out))) next' stack'')))"

text \<open>\<open>copy_json(value)\<close>: \<open>None\<close> would be a copy that never ends.\<close>

definition copy_json :: "json_limits \<Rightarrow> exn \<Rightarrow> pyheap \<Rightarrow> nat \<Rightarrow> pyref \<Rightarrow> (pyheap \<times> pyref) res option" where
  "copy_json L e h next r =
     (case validate_json L e h r of
        Inl x \<Rightarrow> Some (Inl x)
      | Inr _ \<Rightarrow>
          (case r of
             RRef a \<Rightarrow>
               (case copy_loop (h(next := empty_like (h a))) (Suc next) [(next, a)] of
                  None \<Rightarrow> None
                | Some (h', next') \<Rightarrow> Some (Inr (h', RRef next)))
           | _ \<Rightarrow> Some (Inr (h, r))))"

section \<open>Correctness\<close>

text \<open>
  \<open>base\<close> separates the objects that exist from those the copy allocates: \<open>old\<close> and \<open>new\<close> unfold
  through addresses below it and from it on.
\<close>

abbreviation old :: "nat \<Rightarrow> pyheap \<Rightarrow> pyref \<Rightarrow> pyval \<Rightarrow> bool" where
  "old base \<equiv> unfolds (\<lambda>a. a < base)"

abbreviation new :: "nat \<Rightarrow> pyheap \<Rightarrow> pyref \<Rightarrow> pyval \<Rightarrow> bool" where
  "new base \<equiv> unfolds (\<lambda>a. base \<le> a)"

abbreviation pending :: "nat \<Rightarrow> pyheap \<Rightarrow> (nat \<times> nat) list \<Rightarrow> pyval list \<Rightarrow> bool" where
  "pending base h \<equiv> list_all2 (\<lambda>p v. old base h (RRef (snd p)) v)"

abbreviation finished :: "nat \<Rightarrow> pyheap \<Rightarrow> (nat \<times> nat) list \<Rightarrow> pyval list \<Rightarrow> bool" where
  "finished base h \<equiv> list_all2 (\<lambda>p v. new base h (RRef (fst p)) v)"

abbreviation total_weight :: "pyval list \<Rightarrow> nat" where
  "total_weight vs \<equiv> sum_list (map print_weight vs)"

lemma old_upd: "base \<le> t \<Longrightarrow> old base h r v \<Longrightarrow> old base (h(t := c)) r v"
  by (rule unfolds_cong [of _ _ h]) auto

lemma pending_upd: "base \<le> t \<Longrightarrow> pending base h ps vs \<Longrightarrow> pending base (h(t := c)) ps vs"
  by (erule list_all2_mono) (rule old_upd)

lemma scalar_new: "\<not> is_container r \<Longrightarrow> old base h r v \<Longrightarrow> new base h' r v"
  by (cases r) (auto simp: is_container_def)

definition children_copied where
  "children_copied base h next stack ws vs out h' next' stack' us \<longleftrightarrow>
      pending base h' stack' us \<and>
      next \<le> next' \<and> distinct (map fst stack') \<and> (\<forall>p \<in> set stack'. fst p < next') \<and>
      (\<forall>a < next. h' a = h a) \<and>
      (\<forall>p \<in> set stack'. next \<le> fst p \<or> p \<in> set stack) \<and> set stack \<subseteq> set stack' \<and>
      total_weight us \<le> total_weight ws + total_weight vs \<and>
      (\<forall>h''. finished base h'' stack' us \<longrightarrow>
          list_all2 (new base h'') out ws \<and> finished base h'' stack vs)"

lemma copy_children_scalar:
  "\<not> is_container r \<Longrightarrow> copy_children h next (r # rs) stack =
     (case copy_children h next rs stack of (out, rest) \<Rightarrow> (r # out, rest))"
  by (cases r) (auto simp: is_container_def)

lemma copy_children_correct:
  "copy_children h next rs stack = (out, h', next', stack') \<Longrightarrow>
   list_all2 (old base h) rs ws \<Longrightarrow> base \<le> next \<Longrightarrow> pending base h stack vs \<Longrightarrow>
   \<forall>p \<in> set stack. fst p < next \<Longrightarrow> distinct (map fst stack) \<Longrightarrow>
   \<exists>us. children_copied base h next stack ws vs out h' next' stack' us"
proof (induction rs arbitrary: h "next" stack out h' next' stack' ws vs)
  case Nil
  then show ?case by (auto simp: children_copied_def)
next
  case (Cons r rs)
  obtain w ws1 where ws: "ws = w # ws1" and w: "old base h r w" and ws1: "list_all2 (old base h) rs ws1"
    using Cons.prems(2) by (auto simp: list_all2_Cons1)
  show ?case
  proof (cases "is_container r")
    case False
    then obtain out1 where out1: "copy_children h next rs stack = (out1, h', next', stack')"
      and out: "out = r # out1"
      using Cons.prems(1) by (auto simp: copy_children_scalar split: prod.splits)
    have r: "new base h'' r w" for h'' using False w by (rule scalar_new)
    from Cons.IH [OF out1 ws1 Cons.prems(3-6)] show ?thesis
      by (auto simp: children_copied_def out ws r intro: trans_le_add2)
  next
    case True
    then obtain a where r: "r = RRef a" by (auto simp: is_container_def split: pyref.splits)
    let ?h = "h(next := empty_like (h a))"
    obtain out1 where out1: "copy_children ?h (Suc next) rs ((next, a) # stack) = (out1, h', next', stack')"
      and out: "out = RRef next # out1"
      using Cons.prems(1) r by (auto split: prod.splits)
    have "list_all2 (old base ?h) rs ws1"
      using ws1 Cons.prems(3) by (auto elim!: list_all2_mono intro: old_upd)
    moreover have "base \<le> Suc next" using Cons.prems(3) by simp
    moreover have "pending base ?h ((next, a) # stack) (w # vs)"
      using old_upd [OF Cons.prems(3) w] pending_upd [OF Cons.prems(3,4)] r by simp
    moreover have "\<forall>p \<in> set ((next, a) # stack). fst p < Suc next"
      "distinct (map fst ((next, a) # stack))"
      using Cons.prems(5,6) by auto
    ultimately obtain us where
      "children_copied base ?h (Suc next) ((next, a) # stack) ws1 (w # vs) out1 h' next' stack' us"
      using Cons.IH [OF out1] by blast
    then have "children_copied base h next stack ws vs out h' next' stack' us"
      unfolding children_copied_def out ws by auto
    then show ?thesis by blast
  qed
qed

definition loop_copied where
  "loop_copied base h next stack vs h' next' \<longleftrightarrow>
     next \<le> next' \<and> (\<forall>a < next. a \<notin> fst ` set stack \<longrightarrow> h' a = h a) \<and> finished base h' stack vs"

lemma loop_copied_step:
  assumes children: "children_copied base h next stack ws vs out h1 next1 stack1 us"
    and rest: "loop_copied base (h1(t := c)) next1 stack1 us h' next'"
    and t: "t < next" "t \<notin> fst ` set stack"
    and cell: "\<And>h''. h'' t = c \<Longrightarrow> list_all2 (new base h'') out ws \<Longrightarrow> new base h'' (RRef t) v"
  shows "loop_copied base h next ((t, s) # stack) (v # vs) h' next'"
proof -
  have next1: "next \<le> next1" and keep: "\<And>a. a < next \<Longrightarrow> h1 a = h a"
    and origin: "\<And>a. a \<in> fst ` set stack1 \<Longrightarrow> next \<le> a \<or> a \<in> fst ` set stack"
    and finish: "finished base h' stack1 us \<Longrightarrow> list_all2 (new base h') out ws \<and> finished base h' stack vs"
    using children unfolding children_copied_def by blast+
  have next': "next1 \<le> next'" and fin: "finished base h' stack1 us"
    and keep': "\<And>a. a < next1 \<Longrightarrow> a \<notin> fst ` set stack1 \<Longrightarrow> h' a = (h1(t := c)) a"
    using rest unfolding loop_copied_def by blast+
  have old_addr: "a \<notin> fst ` set stack1" if "a < next" "a \<notin> fst ` set stack" for a
    using origin [of a] that by (meson not_le)
  have "h' t = c"
    using keep' [of t] old_addr [OF t] t(1) next1 by simp
  then have "new base h' (RRef t) v" using finish [OF fin] cell by blast
  moreover have "h' a = h a" if "a < next" "a \<noteq> t" "a \<notin> fst ` set stack" for a
    using keep' [of a] keep [of a] old_addr [of a] that next1 by simp
  ultimately show ?thesis
    using finish [OF fin] next1 next' by (auto simp: loop_copied_def)
qed

lemma total_weight_dict: "length ks = length ws \<Longrightarrow> total_weight ws < print_weight (PDict (zip ks ws))"
  by (induction ks ws rule: list_induct2) auto

lemma copy_loop_correct:
  "pending base h stack vs \<Longrightarrow> base \<le> next \<Longrightarrow>
   \<forall>p \<in> set stack. base \<le> fst p \<and> fst p < next \<Longrightarrow> distinct (map fst stack) \<Longrightarrow>
   \<exists>h' next'. copy_loop h next stack = Some (h', next') \<and> loop_copied base h next stack vs h' next'"
proof (induction "total_weight vs" arbitrary: h "next" stack vs rule: less_induct)
  case less
  show ?case
  proof (cases stack)
    case Nil
    with less.prems show ?thesis by (subst copy_loop.simps) (auto simp: loop_copied_def)
  next
    case (Cons p stack0)
    obtain t s where p: "p = (t, s)" by (cases p)
    obtain v vs0 where vs: "vs = v # vs0" and v: "old base h (RRef s) v" and vs0: "pending base h stack0 vs0"
      using less.prems(1) Cons p by (auto simp: list_all2_Cons1)
    have t: "base \<le> t" "t < next" "t \<notin> fst ` set stack0"
      using less.prems(3,4) Cons p by auto
    have stack0: "\<forall>p \<in> set stack0. fst p < next" "distinct (map fst stack0)"
      "\<forall>p \<in> set stack0. base \<le> fst p"
      using less.prems(3,4) Cons by auto
    have go: "\<exists>h' next'. copy_loop (h1(t := c out)) next1 stack1 = Some (h', next') \<and>
        loop_copied base h next stack vs h' next'"
      if step: "copy_children h next rs stack0 = (out, h1, next1, stack1)"
        and tree: "list_all2 (old base h) rs ws"
        and smaller: "total_weight ws < print_weight v"
        and cell: "\<And>h''. h'' t = c out \<Longrightarrow> list_all2 (new base h'') out ws \<Longrightarrow> new base h'' (RRef t) v"
      for rs ws out h1 next1 stack1 c
    proof -
      obtain us where us: "children_copied base h next stack0 ws vs0 out h1 next1 stack1 us"
        using copy_children_correct [OF step tree less.prems(2) vs0 stack0(1,2)] by blast
      note u = us [unfolded children_copied_def]
      have "total_weight us < total_weight vs" using u smaller vs by simp
      moreover have "pending base (h1(t := c out)) stack1 us" using u t(1) pending_upd by blast
      moreover have "\<forall>p \<in> set stack1. base \<le> fst p \<and> fst p < next1"
        using u stack0(3) less.prems(2) by (meson order.trans)
      moreover have "base \<le> next1" "distinct (map fst stack1)" using u less.prems(2) by auto
      ultimately obtain h' next' where "copy_loop (h1(t := c out)) next1 stack1 = Some (h', next')"
        "loop_copied base (h1(t := c out)) next1 stack1 us h' next'"
        using less.hyps by blast
      with loop_copied_step [OF us _ t(2,3) cell] show ?thesis
        unfolding Cons p vs by blast
    qed
    consider (List) rs ws where "v = PList ws" "s < base" "h s = CList rs" "list_all2 (old base h) rs ws"
      | (Dict) kvs ws where "v = PDict (zip (map fst kvs) ws)" "s < base" "h s = CDict kvs"
          "list_all2 (old base h) (map snd kvs) ws"
      using v by (auto elim: unfolds_refE)
    then show ?thesis
    proof cases
      case List
      have "total_weight ws < print_weight v" unfolding List(1) by (induction ws) auto
      moreover obtain out h1 next1 stack1
        where step: "copy_children h next rs stack0 = (out, h1, next1, stack1)"
        by (rule prod_cases4)
      ultimately have "\<exists>h' next'. copy_loop (h1(t := CList out)) next1 stack1 = Some (h', next') \<and>
          loop_copied base h next stack vs h' next'"
        using go [OF step List(4), where c = CList] List(1) t(1) by (auto intro: unfolds.unfolds_list)
      then show ?thesis
        using List(3) Cons p step by (subst copy_loop.simps) simp
    next
      case Dict
      have len: "length (map fst kvs) = length ws" using Dict(4) by (auto dest: list_all2_lengthD)
      have "total_weight ws < print_weight v" unfolding Dict(1) using len by (rule total_weight_dict)
      moreover have "new base h'' (RRef t) v"
        if "h'' t = CDict (zip (map fst kvs) out)" "list_all2 (new base h'') out ws" for h'' out
      proof -
        have l: "length out = length (map fst kvs)" using that(2) len by (auto dest: list_all2_lengthD)
        have "new base h'' (RRef t) (PDict (zip (map fst (zip (map fst kvs) out)) ws))"
          using that t(1) l by (intro unfolds.unfolds_dict) auto
        then show ?thesis using Dict(1) l by simp
      qed
      moreover obtain out h1 next1 stack1
        where step: "copy_children h next (map snd kvs) stack0 = (out, h1, next1, stack1)"
        by (rule prod_cases4)
      ultimately have "\<exists>h' next'. copy_loop (h1(t := CDict (zip (map fst kvs) out))) next1 stack1 = Some (h', next') \<and>
          loop_copied base h next stack vs h' next'"
        using go [OF step Dict(4), where c = "\<lambda>out. CDict (zip (map fst kvs) out)"] by blast
      then show ?thesis
        using Dict(3) Cons p step by (subst copy_loop.simps) simp
    qed
  qed
qed

text \<open>
  The contract of \<open>copy_json\<close>: on a validated object whose containers all lie below the first
  unused address it returns a copy that unfolds to the same tree through new addresses only, and
  no existing container has changed.
\<close>

lemma copy_json_fresh_copy:
  assumes "old base h r v"
  shows "(validate_value L e v = Inl x \<longrightarrow> copy_json L e h base r = Some (Inl x)) \<and>
    (validate_value L e v = Inr () \<longrightarrow>
      (\<exists>h' r'. copy_json L e h base r = Some (Inr (h', r')) \<and>
         new base h' r' v \<and> (\<forall>a < base. h' a = h a)))"
proof -
  have val: "validate_json L e h r = validate_value L e v"
    using assms by (intro validate_json_tree) (auto intro: unfolds_cong [of _ h h])
  show ?thesis
  proof (cases r)
    case (RRef a)
    let ?h = "h(base := empty_like (h a))"
    have "pending base ?h [(base, a)] [v]"
      using assms RRef by (auto intro: old_upd)
    from copy_loop_correct [OF this, of "Suc base"] obtain h' next'
      where "copy_loop ?h (Suc base) [(base, a)] = Some (h', next')"
        "loop_copied base ?h (Suc base) [(base, a)] [v] h' next'" by auto
    with val RRef show ?thesis by (auto simp: copy_json_def loop_copied_def)
  qed (use val assms scalar_new [of r base h v h] in \<open>auto simp: copy_json_def is_container_def\<close>)
qed

end
