(* ===== verification/Json_Canonical.thy ===== *)
theory Json_Canonical
  imports Json_Value
begin

text \<open>
  The canonical text identifies a JSON value: two printable values have the same text exactly
  when they are equal up to the order in which their dicts list their items.  Fingerprints are
  digests of these texts, so they identify content as far as SHA-256 does.
\<close>

section \<open>Printable values and their normal form\<close>

text \<open>
  The \<open>repr\<close> text of a finite float uses digits, signs, a point and an exponent, and always has
  a point or an exponent.
\<close>

definition is_num_char :: "char \<Rightarrow> bool" where
  "is_num_char c = (c \<in> set ''0123456789+-.e'')"

definition float_text :: "string \<Rightarrow> bool" where
  "float_text r = (list_all is_num_char r \<and> (CHR ''.'' \<in> set r \<or> CHR ''e'' \<in> set r))"

fun printable :: "pyval \<Rightarrow> bool" where
  "printable (PFloat (Finite r)) = float_text r"
| "printable (PFloat NonFinite) = False"
| "printable POther = False"
| "printable (PList vs) = list_all printable vs"
| "printable (PDict kvs) =
     (distinct (map fst kvs) \<and> KOther \<notin> set (map fst kvs) \<and> list_all (\<lambda>kv. printable (snd kv)) kvs)"
| "printable _ = True"

fun normal :: "pyval \<Rightarrow> pyval" where
  "normal (PList vs) = PList (map normal vs)"
| "normal (PDict kvs) = PDict (sorted_items (map (\<lambda>kv. (fst kv, normal (snd kv))) kvs))"
| "normal v = v"

lemma sorted_items_set [simp]: "set (sorted_items kvs) = set kvs"
  by (simp add: sorted_items_def)

lemma sorted_items_idem [simp]: "sorted_items (sorted_items kvs) = sorted_items kvs"
  by (simp add: sorted_items_def)

lemma canon_normal: "canon (normal v) = canon v"
proof (induction v rule: canon.induct)
  case (1 vs)
  then have "map canon (map normal vs) = map canon vs" by simp
  then show ?case by (simp del: map_map)
next
  case (2 kvs)
  let ?c = "map (\<lambda>kv. (fst kv, canon (snd kv)))" and ?n = "map (\<lambda>kv. (fst kv, normal (snd kv)))"
  have "sorted_items (?c (sorted_items (?n kvs))) = ?c (sorted_items (?n kvs))"
    by (simp only: sorted_items_map [of canon] sorted_items_idem)
  also have "\<dots> = ?c (?n (sorted_items kvs))"
    by (simp only: sorted_items_map [of normal])
  also have "\<dots> = ?c (sorted_items kvs)"
    using 2 by simp
  also have "\<dots> = sorted_items (?c kvs)"
    by (simp only: sorted_items_map [of canon])
  finally show ?case by (simp only: normal.simps canon.simps)
qed auto

section \<open>Scalars\<close>

definition delimited :: "string \<Rightarrow> bool" where
  "delimited r \<longleftrightarrow> r = [] \<or> hd r \<in> set '',]}''"

lemma delimited_simps [simp]:
  "delimited []" "delimited (CHR '','' # r)" "delimited (CHR '']'' # r)" "delimited (CHR ''}'' # r)"
  by (simp_all add: delimited_def)

lemma delimited_not_num: "delimited (c # r) \<Longrightarrow> \<not> is_num_char c"
  by (auto simp: delimited_def is_num_char_def)

lemma num_prefix:
  "list_all is_num_char a \<Longrightarrow> list_all is_num_char b \<Longrightarrow> delimited r \<Longrightarrow> delimited s \<Longrightarrow>
   a @ r = b @ s \<Longrightarrow> a = b \<and> r = s"
proof (induction a arbitrary: b)
  case Nil
  then show ?case by (cases b) (auto dest: delimited_not_num)
next
  case (Cons c a)
  show ?case
  proof (cases b)
    case Nil
    with Cons.prems have "r \<noteq> []" "\<not> is_num_char c" by (auto dest: delimited_not_num)
    with Cons.prems show ?thesis by simp
  next
    case (Cons d b')
    with Cons.IH [of b'] Cons.prems show ?thesis by auto
  qed
qed

definition is_digit :: "char \<Rightarrow> bool" where
  "is_digit c = (c \<in> set ''0123456789'')"

definition digit_value :: "char \<Rightarrow> nat" where
  "digit_value c = code_point c - 48"

lemma digit_cases: "n < 10 \<Longrightarrow> n \<in> {0,1,2,3,4,5,6,7,8,9::nat}"
  by auto

lemma digit_char: "n < 10 \<Longrightarrow> is_digit (''0123456789'' ! n) \<and> digit_value (''0123456789'' ! n) = n"
  by (drule digit_cases) (auto simp: is_digit_def digit_value_def code_point_def)

lemma nat_digits_props:
  "nat_digits n \<noteq> [] \<and> list_all is_digit (nat_digits n) \<and>
   foldl (\<lambda>a c. 10 * a + digit_value c) 0 (nat_digits n) = n"
proof (induction n rule: nat_digits.induct)
  case (1 n)
  show ?case
  proof (cases "n < 10")
    case True
    then show ?thesis using digit_char [of n] by (subst (1 2 3) nat_digits.simps) simp
  next
    case False
    then have "foldl (\<lambda>a c. 10 * a + digit_value c) 0 (nat_digits (n div 10)) = n div 10"
      "list_all is_digit (nat_digits (n div 10))" using 1 by auto
    with False digit_char [of "n mod 10"] show ?thesis
      by (subst (1 2 3) nat_digits.simps) simp
  qed
qed

lemma nat_digits_inject [simp]: "nat_digits m = nat_digits n \<longleftrightarrow> m = n"
  by (metis nat_digits_props)

lemma digit_num_char: "is_digit c \<Longrightarrow> is_num_char c \<and> c \<noteq> CHR ''-'' \<and> c \<noteq> CHR ''.'' \<and> c \<noteq> CHR ''e''"
  by (auto simp: is_digit_def is_num_char_def)

lemma nat_digits_chars:
  "c \<in> set (nat_digits n) \<Longrightarrow> is_num_char c \<and> c \<noteq> CHR ''-'' \<and> c \<noteq> CHR ''.'' \<and> c \<noteq> CHR ''e''"
  using nat_digits_props [of n] digit_num_char by (auto simp: list_all_iff)

lemma int_repr_chars:
  "list_all is_num_char (int_repr i) \<and> CHR ''.'' \<notin> set (int_repr i) \<and> CHR ''e'' \<notin> set (int_repr i)"
proof -
  have "is_num_char (CHR ''-'')" by (simp add: is_num_char_def)
  then show ?thesis by (auto simp: int_repr_def list_all_iff dest: nat_digits_chars)
qed

lemma int_repr_inject [simp]: "int_repr i = int_repr j \<longleftrightarrow> i = j"
proof -
  have "nat_digits n \<noteq> CHR ''-'' # s" for n s
    using nat_digits_chars [of "CHR ''-''" n] by auto
  moreover have "CHR ''-'' # s \<noteq> nat_digits n" for n s
    using nat_digits_chars [of "CHR ''-''" n] by (metis list.set_intros(1))
  ultimately show ?thesis
    by (cases "i < 0"; cases "j < 0") (simp_all add: int_repr_def eq_nat_nat_iff)
qed

section \<open>Strings\<close>

definition hex_value :: "char \<Rightarrow> nat" where
  "hex_value c = (if is_digit c then digit_value c else code_point c - 87)"

text \<open>Reading one escaped character back.\<close>

fun unescape :: "string \<Rightarrow> char \<times> string" where
  "unescape (c # r) =
     (if c \<noteq> CHR 0x5C then (c, r)
      else case r of
        e # r' \<Rightarrow>
          if e = CHR ''n'' then (CHR 0x0A, r')
          else if e = CHR ''r'' then (CHR 0x0D, r')
          else if e = CHR ''t'' then (CHR 0x09, r')
          else if e = CHR ''f'' then (CHR 0x0C, r')
          else if e = CHR ''b'' then (CHR 0x08, r')
          else if e = CHR ''u'' then (char_of (16 * hex_value (r' ! 2) + hex_value (r' ! 3)), drop 4 r')
          else (e, r')
      | [] \<Rightarrow> (c, r))"
| "unescape [] = (CHR 0x22, [])"

lemma hex_char_value: "n < 16 \<Longrightarrow> hex_value (''0123456789abcdef'' ! n) = n"
proof -
  assume "n < 16"
  then have "n \<in> {0,1,2,3,4,5,6,7,8,9,10,11,12,13,14,15}"
    unfolding insert_iff empty_iff by presburger
  then show ?thesis
    by (auto simp: hex_value_def is_digit_def digit_value_def code_point_def)
qed

lemma unescape_escape: "unescape (json_escape c @ r) = (c, r)"
proof -
  let ?h = "''0123456789abcdef''"
  consider (short) "c \<in> {CHR 0x22, CHR 0x5C, CHR 0x0A, CHR 0x0D, CHR 0x09, CHR 0x0C, CHR 0x08}"
    | (control) "code_point c < 32" "c \<notin> {CHR 0x22, CHR 0x5C, CHR 0x0A, CHR 0x0D, CHR 0x09, CHR 0x0C, CHR 0x08}"
    | (plain) "\<not> code_point c < 32" "c \<notin> {CHR 0x22, CHR 0x5C, CHR 0x0A, CHR 0x0D, CHR 0x09, CHR 0x0C, CHR 0x08}"
    by blast
  then show ?thesis
  proof cases
    case short
    then show ?thesis by (auto simp: json_escape_def)
  next
    case control
    then have e: "json_escape c = [CHR 0x5C, CHR ''u'', CHR ''0'', CHR ''0'',
        ?h ! (code_point c div 16), ?h ! (code_point c mod 16)]"
      by (simp add: json_escape_def)
    have "hex_value (?h ! (code_point c div 16)) = code_point c div 16"
      "hex_value (?h ! (code_point c mod 16)) = code_point c mod 16"
      using control(1) by (auto intro: hex_char_value)
    moreover have "char_of (16 * (code_point c div 16) + code_point c mod 16) = c"
      by (simp add: code_point_def)
    ultimately show ?thesis unfolding e by (simp del: nth_Cons_numeral)
  next
    case plain
    then show ?thesis by (simp add: json_escape_def)
  qed
qed

lemma escape_inject: "json_escape c @ r = json_escape d @ s \<Longrightarrow> c = d \<and> r = s"
  by (metis prod.inject unescape_escape)

lemma escape_head: "json_escape c \<noteq> CHR 0x22 # r" "json_escape c \<noteq> []"
  by (auto simp: json_escape_def)

lemma escape_not_quote: "json_escape c @ r \<noteq> CHR 0x22 # s"
  using escape_head [of c] by (cases "json_escape c") auto

lemma quoted_inject:
  "concat (map json_escape s) @ CHR 0x22 # r = concat (map json_escape t) @ CHR 0x22 # r' \<Longrightarrow>
   s = t \<and> r = r'"
proof (induction s arbitrary: t)
  case Nil
  then show ?case
    by (cases t) (auto simp: escape_not_quote [symmetric] dest: sym)
next
  case (Cons c s)
  show ?case
  proof (cases t)
    case Nil
    with Cons.prems show ?thesis by (simp add: escape_not_quote)
  next
    case (Cons d t')
    with Cons.prems have "json_escape c @ concat (map json_escape s) @ CHR 0x22 # r =
      json_escape d @ concat (map json_escape t') @ CHR 0x22 # r'" by simp
    from escape_inject [OF this] Cons.IH [of t'] Cons show ?thesis by simp
  qed
qed

lemma json_quote_inject: "json_quote s @ r = json_quote t @ r' \<Longrightarrow> s = t \<and> r = r'"
  using quoted_inject [of s r t r'] by (simp add: json_quote_def)

section \<open>Containers\<close>

text \<open>
  \<open>readable p g x y\<close>: the texts that \<open>p\<close> prints for \<open>x\<close> and \<open>y\<close> can be told apart, and told
  apart from what follows them, up to the view \<open>g\<close> of the items.
\<close>

definition readable :: "('a \<Rightarrow> string) \<Rightarrow> ('a \<Rightarrow> 'b) \<Rightarrow> 'a \<Rightarrow> 'a \<Rightarrow> bool" where
  "readable p g x y \<longleftrightarrow> (\<forall>r s. delimited r \<longrightarrow> delimited s \<longrightarrow> p x @ r = p y @ s \<longrightarrow> g x = g y \<and> r = s)"

lemma readableD: "readable p g x y \<Longrightarrow> p x @ r = p y @ s \<Longrightarrow> delimited r \<Longrightarrow> delimited s \<Longrightarrow> g x = g y \<and> r = s"
  by (auto simp: readable_def)

lemma join_comma_Cons: "join_comma (s # ss) = s @ (if ss = [] then [] else '','' @ join_comma ss)"
  by (cases ss) auto

lemma join_readable:
  assumes "cl = CHR '']'' \<or> cl = CHR ''}''"
  shows "\<forall>x \<in> set xs. \<forall>y \<in> set ys. readable p g x y \<Longrightarrow>
    \<forall>x \<in> set xs \<union> set ys. p x \<noteq> [] \<and> hd (p x) \<noteq> cl \<Longrightarrow>
    join_comma (map p xs) @ cl # r = join_comma (map p ys) @ cl # s \<Longrightarrow>
    map g xs = map g ys \<and> r = s"
proof (induction xs arbitrary: ys)
  case Nil
  show ?case
  proof (cases ys)
    case (Cons y ys')
    with Nil.prems(2) obtain c cs where "p y = c # cs" "c \<noteq> cl" by (cases "p y") auto
    with Nil.prems(3) Cons show ?thesis by (simp add: join_comma_Cons)
  qed (use Nil.prems(3) in simp)
next
  case (Cons x xs)
  show ?case
  proof (cases ys)
    case Nil
    from Cons.prems(2) obtain c cs where "p x = c # cs" "c \<noteq> cl" by (cases "p x") auto
    with Cons.prems(3) Nil show ?thesis by (simp add: join_comma_Cons)
  next
    case (Cons y ys')
    let ?rest = "\<lambda>zs r. (if zs = [] then [] else '','' @ join_comma (map p zs)) @ cl # r"
    have "p x @ ?rest xs r = p y @ ?rest ys' s"
      using Cons.prems(3) Cons by (simp add: join_comma_Cons)
    moreover have "delimited (?rest zs t)" for zs t
      using assms by (auto simp: delimited_def)
    moreover have "readable p g x y" using Cons.prems(1) Cons by simp
    ultimately have xy: "g x = g y" and rest: "?rest xs r = ?rest ys' s"
      by (blast dest: readableD)+
    show ?thesis
    proof (cases "xs = [] \<or> ys' = []")
      case True
      with rest assms have "xs = [] \<and> ys' = [] \<and> r = s" by (auto split: if_splits)
      with xy Cons show ?thesis by simp
    next
      case False
      with rest have "join_comma (map p xs) @ cl # r = join_comma (map p ys') @ cl # s" by simp
      with Cons.IH [of ys'] Cons.prems(1,2) xy Cons show ?thesis by simp
    qed
  qed
qed

fun is_number :: "pyval \<Rightarrow> bool" where
  "is_number (PInt i) = True"
| "is_number (PFloat x) = True"
| "is_number _ = False"

lemma number_text: "is_number v \<Longrightarrow> printable v \<Longrightarrow> list_all is_num_char (canon v) \<and> canon v \<noteq> []"
  using int_repr_chars nat_digits_props
  by (cases v rule: printable.cases) (auto simp: float_text_def int_repr_def)

lemma number_head: "is_number v \<Longrightarrow> printable v \<Longrightarrow> is_num_char (hd (canon v))"
  using number_text [of v] by (cases "canon v") auto

lemma canon_nonempty: "printable v \<Longrightarrow> canon v \<noteq> []"
  using number_text [of v] by (cases v) (auto simp: json_quote_def)

text \<open>The first character tells the kind of a value, and no value starts as a closing bracket.\<close>

definition head_of :: "pyval \<Rightarrow> char option" where
  "head_of v = (case v of
     PNone \<Rightarrow> Some (CHR ''n'') | PBool True \<Rightarrow> Some (CHR ''t'') | PBool False \<Rightarrow> Some (CHR ''f'')
   | PStr s \<Rightarrow> Some (CHR 0x22) | PList vs \<Rightarrow> Some (CHR ''['') | PDict kvs \<Rightarrow> Some (CHR ''{'')
   | _ \<Rightarrow> None)"

lemma head_of_canon:
  "printable v \<Longrightarrow> (case head_of v of Some c \<Rightarrow> hd (canon v) = c \<and> \<not> is_num_char c \<and> \<not> is_number v
     | None \<Rightarrow> is_num_char (hd (canon v)) \<and> is_number v)"
  using number_head [of v]
  by (cases v) (auto simp: head_of_def json_quote_def is_num_char_def split: bool.splits)

lemma canon_head_not_closing: "printable v \<Longrightarrow> hd (canon v) \<noteq> CHR '']'' \<and> hd (canon v) \<noteq> CHR ''}''"
  using head_of_canon [of v]
  by (auto simp: head_of_def is_num_char_def split: option.splits pyval.splits bool.splits)

lemma same_head:
  assumes "printable v" "printable w" "canon v @ r = canon w @ s"
  shows "head_of v = head_of w"
proof -
  have "hd (canon v) = hd (canon w)"
    using assms canon_nonempty by (metis hd_append2)
  then show ?thesis
    using head_of_canon [OF assms(1)] head_of_canon [OF assms(2)] by (auto split: option.splits)
qed

lemma number_readable:
  assumes "is_number v" "is_number w" "printable v" "printable w"
  shows "readable canon normal v w"
  unfolding readable_def
proof (intro allI impI)
  fix r s
  assume d: "delimited r" "delimited s" and eq: "canon v @ r = canon w @ s"
  have "canon v = canon w \<and> r = s"
    using num_prefix [OF _ _ d eq] number_text assms by blast
  moreover from this have "v = w"
    using assms int_repr_chars
    by (cases v rule: printable.cases; cases w rule: printable.cases)
      (auto simp: float_text_def dest: sym)
  ultimately show "normal v = normal w \<and> r = s" by simp
qed

lemma scalar_readable:
  assumes "printable v" "printable w" "\<And>vs. v \<noteq> PList vs" "\<And>kvs. v \<noteq> PDict kvs"
  shows "readable canon normal v w"
proof (cases "is_number v \<and> is_number w")
  case True
  with assms number_readable show ?thesis by blast
next
  case False
  show ?thesis
    unfolding readable_def
  proof (intro allI impI)
    fix r s
    assume eq: "canon v @ r = canon w @ s"
    have head: "head_of v = head_of w" by (rule same_head [OF assms(1,2) eq])
    then have "head_of v \<noteq> None"
      using False head_of_canon [OF assms(1)] head_of_canon [OF assms(2)] by (auto split: option.splits)
    then consider "v = PNone" | b where "v = PBool b" | t where "v = PStr t"
      using assms(3,4) by (cases v) (auto simp: head_of_def)
    then show "normal v = normal w \<and> r = s"
    proof cases
      case 1
      with head have "w = PNone" by (auto simp: head_of_def split: pyval.splits bool.splits)
      with 1 eq show ?thesis by simp
    next
      case (2 b)
      with head have "w = PBool b" by (cases b) (auto simp: head_of_def split: pyval.splits bool.splits)
      with 2 eq show ?thesis by simp
    next
      case (3 t)
      with head obtain t' where "w = PStr t'" by (auto simp: head_of_def split: pyval.splits bool.splits)
      with 3 eq show ?thesis by (auto dest: json_quote_inject)
    qed
  qed
qed

lemma canon_readable: "printable v \<Longrightarrow> printable w \<Longrightarrow> readable canon normal v w"
proof (induction v arbitrary: w rule: canon.induct)
  case (1 vs)
  show ?case
    unfolding readable_def
  proof (intro allI impI)
    fix r s
    assume d: "delimited r" "delimited s" and eq: "canon (PList vs) @ r = canon w @ s"
    have "head_of w = Some (CHR ''['')"
      using same_head [OF "1.prems" eq] by (simp add: head_of_def)
    then obtain ws where w: "w = PList ws"
      by (auto simp: head_of_def split: pyval.splits bool.splits)
    have "\<forall>v \<in> set vs. \<forall>w \<in> set ws. readable canon normal v w"
      using 1 w by (auto simp: list_all_iff)
    moreover have "\<forall>v \<in> set vs \<union> set ws. canon v \<noteq> [] \<and> hd (canon v) \<noteq> CHR '']''"
      using "1.prems" w canon_nonempty canon_head_not_closing by (auto simp: list_all_iff)
    moreover have "join_comma (map canon vs) @ CHR '']'' # r = join_comma (map canon ws) @ CHR '']'' # s"
      using eq w by simp
    ultimately show "normal (PList vs) = normal w \<and> r = s"
      using join_readable [of "CHR '']''" vs ws canon normal r s] w by simp
  qed
next
  case (2 kvs)
  let ?p = "\<lambda>kv. json_quote (key_str (fst kv)) @ '':'' @ canon (snd kv)"
  let ?g = "\<lambda>kv. (fst kv, normal (snd kv))"
  have shape: "canon (PDict us) = ''{'' @ join_comma (map ?p (sorted_items us)) @ ''}''" for us
    by (simp add: sorted_items_map [of canon] o_def)
  show ?case
    unfolding readable_def
  proof (intro allI impI)
    fix r s
    assume d: "delimited r" "delimited s" and eq: "canon (PDict kvs) @ r = canon w @ s"
    have "head_of w = Some (CHR ''{'')"
      using same_head [OF "2.prems" eq] by (simp add: head_of_def)
    then obtain us where w: "w = PDict us"
      by (auto simp: head_of_def split: pyval.splits bool.splits)
    have "readable ?p ?g x y" if x: "x \<in> set kvs" and y: "y \<in> set us" for x y
      unfolding readable_def
    proof (intro allI impI)
      fix r s
      assume d: "delimited r" "delimited s" and "?p x @ r = ?p y @ s"
      then have "key_str (fst x) = key_str (fst y)" "canon (snd x) @ r = canon (snd y) @ s"
        using json_quote_inject [of "key_str (fst x)" "'':'' @ canon (snd x) @ r" "key_str (fst y)"
            "'':'' @ canon (snd y) @ s"] by auto
      moreover have "fst x \<noteq> KOther" "fst y \<noteq> KOther" using "2.prems" w x y by force+
      moreover have "readable canon normal (snd x) (snd y)"
        using 2 w x y by (auto simp: list_all_iff)
      ultimately show "?g x = ?g y \<and> r = s"
        using d by (cases "fst x"; cases "fst y") (auto dest: readableD)
    qed
    then have "\<forall>x \<in> set (sorted_items kvs). \<forall>y \<in> set (sorted_items us). readable ?p ?g x y" by simp
    moreover have "\<forall>x \<in> set (sorted_items kvs) \<union> set (sorted_items us). ?p x \<noteq> [] \<and> hd (?p x) \<noteq> CHR ''}''"
      by (simp add: json_quote_def)
    moreover have "join_comma (map ?p (sorted_items kvs)) @ CHR ''}'' # r =
        join_comma (map ?p (sorted_items us)) @ CHR ''}'' # s"
      using eq unfolding w shape by simp
    ultimately have "map ?g (sorted_items kvs) = map ?g (sorted_items us) \<and> r = s"
      by (intro join_readable) auto
    then show "normal (PDict kvs) = normal w \<and> r = s"
      unfolding w normal.simps sorted_items_map [of normal] by simp
  qed
qed (rule scalar_readable; simp)+

lemma canon_inject:
  assumes "printable v" "printable w"
  shows "canon v = canon w \<longleftrightarrow> normal v = normal w"
proof
  assume "canon v = canon w"
  then show "normal v = normal w"
    using readableD [OF canon_readable [OF assms], of "[]" "[]"] by simp
next
  assume "normal v = normal w"
  then show "canon v = canon w" by (metis canon_normal)
qed

end
