(* ===== verification/Json_Bounds.thy ===== *)
theory Json_Bounds
  imports Json_Value
begin

text \<open>
  The bounds of a JSON value as sizes: the validation loop, which counts and stops at the first
  excess, accepts exactly the values whose depth, nodes and characters are within the limits and
  whose scalars and keys are JSON.
\<close>

fun node_count :: "pyval \<Rightarrow> nat" where
  "node_count (PList vs) = 1 + sum_list (map node_count vs)"
| "node_count (PDict kvs) = 1 + sum_list (map (\<lambda>kv. node_count (snd kv)) kvs)"
| "node_count _ = 1"

fun char_count :: "pyval \<Rightarrow> nat" where
  "char_count (PStr s) = length s"
| "char_count (PList vs) = sum_list (map char_count vs)"
| "char_count (PDict kvs) = sum_list (map (\<lambda>kv. length (key_str (fst kv)) + char_count (snd kv)) kvs)"
| "char_count _ = 0"

fun depth_within :: "nat \<Rightarrow> pyval \<Rightarrow> bool" where
  "depth_within d (PList vs) = (vs = [] \<or> (0 < d \<and> list_all (depth_within (d - 1)) vs))"
| "depth_within d (PDict kvs) = (kvs = [] \<or> (0 < d \<and> list_all (\<lambda>kv. depth_within (d - 1) (snd kv)) kvs))"
| "depth_within d _ = True"

fun scalars_ok :: "pyval \<Rightarrow> bool" where
  "scalars_ok (PInt i) = (\<not> int_oversized i)"
| "scalars_ok (PFloat x) = (x \<noteq> NonFinite)"
| "scalars_ok (PList vs) = list_all scalars_ok vs"
| "scalars_ok (PDict kvs) = (KOther \<notin> set (map fst kvs) \<and> list_all (\<lambda>kv. scalars_ok (snd kv)) kvs)"
| "scalars_ok POther = False"
| "scalars_ok _ = True"

lemma node_count_pos [simp]: "0 < node_count v"
  by (cases v) auto

lemma length_le_nodes: "length vs \<le> sum_list (map node_count vs)"
proof (induction vs)
  case (Cons v vs)
  then show ?case using node_count_pos [of v] by (simp del: node_count_pos)
qed simp

lemma check_keys_Inr:
  "chars \<le> max_characters L \<Longrightarrow> check_keys L e ks chars = Inr c \<longleftrightarrow>
     c = chars + sum_list (map (\<lambda>k. length (key_str k)) ks) \<and> c \<le> max_characters L"
  by (induction ks arbitrary: chars) (auto simp: res_simps not_less)

definition within :: "json_limits \<Rightarrow> nat \<Rightarrow> pyval list \<Rightarrow> nat \<times> nat \<Rightarrow> nat \<times> nat \<Rightarrow> bool" where
  "within L d vs c c' \<longleftrightarrow>
     c' = (fst c + sum_list (map node_count vs), snd c + sum_list (map char_count vs)) \<and>
     fst c' \<le> max_nodes L \<and> snd c' \<le> max_characters L \<and> list_all scalars_ok vs \<and>
     (vs = [] \<or> (d \<le> max_depth L \<and> list_all (depth_within (max_depth L - d)) vs))"

lemma within_Cons:
  "within L d (v # vs) c c' \<longleftrightarrow> (\<exists>m. within L d [v] c m \<and> within L d vs m c')"
  by (auto simp: within_def)

lemma check_within:
  "fst c \<le> max_nodes L \<Longrightarrow> snd c \<le> max_characters L \<Longrightarrow>
     check_value L e d v c = Inr c' \<longleftrightarrow> within L d [v] c c'"
  "fst c \<le> max_nodes L \<Longrightarrow> snd c \<le> max_characters L \<Longrightarrow>
     check_values L e d vs c = Inr c' \<longleftrightarrow> within L d vs c c'"
  "fst c \<le> max_nodes L \<Longrightarrow> snd c \<le> max_characters L \<Longrightarrow>
     check_items L e d kvs c = Inr c' \<longleftrightarrow> within L d (map snd kvs) c c'"
proof (induction L e d v c and L e d vs c and L e d kvs c arbitrary: c' and c' and c'
    rule: check_value_check_values_check_items.induct)
  case (1 L e d v nodes chars)
  obtain n k where c': "c' = (n, k)" by (cases c')
  show ?case
  proof (cases v)
    case (PList vs)
    have "check_value L e d v (nodes, chars) = Inr c' \<longleftrightarrow>
        Suc nodes \<le> max_nodes L \<and> d \<le> max_depth L \<and> length vs \<le> max_nodes L - Suc nodes \<and>
        within L (Suc d) vs (Suc nodes, chars) c'"
      using 1 by (auto simp: c' PList check_value.simps [of L e d "PList vs"] res_simps not_less)
    also have "\<dots> \<longleftrightarrow> within L d [v] (nodes, chars) c'"
      using length_le_nodes [of vs] PList by (auto simp: within_def)
    finally show ?thesis .
  next
    case (PDict kvs)
    have len: "length kvs \<le> sum_list (map (\<lambda>kv. node_count (snd kv)) kvs)"
      using length_le_nodes [of "map snd kvs"] by (simp add: o_def)
    have chars: "sum_list (map (\<lambda>kv. length (key_str (fst kv)) + char_count (snd kv)) kvs) =
        sum_list (map (\<lambda>kv. length (key_str (fst kv))) kvs) +
        sum_list (map (\<lambda>kv. char_count (snd kv)) kvs)"
      by (simp add: sum_list_addf)
    let ?c = "chars + sum_list (map (\<lambda>k. length (key_str k)) (map fst kvs))"
    have "check_value L e d v (nodes, chars) = Inr c' \<longleftrightarrow>
        Suc nodes \<le> max_nodes L \<and> d \<le> max_depth L \<and> length kvs \<le> max_nodes L - Suc nodes \<and>
        KOther \<notin> set (map fst kvs) \<and> ?c \<le> max_characters L \<and>
        within L (Suc d) (map snd kvs) (Suc nodes, ?c) c'"
      using 1 by (auto simp: c' PDict check_value.simps [of L e d "PDict kvs"] res_simps not_less
          check_keys_Inr)
    also have "\<dots> \<longleftrightarrow> within L d [v] (nodes, chars) c'"
      using len PDict by (auto simp: within_def chars o_def list_all_iff)
    finally show ?thesis .
  qed (use 1 in \<open>auto simp: check_value.simps [of L e d] res_simps not_less within_def\<close>)
next
  case (3 L e d v vs c)
  have "check_values L e d (v # vs) c = Inr c' \<longleftrightarrow>
      (\<exists>m. within L d [v] c m \<and> check_values L e d vs m = Inr c')"
    using "3.IH"(1) [OF "3.prems"] by (simp add: tryE_Inr)
  also have "\<dots> \<longleftrightarrow> (\<exists>m. within L d [v] c m \<and> within L d vs m c')"
  proof -
    have "check_values L e d vs m = Inr c' \<longleftrightarrow> within L d vs m c'" if m: "within L d [v] c m" for m
      using "3.IH"(1) [OF "3.prems", of m] m by (intro "3.IH"(2)) (auto simp: within_def)
    then show ?thesis by blast
  qed
  finally show ?case by (simp only: within_Cons [of L d v vs])
next
  case (5 L e d k v kvs c)
  have "check_items L e d ((k, v) # kvs) c = Inr c' \<longleftrightarrow>
      (\<exists>m. within L d [v] c m \<and> check_items L e d kvs m = Inr c')"
    using "5.IH"(1) [OF "5.prems"] by (simp add: tryE_Inr)
  also have "\<dots> \<longleftrightarrow> (\<exists>m. within L d [v] c m \<and> within L d (map snd kvs) m c')"
  proof -
    have "check_items L e d kvs m = Inr c' \<longleftrightarrow> within L d (map snd kvs) m c'" if m: "within L d [v] c m" for m
      using "5.IH"(1) [OF "5.prems", of m] m by (intro "5.IH"(2)) (auto simp: within_def)
    then show ?thesis by blast
  qed
  finally show ?case by (simp only: within_Cons [of L d v "map snd kvs"] list.map snd_conv)
qed (auto simp: within_def)

lemma validate_value_iff:
  "validate_value L e v = Inr () \<longleftrightarrow>
     scalars_ok v \<and> node_count v \<le> max_nodes L \<and> char_count v \<le> max_characters L \<and>
     depth_within (max_depth L) v"
  by (auto simp: validate_value_def tryE_Inr check_within(1) within_def)

lemma validate_value_eq:
  "validate_value L e v = (if scalars_ok v \<and> node_count v \<le> max_nodes L \<and>
     char_count v \<le> max_characters L \<and> depth_within (max_depth L) v then Inr () else Inl e)"
  using validate_value_iff [of L e v] validate_value_error [of L e v]
  by (cases "validate_value L e v") auto

section \<open>Adding up the size of a document\<close>

text \<open>
  \<open>fits d n c v\<close>: depth at most \<open>d\<close>, at most \<open>n\<close> nodes and \<open>c\<close> characters.  The sizes of the
  documents of the packages are bounded by adding up those of their parts.
\<close>

definition fits :: "nat \<Rightarrow> nat \<Rightarrow> nat \<Rightarrow> pyval \<Rightarrow> bool" where
  "fits d n c v \<longleftrightarrow> scalars_ok v \<and> depth_within d v \<and> node_count v \<le> n \<and> char_count v \<le> c"

lemma depth_within_mono: "depth_within d v \<Longrightarrow> d \<le> d' \<Longrightarrow> depth_within d' v"
proof (induction v arbitrary: d d')
  case (PList vs)
  then show ?case by (auto simp: list_all_iff)
next
  case (PDict kvs)
  then show ?case by (auto simp: list_all_iff)
qed simp_all

lemma fits_mono: "fits d n c v \<Longrightarrow> d \<le> d' \<Longrightarrow> n \<le> n' \<Longrightarrow> c \<le> c' \<Longrightarrow> fits d' n' c' v"
  using depth_within_mono by (auto simp: fits_def)

lemma fits_validate:
  "fits d n c v \<Longrightarrow> d \<le> max_depth L \<Longrightarrow> n \<le> max_nodes L \<Longrightarrow> c \<le> max_characters L \<Longrightarrow>
   validate_value L e v = Inr ()"
  using fits_mono [of d n c v "max_depth L" "max_nodes L" "max_characters L"]
  by (simp add: fits_def validate_value_iff)

lemma fits_str [intro]: "length s \<le> c \<Longrightarrow> fits d 1 c (PStr s)"
  by (simp add: fits_def)

lemma sum_list_le_bound: "(\<And>x. x \<in> set xs \<Longrightarrow> f x \<le> k) \<Longrightarrow> sum_list (map f xs) \<le> length xs * (k::nat)"
  by (induction xs) (auto simp: add_mono)

lemma fits_list:
  assumes "\<And>v. v \<in> set vs \<Longrightarrow> fits d n c v" "length vs \<le> k"
  shows "fits (Suc d) (Suc (k * n)) (k * c) (PList vs)"
proof -
  have "sum_list (map node_count vs) \<le> length vs * n" "sum_list (map char_count vs) \<le> length vs * c"
    using assms(1) by (auto simp: fits_def intro!: sum_list_le_bound)
  moreover have "length vs * n \<le> k * n" "length vs * c \<le> k * c"
    using assms(2) by (rule mult_le_mono1)+
  ultimately have "sum_list (map node_count vs) \<le> k * n" "sum_list (map char_count vs) \<le> k * c"
    by linarith+
  then show ?thesis
    using assms(1) by (auto simp: fits_def list_all_iff)
qed

lemma fits_map_list:
  "(\<And>x. x \<in> set xs \<Longrightarrow> fits d n c (f x)) \<Longrightarrow> length xs \<le> k \<Longrightarrow>
   fits (Suc d) (Suc (k * n)) (k * c) (PList (map f xs))"
  by (rule fits_list) auto

lemma fits_str_list:
  "(\<And>s. s \<in> set ss \<Longrightarrow> length s \<le> c) \<Longrightarrow> length ss \<le> k \<Longrightarrow>
   fits (Suc d) (Suc k) (k * c) (str_list ss)"
  unfolding str_list_def using fits_map_list [of ss d 1 c PStr k] fits_str by simp

text \<open>The size of a dict display is computed from its literal keys.\<close>

lemma fits_obj:
  "fits (Suc d) n c (obj kvs) \<longleftrightarrow>
     list_all (\<lambda>kv. scalars_ok (snd kv) \<and> depth_within d (snd kv)) kvs \<and>
     Suc (sum_list (map (\<lambda>kv. node_count (snd kv)) kvs)) \<le> n \<and>
     sum_list (map (\<lambda>kv. length (fst kv) + char_count (snd kv)) kvs) \<le> c"
  by (induction kvs arbitrary: n c) (auto simp: fits_def obj_def o_def case_prod_unfold list_all_iff)

end
