(* ===== verification/Py_Values.thy ===== *)
theory Py_Values
  imports Json_Value Sha256
begin

text \<open>
  Values of the standard library that Memory OS and Personal Context share: UUIDs and instants with
  their texts, texts without surrounding whitespace, numbers between 0 and 1, and the integers that
  the interpreter prints.
\<close>

section \<open>Texts and numbers\<close>

definition validate_exact_text :: "'e \<Rightarrow> string \<Rightarrow> 'e + unit" where
  "validate_exact_text e value =
     raise_if (py_strip value = []) e
    (raise_if (value \<noteq> py_strip value) e (Inr ()))"

definition exact_text_ok :: "string \<Rightarrow> bool" where
  "exact_text_ok s \<longleftrightarrow> s \<noteq> [] \<and> py_strip s = s"

lemma validate_exact_text_simp [simp]:
  "validate_exact_text e s = (if exact_text_ok s then Inr () else Inl e)"
  by (auto simp: validate_exact_text_def exact_text_ok_def raise_if_def)

text \<open>The interpreter refuses to print integers of more than 4,300 digits.\<close>

definition int_str_limit :: int where
  "int_str_limit = 10 ^ 4300"

fun ints_printable :: "pyval \<Rightarrow> bool" where
  "ints_printable (PInt i) = (\<bar>i\<bar> < int_str_limit)"
| "ints_printable (PList vs) = list_all ints_printable vs"
| "ints_printable (PDict kvs) = list_all (\<lambda>kv. ints_printable (snd kv)) kvs"
| "ints_printable _ = True"

text \<open>
  \<open>0.0 <= x <= 1.0\<close> of a finite float, read off its \<open>repr\<close>: zeroes, one, a fraction written
  \<open>0.d\<dots>\<close>, or a positive number with a negative exponent.
\<close>

definition repr_in_unit :: "string \<Rightarrow> bool" where
  "repr_in_unit r =
     (r = ''-0.0'' \<or> r = ''1.0'' \<or> take 2 r = ''0.'' \<or>
      (take 1 r \<noteq> ''-'' \<and> CHR ''e'' \<in> set r \<and>
       take 1 (tl (dropWhile (\<lambda>c. c \<noteq> CHR ''e'') r)) = ''-''))"

fun confidence_value :: "pyval \<Rightarrow> pyfloat option" where
  "confidence_value (PInt i) =
     (if i = 0 then Some (Finite ''0.0'') else if i = 1 then Some (Finite ''1.0'') else None)"
| "confidence_value (PFloat (Finite r)) = (if repr_in_unit r then Some (Finite r) else None)"
| "confidence_value _ = None"

text \<open>
  The integers that have no double: \<open>math.isfinite\<close> and \<open>float\<close> raise \<open>OverflowError\<close> on them. They are those
  at least as large as the middle between the largest double and \<open>2 ^ 1024\<close>.
\<close>

definition float_overflow :: "pyval \<Rightarrow> bool" where
  "float_overflow v = (case v of PInt i \<Rightarrow> 2 ^ 1024 - 2 ^ 970 \<le> \<bar>i\<bar> | _ \<Rightarrow> False)"

lemma confidence_no_overflow: "confidence_value v = Some x \<Longrightarrow> \<not> float_overflow v"
  by (cases v rule: confidence_value.cases) (auto simp: float_overflow_def split: if_splits)

section \<open>UUIDs and instants\<close>

type_synonym uuid = "128 word"

definition uuid_str :: "uuid \<Rightarrow> string" where
  "uuid_str u = (let h = hex_digits 32 (unat u) in
     take 8 h @ ''-'' @ take 4 (drop 8 h) @ ''-'' @ take 4 (drop 12 h) @ ''-'' @
     take 4 (drop 16 h) @ ''-'' @ drop 20 h)"

definition sorted_uuids :: "uuid list \<Rightarrow> uuid list" where
  "sorted_uuids us = sort_key uuid_str (remdups us)"

text \<open>An aware or naive \<open>datetime\<close>; the offset is in seconds.\<close>

record py_datetime =
  dt_year :: nat
  dt_month :: nat
  dt_day :: nat
  dt_hour :: nat
  dt_minute :: nat
  dt_second :: nat
  dt_microsecond :: nat
  dt_utcoffset :: "int option"

fun dec_digits :: "nat \<Rightarrow> nat \<Rightarrow> string" where
  "dec_digits 0 n = []"
| "dec_digits (Suc k) n = dec_digits k (n div 10) @ [''0123456789'' ! (n mod 10)]"

text \<open>\<open>isoformat(timespec="microseconds")\<close> of an instant in UTC, with \<open>+00:00\<close> written \<open>Z\<close>.\<close>

definition utc_text :: "py_datetime \<Rightarrow> string" where
  "utc_text t =
     dec_digits 4 (dt_year t) @ ''-'' @ dec_digits 2 (dt_month t) @ ''-'' @ dec_digits 2 (dt_day t) @
     ''T'' @ dec_digits 2 (dt_hour t) @ '':'' @ dec_digits 2 (dt_minute t) @ '':'' @
     dec_digits 2 (dt_second t) @ ''.'' @ dec_digits 6 (dt_microsecond t) @ ''Z''"

lemma hex_char_inject:
  assumes "hex_char m = hex_char n"
  shows "m mod 16 = n mod 16"
proof -
  have "\<forall>i < 16. \<forall>j < 16. ''0123456789abcdef'' ! i = ''0123456789abcdef'' ! j \<longrightarrow> i = j"
    by (simp add: All_less_Suc numeral_eq_Suc)
  with assms show ?thesis
    by (simp add: hex_char_def)
qed

lemma hex_digits_inject: "hex_digits k m = hex_digits k n \<Longrightarrow> m mod 16 ^ k = n mod 16 ^ k"
proof (induction k arbitrary: m n)
  case (Suc k)
  have "hex_digits k (m div 16) = hex_digits k (n div 16)" and c: "hex_char m = hex_char n"
    using Suc.prems by simp_all
  then have "m div 16 mod 16 ^ k = n div 16 mod 16 ^ k" by (blast intro: Suc.IH)
  moreover have "m mod 16 = n mod 16" using c by (rule hex_char_inject)
  moreover have "x mod 16 ^ Suc k = 16 * (x div 16 mod 16 ^ k) + x mod 16" for x :: nat
    by (simp only: power_Suc mod_mult2_eq)
  ultimately show ?case by simp
qed simp

lemma uuid_str_inject [simp]: "uuid_str u = uuid_str v \<longleftrightarrow> u = v"
proof
  assume eq: "uuid_str u = uuid_str v"
  define a b where "a = hex_digits 32 (unat u)" and "b = hex_digits 32 (unat v)"
  have len: "length a = 32" "length b = 32" by (simp_all add: a_def b_def)
  have split: "w = take 8 w @ take 4 (drop 8 w) @ take 4 (drop 12 w) @ take 4 (drop 16 w) @ drop 20 w"
    for w :: string
  proof -
    have "take 4 (drop 16 w) @ drop 20 w = drop 16 w"
      using append_take_drop_id [of 4 "drop 16 w"] by simp
    moreover have "take 4 (drop 12 w) @ drop 16 w = drop 12 w"
      using append_take_drop_id [of 4 "drop 12 w"] by simp
    moreover have "take 4 (drop 8 w) @ drop 12 w = drop 8 w"
      using append_take_drop_id [of 4 "drop 8 w"] by simp
    ultimately show ?thesis by simp
  qed
  have "take 8 a = take 8 b \<and> take 4 (drop 8 a) = take 4 (drop 8 b) \<and>
    take 4 (drop 12 a) = take 4 (drop 12 b) \<and> take 4 (drop 16 a) = take 4 (drop 16 b) \<and>
    drop 20 a = drop 20 b"
    using eq len by (simp add: uuid_str_def Let_def flip: a_def b_def)
  then have "a = b" using split [of a] split [of b] by metis
  then have "unat u mod 16 ^ 32 = unat v mod 16 ^ 32"
    unfolding a_def b_def by (rule hex_digits_inject)
  moreover have "unat w < 16 ^ 32" for w :: uuid
    using unsigned_less [of w, where ?'a = nat] by simp
  ultimately show "u = v" by (simp add: word_unat_eq_iff)
qed simp

lemma sorted_uuids_props [simp]:
  "set (sorted_uuids us) = set us" "sorted (map uuid_str (sorted_uuids us))"
  "distinct (sorted_uuids us)"
  by (simp_all add: sorted_uuids_def)

lemma sorted_uuids_id: "sorted_uuids us = us \<longleftrightarrow> distinct us \<and> sorted (map uuid_str us)"
  by (metis distinct_remdups_id sort_key_sorted_id sorted_uuids_def sorted_uuids_props(2,3))

lemma inj_uuid_str [simp]: "inj_on uuid_str A"
  by (simp add: inj_on_def)

end
