(* ===== verification/Memory_Models.thy ===== *)
theory Memory_Models
  imports Py_Values
begin

text \<open>
  The records of Memory OS (\<open>memory/models.py\<close>) and their validation.
\<close>

datatype provenance_type =
    ExplicitOwnerStatement
  | DirectObservation
  | DerivedInference
  | SystemEvent
  | TrustedManualImport

fun provenance_type_value :: "provenance_type \<Rightarrow> string" where
  "provenance_type_value ExplicitOwnerStatement = ''explicit_owner_statement''"
| "provenance_type_value DirectObservation = ''direct_observation''"
| "provenance_type_value DerivedInference = ''derived_inference''"
| "provenance_type_value SystemEvent = ''system_event''"
| "provenance_type_value TrustedManualImport = ''trusted_manual_import''"

lemma provenance_type_value_inject [simp]:
  "provenance_type_value a = provenance_type_value b \<longleftrightarrow> a = b"
  by (cases a; cases b; simp)

datatype memory_type = Episodic | Semantic | Preference | Social | Spatial | Procedural | Failure

fun memory_type_value :: "memory_type \<Rightarrow> string" where
  "memory_type_value Episodic = ''episodic''"
| "memory_type_value Semantic = ''semantic''"
| "memory_type_value Preference = ''preference''"
| "memory_type_value Social = ''social''"
| "memory_type_value Spatial = ''spatial''"
| "memory_type_value Procedural = ''procedural''"
| "memory_type_value Failure = ''failure''"

lemma memory_type_value_inject [simp]: "memory_type_value a = memory_type_value b \<longleftrightarrow> a = b"
  by (cases a; cases b; simp)

datatype memory_status = Active | Superseded | Retracted

fun memory_status_value :: "memory_status \<Rightarrow> string" where
  "memory_status_value Active = ''active''"
| "memory_status_value Superseded = ''superseded''"
| "memory_status_value Retracted = ''retracted''"

lemma memory_status_value_inject [simp]: "memory_status_value a = memory_status_value b \<longleftrightarrow> a = b"
  by (cases a; cases b; simp)

abbreviation invalid_memory_data :: exn where
  "invalid_memory_data \<equiv> MemoryExn InvalidMemoryDataError"
abbreviation invalid_confidence :: exn where
  "invalid_confidence \<equiv> MemoryExn InvalidConfidenceError"
abbreviation invalid_provenance :: exn where
  "invalid_provenance \<equiv> MemoryExn InvalidProvenanceError"

section \<open>Validation\<close>

definition validate_nonempty_text :: "string \<Rightarrow> unit res" where
  "validate_nonempty_text s = validate_exact_text invalid_memory_data s"

text \<open>The same check on an optional text: \<open>None\<close> is not a string.\<close>

definition validate_optional_text :: "string option \<Rightarrow> unit res" where
  "validate_optional_text s =
     (case s of None \<Rightarrow> Inl invalid_memory_data | Some t \<Rightarrow> validate_nonempty_text t)"

definition validate_confidence :: "pyval \<Rightarrow> unit res" where
  "validate_confidence c =
     raise_if (float_overflow c) (BuiltinExn OverflowError)
    (raise_if (confidence_value c = None) invalid_confidence (Inr ()))"

text \<open>\<open>math.isfinite\<close> converts the number, so a huge integer is not reported as an invalid confidence.\<close>

lemma huge_confidence_overflows: "validate_confidence (PInt (10 ^ 400)) = Inl (BuiltinExn OverflowError)"
  by (simp add: validate_confidence_def float_overflow_def)

lemma validate_confidence_Inr: "validate_confidence c = Inr u \<longleftrightarrow> confidence_value c \<noteq> None"
  by (auto simp: validate_confidence_def raise_if_def dest: confidence_no_overflow)

definition validate_utc_datetime :: "py_datetime \<Rightarrow> unit res" where
  "validate_utc_datetime t = raise_if (dt_utcoffset t \<noteq> Some 0) invalid_memory_data (Inr ())"

text \<open>\<open><\<close> of two instants in UTC.\<close>

definition dt_fields :: "py_datetime \<Rightarrow> nat list" where
  "dt_fields t = [dt_year t, dt_month t, dt_day t, dt_hour t, dt_minute t, dt_second t,
     dt_microsecond t]"

definition dt_before :: "py_datetime \<Rightarrow> py_datetime \<Rightarrow> bool" where
  "dt_before a b = (dt_fields a < dt_fields b)"

text \<open>
  The recursion over a tree. Like the context, Memory OS bounds neither the size nor the depth of its
  data; the interpreter's bound on the depth of recursion is not modelled.
\<close>

fun memory_json_ok :: "pyval \<Rightarrow> bool" where
  "memory_json_ok (PFloat x) = (x \<noteq> NonFinite)"
| "memory_json_ok (PList vs) = list_all memory_json_ok vs"
| "memory_json_ok (PDict kvs) =
     list_all (\<lambda>kv. fst kv \<noteq> KOther \<and> memory_json_ok (snd kv)) kvs"
| "memory_json_ok POther = False"
| "memory_json_ok _ = True"

definition validate_json_value :: "pyval \<Rightarrow> unit res" where
  "validate_json_value v = raise_if (\<not> memory_json_ok v) invalid_memory_data (Inr ())"

definition copy_mapping :: "(pykey \<times> pyval) list \<Rightarrow> (pykey \<times> pyval) list res" where
  "copy_mapping kvs = tryE (validate_json_value (PDict kvs)) (\<lambda>_. Inr kvs)"

section \<open>Records\<close>

record provenance =
  pv_type :: provenance_type
  pv_source_id :: string
  pv_details :: "(pykey \<times> pyval) list"

text \<open>\<open>except InvalidMemoryDataError as error: raise InvalidProvenanceError\<close>.\<close>

definition as_provenance_error :: "'a res \<Rightarrow> 'a res" where
  "as_provenance_error r =
     (case r of Inl (MemoryExn InvalidMemoryDataError) \<Rightarrow> Inl invalid_provenance | _ \<Rightarrow> r)"

definition mk_provenance ::
  "provenance_type \<Rightarrow> string \<Rightarrow> (pykey \<times> pyval) list \<Rightarrow> provenance res" where
  "mk_provenance ptype source_id details =
     tryE (as_provenance_error
       (tryE (validate_nonempty_text source_id) (\<lambda>_. copy_mapping details))) (\<lambda>copied.
     Inr \<lparr>pv_type = ptype, pv_source_id = source_id, pv_details = copied\<rparr>)"

record memory_record =
  mr_memory_id :: uuid
  mr_memory_type :: memory_type
  mr_subject :: string
  mr_predicate :: string
  mr_value :: pyval
  mr_provenance :: provenance
  mr_confidence :: pyval
  mr_observed_at :: py_datetime
  mr_created_at :: py_datetime
  mr_status :: memory_status
  mr_status_changed_at :: py_datetime
  mr_supersedes :: "uuid option"
  mr_revision_reason :: "string option"
  mr_status_reason :: "string option"
  mr_metadata :: "(pykey \<times> pyval) list"

definition check_memory_record :: "memory_record \<Rightarrow> memory_record res" where
  "check_memory_record r =
     tryE (validate_nonempty_text (mr_subject r)) (\<lambda>_.
     tryE (validate_nonempty_text (mr_predicate r)) (\<lambda>_.
     tryE (validate_json_value (mr_value r)) (\<lambda>_.
     tryE (mk_provenance (pv_type (mr_provenance r)) (pv_source_id (mr_provenance r))
             (pv_details (mr_provenance r))) (\<lambda>prov.
     tryE (validate_confidence (mr_confidence r)) (\<lambda>_.
     tryE (validate_utc_datetime (mr_observed_at r)) (\<lambda>_.
     tryE (validate_utc_datetime (mr_created_at r)) (\<lambda>_.
     tryE (validate_utc_datetime (mr_status_changed_at r)) (\<lambda>_.
     raise_if (dt_before (mr_status_changed_at r) (mr_created_at r)) invalid_memory_data
    (raise_if (mr_supersedes r = Some (mr_memory_id r)) invalid_memory_data
    (raise_if (mr_supersedes r = None \<and> mr_revision_reason r \<noteq> None) invalid_memory_data
    (tryE (if mr_supersedes r \<noteq> None then validate_optional_text (mr_revision_reason r) else Inr ())
       (\<lambda>_.
     raise_if (mr_status r = Active \<and> mr_status_reason r \<noteq> None) invalid_memory_data
    (tryE (if mr_status r \<noteq> Active then validate_optional_text (mr_status_reason r) else Inr ()) (\<lambda>_.
     tryE (copy_mapping (mr_metadata r)) (\<lambda>metadata.
     Inr (r\<lparr>mr_provenance := prov, mr_metadata := metadata\<rparr>))))))))))))))))"

record memory_query =
  mq_memory_type :: "memory_type option"
  mq_subject :: "string option"
  mq_predicate :: "string option"
  mq_active_only :: bool

definition check_memory_query :: "memory_query \<Rightarrow> memory_query res" where
  "check_memory_query q =
     tryE (if mq_subject q \<noteq> None then validate_optional_text (mq_subject q) else Inr ()) (\<lambda>_.
     tryE (if mq_predicate q \<noteq> None then validate_optional_text (mq_predicate q) else Inr ()) (\<lambda>_.
     Inr q))"

record memory_conflict =
  mc_conflict_id :: uuid
  mc_left :: memory_record
  mc_right :: memory_record
  mc_created_at :: py_datetime
  mc_reason :: string
  mc_resolved_at :: "py_datetime option"
  mc_resolution_id :: "uuid option"

definition check_memory_conflict :: "memory_conflict \<Rightarrow> memory_conflict res" where
  "check_memory_conflict c =
     raise_if (mr_memory_id (mc_left c) = mr_memory_id (mc_right c)) invalid_memory_data
    (tryE (validate_utc_datetime (mc_created_at c)) (\<lambda>_.
     tryE (validate_nonempty_text (mc_reason c)) (\<lambda>_.
     tryE (case mc_resolved_at c of None \<Rightarrow> Inr () | Some t \<Rightarrow>
             tryE (validate_utc_datetime t) (\<lambda>_.
             raise_if (dt_before t (mc_created_at c)) invalid_memory_data (Inr ()))) (\<lambda>_.
     raise_if (mc_resolution_id c \<noteq> None \<and> mc_resolved_at c = None) invalid_memory_data
       (Inr c)))))"

text \<open>The records that pass the checks.\<close>

definition utc_ok :: "py_datetime \<Rightarrow> bool" where
  "utc_ok t \<longleftrightarrow> dt_utcoffset t = Some 0"

definition provenance_ok :: "provenance \<Rightarrow> bool" where
  "provenance_ok p \<longleftrightarrow> exact_text_ok (pv_source_id p) \<and> memory_json_ok (PDict (pv_details p))"

definition memory_record_ok :: "memory_record \<Rightarrow> bool" where
  "memory_record_ok r \<longleftrightarrow>
     exact_text_ok (mr_subject r) \<and> exact_text_ok (mr_predicate r) \<and> memory_json_ok (mr_value r) \<and>
     provenance_ok (mr_provenance r) \<and> confidence_value (mr_confidence r) \<noteq> None \<and>
     utc_ok (mr_observed_at r) \<and> utc_ok (mr_created_at r) \<and> utc_ok (mr_status_changed_at r) \<and>
     \<not> dt_before (mr_status_changed_at r) (mr_created_at r) \<and>
     mr_supersedes r \<noteq> Some (mr_memory_id r) \<and>
     (case mr_supersedes r of None \<Rightarrow> mr_revision_reason r = None
      | Some _ \<Rightarrow> (\<exists>t. mr_revision_reason r = Some t \<and> exact_text_ok t)) \<and>
     (if mr_status r = Active then mr_status_reason r = None
      else (\<exists>t. mr_status_reason r = Some t \<and> exact_text_ok t)) \<and>
     memory_json_ok (PDict (mr_metadata r))"

lemma provenance_eta [simp]:
  "\<lparr>pv_type = pv_type p, pv_source_id = pv_source_id p, pv_details = pv_details p\<rparr> = p"
  by (cases p) simp

lemma memory_record_eta [simp]:
  "r\<lparr>mr_provenance := mr_provenance r, mr_metadata := mr_metadata r\<rparr> = r"
  by (cases r) simp

lemma mk_provenance_simp [simp]:
  "mk_provenance t s d =
     (if provenance_ok \<lparr>pv_type = t, pv_source_id = s, pv_details = d\<rparr>
      then Inr \<lparr>pv_type = t, pv_source_id = s, pv_details = d\<rparr> else Inl invalid_provenance)"
  by (auto simp: mk_provenance_def as_provenance_error_def validate_nonempty_text_def copy_mapping_def
      validate_json_value_def provenance_ok_def raise_if_def)

text \<open>The constructor keeps its arguments or raises a validation error.\<close>

lemma check_memory_record_Inr:
  "check_memory_record r = Inr r' \<longleftrightarrow> memory_record_ok r \<and> r' = r"
  unfolding check_memory_record_def res_simps memory_record_ok_def
  by (auto simp: validate_nonempty_text_def validate_optional_text_def validate_confidence_Inr
      validate_utc_datetime_def validate_json_value_def copy_mapping_def utc_ok_def raise_if_def
      split: option.splits if_splits)

end
