(* ===== verification/Context_Models.thy ===== *)
theory Context_Models
  imports Memory_Models
begin

text \<open>
  The personal context projection (\<open>personal_context/models.py\<close>): the immutable entries, the
  snapshot and its version, and the lookup that the Executive performs on a snapshot.
\<close>

section \<open>Enumerations and texts\<close>

datatype context_state = CtxUnknown | CtxResolved | CtxConflicted

fun context_state_value :: "context_state \<Rightarrow> string" where
  "context_state_value CtxUnknown = ''unknown''"
| "context_state_value CtxResolved = ''resolved''"
| "context_state_value CtxConflicted = ''conflicted''"

datatype context_domain = DomSemantic | DomPreference | DomSocial | DomSpatial | DomProcedural

fun context_domain_value :: "context_domain \<Rightarrow> string" where
  "context_domain_value DomSemantic = ''semantic''"
| "context_domain_value DomPreference = ''preference''"
| "context_domain_value DomSocial = ''social''"
| "context_domain_value DomSpatial = ''spatial''"
| "context_domain_value DomProcedural = ''procedural''"

lemma context_domain_value_inject [simp]: "context_domain_value d = context_domain_value d' \<longleftrightarrow> d = d'"
  by (cases d; cases d'; simp)

lemma context_state_value_inject [simp]: "context_state_value d = context_state_value d' \<longleftrightarrow> d = d'"
  by (cases d; cases d'; simp)

abbreviation context_invariant :: exn where
  "context_invariant \<equiv> ContextExn ContextInvariantError"

abbreviation invalid_context_query :: exn where
  "invalid_context_query \<equiv> ContextExn InvalidContextQueryError"

definition validate_owner_subject :: "string \<Rightarrow> unit res" where
  "validate_owner_subject owner = validate_exact_text (ContextExn InvalidOwnerError) owner"

definition validate_utc :: "py_datetime \<Rightarrow> unit res" where
  "validate_utc t = raise_if (dt_utcoffset t \<noteq> Some 0) context_invariant (Inr ())"

section \<open>JSON data of the context\<close>

text \<open>
  The projection bounds neither the size nor the depth of its data (\<open>personal_context/json_value.py\<close>).
  The interpreter refuses to print the integers that are not \<open>ints_printable\<close> with a \<open>ValueError\<close>.
\<close>

fun context_json_ok :: "pyval \<Rightarrow> bool" where
  "context_json_ok (PFloat x) = (x \<noteq> NonFinite)"
| "context_json_ok (PList vs) = list_all context_json_ok vs"
| "context_json_ok (PDict kvs) =
     (KOther \<notin> set (map fst kvs) \<and> list_all (\<lambda>kv. context_json_ok (snd kv)) kvs)"
| "context_json_ok POther = False"
| "context_json_ok _ = True"

definition context_canonicalize :: "pyval \<Rightarrow> string res" where
  "context_canonicalize v =
     raise_if (\<not> context_json_ok v) context_invariant
    (raise_if (\<not> ints_printable v) (BuiltinExn ValueError) (Inr (canon v)))"

definition context_copy :: "pyval \<Rightarrow> pyval res" where
  "context_copy v = raise_if (\<not> context_json_ok v) context_invariant (Inr v)"

text \<open>A property that returns a copy of a dict: \<open>copy_json\<close>, then \<open>assert isinstance(\<dots>, dict)\<close>.\<close>

definition context_dict_copy :: "pyval \<Rightarrow> pyval res" where
  "context_dict_copy v =
     tryE (context_copy v) (\<lambda>w. raise_if (\<not> is_dict w) (BuiltinExn AssertionError) (Inr w))"

section \<open>Entries\<close>

record context_identity =
  ci_domain :: context_domain
  ci_subject :: string
  ci_predicate :: string

definition mk_context_identity :: "context_domain \<Rightarrow> string \<Rightarrow> string \<Rightarrow> context_identity res" where
  "mk_context_identity domain subject predicate =
     tryE (validate_exact_text context_invariant subject) (\<lambda>_.
     tryE (validate_exact_text context_invariant predicate) (\<lambda>_.
     Inr \<lparr>ci_domain = domain, ci_subject = subject, ci_predicate = predicate\<rparr>))"

record evidence_reference =
  er_memory_id :: uuid
  er_provenance_type :: provenance_type
  er_provenance_source_id :: string
  er_confidence :: pyfloat
  er_observed_at :: py_datetime
  er_recorded_at :: py_datetime
  er_supersedes :: "uuid option"
  er_revision_reason :: "string option"
  er_provenance_details :: pyval
  er_canonical_provenance_details :: string
  er_metadata :: pyval
  er_canonical_metadata :: string

definition mk_evidence_reference ::
  "uuid \<Rightarrow> provenance_type \<Rightarrow> string \<Rightarrow> (pykey \<times> pyval) list \<Rightarrow> (pykey \<times> pyval) list \<Rightarrow> pyval \<Rightarrow>
   py_datetime \<Rightarrow> py_datetime \<Rightarrow> uuid option \<Rightarrow> string option \<Rightarrow> evidence_reference res" where
  "mk_evidence_reference memory_id ptype source_id details metadata confidence
     observed_at recorded_at supersedes revision_reason =
     tryE (validate_exact_text context_invariant source_id) (\<lambda>_.
     tryE (context_copy (PDict details)) (\<lambda>details_copy.
     tryE (context_canonicalize details_copy) (\<lambda>canonical_details.
     tryE (context_copy (PDict metadata)) (\<lambda>metadata_copy.
     tryE (context_canonicalize metadata_copy) (\<lambda>canonical_metadata.
     case confidence_value confidence of
       None \<Rightarrow> Inl context_invariant
     | Some conf \<Rightarrow>
     tryE (validate_utc observed_at) (\<lambda>_.
     tryE (validate_utc recorded_at) (\<lambda>_.
     raise_if (supersedes = Some memory_id) context_invariant
    (raise_if (supersedes = None \<and> revision_reason \<noteq> None) context_invariant
    (tryE (case supersedes of None \<Rightarrow> Inr () | Some _ \<Rightarrow>
             (case revision_reason of
                None \<Rightarrow> Inl context_invariant
              | Some reason \<Rightarrow> validate_exact_text context_invariant reason)) (\<lambda>_.
     Inr \<lparr>er_memory_id = memory_id, er_provenance_type = ptype,
          er_provenance_source_id = source_id, er_confidence = conf,
          er_observed_at = observed_at, er_recorded_at = recorded_at,
          er_supersedes = supersedes, er_revision_reason = revision_reason,
          er_provenance_details = details_copy,
          er_canonical_provenance_details = canonical_details,
          er_metadata = metadata_copy, er_canonical_metadata = canonical_metadata\<rparr>))))))))))"

text \<open>\<open>==\<close> of the dataclasses: the fields declared with \<open>compare=False\<close> are left out.\<close>

definition evidence_eq :: "evidence_reference \<Rightarrow> evidence_reference \<Rightarrow> bool" where
  "evidence_eq a b \<longleftrightarrow>
     a\<lparr>er_provenance_details := PNone, er_metadata := PNone\<rparr> =
     b\<lparr>er_provenance_details := PNone, er_metadata := PNone\<rparr>"

record context_value =
  cv_evidence :: "evidence_reference list"
  cv_value :: pyval
  cv_canonical_value :: string

definition context_value_eq :: "context_value \<Rightarrow> context_value \<Rightarrow> bool" where
  "context_value_eq a b \<longleftrightarrow>
     list_all2 evidence_eq (cv_evidence a) (cv_evidence b) \<and>
     cv_canonical_value a = cv_canonical_value b"

definition mk_context_value :: "pyval \<Rightarrow> evidence_reference list \<Rightarrow> context_value res" where
  "mk_context_value v evidence =
     tryE (context_canonicalize v) (\<lambda>canonical.
     tryE (context_copy v) (\<lambda>copied.
     raise_if (evidence = [] \<or> unsorted_by evidence_eq (\<lambda>r. uuid_str (er_memory_id r)) evidence)
       context_invariant
    (raise_if (has_dup (map er_memory_id evidence)) context_invariant
    (Inr \<lparr>cv_evidence = evidence, cv_value = copied, cv_canonical_value = canonical\<rparr>))))"

record context_entry =
  ce_identity :: context_identity
  ce_state :: context_state
  ce_values :: "context_value list"
  ce_conflict_ids :: "uuid list"

definition context_entry_eq :: "context_entry \<Rightarrow> context_entry \<Rightarrow> bool" where
  "context_entry_eq a b \<longleftrightarrow>
     ce_identity a = ce_identity b \<and> ce_state a = ce_state b \<and>
     list_all2 context_value_eq (ce_values a) (ce_values b) \<and>
     ce_conflict_ids a = ce_conflict_ids b"

definition entry_evidence_ids :: "context_value list \<Rightarrow> uuid list" where
  "entry_evidence_ids vs = concat (map (\<lambda>v. map er_memory_id (cv_evidence v)) vs)"

fun evidence_pairs :: "context_value list \<Rightarrow> nat" where
  "evidence_pairs [] = 0"
| "evidence_pairs (v # vs) =
     sum_list (map (\<lambda>w. length (cv_evidence v) * length (cv_evidence w)) vs) + evidence_pairs vs"

definition mk_context_entry ::
  "context_identity \<Rightarrow> context_state \<Rightarrow> context_value list \<Rightarrow> uuid list \<Rightarrow> context_entry res" where
  "mk_context_entry ident state vals conflict_ids =
     raise_if (state = CtxUnknown) context_invariant
    (raise_if (unsorted_by context_value_eq cv_canonical_value vals) context_invariant
    (raise_if (has_dup (map cv_canonical_value vals)) context_invariant
    (raise_if (has_dup (entry_evidence_ids vals)) context_invariant
    (raise_if (conflict_ids \<noteq> sorted_uuids conflict_ids) context_invariant
    (raise_if (state = CtxResolved \<and> (length vals \<noteq> 1 \<or> conflict_ids \<noteq> [])) context_invariant
    (raise_if (state = CtxConflicted \<and> (length vals < 2 \<or> conflict_ids = [])) context_invariant
    (raise_if (state = CtxConflicted \<and> length conflict_ids \<noteq> evidence_pairs vals) context_invariant
    (Inr \<lparr>ce_identity = ident, ce_state = state, ce_values = vals,
          ce_conflict_ids = conflict_ids\<rparr>))))))))"

text \<open>What the constructors guarantee of an entry.\<close>

definition entry_ok :: "context_entry \<Rightarrow> bool" where
  "entry_ok e \<longleftrightarrow>
     ce_state e \<noteq> CtxUnknown \<and>
     sorted (map cv_canonical_value (ce_values e)) \<and>
     distinct (map cv_canonical_value (ce_values e)) \<and>
     distinct (entry_evidence_ids (ce_values e)) \<and>
     list_all (\<lambda>v. cv_evidence v \<noteq> []) (ce_values e) \<and>
     sorted_uuids (ce_conflict_ids e) = ce_conflict_ids e \<and>
     (ce_state e = CtxResolved \<longrightarrow> length (ce_values e) = 1 \<and> ce_conflict_ids e = []) \<and>
     (ce_state e = CtxConflicted \<longrightarrow>
        2 \<le> length (ce_values e) \<and> ce_conflict_ids e \<noteq> [] \<and>
        length (ce_conflict_ids e) = evidence_pairs (ce_values e))"

lemma evidence_eq_refl [simp]: "evidence_eq a a"
  by (simp add: evidence_eq_def)

lemma evidence_eq_memory_id: "evidence_eq a b \<Longrightarrow> er_memory_id a = er_memory_id b"
  by (cases a; cases b) (simp add: evidence_eq_def)

lemma context_value_eq_refl [simp]: "context_value_eq a a"
  by (simp add: context_value_eq_def list_all2_same)

lemma context_entry_eq_refl [simp]: "context_entry_eq a a"
  by (simp add: context_entry_eq_def list_all2_same)

lemma evidence_sorted [simp]:
  "unsorted_by evidence_eq (\<lambda>r. uuid_str (er_memory_id r)) es \<longleftrightarrow>
     \<not> sorted (map (\<lambda>r. uuid_str (er_memory_id r)) es)"
  by (rule unsorted_by_iff) (auto dest: evidence_eq_memory_id)

lemma values_sorted [simp]:
  "unsorted_by context_value_eq cv_canonical_value vs \<longleftrightarrow> \<not> sorted (map cv_canonical_value vs)"
  by (rule unsorted_by_iff) (auto simp: context_value_eq_def)

lemma mk_context_value_evidence: "mk_context_value v es = Inr cv \<Longrightarrow> cv_evidence cv \<noteq> []"
  by (auto simp: mk_context_value_def res_simps)

lemma mk_context_entry_ok:
  "mk_context_entry i s vs cs = Inr e \<Longrightarrow> list_all (\<lambda>v. cv_evidence v \<noteq> []) vs \<Longrightarrow> entry_ok e"
  by (auto simp: mk_context_entry_def res_simps entry_ok_def)

section \<open>Snapshots\<close>

record snapshot_version =
  csv_digest :: string
  csv_algorithm :: string
  csv_schema_version :: int

definition mk_snapshot_version :: "string \<Rightarrow> string \<Rightarrow> int \<Rightarrow> snapshot_version res" where
  "mk_snapshot_version digest algorithm schema =
     raise_if (algorithm \<noteq> ''sha256'') context_invariant
    (raise_if (schema \<noteq> 1) context_invariant
    (raise_if (\<not> hex_digest_ok digest) context_invariant
    (Inr \<lparr>csv_digest = digest, csv_algorithm = algorithm, csv_schema_version = schema\<rparr>)))"

definition pystr_option :: "string option \<Rightarrow> pyval" where
  "pystr_option s = (case s of None \<Rightarrow> PNone | Some t \<Rightarrow> PStr t)"

definition evidence_document :: "evidence_reference \<Rightarrow> pyval res" where
  "evidence_document r =
     tryE (context_dict_copy (er_metadata r)) (\<lambda>metadata.
     tryE (context_dict_copy (er_provenance_details r)) (\<lambda>details.
     Inr (obj [
       (''confidence'', PFloat (er_confidence r)),
       (''memory_id'', PStr (uuid_str (er_memory_id r))),
       (''metadata'', metadata),
       (''observed_at'', PStr (utc_text (er_observed_at r))),
       (''provenance_details'', details),
       (''provenance_source_id'', PStr (er_provenance_source_id r)),
       (''provenance_type'', PStr (provenance_type_value (er_provenance_type r))),
       (''recorded_at'', PStr (utc_text (er_recorded_at r))),
       (''revision_reason'', pystr_option (er_revision_reason r)),
       (''supersedes'', pystr_option (map_option uuid_str (er_supersedes r)))])))"

definition value_document :: "context_value \<Rightarrow> pyval res" where
  "value_document v =
     tryE (traverse evidence_document (cv_evidence v)) (\<lambda>evidence.
     tryE (context_copy (cv_value v)) (\<lambda>val.
     Inr (obj [(''evidence'', PList evidence), (''value'', val)])))"

definition entry_document :: "context_entry \<Rightarrow> pyval res" where
  "entry_document e =
     tryE (traverse value_document (ce_values e)) (\<lambda>vals.
     Inr (obj [
       (''conflict_ids'', str_list (map uuid_str (ce_conflict_ids e))),
       (''domain'', PStr (context_domain_value (ci_domain (ce_identity e)))),
       (''predicate'', PStr (ci_predicate (ce_identity e))),
       (''state'', PStr (context_state_value (ce_state e))),
       (''subject'', PStr (ci_subject (ce_identity e))),
       (''values'', PList vals)]))"

definition compute_snapshot_version :: "string \<Rightarrow> context_entry list \<Rightarrow> snapshot_version res" where
  "compute_snapshot_version owner entries =
     tryE (traverse entry_document entries) (\<lambda>docs.
     tryE (context_canonicalize (obj [
       (''entries'', PList docs),
       (''owner_subject'', PStr owner),
       (''schema'', PStr ''ayyo.personal_context.snapshot.v1'')])) (\<lambda>canonical.
     mk_snapshot_version (sha256_hex canonical) ''sha256'' 1))"

record context_snapshot =
  pcs_owner_subject :: string
  pcs_entries :: "context_entry list"
  pcs_version :: snapshot_version

definition identity_key :: "context_identity \<Rightarrow> string \<times> string \<times> string" where
  "identity_key i = (context_domain_value (ci_domain i), ci_subject i, ci_predicate i)"

definition mk_context_snapshot ::
  "string \<Rightarrow> context_entry list \<Rightarrow> snapshot_version \<Rightarrow> context_snapshot res" where
  "mk_context_snapshot owner entries version =
     tryE (validate_owner_subject owner) (\<lambda>_.
     raise_if (unsorted_by context_entry_eq (\<lambda>e. identity_key (ce_identity e)) entries)
       context_invariant
    (raise_if (has_dup (map ce_identity entries)) context_invariant
    (raise_if (list_ex (\<lambda>e. ci_subject (ce_identity e) \<noteq> owner) entries) context_invariant
    (tryE (compute_snapshot_version owner entries) (\<lambda>computed.
     raise_if (version \<noteq> computed) context_invariant
    (Inr \<lparr>pcs_owner_subject = owner, pcs_entries = entries, pcs_version = version\<rparr>))))))"

record context_query_result =
  cq_identity :: context_identity
  cq_state :: context_state
  cq_snapshot_version :: snapshot_version
  cq_entry :: "context_entry option"

definition mk_context_query_result ::
  "context_identity \<Rightarrow> context_state \<Rightarrow> snapshot_version \<Rightarrow> context_entry option \<Rightarrow>
   context_query_result res" where
  "mk_context_query_result ident state version entry =
     (let result = \<lparr>cq_identity = ident, cq_state = state, cq_snapshot_version = version,
                    cq_entry = entry\<rparr> in
      if state = CtxUnknown then raise_if (entry \<noteq> None) context_invariant (Inr result)
      else (case entry of
              None \<Rightarrow> Inl context_invariant
            | Some e \<Rightarrow> raise_if (ce_identity e \<noteq> ident \<or> ce_state e \<noteq> state) context_invariant
                         (Inr result)))"

definition get_context ::
  "context_snapshot \<Rightarrow> context_domain \<Rightarrow> string \<Rightarrow> context_query_result res" where
  "get_context snapshot domain predicate =
     tryE (validate_exact_text invalid_context_query predicate) (\<lambda>_.
     tryE (mk_context_identity domain (pcs_owner_subject snapshot) predicate) (\<lambda>ident.
     let entry = index_get ce_identity (pcs_entries snapshot) ident in
     mk_context_query_result ident
       (case entry of None \<Rightarrow> CtxUnknown | Some e \<Rightarrow> ce_state e)
       (pcs_version snapshot) entry))"

text \<open>What the constructors guarantee of a snapshot.\<close>

definition snapshot_ok :: "context_snapshot \<Rightarrow> bool" where
  "snapshot_ok s \<longleftrightarrow>
     exact_text_ok (pcs_owner_subject s) \<and>
     distinct (map ce_identity (pcs_entries s)) \<and>
     (\<forall>e \<in> set (pcs_entries s). entry_ok e \<and> ci_subject (ce_identity e) = pcs_owner_subject s)"

lemma mk_context_snapshot_ok:
  "mk_context_snapshot owner entries version = Inr s \<Longrightarrow> \<forall>e \<in> set entries. entry_ok e \<Longrightarrow> snapshot_ok s"
  by (auto simp: mk_context_snapshot_def validate_owner_subject_def res_simps snapshot_ok_def
      list_ex_iff split: if_splits)

lemma mk_snapshot_version_Inr [simp]:
  "mk_snapshot_version (sha256_hex s) ''sha256'' 1 =
     Inr \<lparr>csv_digest = sha256_hex s, csv_algorithm = ''sha256'', csv_schema_version = 1\<rparr>"
  by (simp add: mk_snapshot_version_def)

text \<open>The lookup never fails on a snapshot built by the constructors.\<close>

lemma get_context_total:
  assumes s: "snapshot_ok s" and p: "exact_text_ok p"
    and i: "i = \<lparr>ci_domain = d, ci_subject = pcs_owner_subject s, ci_predicate = p\<rparr>"
    and entry: "entry = index_get ce_identity (pcs_entries s) i"
  shows "get_context s d p = Inr
    \<lparr>cq_identity = i, cq_state = (case entry of None \<Rightarrow> CtxUnknown | Some e \<Rightarrow> ce_state e),
     cq_snapshot_version = pcs_version s, cq_entry = entry\<rparr>"
proof -
  have "get_context s d p = mk_context_query_result i
      (case entry of None \<Rightarrow> CtxUnknown | Some e \<Rightarrow> ce_state e) (pcs_version s) entry"
    using s p by (simp add: get_context_def mk_context_identity_def snapshot_ok_def Let_def entry i)
  moreover have "entry_ok e \<and> ce_identity e = i" if "entry = Some e" for e
    using that s by (auto simp: entry snapshot_ok_def dest: index_get_in)
  ultimately show ?thesis
    by (cases entry) (auto simp: mk_context_query_result_def entry_ok_def)
qed

end
