(* ===== verification/Json_Properties.thy ===== *)
theory Json_Properties
  imports Json_Copy Json_Canonical Json_Bounds Context_Models
begin

text \<open>
  The properties of the JSON data and of the context snapshots that the services read: what the
  validation accepts on arbitrary object graphs, what a copy shares with its source, what the
  canonical text determines, and that a lookup in a snapshot always answers.
\<close>

definition small_limits :: json_limits where
  "small_limits = \<lparr>max_depth = 2, max_nodes = 5, max_characters = 10\<rparr>"

definition dict_heap :: pyheap where "dict_heap a = CDict [(KStr ''k'', RInt 7)]"

text \<open>
  C16. The validation returns on every object graph, with cycles and sharing: it accepts exactly the
  objects that unfold to a finite tree within the bounds, and raises the error it was given on
  everything else.
\<close>

theorem validate_json_decides:
  "validate_json L e h r =
     (if \<exists>v. unfolds_to h r v \<and> validate_value L e v = Inr () then Inr () else Inl e)"
proof (cases "\<exists>v. unfolds_to h r v")
  case True
  then obtain v where v: "unfolds_to h r v" by blast
  have "validate_value L e w = validate_value L e v" if "unfolds_to h r w" for w
    using unfolds_unique [OF v that] by simp
  with v validate_json_tree [OF v, of L e] show ?thesis
    by (cases "validate_value L e v") (auto dest: validate_value_error)
next
  case False
  then show ?thesis using validate_json_rejects [of h r L e] by auto
qed

text \<open>
  C17. A copy of a validated object unfolds to the same tree, through new objects only, and leaves
  the existing objects unchanged; the copying loop ends; and an object over the bounds is refused.
\<close>

theorem copy_json_fresh:
  assumes "old base h r v"
  shows "(validate_value L e v = Inl x \<longrightarrow> copy_json L e h base r = Some (Inl x)) \<and>
    (validate_value L e v = Inr () \<longrightarrow>
      (\<exists>h' r'. copy_json L e h base r = Some (Inr (h', r')) \<and>
         new base h' r' v \<and> (\<forall>a < base. h' a = h a)))"
  using assms by (rule copy_json_fresh_copy)

lemma copy_json_fresh_witness:
  "\<exists>h' r'. copy_json small_limits context_invariant dict_heap 1 (RRef 0) = Some (Inr (h', r')) \<and>
     new 1 h' r' (PDict [(KStr ''k'', PInt 7)]) \<and> h' 0 = CDict [(KStr ''k'', RInt 7)]"
proof -
  have old: "old 1 dict_heap (RRef 0) (PDict (zip [KStr ''k''] [PInt 7]))"
    using unfolds_dict [of "\<lambda>a. a < 1" 0 dict_heap "[(KStr ''k'', RInt 7)]" "[PInt 7]"]
    by (simp add: dict_heap_def)
  have "validate_value small_limits context_invariant (PDict (zip [KStr ''k''] [PInt 7])) = Inr ()"
    by (simp add: validate_value_iff small_limits_def int_oversized_def max_json_integer_bits_def)
  with copy_json_fresh [OF old, of small_limits context_invariant] show ?thesis
    by (auto simp: dict_heap_def)
qed

text \<open>
  C18. The canonical text determines the value: \<open>canonicalize_json\<close> returns a text for each of two JSON
  values that pass validation, and the texts are equal exactly when the values are equal up to the order
  in which their dicts list the members.
\<close>

theorem canonical_text_determines:
  assumes "printable v" "printable w"
    and "validate_value L e v = Inr ()" "validate_value L e w = Inr ()"
  shows "\<exists>s t. canonicalize_value L e v = Inr s \<and> canonicalize_value L e w = Inr t \<and>
    (s = t \<longleftrightarrow> normal v = normal w)"
  using canon_inject [OF assms(1,2)] assms(3,4) by (simp add: canonicalize_value_canon del: canon.simps)

lemma canonical_text_determines_witness:
  "\<exists>s t. canonicalize_value small_limits context_invariant (PDict [(KStr ''b'', PInt 1), (KStr ''a'', PInt 2)]) = Inr s \<and>
     canonicalize_value small_limits context_invariant (PDict [(KStr ''a'', PInt 2), (KStr ''b'', PInt 1)]) = Inr t \<and> s = t"
proof -
  let ?v = "PDict [(KStr ''b'', PInt 1), (KStr ''a'', PInt 2)]"
  let ?w = "PDict [(KStr ''a'', PInt 2), (KStr ''b'', PInt 1)]"
  have "validate_value small_limits context_invariant ?v = Inr ()"
    "validate_value small_limits context_invariant ?w = Inr ()"
    by (simp_all add: validate_value_iff small_limits_def int_oversized_def max_json_integer_bits_def)
  with canonical_text_determines [of ?v ?w small_limits context_invariant] show ?thesis
    by (simp add: sorted_items_def)
qed

text \<open>
  The counters of the validation loop check exactly the size of the tree: a value passes when its
  scalars are encodable, it has at most the given number of nodes and characters, and no value is
  nested deeper than the limit.
\<close>

theorem validation_bounds:
  "validate_value L e v =
     (if scalars_ok v \<and> node_count v \<le> max_nodes L \<and> char_count v \<le> max_characters L \<and>
         depth_within (max_depth L) v then Inr () else Inl e)"
  by (rule validate_value_eq)

text \<open>
  A lookup in a well-formed snapshot never fails: it answers the entry of the key, and UNKNOWN
  without an entry when there is none.
\<close>

theorem context_lookup_total:
  assumes "snapshot_ok s" "exact_text_ok p"
  shows "get_context s d p =
    (let i = \<lparr>ci_domain = d, ci_subject = pcs_owner_subject s, ci_predicate = p\<rparr>;
         entry = index_get ce_identity (pcs_entries s) i in
     Inr \<lparr>cq_identity = i, cq_state = (case entry of None \<Rightarrow> CtxUnknown | Some e \<Rightarrow> ce_state e),
          cq_snapshot_version = pcs_version s, cq_entry = entry\<rparr>)"
  unfolding Let_def by (rule get_context_total [OF assms refl refl])

lemma context_lookup_total_witness:
  "\<exists>r. get_context \<lparr>pcs_owner_subject = ''owner'', pcs_entries = [],
      pcs_version = \<lparr>csv_digest = [], csv_algorithm = [], csv_schema_version = 1\<rparr>\<rparr>
      DomSemantic ''name'' = Inr r \<and> cq_state r = CtxUnknown"
proof -
  have "exact_text_ok ''owner''" "exact_text_ok ''name''"
    by (simp_all add: exact_text_ok_def py_strip_def py_isspace_def code_point_def)
  with context_lookup_total [of "\<lparr>pcs_owner_subject = ''owner'', pcs_entries = [],
      pcs_version = \<lparr>csv_digest = [], csv_algorithm = [], csv_schema_version = 1\<rparr>\<rparr>" "''name''"]
  show ?thesis by (simp add: snapshot_ok_def index_get_def)
qed

end
