(* ===== verification/Dep_Graph.thy ===== *)
theory Dep_Graph
  imports Py_Order
begin

text \<open>
  Step dependencies of a plan and the contract of a topological sort.  Two packages order plan
  steps with different algorithms (\<open>executive\<close>: smallest ready step first; \<open>safety_kernel\<close>: layer
  by layer); both are interpretations of the contract \<open>topological\<close>, so they accept exactly the
  same graphs and their orders are permutations of one another.
\<close>

section \<open>Graphs\<close>

text \<open>The dict \<open>{step_id: dependencies}\<close> in insertion order.\<close>

type_synonym dep_graph = "(string \<times> string list) list"

definition node_ids :: "dep_graph \<Rightarrow> string list" where
  "node_ids g = map fst g"

definition needs :: "dep_graph \<Rightarrow> string \<Rightarrow> string set" where
  "needs g s = (case map_of g s of None \<Rightarrow> {} | Some ds \<Rightarrow> set ds)"

text \<open>Keys of a dict are distinct; the constructors of steps make dependency tuples distinct.\<close>

definition proper :: "dep_graph \<Rightarrow> bool" where
  "proper g = (distinct (map fst g) \<and> list_all (\<lambda>p. distinct (snd p)) g)"

definition closed_graph :: "dep_graph \<Rightarrow> bool" where
  "closed_graph g = (\<forall>s \<in> set (node_ids g). needs g s \<subseteq> set (node_ids g))"

definition dep_rel :: "dep_graph \<Rightarrow> (string \<times> string) set" where
  "dep_rel g = {(d, s). d \<in> needs g s}"

text \<open>Every step once, each after everything it needs.\<close>

definition deps_first :: "dep_graph \<Rightarrow> string list \<Rightarrow> bool" where
  "deps_first g xs = (\<forall>ys s zs. xs = ys @ s # zs \<longrightarrow> needs g s \<subseteq> set ys)"

definition topo_sorted :: "dep_graph \<Rightarrow> string list \<Rightarrow> bool" where
  "topo_sorted g xs \<longleftrightarrow> distinct xs \<and> set xs = set (node_ids g) \<and> deps_first g xs"

lemma needs_node: "d \<in> needs g s \<Longrightarrow> s \<in> set (node_ids g)"
  by (force simp: needs_def node_ids_def split: option.splits dest: map_of_SomeD)

lemma needs_item: "proper g \<Longrightarrow> (s, ds) \<in> set g \<Longrightarrow> needs g s = set ds"
  by (simp add: needs_def proper_def)

lemma deps_first_Nil [simp]: "deps_first g []"
  by (simp add: deps_first_def)

lemma deps_first_split: "deps_first g (ys @ s # zs) \<Longrightarrow> needs g s \<subseteq> set ys"
  by (auto simp: deps_first_def)

lemma deps_first_snoc: "deps_first g (xs @ [s]) \<longleftrightarrow> deps_first g xs \<and> needs g s \<subseteq> set xs"
proof
  assume r: "deps_first g (xs @ [s])"
  have "needs g t \<subseteq> set ys" if "xs = ys @ t # zs" for ys t zs
    using r that by (auto simp: deps_first_def)
  then show "deps_first g xs \<and> needs g s \<subseteq> set xs"
    using r by (auto simp: deps_first_def)
next
  assume "deps_first g xs \<and> needs g s \<subseteq> set xs"
  then show "deps_first g (xs @ [s])"
    by (auto simp: deps_first_def append_eq_append_conv2 Cons_eq_append_conv append_eq_Cons_conv)
qed

lemma deps_first_append:
  "deps_first g xs \<Longrightarrow> (\<And>y. y \<in> set ys \<Longrightarrow> needs g y \<subseteq> set xs) \<Longrightarrow> deps_first g (xs @ ys)"
proof (induction ys rule: rev_induct)
  case (snoc y ys)
  then have "needs g y \<subseteq> set (xs @ ys)" by auto
  with snoc show ?case by (simp add: deps_first_snoc flip: append_assoc)
qed simp

lemma dep_rel_subset: "closed_graph g \<Longrightarrow> dep_rel g \<subseteq> set (node_ids g) \<times> set (node_ids g)"
  by (auto simp: dep_rel_def closed_graph_def dest: needs_node)

lemma topo_closed: "topo_sorted g xs \<Longrightarrow> closed_graph g"
  unfolding closed_graph_def
proof
  fix s
  assume t: "topo_sorted g xs" and "s \<in> set (node_ids g)"
  then obtain ys zs where xs: "xs = ys @ s # zs" by (metis split_list topo_sorted_def)
  with t have "needs g s \<subseteq> set ys" "set xs = set (node_ids g)"
    using deps_first_split [of g ys s zs] by (simp_all add: topo_sorted_def)
  with xs show "needs g s \<subseteq> set (node_ids g)"
    by auto
qed

text \<open>A topological order exists exactly when the graph has no cycle.\<close>

lemma topo_acyclic:
  assumes "topo_sorted g xs"
  shows "acyclic (dep_rel g)"
proof -
  define pos where "pos s = length (takeWhile (\<lambda>x. x \<noteq> s) xs)" for s
  have "pos d < pos s" if "d \<in> needs g s" for d s
  proof -
    from needs_node [OF that] assms have "s \<in> set xs"
      by (simp add: topo_sorted_def)
    then obtain ys zs where xs: "xs = ys @ s # zs" "s \<notin> set ys"
      by (metis split_list_first)
    with assms that have "d \<in> set ys"
      using deps_first_split [of g ys s zs] by (auto simp: topo_sorted_def)
    then obtain as bs where "ys = as @ d # bs" "d \<notin> set as"
      by (metis split_list_first)
    with xs show ?thesis
      by (auto simp: pos_def takeWhile_append)
  qed
  then have "dep_rel g \<subseteq> measure pos"
    by (auto simp: dep_rel_def)
  then show ?thesis
    by (meson acyclic_subset wf_acyclic wf_measure)
qed

lemma acyclic_step_ready:
  assumes "closed_graph g" "acyclic (dep_rel g)" "R \<subseteq> set (node_ids g)" "R \<noteq> {}"
  shows "\<exists>s \<in> R. needs g s \<inter> R = {}"
proof -
  have "finite (dep_rel g)"
    using dep_rel_subset [OF assms(1)] by (rule finite_subset) simp
  then have "wf (dep_rel g)" using assms(2) by (rule finite_acyclic_wf)
  from wfE_min' [OF this assms(4)] obtain s where "s \<in> R" "\<And>d. (d, s) \<in> dep_rel g \<Longrightarrow> d \<notin> R"
    by blast
  then show ?thesis by (auto simp: dep_rel_def)
qed

section \<open>The contract of a topological sort\<close>

locale topological =
  fixes order :: "dep_graph \<Rightarrow> 'e + string list"
  assumes sound: "proper g \<Longrightarrow> order g = Inr xs \<Longrightarrow> topo_sorted g xs"
    and complete: "proper g \<Longrightarrow> closed_graph g \<Longrightarrow> acyclic (dep_rel g) \<Longrightarrow> \<exists>xs. order g = Inr xs"
begin

lemma accepts_iff:
  "proper g \<Longrightarrow> (\<exists>xs. order g = Inr xs) \<longleftrightarrow> closed_graph g \<and> acyclic (dep_rel g)"
  by (metis complete sound topo_acyclic topo_closed)

lemma accepted: "proper g \<Longrightarrow> order g = Inr xs \<Longrightarrow> closed_graph g \<and> acyclic (dep_rel g)"
  by (metis sound topo_acyclic topo_closed)

lemma order_mset: "proper g \<Longrightarrow> order g = Inr xs \<Longrightarrow> mset xs = mset (node_ids g)"
proof -
  assume g: "proper g" and "order g = Inr xs"
  then have "distinct xs" "set xs = set (node_ids g)" "distinct (node_ids g)"
    using sound [of g xs] by (simp_all add: topo_sorted_def proper_def node_ids_def)
  then show ?thesis using set_eq_iff_mset_eq_distinct [of xs "node_ids g"] by simp
qed

lemma order_first: "proper g \<Longrightarrow> order g = Inr (s # xs) \<Longrightarrow> needs g s = {}"
  using sound [of g "s # xs"] deps_first_split [of g "[]" s xs] by (simp add: topo_sorted_def)

end

text \<open>Two sorts of the same graphs.\<close>

locale topological_pair = a: topological order_a + b: topological order_b
  for order_a :: "dep_graph \<Rightarrow> 'e + string list" and order_b :: "dep_graph \<Rightarrow> 'f + string list"
begin

lemma same_graphs: "proper g \<Longrightarrow> (\<exists>xs. order_a g = Inr xs) \<longleftrightarrow> (\<exists>ys. order_b g = Inr ys)"
  by (simp add: a.accepts_iff b.accepts_iff)

lemma same_steps: "proper g \<Longrightarrow> order_a g = Inr xs \<Longrightarrow> order_b g = Inr ys \<Longrightarrow> mset xs = mset ys"
  by (simp add: a.order_mset b.order_mset)

end

end
