(* ===== verification/Exec_Order.thy ===== *)
theory Exec_Order
  imports Dep_Graph
begin

text \<open>
  \<open>_validate_dependency_graph\<close> of \<open>executive/models.py\<close>: counters of unmet dependencies, a
  sorted list of ready steps, the smallest ready step first.  It is shown to be a topological
  sort in the sense of \<open>Dep_Graph\<close>, and its result is the greedy order, which depends on the
  graph alone and not on the order in which the steps are listed.
\<close>

section \<open>The algorithm\<close>

text \<open>\<open>dependents[dependency].append(step_id)\<close> for every step and each of its dependencies.\<close>

definition dependents :: "dep_graph \<Rightarrow> string \<Rightarrow> string list" where
  "dependents g d = concat (map (\<lambda>(s, ds). replicate (count_list ds d) s) g)"

definition initial_indegree :: "dep_graph \<Rightarrow> string \<Rightarrow> int" where
  "initial_indegree g s = (case map_of g s of None \<Rightarrow> 0 | Some ds \<Rightarrow> int (length ds))"

text \<open>The inner \<open>for dependent in sorted(dependents[current])\<close>.\<close>

fun relax :: "string list \<Rightarrow> (string \<Rightarrow> int) \<Rightarrow> string list \<Rightarrow> (string \<Rightarrow> int) \<times> string list" where
  "relax [] ind ready = (ind, ready)"
| "relax (d # ds) ind ready =
     (let ind' = ind(d := ind d - 1)
      in relax ds ind' (if ind' d = 0 then sort (ready @ [d]) else ready))"

definition pending_weight :: "dep_graph \<Rightarrow> (string \<Rightarrow> int) \<Rightarrow> string list \<Rightarrow> nat" where
  "pending_weight g ind ready = length ready + (\<Sum>s \<in> set (node_ids g). nat (ind s))"

lemma dependents_nodes: "set (dependents g d) \<subseteq> set (node_ids g)"
  by (force simp: dependents_def node_ids_def)

lemma relax_weight:
  "set ds \<subseteq> set (node_ids g) \<Longrightarrow> relax ds ind ready = (ind', ready') \<Longrightarrow>
   pending_weight g ind' ready' \<le> pending_weight g ind ready"
proof (induction ds arbitrary: ind ready)
  case (Cons d ds)
  let ?i = "ind(d := ind d - 1)"
  let ?N = "set (node_ids g)"
  have d: "d \<in> ?N" using Cons.prems by simp
  have upd: "(\<Sum>s \<in> ?N. nat (?i s)) + nat (ind d) = (\<Sum>s \<in> ?N. nat (ind s)) + nat (ind d - 1)"
    using d by (simp add: sum.remove [OF _ d])
  have "pending_weight g ?i (if ?i d = 0 then sort (ready @ [d]) else ready)
      \<le> pending_weight g ind ready"
    using upd by (auto simp: pending_weight_def)
  with Cons show ?case
    by (auto simp: Let_def intro: order_trans)
qed simp

text \<open>The \<open>while ready\<close> loop.\<close>

function kahn :: "dep_graph \<Rightarrow> (string \<Rightarrow> int) \<Rightarrow> string list \<Rightarrow> string list \<Rightarrow> string list" where
  "kahn g ind [] ordered = ordered"
| "kahn g ind (current # ready) ordered =
     (case relax (sort (dependents g current)) ind ready of
        (ind', ready') \<Rightarrow> kahn g ind' ready' (ordered @ [current]))"
  by pat_completeness auto

lemma relax_dependents_weight:
  "relax (sort (dependents g current)) ind ready = (ind', ready') \<Longrightarrow>
   pending_weight g ind' ready' < pending_weight g ind (current # ready)"
  using relax_weight [of "sort (dependents g current)" g ind ready ind' ready']
    dependents_nodes [of g current]
  by (simp add: pending_weight_def)

termination kahn
  by (relation "measure (\<lambda>(g, ind, ready, ordered). pending_weight g ind ready)")
    (simp_all add: relax_dependents_weight)

definition initial_ready :: "dep_graph \<Rightarrow> string list" where
  "initial_ready g = sort (filter (\<lambda>s. initial_indegree g s = 0) (node_ids g))"

definition validate_dependency_graph :: "'e \<Rightarrow> dep_graph \<Rightarrow> 'e + string list" where
  "validate_dependency_graph e g =
     tryE (for_each (\<lambda>(s, ds).
             raise_if (\<not> set ds \<subseteq> set (node_ids g)) e
            (raise_if (s \<in> set ds) e (Inr ()))) g) (\<lambda>_.
     let ordered = kahn g (initial_indegree g) (initial_ready g) [] in
     raise_if (length ordered \<noteq> card (set (node_ids g))) e (Inr ordered))"

section \<open>The invariant of the loop\<close>

text \<open>The steps that may come next after the steps of \<open>D\<close>, and the greedy order.\<close>

definition ready_set :: "dep_graph \<Rightarrow> string set \<Rightarrow> string set" where
  "ready_set g D = {s \<in> set (node_ids g). s \<notin> D \<and> needs g s \<subseteq> D}"

definition smallest_first :: "dep_graph \<Rightarrow> string list \<Rightarrow> bool" where
  "smallest_first g xs =
     (\<forall>ys s zs. xs = ys @ s # zs \<longrightarrow> s \<in> ready_set g (set ys) \<and> (\<forall>t \<in> ready_set g (set ys). s \<le> t))"

definition kahn_inv :: "dep_graph \<Rightarrow> (string \<Rightarrow> int) \<Rightarrow> string list \<Rightarrow> string list \<Rightarrow> bool" where
  "kahn_inv g ind ready ordered \<longleftrightarrow>
     distinct ordered \<and> set ordered \<subseteq> set (node_ids g) \<and>
     (\<forall>s \<in> set (node_ids g). ind s = int (card (needs g s - set ordered))) \<and>
     ready = sorted_list_of_set (ready_set g (set ordered)) \<and>
     deps_first g ordered \<and> smallest_first g ordered"

lemma finite_ready_set [simp]: "finite (ready_set g D)"
  by (simp add: ready_set_def)

lemma finite_needs [simp]: "finite (needs g s)"
  by (simp add: needs_def split: option.splits)

lemma smallest_first_snoc:
  "smallest_first g (xs @ [s]) \<longleftrightarrow>
     smallest_first g xs \<and> s \<in> ready_set g (set xs) \<and> (\<forall>t \<in> ready_set g (set xs). s \<le> t)"
  (is "?l \<longleftrightarrow> ?r")
proof
  assume l: ?l
  have "a \<in> ready_set g (set ys) \<and> (\<forall>t \<in> ready_set g (set ys). a \<le> t)" if "xs = ys @ a # zs" for ys a zs
    using l [unfolded smallest_first_def, rule_format, of ys a "zs @ [s]"] that by simp
  with l show ?r by (auto simp: smallest_first_def)
next
  assume ?r
  then show ?l
    unfolding smallest_first_def
    by (auto simp: append_eq_append_conv2 Cons_eq_append_conv append_eq_Cons_conv)
qed

lemma smallest_first_at:
  "smallest_first g (ys @ s # zs) \<Longrightarrow>
     s \<in> ready_set g (set ys) \<and> (\<forall>t \<in> ready_set g (set ys). s \<le> t)"
  unfolding smallest_first_def by blast

text \<open>The greedy order of a graph is unique.\<close>

lemma smallest_first_unique:
  "smallest_first g xs \<Longrightarrow> smallest_first g ys \<Longrightarrow> length xs = length ys \<Longrightarrow> xs = ys"
proof (induction xs arbitrary: ys rule: rev_induct)
  case (snoc s xs)
  obtain ys' t where ys: "ys = ys' @ [t]"
    using snoc.prems(3) by (cases ys rule: rev_cases) auto
  have s: "smallest_first g xs" "s \<in> ready_set g (set xs)" "\<forall>t \<in> ready_set g (set xs). s \<le> t"
    and t: "smallest_first g ys'" "t \<in> ready_set g (set ys')" "\<forall>s \<in> ready_set g (set ys'). t \<le> s"
    using snoc.prems(1,2) by (simp_all add: ys smallest_first_snoc)
  have "xs = ys'"
    using snoc.IH [OF s(1) t(1)] snoc.prems(3) ys by simp
  with s t show ?case
    by (simp add: ys order_antisym)
qed simp

lemma count_list_distinct: "distinct ds \<Longrightarrow> count_list ds d = (if d \<in> set ds then 1 else 0)"
  by (induction ds) auto

lemma proper_Cons:
  "proper ((s, ds) # g) \<longleftrightarrow> s \<notin> set (node_ids g) \<and> distinct ds \<and> proper g"
  by (auto simp: proper_def node_ids_def)

lemma dependents_proper:
  "proper g \<Longrightarrow> distinct (dependents g d) \<and> set (dependents g d) = {s. d \<in> needs g s}"
proof (induction g)
  case (Cons p g)
  obtain s ds where p: "p = (s, ds)" by (cases p)
  from Cons p have IH: "distinct (dependents g d)" "set (dependents g d) = {s. d \<in> needs g s}"
    and ds: "distinct ds" and s: "s \<notin> set (node_ids g)"
    by (auto simp: proper_Cons)
  have "s \<notin> set (dependents g d)" using dependents_nodes [of g d] s by auto
  moreover have "needs (p # g) t = (if t = s then set ds else needs g t)" for t
    by (simp add: needs_def p)
  moreover have "dependents (p # g) d = (if d \<in> set ds then [s] else []) @ dependents g d"
    using ds by (simp add: dependents_def p count_list_distinct)
  moreover have "d \<notin> needs g s" using s needs_node by blast
  ultimately show ?case using IH by auto
qed (simp add: dependents_def needs_def)

lemma relax_closed_form:
  "distinct ds \<Longrightarrow> sorted ready \<Longrightarrow>
   relax ds ind ready =
     ((\<lambda>s. if s \<in> set ds then ind s - 1 else ind s),
      sort (ready @ filter (\<lambda>d. ind d = 1) ds))"
proof (induction ds arbitrary: ind ready)
  case Nil
  then show ?case by (simp add: sorted_sort_id)
next
  case (Cons d ds)
  have f: "filter (\<lambda>a. (ind(d := ind d - 1)) a = 1) ds = filter (\<lambda>a. ind a = 1) ds"
    using Cons.prems by (auto intro: filter_cong)
  have m: "sort (sort (ready @ [d]) @ xs) = sort (ready @ d # xs)" for xs
    by (rule properties_for_sort) simp_all
  show ?case
    using Cons.prems f m by (auto simp: Let_def Cons.IH fun_eq_iff)
qed

lemma initial_inv: "proper g \<Longrightarrow> kahn_inv g (initial_indegree g) (initial_ready g) []"
proof -
  assume g: "proper g"
  have ind: "initial_indegree g s = int (card (needs g s))" if "s \<in> set (node_ids g)" for s
  proof -
    from that obtain ds where m: "map_of g s = Some ds"
      by (metis map_of_eq_None_iff node_ids_def not_Some_eq set_map)
    then have "(s, ds) \<in> set g" by (rule map_of_SomeD)
    then have "distinct ds" using g by (auto simp: proper_def list_all_iff)
    with m show ?thesis by (simp add: initial_indegree_def needs_def distinct_card)
  qed
  have "initial_ready g = sorted_list_of_set (ready_set g {})"
  proof (rule sorted_distinct_set_unique)
    show "distinct (initial_ready g)"
      using g by (simp add: initial_ready_def proper_def node_ids_def)
    show "set (initial_ready g) = set (sorted_list_of_set (ready_set g {}))"
      using ind by (auto simp: initial_ready_def ready_set_def)
  qed (simp_all add: initial_ready_def)
  with ind show ?thesis
    by (simp add: kahn_inv_def smallest_first_def)
qed

lemma kahn_step_inv:
  assumes g: "proper g" and inv: "kahn_inv g ind (current # ready) ordered"
    and r: "relax (sort (dependents g current)) ind ready = (ind', ready')"
  shows "kahn_inv g ind' ready' (ordered @ [current])"
proof -
  let ?D = "set ordered" and ?N = "set (node_ids g)"
  have rl: "sorted_list_of_set (ready_set g ?D) = current # ready"
    using inv by (simp add: kahn_inv_def)
  have rs: "ready_set g ?D = insert current (set ready)"
    by (metis finite_ready_set list.simps(15) rl set_sorted_list_of_set)
  have srt: "sorted (current # ready)" "distinct (current # ready)"
    by (metis rl sorted_sorted_list_of_set, metis distinct_sorted_list_of_set rl)
  have cur: "current \<in> ?N" "current \<notin> ?D" "needs g current \<subseteq> ?D"
    using rs by (auto simp: ready_set_def)
  have dd: "distinct (dependents g current)" "set (dependents g current) = {s. current \<in> needs g s}"
    using dependents_proper [OF g] by auto
  have ind: "ind s = int (card (needs g s - ?D))" if "s \<in> ?N" for s
    using inv that by (simp add: kahn_inv_def)
  have form: "ind' = (\<lambda>s. if current \<in> needs g s then ind s - 1 else ind s)"
    "ready' = sort (ready @ filter (\<lambda>d. ind d = 1) (sort (dependents g current)))"
    using r relax_closed_form [of "sort (dependents g current)" ready ind] dd srt by auto
  have ind': "ind' s = int (card (needs g s - set (ordered @ [current])))" if s: "s \<in> ?N" for s
  proof (cases "current \<in> needs g s")
    case True
    have "needs g s - set (ordered @ [current]) = (needs g s - ?D) - {current}" by auto
    moreover have "card ((needs g s - ?D) - {current}) = card (needs g s - ?D) - 1"
      using True cur by (intro card_Diff_singleton) auto
    moreover have "0 < card (needs g s - ?D)"
      using True cur by (auto simp: card_gt_0_iff)
    ultimately show ?thesis using True ind [OF s] by (simp add: form of_nat_diff)
  next
    case False
    then have "needs g s - set (ordered @ [current]) = needs g s - ?D" by auto
    with False ind [OF s] show ?thesis by (simp add: form)
  qed
  have one: "ind d = 1 \<longleftrightarrow> needs g d \<subseteq> set (ordered @ [current])"
    if d: "current \<in> needs g d" "d \<in> ?N" for d
  proof -
    have "ind d = 1 \<longleftrightarrow> card (needs g d - set (ordered @ [current])) = 0"
      using ind' [OF d(2)] d(1) unfolding form by (simp del: card_0_eq) presburger
    then show ?thesis by (simp only: card_0_eq finite_needs finite_Diff Diff_eq_empty_iff)
  qed
  have nodes: "d \<in> ?N" if "current \<in> needs g d" for d using that by (rule needs_node)
  have nself: "current \<notin> needs g current" using cur by auto
  have newD: "d \<notin> ?D" if "current \<in> needs g d" for d
  proof
    assume "d \<in> ?D"
    then obtain ys zs where o: "ordered = ys @ d # zs" by (metis split_list)
    with inv have "needs g d \<subseteq> set ys"
      using deps_first_split [of g ys d zs] by (simp add: kahn_inv_def)
    with that o cur show False by auto
  qed
  have "ready' = sorted_list_of_set (ready_set g (set (ordered @ [current])))"
  proof (rule sorted_distinct_set_unique)
    have "set ready \<inter> {d. current \<in> needs g d} = {}"
      using rs cur by (auto simp: ready_set_def)
    then show "distinct ready'"
      using srt dd by (auto simp: form)
    have "set ready' = set ready \<union> {d. current \<in> needs g d \<and> needs g d \<subseteq> set (ordered @ [current])}"
      using dd one nodes by (auto simp: form)
    also have "\<dots> = ready_set g (set (ordered @ [current]))"
      (is "?A = ?B")
    proof
      show "?A \<subseteq> ?B"
        using rs srt nodes newD nself by (fastforce simp: ready_set_def)
      show "?B \<subseteq> ?A"
      proof
        fix s assume s: "s \<in> ?B"
        show "s \<in> ?A"
        proof (cases "current \<in> needs g s")
          case False
          with s have "s \<in> ready_set g ?D" by (auto simp: ready_set_def)
          with rs s show ?thesis by (auto simp: ready_set_def)
        qed (use s in \<open>auto simp: ready_set_def\<close>)
      qed
    qed
    finally show "set ready' = set (sorted_list_of_set (ready_set g (set (ordered @ [current]))))"
      by simp
  qed (simp_all add: form)
  moreover have "\<forall>t \<in> ready_set g ?D. current \<le> t" "current \<in> ready_set g ?D"
    using rs srt by auto
  ultimately show ?thesis
    using inv ind' cur by (auto simp: kahn_inv_def deps_first_snoc smallest_first_snoc)
qed

lemma kahn_result:
  "proper g \<Longrightarrow> kahn_inv g ind ready ordered \<Longrightarrow> \<exists>ind'. kahn_inv g ind' [] (kahn g ind ready ordered)"
proof (induction g ind ready ordered rule: kahn.induct)
  case (2 g ind current ready ordered)
  obtain ind' ready' where r: "relax (sort (dependents g current)) ind ready = (ind', ready')"
    by (cases "relax (sort (dependents g current)) ind ready")
  with 2 kahn_step_inv show ?case by fastforce
qed auto

abbreviation kahn_all :: "dep_graph \<Rightarrow> string list" where
  "kahn_all g \<equiv> kahn g (initial_indegree g) (initial_ready g) []"

lemma kahn_all_props:
  assumes "proper g"
  shows "distinct (kahn_all g)" "set (kahn_all g) \<subseteq> set (node_ids g)"
    "deps_first g (kahn_all g)" "smallest_first g (kahn_all g)"
    "ready_set g (set (kahn_all g)) = {}"
proof -
  obtain ind where inv: "kahn_inv g ind [] (kahn_all g)"
    using kahn_result [OF assms initial_inv [OF assms]] by blast
  then show "distinct (kahn_all g)" "set (kahn_all g) \<subseteq> set (node_ids g)"
    "deps_first g (kahn_all g)" "smallest_first g (kahn_all g)"
    by (simp_all add: kahn_inv_def)
  from inv show "ready_set g (set (kahn_all g)) = {}"
    unfolding kahn_inv_def by (metis finite_ready_set sorted_list_of_set_eq_Nil_iff)
qed

text \<open>On a closed graph without a cycle the loop places every step.\<close>

lemma kahn_all_nodes:
  assumes g: "proper g" and cl: "closed_graph g" and ac: "acyclic (dep_rel g)"
  shows "set (kahn_all g) = set (node_ids g)"
proof (rule ccontr)
  let ?R = "set (node_ids g) - set (kahn_all g)"
  assume "set (kahn_all g) \<noteq> set (node_ids g)"
  then have "?R \<noteq> {}" using kahn_all_props(2) [OF g] by auto
  from acyclic_step_ready [OF cl ac _ this]
  obtain s where s: "s \<in> ?R" "needs g s \<inter> ?R = {}" by auto
  moreover have "needs g s \<subseteq> set (node_ids g)"
    using cl s(1) by (auto simp: closed_graph_def)
  ultimately have "s \<in> ready_set g (set (kahn_all g))" by (auto simp: ready_set_def)
  with kahn_all_props(5) [OF g] show False by simp
qed

section \<open>Soundness, completeness and the order\<close>

lemma validate_dependency_graph_Inr:
  assumes g: "proper g"
  shows "validate_dependency_graph e g = Inr xs \<longleftrightarrow>
    closed_graph g \<and> topo_sorted g xs \<and> smallest_first g xs"
    (is "_ \<longleftrightarrow> ?r")
proof -
  let ?o = "kahn_all g"
  note o = kahn_all_props [OF g]
  have checks: "for_each (\<lambda>(s, ds). raise_if (\<not> set ds \<subseteq> set (node_ids g)) e
            (raise_if (s \<in> set ds) e (Inr ()))) g = Inr () \<longleftrightarrow>
       closed_graph g \<and> (\<forall>s. s \<notin> needs g s)"
  proof -
    have "(\<forall>(s, ds) \<in> set g. set ds \<subseteq> set (node_ids g) \<and> s \<notin> set ds) \<longleftrightarrow>
      (\<forall>s \<in> set (node_ids g). needs g s \<subseteq> set (node_ids g) \<and> s \<notin> needs g s)"
      using needs_item [OF g] by (fastforce simp: node_ids_def)
    moreover have "(\<forall>s \<in> set (node_ids g). s \<notin> needs g s) \<longleftrightarrow> (\<forall>s. s \<notin> needs g s)"
      using needs_node by blast
    ultimately show ?thesis
      by (auto simp: for_each_Inr res_simps closed_graph_def split_beta)
  qed
  have len: "length ?o = card (set (node_ids g)) \<longleftrightarrow> set ?o = set (node_ids g)"
    using o by (metis card_subset_eq distinct_card finite_set)
  show ?thesis
  proof
    assume "validate_dependency_graph e g = Inr xs"
    with o len checks show ?r
      by (auto simp: validate_dependency_graph_def Let_def res_simps topo_sorted_def)
  next
    assume r: ?r
    then have cl: "closed_graph g" and t: "topo_sorted g xs" by auto
    have ac: "acyclic (dep_rel g)" using t by (rule topo_acyclic)
    then have ns: "s \<notin> needs g s" for s
      by (auto simp: acyclic_def dep_rel_def)
    have all: "set ?o = set (node_ids g)" using kahn_all_nodes [OF g cl ac] .
    then have "length ?o = length xs"
      using t o by (metis distinct_card topo_sorted_def)
    then have "?o = xs"
      using smallest_first_unique [OF o(4)] r by blast
    with all len checks cl ns show "validate_dependency_graph e g = Inr xs"
      by (simp add: validate_dependency_graph_def Let_def)
  qed
qed

lemma validate_dependency_graph_Inl:
  "validate_dependency_graph e g = Inl e' \<Longrightarrow> e' = e"
  by (auto simp: validate_dependency_graph_def res_simps Let_def split_beta dest!: for_each_Inl
      split: if_splits)

text \<open>Every closed acyclic graph has its greedy order, and the loop finds it.\<close>

lemma validate_dependency_graph_complete:
  assumes g: "proper g" and cl: "closed_graph g" and ac: "acyclic (dep_rel g)"
  shows "\<exists>xs. validate_dependency_graph e g = Inr xs"
proof -
  have "topo_sorted g (kahn_all g)"
    using kahn_all_nodes [OF assms] kahn_all_props [OF g] by (simp add: topo_sorted_def)
  then have "validate_dependency_graph e g = Inr (kahn_all g)"
    using cl kahn_all_props(4) [OF g] validate_dependency_graph_Inr [OF g, of e "kahn_all g"] by simp
  then show ?thesis ..
qed

interpretation exec_order: topological "validate_dependency_graph e" for e
proof
  show "topo_sorted g xs" if "proper g" "validate_dependency_graph e g = Inr xs" for g xs
    using that by (simp add: validate_dependency_graph_Inr)
qed (rule validate_dependency_graph_complete)

lemma proper_perm:
  "mset g = mset g' \<Longrightarrow> proper g \<Longrightarrow> proper g' \<and> needs g = needs g' \<and>
     set (node_ids g) = set (node_ids g')"
proof -
  assume m: "mset g = mset g'" and g: "proper g"
  have "distinct (map fst g) = distinct (map fst g')"
    using m by (metis mset_eq_imp_distinct_iff mset_map)
  moreover have "set g = set g'" using m by (rule mset_eq_setD)
  moreover have "map_of g = map_of g'"
    using calculation g by (auto simp: proper_def intro: map_of_inject_set [THEN iffD2])
  ultimately show ?thesis
    using g by (auto simp: proper_def needs_def node_ids_def list_all_iff fun_eq_iff)
qed

lemma validate_dependency_graph_perm:
  assumes m: "mset g = mset g'" and g: "proper g"
  shows "validate_dependency_graph e g = validate_dependency_graph e g'"
proof -
  from proper_perm [OF m g] have g': "proper g'" and n: "needs g = needs g'"
    "set (node_ids g) = set (node_ids g')" by auto
  have "validate_dependency_graph e g = Inr xs \<longleftrightarrow> validate_dependency_graph e g' = Inr xs" for xs
    by (simp add: validate_dependency_graph_Inr g g' closed_graph_def topo_sorted_def n
        deps_first_def smallest_first_def ready_set_def)
  then show ?thesis
    by (metis sum.exhaust validate_dependency_graph_Inl)
qed

end
