(* ===== verification/Exec_Models.thy ===== *)
theory Exec_Models
  imports Context_Models Exec_Order
begin

text \<open>
  The leaf models of the Executive (\<open>executive/models.py\<close>, first half): enumerations, text and
  identifier checks, fingerprints, requirements, constraints and invocations, and the JSON
  documents written for them.
\<close>

section \<open>Limits and enumerations\<close>

definition max_plan_steps :: nat where "max_plan_steps = 64"
definition max_context_requirements :: nat where "max_context_requirements = 128"
definition max_request_items :: nat where "max_request_items = 128"
definition max_text_length :: nat where "max_text_length = 16384"
definition max_identifier_length :: nat where "max_identifier_length = 256"

definition exec_json_limits :: json_limits where
  "exec_json_limits = \<lparr>max_depth = 256, max_nodes = 10000, max_characters = 4000000\<rparr>"

datatype fingerprint_kind = FpRequest | FpCapabilityContract | FpRelevantContext | FpDecision

fun fingerprint_kind_value :: "fingerprint_kind \<Rightarrow> string" where
  "fingerprint_kind_value FpRequest = ''request''"
| "fingerprint_kind_value FpCapabilityContract = ''capability_contract''"
| "fingerprint_kind_value FpRelevantContext = ''relevant_context''"
| "fingerprint_kind_value FpDecision = ''decision''"

datatype request_type = ReqTask | ReqInformation

fun request_type_value :: "request_type \<Rightarrow> string" where
  "request_type_value ReqTask = ''task''"
| "request_type_value ReqInformation = ''information''"

datatype missing_context_policy = PolicyRequestInformation | PolicyDefer

fun missing_context_policy_value :: "missing_context_policy \<Rightarrow> string" where
  "missing_context_policy_value PolicyRequestInformation = ''request_information''"
| "missing_context_policy_value PolicyDefer = ''defer''"

datatype exec_decision_type = Propose | RequestInformation | RequestApproval | Defer | Reject

fun exec_decision_type_value :: "exec_decision_type \<Rightarrow> string" where
  "exec_decision_type_value Propose = ''propose''"
| "exec_decision_type_value RequestInformation = ''request_information''"
| "exec_decision_type_value RequestApproval = ''request_approval''"
| "exec_decision_type_value Defer = ''defer''"
| "exec_decision_type_value Reject = ''reject''"

datatype decision_reason =
    ReadyForSafetyReview
  | MissingRequiredContext
  | ConflictedRequiredContext
  | ApprovalRequired
  | CapabilityUnavailable
  | UnknownCapability

fun decision_reason_value :: "decision_reason \<Rightarrow> string" where
  "decision_reason_value ReadyForSafetyReview = ''ready_for_safety_review''"
| "decision_reason_value MissingRequiredContext = ''missing_required_context''"
| "decision_reason_value ConflictedRequiredContext = ''conflicted_required_context''"
| "decision_reason_value ApprovalRequired = ''approval_required''"
| "decision_reason_value CapabilityUnavailable = ''capability_unavailable''"
| "decision_reason_value UnknownCapability = ''unknown_capability''"

text \<open>\<open>{reason: index for index, reason in enumerate(DecisionReason)}\<close>.\<close>

fun decision_reason_rank :: "decision_reason \<Rightarrow> nat" where
  "decision_reason_rank ReadyForSafetyReview = 0"
| "decision_reason_rank MissingRequiredContext = 1"
| "decision_reason_rank ConflictedRequiredContext = 2"
| "decision_reason_rank ApprovalRequired = 3"
| "decision_reason_rank CapabilityUnavailable = 4"
| "decision_reason_rank UnknownCapability = 5"

datatype expected_result =
    ResInformation | ResProposedStateChange | ResProposedCommunication | ResProposedPhysicalEffect

fun expected_result_value :: "expected_result \<Rightarrow> string" where
  "expected_result_value ResInformation = ''information''"
| "expected_result_value ResProposedStateChange = ''proposed_state_change''"
| "expected_result_value ResProposedCommunication = ''proposed_communication''"
| "expected_result_value ResProposedPhysicalEffect = ''proposed_physical_effect''"

datatype failure_policy = StopPlan | DeferDependents

fun failure_policy_value :: "failure_policy \<Rightarrow> string" where
  "failure_policy_value StopPlan = ''stop_plan''"
| "failure_policy_value DeferDependents = ''defer_dependents''"

text \<open>The reasons are ordered by their declaration, as \<open>_REASON_RANK\<close> orders them.\<close>

lemma decision_reason_rank_inject: "decision_reason_rank r = decision_reason_rank s \<longleftrightarrow> r = s"
  by (cases r; cases s; simp)

instantiation decision_reason :: linorder
begin

definition less_eq_decision_reason :: "decision_reason \<Rightarrow> decision_reason \<Rightarrow> bool" where
  "less_eq_decision_reason r s \<longleftrightarrow> decision_reason_rank r \<le> decision_reason_rank s"

definition less_decision_reason :: "decision_reason \<Rightarrow> decision_reason \<Rightarrow> bool" where
  "less_decision_reason r s \<longleftrightarrow> decision_reason_rank r < decision_reason_rank s"

instance
  by standard (auto simp: less_eq_decision_reason_def less_decision_reason_def
      simp flip: decision_reason_rank_inject)

end

section \<open>Errors, texts and identifiers\<close>

abbreviation invalid_request :: exn where
  "invalid_request \<equiv> ExecutiveExn InvalidRequestError"

abbreviation plan_invariant :: exn where
  "plan_invariant \<equiv> ExecutiveExn PlanInvariantError"

abbreviation decision_invariant :: exn where
  "decision_invariant \<equiv> ExecutiveExn DecisionInvariantError"

abbreviation executive_validation :: exn where
  "executive_validation \<equiv> ExecutiveExn ExecutiveValidationError"

definition validate_text :: "'e \<Rightarrow> string \<Rightarrow> 'e + unit" where
  "validate_text e s =
     raise_if (s = []) e
    (raise_if (max_text_length < length s) e
    (raise_if (py_strip s = []) e
    (raise_if (s \<noteq> py_strip s) e
    (raise_if (\<not> utf8_encodable s) e (Inr ())))))"

definition identifier_char :: "char \<Rightarrow> bool" where
  "identifier_char c = (py_isalnum c \<or> c \<in> {CHR ''-'', CHR ''_'', CHR ''.''})"

definition identifier_key :: "'e \<Rightarrow> string \<Rightarrow> 'e + string" where
  "identifier_key e s =
     tryE (validate_text e s) (\<lambda>_.
     raise_if (max_identifier_length < length s) e
    (raise_if (\<not> py_isalnum (hd s) \<or> list_ex (\<lambda>c. \<not> identifier_char c) s) e
    (Inr s)))"

text \<open>The texts and identifiers that pass these checks.\<close>

definition text_ok :: "string \<Rightarrow> bool" where
  "text_ok s \<longleftrightarrow> exact_text_ok s \<and> length s \<le> max_text_length"

definition identifier_ok :: "string \<Rightarrow> bool" where
  "identifier_ok s \<longleftrightarrow>
     text_ok s \<and> length s \<le> max_identifier_length \<and> py_isalnum (hd s) \<and> list_all identifier_char s"

lemma validate_text_simp [simp]: "validate_text e s = (if text_ok s then Inr () else Inl e)"
  by (auto simp: validate_text_def text_ok_def exact_text_ok_def raise_if_def)

lemma identifier_key_simp [simp]: "identifier_key e s = (if identifier_ok s then Inr s else Inl e)"
  by (auto simp: identifier_key_def identifier_ok_def raise_if_def list_all_iff list_ex_iff)

text \<open>For evaluating the checks on literals.\<close>

lemmas text_evals = text_ok_def exact_text_ok_def py_strip_def py_isspace_def code_point_def
  max_text_length_def

lemmas identifier_evals = text_evals identifier_ok_def max_identifier_length_def identifier_char_def
  py_isalnum_def

lemma identifier_text_ok: "identifier_ok s \<Longrightarrow> text_ok s"
  by (simp add: identifier_ok_def)

lemma text_exact_ok: "text_ok s \<Longrightarrow> exact_text_ok s"
  by (simp add: text_ok_def)

lemma py_strip_unspaced: "list_all (\<lambda>c. \<not> py_isspace c) s \<Longrightarrow> py_strip s = s"
proof -
  have *: "dropWhile py_isspace xs = xs" if "\<forall>c \<in> set xs. \<not> py_isspace c" for xs
    using that by (cases xs) auto
  assume "list_all (\<lambda>c. \<not> py_isspace c) s"
  then show "py_strip s = s"
    using * [of s] * [of "rev s"] by (simp add: py_strip_def list_all_iff)
qed

lemma lower_hex_not_space: "is_lower_hex c \<Longrightarrow> \<not> py_isspace c"
  by (auto simp: is_lower_hex_def py_isspace_def code_point_def)

text \<open>An identifier made of a prefix and a digest, such as \<open>decision-\<close> and 64 digits.\<close>

lemma digest_text_ok:
  assumes "hex_digest_ok d" "list_all (\<lambda>c. \<not> py_isspace c) p" "length p < 100"
  shows "text_ok (p @ d)"
proof -
  have d: "length d = 64" "list_all is_lower_hex d"
    using assms(1) by (simp_all add: hex_digest_ok_def)
  then have "list_all (\<lambda>c. \<not> py_isspace c) (p @ d)"
    using assms(2) lower_hex_not_space by (auto simp: list_all_iff)
  with d assms(3) show ?thesis
    by (auto simp: text_ok_def exact_text_ok_def py_strip_unspaced max_text_length_def)
qed

section \<open>JSON data of the Executive\<close>

definition exec_canonicalize :: "exn \<Rightarrow> pyval \<Rightarrow> string res" where
  "exec_canonicalize e v = canonicalize_value exec_json_limits e v"

text \<open>On trees a copy is the value itself once it is validated (\<open>Json_Copy\<close>).\<close>

definition exec_copy :: "exn \<Rightarrow> pyval \<Rightarrow> pyval res" where
  "exec_copy e v = tryE (validate_value exec_json_limits e v) (\<lambda>_. Inr v)"

text \<open>The \<open>parameters\<close> and \<open>metadata\<close> properties: a copy, asserted to be a dict.\<close>

definition exec_dict_property :: "pyval \<Rightarrow> pyval res" where
  "exec_dict_property v =
     tryE (exec_copy executive_validation v) (\<lambda>w.
     raise_if (\<not> is_dict w) (BuiltinExn AssertionError) (Inr w))"

section \<open>Fingerprints\<close>

record exec_fingerprint =
  fp_kind :: fingerprint_kind
  fp_digest :: string
  fp_algorithm :: string
  fp_schema_version :: int

definition mk_fingerprint :: "fingerprint_kind \<Rightarrow> string \<Rightarrow> string \<Rightarrow> int \<Rightarrow> exec_fingerprint res" where
  "mk_fingerprint kind digest algorithm schema =
     raise_if (algorithm \<noteq> ''sha256'') decision_invariant
    (raise_if (schema \<noteq> 1) decision_invariant
    (raise_if (\<not> hex_digest_ok digest) decision_invariant
    (Inr \<lparr>fp_kind = kind, fp_digest = digest, fp_algorithm = algorithm,
          fp_schema_version = schema\<rparr>)))"

definition fingerprint_str :: "exec_fingerprint \<Rightarrow> string" where
  "fingerprint_str f = fingerprint_kind_value (fp_kind f) @ '':'' @ fp_algorithm f @ '':'' @ fp_digest f"

definition fingerprint_document :: "fingerprint_kind \<Rightarrow> pyval \<Rightarrow> exec_fingerprint res" where
  "fingerprint_document kind document =
     tryE (exec_canonicalize executive_validation document) (\<lambda>canonical.
     mk_fingerprint kind (sha256_hex canonical) ''sha256'' 1)"

definition sha_fingerprint :: "fingerprint_kind \<Rightarrow> string \<Rightarrow> exec_fingerprint" where
  "sha_fingerprint kind s =
     \<lparr>fp_kind = kind, fp_digest = sha256_hex s, fp_algorithm = ''sha256'', fp_schema_version = 1\<rparr>"

lemma sha_fingerprint_fields [simp]:
  "fp_kind (sha_fingerprint k s) = k" "fp_digest (sha_fingerprint k s) = sha256_hex s"
  "fp_algorithm (sha_fingerprint k s) = ''sha256''" "fp_schema_version (sha_fingerprint k s) = 1"
  by (simp_all add: sha_fingerprint_def)

lemma fingerprint_document_eq:
  "fingerprint_document kind document =
     tryE (validate_value exec_json_limits executive_validation document) (\<lambda>_.
     Inr (sha_fingerprint kind (canon document)))"
  by (cases "validate_value exec_json_limits executive_validation document")
    (simp_all add: fingerprint_document_def exec_canonicalize_def canonicalize_value_canon
      mk_fingerprint_def sha_fingerprint_def)

lemma fingerprint_document_Inr:
  "fingerprint_document kind document = Inr f \<longleftrightarrow>
     validate_value exec_json_limits executive_validation document = Inr () \<and>
     f = sha_fingerprint kind (canon document)"
  by (auto simp: fingerprint_document_eq res_simps)

section \<open>Requirements\<close>

record context_requirement =
  cr_domain :: context_domain
  cr_predicate :: string

definition mk_context_requirement :: "context_domain \<Rightarrow> string \<Rightarrow> context_requirement res" where
  "mk_context_requirement domain predicate =
     tryE (validate_text invalid_request predicate) (\<lambda>_.
     Inr \<lparr>cr_domain = domain, cr_predicate = predicate\<rparr>)"

definition context_key :: "context_requirement \<Rightarrow> string \<times> string" where
  "context_key r = (context_domain_value (cr_domain r), cr_predicate r)"

lemma context_key_inject [simp]: "context_key a = context_key b \<longleftrightarrow> a = b"
  by (auto simp: context_key_def)

record approval_requirement =
  ap_approval_id :: string
  ap_description :: string

definition mk_approval_requirement :: "string \<Rightarrow> string \<Rightarrow> approval_requirement res" where
  "mk_approval_requirement approval_id description =
     tryE (identifier_key invalid_request approval_id) (\<lambda>_.
     tryE (validate_text invalid_request description) (\<lambda>_.
     Inr \<lparr>ap_approval_id = approval_id, ap_description = description\<rparr>))"

record assumption =
  as_assumption_id :: string
  as_description :: string

definition mk_assumption :: "string \<Rightarrow> string \<Rightarrow> assumption res" where
  "mk_assumption assumption_id description =
     tryE (identifier_key invalid_request assumption_id) (\<lambda>_.
     tryE (validate_text invalid_request description) (\<lambda>_.
     Inr \<lparr>as_assumption_id = assumption_id, as_description = description\<rparr>))"

record precondition =
  pc_precondition_id :: string
  pc_description :: string

definition mk_precondition :: "string \<Rightarrow> string \<Rightarrow> precondition res" where
  "mk_precondition precondition_id description =
     tryE (identifier_key plan_invariant precondition_id) (\<lambda>_.
     tryE (validate_text plan_invariant description) (\<lambda>_.
     Inr \<lparr>pc_precondition_id = precondition_id, pc_description = description\<rparr>))"

text \<open>
  A constraint keeps the copied parameters and their canonical text.  Its equality and its hash
  leave the parameters out (\<open>compare=False\<close>) and compare the text.
\<close>

record constraint =
  co_constraint_id :: string
  co_description :: string
  co_parameters :: pyval
  co_canonical_parameters :: string

definition mk_constraint ::
  "string \<Rightarrow> string \<Rightarrow> (pykey \<times> pyval) list option \<Rightarrow> constraint res" where
  "mk_constraint constraint_id description parameters =
     tryE (identifier_key invalid_request constraint_id) (\<lambda>_.
     tryE (validate_text invalid_request description) (\<lambda>_.
     let source = (case parameters of None \<Rightarrow> [] | Some kvs \<Rightarrow> kvs) in
     tryE (exec_copy invalid_request (PDict source)) (\<lambda>copied.
     tryE (exec_canonicalize invalid_request copied) (\<lambda>canonical.
     Inr \<lparr>co_constraint_id = constraint_id, co_description = description,
          co_parameters = copied, co_canonical_parameters = canonical\<rparr>))))"

definition constraint_eq :: "constraint \<Rightarrow> constraint \<Rightarrow> bool" where
  "constraint_eq a b \<longleftrightarrow>
     co_constraint_id a = co_constraint_id b \<and> co_description a = co_description b \<and>
     co_canonical_parameters a = co_canonical_parameters b"

section \<open>Invocations\<close>

record invocation =
  inv_step_id :: string
  inv_capability_id :: string
  inv_dependencies :: "string list"
  inv_parameters :: pyval
  inv_canonical_parameters :: string

definition mk_invocation ::
  "string \<Rightarrow> string \<Rightarrow> (pykey \<times> pyval) list \<Rightarrow> string list \<Rightarrow> invocation res" where
  "mk_invocation step_id capability_id parameters deps =
     tryE (identifier_key invalid_request step_id) (\<lambda>_.
     tryE (identifier_key invalid_request capability_id) (\<lambda>_.
     tryE (exec_copy invalid_request (PDict parameters)) (\<lambda>copied.
     tryE (exec_canonicalize invalid_request copied) (\<lambda>canonical.
     let normalized = sorted_set deps in
     raise_if (length normalized \<noteq> length deps) invalid_request
    (tryE (for_each (\<lambda>d. tryE (identifier_key invalid_request d) (\<lambda>_. Inr ())) normalized) (\<lambda>_.
     raise_if (step_id \<in> set normalized) invalid_request
    (Inr \<lparr>inv_step_id = step_id, inv_capability_id = capability_id,
          inv_dependencies = normalized, inv_parameters = copied,
          inv_canonical_parameters = canonical\<rparr>)))))))"

section \<open>Documents\<close>

definition context_document :: "context_requirement \<Rightarrow> pyval" where
  "context_document r =
     obj [(''domain'', PStr (context_domain_value (cr_domain r))),
          (''predicate'', PStr (cr_predicate r))]"

definition approval_document :: "approval_requirement \<Rightarrow> pyval" where
  "approval_document a =
     obj [(''approval_id'', PStr (ap_approval_id a)), (''description'', PStr (ap_description a))]"

definition assumption_document :: "assumption \<Rightarrow> pyval" where
  "assumption_document a =
     obj [(''assumption_id'', PStr (as_assumption_id a)), (''description'', PStr (as_description a))]"

definition precondition_document :: "precondition \<Rightarrow> pyval" where
  "precondition_document p =
     obj [(''description'', PStr (pc_description p)),
          (''precondition_id'', PStr (pc_precondition_id p))]"

definition constraint_document :: "constraint \<Rightarrow> pyval res" where
  "constraint_document c =
     tryE (exec_dict_property (co_parameters c)) (\<lambda>params.
     Inr (obj [(''constraint_id'', PStr (co_constraint_id c)),
               (''description'', PStr (co_description c)),
               (''parameters'', params)]))"

definition invocation_document :: "invocation \<Rightarrow> pyval res" where
  "invocation_document i =
     tryE (exec_dict_property (inv_parameters i)) (\<lambda>params.
     Inr (obj [(''capability_id'', PStr (inv_capability_id i)),
               (''dependencies'', str_list (inv_dependencies i)),
               (''parameters'', params),
               (''step_id'', PStr (inv_step_id i))]))"

section \<open>What the constructors guarantee\<close>

text \<open>A stored parameter dict passed the bounds, and its canonical text is its print.\<close>

definition params_ok :: "pyval \<Rightarrow> string \<Rightarrow> bool" where
  "params_ok v c \<longleftrightarrow>
     is_dict v \<and> validate_value exec_json_limits executive_validation v = Inr () \<and> c = canon v"

definition approval_ok :: "approval_requirement \<Rightarrow> bool" where
  "approval_ok a \<longleftrightarrow> identifier_ok (ap_approval_id a) \<and> text_ok (ap_description a)"

definition assumption_ok :: "assumption \<Rightarrow> bool" where
  "assumption_ok a \<longleftrightarrow> identifier_ok (as_assumption_id a) \<and> text_ok (as_description a)"

definition precondition_ok :: "precondition \<Rightarrow> bool" where
  "precondition_ok p \<longleftrightarrow> identifier_ok (pc_precondition_id p) \<and> text_ok (pc_description p)"

definition requirement_ok :: "context_requirement \<Rightarrow> bool" where
  "requirement_ok r \<longleftrightarrow> text_ok (cr_predicate r)"

definition constraint_ok :: "constraint \<Rightarrow> bool" where
  "constraint_ok c \<longleftrightarrow>
     identifier_ok (co_constraint_id c) \<and> text_ok (co_description c) \<and>
     params_ok (co_parameters c) (co_canonical_parameters c)"

definition invocation_ok :: "invocation \<Rightarrow> bool" where
  "invocation_ok i \<longleftrightarrow>
     identifier_ok (inv_step_id i) \<and> identifier_ok (inv_capability_id i) \<and>
     sorted (inv_dependencies i) \<and> distinct (inv_dependencies i) \<and>
     list_all identifier_ok (inv_dependencies i) \<and>
     inv_step_id i \<notin> set (inv_dependencies i) \<and>
     params_ok (inv_parameters i) (inv_canonical_parameters i)"

lemma exec_copy_canonicalize:
  "exec_copy e (PDict kvs) = Inr v \<Longrightarrow> exec_canonicalize e v = Inr c \<Longrightarrow> params_ok v c"
  using validate_value_cong [of exec_json_limits e _ _ executive_validation]
  by (auto simp: exec_copy_def exec_canonicalize_def canonicalize_value_canon params_ok_def res_simps)

lemma mk_constraint_ok: "mk_constraint i d ps = Inr c \<Longrightarrow> constraint_ok c"
  by (auto simp: mk_constraint_def res_simps Let_def constraint_ok_def split: if_splits
      intro: exec_copy_canonicalize)

lemma mk_invocation_ok: "mk_invocation s c ps ds = Inr i \<Longrightarrow> invocation_ok i"
  by (auto simp: mk_invocation_def res_simps Let_def invocation_ok_def for_each_Inr list_all_iff
      split: if_splits intro: exec_copy_canonicalize)

lemma exec_dict_property_ok: "params_ok v c \<Longrightarrow> exec_dict_property v = Inr v"
  by (simp add: exec_dict_property_def exec_copy_def params_ok_def)

end
