(* ===== verification/Exec_Request.thy ===== *)
theory Exec_Request
  imports Exec_Models
begin

text \<open>
  Requests, plan steps and plans (\<open>executive/models.py\<close>, \<open>ExecutiveRequest\<close>, \<open>PlanStep\<close>, \<open>Plan\<close>).
  The constructors normalise: tuples come back sorted by key, duplicates are refused, a plan is
  stored in its greedy topological order.
\<close>

section \<open>Requests\<close>

record executive_request =
  rq_request_id :: string
  rq_objective :: string
  rq_request_type :: request_type
  rq_invocations :: "invocation list"
  rq_required_context :: "context_requirement list"
  rq_optional_context :: "context_requirement list"
  rq_constraints :: "constraint list"
  rq_required_approvals :: "approval_requirement list"
  rq_assumptions :: "assumption list"
  rq_missing_context_policy :: missing_context_policy
  rq_fingerprint :: exec_fingerprint
  rq_metadata :: pyval
  rq_canonical_metadata :: string

definition context_tuple :: "context_requirement list \<Rightarrow> context_requirement list res" where
  "context_tuple vals =
     raise_if (max_context_requirements < length vals) invalid_request
    (let result = sort_key context_key vals in
     raise_if (has_dup result) invalid_request (Inr result))"

definition typed_tuple :: "('a \<Rightarrow> string) \<Rightarrow> 'a list \<Rightarrow> 'a list res" where
  "typed_tuple id_attribute vals =
     raise_if (max_request_items < length vals) invalid_request
    (let result = sort_key id_attribute vals; identifiers = map id_attribute result in
     raise_if (has_dup identifiers) invalid_request (Inr result))"

definition invocation_graph :: "invocation list \<Rightarrow> dep_graph" where
  "invocation_graph invs = map (\<lambda>i. (inv_step_id i, inv_dependencies i)) invs"

definition request_document ::
  "string \<Rightarrow> string \<Rightarrow> request_type \<Rightarrow> invocation list \<Rightarrow> context_requirement list \<Rightarrow>
   context_requirement list \<Rightarrow> constraint list \<Rightarrow> approval_requirement list \<Rightarrow> assumption list \<Rightarrow>
   missing_context_policy \<Rightarrow> pyval \<Rightarrow> pyval res" where
  "request_document request_id objective rtype invs required optional cons approvals
     assumptions policy metadata =
     tryE (traverse constraint_document cons) (\<lambda>constraint_docs.
     tryE (traverse invocation_document invs) (\<lambda>invocation_docs.
     Inr (obj [
       (''assumptions'', PList (map assumption_document assumptions)),
       (''constraints'', PList constraint_docs),
       (''invocations'', PList invocation_docs),
       (''metadata'', metadata),
       (''missing_context_policy'', PStr (missing_context_policy_value policy)),
       (''objective'', PStr objective),
       (''optional_context'', PList (map context_document optional)),
       (''request_id'', PStr request_id),
       (''request_type'', PStr (request_type_value rtype)),
       (''required_approvals'', PList (map approval_document approvals)),
       (''required_context'', PList (map context_document required)),
       (''schema'', PStr ''ayyo.executive.request.v1'')])))"

definition mk_executive_request ::
  "string \<Rightarrow> string \<Rightarrow> request_type \<Rightarrow> invocation list \<Rightarrow> context_requirement list \<Rightarrow>
   context_requirement list \<Rightarrow> constraint list \<Rightarrow> approval_requirement list \<Rightarrow> assumption list \<Rightarrow>
   missing_context_policy \<Rightarrow> (pykey \<times> pyval) list option \<Rightarrow> executive_request res" where
  "mk_executive_request request_id objective rtype invs required optional cons approvals
     assumptions policy metadata =
     tryE (validate_text invalid_request request_id) (\<lambda>_.
     tryE (validate_text invalid_request objective) (\<lambda>_.
     raise_if (invs = []) invalid_request
    (raise_if (max_plan_steps < length invs) invalid_request
    (let invs = sort_key inv_step_id invs in
     raise_if (card (inv_step_id ` set invs) \<noteq> length invs) invalid_request
    (tryE (validate_dependency_graph invalid_request (invocation_graph invs)) (\<lambda>_.
     tryE (context_tuple required) (\<lambda>required.
     tryE (context_tuple optional) (\<lambda>optional.
     raise_if (set required \<inter> set optional \<noteq> {}) invalid_request
    (raise_if (max_context_requirements < length required + length optional) invalid_request
    (tryE (typed_tuple co_constraint_id cons) (\<lambda>cons.
     tryE (typed_tuple ap_approval_id approvals) (\<lambda>approvals.
     tryE (typed_tuple as_assumption_id assumptions) (\<lambda>assumptions.
     let source = (case metadata of None \<Rightarrow> [] | Some kvs \<Rightarrow> kvs) in
     tryE (exec_copy invalid_request (PDict source)) (\<lambda>metadata_copy.
     tryE (exec_canonicalize invalid_request metadata_copy) (\<lambda>canonical_metadata.
     tryE (request_document request_id objective rtype invs required optional cons approvals
             assumptions policy metadata_copy) (\<lambda>document.
     tryE (fingerprint_document FpRequest document) (\<lambda>fingerprint.
     Inr \<lparr>rq_request_id = request_id, rq_objective = objective, rq_request_type = rtype,
          rq_invocations = invs, rq_required_context = required, rq_optional_context = optional,
          rq_constraints = cons, rq_required_approvals = approvals, rq_assumptions = assumptions,
          rq_missing_context_policy = policy, rq_fingerprint = fingerprint,
          rq_metadata = metadata_copy, rq_canonical_metadata = canonical_metadata\<rparr>)))))))))))))))))"

definition requested_capabilities :: "executive_request \<Rightarrow> string list" where
  "requested_capabilities r = sorted_set (map inv_capability_id (rq_invocations r))"

section \<open>Plan steps and plans\<close>

record plan_step =
  ps_step_id :: string
  ps_capability_id :: string
  ps_dependencies :: "string list"
  ps_preconditions :: "precondition list"
  ps_required_context :: "context_requirement list"
  ps_required_approvals :: "approval_requirement list"
  ps_constraints :: "constraint list"
  ps_expected_result :: expected_result
  ps_failure_policy :: failure_policy
  ps_parameters :: pyval
  ps_canonical_parameters :: string

definition plan_tuple :: "('a \<Rightarrow> 'k::linorder) \<Rightarrow> 'a list \<Rightarrow> 'a list res" where
  "plan_tuple key vals =
     raise_if (max_request_items < length vals) plan_invariant
    (let result = sort_key key vals; keys = map key result in
     raise_if (has_dup keys) plan_invariant (Inr result))"

definition mk_plan_step ::
  "string \<Rightarrow> string \<Rightarrow> pyval \<Rightarrow> string list \<Rightarrow> precondition list \<Rightarrow> context_requirement list \<Rightarrow>
   approval_requirement list \<Rightarrow> constraint list \<Rightarrow> expected_result \<Rightarrow> failure_policy \<Rightarrow> plan_step res" where
  "mk_plan_step step_id capability_id parameters deps preconditions required approvals cons
     expected policy =
     tryE (identifier_key plan_invariant step_id) (\<lambda>_.
     tryE (identifier_key plan_invariant capability_id) (\<lambda>_.
     raise_if (\<not> is_dict parameters) plan_invariant
    (tryE (exec_copy plan_invariant parameters) (\<lambda>copied.
     tryE (exec_canonicalize plan_invariant copied) (\<lambda>canonical.
     let normalized = sorted_set deps in
     raise_if (length normalized \<noteq> length deps) plan_invariant
    (raise_if (step_id \<in> set normalized) plan_invariant
    (tryE (plan_tuple pc_precondition_id preconditions) (\<lambda>preconditions.
     tryE (plan_tuple context_key required) (\<lambda>required.
     tryE (plan_tuple ap_approval_id approvals) (\<lambda>approvals.
     tryE (plan_tuple co_constraint_id cons) (\<lambda>cons.
     Inr \<lparr>ps_step_id = step_id, ps_capability_id = capability_id, ps_dependencies = normalized,
          ps_preconditions = preconditions, ps_required_context = required,
          ps_required_approvals = approvals, ps_constraints = cons,
          ps_expected_result = expected, ps_failure_policy = policy,
          ps_parameters = copied, ps_canonical_parameters = canonical\<rparr>)))))))))))"

definition step_parameters :: "plan_step \<Rightarrow> pyval res" where
  "step_parameters s = exec_dict_property (ps_parameters s)"

record exec_plan =
  pl_steps :: "plan_step list"

definition step_graph :: "plan_step list \<Rightarrow> dep_graph" where
  "step_graph steps = map (\<lambda>s. (ps_step_id s, ps_dependencies s)) steps"

definition dict_item :: "'a option \<Rightarrow> 'a res" where
  "dict_item x = (case x of None \<Rightarrow> Inl (BuiltinExn KeyError) | Some y \<Rightarrow> Inr y)"

lemma dict_item_Inr [res_simps]: "dict_item x = Inr y \<longleftrightarrow> x = Some y"
  by (auto simp: dict_item_def split: option.splits)

definition mk_plan :: "plan_step list \<Rightarrow> exec_plan res" where
  "mk_plan steps =
     raise_if (steps = []) plan_invariant
    (raise_if (max_plan_steps < length steps) plan_invariant
    (raise_if (card (ps_step_id ` set steps) \<noteq> length steps) plan_invariant
    (tryE (validate_dependency_graph plan_invariant (step_graph steps)) (\<lambda>order.
     tryE (traverse (\<lambda>i. dict_item (index_get ps_step_id steps i)) order) (\<lambda>ordered.
     Inr \<lparr>pl_steps = ordered\<rparr>)))))"

section \<open>The tuples are ordered and unique\<close>

interpretation context_tuple: ordered_unique context_tuple context_key 128 invalid_request
  by unfold_locales
    (auto simp: context_tuple_def max_context_requirements_def Let_def raise_if_def distinct_map
      inj_on_def)

interpretation typed_tuple: ordered_unique "typed_tuple key" key 128 invalid_request
  for key :: "'a \<Rightarrow> string"
  by unfold_locales (simp add: typed_tuple_def max_request_items_def Let_def raise_if_def)

interpretation plan_tuple: ordered_unique "plan_tuple key" key 128 plan_invariant
  for key :: "'a \<Rightarrow> 'k::linorder"
  by unfold_locales (simp add: plan_tuple_def max_request_items_def Let_def raise_if_def)

lemma card_image_length: "card (f ` set xs) = length xs \<longleftrightarrow> distinct (map f xs)"
  by (metis card_distinct distinct_card length_map set_map)

section \<open>What the constructors guarantee\<close>

definition keyed_ok :: "('a \<Rightarrow> 'k::linorder) \<Rightarrow> ('a \<Rightarrow> bool) \<Rightarrow> 'a list \<Rightarrow> bool" where
  "keyed_ok key ok xs \<longleftrightarrow>
     length xs \<le> 128 \<and> sorted (map key xs) \<and> distinct (map key xs) \<and> list_all ok xs"

definition request_ok :: "executive_request \<Rightarrow> bool" where
  "request_ok r \<longleftrightarrow>
     text_ok (rq_request_id r) \<and> text_ok (rq_objective r) \<and>
     rq_invocations r \<noteq> [] \<and> length (rq_invocations r) \<le> max_plan_steps \<and>
     sorted (map inv_step_id (rq_invocations r)) \<and> distinct (map inv_step_id (rq_invocations r)) \<and>
     list_all invocation_ok (rq_invocations r) \<and>
     closed_graph (invocation_graph (rq_invocations r)) \<and>
     acyclic (dep_rel (invocation_graph (rq_invocations r))) \<and>
     keyed_ok context_key requirement_ok (rq_required_context r) \<and>
     keyed_ok context_key requirement_ok (rq_optional_context r) \<and>
     set (rq_required_context r) \<inter> set (rq_optional_context r) = {} \<and>
     length (rq_required_context r) + length (rq_optional_context r) \<le> 128 \<and>
     keyed_ok co_constraint_id constraint_ok (rq_constraints r) \<and>
     keyed_ok ap_approval_id approval_ok (rq_required_approvals r) \<and>
     keyed_ok as_assumption_id assumption_ok (rq_assumptions r) \<and>
     (\<exists>s. rq_fingerprint r = sha_fingerprint FpRequest s)"

definition step_ok :: "plan_step \<Rightarrow> bool" where
  "step_ok s \<longleftrightarrow>
     identifier_ok (ps_step_id s) \<and> identifier_ok (ps_capability_id s) \<and>
     params_ok (ps_parameters s) (ps_canonical_parameters s) \<and>
     sorted (ps_dependencies s) \<and> distinct (ps_dependencies s) \<and>
     ps_step_id s \<notin> set (ps_dependencies s) \<and>
     keyed_ok pc_precondition_id precondition_ok (ps_preconditions s) \<and>
     keyed_ok context_key requirement_ok (ps_required_context s) \<and>
     keyed_ok ap_approval_id approval_ok (ps_required_approvals s) \<and>
     keyed_ok co_constraint_id constraint_ok (ps_constraints s)"

definition plan_ok :: "exec_plan \<Rightarrow> bool" where
  "plan_ok p \<longleftrightarrow>
     pl_steps p \<noteq> [] \<and> length (pl_steps p) \<le> max_plan_steps \<and> list_all step_ok (pl_steps p) \<and>
     distinct (map ps_step_id (pl_steps p)) \<and>
     validate_dependency_graph plan_invariant (step_graph (pl_steps p)) =
       Inr (map ps_step_id (pl_steps p))"

lemma keyed_ok_sort_key:
  "length xs \<le> 128 \<Longrightarrow> distinct (map key xs) \<Longrightarrow> list_all ok xs \<Longrightarrow> keyed_ok key ok (sort_key key xs)"
  by (simp add: keyed_ok_def list_all_iff)

lemma invocation_graph_proper:
  "distinct (map inv_step_id invs) \<Longrightarrow> list_all invocation_ok invs \<Longrightarrow> proper (invocation_graph invs)"
  by (auto simp: proper_def invocation_graph_def o_def list_all_iff invocation_ok_def)

lemma mk_executive_request_ok:
  assumes "mk_executive_request i ob t invs req opt cons aps asms pol md = Inr r"
    and "list_all invocation_ok invs" "list_all requirement_ok req" "list_all requirement_ok opt"
    "list_all constraint_ok cons" "list_all approval_ok aps" "list_all assumption_ok asms"
  shows "request_ok r"
proof -
  let ?i = "sort_key inv_step_id invs"
  let ?g = "invocation_graph ?i"
  from assms(1) obtain order req' opt' cons' aps' asms' mc cm doc where
    t: "text_ok i" "text_ok ob" "invs \<noteq> []" "length invs \<le> max_plan_steps"
    and d: "distinct (map inv_step_id invs)"
    and v: "validate_dependency_graph invalid_request ?g = Inr order"
    and tuples: "context_tuple req = Inr req'" "context_tuple opt = Inr opt'"
    and ctx: "set req' \<inter> set opt' = {}" "length req' + length opt' \<le> max_context_requirements"
    and typed: "typed_tuple co_constraint_id cons = Inr cons'"
      "typed_tuple ap_approval_id aps = Inr aps'" "typed_tuple as_assumption_id asms = Inr asms'"
    and r: "\<lparr>rq_request_id = i, rq_objective = ob, rq_request_type = t, rq_invocations = ?i,
      rq_required_context = req', rq_optional_context = opt', rq_constraints = cons',
      rq_required_approvals = aps', rq_assumptions = asms', rq_missing_context_policy = pol,
      rq_fingerprint = sha_fingerprint FpRequest (canon doc), rq_metadata = mc,
      rq_canonical_metadata = cm\<rparr> = r"
    unfolding mk_executive_request_def Let_def
    by (simp add: res_simps card_image_length not_less fingerprint_document_Inr split: if_splits)
      (elim exE conjE, rule that; assumption)
  have "proper ?g"
    using d assms(2) by (intro invocation_graph_proper) (simp_all add: list_all_iff)
  then have g: "closed_graph ?g" "acyclic (dep_rel ?g)"
    using exec_order.accepted [OF _ v] by simp_all
  have k: "keyed_ok context_key requirement_ok req'" "keyed_ok context_key requirement_ok opt'"
    "keyed_ok co_constraint_id constraint_ok cons'" "keyed_ok ap_approval_id approval_ok aps'"
    "keyed_ok as_assumption_id assumption_ok asms'"
    using tuples typed assms(3-)
    by (auto simp: context_tuple.build_Inr_iff typed_tuple.build_Inr_iff keyed_ok_sort_key)
  have "list_all invocation_ok ?i" using assms(2) by (simp add: list_all_iff)
  with t d g k ctx show ?thesis
    unfolding r [symmetric] by (simp add: request_ok_def max_context_requirements_def) blast
qed

text \<open>The order in which the items of a request are listed is not semantic.\<close>

lemma mk_executive_request_perm:
  assumes "mset invs = mset invs'" "mset req = mset req'" "mset opt = mset opt'"
    and "mset cons = mset cons'" "mset aps = mset aps'" "mset asms = mset asms'"
  shows "mk_executive_request i ob t invs req opt cons aps asms pol md =
         mk_executive_request i ob t invs' req' opt' cons' aps' asms' pol md"
proof -
  have len: "length invs = length invs'" and st: "set invs = set invs'"
    using assms(1) by (auto dest: mset_eq_length mset_eq_setD)
  have nil: "invs = [] \<longleftrightarrow> invs' = []" using len by (metis length_0_conv)
  have ds: "distinct (map inv_step_id invs) \<longleftrightarrow> distinct (map inv_step_id invs')"
    using assms(1) by (metis mset_eq_imp_distinct_iff mset_map)
  have srt: "sort_key inv_step_id invs = sort_key inv_step_id invs'"
    if "distinct (map inv_step_id invs')"
    using that ds st by (intro sort_key_unique) auto
  show ?thesis
  proof (cases "distinct (map inv_step_id invs')")
    case True
    then show ?thesis
      unfolding mk_executive_request_def
      using context_tuple.build_perm [OF assms(2)] context_tuple.build_perm [OF assms(3)]
        typed_tuple.build_perm [OF assms(4)] typed_tuple.build_perm [OF assms(5)]
        typed_tuple.build_perm [OF assms(6)]
      by (simp only: srt nil len)
  next
    case False
    then show ?thesis
      using ds nil len by (simp add: mk_executive_request_def Let_def card_image_length)
  qed
qed

lemma mk_plan_step_ok:
  assumes "mk_plan_step sid cid ps ds pcs ctx aps cons er fp = Inr s"
    and "list_all precondition_ok pcs" "list_all requirement_ok ctx" "list_all approval_ok aps"
    "list_all constraint_ok cons"
  shows "step_ok s"
proof -
  have "params_ok v c" if "exec_copy e ps = Inr v" "exec_canonicalize e' v = Inr c" "is_dict ps" for e e' v c
    using that validate_value_cong [of exec_json_limits e _ _ executive_validation]
    by (auto simp: exec_copy_def exec_canonicalize_def canonicalize_value_canon params_ok_def
        res_simps)
  with assms show ?thesis
    by (auto simp: mk_plan_step_def res_simps Let_def step_ok_def keyed_ok_sort_key
        plan_tuple.build_Inr_iff split: if_splits)
qed

lemma step_graph_proper:
  "distinct (map ps_step_id steps) \<Longrightarrow> list_all step_ok steps \<Longrightarrow> proper (step_graph steps)"
  by (auto simp: proper_def step_graph_def o_def list_all_iff step_ok_def)

lemma step_graph_nodes [simp]: "node_ids (step_graph steps) = map ps_step_id steps"
  by (simp add: node_ids_def step_graph_def)

text \<open>The plan is stored in the order computed for it.\<close>

lemma mk_plan_steps:
  assumes "mk_plan steps = Inr p" "list_all step_ok steps"
  shows "mset (pl_steps p) = mset steps" "distinct (map ps_step_id steps)"
    "validate_dependency_graph plan_invariant (step_graph steps) = Inr (map ps_step_id (pl_steps p))"
proof -
  from assms(1) obtain order where d: "distinct (map ps_step_id steps)"
    and v: "validate_dependency_graph plan_invariant (step_graph steps) = Inr order"
    and t: "list_all2 (\<lambda>i s. dict_item (index_get ps_step_id steps i) = Inr s) order (pl_steps p)"
    by (auto simp: mk_plan_def res_simps card_image_length traverse_Inr)
  from t have ids: "order = map ps_step_id (pl_steps p) \<and> set (pl_steps p) \<subseteq> set steps"
    by (induction rule: list_all2_induct) (auto simp: dict_item_def index_get_Some [OF d] split: option.splits)
  with v show "validate_dependency_graph plan_invariant (step_graph steps) =
      Inr (map ps_step_id (pl_steps p))"
    by simp
  show "distinct (map ps_step_id steps)" by (rule d)
  have "mset (map ps_step_id (pl_steps p)) = mset (map ps_step_id steps)"
    using exec_order.order_mset [OF step_graph_proper [OF d assms(2)] v] ids by simp
  then have dp: "distinct (map ps_step_id (pl_steps p))"
    and len: "length (pl_steps p) = length steps"
    using d by (metis mset_eq_imp_distinct_iff, metis length_map mset_eq_length)
  have "distinct (pl_steps p)" "distinct steps" using dp d by (simp_all add: distinct_map)
  moreover have "set (pl_steps p) = set steps"
    using ids len calculation by (metis card_subset_eq distinct_card finite_set)
  ultimately show "mset (pl_steps p) = mset steps"
    by (simp add: set_eq_iff_mset_eq_distinct)
qed

lemma mk_plan_ok:
  assumes "mk_plan steps = Inr p" "list_all step_ok steps"
  shows "plan_ok p"
proof -
  note m = mk_plan_steps [OF assms]
  have len: "length (pl_steps p) = length steps" and st: "set (pl_steps p) = set steps"
    using m(1) by (auto dest: mset_eq_length mset_eq_setD)
  have "steps \<noteq> []" "length steps \<le> max_plan_steps"
    using assms(1) by (auto simp: mk_plan_def res_simps)
  moreover have "mset (step_graph (pl_steps p)) = mset (step_graph steps)"
    using m(1) by (simp add: step_graph_def)
  then have "validate_dependency_graph plan_invariant (step_graph (pl_steps p)) =
      Inr (map ps_step_id (pl_steps p))"
    using m(3) validate_dependency_graph_perm step_graph_proper [OF m(2) assms(2)] by metis
  moreover have "distinct (map ps_step_id (pl_steps p))"
    using m(1,2) by (metis mset_eq_imp_distinct_iff mset_map)
  ultimately show ?thesis
    using assms(2) len st by (auto simp: plan_ok_def list_all_iff)
qed

text \<open>Planning fails only on the three conditions the constructor names.\<close>

lemma mk_plan_total:
  assumes "steps \<noteq> []" "length steps \<le> max_plan_steps" "distinct (map ps_step_id steps)"
    and "list_all step_ok steps" "closed_graph (step_graph steps)" "acyclic (dep_rel (step_graph steps))"
  shows "\<exists>p. mk_plan steps = Inr p"
proof -
  have g: "proper (step_graph steps)" using assms(3,4) by (rule step_graph_proper)
  obtain order where v: "validate_dependency_graph plan_invariant (step_graph steps) = Inr order"
    using exec_order.accepts_iff [OF g, of plan_invariant, THEN iffD2, OF conjI [OF assms(5,6)]] ..
  have "set order = ps_step_id ` set steps"
    using exec_order.sound [OF g v] by (simp add: topo_sorted_def)
  then have "\<exists>s. dict_item (index_get ps_step_id steps i) = Inr s" if "i \<in> set order" for i
    using that by (cases "index_get ps_step_id steps i") (auto simp: dict_item_def index_get_None)
  then have "\<exists>ys. traverse (\<lambda>i. dict_item (index_get ps_step_id steps i)) order = Inr ys"
    by (rule traverse_total)
  with v assms show ?thesis
    by (auto simp: mk_plan_def card_image_length)
qed

end
