(* ===== verification/Exec_Decision.thy ===== *)
theory Exec_Decision
  imports Exec_Request
begin

text \<open>
  Decisions and their revalidation (\<open>executive/models.py\<close>, \<open>ContextReference\<close>,
  \<open>ExecutiveDecision\<close>, \<open>RevalidationResult\<close>): the cited context, the invariants a decision has to
  meet for its type, and the content fingerprints.
\<close>

section \<open>Context references\<close>

record context_reference =
  cf_requirement :: context_requirement
  cf_required :: bool
  cf_state :: context_state
  cf_value_digests :: "string list"
  cf_memory_ids :: "uuid list"
  cf_conflict_ids :: "uuid list"

definition mk_context_reference ::
  "context_requirement \<Rightarrow> bool \<Rightarrow> context_state \<Rightarrow> string list \<Rightarrow> uuid list \<Rightarrow> uuid list \<Rightarrow>
   context_reference res" where
  "mk_context_reference requirement required state digests memory_ids conflict_ids =
     raise_if (\<not> list_all hex_digest_ok digests) decision_invariant
    (raise_if (digests \<noteq> sorted_set digests) decision_invariant
    (raise_if (memory_ids \<noteq> sorted_uuids memory_ids) decision_invariant
    (raise_if (conflict_ids \<noteq> sorted_uuids conflict_ids) decision_invariant
    (raise_if (state = CtxUnknown \<and> (digests \<noteq> [] \<or> memory_ids \<noteq> [] \<or> conflict_ids \<noteq> []))
       decision_invariant
    (raise_if (state = CtxResolved \<and> (length digests \<noteq> 1 \<or> memory_ids = [] \<or> conflict_ids \<noteq> []))
       decision_invariant
    (raise_if (state = CtxConflicted \<and>
         (length digests < 2 \<or> length memory_ids < 2 \<or> conflict_ids = [])) decision_invariant
    (Inr \<lparr>cf_requirement = requirement, cf_required = required, cf_state = state,
          cf_value_digests = digests, cf_memory_ids = memory_ids,
          cf_conflict_ids = conflict_ids\<rparr>)))))))"

definition reference_key :: "context_reference \<Rightarrow> nat \<times> string \<times> string" where
  "reference_key r =
     (if cf_required r then 0 else 1,
      context_domain_value (cr_domain (cf_requirement r)), cr_predicate (cf_requirement r))"

definition reference_document :: "context_reference \<Rightarrow> pyval" where
  "reference_document r = obj [
     (''conflict_ids'', str_list (map uuid_str (cf_conflict_ids r))),
     (''domain'', PStr (context_domain_value (cr_domain (cf_requirement r)))),
     (''memory_ids'', str_list (map uuid_str (cf_memory_ids r))),
     (''predicate'', PStr (cr_predicate (cf_requirement r))),
     (''required'', PBool (cf_required r)),
     (''state'', PStr (context_state_value (cf_state r))),
     (''value_digests'', str_list (cf_value_digests r))]"

definition relevant_context_document :: "context_reference list \<Rightarrow> pyval" where
  "relevant_context_document references = obj [
     (''references'', PList (map reference_document
        (sort_key reference_key (filter cf_required references)))),
     (''schema'', PStr ''ayyo.executive.relevant-context.v1'')]"

definition relevant_context_fingerprint :: "context_reference list \<Rightarrow> exec_fingerprint res" where
  "relevant_context_fingerprint references =
     fingerprint_document FpRelevantContext (relevant_context_document references)"

section \<open>Decisions\<close>

definition step_document :: "plan_step \<Rightarrow> pyval res" where
  "step_document s =
     tryE (traverse constraint_document (ps_constraints s)) (\<lambda>constraint_docs.
     tryE (step_parameters s) (\<lambda>params.
     Inr (obj [
       (''capability_id'', PStr (ps_capability_id s)),
       (''constraints'', PList constraint_docs),
       (''dependencies'', str_list (ps_dependencies s)),
       (''expected_result'', PStr (expected_result_value (ps_expected_result s))),
       (''failure_policy'', PStr (failure_policy_value (ps_failure_policy s))),
       (''parameters'', params),
       (''preconditions'', PList (map precondition_document (ps_preconditions s))),
       (''required_approvals'', PList (map approval_document (ps_required_approvals s))),
       (''required_context'', PList (map context_document (ps_required_context s))),
       (''step_id'', PStr (ps_step_id s))])))"

record executive_decision =
  ed_decision_id :: string
  ed_request_id :: string
  ed_owner_subject :: string
  ed_decision_type :: exec_decision_type
  ed_reason_codes :: "decision_reason list"
  ed_explanation :: string
  ed_context_snapshot_version :: snapshot_version
  ed_request_fingerprint :: exec_fingerprint
  ed_capability_contract_fingerprint :: exec_fingerprint
  ed_relevant_context_fingerprint :: exec_fingerprint
  ed_decision_fingerprint :: exec_fingerprint
  ed_context_references :: "context_reference list"
  ed_missing_context :: "context_requirement list"
  ed_conflicted_context :: "context_requirement list"
  ed_assumptions :: "assumption list"
  ed_required_capabilities :: "string list"
  ed_required_approvals :: "approval_requirement list"
  ed_constraints :: "constraint list"
  ed_proposed_plan :: "exec_plan option"

definition decision_tuple :: "('a \<Rightarrow> 'k::linorder) \<Rightarrow> 'a list \<Rightarrow> 'a list res" where
  "decision_tuple key vals =
     raise_if (max_request_items < length vals) decision_invariant
    (let result = sort_key key vals; keys = map key result in
     raise_if (has_dup keys) decision_invariant (Inr result))"

text \<open>\<open>expected_reasons\<close> of the three decision types that have exactly one reason set.\<close>

fun exact_reasons :: "exec_decision_type \<Rightarrow> decision_reason set option" where
  "exact_reasons Propose = Some {ReadyForSafetyReview}"
| "exact_reasons RequestInformation = Some {MissingRequiredContext}"
| "exact_reasons RequestApproval = Some {ApprovalRequired}"
| "exact_reasons _ = None"

definition validate_shape ::
  "exec_decision_type \<Rightarrow> decision_reason list \<Rightarrow> context_requirement list \<Rightarrow>
   context_requirement list \<Rightarrow> approval_requirement list \<Rightarrow> exec_plan option \<Rightarrow> unit res" where
  "validate_shape dtype reasons missing conflicted approvals plan =
     raise_if (case exact_reasons dtype of None \<Rightarrow> False | Some expected \<Rightarrow> set reasons \<noteq> expected)
       decision_invariant
    (raise_if (dtype = Defer \<and>
         \<not> set reasons \<subseteq> {MissingRequiredContext, ConflictedRequiredContext, CapabilityUnavailable})
       decision_invariant
    (raise_if (dtype = Reject \<and>
         (UnknownCapability \<notin> set reasons \<or>
          \<not> set reasons \<subseteq> {UnknownCapability, CapabilityUnavailable, MissingRequiredContext,
            ConflictedRequiredContext})) decision_invariant
    (raise_if ((MissingRequiredContext \<in> set reasons) \<noteq> (missing \<noteq> [])) decision_invariant
    (raise_if ((ConflictedRequiredContext \<in> set reasons) \<noteq> (conflicted \<noteq> [])) decision_invariant
    (case dtype of
       Propose \<Rightarrow>
         raise_if (plan = None \<or> missing \<noteq> [] \<or> conflicted \<noteq> []) decision_invariant
        (raise_if (approvals \<noteq> []) decision_invariant (Inr ()))
     | RequestApproval \<Rightarrow>
         raise_if (plan = None \<or> approvals = []) decision_invariant
        (raise_if (missing \<noteq> [] \<or> conflicted \<noteq> []) decision_invariant (Inr ()))
     | RequestInformation \<Rightarrow>
         raise_if (plan \<noteq> None \<or> missing = [] \<or> conflicted \<noteq> []) decision_invariant (Inr ())
     | _ \<Rightarrow> raise_if (plan \<noteq> None) decision_invariant (Inr ()))))))"

text \<open>The checks of a proposed plan against the rest of the decision.\<close>

definition validate_plan_match ::
  "exec_plan \<Rightarrow> string list \<Rightarrow> context_reference list \<Rightarrow> approval_requirement list \<Rightarrow> unit res" where
  "validate_plan_match plan capabilities references approvals =
     raise_if (ps_capability_id ` set (pl_steps plan) \<noteq> set capabilities) decision_invariant
    (raise_if (\<not> cf_requirement ` {r \<in> set references. cf_required r} \<subseteq>
         (\<Union>s \<in> set (pl_steps plan). set (ps_required_context s))) decision_invariant
    (raise_if ((\<Union>s \<in> set (pl_steps plan). set (ps_required_approvals s)) \<noteq> set approvals)
       decision_invariant (Inr ())))"

definition decision_document ::
  "string \<Rightarrow> string \<Rightarrow> exec_decision_type \<Rightarrow> decision_reason list \<Rightarrow> string \<Rightarrow> exec_fingerprint \<Rightarrow>
   exec_fingerprint \<Rightarrow> exec_fingerprint \<Rightarrow> context_requirement list \<Rightarrow> context_requirement list \<Rightarrow>
   assumption list \<Rightarrow> string list \<Rightarrow> approval_requirement list \<Rightarrow> constraint list \<Rightarrow>
   exec_plan option \<Rightarrow> pyval res" where
  "decision_document request_id owner dtype reasons explanation request_fp capability_fp
     relevant_fp missing conflicted assumptions capabilities approvals cons plan =
     tryE (traverse constraint_document cons) (\<lambda>constraint_docs.
     tryE (case plan of
             None \<Rightarrow> Inr PNone
           | Some p \<Rightarrow> tryE (traverse step_document (pl_steps p)) (\<lambda>docs. Inr (PList docs))) (\<lambda>plan_doc.
     Inr (obj [
       (''assumptions'', PList (map assumption_document assumptions)),
       (''capability_contract_fingerprint'', PStr (fingerprint_str capability_fp)),
       (''conflicted_context'', PList (map context_document conflicted)),
       (''constraints'', PList constraint_docs),
       (''decision_type'', PStr (exec_decision_type_value dtype)),
       (''explanation'', PStr explanation),
       (''missing_context'', PList (map context_document missing)),
       (''owner_subject'', PStr owner),
       (''proposed_plan'', plan_doc),
       (''reason_codes'', str_list (map decision_reason_value reasons)),
       (''relevant_context_fingerprint'', PStr (fingerprint_str relevant_fp)),
       (''request_fingerprint'', PStr (fingerprint_str request_fp)),
       (''request_id'', PStr request_id),
       (''required_approvals'', PList (map approval_document approvals)),
       (''required_capabilities'', str_list capabilities),
       (''schema'', PStr ''ayyo.executive.decision.v1'')])))"

definition state_requirements ::
  "context_state \<Rightarrow> context_reference list \<Rightarrow> context_requirement list" where
  "state_requirements state references =
     map cf_requirement (filter (\<lambda>r. cf_required r \<and> cf_state r = state) references)"

definition mk_executive_decision ::
  "string \<Rightarrow> string \<Rightarrow> exec_decision_type \<Rightarrow> decision_reason list \<Rightarrow> string \<Rightarrow> snapshot_version \<Rightarrow>
   exec_fingerprint \<Rightarrow> exec_fingerprint \<Rightarrow> context_reference list \<Rightarrow> assumption list \<Rightarrow> string list \<Rightarrow>
   approval_requirement list \<Rightarrow> constraint list \<Rightarrow> exec_plan option \<Rightarrow> executive_decision res" where
  "mk_executive_decision request_id owner dtype reasons explanation version request_fp
     capability_fp references assumptions capabilities approvals cons plan =
     tryE (validate_text decision_invariant request_id) (\<lambda>_.
     tryE (validate_text decision_invariant owner) (\<lambda>_.
     raise_if (reasons = []) decision_invariant
    (raise_if (reasons \<noteq> sorted_set reasons) decision_invariant
    (tryE (validate_text decision_invariant explanation) (\<lambda>_.
     raise_if (fp_kind request_fp \<noteq> FpRequest) decision_invariant
    (raise_if (fp_kind capability_fp \<noteq> FpCapabilityContract) decision_invariant
    (raise_if (max_context_requirements < length references) decision_invariant
    (let references = sort_key reference_key references in
     raise_if (has_dup (map cf_requirement references)) decision_invariant
    (let missing = state_requirements CtxUnknown references;
         conflicted = state_requirements CtxConflicted references in
     tryE (decision_tuple as_assumption_id assumptions) (\<lambda>assumptions.
     tryE (decision_tuple ap_approval_id approvals) (\<lambda>approvals.
     tryE (decision_tuple co_constraint_id cons) (\<lambda>cons.
     raise_if (max_plan_steps < length capabilities) decision_invariant
    (tryE (for_each (\<lambda>c. tryE (identifier_key decision_invariant c) (\<lambda>_. Inr ())) capabilities) (\<lambda>_.
     let normalized = sorted_set capabilities in
     raise_if (length normalized \<noteq> length capabilities) decision_invariant
    (raise_if (normalized = []) decision_invariant
    (tryE (validate_shape dtype reasons missing conflicted approvals plan) (\<lambda>_.
     tryE (case plan of None \<Rightarrow> Inr ()
           | Some p \<Rightarrow> validate_plan_match p normalized references approvals) (\<lambda>_.
     tryE (relevant_context_fingerprint references) (\<lambda>relevant_fp.
     tryE (decision_document request_id owner dtype reasons explanation request_fp capability_fp
             relevant_fp missing conflicted assumptions normalized approvals cons plan) (\<lambda>document.
     tryE (fingerprint_document FpDecision document) (\<lambda>decision_fp.
     Inr \<lparr>ed_decision_id = ''decision-'' @ fp_digest decision_fp,
          ed_request_id = request_id, ed_owner_subject = owner, ed_decision_type = dtype,
          ed_reason_codes = reasons, ed_explanation = explanation,
          ed_context_snapshot_version = version, ed_request_fingerprint = request_fp,
          ed_capability_contract_fingerprint = capability_fp,
          ed_relevant_context_fingerprint = relevant_fp, ed_decision_fingerprint = decision_fp,
          ed_context_references = references, ed_missing_context = missing,
          ed_conflicted_context = conflicted, ed_assumptions = assumptions,
          ed_required_capabilities = normalized, ed_required_approvals = approvals,
          ed_constraints = cons, ed_proposed_plan = plan\<rparr>)))))))))))))))))))))"

interpretation decision_tuple: ordered_unique "decision_tuple key" key 128 decision_invariant
  for key :: "'a \<Rightarrow> 'k::linorder"
  by unfold_locales (simp add: decision_tuple_def max_request_items_def Let_def raise_if_def)

text \<open>Everything the constructor has checked and stored when it returns a decision.\<close>

lemma mk_executive_decision_Inr:
  assumes "mk_executive_decision rid owner t rs ex ver rfp cfp refs asms caps aps cons plan = Inr d"
  shows "text_ok rid \<and> text_ok owner \<and> rs \<noteq> [] \<and> sorted rs \<and> distinct rs \<and> text_ok ex \<and>
    fp_kind rfp = FpRequest \<and> fp_kind cfp = FpCapabilityContract \<and> length refs \<le> 128 \<and>
    ed_context_references d = sort_key reference_key refs \<and>
    distinct (map cf_requirement (ed_context_references d)) \<and>
    ed_missing_context d = state_requirements CtxUnknown (ed_context_references d) \<and>
    ed_conflicted_context d = state_requirements CtxConflicted (ed_context_references d) \<and>
    decision_tuple as_assumption_id asms = Inr (ed_assumptions d) \<and>
    decision_tuple ap_approval_id aps = Inr (ed_required_approvals d) \<and>
    decision_tuple co_constraint_id cons = Inr (ed_constraints d) \<and>
    length caps \<le> max_plan_steps \<and> list_all identifier_ok caps \<and> distinct caps \<and> caps \<noteq> [] \<and>
    ed_required_capabilities d = sorted_set caps \<and>
    validate_shape t rs (ed_missing_context d) (ed_conflicted_context d)
      (ed_required_approvals d) plan = Inr () \<and>
    (\<forall>p. plan = Some p \<longrightarrow> validate_plan_match p (ed_required_capabilities d)
      (ed_context_references d) (ed_required_approvals d) = Inr ()) \<and>
    relevant_context_fingerprint (ed_context_references d) =
      Inr (ed_relevant_context_fingerprint d) \<and>
    (\<exists>doc. decision_document rid owner t rs ex rfp cfp (ed_relevant_context_fingerprint d)
         (ed_missing_context d) (ed_conflicted_context d) (ed_assumptions d)
         (ed_required_capabilities d) (ed_required_approvals d) (ed_constraints d) plan = Inr doc \<and>
       validate_value exec_json_limits executive_validation doc = Inr () \<and>
       ed_decision_id d = ''decision-'' @ sha256_hex (canon doc) \<and>
       ed_decision_fingerprint d = sha_fingerprint FpDecision (canon doc)) \<and>
    ed_request_id d = rid \<and> ed_owner_subject d = owner \<and> ed_decision_type d = t \<and>
    ed_reason_codes d = rs \<and> ed_explanation d = ex \<and> ed_context_snapshot_version d = ver \<and>
    ed_request_fingerprint d = rfp \<and> ed_capability_contract_fingerprint d = cfp \<and>
    ed_proposed_plan d = plan"
proof -
  have fe: "for_each (\<lambda>c. tryE (identifier_key decision_invariant c) (\<lambda>_. Inr ())) caps = Inr u \<longleftrightarrow>
      list_all identifier_ok caps" for u
    by (auto simp: for_each_Inr list_all_iff res_simps)
  have plan: "(\<forall>p. plan = Some p \<longrightarrow> f p = Inr ())"
    if "(case plan of None \<Rightarrow> Inr () | Some p \<Rightarrow> f p) = Inr u" for f :: "exec_plan \<Rightarrow> unit res" and u
    using that by (cases plan) simp_all
  from assms show ?thesis
    unfolding mk_executive_decision_def Let_def tryE_Inr raise_if_Inr fe
      has_dup_iff length_sorted_set fingerprint_document_Inr max_context_requirements_def
      not_less not_not sorted_set_Nil_iff sorted_set_eq_sym sum.inject
    apply (elim exE conjE)
    apply (drule plan)
    apply (simp split: if_splits)
    apply hypsubst_thin
    apply simp
    done
qed

section \<open>Revalidation results\<close>

datatype revalidation_status = Current | Stale

datatype revalidation_reason =
  RequestChanged | OwnerChanged | CapabilityContractChanged | RelevantContextChanged

fun revalidation_reason_rank :: "revalidation_reason \<Rightarrow> nat" where
  "revalidation_reason_rank RequestChanged = 0"
| "revalidation_reason_rank OwnerChanged = 1"
| "revalidation_reason_rank CapabilityContractChanged = 2"
| "revalidation_reason_rank RelevantContextChanged = 3"

lemma revalidation_reason_rank_inject:
  "revalidation_reason_rank r = revalidation_reason_rank s \<longleftrightarrow> r = s"
  by (cases r; cases s; simp)

instantiation revalidation_reason :: linorder
begin

definition less_eq_revalidation_reason :: "revalidation_reason \<Rightarrow> revalidation_reason \<Rightarrow> bool" where
  "less_eq_revalidation_reason r s \<longleftrightarrow> revalidation_reason_rank r \<le> revalidation_reason_rank s"

definition less_revalidation_reason :: "revalidation_reason \<Rightarrow> revalidation_reason \<Rightarrow> bool" where
  "less_revalidation_reason r s \<longleftrightarrow> revalidation_reason_rank r < revalidation_reason_rank s"

instance
  by standard (auto simp: less_eq_revalidation_reason_def less_revalidation_reason_def
      simp flip: revalidation_reason_rank_inject)

end

record revalidation_result =
  rv_decision_id :: string
  rv_status :: revalidation_status
  rv_reasons :: "revalidation_reason list"
  rv_prior_snapshot_version :: snapshot_version
  rv_current_snapshot_version :: snapshot_version
  rv_prior_owner_subject :: string
  rv_current_owner_subject :: string
  rv_prior_request_fingerprint :: exec_fingerprint
  rv_current_request_fingerprint :: exec_fingerprint
  rv_prior_capability_fingerprint :: exec_fingerprint
  rv_current_capability_fingerprint :: exec_fingerprint
  rv_prior_context_fingerprint :: exec_fingerprint
  rv_current_context_fingerprint :: exec_fingerprint

text \<open>The reasons that the compared sources call for.\<close>

definition expected_reasons :: "revalidation_result \<Rightarrow> revalidation_reason set" where
  "expected_reasons r =
     (if rv_prior_request_fingerprint r \<noteq> rv_current_request_fingerprint r
      then {RequestChanged} else {}) \<union>
     (if rv_prior_owner_subject r \<noteq> rv_current_owner_subject r then {OwnerChanged} else {}) \<union>
     (if rv_prior_capability_fingerprint r \<noteq> rv_current_capability_fingerprint r
      then {CapabilityContractChanged} else {}) \<union>
     (if rv_prior_context_fingerprint r \<noteq> rv_current_context_fingerprint r
      then {RelevantContextChanged} else {})"

text \<open>\<open>__post_init__\<close>: the frozen record is checked after its fields are set.\<close>

definition check_revalidation_result :: "revalidation_result \<Rightarrow> revalidation_result res" where
  "check_revalidation_result r =
     tryE (validate_text decision_invariant (rv_decision_id r)) (\<lambda>_.
     raise_if (rv_reasons r \<noteq> sorted_set (rv_reasons r)) decision_invariant
    (raise_if ((rv_status r = Current) \<noteq> (rv_reasons r = [])) decision_invariant
    (tryE (validate_text decision_invariant (rv_prior_owner_subject r)) (\<lambda>_.
     tryE (validate_text decision_invariant (rv_current_owner_subject r)) (\<lambda>_.
     raise_if (\<not> list_all (\<lambda>(f, kind). fp_kind f = kind)
        [(rv_prior_request_fingerprint r, FpRequest), (rv_current_request_fingerprint r, FpRequest),
         (rv_prior_capability_fingerprint r, FpCapabilityContract),
         (rv_current_capability_fingerprint r, FpCapabilityContract),
         (rv_prior_context_fingerprint r, FpRelevantContext),
         (rv_current_context_fingerprint r, FpRelevantContext)]) decision_invariant
    (raise_if (set (rv_reasons r) \<noteq> expected_reasons r) decision_invariant (Inr r)))))))"

lemma sorted_set_inject: "sorted_set xs = sorted_set ys \<longleftrightarrow> set xs = set ys"
  by (metis sorted_set_cong sorted_set_props(1))

text \<open>The constructor accepts exactly the reasons that compare unequal, and their status.\<close>

lemma check_revalidation_result_Inr:
  "check_revalidation_result r = Inr r' \<longleftrightarrow>
     r' = r \<and> text_ok (rv_decision_id r) \<and>
     text_ok (rv_prior_owner_subject r) \<and> text_ok (rv_current_owner_subject r) \<and>
     fp_kind (rv_prior_request_fingerprint r) = FpRequest \<and>
     fp_kind (rv_current_request_fingerprint r) = FpRequest \<and>
     fp_kind (rv_prior_capability_fingerprint r) = FpCapabilityContract \<and>
     fp_kind (rv_current_capability_fingerprint r) = FpCapabilityContract \<and>
     fp_kind (rv_prior_context_fingerprint r) = FpRelevantContext \<and>
     fp_kind (rv_current_context_fingerprint r) = FpRelevantContext \<and>
     sorted (rv_reasons r) \<and> distinct (rv_reasons r) \<and> set (rv_reasons r) = expected_reasons r \<and>
     (rv_status r = Current \<longleftrightarrow> rv_reasons r = [])"
  by (auto simp: check_revalidation_result_def res_simps split: if_splits)

end
