(* ===== verification/Exec_Capabilities.thy ===== *)
theory Exec_Capabilities
  imports Exec_Request
begin

text \<open>
  Capability contracts (\<open>executive/capabilities.py\<close>): definitions, the immutable registry, the
  validation of invocation parameters and the fingerprint of the contracts a request relies on.
\<close>

section \<open>Definitions\<close>

definition max_capability_definitions :: nat where "max_capability_definitions = 256"
definition max_capability_items :: nat where "max_capability_items = 128"

abbreviation invalid_capability :: exn where
  "invalid_capability \<equiv> ExecutiveExn InvalidCapabilityDefinitionError"

abbreviation invalid_parameters :: exn where
  "invalid_parameters \<equiv> ExecutiveExn InvalidCapabilityParametersError"

datatype parameter_type =
  ParString | ParInteger | ParNumber | ParBoolean | ParObject | ParArray | ParJson

fun parameter_type_value :: "parameter_type \<Rightarrow> string" where
  "parameter_type_value ParString = ''string''"
| "parameter_type_value ParInteger = ''integer''"
| "parameter_type_value ParNumber = ''number''"
| "parameter_type_value ParBoolean = ''boolean''"
| "parameter_type_value ParObject = ''object''"
| "parameter_type_value ParArray = ''array''"
| "parameter_type_value ParJson = ''json''"

datatype capability_availability = AvailUnknown | AvailUnavailable | AvailForProposal

fun availability_value :: "capability_availability \<Rightarrow> string" where
  "availability_value AvailUnknown = ''unknown''"
| "availability_value AvailUnavailable = ''unavailable''"
| "availability_value AvailForProposal = ''available_for_proposal''"

record parameter_definition =
  pd_name :: string
  pd_value_type :: parameter_type
  pd_required :: bool

definition mk_parameter_definition ::
  "string \<Rightarrow> parameter_type \<Rightarrow> bool \<Rightarrow> parameter_definition res" where
  "mk_parameter_definition name vtype required =
     tryE (identifier_key invalid_capability name) (\<lambda>_.
     Inr \<lparr>pd_name = name, pd_value_type = vtype, pd_required = required\<rparr>)"

record capability_definition =
  cd_capability_id :: string
  cd_description :: string
  cd_availability :: capability_availability
  cd_parameters :: "parameter_definition list"
  cd_required_context :: "context_requirement list"
  cd_required_approvals :: "approval_requirement list"
  cd_assumptions :: "assumption list"
  cd_preconditions :: "precondition list"
  cd_constraints :: "constraint list"
  cd_expected_result :: expected_result
  cd_failure_policy :: failure_policy

definition capability_tuple :: "('a \<Rightarrow> 'k::linorder) \<Rightarrow> 'a list \<Rightarrow> 'a list res" where
  "capability_tuple key vals =
     raise_if (max_capability_items < length vals) invalid_capability
    (let ordered = sort_key key vals; keys = map key ordered in
     raise_if (has_dup keys) invalid_capability (Inr ordered))"

definition mk_capability_definition ::
  "string \<Rightarrow> string \<Rightarrow> capability_availability \<Rightarrow> parameter_definition list \<Rightarrow>
   context_requirement list \<Rightarrow> approval_requirement list \<Rightarrow> assumption list \<Rightarrow> precondition list \<Rightarrow>
   constraint list \<Rightarrow> expected_result \<Rightarrow> failure_policy \<Rightarrow> capability_definition res" where
  "mk_capability_definition capability_id description availability parameters required approvals
     assumptions preconditions cons expected policy =
     tryE (identifier_key invalid_capability capability_id) (\<lambda>_.
     tryE (validate_text invalid_capability description) (\<lambda>_.
     raise_if (availability = AvailUnknown) invalid_capability
    (tryE (capability_tuple pd_name parameters) (\<lambda>parameters.
     tryE (capability_tuple context_key required) (\<lambda>required.
     tryE (capability_tuple ap_approval_id approvals) (\<lambda>approvals.
     tryE (capability_tuple as_assumption_id assumptions) (\<lambda>assumptions.
     tryE (capability_tuple pc_precondition_id preconditions) (\<lambda>preconditions.
     tryE (capability_tuple co_constraint_id cons) (\<lambda>cons.
     Inr \<lparr>cd_capability_id = capability_id, cd_description = description,
          cd_availability = availability, cd_parameters = parameters,
          cd_required_context = required, cd_required_approvals = approvals,
          cd_assumptions = assumptions, cd_preconditions = preconditions, cd_constraints = cons,
          cd_expected_result = expected, cd_failure_policy = policy\<rparr>)))))))))"

definition parameter_document :: "parameter_definition \<Rightarrow> pyval" where
  "parameter_document p = obj [
     (''name'', PStr (pd_name p)),
     (''required'', PBool (pd_required p)),
     (''value_type'', PStr (parameter_type_value (pd_value_type p)))]"

definition definition_document :: "capability_definition \<Rightarrow> pyval res" where
  "definition_document d =
     tryE (traverse constraint_document (cd_constraints d)) (\<lambda>constraint_docs.
     Inr (obj [
       (''assumptions'', PList (map assumption_document (cd_assumptions d))),
       (''availability'', PStr (availability_value (cd_availability d))),
       (''capability_id'', PStr (cd_capability_id d)),
       (''constraints'', PList constraint_docs),
       (''description'', PStr (cd_description d)),
       (''expected_result'', PStr (expected_result_value (cd_expected_result d))),
       (''failure_policy'', PStr (failure_policy_value (cd_failure_policy d))),
       (''parameters'', PList (map parameter_document (cd_parameters d))),
       (''preconditions'', PList (map precondition_document (cd_preconditions d))),
       (''required_approvals'', PList (map approval_document (cd_required_approvals d))),
       (''required_context'', PList (map context_document (cd_required_context d)))]))"

section \<open>Parameter types\<close>

text \<open>\<open>type(value) is int\<close> is false of a \<open>bool\<close>, although \<open>bool\<close> is a subclass of \<open>int\<close>.\<close>

fun matches_parameter_type :: "pyval \<Rightarrow> parameter_type \<Rightarrow> bool" where
  "matches_parameter_type v ParString = (case v of PStr _ \<Rightarrow> True | _ \<Rightarrow> False)"
| "matches_parameter_type v ParInteger = (case v of PInt _ \<Rightarrow> True | _ \<Rightarrow> False)"
| "matches_parameter_type v ParNumber = (case v of PInt _ \<Rightarrow> True | PFloat _ \<Rightarrow> True | _ \<Rightarrow> False)"
| "matches_parameter_type v ParBoolean = (case v of PBool _ \<Rightarrow> True | _ \<Rightarrow> False)"
| "matches_parameter_type v ParObject = is_dict v"
| "matches_parameter_type v ParArray = (case v of PList _ \<Rightarrow> True | _ \<Rightarrow> False)"
| "matches_parameter_type v ParJson = True"

section \<open>The registry\<close>

record capability_registry =
  rg_definitions :: "capability_definition list"

definition mk_capability_registry :: "capability_definition list \<Rightarrow> capability_registry res" where
  "mk_capability_registry definitions =
     raise_if (max_capability_definitions < length definitions) invalid_capability
    (let ordered = sort_key cd_capability_id definitions;
         identifiers = map cd_capability_id ordered in
     raise_if (has_dup identifiers) invalid_capability
    (Inr \<lparr>rg_definitions = ordered\<rparr>))"

text \<open>\<open>self._by_id.get\<close>.\<close>

definition registry_by_id :: "capability_registry \<Rightarrow> string \<Rightarrow> capability_definition option" where
  "registry_by_id reg i = index_get cd_capability_id (rg_definitions reg) i"

definition registry_get :: "capability_registry \<Rightarrow> string \<Rightarrow> capability_definition option res" where
  "registry_get reg capability_id =
     tryE (identifier_key invalid_parameters capability_id) (\<lambda>_.
     Inr (registry_by_id reg capability_id))"

definition registry_availability :: "capability_registry \<Rightarrow> string \<Rightarrow> capability_availability res" where
  "registry_availability reg capability_id =
     tryE (registry_get reg capability_id) (\<lambda>d.
     Inr (case d of None \<Rightarrow> AvailUnknown | Some def \<Rightarrow> cd_availability def))"

text \<open>\<open>validate_parameters(definition, parameters)\<close>; \<open>parameters\<close> is a mapping.\<close>

definition validate_parameters :: "capability_definition \<Rightarrow> (pykey \<times> pyval) list \<Rightarrow> unit res" where
  "validate_parameters definition parameters =
     tryE (exec_copy invalid_parameters (PDict parameters)) (\<lambda>copied.
     let actual = map (\<lambda>kv. key_str (fst kv)) (dict_items copied);
         expected = map pd_name (cd_parameters definition) in
     raise_if (\<not> set actual \<subseteq> set expected) invalid_parameters
    (raise_if (list_ex (\<lambda>p. pd_required p \<and> pd_name p \<notin> set actual) (cd_parameters definition))
       invalid_parameters
    (for_each (\<lambda>name.
       tryE (dict_item (map_of (dict_items copied) (KStr name))) (\<lambda>val.
       tryE (dict_item (index_get pd_name (cd_parameters definition) name)) (\<lambda>p.
       raise_if (\<not> matches_parameter_type val (pd_value_type p)) invalid_parameters (Inr ()))))
       (sorted_set actual))))"

definition unknown_capability_document :: "string \<Rightarrow> pyval" where
  "unknown_capability_document capability_id =
     obj [(''capability_id'', PStr capability_id), (''availability'', PStr ''unknown'')]"

definition fingerprint_for :: "capability_registry \<Rightarrow> string list \<Rightarrow> exec_fingerprint res" where
  "fingerprint_for reg capability_ids =
     (let ordered_ids = sorted_set capability_ids in
      raise_if (length ordered_ids \<noteq> length capability_ids) invalid_capability
     (tryE (traverse (\<lambda>i. tryE (identifier_key invalid_capability i) (\<lambda>_.
              case registry_by_id reg i of
                None \<Rightarrow> Inr (unknown_capability_document i)
              | Some d \<Rightarrow> definition_document d)) ordered_ids) (\<lambda>entries.
      fingerprint_document FpCapabilityContract (obj [
        (''capabilities'', PList entries),
        (''schema'', PStr ''ayyo.executive.capability-contract.v1'')]))))"

section \<open>What the constructors guarantee\<close>

interpretation capability_tuple: ordered_unique "capability_tuple key" key 128 invalid_capability
  for key :: "'a \<Rightarrow> 'k::linorder"
  by unfold_locales (simp add: capability_tuple_def max_capability_items_def Let_def raise_if_def)

definition capability_ok :: "capability_definition \<Rightarrow> bool" where
  "capability_ok d \<longleftrightarrow>
     identifier_ok (cd_capability_id d) \<and> text_ok (cd_description d) \<and>
     cd_availability d \<noteq> AvailUnknown \<and>
     keyed_ok pd_name (\<lambda>p. identifier_ok (pd_name p)) (cd_parameters d) \<and>
     keyed_ok context_key requirement_ok (cd_required_context d) \<and>
     keyed_ok ap_approval_id approval_ok (cd_required_approvals d) \<and>
     keyed_ok as_assumption_id assumption_ok (cd_assumptions d) \<and>
     keyed_ok pc_precondition_id precondition_ok (cd_preconditions d) \<and>
     keyed_ok co_constraint_id constraint_ok (cd_constraints d)"

definition registry_ok :: "capability_registry \<Rightarrow> bool" where
  "registry_ok reg \<longleftrightarrow>
     distinct (map cd_capability_id (rg_definitions reg)) \<and>
     sorted (map cd_capability_id (rg_definitions reg)) \<and>
     list_all capability_ok (rg_definitions reg)"

lemma mk_capability_definition_ok:
  assumes "mk_capability_definition cid d av ps ctx aps asms pcs cons er fp = Inr def"
    and "list_all (\<lambda>p. identifier_ok (pd_name p)) ps" "list_all requirement_ok ctx"
    "list_all approval_ok aps" "list_all assumption_ok asms" "list_all precondition_ok pcs"
    "list_all constraint_ok cons"
  shows "capability_ok def"
  using assms
  by (auto simp: mk_capability_definition_def res_simps capability_ok_def keyed_ok_sort_key
      capability_tuple.build_Inr_iff split: if_splits)

lemma mk_capability_registry_ok:
  "mk_capability_registry ds = Inr reg \<Longrightarrow> list_all capability_ok ds \<Longrightarrow> registry_ok reg"
  by (auto simp: mk_capability_registry_def res_simps Let_def registry_ok_def list_all_iff)

lemma registry_by_id_Some:
  "registry_ok reg \<Longrightarrow> registry_by_id reg i = Some d \<longleftrightarrow>
     d \<in> set (rg_definitions reg) \<and> cd_capability_id d = i"
  by (simp add: registry_by_id_def registry_ok_def index_get_Some)

lemma registry_by_id_ok: "registry_ok reg \<Longrightarrow> registry_by_id reg i = Some d \<Longrightarrow> capability_ok d"
  by (auto simp: registry_by_id_Some registry_ok_def list_all_iff)

lemma registry_get_Inr:
  "registry_get reg i = (if identifier_ok i then Inr (registry_by_id reg i) else Inl invalid_parameters)"
  by (simp add: registry_get_def)

lemma capability_by_name:
  "capability_ok d \<Longrightarrow> index_get pd_name (cd_parameters d) n = Some p \<longleftrightarrow>
     p \<in> set (cd_parameters d) \<and> pd_name p = n"
  by (simp add: capability_ok_def keyed_ok_def index_get_Some)

lemma accepted_keys:
  "validate_value L e (PDict kvs) = Inr u \<Longrightarrow> KOther \<notin> fst ` set kvs"
  by (auto simp: validate_value_def check_value.simps [of L e 0 "PDict kvs"] res_simps)

text \<open>
  The parameters of an invocation are accepted exactly when they are bounded JSON, every required
  parameter is there, and every given one is declared with the type it has.
\<close>

lemma validate_parameters_Inr:
  assumes d: "capability_ok d" and k: "distinct (map fst kvs)"
  shows "validate_parameters d kvs = Inr () \<longleftrightarrow>
    validate_value exec_json_limits invalid_parameters (PDict kvs) = Inr () \<and>
    (\<forall>p \<in> set (cd_parameters d). pd_required p \<longrightarrow> KStr (pd_name p) \<in> fst ` set kvs) \<and>
    (\<forall>(k, v) \<in> set kvs. \<exists>p \<in> set (cd_parameters d).
        k = KStr (pd_name p) \<and> matches_parameter_type v (pd_value_type p))"
proof (cases "validate_value exec_json_limits invalid_parameters (PDict kvs)")
  case (Inl e)
  then show ?thesis by (simp add: validate_parameters_def exec_copy_def)
next
  case (Inr u)
  have ks: "k = KStr (key_str k)" if "k \<in> fst ` set kvs" for k
    using that accepted_keys [OF Inr] by (cases k) auto
  let ?names = "(\<lambda>kv. key_str (fst kv)) ` set kvs"
  have mem: "n \<in> ?names \<longleftrightarrow> KStr n \<in> fst ` set kvs" for n
    using ks by force
  have get: "map_of kvs (KStr n) = Some v \<longleftrightarrow> (KStr n, v) \<in> set kvs" for n v
    using k by simp
  have pd: "p = q" if "p \<in> set (cd_parameters d)" "q \<in> set (cd_parameters d)" "pd_name p = pd_name q" for p q
    using that d by (metis capability_by_name option.inject)
  let ?body = "\<lambda>name.
       tryE (dict_item (map_of kvs (KStr name))) (\<lambda>val.
       tryE (dict_item (index_get pd_name (cd_parameters d) name)) (\<lambda>p.
       raise_if (\<not> matches_parameter_type val (pd_value_type p)) invalid_parameters (Inr ())))"
  have body: "?body n = Inr () \<longleftrightarrow> (\<exists>v p. (KStr n, v) \<in> set kvs \<and> p \<in> set (cd_parameters d) \<and>
      pd_name p = n \<and> matches_parameter_type v (pd_value_type p))" for n
    unfolding tryE_Inr dict_item_Inr raise_if_Inr get capability_by_name [OF d] by auto
  have loop: "for_each ?body (sorted_set (map (\<lambda>kv. key_str (fst kv)) kvs)) = Inr () \<longleftrightarrow>
    (\<forall>n \<in> ?names. \<exists>v p. (KStr n, v) \<in> set kvs \<and> p \<in> set (cd_parameters d) \<and> pd_name p = n \<and>
       matches_parameter_type v (pd_value_type p))"
    unfolding for_each_Inr body by simp
  have "(\<forall>n \<in> ?names. \<exists>v p. (KStr n, v) \<in> set kvs \<and> p \<in> set (cd_parameters d) \<and> pd_name p = n \<and>
       matches_parameter_type v (pd_value_type p)) \<longleftrightarrow>
    (\<forall>(k, v) \<in> set kvs. \<exists>p \<in> set (cd_parameters d).
        k = KStr (pd_name p) \<and> matches_parameter_type v (pd_value_type p))" (is "?A \<longleftrightarrow> ?B")
  proof
    assume a: ?A
    show ?B
    proof clarify
      fix k v assume kv: "(k, v) \<in> set kvs"
      then have "k = KStr (key_str k)" using ks by force
      moreover obtain w p where "(KStr (key_str k), w) \<in> set kvs" "p \<in> set (cd_parameters d)"
        "pd_name p = key_str k" "matches_parameter_type w (pd_value_type p)"
        using a kv by force
      moreover have "w = v" using kv calculation k by (metis map_of_is_SomeI option.inject)
      ultimately show "\<exists>p \<in> set (cd_parameters d).
        k = KStr (pd_name p) \<and> matches_parameter_type v (pd_value_type p)" by metis
    qed
  next
    assume b: ?B
    show ?A
    proof
      fix n assume "n \<in> ?names"
      then obtain v where kv: "(KStr n, v) \<in> set kvs" using mem by force
      with b show "\<exists>v p. (KStr n, v) \<in> set kvs \<and> p \<in> set (cd_parameters d) \<and> pd_name p = n \<and>
       matches_parameter_type v (pd_value_type p)" by fastforce
    qed
  qed
  moreover have "?names \<subseteq> pd_name ` set (cd_parameters d)"
    if "\<forall>n \<in> ?names. \<exists>v p. (KStr n, v) \<in> set kvs \<and> p \<in> set (cd_parameters d) \<and> pd_name p = n \<and>
       matches_parameter_type v (pd_value_type p)"
    using that by (metis (no_types, lifting) imageI subsetI)
  moreover have "list_ex (\<lambda>p. pd_required p \<and> pd_name p \<notin> ?names) (cd_parameters d) \<longleftrightarrow>
      \<not> (\<forall>p \<in> set (cd_parameters d). pd_required p \<longrightarrow> KStr (pd_name p) \<in> fst ` set kvs)"
    unfolding list_ex_iff mem by blast
  ultimately show ?thesis
    using Inr loop
    by (auto simp: validate_parameters_def exec_copy_def Let_def raise_if_def)
qed

end
