(* ===== verification/Exec_Planner.thy ===== *)
theory Exec_Planner
  imports Exec_Capabilities
begin

text \<open>
  The declarative planner (\<open>executive/planner.py\<close>): merging the requirements of a request with
  those of the capabilities it uses, and building one plan step per invocation.
\<close>

section \<open>Merging\<close>

text \<open>The dict \<open>merged\<close> as the list of its items.\<close>

fun merge_loop ::
  "('a \<Rightarrow> 'a \<Rightarrow> bool) \<Rightarrow> ('a \<Rightarrow> 'k) \<Rightarrow> 'a list \<Rightarrow> ('k \<times> 'a) list \<Rightarrow> ('k \<times> 'a) list res" where
  "merge_loop eq key [] merged = Inr merged"
| "merge_loop eq key (item # items) merged =
     raise_if (case map_of merged (key item) of None \<Rightarrow> False | Some existing \<Rightarrow> \<not> eq existing item)
       plan_invariant
    (merge_loop eq key items (dict_set (key item) item merged))"

definition merge_unique ::
  "('a \<Rightarrow> 'a \<Rightarrow> bool) \<Rightarrow> ('a \<Rightarrow> 'k::linorder) \<Rightarrow> nat \<Rightarrow> 'a list list \<Rightarrow> 'a list res" where
  "merge_unique eq key max_items collections =
     tryE (merge_loop eq key (concat collections) []) (\<lambda>merged.
     raise_if (max_items < length merged) plan_invariant
    (Inr (map (\<lambda>k. the (map_of merged k)) (sort (map fst merged)))))"

text \<open>The contract of a merge: items with one key have to be equal, and one of them is kept.\<close>

locale keyed_merge =
  fixes eq :: "'a \<Rightarrow> 'a \<Rightarrow> bool" and key :: "'a \<Rightarrow> 'k::linorder"
  assumes eq_refl: "eq x x"
    and eq_sym: "eq x y \<Longrightarrow> eq y x"
    and eq_trans: "eq x y \<Longrightarrow> eq y z \<Longrightarrow> eq x z"
begin

definition consistent :: "'a list \<Rightarrow> bool" where
  "consistent xs \<longleftrightarrow> (\<forall>x \<in> set xs. \<forall>y \<in> set xs. key x = key y \<longrightarrow> eq x y)"

definition indexed :: "'a list \<Rightarrow> ('k \<times> 'a) list \<Rightarrow> bool" where
  "indexed xs m \<longleftrightarrow>
     distinct (map fst m) \<and> fst ` set m = key ` set xs \<and>
     (\<forall>k x. map_of m k = Some x \<longrightarrow> x \<in> set xs \<and> key x = k)"

lemma merge_loop_error: "merge_loop eq key items m = Inl e \<Longrightarrow> e = plan_invariant"
  by (induction items arbitrary: m) (auto simp: res_simps split: if_splits)

lemma merge_loop_indexed:
  "indexed seen m \<Longrightarrow> consistent seen \<Longrightarrow>
   (\<exists>m'. merge_loop eq key items m = Inr m') \<longleftrightarrow> consistent (seen @ items)"
  "indexed seen m \<Longrightarrow> merge_loop eq key items m = Inr m' \<Longrightarrow> indexed (seen @ items) m'"
proof (induction items arbitrary: seen m)
  case (Cons x items)
  have upd: "indexed (seen @ [x]) (dict_set (key x) x m)" if "indexed seen m" for seen m
    using that keys_dict_set [of "key x" x m] distinct_dict_set [of m "key x" x]
    by (auto simp: indexed_def)
  have ok: "\<not> (case map_of m (key x) of None \<Rightarrow> False | Some existing \<Rightarrow> \<not> eq existing x) \<longleftrightarrow>
      consistent (seen @ [x])" if i: "indexed seen m" and c: "consistent seen" for seen m
  proof (cases "map_of m (key x)")
    case None
    then have "key x \<notin> key ` set seen"
      using i by (auto simp: indexed_def map_of_eq_None_iff)
    then have "\<forall>y \<in> set seen. key y \<noteq> key x \<and> key x \<noteq> key y"
      by (metis image_eqI)
    with None c show ?thesis
      by (auto simp: consistent_def eq_refl)
  next
    case (Some y)
    then have y: "y \<in> set seen" "key y = key x" using i by (auto simp: indexed_def)
    then have "consistent (seen @ [x]) \<longleftrightarrow> eq y x"
      using c by (auto simp: consistent_def eq_refl intro: eq_sym eq_trans) (metis eq_sym eq_trans)+
    with Some show ?thesis by simp
  qed
  {
    case 1
    have "consistent (seen @ x # items) \<Longrightarrow> consistent (seen @ [x])"
      by (auto simp: consistent_def)
    then show ?case
      using ok [OF 1] Cons.IH(1) [OF upd [OF 1(1)]] by (auto simp: raise_if_def)
  next
    case 2
    then show ?case
      using Cons.IH(2) [OF upd [OF 2(1)]] by (auto simp: raise_if_def split: if_splits)
  }
qed (auto simp: consistent_def)

lemma indexed_Nil: "indexed [] []" "consistent []"
  by (simp_all add: indexed_def consistent_def)

lemma indexed_output:
  assumes "indexed xs m"
  defines "ys \<equiv> map (\<lambda>k. the (map_of m k)) (sort (map fst m))"
  shows "map key ys = sort (map fst m)" "set ys \<subseteq> set xs" "length m = card (key ` set xs)"
    "key ` set ys = key ` set xs"
proof -
  have val: "the (map_of m k) \<in> set xs \<and> key (the (map_of m k)) = k" if "k \<in> fst ` set m" for k
    using assms(1) that by (cases "map_of m k") (auto simp: indexed_def map_of_eq_None_iff)
  then show "map key ys = sort (map fst m)" "set ys \<subseteq> set xs"
    by (auto simp: ys_def o_def intro!: map_idI)
  then have "key ` set ys = set (sort (map fst m))" by (metis list.set_map)
  then show "key ` set ys = key ` set xs"
    using assms(1) by (simp add: indexed_def)
  show "length m = card (key ` set xs)"
    using assms(1) by (metis distinct_card indexed_def length_map list.set_map)
qed

lemma merge_unique_error: "merge_unique eq key n cs = Inl e \<Longrightarrow> e = plan_invariant"
  by (auto simp: merge_unique_def res_simps split: if_splits dest: merge_loop_error)

text \<open>When a merge succeeds: no two items of one key that differ, and not too many keys.\<close>

lemma merge_unique_accepts:
  "(\<exists>ys. merge_unique eq key n cs = Inr ys) \<longleftrightarrow>
     consistent (concat cs) \<and> card (key ` set (concat cs)) \<le> n"
proof -
  have "indexed (concat cs) m" if "merge_loop eq key (concat cs) [] = Inr m" for m
    using merge_loop_indexed(2) [OF indexed_Nil(1) that] by simp
  then have "length m = card (key ` set (concat cs))" if "merge_loop eq key (concat cs) [] = Inr m" for m
    using that indexed_output(3) by blast
  moreover have "(\<exists>m. merge_loop eq key (concat cs) [] = Inr m) \<longleftrightarrow> consistent (concat cs)"
    using merge_loop_indexed(1) [OF indexed_Nil] by simp
  ultimately show ?thesis
    by (fastforce simp: merge_unique_def res_simps)
qed

text \<open>What it returns: every key once, in order, with one of the items that have it.\<close>

lemma merge_unique_result:
  assumes "merge_unique eq key n cs = Inr ys"
  shows "sorted (map key ys)" "distinct (map key ys)" "set ys \<subseteq> set (concat cs)"
    "key ` set ys = key ` set (concat cs)" "length ys \<le> n"
proof -
  from assms obtain m where m: "merge_loop eq key (concat cs) [] = Inr m" "length m \<le> n"
    and ys: "ys = map (\<lambda>k. the (map_of m k)) (sort (map fst m))"
    by (auto simp: merge_unique_def res_simps)
  have i: "indexed (concat cs) m"
    using merge_loop_indexed(2) [OF indexed_Nil(1) m(1)] by simp
  note out = indexed_output [OF i, folded ys]
  show "sorted (map key ys)" "distinct (map key ys)"
    using i by (simp_all only: out(1) indexed_def sorted_sort distinct_sort)
  show sub: "set ys \<subseteq> set (concat cs)" and keys: "key ` set ys = key ` set (concat cs)"
    by (fact out(2), fact out(4))
  show "length ys \<le> n" using m(2) by (simp add: ys)
qed

lemma merge_unique_covers:
  assumes "merge_unique eq key n cs = Inr ys" "x \<in> set (concat cs)"
  shows "\<exists>y \<in> set ys. key y = key x \<and> eq x y"
proof -
  note out = merge_unique_result [OF assms(1)]
  obtain y where "y \<in> set ys" "key y = key x"
    using out(4) assms(2) by (metis image_iff)
  moreover have "consistent (concat cs)"
    using merge_unique_accepts assms(1) by blast
  ultimately have "eq x y"
    using assms(2) out(3) unfolding consistent_def by (metis subsetD)
  with \<open>y \<in> set ys\<close> \<open>key y = key x\<close> show ?thesis by blast
qed

end

interpretation plain_merge: keyed_merge "(=)" key for key :: "'a \<Rightarrow> 'k::linorder"
  by unfold_locales auto

interpretation constraint_merge: keyed_merge constraint_eq co_constraint_id
  by unfold_locales (auto simp: constraint_eq_def)

text \<open>With plain equality nothing is lost.\<close>

lemma plain_merge_set: "merge_unique (=) key n cs = Inr ys \<Longrightarrow> set ys = set (concat cs)"
  using plain_merge.merge_unique_result(3) plain_merge.merge_unique_covers by fastforce

lemma merge_unique_keyed_ok:
  assumes "merge_unique (=) key 128 cs = Inr ys" "list_all ok (concat cs)"
  shows "keyed_ok key ok ys"
  using plain_merge.merge_unique_result [OF assms(1)] assms(2)
  by (auto simp: keyed_ok_def list_all_iff)

lemma merge_constraints_keyed_ok:
  assumes "merge_unique constraint_eq co_constraint_id 128 cs = Inr ys" "list_all ok (concat cs)"
  shows "keyed_ok co_constraint_id ok ys"
  using constraint_merge.merge_unique_result [OF assms(1)] assms(2)
  by (auto simp: keyed_ok_def list_all_iff)

section \<open>The merges of a request with its capabilities\<close>

definition merge_context_requirements ::
  "executive_request \<Rightarrow> capability_definition list \<Rightarrow> context_requirement list res" where
  "merge_context_requirements request definitions =
     merge_unique (=) context_key max_context_requirements
       (rq_required_context request # map cd_required_context definitions)"

definition merge_approvals ::
  "executive_request \<Rightarrow> capability_definition list \<Rightarrow> approval_requirement list res" where
  "merge_approvals request definitions =
     merge_unique (=) ap_approval_id max_request_items
       (rq_required_approvals request # map cd_required_approvals definitions)"

definition merge_constraints ::
  "executive_request \<Rightarrow> capability_definition list \<Rightarrow> constraint list res" where
  "merge_constraints request definitions =
     merge_unique constraint_eq co_constraint_id max_request_items
       (rq_constraints request # map cd_constraints definitions)"

definition merge_assumptions ::
  "executive_request \<Rightarrow> capability_definition list \<Rightarrow> assumption list res" where
  "merge_assumptions request definitions =
     merge_unique (=) as_assumption_id max_request_items
       (rq_assumptions request # map cd_assumptions definitions)"

section \<open>Building the plan\<close>

text \<open>The step of one invocation; \<open>definitions\<close> is the dict of definitions by identifier.\<close>

definition build_step ::
  "executive_request \<Rightarrow> (string \<times> capability_definition) list \<Rightarrow> invocation \<Rightarrow> plan_step res" where
  "build_step request definitions invocation =
     tryE (dict_item (map_of definitions (inv_capability_id invocation))) (\<lambda>definition.
     tryE (merge_unique (=) context_key max_request_items
             [rq_required_context request, cd_required_context definition]) (\<lambda>required.
     tryE (merge_unique (=) ap_approval_id max_request_items
             [rq_required_approvals request, cd_required_approvals definition]) (\<lambda>approvals.
     tryE (merge_unique constraint_eq co_constraint_id max_request_items
             [rq_constraints request, cd_constraints definition]) (\<lambda>cons.
     tryE (exec_dict_property (inv_parameters invocation)) (\<lambda>params.
     mk_plan_step (inv_step_id invocation) (inv_capability_id invocation) params
       (inv_dependencies invocation) (cd_preconditions definition) required approvals cons
       (cd_expected_result definition) (cd_failure_policy definition))))))"

definition build_plan ::
  "executive_request \<Rightarrow> (string \<times> capability_definition) list \<Rightarrow> exec_plan res" where
  "build_plan request definitions =
     raise_if (set (map fst definitions) \<noteq> set (requested_capabilities request)) plan_invariant
    (tryE (traverse (build_step request definitions) (rq_invocations request)) mk_plan)"

definition definitions_by_id ::
  "capability_definition list \<Rightarrow> (string \<times> capability_definition) list" where
  "definitions_by_id definitions = map (\<lambda>d. (cd_capability_id d, d)) definitions"

text \<open>What a step takes from its invocation and from its capability.\<close>

lemma build_step_Inr:
  assumes "build_step r defs i = Inr s" "request_ok r" "invocation_ok i"
    and "\<And>d. d \<in> snd ` set defs \<Longrightarrow> capability_ok d"
  shows "step_ok s \<and> ps_step_id s = inv_step_id i \<and> ps_capability_id s = inv_capability_id i \<and>
    ps_dependencies s = inv_dependencies i \<and> ps_parameters s = inv_parameters i \<and>
    (\<exists>d. map_of defs (inv_capability_id i) = Some d \<and>
       ps_preconditions s = cd_preconditions d \<and>
       set (ps_required_context s) = set (rq_required_context r) \<union> set (cd_required_context d) \<and>
       set (ps_required_approvals s) =
         set (rq_required_approvals r) \<union> set (cd_required_approvals d) \<and>
       ps_expected_result s = cd_expected_result d \<and> ps_failure_policy s = cd_failure_policy d)"
proof -
  from assms(1) obtain d ctx aps cons ps where
    d: "map_of defs (inv_capability_id i) = Some d"
    and ctx: "merge_unique (=) context_key 128 [rq_required_context r, cd_required_context d] = Inr ctx"
    and aps: "merge_unique (=) ap_approval_id 128
      [rq_required_approvals r, cd_required_approvals d] = Inr aps"
    and cons: "merge_unique constraint_eq co_constraint_id 128
      [rq_constraints r, cd_constraints d] = Inr cons"
    and ps: "exec_dict_property (inv_parameters i) = Inr ps"
    and mk: "mk_plan_step (inv_step_id i) (inv_capability_id i) ps (inv_dependencies i)
      (cd_preconditions d) ctx aps cons (cd_expected_result d) (cd_failure_policy d) = Inr s"
    by (auto simp: build_step_def res_simps max_request_items_def)
  have pv: "ps = inv_parameters i"
    using ps assms(3) exec_dict_property_ok by (auto simp: invocation_ok_def)
  have dok: "capability_ok d" using d assms(4) by (force dest: map_of_SomeD)
  have k: "keyed_ok context_key requirement_ok ctx" "keyed_ok ap_approval_id approval_ok aps"
    "keyed_ok co_constraint_id constraint_ok cons"
    using merge_unique_keyed_ok [OF ctx, of requirement_ok]
      merge_unique_keyed_ok [OF aps, of approval_ok]
      merge_constraints_keyed_ok [OF cons, of constraint_ok] assms(2) dok
    by (simp_all add: request_ok_def capability_ok_def keyed_ok_def)
  have pcs: "keyed_ok pc_precondition_id precondition_ok (cd_preconditions d)"
    using dok by (simp add: capability_ok_def)
  have "step_ok s"
    using mk_plan_step_ok [OF mk] k pcs by (simp add: keyed_ok_def)
  moreover have fields: "ps_step_id s = inv_step_id i" "ps_capability_id s = inv_capability_id i"
    "ps_dependencies s = sorted_set (inv_dependencies i)" "ps_parameters s = ps"
    "ps_preconditions s = cd_preconditions d" "ps_required_context s = ctx"
    "ps_required_approvals s = aps"
    "ps_expected_result s = cd_expected_result d" "ps_failure_policy s = cd_failure_policy d"
    using mk k pcs
    by (auto simp: mk_plan_step_def res_simps Let_def exec_copy_def plan_tuple.build_Inr_iff
        keyed_ok_def sort_key_sorted_id split: if_splits)
  moreover have "sorted_set (inv_dependencies i) = inv_dependencies i"
    using assms(3) by (simp add: invocation_ok_def sorted_set_id_iff)
  ultimately show ?thesis
    using pv d plain_merge_set [OF ctx] plain_merge_set [OF aps] by simp
qed

lemma list_all2_ex: "list_all2 P xs ys \<Longrightarrow> x \<in> set xs \<Longrightarrow> \<exists>y \<in> set ys. P x y"
  by (induction rule: list_all2_induct) auto

lemma list_all2_ex2: "list_all2 P xs ys \<Longrightarrow> y \<in> set ys \<Longrightarrow> \<exists>x \<in> set xs. P x y"
  by (induction rule: list_all2_induct) auto

lemma build_plan_Inr:
  assumes "build_plan req defs = Inr p" "request_ok req"
    and "\<And>d. d \<in> snd ` set defs \<Longrightarrow> capability_ok d"
  obtains steps where "list_all2 (\<lambda>i st. build_step req defs i = Inr st) (rq_invocations req) steps"
    "mk_plan steps = Inr p" "list_all step_ok steps" "plan_ok p" "set (pl_steps p) = set steps"
    "length (pl_steps p) = length (rq_invocations req)"
proof -
  from assms(1) obtain steps where
    t: "list_all2 (\<lambda>i st. build_step req defs i = Inr st) (rq_invocations req) steps"
    and mk: "mk_plan steps = Inr p"
    by (auto simp: build_plan_def res_simps traverse_Inr)
  have ok: "list_all invocation_ok (rq_invocations req)" using assms(2) by (simp add: request_ok_def)
  have "step_ok (steps ! j)" if j: "j < length steps" for j
  proof -
    have "build_step req defs (rq_invocations req ! j) = Inr (steps ! j)"
      "j < length (rq_invocations req)"
      using t j by (auto simp: list_all2_conv_all_nth)
    moreover have "invocation_ok (rq_invocations req ! j)"
      using ok calculation(2) by (simp add: list_all_length)
    ultimately show ?thesis using build_step_Inr assms(2,3) by blast
  qed
  then have steps: "list_all step_ok steps" by (simp add: list_all_length)
  note m = mk_plan_steps [OF mk steps]
  have "set (pl_steps p) = set steps" "length (pl_steps p) = length (rq_invocations req)"
    using mset_eq_setD [OF m(1)] mset_eq_length [OF m(1)] list_all2_lengthD [OF t] by simp_all
  with that t mk steps mk_plan_ok [OF mk steps] show ?thesis by blast
qed

end
