(* ===== verification/Exec_Service.thy ===== *)
theory Exec_Service
  imports Exec_Decision Exec_Planner
begin

text \<open>
  The Executive service (\<open>executive/service.py\<close>): context references from a snapshot, the decision
  procedure and the revalidation of a decision.  Both call \<open>PersonalContextService.build_snapshot()\<close>
  once: \<open>built\<close> is the outcome of that call, the snapshot or the error it raised.  The Personal
  Context service models the call itself (\<open>Context_Service.build_snapshot\<close>), and the properties that
  span both components put it in the place of \<open>built\<close>.
\<close>

section \<open>Context references from a snapshot\<close>

definition context_reference_for ::
  "context_snapshot \<Rightarrow> bool \<Rightarrow> context_requirement \<Rightarrow> context_reference res" where
  "context_reference_for snapshot required requirement =
     tryE (get_context snapshot (cr_domain requirement) (cr_predicate requirement)) (\<lambda>result.
     if cq_state result = CtxUnknown
     then mk_context_reference requirement required CtxUnknown [] [] []
     else (case cq_entry result of
       None \<Rightarrow> Inl decision_invariant
     | Some entry \<Rightarrow>
         mk_context_reference requirement required (cq_state result)
           (sort (map (\<lambda>v. sha256_hex (cv_canonical_value v)) (ce_values entry)))
           (sort_key uuid_str (entry_evidence_ids (ce_values entry)))
           (ce_conflict_ids entry)))"

definition references_for ::
  "context_snapshot \<Rightarrow> context_requirement list \<Rightarrow> context_requirement list \<Rightarrow>
   context_reference list res" where
  "references_for snapshot required optional =
     (let optional = filter (\<lambda>item. item \<notin> set required) optional in
      tryE (traverse (context_reference_for snapshot True) required) (\<lambda>req_refs.
      tryE (traverse (context_reference_for snapshot False) optional) (\<lambda>opt_refs.
      Inr (sort_key reference_key (req_refs @ opt_refs)))))"

section \<open>The decision procedure\<close>

record executive_service =
  es_owner_subject :: string
  es_registry :: capability_registry

text \<open>
  The loop over the requested capabilities: the definitions found, the identifiers not in the
  registry and those marked unavailable.
\<close>

fun lookup_capabilities ::
  "capability_registry \<Rightarrow> string list \<Rightarrow> capability_definition list \<Rightarrow> string list \<Rightarrow> string list \<Rightarrow>
   (capability_definition list \<times> string list \<times> string list) res" where
  "lookup_capabilities reg [] definitions unknown unavailable =
     Inr (definitions, unknown, unavailable)"
| "lookup_capabilities reg (i # ids) definitions unknown unavailable =
     tryE (registry_get reg i) (\<lambda>found.
     case found of
       None \<Rightarrow> lookup_capabilities reg ids definitions (unknown @ [i]) unavailable
     | Some d \<Rightarrow> lookup_capabilities reg ids (definitions @ [d]) unknown
         (if cd_availability d = AvailUnavailable then unavailable @ [i] else unavailable))"

definition validate_invocations ::
  "capability_definition list \<Rightarrow> invocation list \<Rightarrow> unit res" where
  "validate_invocations definitions invs =
     for_each (\<lambda>i. case map_of (definitions_by_id definitions) (inv_capability_id i) of
         None \<Rightarrow> Inr ()
       | Some d \<Rightarrow> tryE (exec_dict_property (inv_parameters i)) (\<lambda>params.
           validate_parameters d (dict_items params))) invs"

definition unknown_explanation :: string where
  "unknown_explanation =
     ''The request names a capability absent from the explicit registry; '' @
     ''no plan was fabricated.''"

definition unavailable_explanation :: string where
  "unavailable_explanation =
     ''At least one required capability is explicitly unavailable for '' @
     ''proposal, so planning was deferred.''"

definition conflicted_explanation :: string where
  "conflicted_explanation =
     ''Required owner context is conflicted; the Executive did not choose '' @
     ''a winning value.''"

definition deferral_explanation :: string where
  "deferral_explanation =
     ''Required owner context is unknown and request policy requires '' @ ''deferral.''"

definition information_explanation :: string where
  "information_explanation =
     ''Required owner context is unknown; additional information is '' @
     ''required before a proposal can be formed.''"

definition approval_explanation :: string where
  "approval_explanation =
     ''A declarative plan is available, but its recorded approval '' @
     ''requirements remain ungranted.''"

definition proposal_explanation :: string where
  "proposal_explanation =
     ''A deterministic declarative plan is proposed for evaluation by '' @
     ''later safety and authorization layers.''"

text \<open>The branches of \<open>evaluate\<close>: decision type, reasons, explanation, plan.\<close>

definition decide ::
  "executive_request \<Rightarrow> capability_definition list \<Rightarrow> string list \<Rightarrow> string list \<Rightarrow>
   context_requirement list \<Rightarrow> context_requirement list \<Rightarrow> approval_requirement list \<Rightarrow>
   (exec_decision_type \<times> decision_reason list \<times> string \<times> exec_plan option) res" where
  "decide request definitions unknown unavailable missing conflicted approvals =
     (if unknown \<noteq> [] then
        Inr (Reject,
             [UnknownCapability] @
             (if unavailable \<noteq> [] then [CapabilityUnavailable] else []) @
             (if missing \<noteq> [] then [MissingRequiredContext] else []) @
             (if conflicted \<noteq> [] then [ConflictedRequiredContext] else []),
             unknown_explanation, None)
      else if unavailable \<noteq> [] then
        Inr (Defer,
             [CapabilityUnavailable] @
             (if missing \<noteq> [] then [MissingRequiredContext] else []) @
             (if conflicted \<noteq> [] then [ConflictedRequiredContext] else []),
             unavailable_explanation, None)
      else if conflicted \<noteq> [] then
        Inr (Defer,
             [ConflictedRequiredContext] @
             (if missing \<noteq> [] then [MissingRequiredContext] else []),
             conflicted_explanation, None)
      else if missing \<noteq> [] then
        (if rq_missing_context_policy request = PolicyDefer
         then Inr (Defer, [MissingRequiredContext], deferral_explanation, None)
         else Inr (RequestInformation, [MissingRequiredContext], information_explanation, None))
      else
        tryE (build_plan request (definitions_by_id definitions)) (\<lambda>plan.
        if approvals \<noteq> []
        then Inr (RequestApproval, [ApprovalRequired], approval_explanation, Some plan)
        else Inr (Propose, [ReadyForSafetyReview], proposal_explanation, Some plan)))"

definition evaluate ::
  "executive_service \<Rightarrow> context_snapshot res \<Rightarrow> executive_request \<Rightarrow> executive_decision res" where
  "evaluate service built request =
     tryE built (\<lambda>snapshot.
     raise_if (pcs_owner_subject snapshot \<noteq> es_owner_subject service) decision_invariant
    (let ids = requested_capabilities request; reg = es_registry service in
     tryE (fingerprint_for reg ids) (\<lambda>capability_fp.
     tryE (lookup_capabilities reg ids [] [] []) (\<lambda>(definitions, unknown, unavailable).
     tryE (validate_invocations definitions (rq_invocations request)) (\<lambda>_.
     let definition_tuple = sort_key cd_capability_id definitions in
     tryE (merge_context_requirements request definition_tuple) (\<lambda>required.
     tryE (references_for snapshot required (rq_optional_context request)) (\<lambda>references.
     let missing = state_requirements CtxUnknown references;
         conflicted = state_requirements CtxConflicted references in
     tryE (merge_approvals request definition_tuple) (\<lambda>approvals.
     tryE (merge_assumptions request definition_tuple) (\<lambda>assumptions.
     tryE (merge_constraints request definition_tuple) (\<lambda>cons.
     tryE (decide request definitions unknown unavailable missing conflicted approvals)
       (\<lambda>(dtype, reasons, explanation, plan).
     mk_executive_decision (rq_request_id request) (pcs_owner_subject snapshot) dtype
       (sorted_set reasons) explanation (pcs_version snapshot) (rq_fingerprint request)
       capability_fp references assumptions ids approvals cons plan)))))))))))"

section \<open>Revalidation\<close>

definition role_requirements :: "bool \<Rightarrow> context_reference list \<Rightarrow> context_requirement list" where
  "role_requirements required references =
     map cf_requirement (filter (\<lambda>r. cf_required r = required) references)"

definition revalidate ::
  "executive_service \<Rightarrow> context_snapshot res \<Rightarrow> executive_decision \<Rightarrow> executive_request \<Rightarrow>
   revalidation_result res" where
  "revalidate service built decision request =
     tryE built (\<lambda>snapshot.
     raise_if (pcs_owner_subject snapshot \<noteq> es_owner_subject service) decision_invariant
    (tryE (fingerprint_for (es_registry service) (ed_required_capabilities decision)) (\<lambda>current_fp.
     let prior_required = role_requirements True (ed_context_references decision);
         prior_optional = role_requirements False (ed_context_references decision) in
     tryE (references_for snapshot prior_required prior_optional) (\<lambda>current_references.
     tryE (relevant_context_fingerprint current_references) (\<lambda>context_fp.
     let reasons =
       (if rq_fingerprint request \<noteq> ed_request_fingerprint decision then [RequestChanged] else []) @
       (if pcs_owner_subject snapshot \<noteq> ed_owner_subject decision then [OwnerChanged] else []) @
       (if current_fp \<noteq> ed_capability_contract_fingerprint decision
        then [CapabilityContractChanged] else []) @
       (if context_fp \<noteq> ed_relevant_context_fingerprint decision
        then [RelevantContextChanged] else []);
       ordered = sorted_set reasons in
     check_revalidation_result
       \<lparr>rv_decision_id = ed_decision_id decision,
        rv_status = (if ordered = [] then Current else Stale),
        rv_reasons = ordered,
        rv_prior_snapshot_version = ed_context_snapshot_version decision,
        rv_current_snapshot_version = pcs_version snapshot,
        rv_prior_owner_subject = ed_owner_subject decision,
        rv_current_owner_subject = pcs_owner_subject snapshot,
        rv_prior_request_fingerprint = ed_request_fingerprint decision,
        rv_current_request_fingerprint = rq_fingerprint request,
        rv_prior_capability_fingerprint = ed_capability_contract_fingerprint decision,
        rv_current_capability_fingerprint = current_fp,
        rv_prior_context_fingerprint = ed_relevant_context_fingerprint decision,
        rv_current_context_fingerprint = context_fp\<rparr>)))))"

lemmas explanation_defs = unknown_explanation_def unavailable_explanation_def
  conflicted_explanation_def deferral_explanation_def information_explanation_def
  approval_explanation_def proposal_explanation_def

lemma explanations_ok [simp]:
  "text_ok unknown_explanation" "text_ok unavailable_explanation" "text_ok conflicted_explanation"
  "text_ok deferral_explanation" "text_ok information_explanation" "text_ok approval_explanation"
  "text_ok proposal_explanation"
  by (simp_all add: explanation_defs text_evals)

text \<open>The two tables agree: a decision taken always has the shape its constructor demands.\<close>

lemma decide_shape:
  assumes "decide r defs unknown unavailable missing conflicted aps = Inr (t, rs, ex, plan)"
  shows "validate_shape t (sorted_set rs) missing conflicted aps plan = Inr () \<and> rs \<noteq> [] \<and> text_ok ex"
  using assms
  by (auto simp: decide_def validate_shape_def res_simps split: if_splits)

section \<open>What the steps of an evaluation return\<close>

lemma lookup_capabilities_Inr:
  "lookup_capabilities reg ids D U V = Inr (D', U', V') \<Longrightarrow>
     D' = D @ List.map_filter (registry_by_id reg) ids \<and>
     U' = U @ filter (\<lambda>i. registry_by_id reg i = None) ids \<and>
     V' = V @ filter (\<lambda>i. \<exists>d. registry_by_id reg i = Some d \<and> cd_availability d = AvailUnavailable) ids \<and>
     list_all identifier_ok ids"
  by (induction reg ids D U V rule: lookup_capabilities.induct)
    (auto simp: res_simps registry_get_Inr List.map_filter_simps split: if_splits option.splits)

lemma in_map_filter: "y \<in> set (List.map_filter f xs) \<longleftrightarrow> (\<exists>x \<in> set xs. f x = Some y)"
  by (force simp: List.map_filter_def)

lemma context_reference_for_Inr:
  assumes "context_reference_for s b r = Inr ref"
  shows "cf_requirement ref = r \<and> cf_required ref = b"
  using assms
  by (auto simp: context_reference_for_def mk_context_reference_def res_simps
      split: if_splits option.splits)

lemma references_for_Inr:
  assumes "references_for s req opt = Inr refs"
  shows "\<exists>req_refs opt_refs. refs = sort_key reference_key (req_refs @ opt_refs) \<and>
    list_all2 (\<lambda>r ref. context_reference_for s True r = Inr ref) req req_refs \<and>
    list_all2 (\<lambda>r ref. context_reference_for s False r = Inr ref)
      (filter (\<lambda>r. r \<notin> set req) opt) opt_refs"
  using assms by (auto simp: references_for_def res_simps Let_def traverse_Inr)

lemma list_all2_requirements:
  "list_all2 (\<lambda>r ref. context_reference_for s b r = Inr ref) rs refs \<Longrightarrow>
     map cf_requirement refs = rs \<and> (\<forall>ref \<in> set refs. cf_required ref = b)"
  by (induction rule: list_all2_induct) (auto dest: context_reference_for_Inr)

text \<open>The references cover the required keys, and the optional ones that are not required.\<close>

lemma references_for_requirements:
  assumes "references_for s req opt = Inr refs"
  shows "cf_requirement ` {r \<in> set refs. cf_required r} = set req"
    "cf_requirement ` {r \<in> set refs. \<not> cf_required r} = set opt - set req"
    "cf_requirement ` set refs = set req \<union> set opt"
    "sorted (map reference_key refs)"
proof -
  obtain a b where refs: "refs = sort_key reference_key (a @ b)"
    and a: "list_all2 (\<lambda>r ref. context_reference_for s True r = Inr ref) req a"
    and b: "list_all2 (\<lambda>r ref. context_reference_for s False r = Inr ref)
      (filter (\<lambda>r. r \<notin> set req) opt) b"
    using references_for_Inr [OF assms] by blast
  note la = list_all2_requirements [OF a] and lb = list_all2_requirements [OF b]
  have "set (map cf_requirement a) = set req" "set (map cf_requirement b) = set opt - set req"
    using la lb by (simp_all add: set_diff_eq)
  then have im: "cf_requirement ` set a = set req" "cf_requirement ` set b = set opt - set req"
    by simp_all
  have sets: "{r \<in> set refs. cf_required r} = set a" "{r \<in> set refs. \<not> cf_required r} = set b"
    "set refs = set a \<union> set b"
    using la lb unfolding refs by auto
  show "cf_requirement ` {r \<in> set refs. cf_required r} = set req"
    "cf_requirement ` {r \<in> set refs. \<not> cf_required r} = set opt - set req"
    "cf_requirement ` set refs = set req \<union> set opt"
    by (simp_all only: sets(1,2) im) (simp only: sets(3) im image_Un Un_Diff_cancel)
  show "sorted (map reference_key refs)" by (simp add: refs)
qed

text \<open>What the first call raises is raised; a decision or a result rests on the snapshot it returned.\<close>

lemma built_error [simp]:
  "evaluate svc (Inl e) req = Inl e" "revalidate svc (Inl e) d req = Inl e"
  by (simp_all add: evaluate_def revalidate_def)

lemma evaluate_built:
  "evaluate svc built req = Inr d \<longleftrightarrow> (\<exists>s. built = Inr s \<and> evaluate svc (Inr s) req = Inr d)"
  by (cases built) simp_all

lemma revalidate_built:
  "revalidate svc built d req = Inr r \<longleftrightarrow> (\<exists>s. built = Inr s \<and> revalidate svc (Inr s) d req = Inr r)"
  by (cases built) simp_all

lemma evaluate_Inr:
  assumes "evaluate svc (Inr s) req = Inr d"
  obtains cfp defs unknown unavailable u required refs aps asms cons t rs ex plan where
    "pcs_owner_subject s = es_owner_subject svc"
    "fingerprint_for (es_registry svc) (requested_capabilities req) = Inr cfp"
    "lookup_capabilities (es_registry svc) (requested_capabilities req) [] [] [] =
       Inr (defs, unknown, unavailable)"
    "validate_invocations defs (rq_invocations req) = Inr u"
    "merge_context_requirements req (sort_key cd_capability_id defs) = Inr required"
    "references_for s required (rq_optional_context req) = Inr refs"
    "merge_approvals req (sort_key cd_capability_id defs) = Inr aps"
    "merge_assumptions req (sort_key cd_capability_id defs) = Inr asms"
    "merge_constraints req (sort_key cd_capability_id defs) = Inr cons"
    "decide req defs unknown unavailable (state_requirements CtxUnknown refs)
       (state_requirements CtxConflicted refs) aps = Inr (t, rs, ex, plan)"
    "mk_executive_decision (rq_request_id req) (pcs_owner_subject s) t (sorted_set rs) ex
       (pcs_version s) (rq_fingerprint req) cfp refs asms (requested_capabilities req) aps cons plan
       = Inr d"
  using assms
  unfolding evaluate_def Let_def tryE_simps tryE_Inr raise_if_Inr not_not split_paired_Ex prod.case
  by (elim exE conjE) (rule that; assumption)

section \<open>A fresh decision is current\<close>

lemma reference_key_inject [simp]:
  "reference_key a = reference_key b \<longleftrightarrow>
     cf_required a = cf_required b \<and> cf_requirement a = cf_requirement b"
  by (auto simp: reference_key_def split: if_splits)

lemma distinct_reference_keys:
  "distinct (map cf_requirement refs) \<Longrightarrow> distinct (map reference_key refs)"
  by (auto simp: distinct_map inj_on_def)

lemma references_for_member:
  assumes "references_for s req opt = Inr refs" "ref \<in> set refs"
  shows "context_reference_for s (cf_required ref) (cf_requirement ref) = Inr ref"
proof -
  have *: "context_reference_for s b (cf_requirement x) = Inr x \<and> cf_required x = b"
    if "list_all2 (\<lambda>r ref. context_reference_for s b r = Inr ref) rs xs" "x \<in> set xs" for b rs xs x
    using that
  proof (induction rule: list_all2_induct)
    case (Cons r rs y ys)
    with context_reference_for_Inr [OF Cons.hyps(1)] show ?case by auto
  qed simp
  from references_for_Inr [OF assms(1)] assms(2) show ?thesis
    by (auto dest!: *)
qed

lemma traverse_role:
  "(\<And>ref. ref \<in> set refs \<Longrightarrow> context_reference_for s (cf_required ref) (cf_requirement ref) = Inr ref) \<Longrightarrow>
   traverse (context_reference_for s b) (role_requirements b refs) =
     Inr (filter (\<lambda>r. cf_required r = b) refs)"
  unfolding traverse_Inr role_requirements_def list.rel_map list_all2_same by auto

text \<open>Asking again for the cited context returns the same references.\<close>

lemma references_for_again:
  assumes "references_for s req opt = Inr refs" "distinct (map cf_requirement refs)"
  shows "references_for s (role_requirements True refs) (role_requirements False refs) = Inr refs"
proof -
  note mem = references_for_member [OF assms(1)]
  have dis: "filter (\<lambda>r. r \<notin> set (role_requirements True refs)) (role_requirements False refs)
      = role_requirements False refs"
    using assms(2) by (auto simp: role_requirements_def filter_id_conv distinct_map inj_on_def)
  let ?F = "filter (\<lambda>r. cf_required r = True) refs" and ?G = "filter (\<lambda>r. cf_required r = False) refs"
  have "distinct (map cf_requirement (?F @ ?G))"
    using assms(2) by (auto simp: distinct_map inj_on_def)
  then have "sort_key reference_key (?F @ ?G) = sort_key reference_key refs"
    using assms(2) by (intro sort_key_unique distinct_reference_keys) auto
  also have "\<dots> = refs"
    using references_for_requirements(4) [OF assms(1)] by (rule sort_key_sorted_id)
  finally show ?thesis
    unfolding references_for_def Let_def dis
    by (simp only: traverse_role [OF mem] tryE_simps)
qed

lemma fingerprint_for_kind: "fingerprint_for reg ids = Inr f \<Longrightarrow> fp_kind f = FpCapabilityContract"
  by (auto simp: fingerprint_for_def res_simps Let_def fingerprint_document_Inr)

lemma relevant_context_fingerprint_kind:
  "relevant_context_fingerprint refs = Inr f \<Longrightarrow> fp_kind f = FpRelevantContext"
  by (auto simp: relevant_context_fingerprint_def fingerprint_document_Inr)

lemma decision_id_ok: "text_ok (''decision-'' @ sha256_hex s)"
  by (rule digest_text_ok) (simp_all add: py_isspace_def code_point_def)

text \<open>Revalidation answers whenever the current sources can be read.\<close>

lemma revalidate_eq:
  assumes "pcs_owner_subject s = es_owner_subject svc"
    and "fingerprint_for (es_registry svc) (ed_required_capabilities d) = Inr cfp"
    and "references_for s (role_requirements True (ed_context_references d))
      (role_requirements False (ed_context_references d)) = Inr refs"
    and "relevant_context_fingerprint refs = Inr rel"
    and "text_ok (ed_decision_id d)" "text_ok (ed_owner_subject d)" "text_ok (pcs_owner_subject s)"
    and "fp_kind (ed_request_fingerprint d) = FpRequest" "fp_kind (rq_fingerprint req) = FpRequest"
    and "fp_kind (ed_capability_contract_fingerprint d) = FpCapabilityContract"
    and "fp_kind (ed_relevant_context_fingerprint d) = FpRelevantContext"
  shows "\<exists>r. revalidate svc (Inr s) d req = Inr r \<and> set (rv_reasons r) =
      (if rq_fingerprint req \<noteq> ed_request_fingerprint d then {RequestChanged} else {}) \<union>
      (if pcs_owner_subject s \<noteq> ed_owner_subject d then {OwnerChanged} else {}) \<union>
      (if cfp \<noteq> ed_capability_contract_fingerprint d then {CapabilityContractChanged} else {}) \<union>
      (if rel \<noteq> ed_relevant_context_fingerprint d then {RelevantContextChanged} else {}) \<and>
    (rv_status r = Current \<longleftrightarrow> rv_reasons r = [])"
  unfolding revalidate_def Let_def assms(2-4) tryE_simps
  using assms fingerprint_for_kind [OF assms(2)] relevant_context_fingerprint_kind [OF assms(4)]
  by (simp add: check_revalidation_result_Inr expected_reasons_def sorted_set_inject)

lemma revalidate_Inr:
  assumes "revalidate svc (Inr s) d req = Inr r"
  obtains cfp refs rel where
    "fingerprint_for (es_registry svc) (ed_required_capabilities d) = Inr cfp"
    "references_for s (role_requirements True (ed_context_references d))
      (role_requirements False (ed_context_references d)) = Inr refs"
    "relevant_context_fingerprint refs = Inr rel"
    "rv_prior_request_fingerprint r = ed_request_fingerprint d"
    "rv_current_request_fingerprint r = rq_fingerprint req"
    "rv_prior_owner_subject r = ed_owner_subject d"
    "rv_current_owner_subject r = pcs_owner_subject s"
    "rv_prior_capability_fingerprint r = ed_capability_contract_fingerprint d"
    "rv_current_capability_fingerprint r = cfp"
    "rv_prior_context_fingerprint r = ed_relevant_context_fingerprint d"
    "rv_current_context_fingerprint r = rel"
    "set (rv_reasons r) = expected_reasons r"
    "rv_status r = Current \<longleftrightarrow> rv_reasons r = []"
  using assms
  unfolding revalidate_def Let_def tryE_simps tryE_Inr raise_if_Inr
  by (elim exE conjE) (rule that, assumption, assumption, assumption,
      simp_all only: check_revalidation_result_Inr revalidation_result.simps)

end
