(* ===== verification/Exec_Fixtures.thy ===== *)
theory Exec_Fixtures
  imports Exec_Service Json_Bounds
begin

text \<open>
  A small concrete configuration of the Executive at which the properties are applied: one
  registered capability, one invocation of it, an empty context snapshot.  Digests stay symbolic,
  everything else evaluates.
\<close>

definition demo_invocation :: invocation where
  "demo_invocation = \<lparr>inv_step_id = ''s1'', inv_capability_id = ''c1'', inv_dependencies = [],
     inv_parameters = PDict [], inv_canonical_parameters = ''{}''\<rparr>"

definition demo_request :: executive_request where
  "demo_request = \<lparr>rq_request_id = ''r1'', rq_objective = ''look'', rq_request_type = ReqTask,
     rq_invocations = [demo_invocation], rq_required_context = [], rq_optional_context = [],
     rq_constraints = [], rq_required_approvals = [], rq_assumptions = [],
     rq_missing_context_policy = PolicyDefer, rq_fingerprint = sha_fingerprint FpRequest ''r1'',
     rq_metadata = PDict [], rq_canonical_metadata = ''{}''\<rparr>"

definition demo_capability :: capability_definition where
  "demo_capability = \<lparr>cd_capability_id = ''c1'', cd_description = ''look'',
     cd_availability = AvailForProposal, cd_parameters = [], cd_required_context = [],
     cd_required_approvals = [], cd_assumptions = [], cd_preconditions = [], cd_constraints = [],
     cd_expected_result = ResInformation, cd_failure_policy = StopPlan\<rparr>"

definition demo_service :: executive_service where
  "demo_service = \<lparr>es_owner_subject = ''owner'', es_registry = \<lparr>rg_definitions = [demo_capability]\<rparr>\<rparr>"

definition demo_snapshot :: context_snapshot where
  "demo_snapshot = \<lparr>pcs_owner_subject = ''owner'', pcs_entries = [],
     pcs_version = \<lparr>csv_digest = sha256_hex ''v'', csv_algorithm = ''sha256'', csv_schema_version = 1\<rparr>\<rparr>"

definition demo_step :: plan_step where
  "demo_step = \<lparr>ps_step_id = ''s1'', ps_capability_id = ''c1'', ps_dependencies = [],
     ps_preconditions = [], ps_required_context = [], ps_required_approvals = [],
     ps_constraints = [], ps_expected_result = ResInformation, ps_failure_policy = StopPlan,
     ps_parameters = PDict [], ps_canonical_parameters = ''{}''\<rparr>"

lemmas demo_defs = demo_invocation_def demo_request_def demo_capability_def demo_service_def
  demo_snapshot_def demo_step_def

lemma length_sha256_hex [simp]: "length (sha256_hex s) = 64"
  using sha256_hex_ok [of s] by (simp add: hex_digest_ok_def)

lemmas size_evals = validate_value_eq exec_json_limits_def obj_def str_list_def

lemma demo_params_ok: "params_ok (PDict []) ''{}''"
  by (simp add: params_ok_def size_evals sorted_items_def)

lemma demo_texts [simp]:
  "identifier_ok ''s1''" "identifier_ok ''c1''" "text_ok ''look''" "text_ok ''r1''" "text_ok ''owner''"
  by (simp_all add: identifier_evals)

lemma demo_request_ok [simp]: "request_ok demo_request"
  by (auto simp: request_ok_def demo_defs invocation_ok_def demo_params_ok keyed_ok_def
      max_plan_steps_def closed_graph_def invocation_graph_def needs_def node_ids_def dep_rel_def
      acyclic_def)

lemma demo_registry_ok [simp]: "registry_ok (es_registry demo_service)"
  by (simp add: registry_ok_def demo_defs capability_ok_def keyed_ok_def)

lemma demo_fingerprint_for: "\<exists>f. fingerprint_for (es_registry demo_service) [''c1''] = Inr f"
  by (simp add: fingerprint_for_def sorted_set_def registry_by_id_def index_get_def demo_defs
      definition_document_def fingerprint_document_eq size_evals)

lemma demo_order: "validate_dependency_graph e [(''s1'', [])] = Inr [''s1'']"
  by (simp add: validate_dependency_graph_def node_ids_def initial_ready_def initial_indegree_def
      dependents_def)

lemma demo_dict [simp]: "exec_dict_property (PDict []) = Inr (PDict [])"
  by (rule exec_dict_property_ok [OF demo_params_ok])

lemma demo_build_step:
  "build_step demo_request (definitions_by_id [demo_capability]) demo_invocation = Inr demo_step"
  by (simp add: build_step_def definitions_by_id_def demo_defs dict_item_def merge_unique_def
      mk_plan_step_def exec_copy_def exec_canonicalize_def canonicalize_value_canon size_evals
      sorted_set_def plan_tuple_def Let_def sorted_items_def)

lemma demo_fields [simp]:
  "requested_capabilities demo_request = [''c1'']" "rq_invocations demo_request = [demo_invocation]"
  "rq_required_context demo_request = []" "rq_optional_context demo_request = []"
  "rq_constraints demo_request = []" "rq_required_approvals demo_request = []"
  "rq_assumptions demo_request = []" "rq_request_id demo_request = ''r1''"
  by (simp_all add: requested_capabilities_def demo_request_def demo_invocation_def sorted_set_def)

lemma demo_mk_plan: "mk_plan [demo_step] = Inr \<lparr>pl_steps = [demo_step]\<rparr>"
  by (simp add: mk_plan_def step_graph_def demo_step_def demo_order index_get_def dict_item_def
      max_plan_steps_def)

lemma demo_plan:
  "build_plan demo_request (definitions_by_id [demo_capability]) = Inr \<lparr>pl_steps = [demo_step]\<rparr>"
proof -
  have "map fst (definitions_by_id [demo_capability]) = [''c1'']"
    by (simp add: definitions_by_id_def demo_capability_def)
  then show ?thesis
    by (simp add: build_plan_def demo_build_step demo_mk_plan)
qed

lemma demo_lookup:
  "lookup_capabilities (es_registry demo_service) [''c1''] [] [] [] = Inr ([demo_capability], [], [])"
  by (simp add: registry_get_def registry_by_id_def index_get_def demo_service_def
      demo_capability_def)

lemma demo_merges:
  "merge_context_requirements demo_request [demo_capability] = Inr []"
  "merge_approvals demo_request [demo_capability] = Inr []"
  "merge_assumptions demo_request [demo_capability] = Inr []"
  "merge_constraints demo_request [demo_capability] = Inr []"
  by (simp_all add: merge_context_requirements_def merge_approvals_def merge_assumptions_def
      merge_constraints_def demo_capability_def merge_unique_def)

lemma demo_validate: "validate_invocations [demo_capability] [demo_invocation] = Inr ()"
  by (simp add: validate_invocations_def definitions_by_id_def demo_capability_def
      demo_invocation_def validate_parameters_def exec_copy_def size_evals sorted_set_def)

lemma demo_decide:
  "decide demo_request [demo_capability] [] [] [] [] [] =
     Inr (Propose, [ReadyForSafetyReview], proposal_explanation, Some \<lparr>pl_steps = [demo_step]\<rparr>)"
  by (simp add: decide_def demo_plan)

lemma demo_explanation: "length proposal_explanation = 101"
  by (simp add: proposal_explanation_def)

lemma demo_decision:
  assumes "fp_kind f = FpCapabilityContract" "fp_algorithm f = ''sha256''" "length (fp_digest f) = 64"
  shows "\<exists>d. mk_executive_decision ''r1'' ''owner'' Propose [ReadyForSafetyReview] proposal_explanation
    v (sha_fingerprint FpRequest ''r1'') f [] [] [''c1''] [] [] (Some \<lparr>pl_steps = [demo_step]\<rparr>) = Inr d \<and>
    ed_proposed_plan d = Some \<lparr>pl_steps = [demo_step]\<rparr>"
  using assms
  by (simp add: mk_executive_decision_def sorted_set_def max_context_requirements_def Let_def
      state_requirements_def decision_tuple_def max_plan_steps_def validate_shape_def
      validate_plan_match_def demo_step_def relevant_context_fingerprint_def
      relevant_context_document_def fingerprint_document_eq decision_document_def step_document_def
      step_parameters_def size_evals fingerprint_str_def demo_explanation)

lemma demo_evaluate_eq:
  "fingerprint_for (es_registry demo_service) [''c1''] = Inr f \<Longrightarrow>
   evaluate demo_service (Inr demo_snapshot) demo_request =
     mk_executive_decision ''r1'' ''owner'' Propose [ReadyForSafetyReview] proposal_explanation
       (pcs_version demo_snapshot) (sha_fingerprint FpRequest ''r1'') f [] [] [''c1''] [] []
       (Some \<lparr>pl_steps = [demo_step]\<rparr>)"
  using demo_lookup demo_merges demo_validate demo_decide
  by (simp add: evaluate_def Let_def references_for_def state_requirements_def
      demo_snapshot_def demo_service_def [THEN arg_cong [where f = es_owner_subject], simplified]
      sorted_set_def demo_request_def [THEN arg_cong [where f = rq_fingerprint], simplified])

lemma demo_contract:
  "fingerprint_for (es_registry demo_service) [''c1''] = Inr f \<Longrightarrow>
   fp_kind f = FpCapabilityContract \<and> fp_algorithm f = ''sha256'' \<and> length (fp_digest f) = 64"
  by (auto simp: fingerprint_for_def res_simps Let_def fingerprint_document_Inr)

lemma demo_evaluate:
  "\<exists>d. evaluate demo_service (Inr demo_snapshot) demo_request = Inr d \<and>
     ed_proposed_plan d = Some \<lparr>pl_steps = [demo_step]\<rparr>"
proof -
  obtain f where f: "fingerprint_for (es_registry demo_service) [''c1''] = Inr f"
    using demo_fingerprint_for by blast
  with demo_contract [OF f] demo_decision [of f] show ?thesis
    by (simp add: demo_evaluate_eq)
qed

end
