(* ===== verification/Exec_Errors.thy ===== *)
theory Exec_Errors
  imports Exec_Service Py_Prelude
begin

text \<open>
  The exceptions of the Executive: on well-formed arguments an evaluation raises nothing but errors of
  the Executive, so that no lookup of a dict fails and no assertion is violated.
\<close>

abbreviation assertion_error :: exn where "assertion_error \<equiv> BuiltinExn AssertionError"

section \<open>JSON and tuples\<close>

lemma raises_validate_value [raises]: "e \<in> S \<Longrightarrow> raises_only S (validate_value L e v)"
  using validate_value_error [of L e v] by (auto simp: raises_only_def)

lemma raises_canonicalize [raises]: "e \<in> S \<Longrightarrow> raises_only S (canonicalize_value L e v)"
  unfolding canonicalize_value_canon by (intro raises)

lemma raises_exec_copy [raises]: "e \<in> S \<Longrightarrow> raises_only S (exec_copy e v)"
  unfolding exec_copy_def by (intro raises)

lemma raises_exec_canonicalize [raises]: "e \<in> S \<Longrightarrow> raises_only S (exec_canonicalize e v)"
  unfolding exec_canonicalize_def by (intro raises)

lemma raises_dict_property [raises]:
  "executive_validation \<in> S \<Longrightarrow> is_dict v \<or> assertion_error \<in> S \<Longrightarrow>
   raises_only S (exec_dict_property v)"
  unfolding exec_dict_property_def exec_copy_def by (intro raises) (auto simp: res_simps)

lemma raises_validate_text [raises]: "e \<in> S \<Longrightarrow> raises_only S (validate_text e s)"
  by (simp add: raises_only_def)

lemma raises_identifier_key [raises]: "e \<in> S \<Longrightarrow> raises_only S (identifier_key e s)"
  by (simp add: raises_only_def)

lemma raises_dict_item: "x \<noteq> None \<Longrightarrow> raises_only S (dict_item x)"
  by (cases x) (simp_all add: dict_item_def raises_Inr)

lemma raises_plan_tuple [raises]: "plan_invariant \<in> S \<Longrightarrow> raises_only S (plan_tuple key xs)"
  unfolding plan_tuple_def Let_def by (intro raises)

lemma raises_decision_tuple [raises]: "decision_invariant \<in> S \<Longrightarrow> raises_only S (decision_tuple key xs)"
  unfolding decision_tuple_def Let_def by (intro raises)

lemma raises_merge [raises]: "plan_invariant \<in> S \<Longrightarrow> raises_only S (merge_unique eq key n cs)"
proof -
  assume "plan_invariant \<in> S"
  moreover have "merge_loop eq key items m = Inl e \<Longrightarrow> e = plan_invariant" for items m e
    by (induction items arbitrary: m) (auto simp: res_simps split: if_splits)
  then have "raises_only {plan_invariant} (merge_loop eq key items m)" for items m
    by (auto simp: raises_only_def)
  ultimately show ?thesis
    unfolding merge_unique_def by (intro raises) (auto intro: raises_mono)
qed

lemma raises_fingerprint_document [raises]:
  "executive_validation \<in> S \<Longrightarrow> raises_only S (fingerprint_document k v)"
  unfolding fingerprint_document_eq by (intro raises)

section \<open>Documents\<close>

definition dict_constraints :: "constraint list \<Rightarrow> bool" where
  "dict_constraints cs \<longleftrightarrow> (\<forall>c \<in> set cs. is_dict (co_parameters c))"

definition dict_steps :: "plan_step list \<Rightarrow> bool" where
  "dict_steps ss \<longleftrightarrow> (\<forall>s \<in> set ss. is_dict (ps_parameters s) \<and> dict_constraints (ps_constraints s))"

lemma dict_constraintsI: "list_all constraint_ok cs \<Longrightarrow> dict_constraints cs"
  by (auto simp: dict_constraints_def list_all_iff constraint_ok_def params_ok_def)

lemma dict_stepsI: "list_all step_ok ss \<Longrightarrow> dict_steps ss"
  by (auto simp: dict_steps_def list_all_iff step_ok_def params_ok_def keyed_ok_def
      intro!: dict_constraintsI)

lemma raises_constraint_documents [raises]:
  "executive_validation \<in> S \<Longrightarrow> dict_constraints cs \<or> assertion_error \<in> S \<Longrightarrow>
   raises_only S (traverse constraint_document cs)"
  unfolding constraint_document_def by (intro raises) (auto simp: dict_constraints_def)

lemma raises_step_documents [raises]:
  assumes "executive_validation \<in> S" "dict_steps ss \<or> assertion_error \<in> S"
  shows "raises_only S (traverse step_document ss)"
  unfolding step_document_def step_parameters_def using assms
  by (intro raises) (auto simp: dict_steps_def)

lemma raises_decision_document [raises]:
  assumes "executive_validation \<in> S"
    and "dict_constraints cons \<and> (\<forall>p. plan = Some p \<longrightarrow> dict_steps (pl_steps p)) \<or> assertion_error \<in> S"
  shows "raises_only S
    (decision_document i ow t rs ex f1 f2 f3 ms cs asms caps aps cons plan)"
  unfolding decision_document_def using assms by (intro raises) auto

section \<open>Decisions\<close>

lemma raises_validate_shape [raises]:
  "decision_invariant \<in> S \<Longrightarrow> raises_only S (validate_shape t rs ms cs as p)"
  unfolding validate_shape_def by (cases t) (simp_all, (intro raises; assumption)+)

lemma raises_plan_match [raises]:
  "decision_invariant \<in> S \<Longrightarrow> raises_only S (validate_plan_match p cs rs as)"
  unfolding validate_plan_match_def by (intro raises)

lemma raises_mk_executive_decision:
  assumes "executive_validation \<in> S" "decision_invariant \<in> S"
    and "dict_constraints cons \<and> (\<forall>p. plan = Some p \<longrightarrow> dict_steps (pl_steps p)) \<or> assertion_error \<in> S"
  shows "raises_only S
    (mk_executive_decision i ow t rs ex v f1 f2 refs asms caps aps cons plan)"
  unfolding mk_executive_decision_def Let_def relevant_context_fingerprint_def
  using assms
  by (intro raises) (auto simp: dict_constraints_def decision_tuple.build_Inr_iff)

section \<open>Plans\<close>

lemma raises_mk_plan_step [raises]: "plan_invariant \<in> S \<Longrightarrow>
   raises_only S (mk_plan_step sid cid ps ds pcs ctx aps cons er fp)"
  unfolding mk_plan_step_def Let_def by (intro raises)

lemma raises_mk_plan:
  assumes "plan_invariant \<in> S" "list_all step_ok steps"
  shows "raises_only S (mk_plan steps)"
  unfolding mk_plan_def
proof (intro raises assms(1))
  show "raises_only S (validate_dependency_graph plan_invariant (step_graph steps))"
    using validate_dependency_graph_Inl [of plan_invariant "step_graph steps"] assms(1)
    by (auto simp: raises_only_def)
  fix order i
  assume "\<not> card (ps_step_id ` set steps) \<noteq> length steps"
    and o: "validate_dependency_graph plan_invariant (step_graph steps) = Inr order" and i: "i \<in> set order"
  then have d: "distinct (map ps_step_id steps)" by (simp add: card_image_length)
  have "i \<in> ps_step_id ` set steps"
    using exec_order.sound [OF step_graph_proper [OF d assms(2)] o] i by (simp add: topo_sorted_def)
  then have "index_get ps_step_id steps i \<noteq> None" using index_get_None by metis
  then show "raises_only S (dict_item (index_get ps_step_id steps i))" by (rule raises_dict_item)
qed

lemma raises_build_plan:
  assumes "plan_invariant \<in> S" "executive_validation \<in> S" "request_ok req"
    and ok: "\<And>d. d \<in> snd ` set defs \<Longrightarrow> capability_ok d"
  shows "raises_only S (build_plan req defs)"
  unfolding build_plan_def
proof (intro raises assms(1))
  fix i assume keys: "\<not> set (map fst defs) \<noteq> set (requested_capabilities req)"
    and i: "i \<in> set (rq_invocations req)"
  then have "inv_capability_id i \<in> set (map fst defs)"
    by (simp add: requested_capabilities_def)
  then have "map_of defs (inv_capability_id i) \<noteq> None" by (simp add: map_of_eq_None_iff)
  moreover have "invocation_ok i" using assms(3) i by (simp add: request_ok_def list_all_iff)
  then have "is_dict (inv_parameters i)" by (simp add: invocation_ok_def params_ok_def)
  ultimately show "raises_only S (build_step req defs i)"
    unfolding build_step_def using assms(1,2) by (intro raises raises_dict_item) simp_all
next
  fix steps assume t: "traverse (build_step req defs) (rq_invocations req) = Inr steps"
  have "step_ok s" if s: "s \<in> set steps" for s
  proof -
    obtain i where i: "i \<in> set (rq_invocations req)" "build_step req defs i = Inr s"
      using list_all2_ex2 [OF t [unfolded traverse_Inr] s] by blast
    have "invocation_ok i" using assms(3) i(1) by (simp add: request_ok_def list_all_iff)
    from build_step_Inr [OF i(2) assms(3) this ok] show ?thesis by simp
  qed
  then show "raises_only S (mk_plan steps)"
    using assms(1) by (intro raises_mk_plan) (auto simp: list_all_iff)
qed

section \<open>The service\<close>

lemma raises_fingerprint_for:
  assumes "executive_validation \<in> S" "invalid_capability \<in> S" "registry_ok reg"
  shows "raises_only S (fingerprint_for reg ids)"
proof -
  have "raises_only S (definition_document d)" if "registry_by_id reg i = Some d" for i d
  proof -
    have "list_all constraint_ok (cd_constraints d)"
      using registry_by_id_ok [OF assms(3) that] by (simp add: capability_ok_def keyed_ok_def)
    then show ?thesis
      unfolding definition_document_def using assms(1) dict_constraintsI by (intro raises) simp_all
  qed
  then show ?thesis
    unfolding fingerprint_for_def Let_def using assms(1,2) by (intro raises)
qed

lemma raises_lookup_capabilities:
  "invalid_parameters \<in> S \<Longrightarrow> raises_only S (lookup_capabilities reg ids D U V)"
proof (induction reg ids D U V rule: lookup_capabilities.induct)
  case (2 reg i ids D U V)
  then show ?case
    unfolding lookup_capabilities.simps registry_get_def by (intro raises) (auto simp: res_simps)
qed (simp add: raises_Inr)

lemma raises_validate_parameters:
  assumes "invalid_parameters \<in> S"
  shows "raises_only S (validate_parameters d kvs)"
  unfolding validate_parameters_def Let_def
proof (intro raises assms, goal_cases)
  case (1 copied name)
  from 1(1) have c: "copied = PDict kvs" and ok: "validate_value exec_json_limits invalid_parameters (PDict kvs) = Inr ()"
    by (auto simp: exec_copy_def res_simps)
  from 1(4) obtain k v where kv: "(k, v) \<in> set kvs" "name = key_str k"
    by (auto simp: c)
  moreover have "k \<noteq> KOther" using accepted_keys [OF ok] kv(1) by force
  ultimately have "KStr name \<in> fst ` set kvs" by (cases k) force+
  then have "map_of (dict_items copied) (KStr name) \<noteq> None" by (simp add: c map_of_eq_None_iff)
  then show ?case by (rule raises_dict_item)
next
  case (2 copied name val)
  then have "name \<in> pd_name ` set (cd_parameters d)" by auto
  then have "index_get pd_name (cd_parameters d) name \<noteq> None" using index_get_None by metis
  then show ?case by (rule raises_dict_item)
qed

lemma raises_validate_invocations:
  assumes "invalid_parameters \<in> S" "executive_validation \<in> S" "list_all invocation_ok invs"
  shows "raises_only S (validate_invocations defs invs)"
proof -
  have "is_dict (inv_parameters i)" if "i \<in> set invs" for i
    using assms(3) that by (simp add: list_all_iff invocation_ok_def params_ok_def)
  then show ?thesis
    unfolding validate_invocations_def using assms
    by (intro raises raises_validate_parameters) simp_all
qed

lemma raises_context_reference:
  assumes "decision_invariant \<in> S" "snapshot_ok s" "requirement_ok r"
  shows "raises_only S (context_reference_for s b r)"
proof -
  have "exact_text_ok (cr_predicate r)"
    using assms(3) by (simp add: requirement_ok_def text_ok_def)
  from get_context_total [OF assms(2) this refl refl]
  obtain q where "get_context s (cr_domain r) (cr_predicate r) = Inr q" by blast
  then show ?thesis
    unfolding context_reference_for_def mk_context_reference_def using assms(1)
    by (simp only: tryE_simps) (intro raises)
qed

lemma raises_references_for:
  assumes "decision_invariant \<in> S" "snapshot_ok s"
    and "list_all requirement_ok req" "list_all requirement_ok opt"
  shows "raises_only S (references_for s req opt)"
  unfolding references_for_def Let_def using assms
  by (intro raises raises_context_reference) (auto simp: list_all_iff)

lemma lookup_capabilities_ok:
  assumes "lookup_capabilities reg ids [] [] [] = Inr (defs, u, v)" "registry_ok reg"
  shows "list_all capability_ok defs"
  using lookup_capabilities_Inr [OF assms(1)] registry_by_id_ok [OF assms(2)]
  by (auto simp: list_all_iff in_map_filter)

lemma decide_plan:
  "decide req defs u v ms cs aps = Inr (t, rs, ex, Some p) \<Longrightarrow>
   build_plan req (definitions_by_id defs) = Inr p"
  by (auto simp: decide_def res_simps split: if_splits)

lemma evaluate_raises:
  assumes req: "request_ok req" and reg: "registry_ok (es_registry svc)" and s: "snapshot_ok s"
  shows "raises_only (range ExecutiveExn) (evaluate svc (Inr s) req)"
  unfolding evaluate_def Let_def tryE_simps
proof (intro raises, goal_cases)
  case 2
  show ?case by (rule raises_fingerprint_for [OF _ _ reg]) simp_all
next
  case 3
  show ?case by (rule raises_lookup_capabilities) simp
next
  case 4
  show ?case
    using req by (intro raises_validate_invocations) (simp_all add: request_ok_def)
next
  case (5 cfp l defs x u v)
  then show ?case by (auto simp: merge_context_requirements_def intro: raises)
next
  case (6 cfp l defs x u v w required)
  have d: "list_all capability_ok defs" using lookup_capabilities_ok [OF _ reg] 6 by blast
  have "set required = set (rq_required_context req) \<union> (\<Union>d \<in> set defs. set (cd_required_context d))"
    using plain_merge_set 6 by (fastforce simp: merge_context_requirements_def)
  then show ?case
    using req d by (intro raises_references_for [OF _ s])
      (auto simp: request_ok_def capability_ok_def keyed_ok_def list_all_iff)
next
  case 10
  then have "list_all capability_ok defs"
    if "lookup_capabilities (es_registry svc) ids [] [] [] = Inr (defs, u, v)" for ids defs u v
    using lookup_capabilities_ok [OF that reg] by blast
  with 10 show ?case
    unfolding decide_def
    by (intro raises raises_build_plan [OF _ _ req])
      (auto simp: definitions_by_id_def list_all_iff)
next
  case (11 cfp l defs x u v w required refs aps asms cons c t z rs y ex plan)
  have d: "list_all capability_ok defs" using lookup_capabilities_ok [OF _ reg] 11 by blast
  have "list_all constraint_ok
      (concat (rq_constraints req # map cd_constraints (sort_key cd_capability_id defs)))"
    using req d by (auto simp: request_ok_def capability_ok_def keyed_ok_def list_all_iff)
  then have "list_all constraint_ok cons"
    using merge_constraints_keyed_ok [of "rq_constraints req #
      map cd_constraints (sort_key cd_capability_id defs)"] 11
    by (auto simp: merge_constraints_def max_request_items_def keyed_ok_def)
  moreover have "dict_steps (pl_steps p)" if p: "plan = Some p" for p
  proof -
    have b: "build_plan req (definitions_by_id defs) = Inr p"
      using 11 p decide_plan by blast
    have "capability_ok x" if "x \<in> snd ` set (definitions_by_id defs)" for x
      using that d by (auto simp: definitions_by_id_def list_all_iff)
    from build_plan_Inr [OF b req this] have "plan_ok p" by metis
    then show ?thesis by (simp add: plan_ok_def dict_stepsI)
  qed
  ultimately have "dict_constraints cons \<and> (\<forall>p. plan = Some p \<longrightarrow> dict_steps (pl_steps p)) \<or>
      assertion_error \<in> range ExecutiveExn"
    using dict_constraintsI by blast
  from raises_mk_executive_decision [OF _ _ this] show ?case by simp
qed (auto simp: merge_approvals_def merge_assumptions_def merge_constraints_def intro: raises)

end
