(* ===== verification/Exec_Properties.thy ===== *)
theory Exec_Properties
  imports Exec_Fixtures Exec_Errors
begin

text \<open>
  The properties of the Executive: what a decision type means, what a proposed plan guarantees,
  which content a fingerprint covers, and when a decision is still current.
\<close>

section \<open>Revalidation\<close>

lemma fresh_revalidation:
  assumes "evaluate svc (Inr s) req = Inr d"
  shows "\<exists>r. revalidate svc (Inr s) d req = Inr r \<and> rv_status r = Current \<and> rv_reasons r = []"
proof -
  from assms obtain cfp required refs t rs ex asms aps cons plan where
    o: "pcs_owner_subject s = es_owner_subject svc"
    and c: "fingerprint_for (es_registry svc) (requested_capabilities req) = Inr cfp"
    and refs: "references_for s required (rq_optional_context req) = Inr refs"
    and mk: "mk_executive_decision (rq_request_id req) (pcs_owner_subject s) t (sorted_set rs) ex
       (pcs_version s) (rq_fingerprint req) cfp refs asms (requested_capabilities req) aps cons plan
       = Inr d"
    by (rule evaluate_Inr)
  note d = mk_executive_decision_Inr [OF mk]
  have same: "ed_context_references d = refs"
    using d references_for_requirements(4) [OF refs] by (simp add: sort_key_sorted_id)
  have caps: "ed_required_capabilities d = requested_capabilities req"
    using d by (simp add: requested_capabilities_def)
  have again: "references_for s (role_requirements True (ed_context_references d))
      (role_requirements False (ed_context_references d)) = Inr refs"
    using references_for_again [OF refs] d same by simp
  have rel: "relevant_context_fingerprint refs = Inr (ed_relevant_context_fingerprint d)"
    using d same by simp
  have "text_ok (ed_decision_id d)" using d decision_id_ok by auto
  then show ?thesis
    using revalidate_eq [where cfp = cfp and req = req, OF o _ again rel] c d caps
      relevant_context_fingerprint_kind [OF rel]
    by fastforce
qed

text \<open>
  C1. A decision that the service has just taken is current: revalidating it against the same
  registry and request, when \<open>build_snapshot\<close> returns the same again, returns a result with status
  CURRENT and no stale reason.
\<close>

theorem fresh_decision_current:
  assumes "evaluate svc built req = Inr d"
  shows "\<exists>r. revalidate svc built d req = Inr r \<and> rv_status r = Current \<and> rv_reasons r = []"
proof -
  from assms obtain s where "built = Inr s" "evaluate svc (Inr s) req = Inr d"
    unfolding evaluate_built [of svc built] by blast
  then show ?thesis using fresh_revalidation by simp
qed

lemma fresh_decision_current_witness:
  "\<exists>d r. evaluate demo_service (Inr demo_snapshot) demo_request = Inr d \<and>
     revalidate demo_service (Inr demo_snapshot) d demo_request = Inr r \<and> rv_status r = Current"
  using demo_evaluate fresh_decision_current by blast

text \<open>
  C2. A revalidation says CURRENT exactly when nothing that the decision rests on has changed: the
  request fingerprint, the owner, the fingerprint of the required capability contracts and the
  fingerprint of the required context, read again from the current snapshot. It returns only when
  \<open>build_snapshot\<close> does.
\<close>

theorem revalidate_current_iff:
  assumes "revalidate svc built d req = Inr r"
  shows "\<exists>s. built = Inr s \<and> (rv_status r = Current \<longleftrightarrow>
    rq_fingerprint req = ed_request_fingerprint d \<and>
    pcs_owner_subject s = ed_owner_subject d \<and>
    fingerprint_for (es_registry svc) (ed_required_capabilities d) =
      Inr (ed_capability_contract_fingerprint d) \<and>
    (\<exists>refs. references_for s (role_requirements True (ed_context_references d))
        (role_requirements False (ed_context_references d)) = Inr refs \<and>
      relevant_context_fingerprint refs = Inr (ed_relevant_context_fingerprint d)))"
proof -
  from assms obtain s where s: "built = Inr s" "revalidate svc (Inr s) d req = Inr r"
    unfolding revalidate_built [of svc built] by blast
  from s(2) obtain cfp refs rel where
    r: "fingerprint_for (es_registry svc) (ed_required_capabilities d) = Inr cfp"
    "references_for s (role_requirements True (ed_context_references d))
      (role_requirements False (ed_context_references d)) = Inr refs"
    "relevant_context_fingerprint refs = Inr rel"
    and f: "rv_prior_request_fingerprint r = ed_request_fingerprint d"
    "rv_current_request_fingerprint r = rq_fingerprint req"
    "rv_prior_owner_subject r = ed_owner_subject d"
    "rv_current_owner_subject r = pcs_owner_subject s"
    "rv_prior_capability_fingerprint r = ed_capability_contract_fingerprint d"
    "rv_current_capability_fingerprint r = cfp"
    "rv_prior_context_fingerprint r = ed_relevant_context_fingerprint d"
    "rv_current_context_fingerprint r = rel"
    and st: "set (rv_reasons r) = expected_reasons r" "rv_status r = Current \<longleftrightarrow> rv_reasons r = []"
    by (rule revalidate_Inr)
  have "rv_status r = Current \<longleftrightarrow> expected_reasons r = {}"
    using st by (metis set_empty)
  then show ?thesis
    using r s(1) by (auto simp: expected_reasons_def f)
qed

lemma revalidate_current_iff_witness:
  "\<exists>d r. revalidate demo_service (Inr demo_snapshot) d demo_request = Inr r \<and> rv_status r = Current \<and>
     rq_fingerprint demo_request = ed_request_fingerprint d \<and>
     pcs_owner_subject demo_snapshot = ed_owner_subject d"
  using demo_evaluate fresh_revalidation revalidate_current_iff by blast

section \<open>What a decision type means\<close>

definition requests_unknown :: "capability_registry \<Rightarrow> executive_request \<Rightarrow> bool" where
  "requests_unknown reg req \<longleftrightarrow>
     (\<exists>c \<in> set (requested_capabilities req). registry_by_id reg c = None)"

definition requests_unavailable :: "capability_registry \<Rightarrow> executive_request \<Rightarrow> bool" where
  "requests_unavailable reg req \<longleftrightarrow>
     (\<exists>c \<in> set (requested_capabilities req). \<exists>def. registry_by_id reg c = Some def \<and>
        cd_availability def = AvailUnavailable)"

lemma evaluate_decide:
  assumes "evaluate svc (Inr s) req = Inr d"
  obtains defs unknown unavailable u aps rs where
    "decide req defs unknown unavailable (ed_missing_context d) (ed_conflicted_context d) aps =
      Inr (ed_decision_type d, rs, ed_explanation d, ed_proposed_plan d)"
    "ed_reason_codes d = sorted_set rs" "ed_required_approvals d = [] \<longleftrightarrow> aps = []"
    "unknown \<noteq> [] \<longleftrightarrow> requests_unknown (es_registry svc) req"
    "unavailable \<noteq> [] \<longleftrightarrow> requests_unavailable (es_registry svc) req"
    "defs = List.map_filter (registry_by_id (es_registry svc)) (requested_capabilities req)"
proof -
  from assms obtain cfp defs unknown unavailable required refs t rs ex asms aps cons plan where
    l: "lookup_capabilities (es_registry svc) (requested_capabilities req) [] [] [] =
       Inr (defs, unknown, unavailable)"
    and refs: "references_for s required (rq_optional_context req) = Inr refs"
    and dec: "decide req defs unknown unavailable (state_requirements CtxUnknown refs)
       (state_requirements CtxConflicted refs) aps = Inr (t, rs, ex, plan)"
    and mk: "mk_executive_decision (rq_request_id req) (pcs_owner_subject s) t (sorted_set rs) ex
       (pcs_version s) (rq_fingerprint req) cfp refs asms (requested_capabilities req) aps cons plan
       = Inr d"
    by (rule evaluate_Inr)
  note d = mk_executive_decision_Inr [OF mk]
  have "ed_context_references d = refs"
    using d references_for_requirements(4) [OF refs] by (simp add: sort_key_sorted_id)
  moreover have "ed_required_approvals d = [] \<longleftrightarrow> aps = []"
    using d decision_tuple.build_Nil_iff by blast
  ultimately show ?thesis
    using that [of defs unknown unavailable aps rs] dec d lookup_capabilities_Inr [OF l]
    by (auto simp: requests_unknown_def requests_unavailable_def filter_empty_conv)
qed

lemma evaluate_contexts:
  assumes "evaluate svc (Inr s) req = Inr d"
  shows "ed_missing_context d = state_requirements CtxUnknown (ed_context_references d) \<and>
    ed_conflicted_context d = state_requirements CtxConflicted (ed_context_references d)"
proof -
  from assms obtain cfp refs t rs ex asms aps cons plan where
    "mk_executive_decision (rq_request_id req) (pcs_owner_subject s) t (sorted_set rs) ex
       (pcs_version s) (rq_fingerprint req) cfp refs asms (requested_capabilities req) aps cons plan
       = Inr d"
    by (rule evaluate_Inr)
  from mk_executive_decision_Inr [OF this] show ?thesis by simp
qed

text \<open>
  C3. The type of a decision and its reasons are determined by the registry, the cited context and
  the merged approvals: unknown capabilities reject, unavailable ones and conflicts defer, missing
  context asks or defers as the request says, approvals ask for approval, and only then is a plan
  proposed.
\<close>

theorem evaluate_decision_table:
  assumes "evaluate svc (Inr s) req = Inr d"
  defines "reg \<equiv> es_registry svc"
  shows "ed_decision_type d =
      (if requests_unknown reg req then Reject
       else if requests_unavailable reg req \<or> ed_conflicted_context d \<noteq> [] then Defer
       else if ed_missing_context d \<noteq> []
       then (if rq_missing_context_policy req = PolicyDefer then Defer else RequestInformation)
       else if ed_required_approvals d \<noteq> [] then RequestApproval else Propose) \<and>
    set (ed_reason_codes d) =
      {c. (c = UnknownCapability \<and> requests_unknown reg req) \<or>
          (c = CapabilityUnavailable \<and> requests_unavailable reg req) \<or>
          (c = MissingRequiredContext \<and> ed_missing_context d \<noteq> []) \<or>
          (c = ConflictedRequiredContext \<and> ed_conflicted_context d \<noteq> []) \<or>
          (c = ApprovalRequired \<and> ed_decision_type d = RequestApproval) \<or>
          (c = ReadyForSafetyReview \<and> ed_decision_type d = Propose)}"
proof -
  from assms(1) obtain defs unknown unavailable u aps rs where
    "decide req defs unknown unavailable (ed_missing_context d) (ed_conflicted_context d) aps =
      Inr (ed_decision_type d, rs, ed_explanation d, ed_proposed_plan d)"
    "ed_reason_codes d = sorted_set rs" "ed_required_approvals d = [] \<longleftrightarrow> aps = []"
    "unknown \<noteq> [] \<longleftrightarrow> requests_unknown (es_registry svc) req"
    "unavailable \<noteq> [] \<longleftrightarrow> requests_unavailable (es_registry svc) req"
    by (rule evaluate_decide)
  then show ?thesis
    unfolding reg_def
    by (cases "requests_unknown (es_registry svc) req";
        cases "requests_unavailable (es_registry svc) req";
        cases "ed_conflicted_context d = []"; cases "ed_missing_context d = []"; cases "aps = []")
      (auto simp: decide_def res_simps split: if_splits)
qed

lemma evaluate_decision_table_witness:
  "\<exists>d. evaluate demo_service (Inr demo_snapshot) demo_request = Inr d \<and>
     ed_decision_type d \<in> {Reject, Defer, RequestApproval, Propose} \<and>
     (UnknownCapability \<in> set (ed_reason_codes d) \<longleftrightarrow>
        requests_unknown (es_registry demo_service) demo_request)"
proof -
  obtain d where d: "evaluate demo_service (Inr demo_snapshot) demo_request = Inr d"
    using demo_evaluate by blast
  have "rq_missing_context_policy demo_request = PolicyDefer" by (simp add: demo_request_def)
  with evaluate_decision_table [OF d] d show ?thesis by auto
qed

section \<open>What a proposed plan guarantees\<close>

text \<open>
  C4. A plan is only ever proposed when every requested capability is registered and available,
  every required context key is resolved, and the plan is well formed and has exactly one step
  per invocation, with its capability, parameters and dependencies.
\<close>

theorem proposed_plan_grounded:
  assumes "evaluate svc (Inr s) req = Inr d" "ed_proposed_plan d = Some p"
    and "request_ok req" "registry_ok (es_registry svc)"
  shows "ed_decision_type d = (if ed_required_approvals d = [] then Propose else RequestApproval) \<and>
    (\<forall>c \<in> set (requested_capabilities req). \<exists>def. registry_by_id (es_registry svc) c = Some def \<and>
       cd_availability def = AvailForProposal) \<and>
    (\<forall>ref \<in> set (ed_context_references d). cf_required ref \<longrightarrow> cf_state ref = CtxResolved) \<and>
    plan_ok p \<and> length (pl_steps p) = length (rq_invocations req) \<and>
    (\<forall>i \<in> set (rq_invocations req). \<exists>st \<in> set (pl_steps p).
       ps_step_id st = inv_step_id i \<and> ps_capability_id st = inv_capability_id i \<and>
       ps_parameters st = inv_parameters i \<and> ps_dependencies st = inv_dependencies i)"
proof -
  let ?reg = "es_registry svc"
  from assms(1) obtain defs unknown unavailable u aps rs where
    dec: "decide req defs unknown unavailable (ed_missing_context d) (ed_conflicted_context d) aps =
      Inr (ed_decision_type d, rs, ed_explanation d, ed_proposed_plan d)"
    and aps: "ed_required_approvals d = [] \<longleftrightarrow> aps = []"
    and u: "unknown \<noteq> [] \<longleftrightarrow> requests_unknown ?reg req"
      "unavailable \<noteq> [] \<longleftrightarrow> requests_unavailable ?reg req"
    and defs: "defs = List.map_filter (registry_by_id ?reg) (requested_capabilities req)"
    by (rule evaluate_decide)
  have none: "unknown = []" "unavailable = []" "ed_missing_context d = []" "ed_conflicted_context d = []"
    and plan: "build_plan req (definitions_by_id defs) = Inr p"
    and ty: "ed_decision_type d = (if ed_required_approvals d = [] then Propose else RequestApproval)"
    using dec assms(2) aps by (auto simp: decide_def res_simps split: if_splits)
  have "capability_ok def" if "def \<in> set defs" for def
    using that registry_by_id_ok [OF assms(4)] unfolding defs by (auto simp: in_map_filter)
  then have "capability_ok def" if "def \<in> snd ` set (definitions_by_id defs)" for def
    using that by (auto simp: definitions_by_id_def)
  note bs = this
  from plan obtain steps where
    t: "list_all2 (\<lambda>i st. build_step req (definitions_by_id defs) i = Inr st) (rq_invocations req) steps"
    and p: "plan_ok p" "set (pl_steps p) = set steps"
      "length (pl_steps p) = length (rq_invocations req)"
    by (rule build_plan_Inr [OF _ assms(3) bs])
  have step: "\<exists>st \<in> set (pl_steps p). ps_step_id st = inv_step_id i \<and>
      ps_capability_id st = inv_capability_id i \<and> ps_parameters st = inv_parameters i \<and>
      ps_dependencies st = inv_dependencies i" if i: "i \<in> set (rq_invocations req)" for i
  proof -
    from list_all2_ex [OF t i]
    obtain st where "st \<in> set steps" "build_step req (definitions_by_id defs) i = Inr st" by auto
    moreover have "invocation_ok i" using assms(3) i by (simp add: request_ok_def list_all_iff)
    ultimately show ?thesis
      using build_step_Inr [OF _ assms(3), of "definitions_by_id defs" i st] bs p(2) by auto
  qed
  have caps: "\<exists>def. registry_by_id ?reg c = Some def \<and> cd_availability def = AvailForProposal"
    if "c \<in> set (requested_capabilities req)" for c
  proof -
    have "registry_by_id ?reg c \<noteq> None"
      using u(1) none(1) that unfolding requests_unknown_def by metis
    then obtain def where def: "registry_by_id ?reg c = Some def" by blast
    moreover have "cd_availability def \<noteq> AvailUnavailable"
      using u(2) none(2) that def by (auto simp: requests_unavailable_def)
    moreover have "cd_availability def \<noteq> AvailUnknown"
      using registry_by_id_ok [OF assms(4) def] by (simp add: capability_ok_def)
    ultimately show ?thesis by (cases "cd_availability def") auto
  qed
  have "ed_missing_context d = state_requirements CtxUnknown (ed_context_references d)"
    "ed_conflicted_context d = state_requirements CtxConflicted (ed_context_references d)"
    using evaluate_contexts [OF assms(1)] by simp_all
  then have "cf_state ref = CtxResolved" if "ref \<in> set (ed_context_references d)" "cf_required ref" for ref
    using none that by (cases "cf_state ref") (auto simp: state_requirements_def filter_empty_conv)
  with ty caps step p show ?thesis by blast
qed

lemma proposed_plan_grounded_witness:
  "\<exists>d. evaluate demo_service (Inr demo_snapshot) demo_request = Inr d \<and>
     ed_decision_type d \<in> {Propose, RequestApproval} \<and> plan_ok \<lparr>pl_steps = [demo_step]\<rparr>"
proof -
  obtain d where d: "evaluate demo_service (Inr demo_snapshot) demo_request = Inr d"
    "ed_proposed_plan d = Some \<lparr>pl_steps = [demo_step]\<rparr>"
    using demo_evaluate by blast
  from proposed_plan_grounded [OF d demo_request_ok demo_registry_ok] d show ?thesis by auto
qed

section \<open>Content of the fingerprints\<close>

lemma sorted_required:
  "mset (filter cf_required refs) = mset (filter cf_required refs') \<Longrightarrow>
   distinct (map cf_requirement refs) \<Longrightarrow>
   filter cf_required (sort_key reference_key refs) = filter cf_required (sort_key reference_key refs')"
proof -
  assume m: "mset (filter cf_required refs) = mset (filter cf_required refs')"
    and d: "distinct (map cf_requirement refs)"
  have df: "distinct (map reference_key (filter cf_required refs))"
    using d by (intro distinct_reference_keys) (auto simp: distinct_map inj_on_def)
  then have "distinct (map reference_key (filter cf_required refs'))"
    using m by (metis mset_eq_imp_distinct_iff mset_map)
  with df have "sort_key reference_key (filter cf_required refs) =
      sort_key reference_key (filter cf_required refs')"
    using mset_eq_setD [OF m] by (intro sort_key_unique) simp_all
  then show ?thesis by (simp add: filter_sort)
qed

lemma state_requirements_filter:
  "state_requirements st refs = map cf_requirement (filter (\<lambda>r. cf_state r = st) (filter cf_required refs))"
  by (simp add: state_requirements_def conj_commute)

text \<open>
  C5. A decision is identified by what it decides: two decisions that differ only in the version of
  the snapshot and in the optional context they cite have the same fingerprint and identifier.
\<close>

theorem decision_identity_scope:
  assumes "mk_executive_decision rid owner t rs ex v rfp cfp refs asms caps aps cons plan = Inr d"
    and "mk_executive_decision rid owner t rs ex v' rfp cfp refs' asms caps aps cons plan = Inr d'"
    and "mset (filter cf_required refs) = mset (filter cf_required refs')"
  shows "ed_decision_fingerprint d = ed_decision_fingerprint d' \<and>
    ed_decision_id d = ed_decision_id d' \<and>
    ed_relevant_context_fingerprint d = ed_relevant_context_fingerprint d'"
proof -
  note d = mk_executive_decision_Inr [OF assms(1)] and d' = mk_executive_decision_Inr [OF assms(2)]
  let ?s = "sort_key reference_key refs" and ?s' = "sort_key reference_key refs'"
  have "distinct (map cf_requirement refs)"
    using d distinct_map_sort_key [of cf_requirement reference_key refs] by metis
  then have req: "filter cf_required ?s = filter cf_required ?s'"
    using sorted_required [OF assms(3)] by simp
  have same: "state_requirements st ?s = state_requirements st ?s'"
    "relevant_context_fingerprint ?s = relevant_context_fingerprint ?s'" for st
    by (simp_all only: state_requirements_filter relevant_context_fingerprint_def
        relevant_context_document_def req)
  have "ed_context_references d = ?s" "ed_context_references d' = ?s'"
    using d d' by blast+
  then have ctx: "ed_missing_context d = ed_missing_context d'"
    "ed_conflicted_context d = ed_conflicted_context d'"
    and rel: "ed_relevant_context_fingerprint d = ed_relevant_context_fingerprint d'"
    using d d' same by (metis, metis, metis sum.inject(2))
  have tup: "ed_assumptions d = ed_assumptions d'" "ed_required_approvals d = ed_required_approvals d'"
    "ed_constraints d = ed_constraints d'" "ed_required_capabilities d = ed_required_capabilities d'"
    using d d' by auto
  have "\<exists>doc. ed_decision_id d = ''decision-'' @ sha256_hex (canon doc) \<and>
      ed_decision_fingerprint d = sha_fingerprint FpDecision (canon doc) \<and>
      ed_decision_id d' = ''decision-'' @ sha256_hex (canon doc) \<and>
      ed_decision_fingerprint d' = sha_fingerprint FpDecision (canon doc)"
    using d d' unfolding ctx rel tup by (metis sum.inject(2))
  with rel show ?thesis by auto
qed

lemma decision_identity_scope_witness:
  "\<exists>d d'. mk_executive_decision ''r1'' ''owner'' Propose [ReadyForSafetyReview] proposal_explanation
      \<lparr>csv_digest = sha256_hex ''a'', csv_algorithm = ''sha256'', csv_schema_version = 1\<rparr>
      (sha_fingerprint FpRequest ''r1'') (sha_fingerprint FpCapabilityContract ''c'')
      [] [] [''c1''] [] [] (Some \<lparr>pl_steps = [demo_step]\<rparr>) = Inr d \<and>
    mk_executive_decision ''r1'' ''owner'' Propose [ReadyForSafetyReview] proposal_explanation
      \<lparr>csv_digest = sha256_hex ''b'', csv_algorithm = ''sha256'', csv_schema_version = 1\<rparr>
      (sha_fingerprint FpRequest ''r1'') (sha_fingerprint FpCapabilityContract ''c'')
      [] [] [''c1''] [] [] (Some \<lparr>pl_steps = [demo_step]\<rparr>) = Inr d' \<and>
    ed_decision_id d = ed_decision_id d'"
proof -
  obtain d where d: "mk_executive_decision ''r1'' ''owner'' Propose [ReadyForSafetyReview]
      proposal_explanation \<lparr>csv_digest = sha256_hex ''a'', csv_algorithm = ''sha256'', csv_schema_version = 1\<rparr>
      (sha_fingerprint FpRequest ''r1'') (sha_fingerprint FpCapabilityContract ''c'')
      [] [] [''c1''] [] [] (Some \<lparr>pl_steps = [demo_step]\<rparr>) = Inr d"
    using demo_decision [of "sha_fingerprint FpCapabilityContract ''c''"] by fastforce
  obtain d' where d': "mk_executive_decision ''r1'' ''owner'' Propose [ReadyForSafetyReview]
      proposal_explanation \<lparr>csv_digest = sha256_hex ''b'', csv_algorithm = ''sha256'', csv_schema_version = 1\<rparr>
      (sha_fingerprint FpRequest ''r1'') (sha_fingerprint FpCapabilityContract ''c'')
      [] [] [''c1''] [] [] (Some \<lparr>pl_steps = [demo_step]\<rparr>) = Inr d'"
    using demo_decision [of "sha_fingerprint FpCapabilityContract ''c''"] by fastforce
  from decision_identity_scope [OF d d' refl] d d' show ?thesis by blast
qed

text \<open>
  The order in which a caller lists the invocations, context keys, constraints, approvals and
  assumptions of a request has no meaning: the constructor returns the same request, with the same
  fingerprint, or refuses both.
\<close>

theorem request_listing_irrelevant:
  assumes "mset invs = mset invs'" "mset req = mset req'" "mset opt = mset opt'"
    and "mset cons = mset cons'" "mset aps = mset aps'" "mset asms = mset asms'"
  shows "mk_executive_request i ob t invs req opt cons aps asms pol md =
         mk_executive_request i ob t invs' req' opt' cons' aps' asms' pol md"
  using assms by (rule mk_executive_request_perm)

lemma request_listing_irrelevant_witness:
  "mk_executive_request ''r1'' ''look'' ReqTask
      [demo_invocation, demo_invocation\<lparr>inv_step_id := ''s2''\<rparr>] [] [] [] [] [] PolicyDefer None =
   mk_executive_request ''r1'' ''look'' ReqTask
      [demo_invocation\<lparr>inv_step_id := ''s2''\<rparr>, demo_invocation] [] [] [] [] [] PolicyDefer None"
  by (rule request_listing_irrelevant) (simp_all add: add_mset_commute)

section \<open>Plans\<close>

text \<open>
  C6. A plan can be built from well-formed steps exactly when there are between one and 64 of them,
  with distinct identifiers, every dependency is a step of the plan and the dependencies have no
  cycle.
\<close>

theorem mk_plan_accepts_iff:
  assumes "list_all step_ok steps"
  shows "(\<exists>p. mk_plan steps = Inr p) \<longleftrightarrow>
    steps \<noteq> [] \<and> length steps \<le> 64 \<and> distinct (map ps_step_id steps) \<and>
    (\<forall>s \<in> set steps. set (ps_dependencies s) \<subseteq> ps_step_id ` set steps) \<and>
    acyclic {(x, ps_step_id s) | x s. s \<in> set steps \<and> x \<in> set (ps_dependencies s)}"
  (is "?l \<longleftrightarrow> ?r")
proof (cases "distinct (map ps_step_id steps)")
  case True
  note g = step_graph_proper [OF True assms]
  have needs: "needs (step_graph steps) (ps_step_id s) = set (ps_dependencies s)" if "s \<in> set steps" for s
    by (rule needs_item [OF g]) (use that in \<open>auto simp: step_graph_def\<close>)
  have closed: "closed_graph (step_graph steps) \<longleftrightarrow>
      (\<forall>s \<in> set steps. set (ps_dependencies s) \<subseteq> ps_step_id ` set steps)"
    by (auto simp: closed_graph_def needs)
  have rel: "dep_rel (step_graph steps) =
      {(x, ps_step_id s) | x s. s \<in> set steps \<and> x \<in> set (ps_dependencies s)}"
    using needs needs_node [of _ "step_graph steps"] by (fastforce simp: dep_rel_def)
  show ?thesis
  proof
    assume ?l
    then obtain order where size: "steps \<noteq> []" "length steps \<le> 64"
      and v: "validate_dependency_graph plan_invariant (step_graph steps) = Inr order"
      by (auto simp: mk_plan_def res_simps max_plan_steps_def)
    from exec_order.accepted [OF g v] have "closed_graph (step_graph steps)"
      "acyclic (dep_rel (step_graph steps))" by simp_all
    with size True show ?r unfolding closed rel by blast
  next
    assume ?r
    then show ?l
      using mk_plan_total [of steps] assms closed rel by (auto simp: max_plan_steps_def)
  qed
next
  case False
  then show ?thesis by (simp add: mk_plan_def card_image_length res_simps)
qed

lemma demo_step_ok [simp]: "step_ok demo_step"
  by (simp add: step_ok_def demo_step_def demo_params_ok keyed_ok_def)

lemma mk_plan_accepts_iff_witness: "\<exists>p. mk_plan [demo_step] = Inr p"
proof -
  have "list_all step_ok [demo_step]" by simp
  from mk_plan_accepts_iff [OF this] show ?thesis
    by (auto simp: demo_step_def acyclic_def)
qed

text \<open>
  C7. A plan holds exactly the given steps, each after the steps it depends on, and at every place
  the step with the smallest identifier among those whose dependencies have been placed: the order
  is a function of the set of steps.
\<close>

theorem mk_plan_order:
  assumes "mk_plan steps = Inr p" "list_all step_ok steps"
  shows "mset (pl_steps p) = mset steps \<and>
    (\<forall>xs s ys. pl_steps p = xs @ s # ys \<longrightarrow>
       set (ps_dependencies s) \<subseteq> ps_step_id ` set xs \<and>
       (\<forall>t \<in> set ys. set (ps_dependencies t) \<subseteq> ps_step_id ` set xs \<longrightarrow> ps_step_id s \<le> ps_step_id t))"
proof (intro conjI allI impI)
  note m = mk_plan_steps [OF assms]
  show "mset (pl_steps p) = mset steps" by (rule m(1))
  note g = step_graph_proper [OF m(2) assms(2)]
  have st: "set (pl_steps p) = set steps" using m(1) by (rule mset_eq_setD)
  have dp: "distinct (map ps_step_id (pl_steps p))"
    using m(1,2) by (metis mset_eq_imp_distinct_iff mset_map)
  have needs: "needs (step_graph steps) (ps_step_id s) = set (ps_dependencies s)" if "s \<in> set steps" for s
    by (rule needs_item [OF g]) (use that in \<open>auto simp: step_graph_def\<close>)
  fix xs s ys
  assume split: "pl_steps p = xs @ s # ys"
  have sf: "smallest_first (step_graph steps) (map ps_step_id (pl_steps p))"
    using m(3) validate_dependency_graph_Inr [OF g, of plan_invariant "map ps_step_id (pl_steps p)"]
    by simp
  then have ready: "ps_step_id s \<in> ready_set (step_graph steps) (ps_step_id ` set xs)"
    and least: "\<forall>t \<in> ready_set (step_graph steps) (ps_step_id ` set xs). ps_step_id s \<le> t"
    using smallest_first_at [of "step_graph steps" "map ps_step_id xs" "ps_step_id s"] split by simp_all
  show "set (ps_dependencies s) \<subseteq> ps_step_id ` set xs"
  proof -
    have "s \<in> set steps" using st split by auto
    with ready show ?thesis by (simp add: ready_set_def needs del: step_graph_nodes)
  qed
  show "\<forall>t \<in> set ys. set (ps_dependencies t) \<subseteq> ps_step_id ` set xs \<longrightarrow> ps_step_id s \<le> ps_step_id t"
  proof (intro ballI impI)
    fix t assume t: "t \<in> set ys" "set (ps_dependencies t) \<subseteq> ps_step_id ` set xs"
    have "t \<in> set steps" "ps_step_id t \<notin> ps_step_id ` set xs"
      using t(1) st dp split by auto
    with t(2) needs have "ps_step_id t \<in> ready_set (step_graph steps) (ps_step_id ` set xs)"
      by (simp add: ready_set_def)
    with least show "ps_step_id s \<le> ps_step_id t" by blast
  qed
qed

lemma mk_plan_order_witness:
  "mk_plan [demo_step] = Inr \<lparr>pl_steps = [demo_step]\<rparr> \<and> set (ps_dependencies demo_step) \<subseteq> {}"
  using mk_plan_order [OF demo_mk_plan] demo_mk_plan by force

section \<open>Parameters\<close>

text \<open>
  C8. An invocation's parameters are accepted exactly when they are bounded JSON, every required
  parameter is given, and every given parameter is declared and has the declared type.
\<close>

theorem parameters_accepted_iff:
  assumes "capability_ok d" "distinct (map fst kvs)"
  shows "validate_parameters d kvs = Inr () \<longleftrightarrow>
    validate_value exec_json_limits invalid_parameters (PDict kvs) = Inr () \<and>
    (\<forall>p \<in> set (cd_parameters d). pd_required p \<longrightarrow> KStr (pd_name p) \<in> fst ` set kvs) \<and>
    (\<forall>(k, v) \<in> set kvs. \<exists>p \<in> set (cd_parameters d).
        k = KStr (pd_name p) \<and> matches_parameter_type v (pd_value_type p))"
  using assms by (rule validate_parameters_Inr)

lemma parameters_accepted_iff_witness:
  "validate_parameters (demo_capability\<lparr>cd_parameters :=
       [\<lparr>pd_name = ''s1'', pd_value_type = ParInteger, pd_required = True\<rparr>]\<rparr>)
     [(KStr ''s1'', PBool True)] \<noteq> Inr ()"
proof -
  let ?d = "demo_capability\<lparr>cd_parameters :=
     [\<lparr>pd_name = ''s1'', pd_value_type = ParInteger, pd_required = True\<rparr>]\<rparr>"
  have "capability_ok ?d" by (simp add: capability_ok_def keyed_ok_def demo_capability_def)
  from parameters_accepted_iff [OF this, of "[(KStr ''s1'', PBool True)]"] show ?thesis by simp
qed

end
