(* ===== verification/Safety_Models.thy ===== *)
theory Safety_Models
  imports Exec_Decision
begin

text \<open>
  The leaf models of the Safety Kernel (\<open>safety_kernel/models.py\<close>, first half): enumerations and
  their ranks, text and identifier checks, fingerprints, the rules of a policy, approval
  requirements and unresolved prerequisites.
\<close>

section \<open>Limits\<close>

definition max_safety_items :: nat where "max_safety_items = 128"
definition max_safety_capabilities :: nat where "max_safety_capabilities = 256"
definition max_safety_steps :: nat where "max_safety_steps = 64"
definition max_safety_decision_items :: nat where "max_safety_decision_items = 512"
definition max_safety_aggregate_items :: nat where "max_safety_aggregate_items = 20000"
definition max_safety_text_length :: nat where "max_safety_text_length = 16384"
definition max_safety_identifier_length :: nat where "max_safety_identifier_length = 256"

definition safety_policy_version :: string where
  "safety_policy_version = ''ayyo.safety.policy.v1''"

definition safety_json_limits :: json_limits where
  "safety_json_limits = \<lparr>max_depth = 256, max_nodes = 10000, max_characters = 4000000\<rparr>"

definition safety_fingerprint_limits :: json_limits where
  "safety_fingerprint_limits = \<lparr>max_depth = 256, max_nodes = 250000, max_characters = 32000000\<rparr>"

section \<open>Enumerations\<close>

datatype safety_fingerprint_kind = SfPolicy | SfProposal | SfDecision

fun safety_fingerprint_kind_value :: "safety_fingerprint_kind \<Rightarrow> string" where
  "safety_fingerprint_kind_value SfPolicy = ''policy''"
| "safety_fingerprint_kind_value SfProposal = ''proposal''"
| "safety_fingerprint_kind_value SfDecision = ''decision''"

datatype safety_disposition =
    EligibleForDownstream | ExternalApprovalRequired | Deferred | Blocked

fun safety_disposition_value :: "safety_disposition \<Rightarrow> string" where
  "safety_disposition_value EligibleForDownstream = ''eligible_for_downstream''"
| "safety_disposition_value ExternalApprovalRequired = ''external_approval_required''"
| "safety_disposition_value Deferred = ''deferred''"
| "safety_disposition_value Blocked = ''blocked''"

fun disposition_rank :: "safety_disposition \<Rightarrow> nat" where
  "disposition_rank EligibleForDownstream = 0"
| "disposition_rank ExternalApprovalRequired = 1"
| "disposition_rank Deferred = 2"
| "disposition_rank Blocked = 3"

datatype hazard_class =
    InformationalReadOnly | InternalNonActuating | ExternalDigitalEffect | PhysicalMovement
  | PhysicalContact | PrivilegedHighImpact | EmergencySafetyCritical | Unclassified

fun hazard_class_value :: "hazard_class \<Rightarrow> string" where
  "hazard_class_value InformationalReadOnly = ''informational_read_only''"
| "hazard_class_value InternalNonActuating = ''internal_non_actuating''"
| "hazard_class_value ExternalDigitalEffect = ''external_digital_effect''"
| "hazard_class_value PhysicalMovement = ''physical_movement''"
| "hazard_class_value PhysicalContact = ''physical_contact''"
| "hazard_class_value PrivilegedHighImpact = ''privileged_high_impact''"
| "hazard_class_value EmergencySafetyCritical = ''emergency_safety_critical''"
| "hazard_class_value Unclassified = ''unclassified''"

definition hazard_classes :: "hazard_class list" where
  "hazard_classes = [InformationalReadOnly, InternalNonActuating, ExternalDigitalEffect,
     PhysicalMovement, PhysicalContact, PrivilegedHighImpact, EmergencySafetyCritical, Unclassified]"

datatype approval_class = ExecutiveDeclared | ExternalDigitalAction | PrivilegedApproval

fun approval_class_value :: "approval_class \<Rightarrow> string" where
  "approval_class_value ExecutiveDeclared = ''executive_declared''"
| "approval_class_value ExternalDigitalAction = ''external_digital_action''"
| "approval_class_value PrivilegedApproval = ''privileged_high_impact''"

datatype approval_source = FromExecutive | FromSafetyPolicy

fun approval_source_value :: "approval_source \<Rightarrow> string" where
  "approval_source_value FromExecutive = ''executive''"
| "approval_source_value FromSafetyPolicy = ''safety_policy''"

datatype prerequisite_kind =
    MotionSafetyEvaluation | ContactSafetyEvaluation | RequiredPrecondition | RequiredConstraint
  | RequiredContext | AssumptionVerification

fun prerequisite_kind_value :: "prerequisite_kind \<Rightarrow> string" where
  "prerequisite_kind_value MotionSafetyEvaluation = ''motion_safety_evaluation''"
| "prerequisite_kind_value ContactSafetyEvaluation = ''contact_safety_evaluation''"
| "prerequisite_kind_value RequiredPrecondition = ''required_precondition''"
| "prerequisite_kind_value RequiredConstraint = ''required_constraint''"
| "prerequisite_kind_value RequiredContext = ''required_context''"
| "prerequisite_kind_value AssumptionVerification = ''assumption_verification''"

datatype safety_reason =
    InformationalOperationEligible | InternalOperationEligible | ExternalEffectApprovalRequired
  | PrivilegedApprovalRequired | ExecutiveApprovalUnverified | PhysicalMovementUnavailable
  | PhysicalContactUnavailable | EmergencyOperationBlocked | UnknownCapabilityClass
  | CapabilityDeclarationConflict | RequiredSafetyMetadataMissing | RequiredContextUnavailable
  | UnverifiedAssumption

fun safety_reason_value :: "safety_reason \<Rightarrow> string" where
  "safety_reason_value InformationalOperationEligible = ''informational_operation_eligible''"
| "safety_reason_value InternalOperationEligible = ''internal_operation_eligible''"
| "safety_reason_value ExternalEffectApprovalRequired = ''external_effect_approval_required''"
| "safety_reason_value PrivilegedApprovalRequired = ''privileged_approval_required''"
| "safety_reason_value ExecutiveApprovalUnverified = ''executive_approval_unverified''"
| "safety_reason_value PhysicalMovementUnavailable = ''physical_movement_information_unavailable''"
| "safety_reason_value PhysicalContactUnavailable = ''physical_contact_information_unavailable''"
| "safety_reason_value EmergencyOperationBlocked = ''emergency_operation_blocked''"
| "safety_reason_value UnknownCapabilityClass = ''unknown_capability_class''"
| "safety_reason_value CapabilityDeclarationConflict = ''capability_declaration_conflict''"
| "safety_reason_value RequiredSafetyMetadataMissing = ''required_safety_metadata_missing''"
| "safety_reason_value RequiredContextUnavailable = ''required_context_unavailable''"
| "safety_reason_value UnverifiedAssumption = ''unverified_assumption''"

text \<open>The declaration order of \<open>SafetyReason\<close> and \<open>_REASON_RANK\<close>.\<close>

definition safety_reasons :: "safety_reason list" where
  "safety_reasons = [InformationalOperationEligible, InternalOperationEligible,
     ExternalEffectApprovalRequired, PrivilegedApprovalRequired, ExecutiveApprovalUnverified,
     PhysicalMovementUnavailable, PhysicalContactUnavailable, EmergencyOperationBlocked,
     UnknownCapabilityClass, CapabilityDeclarationConflict, RequiredSafetyMetadataMissing,
     RequiredContextUnavailable, UnverifiedAssumption]"

fun safety_reason_rank :: "safety_reason \<Rightarrow> nat" where
  "safety_reason_rank InformationalOperationEligible = 0"
| "safety_reason_rank InternalOperationEligible = 1"
| "safety_reason_rank ExternalEffectApprovalRequired = 2"
| "safety_reason_rank PrivilegedApprovalRequired = 3"
| "safety_reason_rank ExecutiveApprovalUnverified = 4"
| "safety_reason_rank PhysicalMovementUnavailable = 5"
| "safety_reason_rank PhysicalContactUnavailable = 6"
| "safety_reason_rank EmergencyOperationBlocked = 7"
| "safety_reason_rank UnknownCapabilityClass = 8"
| "safety_reason_rank CapabilityDeclarationConflict = 9"
| "safety_reason_rank RequiredSafetyMetadataMissing = 10"
| "safety_reason_rank RequiredContextUnavailable = 11"
| "safety_reason_rank UnverifiedAssumption = 12"

datatype safety_revalidation_status = SafetyCurrent | SafetyStale

datatype safety_revalidation_reason = ProposalChanged | PolicyChanged

fun safety_revalidation_rank :: "safety_revalidation_reason \<Rightarrow> nat" where
  "safety_revalidation_rank ProposalChanged = 0"
| "safety_revalidation_rank PolicyChanged = 1"

section \<open>The enumerations are ordered by their ranks\<close>

lemma disposition_rank_inject: "disposition_rank r = disposition_rank s \<longleftrightarrow> r = s"
  by (cases r; cases s; simp)

instantiation safety_disposition :: linorder
begin

definition less_eq_safety_disposition :: "safety_disposition \<Rightarrow> safety_disposition \<Rightarrow> bool" where
  "less_eq_safety_disposition r s \<longleftrightarrow> disposition_rank r \<le> disposition_rank s"

definition less_safety_disposition :: "safety_disposition \<Rightarrow> safety_disposition \<Rightarrow> bool" where
  "less_safety_disposition r s \<longleftrightarrow> disposition_rank r < disposition_rank s"

instance
  by standard (auto simp: less_eq_safety_disposition_def less_safety_disposition_def
      simp flip: disposition_rank_inject)

end

lemma safety_reason_rank_nth: "safety_reasons ! safety_reason_rank r = r"
  by (cases r) (simp_all add: safety_reasons_def)

lemma safety_reason_rank_inject: "safety_reason_rank r = safety_reason_rank s \<longleftrightarrow> r = s"
  by (metis safety_reason_rank_nth)

instantiation safety_reason :: linorder
begin

definition less_eq_safety_reason :: "safety_reason \<Rightarrow> safety_reason \<Rightarrow> bool" where
  "less_eq_safety_reason r s \<longleftrightarrow> safety_reason_rank r \<le> safety_reason_rank s"

definition less_safety_reason :: "safety_reason \<Rightarrow> safety_reason \<Rightarrow> bool" where
  "less_safety_reason r s \<longleftrightarrow> safety_reason_rank r < safety_reason_rank s"

instance
  by standard (auto simp: less_eq_safety_reason_def less_safety_reason_def
      simp flip: safety_reason_rank_inject)

end

lemma safety_revalidation_rank_inject:
  "safety_revalidation_rank r = safety_revalidation_rank s \<longleftrightarrow> r = s"
  by (cases r; cases s; simp)

instantiation safety_revalidation_reason :: linorder
begin

definition less_eq_safety_revalidation_reason ::
  "safety_revalidation_reason \<Rightarrow> safety_revalidation_reason \<Rightarrow> bool" where
  "less_eq_safety_revalidation_reason r s \<longleftrightarrow>
     safety_revalidation_rank r \<le> safety_revalidation_rank s"

definition less_safety_revalidation_reason ::
  "safety_revalidation_reason \<Rightarrow> safety_revalidation_reason \<Rightarrow> bool" where
  "less_safety_revalidation_reason r s \<longleftrightarrow>
     safety_revalidation_rank r < safety_revalidation_rank s"

instance
  by standard (auto simp: less_eq_safety_revalidation_reason_def
      less_safety_revalidation_reason_def simp flip: safety_revalidation_rank_inject)

end

text \<open>The members in declaration order are sorted: filtering them is sorting.\<close>

lemma safety_reasons_props [simp]:
  "set safety_reasons = UNIV" "distinct safety_reasons" "sorted safety_reasons"
proof -
  show "set safety_reasons = UNIV"
  proof (intro equalityI subsetI UNIV_I)
    show "r \<in> set safety_reasons" for r by (cases r) (simp_all add: safety_reasons_def)
  qed
qed (simp_all add: safety_reasons_def less_eq_safety_reason_def)

lemma hazard_classes_props [simp]: "set hazard_classes = UNIV" "distinct hazard_classes"
proof -
  show "set hazard_classes = UNIV"
  proof (intro equalityI subsetI UNIV_I)
    show "h \<in> set hazard_classes" for h by (cases h) (simp_all add: hazard_classes_def)
  qed
qed (simp add: hazard_classes_def)

section \<open>What a hazard class implies\<close>

text \<open>\<open>_HAZARD_BASE_REASON\<close> and \<open>_HAZARD_MINIMUM_DISPOSITION\<close>.\<close>

fun hazard_base_reason :: "hazard_class \<Rightarrow> safety_reason" where
  "hazard_base_reason InformationalReadOnly = InformationalOperationEligible"
| "hazard_base_reason InternalNonActuating = InternalOperationEligible"
| "hazard_base_reason ExternalDigitalEffect = ExternalEffectApprovalRequired"
| "hazard_base_reason PhysicalMovement = PhysicalMovementUnavailable"
| "hazard_base_reason PhysicalContact = PhysicalContactUnavailable"
| "hazard_base_reason PrivilegedHighImpact = PrivilegedApprovalRequired"
| "hazard_base_reason EmergencySafetyCritical = EmergencyOperationBlocked"
| "hazard_base_reason Unclassified = UnknownCapabilityClass"

fun hazard_minimum :: "hazard_class \<Rightarrow> safety_disposition" where
  "hazard_minimum InformationalReadOnly = EligibleForDownstream"
| "hazard_minimum InternalNonActuating = EligibleForDownstream"
| "hazard_minimum ExternalDigitalEffect = ExternalApprovalRequired"
| "hazard_minimum PhysicalMovement = Deferred"
| "hazard_minimum PhysicalContact = Deferred"
| "hazard_minimum PrivilegedHighImpact = ExternalApprovalRequired"
| "hazard_minimum EmergencySafetyCritical = Blocked"
| "hazard_minimum Unclassified = Blocked"

section \<open>Errors, texts and identifiers\<close>

abbreviation invalid_policy :: exn where "invalid_policy \<equiv> SafetyExn InvalidSafetyPolicyError"
abbreviation invalid_proposal :: exn where "invalid_proposal \<equiv> SafetyExn InvalidSafetyProposalError"
abbreviation safety_plan_invariant :: exn where
  "safety_plan_invariant \<equiv> SafetyExn SafetyPlanInvariantError"
abbreviation safety_decision_invariant :: exn where
  "safety_decision_invariant \<equiv> SafetyExn SafetyDecisionInvariantError"
abbreviation stale_decision :: exn where "stale_decision \<equiv> SafetyExn StaleSafetyDecisionError"

definition safety_text :: "'e \<Rightarrow> string \<Rightarrow> 'e + unit" where
  "safety_text e s =
     raise_if (s = []) e
    (raise_if (max_safety_text_length < length s) e
    (raise_if (py_strip s = []) e
    (raise_if (s \<noteq> py_strip s) e
    (raise_if (\<not> utf8_encodable s) e (Inr ())))))"

text \<open>\<open>_validate_identifier\<close> with its \<open>max_length\<close>.\<close>

definition safety_identifier :: "nat \<Rightarrow> 'e \<Rightarrow> string \<Rightarrow> 'e + string" where
  "safety_identifier max_length e s =
     tryE (safety_text e s) (\<lambda>_.
     raise_if (max_length < length s) e
    (raise_if (\<not> py_isalnum (hd s) \<or> list_ex (\<lambda>c. \<not> identifier_char c) s) e
    (Inr s)))"

lemma safety_text_eq [simp]: "safety_text e s = validate_text e s"
  unfolding safety_text_def validate_text_def max_safety_text_length_def max_text_length_def ..

lemma safety_identifier_eq [simp]: "safety_identifier max_safety_identifier_length e s = identifier_key e s"
  unfolding safety_identifier_def identifier_key_def safety_text_eq
    max_safety_identifier_length_def max_identifier_length_def ..

text \<open>An identifier that may be longer, as that of a capability rule.\<close>

definition long_identifier_ok :: "nat \<Rightarrow> string \<Rightarrow> bool" where
  "long_identifier_ok n s \<longleftrightarrow>
     text_ok s \<and> length s \<le> n \<and> py_isalnum (hd s) \<and> list_all identifier_char s"

lemma safety_identifier_long:
  "safety_identifier n e s = (if long_identifier_ok n s then Inr s else Inl e)"
  by (auto simp: safety_identifier_def long_identifier_ok_def raise_if_def list_all_iff list_ex_iff)

definition identifier_tuple :: "nat \<Rightarrow> 'e \<Rightarrow> string list \<Rightarrow> 'e + string list" where
  "identifier_tuple max_length e vals =
     raise_if (max_safety_items < length vals) e
    (tryE (for_each (\<lambda>v. tryE (safety_identifier max_length e v) (\<lambda>_. Inr ())) vals) (\<lambda>_.
     let ordered = sorted_set vals in
     raise_if (length ordered \<noteq> length vals) e (Inr ordered)))"

lemma for_each_check:
  "for_each (\<lambda>v. tryE (if P v then Inr v else Inl e) (\<lambda>_. Inr ())) xs =
     (if list_all P xs then Inr () else Inl e)"
  by (induction xs) auto

lemma identifier_tuple_eq:
  "identifier_tuple n e vals =
     (if length vals \<le> 128 \<and> list_all (long_identifier_ok n) vals \<and> distinct vals
      then Inr (sorted_set vals) else Inl e)"
  by (simp add: identifier_tuple_def safety_identifier_long for_each_check max_safety_items_def
      Let_def length_sorted_set raise_if_def)

lemma long_identifier_256 [simp]: "long_identifier_ok 256 s = identifier_ok s"
  by (simp add: long_identifier_ok_def identifier_ok_def max_identifier_length_def)

section \<open>Fingerprints\<close>

record safety_fingerprint =
  sf_kind :: safety_fingerprint_kind
  sf_digest :: string
  sf_algorithm :: string
  sf_schema_version :: int

definition mk_safety_fingerprint ::
  "safety_fingerprint_kind \<Rightarrow> string \<Rightarrow> string \<Rightarrow> int \<Rightarrow> safety_fingerprint res" where
  "mk_safety_fingerprint kind digest algorithm schema =
     raise_if (algorithm \<noteq> ''sha256'') safety_decision_invariant
    (raise_if (schema \<noteq> 1) safety_decision_invariant
    (raise_if (\<not> hex_digest_ok digest) safety_decision_invariant
    (Inr \<lparr>sf_kind = kind, sf_digest = digest, sf_algorithm = algorithm,
          sf_schema_version = schema\<rparr>)))"

definition safety_fingerprint_str :: "safety_fingerprint \<Rightarrow> string" where
  "safety_fingerprint_str f =
     safety_fingerprint_kind_value (sf_kind f) @ '':sha256:'' @ sf_digest f"

definition safety_fingerprint_document ::
  "safety_fingerprint_kind \<Rightarrow> exn \<Rightarrow> pyval \<Rightarrow> safety_fingerprint res" where
  "safety_fingerprint_document kind e document =
     tryE (canonicalize_value safety_fingerprint_limits e document) (\<lambda>canonical.
     mk_safety_fingerprint kind (sha256_hex canonical) ''sha256'' 1)"

definition safety_sha :: "safety_fingerprint_kind \<Rightarrow> string \<Rightarrow> safety_fingerprint" where
  "safety_sha kind s =
     \<lparr>sf_kind = kind, sf_digest = sha256_hex s, sf_algorithm = ''sha256'', sf_schema_version = 1\<rparr>"

lemma safety_sha_fields [simp]:
  "sf_kind (safety_sha k s) = k" "sf_digest (safety_sha k s) = sha256_hex s"
  by (simp_all add: safety_sha_def)

lemma safety_fingerprint_document_eq:
  "safety_fingerprint_document kind e document =
     tryE (validate_value safety_fingerprint_limits e document) (\<lambda>_.
     Inr (safety_sha kind (canon document)))"
  by (cases "validate_value safety_fingerprint_limits e document")
    (simp_all add: safety_fingerprint_document_def canonicalize_value_canon
      mk_safety_fingerprint_def safety_sha_def)

lemma safety_fingerprint_document_Inr:
  "safety_fingerprint_document kind e document = Inr f \<longleftrightarrow>
     validate_value safety_fingerprint_limits e document = Inr () \<and>
     f = safety_sha kind (canon document)"
  by (auto simp: safety_fingerprint_document_eq res_simps)

section \<open>The rules of a policy\<close>

record capability_rule =
  sr_capability_id :: string
  sr_hazard_class :: hazard_class
  sr_required_preconditions :: "string list"
  sr_required_constraints :: "string list"

definition mk_capability_rule ::
  "string \<Rightarrow> hazard_class \<Rightarrow> string list \<Rightarrow> string list \<Rightarrow> capability_rule res" where
  "mk_capability_rule capability_id hazard preconditions cons =
     tryE (safety_identifier max_safety_identifier_length invalid_policy capability_id) (\<lambda>i.
     raise_if (hazard = Unclassified) invalid_policy
    (tryE (identifier_tuple max_safety_identifier_length invalid_policy preconditions) (\<lambda>pres.
     tryE (identifier_tuple max_safety_identifier_length invalid_policy cons) (\<lambda>cs.
     Inr \<lparr>sr_capability_id = i, sr_hazard_class = hazard, sr_required_preconditions = pres,
          sr_required_constraints = cs\<rparr>))))"

definition rule_id :: "capability_rule \<Rightarrow> string" where
  "rule_id r = ''capability.'' @ sr_capability_id r"

record prerequisite_definition =
  pqd_kind :: prerequisite_kind
  pqd_prerequisite_id :: string
  pqd_description :: string

definition mk_prerequisite_definition ::
  "prerequisite_kind \<Rightarrow> string \<Rightarrow> string \<Rightarrow> prerequisite_definition res" where
  "mk_prerequisite_definition kind i description =
     tryE (safety_identifier max_safety_identifier_length invalid_policy i) (\<lambda>_.
     tryE (safety_text invalid_policy description) (\<lambda>_.
     Inr \<lparr>pqd_kind = kind, pqd_prerequisite_id = i, pqd_description = description\<rparr>))"

record hazard_rule =
  hr_rule_id :: string
  hr_hazard_class :: hazard_class
  hr_disposition :: safety_disposition
  hr_reason :: safety_reason
  hr_approval_class :: "approval_class option"
  hr_prerequisites :: "prerequisite_definition list"

text \<open>\<open>HazardRule.__post_init__\<close>: the frozen record is checked after its fields are set.\<close>

definition check_hazard_rule :: "hazard_rule \<Rightarrow> hazard_rule res" where
  "check_hazard_rule r =
     tryE (safety_identifier max_safety_identifier_length invalid_policy (hr_rule_id r)) (\<lambda>_.
     let keys = map (\<lambda>p. (prerequisite_kind_value (pqd_kind p), pqd_prerequisite_id p))
                  (hr_prerequisites r) in
     raise_if (keys \<noteq> sorted_set keys) invalid_policy
    (raise_if ((hr_disposition r = ExternalApprovalRequired) \<noteq> (hr_approval_class r \<noteq> None))
       invalid_policy
    (raise_if ((hr_disposition r = Deferred) \<noteq> (hr_prerequisites r \<noteq> [])) invalid_policy
    (Inr r))))"

section \<open>Approvals and prerequisites of a step\<close>

record safety_approval =
  sa_approval_class :: approval_class
  sa_source :: approval_source
  sa_requirement_id :: string
  sa_description :: string
  sa_affected_step :: string

definition check_safety_approval :: "safety_approval \<Rightarrow> safety_approval res" where
  "check_safety_approval a =
     tryE (safety_identifier max_safety_identifier_length safety_decision_invariant
             (sa_requirement_id a)) (\<lambda>_.
     tryE (safety_identifier max_safety_identifier_length safety_decision_invariant
             (sa_affected_step a)) (\<lambda>_.
     tryE (safety_text safety_decision_invariant (sa_description a)) (\<lambda>_. Inr a)))"

definition approval_key :: "safety_approval \<Rightarrow> string \<times> string \<times> string \<times> string" where
  "approval_key a = (sa_affected_step a, approval_source_value (sa_source a),
     approval_class_value (sa_approval_class a), sa_requirement_id a)"

record safety_prerequisite =
  sp_kind :: prerequisite_kind
  sp_prerequisite_id :: string
  sp_description :: string
  sp_affected_step :: string

definition check_safety_prerequisite :: "safety_prerequisite \<Rightarrow> safety_prerequisite res" where
  "check_safety_prerequisite p =
     tryE (safety_identifier max_safety_identifier_length safety_decision_invariant
             (sp_prerequisite_id p)) (\<lambda>_.
     tryE (safety_identifier max_safety_identifier_length safety_decision_invariant
             (sp_affected_step p)) (\<lambda>_.
     tryE (safety_text safety_decision_invariant (sp_description p)) (\<lambda>_. Inr p)))"

definition prerequisite_key :: "safety_prerequisite \<Rightarrow> string \<times> string \<times> string" where
  "prerequisite_key p =
     (sp_affected_step p, prerequisite_kind_value (sp_kind p), sp_prerequisite_id p)"

definition safety_approval_ok :: "safety_approval \<Rightarrow> bool" where
  "safety_approval_ok a \<longleftrightarrow> identifier_ok (sa_requirement_id a) \<and>
     identifier_ok (sa_affected_step a) \<and> text_ok (sa_description a)"

definition safety_prerequisite_ok :: "safety_prerequisite \<Rightarrow> bool" where
  "safety_prerequisite_ok p \<longleftrightarrow> identifier_ok (sp_prerequisite_id p) \<and>
     identifier_ok (sp_affected_step p) \<and> text_ok (sp_description p)"

definition capability_rule_ok :: "capability_rule \<Rightarrow> bool" where
  "capability_rule_ok r \<longleftrightarrow>
     identifier_ok (sr_capability_id r) \<and> sr_hazard_class r \<noteq> Unclassified \<and>
     length (sr_required_preconditions r) \<le> 128 \<and> sorted (sr_required_preconditions r) \<and>
     distinct (sr_required_preconditions r) \<and> list_all identifier_ok (sr_required_preconditions r) \<and>
     length (sr_required_constraints r) \<le> 128 \<and> sorted (sr_required_constraints r) \<and>
     distinct (sr_required_constraints r) \<and> list_all identifier_ok (sr_required_constraints r)"

lemma check_safety_approval_eq:
  "check_safety_approval a =
     (if safety_approval_ok a then Inr a else Inl safety_decision_invariant)"
  by (simp add: check_safety_approval_def safety_approval_ok_def)

lemma check_safety_prerequisite_eq:
  "check_safety_prerequisite p =
     (if safety_prerequisite_ok p then Inr p else Inl safety_decision_invariant)"
  by (simp add: check_safety_prerequisite_def safety_prerequisite_ok_def)

lemma mk_capability_rule_ok: "mk_capability_rule i h ps cs = Inr r \<Longrightarrow> capability_rule_ok r"
  by (auto simp: mk_capability_rule_def res_simps identifier_tuple_eq capability_rule_ok_def
      max_safety_identifier_length_def list_all_iff safety_identifier_long distinct_card [symmetric]
      intro: order_trans [OF length_sorted_set_le] split: if_splits)

lemma prerequisite_kind_value_inject:
  "prerequisite_kind_value j = prerequisite_kind_value k \<longleftrightarrow> j = k"
  by (cases j; cases k; simp)

lemma approval_source_value_inject:
  "approval_source_value r = approval_source_value s \<longleftrightarrow> r = s"
  by (cases r; cases s; simp)

lemma hazard_class_value_inject: "hazard_class_value r = hazard_class_value s \<longleftrightarrow> r = s"
  by (cases r; cases s; simp)

end
