(* ===== verification/Safety_Policy.thy ===== *)
theory Safety_Policy
  imports Safety_Models Json_Bounds
begin

text \<open>
  The immutable policy of the Safety Kernel (\<open>safety_kernel/policy.py\<close>): the eight hazard rules of
  version 1, the capability rules given to the constructor, their documents and fingerprint, and
  the two lookups.
\<close>

section \<open>The hazard rules of version 1\<close>

definition motion_prerequisite :: prerequisite_definition where
  "motion_prerequisite =
     \<lparr>pqd_kind = MotionSafetyEvaluation, pqd_prerequisite_id = ''motion-safety-evaluation'',
      pqd_description = ''A downstream motion-safety subsystem must evaluate the proposed '' @
        ''movement against current robot and environment state.''\<rparr>"

definition contact_prerequisite :: prerequisite_definition where
  "contact_prerequisite =
     \<lparr>pqd_kind = ContactSafetyEvaluation, pqd_prerequisite_id = ''contact-safety-evaluation'',
      pqd_description = ''A downstream contact-safety subsystem must evaluate the proposed '' @
        ''contact against current robot, human, object, and environment state.''\<rparr>"

definition v1_hazard_rules :: "hazard_rule list" where
  "v1_hazard_rules = [
     \<lparr>hr_rule_id = ''hazard.emergency-safety-critical'', hr_hazard_class = EmergencySafetyCritical,
      hr_disposition = Blocked, hr_reason = EmergencyOperationBlocked,
      hr_approval_class = None, hr_prerequisites = []\<rparr>,
     \<lparr>hr_rule_id = ''hazard.external-digital-effect'', hr_hazard_class = ExternalDigitalEffect,
      hr_disposition = ExternalApprovalRequired, hr_reason = ExternalEffectApprovalRequired,
      hr_approval_class = Some ExternalDigitalAction, hr_prerequisites = []\<rparr>,
     \<lparr>hr_rule_id = ''hazard.informational-read-only'', hr_hazard_class = InformationalReadOnly,
      hr_disposition = EligibleForDownstream, hr_reason = InformationalOperationEligible,
      hr_approval_class = None, hr_prerequisites = []\<rparr>,
     \<lparr>hr_rule_id = ''hazard.internal-non-actuating'', hr_hazard_class = InternalNonActuating,
      hr_disposition = EligibleForDownstream, hr_reason = InternalOperationEligible,
      hr_approval_class = None, hr_prerequisites = []\<rparr>,
     \<lparr>hr_rule_id = ''hazard.physical-contact'', hr_hazard_class = PhysicalContact,
      hr_disposition = Deferred, hr_reason = PhysicalContactUnavailable,
      hr_approval_class = None, hr_prerequisites = [contact_prerequisite]\<rparr>,
     \<lparr>hr_rule_id = ''hazard.physical-movement'', hr_hazard_class = PhysicalMovement,
      hr_disposition = Deferred, hr_reason = PhysicalMovementUnavailable,
      hr_approval_class = None, hr_prerequisites = [motion_prerequisite]\<rparr>,
     \<lparr>hr_rule_id = ''hazard.privileged-high-impact'', hr_hazard_class = PrivilegedHighImpact,
      hr_disposition = ExternalApprovalRequired, hr_reason = PrivilegedApprovalRequired,
      hr_approval_class = Some PrivilegedApproval, hr_prerequisites = []\<rparr>,
     \<lparr>hr_rule_id = ''hazard.unclassified'', hr_hazard_class = Unclassified,
      hr_disposition = Blocked, hr_reason = UnknownCapabilityClass,
      hr_approval_class = None, hr_prerequisites = []\<rparr>]"

section \<open>Documents\<close>

definition approval_class_json :: "approval_class option \<Rightarrow> pyval" where
  "approval_class_json a = (case a of None \<Rightarrow> PNone | Some c \<Rightarrow> PStr (approval_class_value c))"

definition hazard_rule_document :: "hazard_rule \<Rightarrow> pyval" where
  "hazard_rule_document r =
     obj [(''approval_class'', approval_class_json (hr_approval_class r)),
          (''disposition'', PStr (safety_disposition_value (hr_disposition r))),
          (''hazard_class'', PStr (hazard_class_value (hr_hazard_class r))),
          (''prerequisites'', PList (map (\<lambda>p.
             obj [(''description'', PStr (pqd_description p)),
                  (''kind'', PStr (prerequisite_kind_value (pqd_kind p))),
                  (''prerequisite_id'', PStr (pqd_prerequisite_id p))]) (hr_prerequisites r))),
          (''reason'', PStr (safety_reason_value (hr_reason r))),
          (''rule_id'', PStr (hr_rule_id r))]"

definition capability_rule_document :: "capability_rule \<Rightarrow> pyval" where
  "capability_rule_document r =
     obj [(''capability_id'', PStr (sr_capability_id r)),
          (''hazard_class'', PStr (hazard_class_value (sr_hazard_class r))),
          (''required_constraint_ids'', str_list (sr_required_constraints r)),
          (''required_precondition_ids'', str_list (sr_required_preconditions r)),
          (''rule_id'', PStr (rule_id r))]"

section \<open>The policy\<close>

record safety_policy =
  sy_version :: string
  sy_capability_rules :: "capability_rule list"
  sy_hazard_rules :: "hazard_rule list"
  sy_fingerprint :: safety_fingerprint

definition policy_document :: "capability_rule list \<Rightarrow> hazard_rule list \<Rightarrow> pyval" where
  "policy_document capability_rules hazard_rules =
     obj [(''capability_rules'', PList (map capability_rule_document capability_rules)),
          (''hazard_rules'', PList (map hazard_rule_document hazard_rules)),
          (''schema'', PStr ''ayyo.safety.policy.v1''),
          (''version'', PStr safety_policy_version)]"

definition mk_safety_policy :: "capability_rule list \<Rightarrow> safety_policy res" where
  "mk_safety_policy rules =
     raise_if (max_safety_capabilities < length rules) invalid_policy
    (let ordered = sort_key sr_capability_id rules in
     raise_if (has_dup (map sr_capability_id ordered)) invalid_policy
    (let hazards = sort_key (\<lambda>r. hazard_class_value (hr_hazard_class r)) v1_hazard_rules;
         classes = map hr_hazard_class hazards in
     raise_if (set classes \<noteq> set hazard_classes \<or> length classes \<noteq> length hazard_classes)
       invalid_policy
    (tryE (safety_fingerprint_document SfPolicy invalid_policy (policy_document ordered hazards))
       (\<lambda>fingerprint.
     Inr \<lparr>sy_version = safety_policy_version, sy_capability_rules = ordered,
          sy_hazard_rules = hazards, sy_fingerprint = fingerprint\<rparr>))))"

definition policy_capability_rule :: "safety_policy \<Rightarrow> string \<Rightarrow> capability_rule option res" where
  "policy_capability_rule policy capability_id =
     tryE (safety_identifier max_safety_identifier_length invalid_policy capability_id) (\<lambda>i.
     Inr (index_get sr_capability_id (sy_capability_rules policy) i))"

definition policy_hazard_rule :: "safety_policy \<Rightarrow> hazard_class \<Rightarrow> hazard_rule res" where
  "policy_hazard_rule policy hazard =
     dict_item (index_get hr_hazard_class (sy_hazard_rules policy) hazard)"

section \<open>What a constructed policy guarantees\<close>

definition policy_ok :: "safety_policy \<Rightarrow> bool" where
  "policy_ok y \<longleftrightarrow>
     sy_version y = safety_policy_version \<and>
     length (sy_capability_rules y) \<le> max_safety_capabilities \<and>
     sorted (map sr_capability_id (sy_capability_rules y)) \<and>
     distinct (map sr_capability_id (sy_capability_rules y)) \<and>
     list_all capability_rule_ok (sy_capability_rules y) \<and>
     sy_hazard_rules y = sort_key (\<lambda>r. hazard_class_value (hr_hazard_class r)) v1_hazard_rules \<and>
     sf_kind (sy_fingerprint y) = SfPolicy"

lemma v1_classes [simp]:
  "set (map hr_hazard_class v1_hazard_rules) = UNIV" "distinct (map hr_hazard_class v1_hazard_rules)"
proof -
  have "set (map hr_hazard_class v1_hazard_rules) = set hazard_classes"
    by (auto simp: v1_hazard_rules_def hazard_classes_def)
  then show "set (map hr_hazard_class v1_hazard_rules) = UNIV" by simp
qed (simp add: v1_hazard_rules_def)

text \<open>The completeness check of the constructor always passes: the rules cover every class once.\<close>

lemma mk_safety_policy_eq:
  "mk_safety_policy rules =
     raise_if (256 < length rules \<or> \<not> distinct (map sr_capability_id rules)) invalid_policy
    (let ordered = sort_key sr_capability_id rules;
         hazards = sort_key (\<lambda>r. hazard_class_value (hr_hazard_class r)) v1_hazard_rules in
     tryE (safety_fingerprint_document SfPolicy invalid_policy (policy_document ordered hazards))
       (\<lambda>fingerprint.
     Inr \<lparr>sy_version = safety_policy_version, sy_capability_rules = ordered,
          sy_hazard_rules = hazards, sy_fingerprint = fingerprint\<rparr>))"
proof -
  have "hr_hazard_class ` set v1_hazard_rules = UNIV" using v1_classes(1) by simp
  moreover have "length v1_hazard_rules = length hazard_classes"
    by (simp add: v1_hazard_rules_def hazard_classes_def)
  ultimately show ?thesis
    by (simp add: mk_safety_policy_def Let_def max_safety_capabilities_def raise_if_def)
qed

lemma mk_safety_policy_ok:
  "mk_safety_policy rules = Inr y \<Longrightarrow> list_all capability_rule_ok rules \<Longrightarrow> policy_ok y"
  by (auto simp: mk_safety_policy_eq Let_def res_simps safety_fingerprint_document_Inr policy_ok_def
      max_safety_capabilities_def list_all_iff)

text \<open>The order in which the rules are given is not semantic.\<close>

lemma mk_safety_policy_perm:
  assumes "mset rules = mset rules'"
  shows "mk_safety_policy rules = mk_safety_policy rules'"
proof -
  have "length rules = length rules'" "set rules = set rules'"
    using assms by (auto dest: mset_eq_length mset_eq_setD)
  moreover have "distinct (map sr_capability_id rules) = distinct (map sr_capability_id rules')"
    using assms by (metis mset_eq_imp_distinct_iff mset_map)
  ultimately show ?thesis
    using sort_key_unique [of sr_capability_id rules rules']
    by (auto simp: mk_safety_policy_eq raise_if_def)
qed

section \<open>Lookups\<close>

text \<open>The rule of every hazard class.\<close>

definition v1_rule :: "hazard_class \<Rightarrow> hazard_rule" where
  "v1_rule h = the (index_get hr_hazard_class v1_hazard_rules h)"

lemma v1_rule_simps [simp]:
  "hr_hazard_class (v1_rule h) = h" "hr_disposition (v1_rule h) = hazard_minimum h"
  "hr_reason (v1_rule h) = hazard_base_reason h" "identifier_ok (hr_rule_id (v1_rule h))"
  "list_all (\<lambda>p. identifier_ok (pqd_prerequisite_id p) \<and> text_ok (pqd_description p))
     (hr_prerequisites (v1_rule h))"
  "hr_approval_class (v1_rule h) \<noteq> Some ExecutiveDeclared"
  "hr_prerequisites (v1_rule h) \<noteq> [] \<longleftrightarrow> hazard_minimum h = Deferred"
  "hr_approval_class (v1_rule h) \<noteq> None \<longleftrightarrow> hazard_minimum h = ExternalApprovalRequired"
  "length (hr_prerequisites (v1_rule h)) \<le> 1"
  "\<forall>p \<in> set (hr_prerequisites (v1_rule h)). pqd_kind p \<in> {MotionSafetyEvaluation, ContactSafetyEvaluation}"
  by (cases h; simp add: v1_rule_def v1_hazard_rules_def index_get_def identifier_evals
      motion_prerequisite_def contact_prerequisite_def)+

lemma policy_hazard_rule_v1: "policy_ok y \<Longrightarrow> policy_hazard_rule y h = Inr (v1_rule h)"
proof -
  assume y: "policy_ok y"
  have d: "distinct (map hr_hazard_class (sy_hazard_rules y))"
    using y by (simp add: policy_ok_def)
  have "h \<in> set (map hr_hazard_class v1_hazard_rules)" using v1_classes(1) by simp
  then obtain r where "r \<in> set v1_hazard_rules" "hr_hazard_class r = h" by auto
  then have "index_get hr_hazard_class v1_hazard_rules h = Some r"
    "index_get hr_hazard_class (sy_hazard_rules y) h = Some r"
    using index_get_Some [OF v1_classes(2)] index_get_Some [OF d] y by (simp_all add: policy_ok_def)
  then show ?thesis by (simp add: policy_hazard_rule_def v1_rule_def dict_item_def)
qed

lemma policy_capability_rule_eq:
  "policy_ok y \<Longrightarrow> identifier_ok i \<Longrightarrow>
   policy_capability_rule y i = Inr (index_get sr_capability_id (sy_capability_rules y) i)"
  by (simp add: policy_capability_rule_def)

lemma policy_rule_in:
  "policy_ok y \<Longrightarrow> index_get sr_capability_id (sy_capability_rules y) i = Some r \<Longrightarrow>
   capability_rule_ok r \<and> sr_capability_id r = i"
  by (auto simp: policy_ok_def list_all_iff dest: index_get_in)

text \<open>Every hazard rule of version 1 passes its own constructor.\<close>

lemma v1_rules_valid: "r \<in> set v1_hazard_rules \<Longrightarrow> check_hazard_rule r = Inr r"
  by (auto simp: v1_hazard_rules_def check_hazard_rule_def identifier_evals)

section \<open>The fingerprint bound is large enough for every policy\<close>

lemma hazard_class_value_length: "length (hazard_class_value h) \<le> 25"
  by (cases h) simp_all

lemma capability_rule_fits:
  assumes "capability_rule_ok r"
  shows "fits 2 262 66164 (capability_rule_document r)"
proof -
  let ?pre = "str_list (sr_required_preconditions r)" and ?con = "str_list (sr_required_constraints r)"
  have i: "length (sr_capability_id r) \<le> 256"
    using assms by (simp add: capability_rule_ok_def identifier_ok_def max_identifier_length_def)
  have "fits 1 129 32768 ?pre" "fits 1 129 32768 ?con"
    using fits_str_list [of "sr_required_preconditions r" 256 128 0]
      fits_str_list [of "sr_required_constraints r" 256 128 0] assms
    by (auto simp: capability_rule_ok_def list_all_iff identifier_ok_def max_identifier_length_def)
  then have "node_count ?pre \<le> 129" "char_count ?pre \<le> 32768" "scalars_ok ?pre" "depth_within 1 ?pre"
    "node_count ?con \<le> 129" "char_count ?con \<le> 32768" "scalars_ok ?con" "depth_within 1 ?con"
    by (simp_all add: fits_def)
  with i have "fits (Suc 1) 262 66164 (capability_rule_document r)"
    using hazard_class_value_length [of "sr_hazard_class r"]
    unfolding capability_rule_document_def fits_obj by (simp add: rule_id_def)
  then show ?thesis by (simp add: numeral_2_eq_2)
qed

lemma hazard_rule_fits: "r \<in> set v1_hazard_rules \<Longrightarrow> fits 4 20 1000 (hazard_rule_document r)"
  by (auto simp: v1_hazard_rules_def hazard_rule_document_def fits_def obj_def approval_class_json_def
      motion_prerequisite_def contact_prerequisite_def)

lemma policy_document_valid:
  assumes "list_all capability_rule_ok rules" "length rules \<le> 256"
    and "set hazards = set v1_hazard_rules" "length hazards = 8"
  shows "validate_value safety_fingerprint_limits e (policy_document rules hazards) = Inr ()"
proof -
  let ?c = "PList (map capability_rule_document rules)" and ?h = "PList (map hazard_rule_document hazards)"
  have "fits (Suc 2) (Suc (256 * 262)) (256 * 66164) ?c"
    using capability_rule_fits assms(1,2) by (intro fits_map_list) (auto simp: list_all_iff)
  then have "fits 5 67073 16937984 ?c" by (rule fits_mono) simp_all
  moreover have "fits (Suc 4) (Suc (8 * 20)) (8 * 1000) ?h"
    using hazard_rule_fits assms(3,4) by (intro fits_map_list) auto
  then have "fits 5 161 8000 ?h" by (rule fits_mono) simp_all
  ultimately have "fits (Suc 5) 70000 17000000 (policy_document rules hazards)"
    unfolding policy_document_def fits_obj by (simp add: fits_def safety_policy_version_def)
  then show ?thesis
    by (rule fits_validate) (simp_all add: safety_fingerprint_limits_def)
qed

end
