(* ===== verification/Safety_Decision.thy ===== *)
theory Safety_Decision
  imports Safety_Policy
begin

text \<open>
  Decisions of the Safety Kernel and their revalidation (\<open>safety_kernel/models.py\<close>, second half):
  the invariants of a step decision, the aggregate decision with its content fingerprint, and the
  comparison of provenance.
\<close>

section \<open>Step decisions\<close>

definition ordered_objects :: "('a \<Rightarrow> 'k::linorder) \<Rightarrow> 'a list \<Rightarrow> 'a list res" where
  "ordered_objects key vals =
     raise_if (max_safety_decision_items < length vals) safety_decision_invariant
    (let ordered = sort_key key vals; keys = map key ordered in
     raise_if (has_dup keys) safety_decision_invariant (Inr ordered))"

interpretation ordered_objects: ordered_unique "ordered_objects key" key 512 safety_decision_invariant
  for key :: "'a \<Rightarrow> 'k::linorder"
  by unfold_locales (simp add: ordered_objects_def max_safety_decision_items_def Let_def raise_if_def)

record step_decision =
  sd_step_id :: string
  sd_capability_id :: string
  sd_hazard_class :: hazard_class
  sd_disposition :: safety_disposition
  sd_reason_codes :: "safety_reason list"
  sd_policy_rules :: "string list"
  sd_required_approvals :: "safety_approval list"
  sd_prerequisites :: "safety_prerequisite list"

definition blocking_reasons :: "safety_reason set" where
  "blocking_reasons = {EmergencyOperationBlocked, UnknownCapabilityClass,
     CapabilityDeclarationConflict, RequiredSafetyMetadataMissing}"

definition approval_reasons :: "safety_reason set" where
  "approval_reasons =
     {ExternalEffectApprovalRequired, PrivilegedApprovalRequired, ExecutiveApprovalUnverified}"

definition defer_reasons :: "safety_reason set" where
  "defer_reasons = {PhysicalMovementUnavailable, PhysicalContactUnavailable,
     RequiredContextUnavailable, UnverifiedAssumption}"

definition mk_step_decision ::
  "string \<Rightarrow> string \<Rightarrow> hazard_class \<Rightarrow> safety_disposition \<Rightarrow> safety_reason list \<Rightarrow> string list \<Rightarrow>
   safety_approval list \<Rightarrow> safety_prerequisite list \<Rightarrow> step_decision res" where
  "mk_step_decision step_id capability_id hazard disposition reasons rules approvals prerequisites =
     tryE (safety_identifier max_safety_identifier_length safety_decision_invariant step_id) (\<lambda>_.
     tryE (safety_identifier max_safety_identifier_length safety_decision_invariant capability_id)
       (\<lambda>_.
     raise_if (reasons = []) safety_decision_invariant
    (raise_if (reasons \<noteq> sorted_set reasons) safety_decision_invariant
    (tryE (identifier_tuple (max_safety_identifier_length + length ''capability.'')
             safety_decision_invariant rules) (\<lambda>rules.
     raise_if (rules = []) safety_decision_invariant
    (tryE (ordered_objects approval_key approvals) (\<lambda>approvals.
     tryE (ordered_objects prerequisite_key prerequisites) (\<lambda>prerequisites.
     raise_if (list_ex (\<lambda>a. sa_affected_step a \<noteq> step_id) approvals) safety_decision_invariant
    (raise_if (list_ex (\<lambda>p. sp_affected_step p \<noteq> step_id) prerequisites) safety_decision_invariant
    (raise_if (disposition = EligibleForDownstream \<and> (approvals \<noteq> [] \<or> prerequisites \<noteq> []))
       safety_decision_invariant
    (raise_if (disposition = ExternalApprovalRequired \<and> (approvals = [] \<or> prerequisites \<noteq> []))
       safety_decision_invariant
    (raise_if (disposition = Deferred \<and> prerequisites = []) safety_decision_invariant
    (raise_if (disposition = Blocked \<and> set reasons \<inter> blocking_reasons = {})
       safety_decision_invariant
    (raise_if (hazard = Unclassified \<and>
         (disposition \<noteq> Blocked \<or> UnknownCapabilityClass \<notin> set reasons)) safety_decision_invariant
    (raise_if (hazard_base_reason hazard \<notin> set reasons) safety_decision_invariant
    (raise_if (disposition_rank disposition < disposition_rank (hazard_minimum hazard))
       safety_decision_invariant
    (raise_if (disposition = ExternalApprovalRequired \<and> set reasons \<inter> approval_reasons = {})
       safety_decision_invariant
    (raise_if (disposition = Deferred \<and> set reasons \<inter> defer_reasons = {})
       safety_decision_invariant
    (Inr \<lparr>sd_step_id = step_id, sd_capability_id = capability_id, sd_hazard_class = hazard,
          sd_disposition = disposition, sd_reason_codes = reasons, sd_policy_rules = rules,
          sd_required_approvals = approvals,
          sd_prerequisites = prerequisites\<rparr>)))))))))))))))))))"

text \<open>What every step decision satisfies, whoever constructed it.\<close>

definition step_decision_ok :: "step_decision \<Rightarrow> bool" where
  "step_decision_ok s \<longleftrightarrow>
     identifier_ok (sd_step_id s) \<and> identifier_ok (sd_capability_id s) \<and>
     sd_reason_codes s \<noteq> [] \<and> sorted (sd_reason_codes s) \<and> distinct (sd_reason_codes s) \<and>
     sd_policy_rules s \<noteq> [] \<and> sorted (sd_policy_rules s) \<and> distinct (sd_policy_rules s) \<and>
     (\<forall>a \<in> set (sd_required_approvals s). sa_affected_step a = sd_step_id s) \<and>
     (\<forall>p \<in> set (sd_prerequisites s). sp_affected_step p = sd_step_id s) \<and>
     sorted (map approval_key (sd_required_approvals s)) \<and>
     distinct (map approval_key (sd_required_approvals s)) \<and>
     sorted (map prerequisite_key (sd_prerequisites s)) \<and>
     distinct (map prerequisite_key (sd_prerequisites s)) \<and>
     hazard_minimum (sd_hazard_class s) \<le> sd_disposition s \<and>
     hazard_base_reason (sd_hazard_class s) \<in> set (sd_reason_codes s) \<and>
     (sd_disposition s = EligibleForDownstream \<longrightarrow>
        sd_required_approvals s = [] \<and> sd_prerequisites s = []) \<and>
     (sd_disposition s = ExternalApprovalRequired \<longrightarrow>
        sd_required_approvals s \<noteq> [] \<and> sd_prerequisites s = [] \<and>
        set (sd_reason_codes s) \<inter> approval_reasons \<noteq> {}) \<and>
     (sd_disposition s = Deferred \<longrightarrow>
        sd_prerequisites s \<noteq> [] \<and> set (sd_reason_codes s) \<inter> defer_reasons \<noteq> {}) \<and>
     (sd_disposition s = Blocked \<longrightarrow> set (sd_reason_codes s) \<inter> blocking_reasons \<noteq> {}) \<and>
     (sd_hazard_class s = Unclassified \<longrightarrow>
        sd_disposition s = Blocked \<and> UnknownCapabilityClass \<in> set (sd_reason_codes s))"

lemma disposition_less_eq: "disposition_rank d < disposition_rank d' \<longleftrightarrow> \<not> d' \<le> d"
  by (simp add: less_eq_safety_disposition_def not_le)

lemma mk_step_decision_ok:
  assumes "mk_step_decision i c h d rs rules aps ps = Inr s"
  shows "step_decision_ok s"
proof -
  obtain aps' ps' rules' where
    "ordered_objects approval_key aps = Inr aps'" "ordered_objects prerequisite_key ps = Inr ps'"
    "s = \<lparr>sd_step_id = i, sd_capability_id = c, sd_hazard_class = h, sd_disposition = d,
       sd_reason_codes = rs, sd_policy_rules = rules', sd_required_approvals = aps',
       sd_prerequisites = ps'\<rparr>"
    "identifier_tuple (max_safety_identifier_length + length ''capability.'')
       safety_decision_invariant rules = Inr rules'"
    using assms by (auto simp: mk_step_decision_def res_simps)
  with assms show ?thesis
    by (auto simp: mk_step_decision_def res_simps step_decision_ok_def identifier_tuple_eq
        disposition_less_eq list_ex_iff ordered_objects.build_Inr_iff split: if_splits)
qed

section \<open>Decisions\<close>

definition safety_approval_document :: "safety_approval \<Rightarrow> pyval" where
  "safety_approval_document a =
     obj [(''affected_step_id'', PStr (sa_affected_step a)),
          (''approval_class'', PStr (approval_class_value (sa_approval_class a))),
          (''description'', PStr (sa_description a)),
          (''requirement_id'', PStr (sa_requirement_id a)),
          (''source'', PStr (approval_source_value (sa_source a)))]"

definition safety_prerequisite_document :: "safety_prerequisite \<Rightarrow> pyval" where
  "safety_prerequisite_document p =
     obj [(''affected_step_id'', PStr (sp_affected_step p)),
          (''description'', PStr (sp_description p)),
          (''kind'', PStr (prerequisite_kind_value (sp_kind p))),
          (''prerequisite_id'', PStr (sp_prerequisite_id p))]"

definition step_decision_document :: "step_decision \<Rightarrow> pyval" where
  "step_decision_document s =
     obj [(''capability_id'', PStr (sd_capability_id s)),
          (''disposition'', PStr (safety_disposition_value (sd_disposition s))),
          (''hazard_class'', PStr (hazard_class_value (sd_hazard_class s))),
          (''reason_codes'', str_list (map safety_reason_value (sd_reason_codes s))),
          (''required_approvals'',
             PList (map safety_approval_document (sd_required_approvals s))),
          (''step_id'', PStr (sd_step_id s)),
          (''triggering_policy_rules'', str_list (sd_policy_rules s)),
          (''unresolved_prerequisites'',
             PList (map safety_prerequisite_document (sd_prerequisites s)))]"

record safety_decision =
  yd_decision_id :: string
  yd_disposition :: safety_disposition
  yd_reason_codes :: "safety_reason list"
  yd_source_decision_id :: string
  yd_source_request_id :: string
  yd_owner_subject :: string
  yd_source_decision_fingerprint :: exec_fingerprint
  yd_policy_version :: string
  yd_policy_fingerprint :: safety_fingerprint
  yd_proposal_fingerprint :: safety_fingerprint
  yd_decision_fingerprint :: safety_fingerprint
  yd_step_decisions :: "step_decision list"
  yd_required_approvals :: "safety_approval list"
  yd_prerequisites :: "safety_prerequisite list"

text \<open>\<open>max(..., key=_DISPOSITION_RANK.get)\<close> of a non-empty tuple.\<close>

definition strongest :: "safety_disposition list \<Rightarrow> safety_disposition" where
  "strongest ds = fold max (tl ds) (hd ds)"

definition decision_reasons :: "step_decision list \<Rightarrow> safety_reason list" where
  "decision_reasons steps = sorted_set (concat (map sd_reason_codes steps))"

definition decision_approvals :: "step_decision list \<Rightarrow> safety_approval list" where
  "decision_approvals steps =
     sort_key approval_key (remdups (concat (map sd_required_approvals steps)))"

definition decision_prerequisites :: "step_decision list \<Rightarrow> safety_prerequisite list" where
  "decision_prerequisites steps =
     sort_key prerequisite_key (remdups (concat (map sd_prerequisites steps)))"

definition safety_decision_document ::
  "string \<Rightarrow> string \<Rightarrow> string \<Rightarrow> exec_fingerprint \<Rightarrow> string \<Rightarrow> safety_fingerprint \<Rightarrow>
   safety_fingerprint \<Rightarrow> step_decision list \<Rightarrow> pyval" where
  "safety_decision_document source_id request_id owner source_fp version policy_fp proposal_fp steps =
     obj [(''disposition'',
             PStr (safety_disposition_value (strongest (map sd_disposition steps)))),
          (''owner_subject'', PStr owner),
          (''policy_fingerprint'', PStr (safety_fingerprint_str policy_fp)),
          (''policy_version'', PStr version),
          (''proposal_fingerprint'', PStr (safety_fingerprint_str proposal_fp)),
          (''reason_codes'', str_list (map safety_reason_value (decision_reasons steps))),
          (''required_approvals'',
             PList (map safety_approval_document (decision_approvals steps))),
          (''schema'', PStr ''ayyo.safety.decision.v1''),
          (''source_decision_fingerprint'', PStr (fingerprint_str source_fp)),
          (''source_decision_id'', PStr source_id),
          (''source_request_id'', PStr request_id),
          (''step_decisions'', PList (map step_decision_document steps)),
          (''unresolved_prerequisites'',
             PList (map safety_prerequisite_document (decision_prerequisites steps)))]"

definition mk_safety_decision ::
  "string \<Rightarrow> string \<Rightarrow> string \<Rightarrow> exec_fingerprint \<Rightarrow> string \<Rightarrow> safety_fingerprint \<Rightarrow>
   safety_fingerprint \<Rightarrow> step_decision list \<Rightarrow> safety_decision res" where
  "mk_safety_decision source_id request_id owner source_fp version policy_fp proposal_fp steps =
     tryE (for_each (safety_text safety_decision_invariant) [source_id, request_id, owner, version])
       (\<lambda>_.
     raise_if (version \<noteq> safety_policy_version) safety_decision_invariant
    (raise_if (fp_kind source_fp \<noteq> FpDecision) safety_decision_invariant
    (raise_if (sf_kind policy_fp \<noteq> SfPolicy) safety_decision_invariant
    (raise_if (sf_kind proposal_fp \<noteq> SfProposal) safety_decision_invariant
    (raise_if (steps = []) safety_decision_invariant
    (raise_if (max_safety_steps < length steps) safety_decision_invariant
    (raise_if (has_dup (map sd_step_id steps)) safety_decision_invariant
    (raise_if (max_safety_aggregate_items < length (decision_approvals steps))
       safety_decision_invariant
    (raise_if (max_safety_aggregate_items < length (decision_prerequisites steps))
       safety_decision_invariant
    (tryE (safety_fingerprint_document SfDecision safety_decision_invariant
             (safety_decision_document source_id request_id owner source_fp version policy_fp
                proposal_fp steps)) (\<lambda>fingerprint.
     Inr \<lparr>yd_decision_id = ''safety-decision-'' @ sf_digest fingerprint,
          yd_disposition = strongest (map sd_disposition steps),
          yd_reason_codes = decision_reasons steps,
          yd_source_decision_id = source_id, yd_source_request_id = request_id,
          yd_owner_subject = owner, yd_source_decision_fingerprint = source_fp,
          yd_policy_version = version, yd_policy_fingerprint = policy_fp,
          yd_proposal_fingerprint = proposal_fp, yd_decision_fingerprint = fingerprint,
          yd_step_decisions = steps, yd_required_approvals = decision_approvals steps,
          yd_prerequisites = decision_prerequisites steps\<rparr>)))))))))))"

lemma strongest_Max: "ds \<noteq> [] \<Longrightarrow> strongest ds = Max (set ds)"
  unfolding strongest_def by (metis Max.set_eq_fold list.collapse)

lemma strongest_le: "d \<in> set ds \<Longrightarrow> d \<le> strongest ds"
  by (cases "ds = []") (simp_all add: strongest_Max)

lemma strongest_in: "ds \<noteq> [] \<Longrightarrow> strongest ds \<in> set ds"
  by (simp add: strongest_Max)

lemma mk_safety_decision_Inr:
  "mk_safety_decision sid rid owner sfp ver yfp pfp steps = Inr d \<Longrightarrow>
     text_ok sid \<and> text_ok rid \<and> text_ok owner \<and> ver = safety_policy_version \<and>
     fp_kind sfp = FpDecision \<and> sf_kind yfp = SfPolicy \<and> sf_kind pfp = SfProposal \<and>
     steps \<noteq> [] \<and> length steps \<le> max_safety_steps \<and> distinct (map sd_step_id steps) \<and>
     (\<exists>doc. doc = safety_decision_document sid rid owner sfp ver yfp pfp steps \<and>
        validate_value safety_fingerprint_limits safety_decision_invariant doc = Inr () \<and>
        yd_decision_fingerprint d = safety_sha SfDecision (canon doc) \<and>
        yd_decision_id d = ''safety-decision-'' @ sha256_hex (canon doc)) \<and>
     yd_disposition d = strongest (map sd_disposition steps) \<and>
     yd_reason_codes d = decision_reasons steps \<and>
     yd_source_decision_id d = sid \<and> yd_source_request_id d = rid \<and> yd_owner_subject d = owner \<and>
     yd_source_decision_fingerprint d = sfp \<and> yd_policy_version d = ver \<and>
     yd_policy_fingerprint d = yfp \<and> yd_proposal_fingerprint d = pfp \<and>
     yd_step_decisions d = steps \<and> yd_required_approvals d = decision_approvals steps \<and>
     yd_prerequisites d = decision_prerequisites steps"
  by (auto simp: mk_safety_decision_def res_simps safety_fingerprint_document_Inr not_less
      split: if_splits)

text \<open>
  The aggregates: the approvals and the prerequisites of a decision are exactly those of its steps,
  and their keys are distinct, because a key names its step.
\<close>

lemma decision_approvals_set [simp]:
  "set (decision_approvals steps) = (\<Union>s \<in> set steps. set (sd_required_approvals s))"
  by (simp add: decision_approvals_def)

lemma decision_prerequisites_set [simp]:
  "set (decision_prerequisites steps) = (\<Union>s \<in> set steps. set (sd_prerequisites s))"
  by (simp add: decision_prerequisites_def)

lemma decision_reasons_set [simp]:
  "set (decision_reasons steps) = (\<Union>s \<in> set steps. set (sd_reason_codes s))"
  by (simp add: decision_reasons_def)

lemma aggregate_distinct:
  assumes "\<And>s. s \<in> set steps \<Longrightarrow> distinct (map key (items s))"
    and "\<And>s x. s \<in> set steps \<Longrightarrow> x \<in> set (items s) \<Longrightarrow> step (key x) = sid s"
    and "distinct (map sid steps)"
  shows "distinct (map key (concat (map items steps)))"
  using assms
proof (induction steps)
  case (Cons s steps)
  have "key x \<noteq> key y" if x: "x \<in> set (items s)" and t: "t \<in> set steps" and y: "y \<in> set (items t)" for x y t
  proof
    assume "key x = key y"
    then have "sid s = sid t" using Cons.prems(2) [of s x] Cons.prems(2) [of t y] x y t by simp
    with Cons.prems(3) t show False by (metis distinct.simps(2) image_eqI list.set_map list.simps(9))
  qed
  then have "set (map key (items s)) \<inter> set (map key (concat (map items steps))) = {}"
    by fastforce
  with Cons show ?case by simp
qed simp

lemma decision_keys_distinct:
  assumes "list_all step_decision_ok steps" "distinct (map sd_step_id steps)"
  shows "distinct (map approval_key (decision_approvals steps))"
    "distinct (map prerequisite_key (decision_prerequisites steps))"
proof -
  have "distinct (map approval_key (concat (map sd_required_approvals steps)))"
    using assms by (intro aggregate_distinct [of steps approval_key sd_required_approvals fst sd_step_id])
      (auto simp: list_all_iff step_decision_ok_def approval_key_def)
  then show "distinct (map approval_key (decision_approvals steps))"
    by (simp add: decision_approvals_def distinct_map)
  have "distinct (map prerequisite_key (concat (map sd_prerequisites steps)))"
    using assms by (intro aggregate_distinct [of steps prerequisite_key sd_prerequisites fst sd_step_id])
      (auto simp: list_all_iff step_decision_ok_def prerequisite_key_def)
  then show "distinct (map prerequisite_key (decision_prerequisites steps))"
    by (simp add: decision_prerequisites_def distinct_map)
qed

section \<open>Revalidation\<close>

record safety_revalidation =
  sv_decision_id :: string
  sv_status :: safety_revalidation_status
  sv_reasons :: "safety_revalidation_reason list"
  sv_prior_proposal_fingerprint :: safety_fingerprint
  sv_current_proposal_fingerprint :: safety_fingerprint
  sv_prior_policy_fingerprint :: safety_fingerprint
  sv_current_policy_fingerprint :: safety_fingerprint

definition safety_expected_reasons :: "safety_revalidation \<Rightarrow> safety_revalidation_reason set" where
  "safety_expected_reasons r =
     (if sv_prior_proposal_fingerprint r \<noteq> sv_current_proposal_fingerprint r
      then {ProposalChanged} else {}) \<union>
     (if sv_prior_policy_fingerprint r \<noteq> sv_current_policy_fingerprint r
      then {PolicyChanged} else {})"

definition check_safety_revalidation :: "safety_revalidation \<Rightarrow> safety_revalidation res" where
  "check_safety_revalidation r =
     tryE (safety_text safety_decision_invariant (sv_decision_id r)) (\<lambda>_.
     raise_if (sv_reasons r \<noteq> sorted_set (sv_reasons r)) safety_decision_invariant
    (raise_if (\<not> list_all (\<lambda>(f, kind). sf_kind f = kind)
        [(sv_prior_proposal_fingerprint r, SfProposal),
         (sv_current_proposal_fingerprint r, SfProposal),
         (sv_prior_policy_fingerprint r, SfPolicy),
         (sv_current_policy_fingerprint r, SfPolicy)]) safety_decision_invariant
    (raise_if (set (sv_reasons r) \<noteq> safety_expected_reasons r) safety_decision_invariant
    (raise_if ((sv_status r = SafetyCurrent) \<noteq> (safety_expected_reasons r = {}))
       safety_decision_invariant (Inr r)))))"

definition assert_current :: "safety_revalidation \<Rightarrow> unit res" where
  "assert_current r = raise_if (sv_status r = SafetyStale) stale_decision (Inr ())"

lemma safety_current_or_stale: "s \<noteq> SafetyCurrent \<longleftrightarrow> s = SafetyStale"
  by (cases s) simp_all

end
