(* ===== verification/Safety_Order.thy ===== *)
theory Safety_Order
  imports Exec_Order
begin

text \<open>
  \<open>_topological_steps\<close> of \<open>safety_kernel/proposal.py\<close>: the plan steps layer by layer, each layer
  sorted by identifier.  The Safety Kernel orders the steps again instead of trusting the order of
  the plan; the sort meets the contract \<open>topological\<close> of the Executive's sort, so the two
  packages accept the same dependency graphs.
\<close>

section \<open>The algorithm\<close>

text \<open>\<open>dependencies.difference_update(ready)\<close> of the steps that remain after a layer.\<close>

definition drop_layer :: "string list \<Rightarrow> dep_graph \<Rightarrow> dep_graph" where
  "drop_layer ready remaining =
     map (\<lambda>(s, ds). (s, filter (\<lambda>d. d \<notin> set ready) ds))
       (filter (\<lambda>(s, ds). s \<notin> set ready) remaining)"

definition layer :: "dep_graph \<Rightarrow> string list" where
  "layer remaining = sort (map fst (filter (\<lambda>(s, ds). ds = []) remaining))"

lemma layer_members: "s \<in> set (layer remaining) \<longleftrightarrow> (s, []) \<in> set remaining"
  by (force simp: layer_def)

lemma length_drop_layer:
  assumes "layer remaining \<noteq> []"
  shows "length (drop_layer (layer remaining) remaining) < length remaining"
proof -
  obtain s where "s \<in> set (layer remaining)"
    using assms by (cases "layer remaining") auto
  then have "(s, []) \<in> set remaining" "s \<in> set (layer remaining)"
    by (simp_all add: layer_members)
  then show ?thesis
    by (auto simp: drop_layer_def intro!: length_filter_less)
qed

text \<open>The \<open>while remaining\<close> loop.\<close>

function layer_loop :: "'e \<Rightarrow> dep_graph \<Rightarrow> string list \<Rightarrow> 'e + string list" where
  "layer_loop e remaining ordered =
     (if remaining = [] then Inr ordered
      else let ready = layer remaining in
        raise_if (ready = []) e
       (layer_loop e (drop_layer ready remaining) (ordered @ ready)))"
  by pat_completeness auto

termination layer_loop
  by (relation "measure (\<lambda>(e, remaining, ordered). length remaining)")
    (simp_all add: length_drop_layer)

declare layer_loop.simps [simp del]

definition topological_steps :: "'e \<Rightarrow> dep_graph \<Rightarrow> 'e + string list" where
  "topological_steps e g =
     raise_if (card (set (node_ids g)) \<noteq> length g) e
    (raise_if (list_ex (\<lambda>(s, ds). \<not> set ds \<subseteq> set (node_ids g)) g) e
    (layer_loop e (map (\<lambda>(s, ds). (s, remdups ds)) g) []))"

section \<open>The invariant of the loop\<close>

text \<open>
  The remaining steps are the nodes that are not ordered yet, and what they still wait for is what
  they need of those.
\<close>

definition layer_inv :: "dep_graph \<Rightarrow> dep_graph \<Rightarrow> string list \<Rightarrow> bool" where
  "layer_inv g remaining ordered \<longleftrightarrow>
     distinct (map fst remaining) \<and> distinct ordered \<and> deps_first g ordered \<and>
     fst ` set remaining = set (node_ids g) - set ordered \<and> set ordered \<subseteq> set (node_ids g) \<and>
     (\<forall>(s, ds) \<in> set remaining. set ds = needs g s - set ordered)"

lemma layer_inv_init:
  assumes "proper g"
  shows "layer_inv g (map (\<lambda>(s, ds). (s, remdups ds)) g) []"
proof -
  have [simp]: "map fst (map (\<lambda>(s, ds). (s, remdups ds)) g) = map fst g"
    by (simp add: case_prod_unfold)
  have "fst ` (\<lambda>(s, ds). (s, remdups ds)) ` set g = fst ` set g"
    by (force simp: image_image)
  then show ?thesis
    using assms needs_item [OF assms]
    by (auto simp: layer_inv_def proper_def node_ids_def simp del: map_map)
qed

lemma drop_layer_members:
  "(s, ds) \<in> set (drop_layer ready remaining) \<longleftrightarrow>
     s \<notin> set ready \<and> (\<exists>ds'. (s, ds') \<in> set remaining \<and> ds = filter (\<lambda>d. d \<notin> set ready) ds')"
  by (force simp: drop_layer_def)

lemma map_fst_drop_layer:
  "map fst (drop_layer ready remaining) = filter (\<lambda>s. s \<notin> set ready) (map fst remaining)"
  by (induction remaining) (auto simp: drop_layer_def)

lemma layer_inv_step:
  assumes "layer_inv g remaining ordered"
  shows "layer_inv g (drop_layer (layer remaining) remaining) (ordered @ layer remaining)"
proof -
  let ?r = "layer remaining"
  have ids: "distinct (map fst remaining)" "fst ` set remaining = set (node_ids g) - set ordered"
    and ord: "distinct ordered" "deps_first g ordered" "set ordered \<subseteq> set (node_ids g)"
    and wait: "\<And>s ds. (s, ds) \<in> set remaining \<Longrightarrow> set ds = needs g s - set ordered"
    using assms by (auto simp: layer_inv_def)
  have sub: "set ?r \<subseteq> fst ` set remaining"
    by (force simp: layer_members)
  have "distinct ?r"
    using ids(1) by (auto simp: layer_def distinct_map intro: inj_on_subset)
  moreover have "needs g s \<subseteq> set ordered" if "s \<in> set ?r" for s
    using wait [of s "[]"] that by (auto simp: layer_members)
  ultimately have "distinct (ordered @ ?r)" "deps_first g (ordered @ ?r)"
    using sub ids(2) ord by (auto intro: deps_first_append)
  moreover have "fst ` set (drop_layer ?r remaining) = fst ` set remaining - set ?r"
    using arg_cong [OF map_fst_drop_layer [of ?r remaining], of set] by auto
  moreover have "set ds = needs g s - set (ordered @ ?r)"
    if "(s, ds) \<in> set (drop_layer ?r remaining)" for s ds
    using that wait by (auto simp: drop_layer_members)
  ultimately show ?thesis
    using ids ord(3) sub by (auto simp: layer_inv_def map_fst_drop_layer)
qed

lemma layer_loop_sound:
  "layer_inv g remaining ordered \<Longrightarrow> layer_loop e remaining ordered = Inr xs \<Longrightarrow> topo_sorted g xs"
proof (induction e remaining ordered rule: layer_loop.induct)
  case (1 e remaining ordered)
  show ?case
  proof (cases "remaining = []")
    case True
    with "1.prems"(2) have "xs = ordered" by (simp add: layer_loop.simps [of e "[]"])
    with True "1.prems"(1) show ?thesis by (auto simp: layer_inv_def topo_sorted_def)
  next
    case False
    with "1.prems" have "layer remaining \<noteq> []"
      "layer_loop e (drop_layer (layer remaining) remaining) (ordered @ layer remaining) = Inr xs"
      by (simp_all add: layer_loop.simps [of e remaining] Let_def raise_if_Inr)
    with False "1.IH" layer_inv_step [OF "1.prems"(1)] show ?thesis by simp
  qed
qed

lemma layer_loop_complete:
  "layer_inv g remaining ordered \<Longrightarrow> closed_graph g \<Longrightarrow> acyclic (dep_rel g) \<Longrightarrow>
   \<exists>xs. layer_loop e remaining ordered = Inr xs"
proof (induction e remaining ordered rule: layer_loop.induct)
  case (1 e remaining ordered)
  show ?case
  proof (cases "remaining = []")
    case False
    let ?R = "fst ` set remaining"
    have R: "?R = set (node_ids g) - set ordered"
      and wait: "\<And>s ds. (s, ds) \<in> set remaining \<Longrightarrow> set ds = needs g s - set ordered"
      using "1.prems"(1) by (auto simp: layer_inv_def)
    obtain s where s: "s \<in> ?R" "needs g s \<inter> ?R = {}"
      using acyclic_step_ready [OF "1.prems"(2,3), of ?R] R False by blast
    then obtain ds where ds: "(s, ds) \<in> set remaining" by auto
    have "needs g s \<subseteq> set (node_ids g)"
      using "1.prems"(2) R s(1) by (auto simp: closed_graph_def)
    with s(2) R wait [OF ds] have "set ds = {}" by auto
    with ds have "s \<in> set (layer remaining)" by (simp add: layer_members)
    then have "layer remaining \<noteq> []" by auto
    with False "1.IH" layer_inv_step [OF "1.prems"(1)] "1.prems"(2,3) show ?thesis
      by (simp add: layer_loop.simps [of e remaining] Let_def)
  qed (simp add: layer_loop.simps [of e "[]"])
qed

section \<open>The sort meets the contract\<close>

lemma topological_steps_proper:
  "proper g \<Longrightarrow> topological_steps e g =
     raise_if (\<not> closed_graph g) e (layer_loop e (map (\<lambda>(s, ds). (s, remdups ds)) g) [])"
proof -
  assume g: "proper g"
  then have "card (set (node_ids g)) = length g"
    using distinct_card [of "map fst g"] by (simp add: proper_def node_ids_def)
  moreover have "list_ex (\<lambda>(s, ds). \<not> set ds \<subseteq> set (node_ids g)) g \<longleftrightarrow> \<not> closed_graph g"
    using needs_item [OF g] by (force simp: list_ex_iff closed_graph_def node_ids_def)
  ultimately show ?thesis by (simp add: topological_steps_def)
qed

interpretation safety_order: topological "topological_steps e" for e
proof
  show "topo_sorted g xs" if "proper g" "topological_steps e g = Inr xs" for g xs
    using that layer_loop_sound [OF layer_inv_init [OF that(1)], of e xs]
    by (simp add: topological_steps_proper raise_if_Inr)
  show "\<exists>xs. topological_steps e g = Inr xs"
    if "proper g" "closed_graph g" "acyclic (dep_rel g)" for g
    using that layer_loop_complete [OF layer_inv_init] by (simp add: topological_steps_proper)
qed

interpretation plan_sorts: topological_pair "validate_dependency_graph e" "topological_steps f"
  for e :: 'e and f :: 'f ..

lemma topological_steps_Inl: "topological_steps e g = Inl x \<Longrightarrow> x = e"
proof -
  have "x = e" if "layer_loop e r xs = Inl x" for r xs
    using that by (induction e r xs rule: layer_loop.induct)
      (subst (asm) (2) layer_loop.simps, auto simp: Let_def raise_if_Inl split: if_splits)
  then show "topological_steps e g = Inl x \<Longrightarrow> x = e"
    by (auto simp: topological_steps_def raise_if_Inl split: if_splits)
qed

end
