(* ===== verification/Safety_Proposal.thy ===== *)
theory Safety_Proposal
  imports Safety_Models Safety_Order
begin

text \<open>
  The Safety Kernel's own copy of an Executive decision (\<open>safety_kernel/proposal.py\<close>).  Nothing the
  Executive's constructors have checked is relied on: \<open>snapshot_proposal\<close> takes any record of the
  type, checks every text, tuple and relation again, sorts the plan again, rebuilds the decision and
  compares its fingerprint.
\<close>

section \<open>Texts, tuples, fingerprints\<close>

definition max_proposal_steps :: nat where "max_proposal_steps = 64"
definition max_proposal_items :: nat where "max_proposal_items = 128"

definition context_domain_names :: "string list" where
  "context_domain_names =
     [''preference'', ''procedural'', ''semantic'', ''social'', ''spatial'']"

definition context_state_names :: "string list" where
  "context_state_names = [''conflicted'', ''resolved'', ''unknown'']"

definition proposal_text :: "string \<Rightarrow> unit res" where
  "proposal_text s =
     raise_if (s = [] \<or> py_strip s = [] \<or> s \<noteq> py_strip s \<or> 16384 < length s) invalid_proposal
    (raise_if (\<not> utf8_encodable s) invalid_proposal (Inr ()))"

definition proposal_identifier :: "string \<Rightarrow> string res" where
  "proposal_identifier s =
     tryE (proposal_text s) (\<lambda>_.
     raise_if (256 < length s \<or> \<not> py_isalnum (hd s) \<or> list_ex (\<lambda>c. \<not> identifier_char c) s)
       invalid_proposal (Inr s))"

definition typed_items :: "'a list \<Rightarrow> 'a list res" where
  "typed_items vals = raise_if (max_proposal_items < length vals) invalid_proposal (Inr vals)"

definition proposal_fingerprint :: "fingerprint_kind \<Rightarrow> exec_fingerprint \<Rightarrow> exec_fingerprint res" where
  "proposal_fingerprint kind f =
     raise_if (fp_kind f \<noteq> kind) invalid_proposal
    (raise_if (fp_algorithm f \<noteq> ''sha256'' \<or> fp_schema_version f \<noteq> 1) invalid_proposal
    (raise_if (\<not> hex_digest_ok (fp_digest f)) invalid_proposal (Inr f)))"

definition unique_ordered :: "('a \<Rightarrow> 'k::linorder) \<Rightarrow> 'a list \<Rightarrow> 'a list res" where
  "unique_ordered key vals =
     raise_if (has_dup (map key vals)) invalid_proposal (Inr (sort_key key vals))"

text \<open>\<open>copy_json\<close> of the Safety Kernel on a tree: the value itself once it is validated.\<close>

definition safety_copy :: "exn \<Rightarrow> pyval \<Rightarrow> pyval res" where
  "safety_copy e v = tryE (validate_value safety_json_limits e v) (\<lambda>_. Inr v)"

definition safety_canonicalize :: "exn \<Rightarrow> pyval \<Rightarrow> string res" where
  "safety_canonicalize e v = canonicalize_value safety_json_limits e v"

section \<open>Snapshots of the parts\<close>

record approval_snapshot =
  ns_approval_id :: string
  ns_approval_description :: string

record assumption_snapshot =
  ns_assumption_id :: string
  ns_assumption_description :: string

record precondition_snapshot =
  ns_precondition_id :: string
  ns_precondition_description :: string

record constraint_snapshot =
  ns_constraint_id :: string
  ns_constraint_description :: string
  ns_constraint_parameters :: string

record requirement_snapshot =
  ns_domain :: string
  ns_predicate :: string

record reference_snapshot =
  ns_requirement :: requirement_snapshot
  ns_required :: bool
  ns_state :: string
  ns_value_digests :: "string list"
  ns_memory_ids :: "string list"
  ns_conflict_ids :: "string list"

record step_snapshot =
  ns_step_id :: string
  ns_capability_id :: string
  ns_parameters :: string
  ns_dependencies :: "string list"
  ns_preconditions :: "precondition_snapshot list"
  ns_required_context :: "requirement_snapshot list"
  ns_required_approvals :: "approval_snapshot list"
  ns_constraints :: "constraint_snapshot list"
  ns_expected_result :: expected_result
  ns_failure_policy :: failure_policy

text \<open>The \<open>key\<close> properties.\<close>

definition approval_snapshot_key :: "approval_snapshot \<Rightarrow> string \<times> string" where
  "approval_snapshot_key a = (ns_approval_id a, ns_approval_description a)"

definition constraint_snapshot_key :: "constraint_snapshot \<Rightarrow> string \<times> string \<times> string" where
  "constraint_snapshot_key c =
     (ns_constraint_id c, ns_constraint_description c, ns_constraint_parameters c)"

definition requirement_snapshot_key :: "requirement_snapshot \<Rightarrow> string \<times> string" where
  "requirement_snapshot_key r = (ns_domain r, ns_predicate r)"

definition reference_snapshot_key :: "reference_snapshot \<Rightarrow> nat \<times> string \<times> string" where
  "reference_snapshot_key r =
     (if ns_required r then 0 else 1, ns_domain (ns_requirement r), ns_predicate (ns_requirement r))"

definition snapshot_approval :: "approval_requirement \<Rightarrow> approval_snapshot res" where
  "snapshot_approval a =
     tryE (proposal_identifier (ap_approval_id a)) (\<lambda>i.
     tryE (proposal_text (ap_description a)) (\<lambda>_.
     Inr \<lparr>ns_approval_id = i, ns_approval_description = ap_description a\<rparr>))"

definition snapshot_assumption :: "assumption \<Rightarrow> assumption_snapshot res" where
  "snapshot_assumption a =
     tryE (proposal_identifier (as_assumption_id a)) (\<lambda>i.
     tryE (proposal_text (as_description a)) (\<lambda>_.
     Inr \<lparr>ns_assumption_id = i, ns_assumption_description = as_description a\<rparr>))"

definition snapshot_precondition :: "precondition \<Rightarrow> precondition_snapshot res" where
  "snapshot_precondition p =
     tryE (proposal_identifier (pc_precondition_id p)) (\<lambda>i.
     tryE (proposal_text (pc_description p)) (\<lambda>_.
     Inr \<lparr>ns_precondition_id = i, ns_precondition_description = pc_description p\<rparr>))"

definition snapshot_constraint :: "constraint \<Rightarrow> constraint_snapshot res" where
  "snapshot_constraint c =
     tryE (exec_dict_property (co_parameters c)) (\<lambda>read.
     tryE (safety_copy invalid_proposal read) (\<lambda>params.
     raise_if (\<not> is_dict params) invalid_proposal
    (tryE (proposal_identifier (co_constraint_id c)) (\<lambda>i.
     tryE (proposal_text (co_description c)) (\<lambda>_.
     tryE (safety_canonicalize invalid_proposal params) (\<lambda>canonical.
     Inr \<lparr>ns_constraint_id = i, ns_constraint_description = co_description c,
          ns_constraint_parameters = canonical\<rparr>))))))"

definition snapshot_requirement :: "context_requirement \<Rightarrow> requirement_snapshot res" where
  "snapshot_requirement r =
     (let domain = context_domain_value (cr_domain r) in
     raise_if (domain \<notin> set context_domain_names) invalid_proposal
    (tryE (proposal_text (cr_predicate r)) (\<lambda>_.
     Inr \<lparr>ns_domain = domain, ns_predicate = cr_predicate r\<rparr>)))"

definition snapshot_reference :: "context_reference \<Rightarrow> reference_snapshot res" where
  "snapshot_reference r =
     (let state = context_state_value (cf_state r) in
     raise_if (state \<notin> set context_state_names) invalid_proposal
    (raise_if (\<not> list_all hex_digest_ok (cf_value_digests r)) invalid_proposal
    (raise_if (cf_value_digests r \<noteq> sorted_set (cf_value_digests r)) invalid_proposal
    (let memory_ids = map uuid_str (cf_memory_ids r) in
     raise_if (memory_ids \<noteq> sorted_set memory_ids) invalid_proposal
    (let conflict_ids = map uuid_str (cf_conflict_ids r) in
     raise_if (conflict_ids \<noteq> sorted_set conflict_ids) invalid_proposal
    (raise_if (state = ''unknown'' \<and>
         (cf_value_digests r \<noteq> [] \<or> memory_ids \<noteq> [] \<or> conflict_ids \<noteq> [])) invalid_proposal
    (raise_if (state = ''resolved'' \<and>
         (length (cf_value_digests r) \<noteq> 1 \<or> memory_ids = [] \<or> conflict_ids \<noteq> []))
       invalid_proposal
    (raise_if (state = ''conflicted'' \<and>
         (length (cf_value_digests r) < 2 \<or> length memory_ids < 2 \<or> conflict_ids = []))
       invalid_proposal
    (tryE (snapshot_requirement (cf_requirement r)) (\<lambda>requirement.
     Inr \<lparr>ns_requirement = requirement, ns_required = cf_required r, ns_state = state,
          ns_value_digests = cf_value_digests r, ns_memory_ids = memory_ids,
          ns_conflict_ids = conflict_ids\<rparr>))))))))))"

text \<open>\<open>tuple(f(item) for item in _typed_tuple(...))\<close>, then \<open>_unique_ordered\<close>.\<close>

definition snapshot_tuple ::
  "('a \<Rightarrow> 'b res) \<Rightarrow> ('b \<Rightarrow> 'k::linorder) \<Rightarrow> 'a list \<Rightarrow> 'b list res" where
  "snapshot_tuple f key vals =
     tryE (typed_items vals) (\<lambda>vals.
     tryE (traverse f vals) (\<lambda>snapshots. unique_ordered key snapshots))"

definition snapshot_step :: "plan_step \<Rightarrow> step_snapshot res" where
  "snapshot_step s =
     tryE (proposal_identifier (ps_step_id s)) (\<lambda>step_id.
     tryE (proposal_identifier (ps_capability_id s)) (\<lambda>capability_id.
     tryE (step_parameters s) (\<lambda>read.
     tryE (safety_copy invalid_proposal read) (\<lambda>params.
     raise_if (\<not> is_dict params) invalid_proposal
    (tryE (traverse proposal_identifier (ps_dependencies s)) (\<lambda>dependencies.
     raise_if (dependencies \<noteq> sorted_set dependencies) safety_plan_invariant
    (raise_if (step_id \<in> set dependencies) safety_plan_invariant
    (tryE (snapshot_tuple snapshot_precondition ns_precondition_id (ps_preconditions s))
       (\<lambda>preconditions.
     tryE (snapshot_tuple snapshot_requirement requirement_snapshot_key (ps_required_context s))
       (\<lambda>contexts.
     tryE (snapshot_tuple snapshot_approval ns_approval_id (ps_required_approvals s)) (\<lambda>approvals.
     tryE (snapshot_tuple snapshot_constraint ns_constraint_id (ps_constraints s)) (\<lambda>cons.
     tryE (safety_canonicalize invalid_proposal params) (\<lambda>canonical.
     Inr \<lparr>ns_step_id = step_id, ns_capability_id = capability_id, ns_parameters = canonical,
          ns_dependencies = dependencies, ns_preconditions = preconditions,
          ns_required_context = contexts, ns_required_approvals = approvals,
          ns_constraints = cons, ns_expected_result = ps_expected_result s,
          ns_failure_policy = ps_failure_policy s\<rparr>)))))))))))))"

section \<open>The plan, sorted again\<close>

definition snapshot_graph :: "step_snapshot list \<Rightarrow> dep_graph" where
  "snapshot_graph steps = map (\<lambda>s. (ns_step_id s, ns_dependencies s)) steps"

definition ordered_steps :: "step_snapshot list \<Rightarrow> step_snapshot list res" where
  "ordered_steps steps =
     tryE (topological_steps safety_plan_invariant (snapshot_graph steps)) (\<lambda>order.
     traverse (\<lambda>i. dict_item (index_get ns_step_id steps i)) order)"

section \<open>The decision\<close>

record proposal_contents =
  pn_steps :: "step_snapshot list"
  pn_references :: "reference_snapshot list"
  pn_assumptions :: "assumption_snapshot list"
  pn_approvals :: "approval_snapshot list"
  pn_constraints :: "constraint_snapshot list"
  pn_capabilities :: "string list"

text \<open>The snapshots of the parts of a decision, up to the required capabilities.\<close>

definition snapshot_plan :: "executive_decision \<Rightarrow> step_snapshot list res" where
  "snapshot_plan d =
     raise_if (ed_decision_type d \<noteq> Propose \<and> ed_decision_type d \<noteq> RequestApproval)
       invalid_proposal
    (tryE (typed_items (ed_reason_codes d)) (\<lambda>_.
     raise_if (ed_reason_codes d \<noteq>
         (if ed_decision_type d = Propose then [ReadyForSafetyReview] else [ApprovalRequired]))
       invalid_proposal
    (case ed_proposed_plan d of
       None \<Rightarrow> Inl invalid_proposal
     | Some plan \<Rightarrow>
         raise_if (pl_steps plan = [] \<or> max_proposal_steps < length (pl_steps plan))
           safety_plan_invariant
        (tryE (traverse snapshot_step (pl_steps plan)) ordered_steps))))"

definition state_snapshots :: "string \<Rightarrow> reference_snapshot list \<Rightarrow> requirement_snapshot list" where
  "state_snapshots state references =
     map ns_requirement (filter (\<lambda>r. ns_required r \<and> ns_state r = state) references)"

definition snapshot_context :: "executive_decision \<Rightarrow> reference_snapshot list res" where
  "snapshot_context d =
     tryE (snapshot_tuple snapshot_reference reference_snapshot_key (ed_context_references d))
       (\<lambda>references.
     raise_if (has_dup (map (\<lambda>r. requirement_snapshot_key (ns_requirement r)) references))
       invalid_proposal
    (tryE (typed_items (ed_missing_context d)) (\<lambda>ms.
     tryE (traverse snapshot_requirement ms) (\<lambda>missing.
     tryE (typed_items (ed_conflicted_context d)) (\<lambda>cs.
     tryE (traverse snapshot_requirement cs) (\<lambda>conflicted.
     raise_if (missing \<noteq> state_snapshots ''unknown'' references \<or>
         conflicted \<noteq> state_snapshots ''conflicted'' references) invalid_proposal
       (Inr references)))))))"

definition snapshot_contents :: "executive_decision \<Rightarrow> proposal_contents res" where
  "snapshot_contents d =
     tryE (snapshot_plan d) (\<lambda>steps.
     tryE (snapshot_context d) (\<lambda>references.
     tryE (snapshot_tuple snapshot_assumption ns_assumption_id (ed_assumptions d)) (\<lambda>assumptions.
     tryE (snapshot_tuple snapshot_approval ns_approval_id (ed_required_approvals d)) (\<lambda>approvals.
     tryE (snapshot_tuple snapshot_constraint ns_constraint_id (ed_constraints d)) (\<lambda>cons.
     tryE (traverse proposal_identifier (ed_required_capabilities d)) (\<lambda>capabilities.
     raise_if (capabilities \<noteq> sorted_set capabilities \<or> capabilities = []) invalid_proposal
    (Inr \<lparr>pn_steps = steps, pn_references = references, pn_assumptions = assumptions,
          pn_approvals = approvals, pn_constraints = cons,
          pn_capabilities = capabilities\<rparr>)))))))"

text \<open>The relations between the plan and the rest of the decision.\<close>

definition check_relations :: "exec_decision_type \<Rightarrow> proposal_contents \<Rightarrow> unit res" where
  "check_relations dtype c =
     (let steps = set (pn_steps c) in
     raise_if (set (pn_capabilities c) \<noteq> ns_capability_id ` steps) invalid_proposal
    (raise_if ((\<Union>s \<in> steps. approval_snapshot_key ` set (ns_required_approvals s)) \<noteq>
         approval_snapshot_key ` set (pn_approvals c)) invalid_proposal
    (raise_if ((dtype = Propose \<and> pn_approvals c \<noteq> []) \<or>
         (dtype = RequestApproval \<and> pn_approvals c = [])) invalid_proposal
    (raise_if ((\<Union>s \<in> steps. constraint_snapshot_key ` set (ns_constraints s)) \<noteq>
         constraint_snapshot_key ` set (pn_constraints c)) invalid_proposal
    (raise_if ((\<Union>s \<in> steps. requirement_snapshot_key ` set (ns_required_context s)) \<noteq>
         (\<lambda>r. requirement_snapshot_key (ns_requirement r)) `
           {r \<in> set (pn_references c). ns_required r}) invalid_proposal
    (raise_if (list_ex (\<lambda>r. ns_required r \<and> ns_state r \<noteq> ''resolved'') (pn_references c))
       invalid_proposal (Inr ())))))))"

text \<open>Fingerprints, identifiers and versions; returns the text of the snapshot version.\<close>

definition check_provenance :: "executive_decision \<Rightarrow> string res" where
  "check_provenance d =
     tryE (proposal_fingerprint FpDecision (ed_decision_fingerprint d)) (\<lambda>decision_fp.
     tryE (proposal_fingerprint FpRequest (ed_request_fingerprint d)) (\<lambda>_.
     tryE (proposal_fingerprint FpCapabilityContract (ed_capability_contract_fingerprint d)) (\<lambda>_.
     tryE (proposal_fingerprint FpRelevantContext (ed_relevant_context_fingerprint d)) (\<lambda>_.
     tryE (proposal_text (ed_decision_id d)) (\<lambda>_.
     raise_if (ed_decision_id d \<noteq> ''decision-'' @ fp_digest decision_fp) invalid_proposal
    (tryE (proposal_text (ed_request_id d)) (\<lambda>_.
     tryE (proposal_text (ed_owner_subject d)) (\<lambda>_.
     tryE (proposal_text (ed_explanation d)) (\<lambda>_.
     let version = ed_context_snapshot_version d in
     raise_if (csv_algorithm version \<noteq> ''sha256'' \<or> csv_schema_version version \<noteq> 1 \<or>
         \<not> hex_digest_ok (csv_digest version)) invalid_proposal
       (Inr (''sha256:'' @ csv_digest version)))))))))))"

text \<open>The decision built again from its own public fields.\<close>

definition rebuilt :: "executive_decision \<Rightarrow> executive_decision res" where
  "rebuilt d =
     mk_executive_decision (ed_request_id d) (ed_owner_subject d) (ed_decision_type d)
       (ed_reason_codes d) (ed_explanation d) (ed_context_snapshot_version d)
       (ed_request_fingerprint d) (ed_capability_contract_fingerprint d)
       (ed_context_references d) (ed_assumptions d) (ed_required_capabilities d)
       (ed_required_approvals d) (ed_constraints d) (ed_proposed_plan d)"

definition check_integrity :: "bool \<Rightarrow> executive_decision \<Rightarrow> unit res" where
  "check_integrity required d =
     tryE (rebuilt d) (\<lambda>r.
     raise_if (required \<and>
         (ed_decision_fingerprint r \<noteq> ed_decision_fingerprint d \<or>
          ed_relevant_context_fingerprint r \<noteq> ed_relevant_context_fingerprint d))
       invalid_proposal (Inr ()))"

section \<open>Documents\<close>

definition approval_snapshot_document :: "approval_snapshot \<Rightarrow> pyval" where
  "approval_snapshot_document a =
     obj [(''approval_id'', PStr (ns_approval_id a)),
          (''description'', PStr (ns_approval_description a))]"

definition assumption_snapshot_document :: "assumption_snapshot \<Rightarrow> pyval" where
  "assumption_snapshot_document a =
     obj [(''assumption_id'', PStr (ns_assumption_id a)),
          (''description'', PStr (ns_assumption_description a))]"

definition precondition_snapshot_document :: "precondition_snapshot \<Rightarrow> pyval" where
  "precondition_snapshot_document p =
     obj [(''description'', PStr (ns_precondition_description p)),
          (''precondition_id'', PStr (ns_precondition_id p))]"

definition constraint_snapshot_document :: "constraint_snapshot \<Rightarrow> pyval" where
  "constraint_snapshot_document c =
     obj [(''constraint_id'', PStr (ns_constraint_id c)),
          (''description'', PStr (ns_constraint_description c)),
          (''parameters_canonical_json'', PStr (ns_constraint_parameters c))]"

definition requirement_snapshot_document :: "requirement_snapshot \<Rightarrow> pyval" where
  "requirement_snapshot_document r =
     obj [(''domain'', PStr (ns_domain r)), (''predicate'', PStr (ns_predicate r))]"

definition reference_snapshot_document :: "reference_snapshot \<Rightarrow> pyval" where
  "reference_snapshot_document r =
     obj [(''conflict_ids'', str_list (ns_conflict_ids r)),
          (''domain'', PStr (ns_domain (ns_requirement r))),
          (''memory_ids'', str_list (ns_memory_ids r)),
          (''predicate'', PStr (ns_predicate (ns_requirement r))),
          (''required'', PBool (ns_required r)),
          (''state'', PStr (ns_state r)),
          (''value_digests'', str_list (ns_value_digests r))]"

definition step_snapshot_document :: "step_snapshot \<Rightarrow> pyval" where
  "step_snapshot_document s =
     obj [(''capability_id'', PStr (ns_capability_id s)),
          (''constraints'', PList (map constraint_snapshot_document (ns_constraints s))),
          (''dependencies'', str_list (ns_dependencies s)),
          (''expected_result'', PStr (expected_result_value (ns_expected_result s))),
          (''failure_policy'', PStr (failure_policy_value (ns_failure_policy s))),
          (''parameters_canonical_json'', PStr (ns_parameters s)),
          (''preconditions'', PList (map precondition_snapshot_document (ns_preconditions s))),
          (''required_approvals'',
             PList (map approval_snapshot_document (ns_required_approvals s))),
          (''required_context'',
             PList (map requirement_snapshot_document (ns_required_context s))),
          (''step_id'', PStr (ns_step_id s))]"

definition proposal_document :: "executive_decision \<Rightarrow> proposal_contents \<Rightarrow> string \<Rightarrow> pyval" where
  "proposal_document d c version =
     obj [(''assumptions'', PList (map assumption_snapshot_document (pn_assumptions c))),
          (''capability_contract_fingerprint'',
             PStr (fingerprint_str (ed_capability_contract_fingerprint d))),
          (''context_references'', PList (map reference_snapshot_document (pn_references c))),
          (''context_snapshot_version'', PStr version),
          (''decision_type'', PStr (exec_decision_type_value (ed_decision_type d))),
          (''owner_subject'', PStr (ed_owner_subject d)),
          (''relevant_context_fingerprint'',
             PStr (fingerprint_str (ed_relevant_context_fingerprint d))),
          (''request_fingerprint'', PStr (fingerprint_str (ed_request_fingerprint d))),
          (''schema'', PStr ''ayyo.safety.proposal.v1''),
          (''source_decision_explanation'', PStr (ed_explanation d)),
          (''source_decision_fingerprint'', PStr (fingerprint_str (ed_decision_fingerprint d))),
          (''source_decision_id'', PStr (ed_decision_id d)),
          (''source_decision_reasons'',
             str_list (map decision_reason_value (ed_reason_codes d))),
          (''source_request_id'', PStr (ed_request_id d)),
          (''steps'', PList (map step_snapshot_document (pn_steps c)))]"

section \<open>The snapshot\<close>

record proposal_snapshot =
  pp_source_decision_id :: string
  pp_source_request_id :: string
  pp_owner_subject :: string
  pp_source_decision_fingerprint :: exec_fingerprint
  pp_context_snapshot_version :: string
  pp_steps :: "step_snapshot list"
  pp_references :: "reference_snapshot list"
  pp_assumptions :: "assumption_snapshot list"
  pp_fingerprint :: safety_fingerprint

text \<open>
  The handlers of the \<open>try\<close>: errors of the Safety Kernel pass, errors of the Executive become
  \<open>InvalidSafetyProposalError\<close>, and everything else (an \<open>AssertionError\<close>) escapes.
\<close>

definition inspected :: "'a res \<Rightarrow> 'a res" where
  "inspected r = (case r of Inl (ExecutiveExn _) \<Rightarrow> Inl invalid_proposal | _ \<Rightarrow> r)"

definition snapshot_proposal :: "bool \<Rightarrow> executive_decision \<Rightarrow> proposal_snapshot res" where
  "snapshot_proposal require_source_integrity d = inspected
    (tryE (snapshot_contents d) (\<lambda>c.
     tryE (check_relations (ed_decision_type d) c) (\<lambda>_.
     tryE (check_provenance d) (\<lambda>version.
     tryE (check_integrity require_source_integrity d) (\<lambda>_.
     tryE (safety_fingerprint_document SfProposal invalid_proposal (proposal_document d c version))
       (\<lambda>fingerprint.
     Inr \<lparr>pp_source_decision_id = ed_decision_id d, pp_source_request_id = ed_request_id d,
          pp_owner_subject = ed_owner_subject d,
          pp_source_decision_fingerprint = ed_decision_fingerprint d,
          pp_context_snapshot_version = version, pp_steps = pn_steps c,
          pp_references = pn_references c, pp_assumptions = pn_assumptions c,
          pp_fingerprint = fingerprint\<rparr>))))))"

end
