(* ===== verification/Safety_Service.thy ===== *)
theory Safety_Service
  imports Safety_Decision Safety_Proposal
begin

text \<open>
  The evaluation of a proposal (\<open>safety_kernel/service.py\<close>): one decision per step under the rules
  of the policy, the aggregate decision, and revalidation.  The first section is the code; the
  second states the evaluation of a step as a decision table and shows that a step of a checked
  snapshot always gets a decision, the one of the table.
\<close>

section \<open>The kernel\<close>

record safety_kernel =
  sk_policy :: safety_policy

text \<open>\<open>_EXPECTED_RESULTS\<close>.\<close>

fun expected_results :: "hazard_class \<Rightarrow> expected_result set" where
  "expected_results InformationalReadOnly = {ResInformation}"
| "expected_results InternalNonActuating = {ResInformation, ResProposedStateChange}"
| "expected_results ExternalDigitalEffect = {ResProposedCommunication, ResProposedStateChange}"
| "expected_results PhysicalMovement = {ResProposedPhysicalEffect}"
| "expected_results PhysicalContact = {ResProposedPhysicalEffect}"
| "expected_results PrivilegedHighImpact =
     {ResInformation, ResProposedStateChange, ResProposedCommunication, ResProposedPhysicalEffect}"
| "expected_results EmergencySafetyCritical =
     {ResInformation, ResProposedStateChange, ResProposedCommunication, ResProposedPhysicalEffect}"
| "expected_results Unclassified = {}"

definition stronger :: "safety_disposition \<Rightarrow> safety_disposition \<Rightarrow> safety_disposition" where
  "stronger a b = (if disposition_rank a < disposition_rank b then b else a)"

definition precondition_description :: string where
  "precondition_description =
     ''The capability safety rule requires this explicit '' @ ''plan precondition.''"

definition constraint_description :: string where
  "constraint_description =
     ''The capability safety rule requires this explicit '' @ ''plan constraint.''"

definition approval_description :: "hazard_class \<Rightarrow> string" where
  "approval_description hazard =
     ''External approval is required by the immutable safety '' @ ''policy for '' @
     hazard_class_value hazard @ ''.''"

definition policy_approval_id :: "approval_class \<Rightarrow> string" where
  "policy_approval_id c = ''policy.'' @ approval_class_value c"

text \<open>
  The identifiers that a capability rule requires and the step does not declare, each as a
  prerequisite of the step.
\<close>

definition missing_metadata ::
  "prerequisite_kind \<Rightarrow> string \<Rightarrow> string \<Rightarrow> string list \<Rightarrow> string list \<Rightarrow> safety_prerequisite list res"
where
  "missing_metadata kind description step_id required declared =
     traverse (\<lambda>i. check_safety_prerequisite
         \<lparr>sp_kind = kind, sp_prerequisite_id = i, sp_description = description,
          sp_affected_step = step_id\<rparr>)
       (filter (\<lambda>i. i \<notin> set declared) required)"

definition evaluate_step ::
  "safety_kernel \<Rightarrow> step_snapshot \<Rightarrow> assumption_snapshot list \<Rightarrow> step_decision res" where
  "evaluate_step safety step assumptions =
     tryE (policy_capability_rule (sk_policy safety) (ns_capability_id step)) (\<lambda>rule.
     let hazard = (case rule of None \<Rightarrow> Unclassified | Some r \<Rightarrow> sr_hazard_class r) in
     tryE (policy_hazard_rule (sk_policy safety) hazard) (\<lambda>hazard_rule.
     tryE (case rule of None \<Rightarrow> Inr [] | Some r \<Rightarrow>
             missing_metadata RequiredPrecondition precondition_description (ns_step_id step)
               (sr_required_preconditions r) (map ns_precondition_id (ns_preconditions step)))
       (\<lambda>missing_preconditions.
     tryE (case rule of None \<Rightarrow> Inr [] | Some r \<Rightarrow>
             missing_metadata RequiredConstraint constraint_description (ns_step_id step)
               (sr_required_constraints r) (map ns_constraint_id (ns_constraints step)))
       (\<lambda>missing_constraints.
     let missing = missing_preconditions @ missing_constraints;
         conflict = (ns_expected_result step \<notin> expected_results hazard) in
     tryE (case hr_approval_class hazard_rule of None \<Rightarrow> Inr [] | Some c \<Rightarrow>
             tryE (check_safety_approval
               \<lparr>sa_approval_class = c, sa_source = FromSafetyPolicy,
                sa_requirement_id = policy_approval_id c,
                sa_description = approval_description hazard,
                sa_affected_step = ns_step_id step\<rparr>) (\<lambda>a. Inr [a])) (\<lambda>policy_approvals.
     tryE (traverse (\<lambda>a. check_safety_approval
               \<lparr>sa_approval_class = ExecutiveDeclared, sa_source = FromExecutive,
                sa_requirement_id = ns_approval_id a, sa_description = ns_approval_description a,
                sa_affected_step = ns_step_id step\<rparr>) (ns_required_approvals step))
       (\<lambda>executive_approvals.
     tryE (traverse (\<lambda>p. check_safety_prerequisite
               \<lparr>sp_kind = pqd_kind p, sp_prerequisite_id = pqd_prerequisite_id p,
                sp_description = pqd_description p, sp_affected_step = ns_step_id step\<rparr>)
             (hr_prerequisites hazard_rule)) (\<lambda>hazard_prerequisites.
     tryE (traverse (\<lambda>a. check_safety_prerequisite
               \<lparr>sp_kind = AssumptionVerification, sp_prerequisite_id = ns_assumption_id a,
                sp_description = ns_assumption_description a,
                sp_affected_step = ns_step_id step\<rparr>) assumptions) (\<lambda>assumption_prerequisites.
     let approvals = policy_approvals @ executive_approvals;
         prerequisites = missing @ hazard_prerequisites @ assumption_prerequisites;
         reasons = {hr_reason hazard_rule} \<union>
           (if missing \<noteq> [] then {RequiredSafetyMetadataMissing} else {}) \<union>
           (if conflict then {CapabilityDeclarationConflict} else {}) \<union>
           (if ns_required_approvals step \<noteq> [] then {ExecutiveApprovalUnverified} else {}) \<union>
           (if assumptions \<noteq> [] then {UnverifiedAssumption} else {});
         rules = hr_rule_id hazard_rule #
           (case rule of None \<Rightarrow> [] | Some r \<Rightarrow> [rule_id r]);
         base = (if missing \<noteq> [] \<or> conflict then Blocked else hr_disposition hazard_rule);
         disposition =
           (if base = Blocked then Blocked
            else if prerequisites \<noteq> [] then stronger base Deferred
            else if approvals \<noteq> [] then stronger base ExternalApprovalRequired
            else base) in
     mk_step_decision (ns_step_id step) (ns_capability_id step) hazard disposition
       (enum_ordered safety_reasons reasons) (sorted_set rules) approvals prerequisites))))))))"

text \<open>The assumptions of the decision are charged to the first step.\<close>

definition evaluate_steps ::
  "safety_kernel \<Rightarrow> step_snapshot list \<Rightarrow> assumption_snapshot list \<Rightarrow> step_decision list res" where
  "evaluate_steps safety steps assumptions =
     traverse (\<lambda>(index, step). evaluate_step safety step (if index = 0 then assumptions else []))
       (zip [0..<length steps] steps)"

definition evaluate_proposal :: "safety_kernel \<Rightarrow> executive_decision \<Rightarrow> safety_decision res" where
  "evaluate_proposal safety proposal =
     tryE (snapshot_proposal True proposal) (\<lambda>snapshot.
     tryE (evaluate_steps safety (pp_steps snapshot) (pp_assumptions snapshot)) (\<lambda>steps.
     mk_safety_decision (pp_source_decision_id snapshot) (pp_source_request_id snapshot)
       (pp_owner_subject snapshot) (pp_source_decision_fingerprint snapshot)
       (sy_version (sk_policy safety)) (sy_fingerprint (sk_policy safety))
       (pp_fingerprint snapshot) steps))"

definition safety_revalidate ::
  "safety_kernel \<Rightarrow> safety_decision \<Rightarrow> executive_decision \<Rightarrow> safety_revalidation res" where
  "safety_revalidate safety decision proposal =
     tryE (snapshot_proposal False proposal) (\<lambda>current.
     let reasons =
       (if yd_proposal_fingerprint decision \<noteq> pp_fingerprint current then [ProposalChanged] else []) @
       (if yd_policy_fingerprint decision \<noteq> sy_fingerprint (sk_policy safety)
        then [PolicyChanged] else []) in
     check_safety_revalidation
       \<lparr>sv_decision_id = yd_decision_id decision,
        sv_status = (if reasons = [] then SafetyCurrent else SafetyStale),
        sv_reasons = reasons,
        sv_prior_proposal_fingerprint = yd_proposal_fingerprint decision,
        sv_current_proposal_fingerprint = pp_fingerprint current,
        sv_prior_policy_fingerprint = yd_policy_fingerprint decision,
        sv_current_policy_fingerprint = sy_fingerprint (sk_policy safety)\<rparr>)"

section \<open>A step of a checked snapshot\<close>

definition step_snapshot_ok :: "step_snapshot \<Rightarrow> bool" where
  "step_snapshot_ok s \<longleftrightarrow>
     identifier_ok (ns_step_id s) \<and> identifier_ok (ns_capability_id s) \<and>
     length (ns_required_approvals s) \<le> 128 \<and>
     distinct (map ns_approval_id (ns_required_approvals s)) \<and>
     (\<forall>a \<in> set (ns_required_approvals s).
        identifier_ok (ns_approval_id a) \<and> text_ok (ns_approval_description a))"

definition assumptions_ok :: "assumption_snapshot list \<Rightarrow> bool" where
  "assumptions_ok as \<longleftrightarrow>
     length as \<le> 128 \<and> distinct (map ns_assumption_id as) \<and>
     (\<forall>a \<in> set as. identifier_ok (ns_assumption_id a) \<and> text_ok (ns_assumption_description a))"

text \<open>The rule, the class, and the missing identifiers of a step.\<close>

definition step_rule :: "safety_policy \<Rightarrow> step_snapshot \<Rightarrow> capability_rule option" where
  "step_rule y s = index_get sr_capability_id (sy_capability_rules y) (ns_capability_id s)"

definition step_hazard :: "safety_policy \<Rightarrow> step_snapshot \<Rightarrow> hazard_class" where
  "step_hazard y s = (case step_rule y s of None \<Rightarrow> Unclassified | Some r \<Rightarrow> sr_hazard_class r)"

definition undeclared_preconditions :: "safety_policy \<Rightarrow> step_snapshot \<Rightarrow> string list" where
  "undeclared_preconditions y s =
     (case step_rule y s of None \<Rightarrow> []
      | Some r \<Rightarrow> filter (\<lambda>i. i \<notin> ns_precondition_id ` set (ns_preconditions s))
          (sr_required_preconditions r))"

definition undeclared_constraints :: "safety_policy \<Rightarrow> step_snapshot \<Rightarrow> string list" where
  "undeclared_constraints y s =
     (case step_rule y s of None \<Rightarrow> []
      | Some r \<Rightarrow> filter (\<lambda>i. i \<notin> ns_constraint_id ` set (ns_constraints s))
          (sr_required_constraints r))"

definition metadata_missing :: "safety_policy \<Rightarrow> step_snapshot \<Rightarrow> bool" where
  "metadata_missing y s \<longleftrightarrow> undeclared_preconditions y s \<noteq> [] \<or> undeclared_constraints y s \<noteq> []"

text \<open>The decision table: what blocks, what defers, what needs approval, in this order.\<close>

definition step_disposition :: "safety_policy \<Rightarrow> step_snapshot \<Rightarrow> bool \<Rightarrow> safety_disposition" where
  "step_disposition y s assumed =
     (let h = step_hazard y s in
      if hazard_minimum h = Blocked \<or> metadata_missing y s \<or>
         ns_expected_result s \<notin> expected_results h then Blocked
      else if hazard_minimum h = Deferred \<or> assumed then Deferred
      else if hazard_minimum h = ExternalApprovalRequired \<or> ns_required_approvals s \<noteq> []
      then ExternalApprovalRequired
      else EligibleForDownstream)"

definition step_reasons :: "safety_policy \<Rightarrow> step_snapshot \<Rightarrow> bool \<Rightarrow> safety_reason set" where
  "step_reasons y s assumed =
     {hazard_base_reason (step_hazard y s)} \<union>
     (if metadata_missing y s then {RequiredSafetyMetadataMissing} else {}) \<union>
     (if ns_expected_result s \<notin> expected_results (step_hazard y s)
      then {CapabilityDeclarationConflict} else {}) \<union>
     (if ns_required_approvals s \<noteq> [] then {ExecutiveApprovalUnverified} else {}) \<union>
     (if assumed then {UnverifiedAssumption} else {})"

definition step_approvals :: "safety_policy \<Rightarrow> step_snapshot \<Rightarrow> safety_approval list" where
  "step_approvals y s =
     (case hr_approval_class (v1_rule (step_hazard y s)) of None \<Rightarrow> []
      | Some c \<Rightarrow> [\<lparr>sa_approval_class = c, sa_source = FromSafetyPolicy,
          sa_requirement_id = policy_approval_id c,
          sa_description = approval_description (step_hazard y s),
          sa_affected_step = ns_step_id s\<rparr>]) @
     map (\<lambda>a. \<lparr>sa_approval_class = ExecutiveDeclared, sa_source = FromExecutive,
          sa_requirement_id = ns_approval_id a, sa_description = ns_approval_description a,
          sa_affected_step = ns_step_id s\<rparr>) (ns_required_approvals s)"

definition step_prerequisites ::
  "safety_policy \<Rightarrow> step_snapshot \<Rightarrow> assumption_snapshot list \<Rightarrow> safety_prerequisite list" where
  "step_prerequisites y s as =
     map (\<lambda>i. \<lparr>sp_kind = RequiredPrecondition, sp_prerequisite_id = i,
        sp_description = precondition_description, sp_affected_step = ns_step_id s\<rparr>)
       (undeclared_preconditions y s) @
     map (\<lambda>i. \<lparr>sp_kind = RequiredConstraint, sp_prerequisite_id = i,
        sp_description = constraint_description, sp_affected_step = ns_step_id s\<rparr>)
       (undeclared_constraints y s) @
     map (\<lambda>p. \<lparr>sp_kind = pqd_kind p, sp_prerequisite_id = pqd_prerequisite_id p,
        sp_description = pqd_description p, sp_affected_step = ns_step_id s\<rparr>)
       (hr_prerequisites (v1_rule (step_hazard y s))) @
     map (\<lambda>a. \<lparr>sp_kind = AssumptionVerification, sp_prerequisite_id = ns_assumption_id a,
        sp_description = ns_assumption_description a, sp_affected_step = ns_step_id s\<rparr>) as"

definition step_rules :: "safety_policy \<Rightarrow> step_snapshot \<Rightarrow> string list" where
  "step_rules y s = hr_rule_id (v1_rule (step_hazard y s)) #
     (case step_rule y s of None \<Rightarrow> [] | Some r \<Rightarrow> [rule_id r])"


section \<open>The checks on the parts pass\<close>

lemma check_all_approvals:
  "list_all safety_approval_ok (map f xs) \<Longrightarrow>
     traverse (\<lambda>x. check_safety_approval (f x)) xs = Inr (map f xs)"
  by (rule traverse_map) (simp add: check_safety_approval_eq list_all_iff)

lemma check_all_prerequisites:
  "list_all safety_prerequisite_ok (map f xs) \<Longrightarrow>
     traverse (\<lambda>x. check_safety_prerequisite (f x)) xs = Inr (map f xs)"
  by (rule traverse_map) (simp add: check_safety_prerequisite_eq list_all_iff)

lemma descriptions_ok [simp]:
  "text_ok precondition_description" "text_ok constraint_description"
  "text_ok (approval_description h)" "identifier_ok (policy_approval_id c)"
proof -
  show "text_ok precondition_description" "text_ok constraint_description"
    by (simp_all add: precondition_description_def constraint_description_def text_evals)
  show "text_ok (approval_description h)"
    by (cases h; simp add: approval_description_def text_evals)
  show "identifier_ok (policy_approval_id c)"
    by (cases c; simp add: policy_approval_id_def identifier_evals)
qed

lemma step_rule_ok: "policy_ok y \<Longrightarrow> step_rule y s = Some r \<Longrightarrow>
    capability_rule_ok r \<and> sr_capability_id r = ns_capability_id s"
  unfolding step_rule_def by (rule policy_rule_in)

lemma step_approvals_ok: "step_snapshot_ok s \<Longrightarrow> list_all safety_approval_ok (step_approvals y s)"
  by (auto simp: step_approvals_def step_snapshot_ok_def safety_approval_ok_def list_all_iff
      split: option.splits)

lemma undeclared_sub:
  assumes "policy_ok y"
  shows "set (undeclared_preconditions y s) \<subseteq> Collect identifier_ok"
    "set (undeclared_constraints y s) \<subseteq> Collect identifier_ok"
  using step_rule_ok [OF assms, of s]
  by (cases "step_rule y s"; auto simp: undeclared_preconditions_def undeclared_constraints_def
      capability_rule_ok_def list_all_iff)+

lemma undeclared_distinct:
  assumes "policy_ok y"
  shows "distinct (undeclared_preconditions y s) \<and> length (undeclared_preconditions y s) \<le> 128"
    "distinct (undeclared_constraints y s) \<and> length (undeclared_constraints y s) \<le> 128"
  using step_rule_ok [OF assms, of s]
  by (cases "step_rule y s"; auto simp: undeclared_preconditions_def undeclared_constraints_def
      capability_rule_ok_def intro: order_trans [OF length_filter_le])+

lemma step_prerequisites_ok:
  "policy_ok y \<Longrightarrow> step_snapshot_ok s \<Longrightarrow> assumptions_ok as \<Longrightarrow>
     list_all safety_prerequisite_ok (step_prerequisites y s as)"
  using undeclared_sub [of y s] v1_rule_simps(5) [of "step_hazard y s"]
  by (auto simp: step_prerequisites_def step_snapshot_ok_def assumptions_ok_def
      safety_prerequisite_ok_def list_all_iff)

lemma missing_metadata_eq:
  assumes "list_all safety_prerequisite_ok
    (map (\<lambda>i. \<lparr>sp_kind = k, sp_prerequisite_id = i, sp_description = d, sp_affected_step = sid\<rparr>)
       (filter (\<lambda>i. i \<notin> set declared) required))"
  shows "missing_metadata k d sid required declared =
    Inr (map (\<lambda>i. \<lparr>sp_kind = k, sp_prerequisite_id = i, sp_description = d, sp_affected_step = sid\<rparr>)
      (filter (\<lambda>i. i \<notin> set declared) required))"
  unfolding missing_metadata_def by (rule check_all_prerequisites [OF assms])

text \<open>The disposition that the code computes in steps is that of the table.\<close>

lemma stronger_Deferred: "h \<noteq> Blocked \<Longrightarrow> stronger h Deferred = Deferred"
  by (cases h) (simp_all add: stronger_def)

lemma stronger_approval:
  "stronger h ExternalApprovalRequired = (if h = EligibleForDownstream then ExternalApprovalRequired else h)"
  by (cases h) (simp_all add: stronger_def)

lemma hazard_prerequisites_iff:
  "hr_prerequisites (v1_rule h) = [] \<longleftrightarrow> hazard_minimum h \<noteq> Deferred"
  "hr_approval_class (v1_rule h) = None \<longleftrightarrow> hazard_minimum h \<noteq> ExternalApprovalRequired"
  using v1_rule_simps(7,8) [of h] by blast+

lemma step_prerequisites_Nil:
  "step_prerequisites y s as = [] \<longleftrightarrow>
     \<not> metadata_missing y s \<and> hazard_minimum (step_hazard y s) \<noteq> Deferred \<and> as = []"
  by (auto simp: step_prerequisites_def metadata_missing_def hazard_prerequisites_iff)

lemma step_approvals_Nil:
  "step_approvals y s = [] \<longleftrightarrow>
     hazard_minimum (step_hazard y s) \<noteq> ExternalApprovalRequired \<and> ns_required_approvals s = []"
  using hazard_prerequisites_iff(2) [of "step_hazard y s"]
  by (auto simp: step_approvals_def split: option.splits)

lemma step_disposition_eq:
  assumes "missing \<longleftrightarrow> metadata_missing y s"
    "conflict \<longleftrightarrow> ns_expected_result s \<notin> expected_results (step_hazard y s)"
    "base = (if missing \<or> conflict then Blocked else hazard_minimum (step_hazard y s))"
  shows "(if base = Blocked then Blocked
     else if step_prerequisites y s as \<noteq> [] then stronger base Deferred
     else if step_approvals y s \<noteq> [] then stronger base ExternalApprovalRequired else base) =
     step_disposition y s (as \<noteq> [])"
proof -
  show ?thesis
    using assms step_prerequisites_Nil step_approvals_Nil by (cases "hazard_minimum (step_hazard y s)")
      (simp_all add: step_disposition_def Let_def stronger_Deferred stronger_approval)
qed

lemma mk_step_decision_cong:
  "d = d' \<Longrightarrow> rs = rs' \<Longrightarrow> ys = ys' \<Longrightarrow> aps = aps' \<Longrightarrow> ps = ps' \<Longrightarrow>
   mk_step_decision i c h d rs ys aps ps = mk_step_decision i c h d' rs' ys' aps' ps'"
  by simp

text \<open>The evaluation up to the constructor of the step decision.\<close>

lemma evaluate_step_collects:
  assumes y: "policy_ok y" and s: "step_snapshot_ok s" and as: "assumptions_ok as"
  shows "evaluate_step \<lparr>sk_policy = y\<rparr> s as =
    mk_step_decision (ns_step_id s) (ns_capability_id s) (step_hazard y s)
      (step_disposition y s (as \<noteq> [])) (enum_ordered safety_reasons (step_reasons y s (as \<noteq> [])))
      (sorted_set (step_rules y s)) (step_approvals y s) (step_prerequisites y s as)"
proof -
  have cap: "policy_capability_rule y (ns_capability_id s) = Inr (step_rule y s)"
    using policy_capability_rule_eq [OF y] s by (simp add: step_snapshot_ok_def step_rule_def)
  note hz = policy_hazard_rule_v1 [OF y]
  note ps = step_prerequisites_ok [OF y s as]
  note aps = step_approvals_ok [OF s, of y]
  have pre: "(case step_rule y s of None \<Rightarrow> Inr [] | Some r \<Rightarrow>
      missing_metadata RequiredPrecondition precondition_description (ns_step_id s)
        (sr_required_preconditions r) (map ns_precondition_id (ns_preconditions s))) =
    Inr (map (\<lambda>i. \<lparr>sp_kind = RequiredPrecondition, sp_prerequisite_id = i,
      sp_description = precondition_description, sp_affected_step = ns_step_id s\<rparr>)
      (undeclared_preconditions y s))"
    using ps by (auto simp: undeclared_preconditions_def step_prerequisites_def missing_metadata_eq
        split: option.splits)
  have con: "(case step_rule y s of None \<Rightarrow> Inr [] | Some r \<Rightarrow>
      missing_metadata RequiredConstraint constraint_description (ns_step_id s)
        (sr_required_constraints r) (map ns_constraint_id (ns_constraints s))) =
    Inr (map (\<lambda>i. \<lparr>sp_kind = RequiredConstraint, sp_prerequisite_id = i,
      sp_description = constraint_description, sp_affected_step = ns_step_id s\<rparr>)
      (undeclared_constraints y s))"
    using ps by (auto simp: undeclared_constraints_def step_prerequisites_def missing_metadata_eq
        split: option.splits)
  have ex: "traverse (\<lambda>a. check_safety_approval
      \<lparr>sa_approval_class = ExecutiveDeclared, sa_source = FromExecutive,
       sa_requirement_id = ns_approval_id a, sa_description = ns_approval_description a,
       sa_affected_step = ns_step_id s\<rparr>) (ns_required_approvals s) =
    Inr (map (\<lambda>a. \<lparr>sa_approval_class = ExecutiveDeclared, sa_source = FromExecutive,
       sa_requirement_id = ns_approval_id a, sa_description = ns_approval_description a,
       sa_affected_step = ns_step_id s\<rparr>) (ns_required_approvals s))"
    using aps by (intro check_all_approvals) (simp add: step_approvals_def)
  have hp: "traverse (\<lambda>p. check_safety_prerequisite
      \<lparr>sp_kind = pqd_kind p, sp_prerequisite_id = pqd_prerequisite_id p,
       sp_description = pqd_description p, sp_affected_step = ns_step_id s\<rparr>)
      (hr_prerequisites (v1_rule (step_hazard y s))) =
    Inr (map (\<lambda>p. \<lparr>sp_kind = pqd_kind p, sp_prerequisite_id = pqd_prerequisite_id p,
       sp_description = pqd_description p, sp_affected_step = ns_step_id s\<rparr>)
      (hr_prerequisites (v1_rule (step_hazard y s))))"
    using ps by (intro check_all_prerequisites) (simp add: step_prerequisites_def)
  have ap: "traverse (\<lambda>a. check_safety_prerequisite
      \<lparr>sp_kind = AssumptionVerification, sp_prerequisite_id = ns_assumption_id a,
       sp_description = ns_assumption_description a, sp_affected_step = ns_step_id s\<rparr>) as =
    Inr (map (\<lambda>a. \<lparr>sp_kind = AssumptionVerification, sp_prerequisite_id = ns_assumption_id a,
       sp_description = ns_assumption_description a, sp_affected_step = ns_step_id s\<rparr>) as)"
    using ps by (intro check_all_prerequisites) (simp add: step_prerequisites_def)
  have pol: "(case hr_approval_class (v1_rule h) of None \<Rightarrow> Inr [] | Some c \<Rightarrow>
      tryE (check_safety_approval
        \<lparr>sa_approval_class = c, sa_source = FromSafetyPolicy,
         sa_requirement_id = policy_approval_id c,
         sa_description = approval_description h, sa_affected_step = ns_step_id s\<rparr>)
        (\<lambda>a. Inr [a])) =
    Inr (case hr_approval_class (v1_rule h) of None \<Rightarrow> [] | Some c \<Rightarrow>
      [\<lparr>sa_approval_class = c, sa_source = FromSafetyPolicy,
        sa_requirement_id = policy_approval_id c,
        sa_description = approval_description h, sa_affected_step = ns_step_id s\<rparr>])" for h
    using s by (auto simp: check_safety_approval_eq safety_approval_ok_def step_snapshot_ok_def
        split: option.splits)
  have hazard: "(case step_rule y s of None \<Rightarrow> Unclassified | Some r \<Rightarrow> sr_hazard_class r) =
      step_hazard y s"
    by (simp add: step_hazard_def)
  show ?thesis
    unfolding evaluate_step_def safety_kernel.select_convs cap tryE_simps hazard Let_def hz pre con
      pol ex hp ap
  proof (rule mk_step_decision_cong, goal_cases)
    case 1
    show ?case
      by (subst step_disposition_eq [symmetric, OF refl refl refl])
        (simp add: step_prerequisites_def step_approvals_def metadata_missing_def)
  next
    case 2
    show ?case by (rule arg_cong [where f = "enum_ordered safety_reasons"])
      (auto simp: step_reasons_def metadata_missing_def)
  qed (simp_all add: step_rules_def step_approvals_def step_prerequisites_def)
qed

section \<open>Every step gets the decision of the table\<close>

lemma enum_ordered_safety [simp]:
  "sorted (enum_ordered safety_reasons S)" "distinct (enum_ordered safety_reasons S)"
  "set (enum_ordered safety_reasons S) = S"
  "enum_ordered safety_reasons S = [] \<longleftrightarrow> S = {}"
  by (simp_all add: enum_ordered_set enum_ordered_distinct enum_ordered_Nil)
    (simp add: enum_ordered_def sorted_filter [where f = id, simplified])

lemma identifier_char_not_space: "identifier_char c \<Longrightarrow> \<not> py_isspace c"
  by (auto simp: identifier_char_def py_isalnum_def py_isspace_def Let_def code_point_def)

lemma rule_id_ok:
  assumes "identifier_ok (sr_capability_id r)"
  shows "long_identifier_ok 267 (rule_id r)"
proof -
  have i: "length (sr_capability_id r) \<le> 256" "list_all identifier_char (sr_capability_id r)"
    using assms by (simp_all add: identifier_ok_def max_identifier_length_def)
  have "list_all identifier_char (rule_id r)"
    using i(2) by (simp add: rule_id_def identifier_char_def py_isalnum_def code_point_def)
  then have "py_strip (rule_id r) = rule_id r"
    by (intro py_strip_unspaced) (auto simp: list_all_iff identifier_char_not_space)
  with i \<open>list_all identifier_char (rule_id r)\<close> show ?thesis
    by (simp add: long_identifier_ok_def text_ok_def exact_text_ok_def max_text_length_def
        rule_id_def py_isalnum_def code_point_def)
qed

lemma identifier_long: "identifier_ok s \<Longrightarrow> 256 \<le> n \<Longrightarrow> long_identifier_ok n s"
  by (auto simp: identifier_ok_def long_identifier_ok_def max_identifier_length_def)

lemma step_rules_tuple:
  assumes "policy_ok y"
  shows "identifier_tuple (max_safety_identifier_length + length ''capability.'')
    safety_decision_invariant (sorted_set (step_rules y s)) = Inr (sorted_set (step_rules y s))"
proof -
  have "list_all (long_identifier_ok 267) (step_rules y s)"
    using step_rule_ok [OF assms, of s] identifier_long [of "hr_rule_id (v1_rule (step_hazard y s))" 267]
    by (cases "step_rule y s") (auto simp: step_rules_def capability_rule_ok_def rule_id_ok)
  moreover have "length (step_rules y s) \<le> 2"
    by (simp add: step_rules_def split: option.splits)
  then have "length (sorted_set (step_rules y s)) \<le> 128"
    using length_sorted_set_le [of "step_rules y s"] by linarith
  ultimately show ?thesis
    by (simp add: identifier_tuple_eq max_safety_identifier_length_def list_all_iff)
qed

lemma step_approvals_tuple:
  assumes "step_snapshot_ok s"
  shows "length (step_approvals y s) \<le> 512 \<and> distinct (map approval_key (step_approvals y s))"
  using assms
  by (auto simp: step_snapshot_ok_def step_approvals_def approval_key_def o_def distinct_map inj_on_def
      split: option.splits)

lemma step_prerequisites_tuple:
  assumes y: "policy_ok y" and as: "assumptions_ok as"
  shows "length (step_prerequisites y s as) \<le> 512 \<and>
    distinct (map prerequisite_key (step_prerequisites y s as))"
proof -
  let ?hp = "hr_prerequisites (v1_rule (step_hazard y s))"
  have "length ?hp \<le> 1" by (rule v1_rule_simps(9))
  then have "distinct (map (\<lambda>p. (prerequisite_kind_value (pqd_kind p), pqd_prerequisite_id p)) ?hp)"
    by (cases ?hp) auto
  moreover have "RequiredPrecondition \<noteq> pqd_kind p \<and> RequiredConstraint \<noteq> pqd_kind p \<and>
      pqd_kind p \<noteq> AssumptionVerification" if "p \<in> set ?hp" for p
    using v1_rule_simps(10) [of "step_hazard y s"] that by auto
  ultimately show ?thesis
    using undeclared_distinct [OF y, of s] as \<open>length ?hp \<le> 1\<close>
    by (auto simp: step_prerequisites_def assumptions_ok_def prerequisite_key_def o_def distinct_map
        inj_on_def prerequisite_kind_value_inject simp del: prerequisite_kind_value.simps)
qed

definition step_verdict ::
  "safety_policy \<Rightarrow> step_snapshot \<Rightarrow> assumption_snapshot list \<Rightarrow> step_decision" where
  "step_verdict y s as =
     \<lparr>sd_step_id = ns_step_id s, sd_capability_id = ns_capability_id s,
      sd_hazard_class = step_hazard y s, sd_disposition = step_disposition y s (as \<noteq> []),
      sd_reason_codes = enum_ordered safety_reasons (step_reasons y s (as \<noteq> [])),
      sd_policy_rules = sorted_set (step_rules y s),
      sd_required_approvals = sort_key approval_key (step_approvals y s),
      sd_prerequisites = sort_key prerequisite_key (step_prerequisites y s as)\<rparr>"

text \<open>The table meets the invariants that the constructor of a step decision checks.\<close>

lemma step_table_minimum:
  "hazard_minimum (step_hazard y s) \<le> step_disposition y s assumed"
  "step_hazard y s = Unclassified \<Longrightarrow> step_disposition y s assumed = Blocked"
  by (cases "hazard_minimum (step_hazard y s)";
      simp add: step_disposition_def Let_def less_eq_safety_disposition_def)+

lemma step_table_consistent:
  "step_disposition y s (as \<noteq> []) = EligibleForDownstream \<Longrightarrow>
     step_approvals y s = [] \<and> step_prerequisites y s as = []"
  "step_disposition y s (as \<noteq> []) = ExternalApprovalRequired \<Longrightarrow>
     step_approvals y s \<noteq> [] \<and> step_prerequisites y s as = []"
  "step_disposition y s (as \<noteq> []) = Deferred \<Longrightarrow> step_prerequisites y s as \<noteq> []"
  by (cases "hazard_minimum (step_hazard y s)";
      auto simp: step_disposition_def Let_def step_prerequisites_Nil step_approvals_Nil
        split: if_splits)+

lemma hazard_base_kind:
  "hazard_minimum h = Blocked \<Longrightarrow> hazard_base_reason h \<in> blocking_reasons"
  "hazard_minimum h = Deferred \<Longrightarrow> hazard_base_reason h \<in> defer_reasons"
  "hazard_minimum h = ExternalApprovalRequired \<Longrightarrow> hazard_base_reason h \<in> approval_reasons"
  by (cases h; simp add: blocking_reasons_def defer_reasons_def approval_reasons_def)+

lemma step_table_reasons:
  "hazard_base_reason (step_hazard y s) \<in> step_reasons y s assumed"
  "step_hazard y s = Unclassified \<Longrightarrow> UnknownCapabilityClass \<in> step_reasons y s assumed"
  "step_disposition y s assumed = Blocked \<Longrightarrow> step_reasons y s assumed \<inter> blocking_reasons \<noteq> {}"
  "step_disposition y s assumed = ExternalApprovalRequired \<Longrightarrow>
     step_reasons y s assumed \<inter> approval_reasons \<noteq> {}"
  "step_disposition y s assumed = Deferred \<Longrightarrow> step_reasons y s assumed \<inter> defer_reasons \<noteq> {}"
proof -
  have k: "RequiredSafetyMetadataMissing \<in> blocking_reasons"
    "CapabilityDeclarationConflict \<in> blocking_reasons"
    "ExecutiveApprovalUnverified \<in> approval_reasons" "UnverifiedAssumption \<in> defer_reasons"
    by (simp_all add: blocking_reasons_def defer_reasons_def approval_reasons_def)
  note hk = hazard_base_kind [of "step_hazard y s"]
  show "step_disposition y s assumed = Blocked \<Longrightarrow> step_reasons y s assumed \<inter> blocking_reasons \<noteq> {}"
    "step_disposition y s assumed = ExternalApprovalRequired \<Longrightarrow>
       step_reasons y s assumed \<inter> approval_reasons \<noteq> {}"
    "step_disposition y s assumed = Deferred \<Longrightarrow> step_reasons y s assumed \<inter> defer_reasons \<noteq> {}"
    using k hk by (auto simp: step_disposition_def Let_def step_reasons_def split: if_splits)
qed (simp_all add: step_reasons_def)

lemma step_reasons_nonempty [simp]: "step_reasons y s assumed \<noteq> {}"
  using step_table_reasons(1) by blast

lemma evaluate_step_verdict:
  assumes y: "policy_ok y" and s: "step_snapshot_ok s" and as: "assumptions_ok as"
  shows "evaluate_step \<lparr>sk_policy = y\<rparr> s as = Inr (step_verdict y s as)"
proof -
  have ids: "identifier_ok (ns_step_id s)" "identifier_ok (ns_capability_id s)"
    using s by (simp_all add: step_snapshot_ok_def)
  have ap: "ordered_objects approval_key (step_approvals y s) =
      Inr (sort_key approval_key (step_approvals y s))"
    using step_approvals_tuple [OF s, of y] by (simp add: ordered_objects.build_eq)
  have pr: "ordered_objects prerequisite_key (step_prerequisites y s as) =
      Inr (sort_key prerequisite_key (step_prerequisites y s as))"
    using step_prerequisites_tuple [OF y as, of s] by (simp add: ordered_objects.build_eq)
  have own: "sa_affected_step a = ns_step_id s" if "a \<in> set (step_approvals y s)" for a
    using that by (auto simp: step_approvals_def split: option.splits)
  have own': "sp_affected_step p = ns_step_id s" if "p \<in> set (step_prerequisites y s as)" for p
    using that by (auto simp: step_prerequisites_def)
  show ?thesis
    unfolding evaluate_step_collects [OF y s as] mk_step_decision_def safety_identifier_eq
      step_rules_tuple [OF y] ap pr
    using step_table_minimum [of y s "as \<noteq> []"] step_table_consistent [of y s as]
      step_table_reasons [of y s "as \<noteq> []"] ids own own'
    by (simp add: raise_if_def disposition_less_eq list_ex_iff step_rules_def step_verdict_def)
qed

end
