(* ===== verification/Safety_Snapshot.thy ===== *)
theory Safety_Snapshot
  imports Safety_Proposal
begin

text \<open>
  What \<open>snapshot_proposal\<close> establishes about the decision it copies: each part is well formed, the
  steps are the plan's in a topological order, the plan and the decision agree, and the copy is the
  one of a decision whose content has the fingerprint that it declares.
\<close>

section \<open>Texts and identifiers are those of the Executive\<close>

lemma proposal_text_eq [simp]:
  "proposal_text s = (if text_ok s then Inr () else Inl invalid_proposal)"
  by (auto simp: proposal_text_def text_ok_def exact_text_ok_def max_text_length_def raise_if_def)

lemma proposal_identifier_eq [simp]:
  "proposal_identifier s = (if identifier_ok s then Inr s else Inl invalid_proposal)"
  by (auto simp: proposal_identifier_def identifier_ok_def max_identifier_length_def raise_if_def
      list_all_iff list_ex_iff)

lemma traverse_identifiers:
  "traverse proposal_identifier xs = (if list_all identifier_ok xs then Inr xs else Inl invalid_proposal)"
  by (induction xs) auto

lemma safety_limits_eq: "safety_json_limits = exec_json_limits"
  by (simp add: safety_json_limits_def exec_json_limits_def)

section \<open>Tuples of snapshots\<close>

lemma traverse_image:
  "traverse f xs = Inr ys \<Longrightarrow> y \<in> set ys \<Longrightarrow> \<exists>x \<in> set xs. f x = Inr y"
  "traverse f xs = Inr ys \<Longrightarrow> x \<in> set xs \<Longrightarrow> \<exists>y \<in> set ys. f x = Inr y"
  by (induction xs arbitrary: ys) (auto simp: res_simps)

lemma unique_ordered_Inr:
  "unique_ordered key xs = Inr ys \<longleftrightarrow> distinct (map key xs) \<and> ys = sort_key key xs"
  by (auto simp: unique_ordered_def res_simps)

lemma snapshot_tuple_Inr:
  "snapshot_tuple f key xs = Inr ys \<longleftrightarrow>
     length xs \<le> 128 \<and> (\<exists>zs. traverse f xs = Inr zs \<and> distinct (map key zs) \<and> ys = sort_key key zs)"
  by (auto simp: snapshot_tuple_def typed_items_def max_proposal_items_def res_simps
      unique_ordered_Inr)

text \<open>A tuple whose items all have a snapshot.\<close>

lemma snapshot_tuple_map:
  assumes "\<And>x. x \<in> set xs \<Longrightarrow> f x = Inr (g x)" "length xs \<le> 128" "distinct (map (key \<circ> g) xs)"
  shows "snapshot_tuple f key xs = Inr (sort_key key (map g xs))"
  using assms traverse_map [of xs f g] by (auto simp: snapshot_tuple_Inr)

lemma snapshot_tuple_props:
  assumes "snapshot_tuple f key xs = Inr ys"
  shows "length ys = length xs" "length ys \<le> 128" "distinct (map key ys)" "sorted (map key ys)"
    "y \<in> set ys \<Longrightarrow> \<exists>x \<in> set xs. f x = Inr y" "x \<in> set xs \<Longrightarrow> \<exists>y \<in> set ys. f x = Inr y"
proof -
  obtain zs where z: "length xs \<le> 128" "traverse f xs = Inr zs" "distinct (map key zs)"
      "ys = sort_key key zs"
    using assms by (auto simp: snapshot_tuple_Inr)
  then show "length ys = length xs" "length ys \<le> 128" "distinct (map key ys)" "sorted (map key ys)"
    by (auto dest: traverse_length)
  show "\<exists>x \<in> set xs. f x = Inr y" if "y \<in> set ys"
    using that traverse_image(1) [OF z(2)] z(4) by simp
  show "\<exists>y \<in> set ys. f x = Inr y" if "x \<in> set xs"
    using that traverse_image(2) [OF z(2)] z(4) by simp
qed

section \<open>Well-formed parts\<close>

definition approval_snapshot_ok :: "approval_snapshot \<Rightarrow> bool" where
  "approval_snapshot_ok a \<longleftrightarrow> identifier_ok (ns_approval_id a) \<and> text_ok (ns_approval_description a)"

definition assumption_snapshot_ok :: "assumption_snapshot \<Rightarrow> bool" where
  "assumption_snapshot_ok a \<longleftrightarrow>
     identifier_ok (ns_assumption_id a) \<and> text_ok (ns_assumption_description a)"

definition plan_step_snapshot_ok :: "step_snapshot \<Rightarrow> bool" where
  "plan_step_snapshot_ok s \<longleftrightarrow>
     identifier_ok (ns_step_id s) \<and> identifier_ok (ns_capability_id s) \<and>
     sorted (ns_dependencies s) \<and> distinct (ns_dependencies s) \<and>
     list_all identifier_ok (ns_dependencies s) \<and> ns_step_id s \<notin> set (ns_dependencies s) \<and>
     length (ns_required_approvals s) \<le> 128 \<and>
     distinct (map ns_approval_id (ns_required_approvals s)) \<and>
     list_all approval_snapshot_ok (ns_required_approvals s)"

lemma snapshot_approval_Inr:
  "snapshot_approval a = Inr s \<longleftrightarrow> approval_ok a \<and>
     s = \<lparr>ns_approval_id = ap_approval_id a, ns_approval_description = ap_description a\<rparr>"
  by (auto simp: snapshot_approval_def approval_ok_def res_simps)

lemma snapshot_assumption_Inr:
  "snapshot_assumption a = Inr s \<longleftrightarrow> assumption_ok a \<and>
     s = \<lparr>ns_assumption_id = as_assumption_id a, ns_assumption_description = as_description a\<rparr>"
  by (auto simp: snapshot_assumption_def assumption_ok_def res_simps)

lemma snapshot_approval_ok: "snapshot_approval a = Inr s \<Longrightarrow> approval_snapshot_ok s"
  by (auto simp: snapshot_approval_Inr approval_ok_def approval_snapshot_ok_def)

lemma snapshot_assumption_ok: "snapshot_assumption a = Inr s \<Longrightarrow> assumption_snapshot_ok s"
  by (auto simp: snapshot_assumption_Inr assumption_ok_def assumption_snapshot_ok_def)

lemma snapshot_precondition_Inr:
  "snapshot_precondition p = Inr s \<longleftrightarrow> precondition_ok p \<and>
     s = \<lparr>ns_precondition_id = pc_precondition_id p, ns_precondition_description = pc_description p\<rparr>"
  by (auto simp: snapshot_precondition_def precondition_ok_def res_simps)

lemma domain_names: "context_domain_value d \<in> set context_domain_names"
  by (cases d) (simp_all add: context_domain_names_def)

lemma state_names: "context_state_value s \<in> set context_state_names"
  by (cases s) (simp_all add: context_state_names_def)

lemma snapshot_requirement_Inr:
  "snapshot_requirement r = Inr s \<longleftrightarrow> requirement_ok r \<and>
     s = \<lparr>ns_domain = context_domain_value (cr_domain r), ns_predicate = cr_predicate r\<rparr>"
  by (auto simp: snapshot_requirement_def requirement_ok_def res_simps domain_names)

text \<open>The parameters of a step: a bounded dict, copied as its canonical text.\<close>

definition dict_params_ok :: "pyval \<Rightarrow> bool" where
  "dict_params_ok v \<longleftrightarrow>
     is_dict v \<and> validate_value exec_json_limits executive_validation v = Inr ()"

lemma safety_copy_ok:
  "dict_params_ok v \<Longrightarrow> safety_copy e v = Inr v \<and> safety_canonicalize e v = Inr (canon v)"
  using validate_value_cong [of exec_json_limits executive_validation v "()" e]
  by (simp add: dict_params_ok_def safety_copy_def safety_canonicalize_def safety_limits_eq
      canonicalize_value_canon)

lemma exec_dict_property_Inr:
  "exec_dict_property v = Inr w \<longleftrightarrow> dict_params_ok v \<and> w = v"
  by (auto simp: exec_dict_property_def exec_copy_def dict_params_ok_def res_simps)

lemma snapshot_constraint_Inr:
  "snapshot_constraint c = Inr s \<longleftrightarrow>
     identifier_ok (co_constraint_id c) \<and> text_ok (co_description c) \<and>
     dict_params_ok (co_parameters c) \<and>
     s = \<lparr>ns_constraint_id = co_constraint_id c, ns_constraint_description = co_description c,
          ns_constraint_parameters = canon (co_parameters c)\<rparr>"
  by (auto simp: snapshot_constraint_def res_simps exec_dict_property_Inr safety_copy_ok
      dict_params_ok_def [of "co_parameters c"])

lemma snapshot_step_Inr:
  "snapshot_step p = Inr s \<longleftrightarrow>
     identifier_ok (ps_step_id p) \<and> identifier_ok (ps_capability_id p) \<and>
     dict_params_ok (ps_parameters p) \<and> list_all identifier_ok (ps_dependencies p) \<and>
     sorted (ps_dependencies p) \<and> distinct (ps_dependencies p) \<and>
     ps_step_id p \<notin> set (ps_dependencies p) \<and>
     ns_step_id s = ps_step_id p \<and> ns_capability_id s = ps_capability_id p \<and>
     ns_parameters s = canon (ps_parameters p) \<and> ns_dependencies s = ps_dependencies p \<and>
     ns_expected_result s = ps_expected_result p \<and> ns_failure_policy s = ps_failure_policy p \<and>
     snapshot_tuple snapshot_precondition ns_precondition_id (ps_preconditions p) =
       Inr (ns_preconditions s) \<and>
     snapshot_tuple snapshot_requirement requirement_snapshot_key (ps_required_context p) =
       Inr (ns_required_context s) \<and>
     snapshot_tuple snapshot_approval ns_approval_id (ps_required_approvals p) =
       Inr (ns_required_approvals s) \<and>
     snapshot_tuple snapshot_constraint ns_constraint_id (ps_constraints p) = Inr (ns_constraints s)"
  by (cases s) (auto simp: snapshot_step_def res_simps step_parameters_def exec_dict_property_Inr
      traverse_identifiers safety_copy_ok dict_params_ok_def [of "ps_parameters p"] split: if_splits)

lemma snapshot_step_ok: "snapshot_step p = Inr s \<Longrightarrow> plan_step_snapshot_ok s"
proof -
  assume s: "snapshot_step p = Inr s"
  then have a: "snapshot_tuple snapshot_approval ns_approval_id (ps_required_approvals p) =
      Inr (ns_required_approvals s)" by (simp add: snapshot_step_Inr)
  have "list_all approval_snapshot_ok (ns_required_approvals s)"
    unfolding list_all_iff using snapshot_tuple_props(5) [OF a] snapshot_approval_ok by blast
  with s snapshot_tuple_props(2,3) [OF a] show ?thesis
    by (simp add: snapshot_step_Inr plan_step_snapshot_ok_def)
qed

section \<open>The plan is sorted again\<close>

lemma snapshot_graph_simps [simp]:
  "node_ids (snapshot_graph steps) = map ns_step_id steps"
  "length (snapshot_graph steps) = length steps"
  by (simp_all add: node_ids_def snapshot_graph_def)

lemma snapshot_graph_proper:
  "list_all plan_step_snapshot_ok steps \<Longrightarrow> distinct (map ns_step_id steps) \<Longrightarrow>
   proper (snapshot_graph steps)"
  by (auto simp: proper_def snapshot_graph_def plan_step_snapshot_ok_def list_all_iff o_def)

lemma topological_steps_distinct:
  "topological_steps e (snapshot_graph steps) = Inr order \<Longrightarrow> distinct (map ns_step_id steps)"
  using card_distinct [of "map ns_step_id steps"] by (simp add: topological_steps_def res_simps)

lemma ordered_steps_Inr:
  assumes ok: "list_all plan_step_snapshot_ok steps" and o: "ordered_steps steps = Inr ordered"
  shows "mset ordered = mset steps \<and> distinct (map ns_step_id steps) \<and>
    topo_sorted (snapshot_graph steps) (map ns_step_id ordered)"
proof -
  obtain order where ord: "topological_steps safety_plan_invariant (snapshot_graph steps) = Inr order"
    and tr: "traverse (\<lambda>i. dict_item (index_get ns_step_id steps i)) order = Inr ordered"
    using o by (auto simp: ordered_steps_def res_simps)
  have d: "distinct (map ns_step_id steps)" using topological_steps_distinct [OF ord] .
  note p = snapshot_graph_proper [OF ok d]
  have t: "topo_sorted (snapshot_graph steps) order" by (rule safety_order.sound [OF p ord])
  have l: "list_all2 (\<lambda>i s. s \<in> set steps \<and> ns_step_id s = i) order ordered"
    using tr by (auto simp: traverse_Inr dict_item_Inr index_get_Some [OF d])
  then have ids: "map ns_step_id ordered = order"
    by (auto simp: list_all2_conv_all_nth intro: nth_equalityI)
  have sub: "set ordered \<subseteq> set steps"
    using l by (auto simp: list_all2_conv_all_nth in_set_conv_nth)
  have "set steps \<subseteq> set ordered"
  proof
    fix s assume s: "s \<in> set steps"
    then have "ns_step_id s \<in> set (map ns_step_id ordered)"
      using t ids by (simp add: topo_sorted_def)
    then obtain r where "r \<in> set ordered" "ns_step_id r = ns_step_id s" by auto
    then show "s \<in> set ordered" using d s sub by (metis distinct_map inj_onD subsetD)
  qed
  moreover have "distinct ordered" "distinct steps"
    using t ids d by (auto simp: topo_sorted_def distinct_map)
  ultimately have "mset ordered = mset steps"
    using sub set_eq_iff_mset_eq_distinct [of ordered steps] by auto
  with d t ids show ?thesis by simp
qed

section \<open>The contents\<close>

lemma snapshot_plan_Inr:
  assumes "snapshot_plan d = Inr steps"
  shows "\<exists>plan raw. ed_proposed_plan d = Some plan \<and>
    pl_steps plan \<noteq> [] \<and> length (pl_steps plan) \<le> 64 \<and>
    (ed_decision_type d = Propose \<and> ed_reason_codes d = [ReadyForSafetyReview] \<or>
     ed_decision_type d = RequestApproval \<and> ed_reason_codes d = [ApprovalRequired]) \<and>
    traverse snapshot_step (pl_steps plan) = Inr raw \<and> list_all plan_step_snapshot_ok raw \<and>
    mset steps = mset raw \<and> distinct (map ns_step_id raw) \<and>
    topo_sorted (snapshot_graph raw) (map ns_step_id steps)"
proof -
  obtain plan raw where p: "ed_proposed_plan d = Some plan" "pl_steps plan \<noteq> []"
    "length (pl_steps plan) \<le> 64" "traverse snapshot_step (pl_steps plan) = Inr raw"
    "ordered_steps raw = Inr steps"
    and "ed_decision_type d = Propose \<and> ed_reason_codes d = [ReadyForSafetyReview] \<or>
      ed_decision_type d = RequestApproval \<and> ed_reason_codes d = [ApprovalRequired]"
    using assms by (auto simp: snapshot_plan_def typed_items_def res_simps max_proposal_steps_def
        split: option.splits if_splits)
  moreover have "list_all plan_step_snapshot_ok raw"
    using traverse_image(1) [OF p(4)] snapshot_step_ok by (auto simp: list_all_iff)
  ultimately show ?thesis using ordered_steps_Inr by blast
qed

lemma snapshot_contents_Inr:
  "snapshot_contents d = Inr c \<longleftrightarrow>
     snapshot_plan d = Inr (pn_steps c) \<and> snapshot_context d = Inr (pn_references c) \<and>
     snapshot_tuple snapshot_assumption ns_assumption_id (ed_assumptions d) = Inr (pn_assumptions c) \<and>
     snapshot_tuple snapshot_approval ns_approval_id (ed_required_approvals d) = Inr (pn_approvals c) \<and>
     snapshot_tuple snapshot_constraint ns_constraint_id (ed_constraints d) = Inr (pn_constraints c) \<and>
     list_all identifier_ok (ed_required_capabilities d) \<and>
     sorted (ed_required_capabilities d) \<and> distinct (ed_required_capabilities d) \<and>
     ed_required_capabilities d \<noteq> [] \<and> pn_capabilities c = ed_required_capabilities d"
  by (cases c) (auto simp: snapshot_contents_def res_simps traverse_identifiers split: if_splits)

lemma check_relations_Inr:
  "check_relations t c = Inr u \<longleftrightarrow>
     set (pn_capabilities c) = ns_capability_id ` set (pn_steps c) \<and>
     (\<Union>s \<in> set (pn_steps c). approval_snapshot_key ` set (ns_required_approvals s)) =
       approval_snapshot_key ` set (pn_approvals c) \<and>
     (t = Propose \<longrightarrow> pn_approvals c = []) \<and> (t = RequestApproval \<longrightarrow> pn_approvals c \<noteq> []) \<and>
     (\<Union>s \<in> set (pn_steps c). constraint_snapshot_key ` set (ns_constraints s)) =
       constraint_snapshot_key ` set (pn_constraints c) \<and>
     (\<Union>s \<in> set (pn_steps c). requirement_snapshot_key ` set (ns_required_context s)) =
       (\<lambda>r. requirement_snapshot_key (ns_requirement r)) ` {r \<in> set (pn_references c). ns_required r} \<and>
     (\<forall>r \<in> set (pn_references c). ns_required r \<longrightarrow> ns_state r = ''resolved'')"
  by (auto simp: check_relations_def Let_def res_simps list_ex_iff)

definition fingerprint_ok :: "fingerprint_kind \<Rightarrow> exec_fingerprint \<Rightarrow> bool" where
  "fingerprint_ok kind f \<longleftrightarrow> fp_kind f = kind \<and> fp_algorithm f = ''sha256'' \<and>
     fp_schema_version f = 1 \<and> hex_digest_ok (fp_digest f)"

lemma proposal_fingerprint_eq:
  "proposal_fingerprint kind f = (if fingerprint_ok kind f then Inr f else Inl invalid_proposal)"
  by (auto simp: proposal_fingerprint_def fingerprint_ok_def raise_if_def)

lemma check_provenance_Inr:
  "check_provenance d = Inr v \<longleftrightarrow>
     fingerprint_ok FpDecision (ed_decision_fingerprint d) \<and>
     fingerprint_ok FpRequest (ed_request_fingerprint d) \<and>
     fingerprint_ok FpCapabilityContract (ed_capability_contract_fingerprint d) \<and>
     fingerprint_ok FpRelevantContext (ed_relevant_context_fingerprint d) \<and>
     text_ok (ed_decision_id d) \<and>
     ed_decision_id d = ''decision-'' @ fp_digest (ed_decision_fingerprint d) \<and>
     text_ok (ed_request_id d) \<and> text_ok (ed_owner_subject d) \<and> text_ok (ed_explanation d) \<and>
     csv_algorithm (ed_context_snapshot_version d) = ''sha256'' \<and>
     csv_schema_version (ed_context_snapshot_version d) = 1 \<and>
     hex_digest_ok (csv_digest (ed_context_snapshot_version d)) \<and>
     v = ''sha256:'' @ csv_digest (ed_context_snapshot_version d)"
  by (auto simp: check_provenance_def Let_def res_simps proposal_fingerprint_eq split: if_splits)

section \<open>The snapshot\<close>

lemma inspected_Inr [simp]: "inspected r = Inr s \<longleftrightarrow> r = Inr s"
  by (auto simp: inspected_def split: sum.splits exn.splits)

text \<open>Whatever the proposal, an accepted one passed every check.\<close>

lemma snapshot_proposal_Inr:
  "snapshot_proposal strict d = Inr s \<longleftrightarrow> (\<exists>c version.
     snapshot_contents d = Inr c \<and> check_relations (ed_decision_type d) c = Inr () \<and>
     check_provenance d = Inr version \<and> check_integrity strict d = Inr () \<and>
     validate_value safety_fingerprint_limits invalid_proposal (proposal_document d c version) = Inr () \<and>
     s = \<lparr>pp_source_decision_id = ed_decision_id d, pp_source_request_id = ed_request_id d,
          pp_owner_subject = ed_owner_subject d,
          pp_source_decision_fingerprint = ed_decision_fingerprint d,
          pp_context_snapshot_version = version, pp_steps = pn_steps c,
          pp_references = pn_references c, pp_assumptions = pn_assumptions c,
          pp_fingerprint = safety_sha SfProposal (canon (proposal_document d c version))\<rparr>)"
  by (auto simp: snapshot_proposal_def res_simps safety_fingerprint_document_Inr)

lemma snapshot_proposal_parts:
  assumes "snapshot_proposal strict d = Inr s"
  shows "pp_steps s \<noteq> []" "length (pp_steps s) \<le> 64" "list_all plan_step_snapshot_ok (pp_steps s)"
    "distinct (map ns_step_id (pp_steps s))" "length (pp_assumptions s) \<le> 128"
    "distinct (map ns_assumption_id (pp_assumptions s))"
    "list_all assumption_snapshot_ok (pp_assumptions s)"
    "text_ok (pp_source_decision_id s)" "text_ok (pp_source_request_id s)"
    "text_ok (pp_owner_subject s)" "fp_kind (pp_source_decision_fingerprint s) = FpDecision"
    "sf_kind (pp_fingerprint s) = SfProposal"
proof -
  obtain c version where c: "snapshot_contents d = Inr c" and v: "check_provenance d = Inr version"
    and s: "pp_steps s = pn_steps c" "pp_assumptions s = pn_assumptions c"
    and f: "pp_source_decision_id s = ed_decision_id d" "pp_source_request_id s = ed_request_id d"
      "pp_owner_subject s = ed_owner_subject d"
      "pp_source_decision_fingerprint s = ed_decision_fingerprint d"
      "sf_kind (pp_fingerprint s) = SfProposal"
    using assms by (auto simp: snapshot_proposal_Inr)
  have "snapshot_plan d = Inr (pn_steps c)" using c by (simp add: snapshot_contents_Inr)
  from snapshot_plan_Inr [OF this]
  obtain plan raw where "ed_proposed_plan d = Some plan"
    and raw: "pl_steps plan \<noteq> []" "length (pl_steps plan) \<le> 64"
      "traverse snapshot_step (pl_steps plan) = Inr raw" "list_all plan_step_snapshot_ok raw"
      "mset (pn_steps c) = mset raw" "distinct (map ns_step_id raw)"
      "topo_sorted (snapshot_graph raw) (map ns_step_id (pn_steps c))"
    by blast
  have "length (pn_steps c) = length (pl_steps plan)"
    using traverse_length [OF raw(3)] mset_eq_length [OF raw(5)] by simp
  then show "pp_steps s \<noteq> []" "length (pp_steps s) \<le> 64"
    using raw(1,2) by (auto simp: s)
  show "list_all plan_step_snapshot_ok (pp_steps s)"
    using raw(4) mset_eq_setD [OF raw(5)] by (simp add: s list_all_iff)
  show "distinct (map ns_step_id (pp_steps s))"
    using raw(7) by (simp add: s topo_sorted_def)
  have a: "snapshot_tuple snapshot_assumption ns_assumption_id (ed_assumptions d) = Inr (pn_assumptions c)"
    using c by (simp add: snapshot_contents_Inr)
  show "length (pp_assumptions s) \<le> 128" "distinct (map ns_assumption_id (pp_assumptions s))"
    using snapshot_tuple_props(2,3) [OF a] by (simp_all add: s)
  show "list_all assumption_snapshot_ok (pp_assumptions s)"
    unfolding s list_all_iff using snapshot_tuple_props(5) [OF a] snapshot_assumption_ok by blast
  have pv: "text_ok (ed_decision_id d)" "text_ok (ed_request_id d)" "text_ok (ed_owner_subject d)"
    "fp_kind (ed_decision_fingerprint d) = FpDecision"
    using v unfolding check_provenance_Inr fingerprint_ok_def by blast+
  show "text_ok (pp_source_decision_id s)" "text_ok (pp_source_request_id s)"
    "text_ok (pp_owner_subject s)" "fp_kind (pp_source_decision_fingerprint s) = FpDecision"
    "sf_kind (pp_fingerprint s) = SfProposal"
    using pv by (simp_all add: f)
qed

end
