(* ===== verification/Safety_Evaluation.thy ===== *)
theory Safety_Evaluation
  imports Safety_Service Safety_Snapshot
begin

text \<open>
  The evaluation of an accepted proposal: every step gets the decision of the table, the aggregate
  limits are never reached, and the only way left to fail is the size of the decision document.
\<close>

section \<open>The parts of a snapshot meet the conditions of the table\<close>

lemma step_snapshot_okI: "plan_step_snapshot_ok s \<Longrightarrow> step_snapshot_ok s"
  by (auto simp: plan_step_snapshot_ok_def step_snapshot_ok_def approval_snapshot_ok_def list_all_iff)

lemma assumptions_okI:
  "length as \<le> 128 \<Longrightarrow> distinct (map ns_assumption_id as) \<Longrightarrow> list_all assumption_snapshot_ok as \<Longrightarrow>
   assumptions_ok as"
  by (auto simp: assumptions_ok_def assumption_snapshot_ok_def list_all_iff)

lemma assumptions_ok_Nil [simp]: "assumptions_ok []"
  by (simp add: assumptions_ok_def)

section \<open>The verdicts of all steps\<close>

definition step_verdicts ::
  "safety_policy \<Rightarrow> step_snapshot list \<Rightarrow> assumption_snapshot list \<Rightarrow> step_decision list" where
  "step_verdicts y steps as =
     (case steps of [] \<Rightarrow> [] | s # ss \<Rightarrow> step_verdict y s as # map (\<lambda>t. step_verdict y t []) ss)"

lemma evaluate_steps_verdicts:
  assumes y: "policy_ok y" and s: "list_all plan_step_snapshot_ok steps" and as: "assumptions_ok as"
  shows "evaluate_steps \<lparr>sk_policy = y\<rparr> steps as = Inr (step_verdicts y steps as)"
proof (cases steps)
  case (Cons t ts)
  have first: "evaluate_step \<lparr>sk_policy = y\<rparr> t as = Inr (step_verdict y t as)"
    using s Cons by (intro evaluate_step_verdict [OF y _ as]) (auto intro: step_snapshot_okI)
  have rest: "evaluate_step \<lparr>sk_policy = y\<rparr> u [] = Inr (step_verdict y u [])" if "u \<in> set ts" for u
    using s Cons that
    by (intro evaluate_step_verdict [OF y]) (auto simp: list_all_iff intro: step_snapshot_okI)
  have "zip [0..<length steps] steps = (0, t) # zip [Suc 0..<Suc (length ts)] ts"
    by (simp add: Cons upt_conv_Cons del: upt_Suc)
  moreover have "traverse (\<lambda>(i, s). evaluate_step \<lparr>sk_policy = y\<rparr> s (if i = 0 then as else []))
      (zip [Suc 0..<Suc (length ts)] ts) =
    Inr (map (\<lambda>(i, s). step_verdict y s []) (zip [Suc 0..<Suc (length ts)] ts))"
    using rest by (intro traverse_map) (auto simp: in_set_zip simp del: upt_Suc)
  moreover have "map (\<lambda>(i, s). step_verdict y s []) (zip [Suc 0..<Suc (length ts)] ts) =
      map (\<lambda>t. step_verdict y t []) ts"
    by (rule nth_equalityI) (simp_all del: upt_Suc)
  ultimately show ?thesis
    using first by (simp add: evaluate_steps_def step_verdicts_def Cons)
qed (simp add: evaluate_steps_def step_verdicts_def)

lemma step_verdicts_ids [simp]:
  "map sd_step_id (step_verdicts y steps as) = map ns_step_id steps"
  "length (step_verdicts y steps as) = length steps"
  "step_verdicts y steps as = [] \<longleftrightarrow> steps = []"
  by (simp_all add: step_verdicts_def step_verdict_def split: list.splits)

lemma step_verdicts_mem:
  "v \<in> set (step_verdicts y steps as) \<Longrightarrow> \<exists>s \<in> set steps. v = step_verdict y s as \<or> v = step_verdict y s []"
  by (auto simp: step_verdicts_def split: list.splits)

lemma step_verdict_mem:
  "s \<in> set steps \<Longrightarrow> step_verdict y s as \<in> set (step_verdicts y steps as) \<or>
     step_verdict y s [] \<in> set (step_verdicts y steps as)"
  by (cases steps) (auto simp: step_verdicts_def)

lemma step_verdict_ok:
  "policy_ok y \<Longrightarrow> step_snapshot_ok s \<Longrightarrow> assumptions_ok as \<Longrightarrow> step_decision_ok (step_verdict y s as)"
  using evaluate_step_verdict [of y s as] evaluate_step_collects [of y s as]
  by (auto intro: mk_step_decision_ok)

lemma step_verdicts_ok:
  "policy_ok y \<Longrightarrow> list_all plan_step_snapshot_ok steps \<Longrightarrow> assumptions_ok as \<Longrightarrow>
   list_all step_decision_ok (step_verdicts y steps as)"
  by (auto simp: list_all_iff dest!: step_verdicts_mem intro!: step_verdict_ok step_snapshot_okI)

section \<open>The aggregate limits are never reached\<close>

lemma sum_list_bound: "(\<And>x. x \<in> set xs \<Longrightarrow> f x \<le> k) \<Longrightarrow> sum_list (map f xs) \<le> length xs * (k::nat)"
  by (induction xs) (auto simp: add_mono)

lemma step_approvals_length: "plan_step_snapshot_ok s \<Longrightarrow> length (step_approvals y s) \<le> 129"
  by (auto simp: step_approvals_def plan_step_snapshot_ok_def split: option.splits)

lemma step_prerequisites_length:
  "policy_ok y \<Longrightarrow> length (step_prerequisites y s as) \<le> 257 + length as"
  using undeclared_distinct [of y s] v1_rule_simps(9) [of "step_hazard y s"]
  by (simp add: step_prerequisites_def)

lemma aggregate_lengths:
  assumes y: "policy_ok y" and s: "list_all plan_step_snapshot_ok steps" "length steps \<le> 64"
    and as: "length as \<le> 128"
  shows "length (decision_approvals (step_verdicts y steps as)) \<le> 20000"
    "length (decision_prerequisites (step_verdicts y steps as)) \<le> 20000"
proof -
  let ?v = "step_verdicts y steps as"
  have "length (sd_required_approvals v) \<le> 129" if "v \<in> set ?v" for v
    using step_verdicts_mem [OF that] s(1) step_approvals_length
    by (auto simp: step_verdict_def list_all_iff)
  then have "length (concat (map sd_required_approvals ?v)) \<le> length steps * 129"
    using sum_list_bound [of ?v "\<lambda>v. length (sd_required_approvals v)" 129]
    by (simp add: length_concat o_def)
  then show "length (decision_approvals ?v) \<le> 20000"
    using s(2) order_trans [OF length_remdups_leq [of "concat (map sd_required_approvals ?v)"]]
    by (simp add: decision_approvals_def)
  have rest: "sum_list (map (\<lambda>t. length (step_prerequisites y t [])) ts) \<le> length ts * 257" for ts
    using step_prerequisites_length [OF y, of _ "[]"] by (intro sum_list_bound) simp
  have "length (concat (map sd_prerequisites ?v)) \<le> length steps * 257 + 128"
  proof (cases steps)
    case (Cons t ts)
    then show ?thesis
      using rest [of ts] step_prerequisites_length [OF y, of t as] as
      by (simp add: step_verdicts_def step_verdict_def length_concat o_def)
  qed (simp add: step_verdicts_def)
  then show "length (decision_prerequisites ?v) \<le> 20000"
    using s(2) order_trans [OF length_remdups_leq [of "concat (map sd_prerequisites ?v)"]]
    by (simp add: decision_prerequisites_def)
qed

section \<open>The decision on an accepted proposal\<close>

definition proposal_decision_document :: "safety_policy \<Rightarrow> proposal_snapshot \<Rightarrow> pyval" where
  "proposal_decision_document y p =
     safety_decision_document (pp_source_decision_id p) (pp_source_request_id p) (pp_owner_subject p)
       (pp_source_decision_fingerprint p) (sy_version y) (sy_fingerprint y) (pp_fingerprint p)
       (step_verdicts y (pp_steps p) (pp_assumptions p))"

definition proposal_decision :: "safety_policy \<Rightarrow> proposal_snapshot \<Rightarrow> safety_decision" where
  "proposal_decision y p =
     (let steps = step_verdicts y (pp_steps p) (pp_assumptions p);
          fingerprint = safety_sha SfDecision (canon (proposal_decision_document y p)) in
      \<lparr>yd_decision_id = ''safety-decision-'' @ sf_digest fingerprint,
       yd_disposition = strongest (map sd_disposition steps),
       yd_reason_codes = decision_reasons steps,
       yd_source_decision_id = pp_source_decision_id p,
       yd_source_request_id = pp_source_request_id p, yd_owner_subject = pp_owner_subject p,
       yd_source_decision_fingerprint = pp_source_decision_fingerprint p,
       yd_policy_version = sy_version y, yd_policy_fingerprint = sy_fingerprint y,
       yd_proposal_fingerprint = pp_fingerprint p, yd_decision_fingerprint = fingerprint,
       yd_step_decisions = steps, yd_required_approvals = decision_approvals steps,
       yd_prerequisites = decision_prerequisites steps\<rparr>)"

lemma policy_version_ok [simp]: "text_ok safety_policy_version"
  by (simp add: safety_policy_version_def text_evals)

lemma evaluate_snapshot:
  assumes y: "policy_ok y" and p: "snapshot_proposal strict d = Inr p"
  shows "evaluate_steps \<lparr>sk_policy = y\<rparr> (pp_steps p) (pp_assumptions p) =
      Inr (step_verdicts y (pp_steps p) (pp_assumptions p))"
    "mk_safety_decision (pp_source_decision_id p) (pp_source_request_id p) (pp_owner_subject p)
       (pp_source_decision_fingerprint p) (sy_version y) (sy_fingerprint y) (pp_fingerprint p)
       (step_verdicts y (pp_steps p) (pp_assumptions p)) =
     tryE (validate_value safety_fingerprint_limits safety_decision_invariant
             (proposal_decision_document y p)) (\<lambda>_. Inr (proposal_decision y p))"
proof -
  note parts = snapshot_proposal_parts [OF p]
  have as: "assumptions_ok (pp_assumptions p)" using parts(5-7) by (rule assumptions_okI)
  show "evaluate_steps \<lparr>sk_policy = y\<rparr> (pp_steps p) (pp_assumptions p) =
      Inr (step_verdicts y (pp_steps p) (pp_assumptions p))"
    by (rule evaluate_steps_verdicts [OF y parts(3) as])
  have v: "sy_version y = safety_policy_version" "sf_kind (sy_fingerprint y) = SfPolicy"
    using y by (simp_all add: policy_ok_def)
  show "mk_safety_decision (pp_source_decision_id p) (pp_source_request_id p) (pp_owner_subject p)
       (pp_source_decision_fingerprint p) (sy_version y) (sy_fingerprint y) (pp_fingerprint p)
       (step_verdicts y (pp_steps p) (pp_assumptions p)) =
     tryE (validate_value safety_fingerprint_limits safety_decision_invariant
             (proposal_decision_document y p)) (\<lambda>_. Inr (proposal_decision y p))"
    using parts v aggregate_lengths [OF y parts(3,2,5)]
    by (simp add: mk_safety_decision_def max_safety_steps_def max_safety_aggregate_items_def
        safety_fingerprint_document_eq proposal_decision_document_def proposal_decision_def
        raise_if_def tryE_def Let_def split: sum.splits)
qed

text \<open>The evaluation is the snapshot, the table, and the size check of the decision document.\<close>

lemma evaluate_proposal_eq:
  assumes "policy_ok y"
  shows "evaluate_proposal \<lparr>sk_policy = y\<rparr> d =
    tryE (snapshot_proposal True d) (\<lambda>p.
    tryE (validate_value safety_fingerprint_limits safety_decision_invariant
            (proposal_decision_document y p)) (\<lambda>_. Inr (proposal_decision y p)))"
  by (cases "snapshot_proposal True d")
    (simp_all add: evaluate_proposal_def evaluate_snapshot [OF assms, of True d])

lemma evaluate_proposal_Inr:
  assumes "policy_ok y"
  shows "evaluate_proposal \<lparr>sk_policy = y\<rparr> d = Inr z \<longleftrightarrow>
    (\<exists>p. snapshot_proposal True d = Inr p \<and>
      validate_value safety_fingerprint_limits safety_decision_invariant
        (proposal_decision_document y p) = Inr () \<and> z = proposal_decision y p)"
  by (auto simp: evaluate_proposal_eq [OF assms] res_simps)

section \<open>Snapshots with and without the integrity check\<close>

lemma snapshot_proposal_lax: "snapshot_proposal True d = Inr p \<Longrightarrow> snapshot_proposal False d = Inr p"
  by (auto simp: snapshot_proposal_Inr check_integrity_def res_simps)

lemma safety_revalidate_eq:
  assumes y: "sf_kind (sy_fingerprint (sk_policy k)) = SfPolicy" and p: "snapshot_proposal False d = Inr p"
    and z: "text_ok (yd_decision_id z)" "sf_kind (yd_proposal_fingerprint z) = SfProposal"
      "sf_kind (yd_policy_fingerprint z) = SfPolicy"
  shows "\<exists>r. safety_revalidate k z d = Inr r \<and>
    (sv_status r = SafetyCurrent \<longleftrightarrow>
       yd_proposal_fingerprint z = pp_fingerprint p \<and>
       yd_policy_fingerprint z = sy_fingerprint (sk_policy k)) \<and>
    (ProposalChanged \<in> set (sv_reasons r) \<longleftrightarrow> yd_proposal_fingerprint z \<noteq> pp_fingerprint p) \<and>
    (PolicyChanged \<in> set (sv_reasons r) \<longleftrightarrow>
       yd_policy_fingerprint z \<noteq> sy_fingerprint (sk_policy k))"
  using y z snapshot_proposal_parts(12) [OF p]
  by (auto simp: safety_revalidate_def p check_safety_revalidation_def safety_expected_reasons_def
      raise_if_def less_eq_safety_revalidation_reason_def Let_def insert_commute)

end
