(* ===== verification/Safety_Chain.thy ===== *)
theory Safety_Chain
  imports Safety_Evaluation Exec_Properties
begin

text \<open>
  The Executive and the Safety Kernel in a row: what the Executive's constructors guarantee is
  enough for every check that \<open>snapshot_proposal\<close> repeats, so that the Safety Kernel refuses a plan
  the Executive has just proposed only when its own copy of it is too large.
\<close>

section \<open>A decision built again is the same\<close>

lemma decision_rebuilt:
  assumes "mk_executive_decision rid owner t rs ex ver rfp cfp refs asms caps aps cons plan = Inr d"
  shows "rebuilt d = Inr d"
proof -
  note d = mk_executive_decision_Inr [OF assms]
  have tup: "decision_tuple as_assumption_id (ed_assumptions d) = Inr (ed_assumptions d)"
    "decision_tuple ap_approval_id (ed_required_approvals d) = Inr (ed_required_approvals d)"
    "decision_tuple co_constraint_id (ed_constraints d) = Inr (ed_constraints d)"
    using d by (blast intro: decision_tuple.build_idem)+
  have "ed_context_references d = sort_key reference_key refs" "length refs \<le> 128"
    "ed_required_capabilities d = sorted_set caps" "length caps \<le> max_plan_steps"
    "list_all identifier_ok caps" "caps \<noteq> []"
    using d by blast+
  note e = this
  have refs: "sort_key reference_key (ed_context_references d) = ed_context_references d"
    "length (ed_context_references d) \<le> 128"
    by (simp_all add: e(1,2))
  have caps: "sorted_set (ed_required_capabilities d) = ed_required_capabilities d"
    "length (ed_required_capabilities d) \<le> max_plan_steps"
    "for_each (\<lambda>c. tryE (identifier_key decision_invariant c) (\<lambda>_. Inr ()))
      (ed_required_capabilities d) = Inr ()"
    "ed_required_capabilities d \<noteq> []"
    unfolding e(3) using e(4-6) length_sorted_set_le [of caps]
    by (simp_all add: for_each_Inr list_all_iff)
  have plan: "(case ed_proposed_plan d of None \<Rightarrow> Inr ()
      | Some p \<Rightarrow> validate_plan_match p (ed_required_capabilities d) (ed_context_references d)
          (ed_required_approvals d)) = Inr ()"
  proof -
    have "\<forall>p. plan = Some p \<longrightarrow> validate_plan_match p (ed_required_capabilities d)
        (ed_context_references d) (ed_required_approvals d) = Inr ()" "ed_proposed_plan d = plan"
      using d by blast+
    then show ?thesis by (cases plan) simp_all
  qed
  obtain doc where doc: "decision_document (ed_request_id d) (ed_owner_subject d)
      (ed_decision_type d) (ed_reason_codes d) (ed_explanation d) (ed_request_fingerprint d)
      (ed_capability_contract_fingerprint d) (ed_relevant_context_fingerprint d)
      (ed_missing_context d) (ed_conflicted_context d) (ed_assumptions d)
      (ed_required_capabilities d) (ed_required_approvals d) (ed_constraints d)
      (ed_proposed_plan d) = Inr doc"
    "fingerprint_document FpDecision doc = Inr (ed_decision_fingerprint d)"
    "ed_decision_id d = ''decision-'' @ fp_digest (ed_decision_fingerprint d)"
    using d that unfolding fingerprint_document_Inr by (metis sha_fingerprint_fields(2))
  have f: "ed_request_id d = rid" "ed_owner_subject d = owner" "ed_decision_type d = t"
    "ed_reason_codes d = rs" "ed_explanation d = ex" "ed_request_fingerprint d = rfp"
    "ed_capability_contract_fingerprint d = cfp" "ed_proposed_plan d = plan"
    using d by blast+
  have m: "text_ok rid" "text_ok owner" "rs \<noteq> []" "sorted rs" "distinct rs" "text_ok ex"
    "fp_kind rfp = FpRequest" "fp_kind cfp = FpCapabilityContract"
    "distinct (map cf_requirement (ed_context_references d))"
    "validate_shape t rs (ed_missing_context d) (ed_conflicted_context d)
      (ed_required_approvals d) plan = Inr ()"
    "relevant_context_fingerprint (ed_context_references d) = Inr (ed_relevant_context_fingerprint d)"
    using d by blast+
  have ctx: "state_requirements CtxUnknown (ed_context_references d) = ed_missing_context d"
    "state_requirements CtxConflicted (ed_context_references d) = ed_conflicted_context d"
    using d by metis+
  show ?thesis
    unfolding rebuilt_def mk_executive_decision_def Let_def
    using m ctx tup refs caps(2-) plan doc
    by (cases plan) (simp_all add: max_context_requirements_def f caps(1) executive_decision.equality)
qed

section \<open>Snapshots of well-formed parts\<close>

definition approval_copy :: "approval_requirement \<Rightarrow> approval_snapshot" where
  "approval_copy a =
     \<lparr>ns_approval_id = ap_approval_id a, ns_approval_description = ap_description a\<rparr>"

definition assumption_copy :: "assumption \<Rightarrow> assumption_snapshot" where
  "assumption_copy a =
     \<lparr>ns_assumption_id = as_assumption_id a, ns_assumption_description = as_description a\<rparr>"

definition precondition_copy :: "precondition \<Rightarrow> precondition_snapshot" where
  "precondition_copy p =
     \<lparr>ns_precondition_id = pc_precondition_id p, ns_precondition_description = pc_description p\<rparr>"

definition requirement_copy :: "context_requirement \<Rightarrow> requirement_snapshot" where
  "requirement_copy r =
     \<lparr>ns_domain = context_domain_value (cr_domain r), ns_predicate = cr_predicate r\<rparr>"

definition constraint_copy :: "constraint \<Rightarrow> constraint_snapshot" where
  "constraint_copy c =
     \<lparr>ns_constraint_id = co_constraint_id c, ns_constraint_description = co_description c,
      ns_constraint_parameters = canon (co_parameters c)\<rparr>"

definition reference_copy :: "context_reference \<Rightarrow> reference_snapshot" where
  "reference_copy r =
     \<lparr>ns_requirement = requirement_copy (cf_requirement r), ns_required = cf_required r,
      ns_state = context_state_value (cf_state r), ns_value_digests = cf_value_digests r,
      ns_memory_ids = map uuid_str (cf_memory_ids r),
      ns_conflict_ids = map uuid_str (cf_conflict_ids r)\<rparr>"

definition step_copy :: "plan_step \<Rightarrow> step_snapshot" where
  "step_copy s =
     \<lparr>ns_step_id = ps_step_id s, ns_capability_id = ps_capability_id s,
      ns_parameters = canon (ps_parameters s), ns_dependencies = ps_dependencies s,
      ns_preconditions = map precondition_copy (ps_preconditions s),
      ns_required_context = map requirement_copy (ps_required_context s),
      ns_required_approvals = map approval_copy (ps_required_approvals s),
      ns_constraints = map constraint_copy (ps_constraints s),
      ns_expected_result = ps_expected_result s, ns_failure_policy = ps_failure_policy s\<rparr>"

lemmas copy_defs = approval_copy_def assumption_copy_def precondition_copy_def requirement_copy_def
  constraint_copy_def reference_copy_def step_copy_def

text \<open>A tuple in key order is copied item by item and keeps its order.\<close>

lemma snapshot_tuple_keyed:
  assumes "keyed_ok key ok xs"
    and "\<And>x. ok x \<Longrightarrow> f x = Inr (g x)" "\<And>x. nkey (g x) = key x"
  shows "snapshot_tuple f nkey xs = Inr (map g xs)"
proof -
  have "map (nkey \<circ> g) xs = map key xs" by (simp add: assms(3))
  then have "distinct (map (nkey \<circ> g) xs)"
    using assms(1) by (simp only: keyed_ok_def)
  with assms(1,2) have "snapshot_tuple f nkey xs = Inr (sort_key nkey (map g xs))"
    by (intro snapshot_tuple_map) (auto simp: keyed_ok_def list_all_iff)
  moreover have "sorted (map nkey (map g xs))"
    using assms(1) by (simp add: keyed_ok_def assms(3) o_def)
  ultimately show ?thesis by (simp add: sort_key_sorted_id)
qed

lemma snapshot_parts:
  "keyed_ok ap_approval_id approval_ok aps \<Longrightarrow>
     snapshot_tuple snapshot_approval ns_approval_id aps = Inr (map approval_copy aps)"
  "keyed_ok as_assumption_id assumption_ok asms \<Longrightarrow>
     snapshot_tuple snapshot_assumption ns_assumption_id asms = Inr (map assumption_copy asms)"
  "keyed_ok pc_precondition_id precondition_ok pcs \<Longrightarrow>
     snapshot_tuple snapshot_precondition ns_precondition_id pcs = Inr (map precondition_copy pcs)"
  "keyed_ok context_key requirement_ok ctx \<Longrightarrow>
     snapshot_tuple snapshot_requirement requirement_snapshot_key ctx = Inr (map requirement_copy ctx)"
  "keyed_ok co_constraint_id constraint_ok cons \<Longrightarrow>
     snapshot_tuple snapshot_constraint ns_constraint_id cons = Inr (map constraint_copy cons)"
  by (rule snapshot_tuple_keyed, assumption,
      simp add: snapshot_approval_Inr snapshot_assumption_Inr snapshot_precondition_Inr
        snapshot_requirement_Inr snapshot_constraint_Inr copy_defs constraint_ok_def params_ok_def
        dict_params_ok_def,
      simp add: copy_defs context_key_def requirement_snapshot_key_def)+

lemma snapshot_step_copy:
  assumes "step_ok s" "list_all identifier_ok (ps_dependencies s)"
  shows "snapshot_step s = Inr (step_copy s)"
  unfolding snapshot_step_Inr
  using assms by (simp add: step_ok_def params_ok_def dict_params_ok_def snapshot_parts)
    (simp add: step_copy_def)

section \<open>The plan is sorted again, and it is sortable\<close>

lemma plan_dependencies:
  assumes "plan_ok p" "s \<in> set (pl_steps p)"
  shows "set (ps_dependencies s) \<subseteq> ps_step_id ` set (pl_steps p)"
proof -
  have g: "proper (step_graph (pl_steps p))"
    using assms(1) by (intro step_graph_proper) (simp_all add: plan_ok_def)
  have "closed_graph (step_graph (pl_steps p))"
    using exec_order.accepted [OF g, of plan_invariant] assms(1) by (simp add: plan_ok_def)
  moreover have "needs (step_graph (pl_steps p)) (ps_step_id s) = set (ps_dependencies s)"
    using assms(2) by (intro needs_item [OF g]) (auto simp: step_graph_def)
  ultimately show ?thesis using assms(2) by (fastforce simp: closed_graph_def)
qed

lemma plan_steps_copied:
  assumes "plan_ok p"
  shows "traverse snapshot_step (pl_steps p) = Inr (map step_copy (pl_steps p))"
proof (rule traverse_map)
  fix s assume s: "s \<in> set (pl_steps p)"
  have "list_all step_ok (pl_steps p)" using assms by (simp add: plan_ok_def)
  then have "step_ok s" "\<forall>i \<in> ps_step_id ` set (pl_steps p). identifier_ok i"
    using s by (auto simp: list_all_iff step_ok_def)
  then show "snapshot_step s = Inr (step_copy s)"
    using plan_dependencies [OF assms s] by (intro snapshot_step_copy) (auto simp: list_all_iff)
qed

lemma copied_graph: "snapshot_graph (map step_copy steps) = step_graph steps"
  by (simp add: snapshot_graph_def step_graph_def step_copy_def)

lemma plan_reordered:
  assumes "plan_ok p"
  shows "\<exists>steps. ordered_steps (map step_copy (pl_steps p)) = Inr steps \<and>
    mset steps = mset (map step_copy (pl_steps p))"
proof -
  let ?steps = "map step_copy (pl_steps p)"
  have p: "distinct (map ps_step_id (pl_steps p))" "list_all step_ok (pl_steps p)"
    "validate_dependency_graph plan_invariant (step_graph (pl_steps p)) =
      Inr (map ps_step_id (pl_steps p))"
    using assms by (simp_all add: plan_ok_def)
  note g = step_graph_proper [OF p(1,2)]
  obtain order where o: "topological_steps safety_plan_invariant (snapshot_graph ?steps) = Inr order"
    using plan_sorts.same_graphs [OF g, of plan_invariant safety_plan_invariant] p(3)
    unfolding copied_graph by blast
  have "set order = ns_step_id ` set ?steps"
    using safety_order.sound [OF g, of safety_plan_invariant order] o
    unfolding copied_graph by (auto simp: topo_sorted_def step_copy_def image_image)
  then have "\<exists>s. dict_item (index_get ns_step_id ?steps i) = Inr s" if "i \<in> set order" for i
    using that by (cases "index_get ns_step_id ?steps i") (simp_all add: dict_item_def index_get_None)
  then have "\<exists>ys. traverse (\<lambda>i. dict_item (index_get ns_step_id ?steps i)) order = Inr ys"
    by (rule traverse_total)
  then obtain steps where st: "ordered_steps ?steps = Inr steps"
    using o by (auto simp: ordered_steps_def)
  have "list_all plan_step_snapshot_ok ?steps"
    using traverse_image(1) [OF plan_steps_copied [OF assms]] snapshot_step_ok
    by (auto simp: list_all_iff)
  with ordered_steps_Inr [OF _ st] st show ?thesis by blast
qed

section \<open>Context references\<close>

lemma state_value_eqs [simp]:
  "context_state_value st = ''unknown'' \<longleftrightarrow> st = CtxUnknown"
  "context_state_value st = ''resolved'' \<longleftrightarrow> st = CtxResolved"
  "context_state_value st = ''conflicted'' \<longleftrightarrow> st = CtxConflicted"
  by (cases st; simp)+

lemma reference_copied:
  assumes "mk_context_reference r b st ds ms cs = Inr ref" "requirement_ok r"
  shows "snapshot_reference ref = Inr (reference_copy ref)"
proof -
  have "ref = \<lparr>cf_requirement = r, cf_required = b, cf_state = st, cf_value_digests = ds,
      cf_memory_ids = ms, cf_conflict_ids = cs\<rparr>"
    "list_all hex_digest_ok ds" "sorted ds" "distinct ds"
    "sorted_uuids ms = ms" "sorted_uuids cs = cs"
    "st = CtxUnknown \<longrightarrow> ds = [] \<and> ms = [] \<and> cs = []"
    "st = CtxResolved \<longrightarrow> length ds = 1 \<and> ms \<noteq> [] \<and> cs = []"
    "st = CtxConflicted \<longrightarrow> 2 \<le> length ds \<and> 2 \<le> length ms \<and> cs \<noteq> []"
    using assms(1) by (auto simp: mk_context_reference_def res_simps)
  moreover have "snapshot_requirement r = Inr (requirement_copy r)"
    using assms(2) by (simp add: snapshot_requirement_Inr requirement_copy_def)
  ultimately show ?thesis
    by (simp add: snapshot_reference_def Let_def state_names raise_if_def reference_copy_def
        sorted_uuids_id distinct_map not_less)
qed

lemma reference_for_copied:
  "context_reference_for s b r = Inr ref \<Longrightarrow> requirement_ok r \<Longrightarrow>
   snapshot_reference ref = Inr (reference_copy ref)"
  by (auto simp: context_reference_for_def res_simps split: if_splits option.splits
      intro: reference_copied)

lemma reference_copy_key: "reference_snapshot_key (reference_copy r) = reference_key r"
  by (simp add: reference_snapshot_key_def reference_key_def reference_copy_def requirement_copy_def)

lemma requirement_copy_key: "requirement_snapshot_key (requirement_copy r) = context_key r"
  by (simp add: requirement_snapshot_key_def requirement_copy_def context_key_def)

lemma reference_copy_fields [simp]:
  "ns_requirement (reference_copy r) = requirement_copy (cf_requirement r)"
  "ns_required (reference_copy r) = cf_required r"
  "ns_state (reference_copy r) = context_state_value (cf_state r)"
  by (simp_all add: reference_copy_def)

lemma copied_state_requirements:
  "state_snapshots (context_state_value st) (map reference_copy refs) =
     map requirement_copy (state_requirements st refs)"
  by (simp add: state_snapshots_def state_requirements_def filter_map o_def)

lemma state_requirements_in:
  "r \<in> set (state_requirements st refs) \<Longrightarrow> r \<in> cf_requirement ` set refs"
  by (auto simp: state_requirements_def)

text \<open>The cited context of a decision is copied reference by reference.\<close>

lemma context_copied:
  assumes "length (ed_context_references d) \<le> 128"
    and "sorted (map reference_key (ed_context_references d))"
    and "distinct (map cf_requirement (ed_context_references d))"
    and "\<And>r. r \<in> set (ed_context_references d) \<Longrightarrow>
      snapshot_reference r = Inr (reference_copy r) \<and> requirement_ok (cf_requirement r)"
    and "ed_missing_context d = state_requirements CtxUnknown (ed_context_references d)"
    and "ed_conflicted_context d = state_requirements CtxConflicted (ed_context_references d)"
  shows "snapshot_context d = Inr (map reference_copy (ed_context_references d))"
proof -
  let ?refs = "ed_context_references d"
  have "map (reference_snapshot_key \<circ> reference_copy) ?refs = map reference_key ?refs"
    by (simp add: reference_copy_key)
  moreover have "distinct (map reference_key ?refs)"
    using assms(3) by (rule distinct_reference_keys)
  ultimately have "distinct (map (reference_snapshot_key \<circ> reference_copy) ?refs)"
    by (simp only:)
  then have "snapshot_tuple snapshot_reference reference_snapshot_key ?refs =
      Inr (sort_key reference_snapshot_key (map reference_copy ?refs))"
    using assms(1,4) by (intro snapshot_tuple_map) blast+
  moreover have "sorted (map reference_snapshot_key (map reference_copy ?refs))"
    using assms(2) by (simp add: o_def reference_copy_key)
  ultimately have tup: "snapshot_tuple snapshot_reference reference_snapshot_key ?refs =
      Inr (map reference_copy ?refs)"
    by (simp add: sort_key_sorted_id)
  have state: "typed_items (state_requirements st ?refs) = Inr (state_requirements st ?refs)"
    "traverse snapshot_requirement (state_requirements st ?refs) =
      Inr (map requirement_copy (state_requirements st ?refs))" for st
  proof -
    have "length (state_requirements st ?refs) \<le> length ?refs"
      by (simp add: state_requirements_def)
    then show "typed_items (state_requirements st ?refs) = Inr (state_requirements st ?refs)"
      using assms(1) by (simp add: typed_items_def max_proposal_items_def)
    show "traverse snapshot_requirement (state_requirements st ?refs) =
        Inr (map requirement_copy (state_requirements st ?refs))"
      using assms(4) by (intro traverse_map)
        (auto simp: snapshot_requirement_Inr requirement_copy_def dest!: state_requirements_in)
  qed
  have "distinct (map (\<lambda>r. requirement_snapshot_key (ns_requirement r)) (map reference_copy ?refs))"
    using assms(3) by (simp add: o_def requirement_copy_key distinct_map inj_on_def)
  then show ?thesis
    using copied_state_requirements [of CtxUnknown ?refs]
      copied_state_requirements [of CtxConflicted ?refs]
    by (simp add: snapshot_context_def tup assms(5,6) state)
qed

section \<open>What the plan takes from the request and from the capabilities\<close>

definition constraint_content :: "constraint \<Rightarrow> string \<times> string \<times> string" where
  "constraint_content c = constraint_snapshot_key (constraint_copy c)"

lemma constraint_content_eq:
  "constraint_ok a \<Longrightarrow> constraint_ok b \<Longrightarrow> constraint_content a = constraint_content b \<longleftrightarrow> constraint_eq a b"
  by (auto simp: constraint_content_def constraint_snapshot_key_def constraint_copy_def
      constraint_eq_def constraint_ok_def params_ok_def)

lemma merged_constraints:
  assumes "merge_unique constraint_eq co_constraint_id n cs = Inr ys" "list_all constraint_ok (concat cs)"
  shows "constraint_content ` set ys = constraint_content ` set (concat cs)"
proof
  note sub = constraint_merge.merge_unique_result(3) [OF assms(1)]
  then show "constraint_content ` set ys \<subseteq> constraint_content ` set (concat cs)" by blast
  show "constraint_content ` set (concat cs) \<subseteq> constraint_content ` set ys"
  proof
    fix k assume "k \<in> constraint_content ` set (concat cs)"
    then obtain c where c: "c \<in> set (concat cs)" "k = constraint_content c" by blast
    obtain y where y: "y \<in> set ys" "constraint_eq c y"
      using constraint_merge.merge_unique_covers [OF assms(1) c(1)] by blast
    then have "constraint_content c = constraint_content y"
      using constraint_content_eq assms(2) c(1) sub by (auto simp: list_all_iff)
    with y(1) c(2) show "k \<in> constraint_content ` set ys" by simp
  qed
qed

lemma build_step_constraints:
  assumes "build_step r defs i = Inr s" "map_of defs (inv_capability_id i) = Some d"
    and "list_all constraint_ok (rq_constraints r)" "list_all constraint_ok (cd_constraints d)"
  shows "constraint_content ` set (ps_constraints s) =
    constraint_content ` (set (rq_constraints r) \<union> set (cd_constraints d))"
proof -
  from assms(1,2) obtain cons ctx aps ps where
    m: "merge_unique constraint_eq co_constraint_id 128 [rq_constraints r, cd_constraints d] = Inr cons"
    and mk: "mk_plan_step (inv_step_id i) (inv_capability_id i) ps (inv_dependencies i)
      (cd_preconditions d) ctx aps cons (cd_expected_result d) (cd_failure_policy d) = Inr s"
    by (auto simp: build_step_def res_simps max_request_items_def)
  have "plan_tuple co_constraint_id cons = Inr (ps_constraints s)"
    using mk by (auto simp: mk_plan_step_def res_simps Let_def split: if_splits)
  then show ?thesis
    using plan_tuple.build_set merged_constraints [OF m] assms(3,4) by fastforce
qed

text \<open>Every capability definition has a step, and every step a definition.\<close>

lemma plan_unions:
  assumes "build_plan req (definitions_by_id defs) = Inr p" "request_ok req"
    and "list_all capability_ok defs" "distinct (map cd_capability_id defs)"
  shows "(\<Union>s \<in> set (pl_steps p). set (ps_required_context s)) =
      set (rq_required_context req) \<union> (\<Union>d \<in> set defs. set (cd_required_context d))"
    "(\<Union>s \<in> set (pl_steps p). set (ps_required_approvals s)) =
      set (rq_required_approvals req) \<union> (\<Union>d \<in> set defs. set (cd_required_approvals d))"
    "(\<Union>s \<in> set (pl_steps p). constraint_content ` set (ps_constraints s)) =
      constraint_content ` (set (rq_constraints req) \<union> (\<Union>d \<in> set defs. set (cd_constraints d)))"
proof -
  let ?defs = "definitions_by_id defs"
  have ok: "\<And>d. d \<in> snd ` set ?defs \<Longrightarrow> capability_ok d"
    using assms(3) by (auto simp: definitions_by_id_def list_all_iff)
  from assms(1) obtain steps where
    t: "list_all2 (\<lambda>i st. build_step req ?defs i = Inr st) (rq_invocations req) steps"
    and p: "plan_ok p" "set (pl_steps p) = set steps"
    by (rule build_plan_Inr [OF _ assms(2) ok])
  have look: "map_of ?defs c = Some d \<longleftrightarrow> d \<in> set defs \<and> cd_capability_id d = c" for c d
    using assms(4) by (auto simp: definitions_by_id_def o_def map_of_eq_Some_iff)
  have caps: "cd_capability_id ` set defs = inv_capability_id ` set (rq_invocations req)"
    using assms(1) by (auto simp: build_plan_def res_simps requested_capabilities_def
        definitions_by_id_def image_image)
  let ?R = "\<lambda>d st. d \<in> set defs \<and>
    set (ps_required_context st) = set (rq_required_context req) \<union> set (cd_required_context d) \<and>
    set (ps_required_approvals st) = set (rq_required_approvals req) \<union> set (cd_required_approvals d) \<and>
    constraint_content ` set (ps_constraints st) =
      constraint_content ` (set (rq_constraints req) \<union> set (cd_constraints d))"
  have step: "\<exists>d. cd_capability_id d = inv_capability_id i \<and> ?R d st"
    if i: "i \<in> set (rq_invocations req)" and b: "build_step req ?defs i = Inr st" for i st
  proof -
    have "invocation_ok i" using assms(2) i by (simp add: request_ok_def list_all_iff)
    from build_step_Inr [OF b assms(2) this ok]
    obtain d where d: "map_of ?defs (inv_capability_id i) = Some d"
      "set (ps_required_context st) = set (rq_required_context req) \<union> set (cd_required_context d)"
      "set (ps_required_approvals st) = set (rq_required_approvals req) \<union> set (cd_required_approvals d)"
      by auto
    moreover have "constraint_content ` set (ps_constraints st) =
        constraint_content ` (set (rq_constraints req) \<union> set (cd_constraints d))"
      using assms(2,3) d(1) look
      by (intro build_step_constraints [OF b d(1)])
        (auto simp: request_ok_def capability_ok_def keyed_ok_def list_all_iff)
    ultimately show ?thesis using look by blast
  qed
  have A: "\<exists>d. ?R d st" if "st \<in> set (pl_steps p)" for st
  proof -
    have "st \<in> set steps" using that p(2) by simp
    from list_all2_ex2 [OF t this] step show ?thesis by blast
  qed
  have B: "\<exists>st \<in> set (pl_steps p). ?R d st" if "d \<in> set defs" for d
  proof -
    have "cd_capability_id d \<in> inv_capability_id ` set (rq_invocations req)"
      using that caps by blast
    then obtain i where i: "i \<in> set (rq_invocations req)" "inv_capability_id i = cd_capability_id d"
      by auto
    from list_all2_ex [OF t i(1)] obtain st where st: "st \<in> set steps" "build_step req ?defs i = Inr st"
      by blast
    from step [OF i(1) st(2)] obtain d' where "cd_capability_id d' = cd_capability_id d" "?R d' st"
      using i(2) by auto
    moreover have "d' = d" using calculation that assms(4) by (auto simp: distinct_map inj_on_def)
    ultimately show ?thesis using st(1) p(2) by blast
  qed
  have ne: "defs \<noteq> []"
    using A [of "hd (pl_steps p)"] p(1) by (auto simp: plan_ok_def)
  have union: "(\<Union>st \<in> set (pl_steps p). f st) = X \<union> (\<Union>d \<in> set defs. g d)"
    if "\<And>d st. ?R d st \<Longrightarrow> f st = X \<union> g d" for f and g and X :: "'x set"
  proof -
    have "(\<Union>st \<in> set (pl_steps p). f st) = (\<Union>d \<in> set defs. X \<union> g d)"
    proof (intro equalityI subsetI)
      fix x assume "x \<in> (\<Union>st \<in> set (pl_steps p). f st)"
      then obtain st where st: "st \<in> set (pl_steps p)" "x \<in> f st" by blast
      from A [OF st(1)] obtain d where "?R d st" by blast
      with that [OF this] st(2) show "x \<in> (\<Union>d \<in> set defs. X \<union> g d)" by blast
    next
      fix x assume "x \<in> (\<Union>d \<in> set defs. X \<union> g d)"
      then obtain d where d: "d \<in> set defs" "x \<in> X \<union> g d" by blast
      from B [OF d(1)] obtain st where st: "st \<in> set (pl_steps p)" "?R d st" by blast
      with that [OF st(2)] d(2) show "x \<in> (\<Union>st \<in> set (pl_steps p). f st)" by blast
    qed
    then show ?thesis using ne by simp
  qed
  show "(\<Union>s \<in> set (pl_steps p). set (ps_required_context s)) =
      set (rq_required_context req) \<union> (\<Union>d \<in> set defs. set (cd_required_context d))"
    by (rule union) blast
  show "(\<Union>s \<in> set (pl_steps p). set (ps_required_approvals s)) =
      set (rq_required_approvals req) \<union> (\<Union>d \<in> set defs. set (cd_required_approvals d))"
    by (rule union) blast
  show "(\<Union>s \<in> set (pl_steps p). constraint_content ` set (ps_constraints s)) =
      constraint_content ` (set (rq_constraints req) \<union> (\<Union>d \<in> set defs. set (cd_constraints d)))"
    unfolding image_Un image_UN by (rule union) (simp add: image_Un)
qed

section \<open>The Executive's proposals pass every check\<close>

lemma map_filter_ids:
  "(\<And>i d. f i = Some d \<Longrightarrow> key d = i) \<Longrightarrow>
   map key (List.map_filter f ids) = filter (\<lambda>i. f i \<noteq> None) ids"
  by (induction ids) (auto simp: List.map_filter_simps split: option.splits)

definition version_ok :: "snapshot_version \<Rightarrow> bool" where
  "version_ok v \<longleftrightarrow>
     csv_algorithm v = ''sha256'' \<and> csv_schema_version v = 1 \<and> hex_digest_ok (csv_digest v)"

lemma mk_snapshot_version_ok: "mk_snapshot_version g a n = Inr v \<Longrightarrow> version_ok v"
  by (auto simp: mk_snapshot_version_def res_simps version_ok_def)

text \<open>Where the parts of a decision with a plan come from.\<close>

lemma proposal_sources:
  assumes "evaluate svc (Inr s) req = Inr d" "ed_proposed_plan d = Some p"
    and "request_ok req" "registry_ok (es_registry svc)"
  obtains defs required where
    "build_plan req (definitions_by_id defs) = Inr p"
    "list_all capability_ok defs" "distinct (map cd_capability_id defs)"
    "set required = set (rq_required_context req) \<union> (\<Union>x \<in> set defs. set (cd_required_context x))"
    "references_for s required (rq_optional_context req) = Inr (ed_context_references d)"
    "keyed_ok ap_approval_id approval_ok (ed_required_approvals d)"
    "set (ed_required_approvals d) =
       set (rq_required_approvals req) \<union> (\<Union>x \<in> set defs. set (cd_required_approvals x))"
    "keyed_ok as_assumption_id assumption_ok (ed_assumptions d)"
    "keyed_ok co_constraint_id constraint_ok (ed_constraints d)"
    "constraint_content ` set (ed_constraints d) =
       constraint_content ` (set (rq_constraints req) \<union> (\<Union>x \<in> set defs. set (cd_constraints x)))"
proof -
  let ?reg = "es_registry svc"
  from assms(1) obtain cfp defs unknown unavailable required refs aps asms cons t rs ex plan where
    l: "lookup_capabilities ?reg (requested_capabilities req) [] [] [] = Inr (defs, unknown, unavailable)"
    and mreq: "merge_context_requirements req (sort_key cd_capability_id defs) = Inr required"
    and refs: "references_for s required (rq_optional_context req) = Inr refs"
    and maps: "merge_approvals req (sort_key cd_capability_id defs) = Inr aps"
    and masm: "merge_assumptions req (sort_key cd_capability_id defs) = Inr asms"
    and mcon: "merge_constraints req (sort_key cd_capability_id defs) = Inr cons"
    and dec: "decide req defs unknown unavailable (state_requirements CtxUnknown refs)
       (state_requirements CtxConflicted refs) aps = Inr (t, rs, ex, plan)"
    and mk: "mk_executive_decision (rq_request_id req) (pcs_owner_subject s) t (sorted_set rs) ex
       (pcs_version s) (rq_fingerprint req) cfp refs asms (requested_capabilities req) aps cons plan
       = Inr d"
    by (rule evaluate_Inr)
  note d = mk_executive_decision_Inr [OF mk]
  have plan: "plan = Some p" using d assms(2) by metis
  have build: "build_plan req (definitions_by_id defs) = Inr p"
    using dec by (auto simp: decide_def res_simps plan split: if_splits)
  have defs: "defs = List.map_filter (registry_by_id ?reg) (requested_capabilities req)"
    using lookup_capabilities_Inr [OF l] by simp
  have cok: "list_all capability_ok defs"
    using registry_by_id_ok [OF assms(4)] unfolding defs by (auto simp: in_map_filter list_all_iff)
  have "distinct (requested_capabilities req)" by (simp add: requested_capabilities_def)
  moreover have "cd_capability_id x = i" if "registry_by_id ?reg i = Some x" for i x
    using registry_by_id_Some [OF assms(4)] that by simp
  ultimately have dis: "distinct (map cd_capability_id defs)"
    unfolding defs by (simp add: map_filter_ids)
  have lists: "list_all approval_ok (rq_required_approvals req @ concat (map cd_required_approvals defs))"
    "list_all assumption_ok (rq_assumptions req @ concat (map cd_assumptions defs))"
    "list_all constraint_ok (rq_constraints req @ concat (map cd_constraints defs))"
    using cok assms(3) by (auto simp: request_ok_def capability_ok_def keyed_ok_def list_all_iff)
  have ref_eq: "ed_context_references d = refs"
    using d references_for_requirements(4) [OF refs] by (simp add: sort_key_sorted_id)
  have kaps: "keyed_ok ap_approval_id approval_ok aps"
    using lists(1) by (intro merge_unique_keyed_ok [OF maps [unfolded merge_approvals_def max_request_items_def]])
      (simp add: list_all_iff ball_Un)
  have kasm: "keyed_ok as_assumption_id assumption_ok asms"
    using lists(2) by (intro merge_unique_keyed_ok [OF masm [unfolded merge_assumptions_def max_request_items_def]])
      (simp add: list_all_iff ball_Un)
  have kcon: "keyed_ok co_constraint_id constraint_ok cons"
    using lists(3) by (intro merge_constraints_keyed_ok [OF mcon [unfolded merge_constraints_def max_request_items_def]])
      (simp add: list_all_iff ball_Un)
  have same: "ed_required_approvals d = aps" "ed_assumptions d = asms" "ed_constraints d = cons"
    using d kaps kasm kcon
    by (auto simp: decision_tuple.build_Inr_iff keyed_ok_def sort_key_sorted_id)
  show ?thesis
  proof (rule that [OF build cok dis])
    show "set required = set (rq_required_context req) \<union> (\<Union>x \<in> set defs. set (cd_required_context x))"
      using plain_merge_set [OF mreq [unfolded merge_context_requirements_def]] by simp
    show "references_for s required (rq_optional_context req) = Inr (ed_context_references d)"
      using refs ref_eq by simp
    show "set (ed_required_approvals d) =
        set (rq_required_approvals req) \<union> (\<Union>x \<in> set defs. set (cd_required_approvals x))"
      using plain_merge_set [OF maps [unfolded merge_approvals_def]] same by simp
    have "list_all constraint_ok
        (concat (rq_constraints req # map cd_constraints (sort_key cd_capability_id defs)))"
      using lists(3) by (auto simp: list_all_iff)
    from merged_constraints [OF mcon [unfolded merge_constraints_def] this]
    show "constraint_content ` set (ed_constraints d) =
        constraint_content ` (set (rq_constraints req) \<union> (\<Union>x \<in> set defs. set (cd_constraints x)))"
      using same by simp
  qed (simp_all add: kaps kasm kcon same)
qed

lemma singleton_list: "distinct xs \<Longrightarrow> set xs = {x} \<Longrightarrow> xs = [x]"
  by (cases xs) (auto simp: subset_singleton_iff)

lemma plan_snapshot_of:
  assumes "plan_ok p" "ed_proposed_plan d = Some p"
    and "ed_decision_type d = Propose \<and> ed_reason_codes d = [ReadyForSafetyReview] \<or>
      ed_decision_type d = RequestApproval \<and> ed_reason_codes d = [ApprovalRequired]"
  shows "\<exists>steps. snapshot_plan d = Inr steps \<and> mset steps = mset (map step_copy (pl_steps p))"
proof -
  obtain steps where st: "ordered_steps (map step_copy (pl_steps p)) = Inr steps"
    "mset steps = mset (map step_copy (pl_steps p))"
    using plan_reordered [OF assms(1)] by blast
  have "pl_steps p \<noteq> []" "length (pl_steps p) \<le> 64"
    using assms(1) by (simp_all add: plan_ok_def max_plan_steps_def)
  then have "snapshot_plan d = Inr steps"
    using assms(2,3) st(1)
    by (auto simp: snapshot_plan_def typed_items_def max_proposal_items_def max_proposal_steps_def
        plan_steps_copied [OF assms(1)])
  with st(2) show ?thesis by blast
qed

lemma executive_provenance:
  assumes "evaluate svc (Inr s) req = Inr d" "request_ok req" "version_ok (pcs_version s)"
  shows "check_provenance d = Inr (''sha256:'' @ csv_digest (pcs_version s)) \<and>
    check_integrity True d = Inr ()"
proof -
  from assms(1) obtain cfp refs t rs ex asms aps cons plan where
    c: "fingerprint_for (es_registry svc) (requested_capabilities req) = Inr cfp"
    and mk: "mk_executive_decision (rq_request_id req) (pcs_owner_subject s) t (sorted_set rs) ex
       (pcs_version s) (rq_fingerprint req) cfp refs asms (requested_capabilities req) aps cons plan
       = Inr d"
    by (rule evaluate_Inr)
  note d = mk_executive_decision_Inr [OF mk]
  obtain doc where doc: "ed_decision_id d = ''decision-'' @ sha256_hex (canon doc)"
    "ed_decision_fingerprint d = sha_fingerprint FpDecision (canon doc)"
    using d by blast
  have "fingerprint_ok FpCapabilityContract cfp"
    using c by (auto simp: fingerprint_for_def res_simps Let_def fingerprint_document_Inr
        fingerprint_ok_def)
  moreover have "fingerprint_ok FpRequest (rq_fingerprint req)"
    using assms(2) by (auto simp: request_ok_def fingerprint_ok_def)
  moreover have "relevant_context_fingerprint (ed_context_references d) =
      Inr (ed_relevant_context_fingerprint d)"
    using d by blast
  then have "fingerprint_ok FpRelevantContext (ed_relevant_context_fingerprint d)"
    by (auto simp: relevant_context_fingerprint_def fingerprint_document_Inr fingerprint_ok_def)
  moreover have f: "ed_request_fingerprint d = rq_fingerprint req"
    "ed_capability_contract_fingerprint d = cfp" "ed_request_id d = rq_request_id req"
    "ed_owner_subject d = pcs_owner_subject s" "ed_explanation d = ex"
    "ed_context_snapshot_version d = pcs_version s" "text_ok (rq_request_id req)"
    "text_ok (pcs_owner_subject s)" "text_ok ex"
    using d by blast+
  moreover have "fingerprint_ok FpDecision (ed_decision_fingerprint d)"
    by (simp add: doc fingerprint_ok_def)
  moreover have "text_ok (ed_decision_id d)" unfolding doc by (rule decision_id_ok)
  moreover have "ed_decision_id d = ''decision-'' @ fp_digest (ed_decision_fingerprint d)"
    unfolding doc by simp
  ultimately have "check_provenance d = Inr (''sha256:'' @ csv_digest (pcs_version s))"
    using assms(3) unfolding check_provenance_Inr version_ok_def by metis
  then show ?thesis
    by (simp add: check_integrity_def decision_rebuilt [OF mk])
qed

lemma step_copy_fields [simp]:
  "ns_capability_id (step_copy s) = ps_capability_id s"
  "ns_required_context (step_copy s) = map requirement_copy (ps_required_context s)"
  "ns_required_approvals (step_copy s) = map approval_copy (ps_required_approvals s)"
  "ns_constraints (step_copy s) = map constraint_copy (ps_constraints s)"
  by (simp_all add: step_copy_def)

text \<open>The decision of a proposal: its type, its reason and its capabilities.\<close>

lemma proposal_shape:
  assumes "evaluate svc (Inr s) req = Inr d" "ed_proposed_plan d = Some p"
  shows "ed_decision_type d = Propose \<and> ed_reason_codes d = [ReadyForSafetyReview] \<and>
      ed_required_approvals d = [] \<or>
    ed_decision_type d = RequestApproval \<and> ed_reason_codes d = [ApprovalRequired] \<and>
      ed_required_approvals d \<noteq> []"
    "list_all identifier_ok (ed_required_capabilities d)" "sorted (ed_required_capabilities d)"
    "distinct (ed_required_capabilities d)" "ed_required_capabilities d \<noteq> []"
    "ps_capability_id ` set (pl_steps p) = set (ed_required_capabilities d)"
    "length (ed_context_references d) \<le> 128" "sorted (map reference_key (ed_context_references d))"
    "distinct (map cf_requirement (ed_context_references d))"
    "r \<in> set (ed_context_references d) \<Longrightarrow> cf_required r \<Longrightarrow> cf_state r = CtxResolved"
proof -
  from assms(1) obtain cfp refs t rs ex asms aps cons plan where
    mk: "mk_executive_decision (rq_request_id req) (pcs_owner_subject s) t (sorted_set rs) ex
       (pcs_version s) (rq_fingerprint req) cfp refs asms (requested_capabilities req) aps cons plan
       = Inr d"
    by (rule evaluate_Inr)
  note d = mk_executive_decision_Inr [OF mk]
  have p: "plan = Some p" using d assms(2) by metis
  note d' = d [unfolded p]
  have shape: "validate_shape t (sorted_set rs) (ed_missing_context d) (ed_conflicted_context d)
      (ed_required_approvals d) (Some p) = Inr ()" and t: "ed_decision_type d = t"
    and r: "ed_reason_codes d = sorted_set rs"
    using d' by blast+
  have "\<forall>q. Some p = Some q \<longrightarrow> validate_plan_match q (ed_required_capabilities d)
      (ed_context_references d) (ed_required_approvals d) = Inr ()"
    using d' by blast
  then have "validate_plan_match p (ed_required_capabilities d) (ed_context_references d)
      (ed_required_approvals d) = Inr ()" by simp
  then show "ps_capability_id ` set (pl_steps p) = set (ed_required_capabilities d)"
    by (simp add: validate_plan_match_def res_simps)
  have "t = Propose \<and> set (sorted_set rs) = {ReadyForSafetyReview} \<and> ed_required_approvals d = [] \<or>
    t = RequestApproval \<and> set (sorted_set rs) = {ApprovalRequired} \<and> ed_required_approvals d \<noteq> []"
    using shape by (cases t) (simp_all add: validate_shape_def res_simps)
  moreover have "sorted_set rs = [x]" if "set (sorted_set rs) = {x}" for x
    using singleton_list [OF _ that] by simp
  ultimately show "ed_decision_type d = Propose \<and> ed_reason_codes d = [ReadyForSafetyReview] \<and>
      ed_required_approvals d = [] \<or>
    ed_decision_type d = RequestApproval \<and> ed_reason_codes d = [ApprovalRequired] \<and>
      ed_required_approvals d \<noteq> []"
    unfolding t r by metis
  have "ed_missing_context d = []" "ed_conflicted_context d = []"
    using shape by (cases t; simp add: validate_shape_def res_simps)+
  moreover have "ed_missing_context d = state_requirements CtxUnknown (ed_context_references d)"
    "ed_conflicted_context d = state_requirements CtxConflicted (ed_context_references d)"
    using evaluate_contexts [OF assms(1)] by simp_all
  ultimately show "cf_state r = CtxResolved" if "r \<in> set (ed_context_references d)" "cf_required r"
    using that by (cases "cf_state r") (auto simp: state_requirements_def filter_empty_conv)
  have c: "ed_required_capabilities d = sorted_set (requested_capabilities req)"
    "list_all identifier_ok (requested_capabilities req)" "requested_capabilities req \<noteq> []"
    using d by blast+
  then show "list_all identifier_ok (ed_required_capabilities d)" "sorted (ed_required_capabilities d)"
    "distinct (ed_required_capabilities d)" "ed_required_capabilities d \<noteq> []"
    by (simp_all add: list_all_iff)
  have e: "ed_context_references d = sort_key reference_key refs" "length refs \<le> 128"
    "distinct (map cf_requirement (ed_context_references d))"
    using d by blast+
  then show "length (ed_context_references d) \<le> 128"
    "sorted (map reference_key (ed_context_references d))"
    "distinct (map cf_requirement (ed_context_references d))"
    by simp_all
qed

lemma proposal_references:
  assumes "references_for s required (rq_optional_context req) = Inr refs"
    and "list_all requirement_ok required" "list_all requirement_ok (rq_optional_context req)"
    and "r \<in> set refs"
  shows "snapshot_reference r = Inr (reference_copy r) \<and> requirement_ok (cf_requirement r)"
proof -
  have "cf_requirement r \<in> set required \<union> set (rq_optional_context req)"
    using references_for_requirements(3) [OF assms(1)] assms(4) by blast
  then have "requirement_ok (cf_requirement r)" using assms(2,3) by (auto simp: list_all_iff)
  with reference_for_copied [OF references_for_member [OF assms(1,4)]] show ?thesis by simp
qed

lemma executive_contents:
  assumes ev: "evaluate svc (Inr s) req = Inr d" and pl: "ed_proposed_plan d = Some p"
    and ok: "request_ok req" "registry_ok (es_registry svc)"
  shows "\<exists>c. snapshot_contents d = Inr c \<and> check_relations (ed_decision_type d) c = Inr ()"
proof -
  from assms obtain defs required where
    build: "build_plan req (definitions_by_id defs) = Inr p"
    and defs: "list_all capability_ok defs" "distinct (map cd_capability_id defs)"
    and required: "set required =
      set (rq_required_context req) \<union> (\<Union>x \<in> set defs. set (cd_required_context x))"
    and refs: "references_for s required (rq_optional_context req) = Inr (ed_context_references d)"
    and kaps: "keyed_ok ap_approval_id approval_ok (ed_required_approvals d)"
    and aps: "set (ed_required_approvals d) =
      set (rq_required_approvals req) \<union> (\<Union>x \<in> set defs. set (cd_required_approvals x))"
    and kasm: "keyed_ok as_assumption_id assumption_ok (ed_assumptions d)"
    and kcon: "keyed_ok co_constraint_id constraint_ok (ed_constraints d)"
    and cons: "constraint_content ` set (ed_constraints d) =
      constraint_content ` (set (rq_constraints req) \<union> (\<Union>x \<in> set defs. set (cd_constraints x)))"
    by (rule proposal_sources)
  note shape = proposal_shape [OF ev pl]
  have "capability_ok x" if "x \<in> snd ` set (definitions_by_id defs)" for x
    using that defs(1) by (auto simp: definitions_by_id_def list_all_iff)
  from build_plan_Inr [OF build ok(1) this] have plan: "plan_ok p" by metis
  note unions = plan_unions [OF build ok(1) defs]
  obtain steps where m: "snapshot_plan d = Inr steps" "mset steps = mset (map step_copy (pl_steps p))"
    using plan_snapshot_of [OF plan pl] shape(1) by blast
  note steps = m(1) mset_eq_setD [OF m(2), unfolded set_map]
  have "list_all requirement_ok required" "list_all requirement_ok (rq_optional_context req)"
    using ok(1) defs(1) required by (auto simp: request_ok_def capability_ok_def keyed_ok_def list_all_iff)
  note rok = proposal_references [OF refs this]
  have ctx: "snapshot_context d = Inr (map reference_copy (ed_context_references d))"
    using context_copied [OF shape(7-9) rok] evaluate_contexts [OF ev] by blast
  define c where "c = \<lparr>pn_steps = steps,
    pn_references = map reference_copy (ed_context_references d),
    pn_assumptions = map assumption_copy (ed_assumptions d),
    pn_approvals = map approval_copy (ed_required_approvals d),
    pn_constraints = map constraint_copy (ed_constraints d),
    pn_capabilities = ed_required_capabilities d\<rparr>"
  have "snapshot_contents d = Inr c"
    unfolding snapshot_contents_Inr using steps(1) ctx shape(2-5)
    by (simp add: c_def
        snapshot_parts(1) [OF kaps] snapshot_parts(2) [OF kasm] snapshot_parts(5) [OF kcon])
  moreover have "check_relations (ed_decision_type d) c = Inr ()"
    unfolding check_relations_Inr
  proof (intro conjI)
    show "set (pn_capabilities c) = ns_capability_id ` set (pn_steps c)"
      using shape(6) by (simp add: c_def steps(2) image_image)
    have "(\<Union>s \<in> set (pl_steps p). (approval_snapshot_key \<circ> approval_copy) ` set (ps_required_approvals s)) =
        (approval_snapshot_key \<circ> approval_copy) ` set (ed_required_approvals d)"
      using unions(2) aps by (simp flip: image_UN)
    then show "(\<Union>s \<in> set (pn_steps c). approval_snapshot_key ` set (ns_required_approvals s)) =
        approval_snapshot_key ` set (pn_approvals c)"
      by (simp add: c_def steps(2) image_image)
    show "ed_decision_type d = Propose \<longrightarrow> pn_approvals c = []"
      "ed_decision_type d = RequestApproval \<longrightarrow> pn_approvals c \<noteq> []"
      using shape(1) by (auto simp: c_def)
    show "(\<Union>s \<in> set (pn_steps c). constraint_snapshot_key ` set (ns_constraints s)) =
        constraint_snapshot_key ` set (pn_constraints c)"
      using unions(3) cons by (simp add: c_def steps(2) image_image constraint_content_def)
    have "cf_requirement ` {r \<in> set (ed_context_references d). cf_required r} =
        (\<Union>s \<in> set (pl_steps p). set (ps_required_context s))"
      using references_for_requirements(1) [OF refs] required unions(1) by simp
    then have "context_key ` cf_requirement ` {r \<in> set (ed_context_references d). cf_required r} =
        (\<Union>s \<in> set (pl_steps p). context_key ` set (ps_required_context s))"
      by (simp flip: image_UN)
    moreover have "{r \<in> set (map reference_copy (ed_context_references d)). ns_required r} =
        reference_copy ` {r \<in> set (ed_context_references d). cf_required r}"
      by auto
    ultimately show "(\<Union>s \<in> set (pn_steps c). requirement_snapshot_key ` set (ns_required_context s)) =
        (\<lambda>r. requirement_snapshot_key (ns_requirement r)) ` {r \<in> set (pn_references c). ns_required r}"
      by (simp only: c_def proposal_contents.simps steps(2))
        (simp add: image_image requirement_copy_key)
    show "\<forall>r \<in> set (pn_references c). ns_required r \<longrightarrow> ns_state r = ''resolved''"
      using shape(10) by (auto simp: c_def)
  qed
  ultimately show ?thesis by blast
qed

text \<open>The copy of a proposal is taken unless its document is too large.\<close>

lemma executive_proposal_checks:
  assumes "evaluate svc (Inr s) req = Inr d" "ed_proposed_plan d = Some p"
    and "request_ok req" "registry_ok (es_registry svc)" "version_ok (pcs_version s)"
  shows "\<exists>c v. snapshot_contents d = Inr c \<and> check_relations (ed_decision_type d) c = Inr () \<and>
    check_provenance d = Inr v \<and> check_integrity True d = Inr () \<and>
    ((\<exists>copy. snapshot_proposal True d = Inr copy) \<longleftrightarrow>
      validate_value safety_fingerprint_limits invalid_proposal (proposal_document d c v) = Inr ())"
proof -
  obtain c where c: "snapshot_contents d = Inr c" "check_relations (ed_decision_type d) c = Inr ()"
    using executive_contents [OF assms(1-4)] by blast
  obtain v where v: "check_provenance d = Inr v" "check_integrity True d = Inr ()"
    using executive_provenance [OF assms(1,3,5)] by blast
  show ?thesis
    using c v by (intro exI [of _ c] exI [of _ v]) (simp add: snapshot_proposal_Inr)
qed

end
