(* ===== verification/Safety_Fixtures.thy ===== *)
theory Safety_Fixtures
  imports Safety_Chain
begin

text \<open>
  A concrete policy of the Safety Kernel with one rule, and the evaluation under it of the plan that
  the Executive proposes for the request of \<open>Exec_Fixtures\<close>.
\<close>

definition demo_rule :: capability_rule where
  "demo_rule = \<lparr>sr_capability_id = ''c1'', sr_hazard_class = InformationalReadOnly,
     sr_required_preconditions = [], sr_required_constraints = []\<rparr>"

definition demo_hazard_rules :: "hazard_rule list" where
  "demo_hazard_rules = sort_key (\<lambda>r. hazard_class_value (hr_hazard_class r)) v1_hazard_rules"

definition demo_hazard_policy :: "capability_rule list \<Rightarrow> safety_policy" where
  "demo_hazard_policy rules = \<lparr>sy_version = safety_policy_version, sy_capability_rules = rules,
     sy_hazard_rules = demo_hazard_rules,
     sy_fingerprint = safety_sha SfPolicy (canon (policy_document rules demo_hazard_rules))\<rparr>"

text \<open>The policy that takes the capability for one of a class, and the empty one.\<close>

definition demo_rules :: "hazard_class \<Rightarrow> capability_rule list" where
  "demo_rules h = (if h = Unclassified then [] else [demo_rule\<lparr>sr_hazard_class := h\<rparr>])"

abbreviation demo_policy :: "hazard_class \<Rightarrow> safety_policy" where
  "demo_policy h \<equiv> demo_hazard_policy (demo_rules h)"

lemma demo_rules_ok [simp]: "list_all capability_rule_ok (demo_rules h)" "length (demo_rules h) \<le> Suc 0"
  by (simp_all add: demo_rules_def demo_rule_def capability_rule_ok_def)

lemma demo_mk_policy:
  assumes "list_all capability_rule_ok rules" "length rules \<le> 1"
  shows "mk_safety_policy rules = Inr (demo_hazard_policy rules)"
proof -
  have "set demo_hazard_rules = set v1_hazard_rules" "length demo_hazard_rules = 8"
    by (simp_all add: demo_hazard_rules_def v1_hazard_rules_def)
  then have "safety_fingerprint_document SfPolicy invalid_policy
      (policy_document rules demo_hazard_rules) = Inr (sy_fingerprint (demo_hazard_policy rules))"
    using assms by (simp add: safety_fingerprint_document_Inr demo_hazard_policy_def
        policy_document_valid)
  moreover have "sort_key sr_capability_id rules = rules" "distinct (map sr_capability_id rules)"
    using assms(2) by (cases rules; simp)+
  ultimately show ?thesis
    using assms(2)
    by (simp add: mk_safety_policy_eq demo_hazard_rules_def [symmetric] demo_hazard_policy_def Let_def)
qed

lemma demo_policy_ok [simp]: "policy_ok (demo_policy h)"
  by (rule mk_safety_policy_ok [OF demo_mk_policy]) simp_all

text \<open>The fields of the decision that the Executive takes.\<close>

lemma demo_decision_fields:
  assumes "evaluate demo_service (Inr demo_snapshot) demo_request = Inr d"
  shows "ed_context_references d = []" "ed_assumptions d = []" "ed_required_approvals d = []"
    "ed_constraints d = []" "ed_decision_type d = Propose" "ed_request_id d = ''r1''"
    "ed_owner_subject d = ''owner''" "ed_explanation d = proposal_explanation"
    "ed_reason_codes d = [ReadyForSafetyReview]" "ed_proposed_plan d = Some \<lparr>pl_steps = [demo_step]\<rparr>"
    "length (fp_digest (ed_decision_fingerprint d)) = 64"
    "ed_decision_id d = ''decision-'' @ fp_digest (ed_decision_fingerprint d)"
    "length (fingerprint_str (ed_decision_fingerprint d)) \<le> 100"
    "length (fingerprint_str (ed_request_fingerprint d)) \<le> 100"
    "length (fingerprint_str (ed_capability_contract_fingerprint d)) \<le> 100"
    "length (fingerprint_str (ed_relevant_context_fingerprint d)) \<le> 100"
proof -
  obtain f where f: "fingerprint_for (es_registry demo_service) [''c1''] = Inr f"
    using demo_fingerprint_for by blast
  note mk = assms [unfolded demo_evaluate_eq [OF f]]
  note d = mk_executive_decision_Inr [OF mk]
  have "decision_tuple as_assumption_id [] = Inr (ed_assumptions d)"
    "decision_tuple ap_approval_id [] = Inr (ed_required_approvals d)"
    "decision_tuple co_constraint_id [] = Inr (ed_constraints d)"
    "ed_context_references d = sort_key reference_key []"
    using d by blast+
  then show "ed_context_references d = []" "ed_assumptions d = []" "ed_required_approvals d = []"
    "ed_constraints d = []"
    by (simp_all add: decision_tuple.build_eq)
  obtain doc where doc: "ed_decision_id d = ''decision-'' @ sha256_hex (canon doc)"
    "ed_decision_fingerprint d = sha_fingerprint FpDecision (canon doc)"
    using d by blast
  show "ed_decision_type d = Propose" "ed_request_id d = ''r1''"
    "ed_owner_subject d = ''owner''" "ed_explanation d = proposal_explanation"
    "ed_reason_codes d = [ReadyForSafetyReview]" "ed_proposed_plan d = Some \<lparr>pl_steps = [demo_step]\<rparr>"
    using d by blast+
  show "length (fp_digest (ed_decision_fingerprint d)) = 64"
    "ed_decision_id d = ''decision-'' @ fp_digest (ed_decision_fingerprint d)"
    "length (fingerprint_str (ed_decision_fingerprint d)) \<le> 100"
    unfolding doc by (simp_all add: fingerprint_str_def)
  have "ed_request_fingerprint d = sha_fingerprint FpRequest ''r1''"
    "ed_capability_contract_fingerprint d = f"
    "relevant_context_fingerprint (ed_context_references d) = Inr (ed_relevant_context_fingerprint d)"
    using d by blast+
  with demo_contract [OF f] show "length (fingerprint_str (ed_request_fingerprint d)) \<le> 100"
    "length (fingerprint_str (ed_capability_contract_fingerprint d)) \<le> 100"
    "length (fingerprint_str (ed_relevant_context_fingerprint d)) \<le> 100"
    by (auto simp: fingerprint_str_def relevant_context_fingerprint_def fingerprint_document_Inr)
qed

lemma demo_version_ok [simp]: "version_ok (pcs_version demo_snapshot)"
  by (simp add: version_ok_def demo_snapshot_def)

text \<open>The Safety Kernel takes its copy of the plan.\<close>

lemma demo_proposal:
  assumes ev: "evaluate demo_service (Inr demo_snapshot) demo_request = Inr d"
  shows "\<exists>p. snapshot_proposal True d = Inr p \<and> pp_steps p = [step_copy demo_step] \<and>
    pp_assumptions p = [] \<and> pp_references p = []"
proof -
  note f = demo_decision_fields [OF ev]
  from executive_proposal_checks [OF ev f(10) demo_request_ok demo_registry_ok demo_version_ok]
  obtain c v where c: "snapshot_contents d = Inr c" and v: "check_provenance d = Inr v"
    and iff: "(\<exists>copy. snapshot_proposal True d = Inr copy) \<longleftrightarrow>
      validate_value safety_fingerprint_limits invalid_proposal (proposal_document d c v) = Inr ()"
    by blast
  have parts: "snapshot_plan d = Inr (pn_steps c)" "snapshot_context d = Inr (pn_references c)"
    "snapshot_tuple snapshot_assumption ns_assumption_id (ed_assumptions d) = Inr (pn_assumptions c)"
    using c unfolding snapshot_contents_Inr by blast+
  have "plan_ok \<lparr>pl_steps = [demo_step]\<rparr>"
    using mk_plan_ok [OF demo_mk_plan] by simp
  from plan_snapshot_of [OF this f(10)] f(5,9) parts(1) have steps: "pn_steps c = [step_copy demo_step]"
    by auto
  have rest: "pn_references c = []" "pn_assumptions c = []"
    using parts(2,3) by (simp_all add: snapshot_context_def snapshot_tuple_def typed_items_def
        f(1,2) unique_ordered_def evaluate_contexts [OF ev] state_requirements_def
        state_snapshots_def)
  have v': "v = ''sha256:'' @ csv_digest (ed_context_snapshot_version d)"
    "hex_digest_ok (csv_digest (ed_context_snapshot_version d))"
    using v unfolding check_provenance_Inr by blast+
  then have "length v = 71" by (simp add: hex_digest_ok_def)
  then have "validate_value safety_fingerprint_limits invalid_proposal (proposal_document d c v) = Inr ()"
    using f(6-9,11-) unfolding f(12)
    by (simp add: proposal_document_def steps rest size_evals safety_fingerprint_limits_def f(5-9)
        step_snapshot_document_def step_copy_def demo_step_def f(12) demo_explanation sorted_items_def)
  with iff obtain p where "snapshot_proposal True d = Inr p" by blast
  with c steps rest show ?thesis by (auto simp: snapshot_proposal_Inr)
qed

text \<open>And decides on it, whatever the policy says of its one step, as long as it says little.\<close>

definition verdict_document :: "step_decision \<Rightarrow> pyval" where
  "verdict_document v =
     obj [(''step'', step_decision_document v),
          (''approvals'', PList (map safety_approval_document (decision_approvals [v]))),
          (''prerequisites'', PList (map safety_prerequisite_document (decision_prerequisites [v]))),
          (''reasons'', str_list (map safety_reason_value (decision_reasons [v])))]"

lemma demo_evaluation_of:
  assumes ev: "evaluate demo_service (Inr demo_snapshot) demo_request = Inr d"
    and y: "policy_ok (demo_hazard_policy rules)"
    and v: "step_verdict (demo_hazard_policy rules) (step_copy demo_step) [] = v"
    and fits: "fits (Suc 9) 100 5000 (verdict_document v)"
  shows "\<exists>z p. evaluate_proposal \<lparr>sk_policy = demo_hazard_policy rules\<rparr> d = Inr z \<and>
    snapshot_proposal True d = Inr p \<and>
    pp_steps p = [step_copy demo_step] \<and> pp_assumptions p = [] \<and> yd_step_decisions z = [v] \<and>
    yd_disposition z = sd_disposition v"
proof -
  let ?y = "demo_hazard_policy rules"
  note f = demo_decision_fields [OF ev]
  obtain p where p: "snapshot_proposal True d = Inr p" "pp_steps p = [step_copy demo_step]"
    "pp_assumptions p = []"
    using demo_proposal [OF ev] by blast
  have s: "pp_source_decision_id p = ed_decision_id d" "pp_source_request_id p = ''r1''"
    "pp_owner_subject p = ''owner''" "pp_source_decision_fingerprint p = ed_decision_fingerprint d"
    and fp: "length (safety_fingerprint_str (pp_fingerprint p)) = 80"
    using p(1) f(6,7) by (auto simp: snapshot_proposal_Inr safety_fingerprint_str_def)
  have vs: "step_verdicts ?y (pp_steps p) (pp_assumptions p) = [v]"
    by (simp add: p step_verdicts_def v)
  have pol: "length (sy_version ?y) = 21" "length (safety_fingerprint_str (sy_fingerprint ?y)) = 78"
    by (simp_all add: safety_fingerprint_str_def safety_policy_version_def demo_hazard_policy_def)
  have disp: "length (safety_disposition_value (sd_disposition v)) \<le> 30"
    by (cases "sd_disposition v") simp_all
  define S A P R where "S = PList (map step_decision_document [v])"
    and "A = PList (map safety_approval_document (decision_approvals [v]))"
    and "P = PList (map safety_prerequisite_document (decision_prerequisites [v]))"
    and "R = str_list (map safety_reason_value (decision_reasons [v]))"
  note docs = this
  have "fits 9 100 5000 (step_decision_document v)" "fits 9 100 5000 A" "fits 9 100 5000 P"
    "fits 9 100 5000 R"
    using fits unfolding verdict_document_def fits_obj docs [symmetric] by (auto simp: fits_def)
  moreover have "fits (Suc 9) (Suc (1 * 100)) (1 * 5000) S"
    unfolding S_def using calculation(1) by (intro fits_map_list) simp_all
  ultimately have "fits 10 101 5000 S" "fits 10 101 5000 A" "fits 10 101 5000 P" "fits 10 101 5000 R"
    using fits_mono [of 9 100 5000 _ 10 101 5000] by simp_all
  then have "fits (Suc 10) 500 30000 (proposal_decision_document ?y p)"
    using disp f(11,13) pol fp
    unfolding proposal_decision_document_def vs s safety_decision_document_def docs [symmetric]
      fits_obj f(12)
    by (simp add: strongest_def fits_def)
  then have "validate_value safety_fingerprint_limits safety_decision_invariant
      (proposal_decision_document ?y p) = Inr ()"
    by (rule fits_validate) (simp_all add: safety_fingerprint_limits_def)
  then show ?thesis
    using y p vs by (simp add: evaluate_proposal_eq proposal_decision_def strongest_def Let_def)
qed

text \<open>What the three policies say of the step.\<close>

lemma demo_step_copy:
  "ns_required_approvals (step_copy demo_step) = []"
  "ns_expected_result (step_copy demo_step) = ResInformation"
  "ns_step_id (step_copy demo_step) = ''s1''" "ns_capability_id (step_copy demo_step) = ''c1''"
  by (simp_all add: step_copy_def demo_step_def)

lemma demo_step_rule:
  "step_rule (demo_hazard_policy []) (step_copy demo_step) = None"
  "step_rule (demo_hazard_policy [demo_rule\<lparr>sr_hazard_class := h\<rparr>]) (step_copy demo_step) =
     Some (demo_rule\<lparr>sr_hazard_class := h\<rparr>)"
  by (simp_all add: step_rule_def index_get_def demo_hazard_policy_def demo_rule_def demo_step_def)

lemma demo_step_table:
  "step_hazard (demo_policy h) (step_copy demo_step) = h"
  "\<not> metadata_missing (demo_policy h) (step_copy demo_step)"
  by (auto simp: step_hazard_def metadata_missing_def undeclared_preconditions_def
      undeclared_constraints_def demo_step_rule demo_rules_def)
    (simp_all add: demo_rule_def)

lemma demo_step_rules:
  "length (step_rules (demo_policy h) (step_copy demo_step)) \<le> 2"
  "r \<in> set (step_rules (demo_policy h) (step_copy demo_step)) \<Longrightarrow> length r \<le> 40"
proof -
  have "length (hr_rule_id (v1_rule h)) \<le> 40"
    by (cases h) (simp_all add: v1_rule_def v1_hazard_rules_def index_get_def)
  moreover have "length (rule_id (demo_rule\<lparr>sr_hazard_class := h\<rparr>)) \<le> 40"
    by (simp add: rule_id_def demo_rule_def)
  ultimately show "length (step_rules (demo_policy h) (step_copy demo_step)) \<le> 2"
    "r \<in> set (step_rules (demo_policy h) (step_copy demo_step)) \<Longrightarrow> length r \<le> 40"
    unfolding step_rules_def demo_step_table(1)
    by (auto simp: demo_step_rule demo_rules_def split: if_splits)
qed

lemma demo_step_approvals:
  "length (step_approvals (demo_policy h) (step_copy demo_step)) \<le> 1"
  "a \<in> set (step_approvals (demo_policy h) (step_copy demo_step)) \<Longrightarrow>
     fits 1 6 400 (safety_approval_document a)"
proof -
  let ?a = "step_approvals (demo_policy h) (step_copy demo_step)"
  have "?a = [] \<or> (\<exists>c. ?a = [\<lparr>sa_approval_class = c, sa_source = FromSafetyPolicy,
      sa_requirement_id = policy_approval_id c, sa_description = approval_description h,
      sa_affected_step = ''s1''\<rparr>])"
    unfolding step_approvals_def demo_step_table(1)
    by (auto simp: demo_step_copy demo_step_def step_copy_def split: option.splits)
  moreover have len: "length (approval_description h) + 2 * length (approval_class_value c) \<le> 160" for c
    by (cases h; cases c) (simp_all add: approval_description_def)
  have "fits 1 6 400 (safety_approval_document \<lparr>sa_approval_class = c,
      sa_source = FromSafetyPolicy, sa_requirement_id = policy_approval_id c,
      sa_description = approval_description h, sa_affected_step = ''s1''\<rparr>)" for c
    using len [of c] by (simp add: safety_approval_document_def fits_def obj_def policy_approval_id_def)
  ultimately show "length ?a \<le> 1" "a \<in> set ?a \<Longrightarrow> fits 1 6 400 (safety_approval_document a)"
    by auto
qed

lemma demo_step_prerequisites:
  "length (step_prerequisites (demo_policy h) (step_copy demo_step) []) \<le> 1"
  "p \<in> set (step_prerequisites (demo_policy h) (step_copy demo_step) []) \<Longrightarrow>
     fits 1 5 400 (safety_prerequisite_document p)"
proof -
  let ?p = "step_prerequisites (demo_policy h) (step_copy demo_step) []"
  have *: "?p = map (\<lambda>p. \<lparr>sp_kind = pqd_kind p, sp_prerequisite_id = pqd_prerequisite_id p,
      sp_description = pqd_description p, sp_affected_step = ''s1''\<rparr>) (hr_prerequisites (v1_rule h))"
    using demo_step_table(2) [of h] unfolding metadata_missing_def step_prerequisites_def
      demo_step_table(1) by (simp add: demo_step_copy)
  show "length ?p \<le> 1" "p \<in> set ?p \<Longrightarrow> fits 1 5 400 (safety_prerequisite_document p)"
    unfolding * by (cases h; auto simp: v1_rule_def v1_hazard_rules_def index_get_def
      motion_prerequisite_def contact_prerequisite_def safety_prerequisite_document_def fits_def obj_def)+
qed

lemma safety_reason_value_length: "length (safety_reason_value r) \<le> 45"
  by (cases r) simp_all

lemma demo_verdict_fits:
  "fits (Suc 9) 100 5000
     (verdict_document (step_verdict (demo_policy h) (step_copy demo_step) []))"
proof -
  let ?y = "demo_policy h" and ?s = "step_copy demo_step"
  define v where "v = step_verdict ?y ?s []"
  have one: "fits 3 10 500 (PList (map f xs))"
    if "length xs \<le> 1" "\<And>x. x \<in> set xs \<Longrightarrow> fits 1 6 400 (f x)" for f and xs :: "'x list"
    using fits_map_list [OF that(2) that(1)] by (rule fits_mono) simp_all
  have "fits 1 6 400 (safety_prerequisite_document p)"
    if "p \<in> set (step_prerequisites ?y ?s [])" for p
    using demo_step_prerequisites(2) [OF that] by (rule fits_mono) simp_all
  then have own: "fits 3 10 500 (PList (map safety_approval_document (sd_required_approvals v)))"
    "fits 3 10 500 (PList (map safety_prerequisite_document (sd_prerequisites v)))"
    using demo_step_approvals [where h = h] demo_step_prerequisites(1) [of h]
    by (intro one; simp add: v_def step_verdict_def)+
  have "length (sd_required_approvals v) \<le> 1" "length (sd_prerequisites v) \<le> 1"
    using demo_step_approvals(1) [of h] demo_step_prerequisites(1) [of h]
    by (simp_all add: v_def step_verdict_def)
  then have "decision_approvals [v] = sd_required_approvals v"
    "decision_prerequisites [v] = sd_prerequisites v"
    unfolding decision_approvals_def decision_prerequisites_def
    by (cases "sd_required_approvals v"; cases "sd_prerequisites v"; simp)+
  with own have lists:
    "fits 3 10 500 (PList (map safety_approval_document (sd_required_approvals v)))"
    "fits 3 10 500 (PList (map safety_prerequisite_document (sd_prerequisites v)))"
    "fits 3 10 500 (PList (map safety_approval_document (decision_approvals [v])))"
    "fits 3 10 500 (PList (map safety_prerequisite_document (decision_prerequisites [v])))"
    by simp_all
  have "length (enum_ordered safety_reasons S) \<le> 13" for S
    using length_filter_le [of "\<lambda>m. m \<in> S" safety_reasons]
    by (simp add: enum_ordered_def safety_reasons_def)
  then have reasons: "length (sd_reason_codes v) \<le> 13" "length (decision_reasons [v]) \<le> 13"
    using length_sorted_set_le [of "sd_reason_codes v"] by (simp_all add: v_def step_verdict_def
      decision_reasons_def) (metis le_trans)
  have "fits (Suc 0) (Suc 13) (13 * 45) (str_list (map safety_reason_value rs))"
    if "length rs \<le> 13" for rs
    using that safety_reason_value_length by (intro fits_str_list) auto
  then have strs: "fits 1 14 585 (str_list (map safety_reason_value (sd_reason_codes v)))"
    "fits 1 14 585 (str_list (map safety_reason_value (decision_reasons [v])))"
    using reasons by simp_all
  have "fits (Suc 0) (Suc 2) (2 * 40) (str_list (sd_policy_rules v))"
    using demo_step_rules [where h = h] length_sorted_set_le [of "step_rules ?y ?s"]
    by (intro fits_str_list) (auto simp: v_def step_verdict_def)
  then have rules: "fits 1 3 80 (str_list (sd_policy_rules v))" by simp
  have "length (safety_disposition_value (sd_disposition v)) \<le> 30"
    by (cases "sd_disposition v") simp_all
  moreover have "length (hazard_class_value (sd_hazard_class v)) \<le> 25"
    by (rule hazard_class_value_length)
  moreover have "sd_step_id v = ''s1''" "sd_capability_id v = ''c1''"
    by (simp_all add: v_def step_verdict_def step_copy_def demo_step_def)
  ultimately have names: "length (safety_disposition_value (sd_disposition v)) \<le> 30"
    "length (hazard_class_value (sd_hazard_class v)) \<le> 25"
    "length (sd_step_id v) \<le> 2" "length (sd_capability_id v) \<le> 2"
    by simp_all
  define A P A' P' R R' U where
    "A = PList (map safety_approval_document (sd_required_approvals v))"
    and "P = PList (map safety_prerequisite_document (sd_prerequisites v))"
    and "A' = PList (map safety_approval_document (decision_approvals [v]))"
    and "P' = PList (map safety_prerequisite_document (decision_prerequisites [v]))"
    and "R = str_list (map safety_reason_value (sd_reason_codes v))"
    and "R' = str_list (map safety_reason_value (decision_reasons [v]))"
    and "U = str_list (sd_policy_rules v)"
  note docs = this
  note f = lists [folded docs] strs [folded docs] rules [folded docs]
  have "fits 8 14 585 R" "fits 8 3 80 U" "fits 8 10 500 A" "fits 8 10 500 P"
    using f by (auto elim: fits_mono)
  then have "fits (Suc 8) 60 2500 (step_decision_document v)"
    using names unfolding step_decision_document_def docs [symmetric] fits_obj
    by (simp add: fits_def)
  then have "fits 9 60 2500 (step_decision_document v)" by (rule fits_mono) simp_all
  moreover have "fits 9 10 500 A'" "fits 9 10 500 P'" "fits 9 14 585 R'"
    using f by (auto elim: fits_mono)
  ultimately have "fits (Suc 9) 100 5000 (verdict_document v)"
    unfolding verdict_document_def docs [symmetric] fits_obj by (simp add: fits_def)
  then show ?thesis by (simp add: v_def)
qed

lemma demo_evaluation:
  assumes "evaluate demo_service (Inr demo_snapshot) demo_request = Inr d"
  shows "\<exists>z p. evaluate_proposal \<lparr>sk_policy = demo_policy h\<rparr> d = Inr z \<and>
    snapshot_proposal True d = Inr p \<and> pp_steps p = [step_copy demo_step] \<and>
    pp_assumptions p = [] \<and> yd_step_decisions z = [step_verdict (demo_policy h) (step_copy demo_step) []]"
  using demo_evaluation_of [OF assms demo_policy_ok refl demo_verdict_fits] by blast

end
