(* ===== verification/Safety_Errors.thy ===== *)
theory Safety_Errors
  imports Safety_Evaluation Exec_Errors
begin

text \<open>
  The exceptions of the Safety Kernel.  \<open>snapshot_proposal\<close> turns the errors of the Executive it
  meets into \<open>InvalidSafetyProposalError\<close>; what is left are its own two errors and the
  \<open>AssertionError\<close> of a \<open>parameters\<close> property that does not hold a dict.
\<close>

definition inspection_errors :: "exn set" where
  "inspection_errors = {invalid_proposal, safety_plan_invariant, assertion_error} \<union> range ExecutiveExn"

lemma inspection_errors_in [simp]:
  "invalid_proposal \<in> inspection_errors" "safety_plan_invariant \<in> inspection_errors"
  "assertion_error \<in> inspection_errors" "ExecutiveExn x \<in> inspection_errors"
  by (simp_all add: inspection_errors_def)

section \<open>The parts of a snapshot\<close>

lemma raises_safety_copy [raises]: "e \<in> S \<Longrightarrow> raises_only S (safety_copy e v)"
  unfolding safety_copy_def by (intro raises)

lemma raises_proposal_text [raises]: "raises_only inspection_errors (proposal_text s)"
  by (simp add: raises_only_def)

lemma raises_proposal_identifier [raises]: "raises_only inspection_errors (proposal_identifier s)"
  by (simp add: raises_only_def)

lemma raises_typed_items [raises]: "raises_only inspection_errors (typed_items xs)"
  unfolding typed_items_def by (intro raises) simp

lemma raises_unique_ordered [raises]: "raises_only inspection_errors (unique_ordered key xs)"
  unfolding unique_ordered_def by (intro raises) simp

lemma raises_snapshot_tuple [raises]:
  "(\<And>x. x \<in> set xs \<Longrightarrow> raises_only inspection_errors (f x)) \<Longrightarrow>
   raises_only inspection_errors (snapshot_tuple f key xs)"
  unfolding snapshot_tuple_def typed_items_def by (intro raises) (auto simp: res_simps)

lemma raises_parts [raises]:
  "raises_only inspection_errors (snapshot_approval a)"
  "raises_only inspection_errors (snapshot_assumption b)"
  "raises_only inspection_errors (snapshot_precondition p)"
  "raises_only inspection_errors (snapshot_requirement r)"
  "raises_only inspection_errors (snapshot_constraint c)"
  unfolding snapshot_approval_def snapshot_assumption_def snapshot_precondition_def
    snapshot_requirement_def snapshot_constraint_def Let_def safety_canonicalize_def
  by (intro raises; simp)+

lemma raises_snapshot_reference [raises]: "raises_only inspection_errors (snapshot_reference r)"
  unfolding snapshot_reference_def Let_def by (intro raises) simp_all

lemma raises_snapshot_step [raises]: "raises_only inspection_errors (snapshot_step s)"
  unfolding snapshot_step_def step_parameters_def safety_canonicalize_def by (intro raises) simp_all

text \<open>No lookup of the second sort fails: the sorted identifiers are those of the steps.\<close>

lemma raises_ordered_steps:
  assumes "list_all plan_step_snapshot_ok steps"
  shows "raises_only inspection_errors (ordered_steps steps)"
  unfolding ordered_steps_def
proof (intro raises)
  show "raises_only inspection_errors
      (topological_steps safety_plan_invariant (snapshot_graph steps))"
    using topological_steps_Inl [of safety_plan_invariant "snapshot_graph steps"]
    by (auto simp: raises_only_def)
  fix order i
  assume o: "topological_steps safety_plan_invariant (snapshot_graph steps) = Inr order"
    and i: "i \<in> set order"
  have d: "distinct (map ns_step_id steps)" using topological_steps_distinct [OF o] .
  have "i \<in> ns_step_id ` set steps"
    using safety_order.sound [OF snapshot_graph_proper [OF assms d] o] i
    by (simp add: topo_sorted_def)
  then show "raises_only inspection_errors (dict_item (index_get ns_step_id steps i))"
    by (cases "index_get ns_step_id steps i") (simp_all add: index_get_None dict_item_def raises_Inr)
qed

lemma raises_snapshot_plan [raises]: "raises_only inspection_errors (snapshot_plan d)"
proof -
  have "raises_only inspection_errors (ordered_steps raw)"
    if "traverse snapshot_step xs = Inr raw" for xs raw
    using traverse_image(1) [OF that] snapshot_step_ok
    by (intro raises_ordered_steps) (auto simp: list_all_iff)
  then show ?thesis
    unfolding snapshot_plan_def by (intro raises) simp_all
qed

lemma raises_snapshot_context [raises]: "raises_only inspection_errors (snapshot_context d)"
  unfolding snapshot_context_def by (intro raises) simp_all

lemma raises_snapshot_contents [raises]: "raises_only inspection_errors (snapshot_contents d)"
  unfolding snapshot_contents_def by (intro raises) simp_all

lemma raises_check_relations [raises]: "raises_only inspection_errors (check_relations t c)"
  unfolding check_relations_def Let_def by (intro raises) simp_all

lemma raises_proposal_fingerprint [raises]: "raises_only inspection_errors (proposal_fingerprint k f)"
  unfolding proposal_fingerprint_def by (intro raises) simp_all

lemma raises_check_provenance [raises]: "raises_only inspection_errors (check_provenance d)"
  unfolding check_provenance_def Let_def by (intro raises) simp_all

section \<open>The decision built again\<close>

lemma raises_check_integrity [raises]: "raises_only inspection_errors (check_integrity strict d)"
  unfolding check_integrity_def rebuilt_def
  by (intro raises raises_mk_executive_decision) simp_all

lemma raises_fingerprint [raises]: "e \<in> S \<Longrightarrow> raises_only S (safety_fingerprint_document k e v)"
  unfolding safety_fingerprint_document_eq by (intro raises)

section \<open>What escapes\<close>

lemma raises_inspected:
  "raises_only inspection_errors r \<Longrightarrow>
   raises_only {invalid_proposal, safety_plan_invariant, assertion_error} (inspected r)"
  by (auto simp: raises_only_def inspected_def inspection_errors_def split: sum.splits exn.splits)

lemma snapshot_proposal_raises:
  "raises_only {invalid_proposal, safety_plan_invariant, assertion_error} (snapshot_proposal strict d)"
  unfolding snapshot_proposal_def by (rule raises_inspected, intro raises) simp

end
