(* ===== verification/Safety_Properties.thy ===== *)
theory Safety_Properties
  imports Safety_Fixtures Safety_Errors
begin

text \<open>
  The properties of the Safety Kernel: which snapshots it accepts, what it decides on a step and on a
  proposal, when a decision is current, and that it accepts what the Executive proposes.
\<close>

section \<open>Steps\<close>

lemma demo_step_snapshot_ok [simp]: "step_snapshot_ok (step_copy demo_step)"
  by (simp add: step_snapshot_ok_def step_copy_def demo_step_def)

text \<open>
  C9. The evaluation of a step is a decision table over its hazard class, the metadata that the
  capability rule demands, the declared result, the approvals and the assumptions: it always
  returns, with the disposition, the reasons, the approvals and the prerequisites of the table.
\<close>

theorem evaluate_step_table:
  assumes "policy_ok y" "step_snapshot_ok s" "assumptions_ok as"
  shows "\<exists>v. evaluate_step \<lparr>sk_policy = y\<rparr> s as = Inr v \<and>
    sd_step_id v = ns_step_id s \<and> sd_hazard_class v = step_hazard y s \<and>
    sd_disposition v = step_disposition y s (as \<noteq> []) \<and>
    set (sd_reason_codes v) = step_reasons y s (as \<noteq> []) \<and>
    set (sd_required_approvals v) = set (step_approvals y s) \<and>
    set (sd_prerequisites v) = set (step_prerequisites y s as) \<and>
    set (sd_policy_rules v) = set (step_rules y s)"
  using evaluate_step_verdict [OF assms] by (simp add: step_verdict_def)

lemma evaluate_step_table_witness:
  "\<exists>v. evaluate_step \<lparr>sk_policy = demo_policy InformationalReadOnly\<rparr> (step_copy demo_step) [] = Inr v \<and>
     sd_disposition v = step_disposition (demo_policy InformationalReadOnly) (step_copy demo_step) False"
  using evaluate_step_table [OF demo_policy_ok [of InformationalReadOnly] demo_step_snapshot_ok
    assumptions_ok_Nil] by auto

text \<open>
  Whoever constructs a step decision, what the constructor returns is consistent: the
  disposition is at least the minimum of the hazard class and the reason of the class is listed, an
  eligible step has nothing left to do, an approval needs approvals and no prerequisites, a deferral
  needs prerequisites, a block and an approval and a deferral have a reason of their kind, and an
  unclassified capability is blocked.
\<close>

theorem step_decision_invariant:
  assumes "mk_step_decision i c h d rs rules aps ps = Inr s"
  shows "sd_disposition s \<ge> hazard_minimum (sd_hazard_class s) \<and>
    hazard_base_reason (sd_hazard_class s) \<in> set (sd_reason_codes s) \<and>
    (sd_disposition s = EligibleForDownstream \<longrightarrow>
       sd_required_approvals s = [] \<and> sd_prerequisites s = []) \<and>
    (sd_disposition s = ExternalApprovalRequired \<longrightarrow>
       sd_required_approvals s \<noteq> [] \<and> sd_prerequisites s = [] \<and>
       set (sd_reason_codes s) \<inter> approval_reasons \<noteq> {}) \<and>
    (sd_disposition s = Deferred \<longrightarrow>
       sd_prerequisites s \<noteq> [] \<and> set (sd_reason_codes s) \<inter> defer_reasons \<noteq> {}) \<and>
    (sd_disposition s = Blocked \<longrightarrow> set (sd_reason_codes s) \<inter> blocking_reasons \<noteq> {}) \<and>
    (sd_hazard_class s = Unclassified \<longrightarrow>
       sd_disposition s = Blocked \<and> UnknownCapabilityClass \<in> set (sd_reason_codes s)) \<and>
    sorted (map approval_key (sd_required_approvals s)) \<and>
    distinct (map approval_key (sd_required_approvals s)) \<and>
    (\<forall>a \<in> set (sd_required_approvals s). sa_affected_step a = sd_step_id s) \<and>
    (\<forall>p \<in> set (sd_prerequisites s). sp_affected_step p = sd_step_id s)"
  using mk_step_decision_ok [OF assms] unfolding step_decision_ok_def by blast

lemma step_decision_invariant_witness:
  "\<exists>s. mk_step_decision ''s1'' ''c1'' Unclassified Blocked [UnknownCapabilityClass]
      [''hazard.unclassified''] [] [] = Inr s \<and>
     hazard_base_reason (sd_hazard_class s) \<in> set (sd_reason_codes s)"
proof -
  have "\<exists>s. mk_step_decision ''s1'' ''c1'' Unclassified Blocked [UnknownCapabilityClass]
      [''hazard.unclassified''] [] [] = Inr s"
    by (simp add: mk_step_decision_def identifier_tuple_eq ordered_objects_def identifier_evals
        long_identifier_ok_def blocking_reasons_def sorted_set_def)
      (simp add: max_safety_identifier_length_def)
  with step_decision_invariant show ?thesis by blast
qed

section \<open>Proposals\<close>

lemma evaluation_parts:
  assumes "policy_ok y" "evaluate_proposal \<lparr>sk_policy = y\<rparr> d = Inr z" "snapshot_proposal True d = Inr p"
  shows "z = proposal_decision y p" "pp_steps p \<noteq> []" "policy_ok y"
    "list_all step_decision_ok (step_verdicts y (pp_steps p) (pp_assumptions p))"
    "distinct (map ns_step_id (pp_steps p))"
proof -
  note parts = snapshot_proposal_parts [OF assms(3)]
  show "z = proposal_decision y p" using assms by (simp add: evaluate_proposal_Inr)
  show "pp_steps p \<noteq> []" "distinct (map ns_step_id (pp_steps p))" by (fact parts(1), fact parts(4))
  show "list_all step_decision_ok (step_verdicts y (pp_steps p) (pp_assumptions p))"
    using step_verdicts_ok [OF assms(1) parts(3) assumptions_okI [OF parts(5-7)]] .
qed (rule assms(1))

lemma decision_disposition:
  "yd_disposition (proposal_decision y p) =
     strongest (map sd_disposition (step_verdicts y (pp_steps p) (pp_assumptions p)))"
  "yd_step_decisions (proposal_decision y p) = step_verdicts y (pp_steps p) (pp_assumptions p)"
  "yd_reason_codes (proposal_decision y p) =
     decision_reasons (step_verdicts y (pp_steps p) (pp_assumptions p))"
  "yd_prerequisites (proposal_decision y p) =
     decision_prerequisites (step_verdicts y (pp_steps p) (pp_assumptions p))"
  "yd_required_approvals (proposal_decision y p) =
     decision_approvals (step_verdicts y (pp_steps p) (pp_assumptions p))"
  by (simp_all add: proposal_decision_def Let_def)

text \<open>
  C10. The decision on a proposal has one step decision per step, in the order of the snapshot; its
  disposition is the strongest of theirs; and its reasons, approvals and prerequisites are exactly
  those of the steps, without repetition.
\<close>

theorem decision_aggregates_steps:
  assumes "policy_ok y" "evaluate_proposal \<lparr>sk_policy = y\<rparr> d = Inr z"
    and "snapshot_proposal True d = Inr p"
  shows "map sd_step_id (yd_step_decisions z) = map ns_step_id (pp_steps p) \<and>
    yd_disposition z = Max (sd_disposition ` set (yd_step_decisions z)) \<and>
    set (yd_reason_codes z) = (\<Union>v \<in> set (yd_step_decisions z). set (sd_reason_codes v)) \<and>
    set (yd_required_approvals z) = (\<Union>v \<in> set (yd_step_decisions z). set (sd_required_approvals v)) \<and>
    set (yd_prerequisites z) = (\<Union>v \<in> set (yd_step_decisions z). set (sd_prerequisites v)) \<and>
    distinct (map approval_key (yd_required_approvals z)) \<and>
    distinct (map prerequisite_key (yd_prerequisites z))"
proof -
  note e = evaluation_parts [OF assms]
  have "distinct (map sd_step_id (step_verdicts y (pp_steps p) (pp_assumptions p)))"
    using e(5) by simp
  from decision_keys_distinct [OF e(4) this] show ?thesis
    using e(2) by (simp add: e(1) decision_disposition strongest_Max)
qed

lemma decision_aggregates_steps_witness:
  "\<exists>d z. evaluate_proposal \<lparr>sk_policy = demo_policy InformationalReadOnly\<rparr> d = Inr z \<and>
     map sd_step_id (yd_step_decisions z) = [''s1''] \<and>
     yd_disposition z = Max (sd_disposition ` set (yd_step_decisions z))"
proof -
  obtain d where ev: "evaluate demo_service (Inr demo_snapshot) demo_request = Inr d"
    using demo_evaluate by blast
  obtain z p where "evaluate_proposal \<lparr>sk_policy = demo_policy InformationalReadOnly\<rparr> d = Inr z"
    "snapshot_proposal True d = Inr p" "pp_steps p = [step_copy demo_step]"
    using demo_evaluation [OF ev] by blast
  moreover have "ns_step_id (step_copy demo_step) = ''s1''"
    by (simp add: step_copy_def demo_step_def)
  ultimately show ?thesis
    using decision_aggregates_steps [OF demo_policy_ok] by fastforce
qed

text \<open>
  A proposal that uses a capability without a rule in the policy is blocked, and says so.
\<close>

theorem unknown_capability_blocked:
  assumes "policy_ok y" "evaluate_proposal \<lparr>sk_policy = y\<rparr> d = Inr z"
    and "snapshot_proposal True d = Inr p" "s \<in> set (pp_steps p)" "step_rule y s = None"
  shows "yd_disposition z = Blocked \<and> UnknownCapabilityClass \<in> set (yd_reason_codes z)"
proof -
  note e = evaluation_parts [OF assms(1-3)]
  let ?vs = "step_verdicts y (pp_steps p) (pp_assumptions p)"
  have h: "step_hazard y s = Unclassified" using assms(5) by (simp add: step_hazard_def)
  obtain v where v: "v \<in> set ?vs" "v = step_verdict y s (pp_assumptions p) \<or> v = step_verdict y s []"
    using step_verdict_mem [OF assms(4)] by blast
  then have "sd_disposition v = Blocked" "UnknownCapabilityClass \<in> set (sd_reason_codes v)"
    using step_table_minimum(2) [OF h] step_table_reasons(2) [OF h] by (auto simp: step_verdict_def)
  moreover have "sd_disposition v \<le> strongest (map sd_disposition ?vs)"
    using v(1) by (simp add: strongest_le)
  ultimately have "Blocked \<le> strongest (map sd_disposition ?vs)" by simp
  then have "strongest (map sd_disposition ?vs) = Blocked"
    by (cases "strongest (map sd_disposition ?vs)") (simp_all add: less_eq_safety_disposition_def)
  with v(1) \<open>UnknownCapabilityClass \<in> set (sd_reason_codes v)\<close> show ?thesis
    by (auto simp: e(1) decision_disposition)
qed

lemma unknown_capability_blocked_witness:
  "\<exists>d z. evaluate_proposal \<lparr>sk_policy = demo_policy Unclassified\<rparr> d = Inr z \<and>
     yd_disposition z = Blocked \<and> UnknownCapabilityClass \<in> set (yd_reason_codes z)"
proof -
  obtain d where ev: "evaluate demo_service (Inr demo_snapshot) demo_request = Inr d"
    using demo_evaluate by blast
  obtain z p where z: "evaluate_proposal \<lparr>sk_policy = demo_policy Unclassified\<rparr> d = Inr z"
    "snapshot_proposal True d = Inr p" "pp_steps p = [step_copy demo_step]"
    using demo_evaluation [OF ev] by blast
  have "step_copy demo_step \<in> set (pp_steps p)" by (simp add: z(3))
  moreover have "step_rule (demo_policy Unclassified) (step_copy demo_step) = None"
    by (simp add: demo_rules_def demo_step_rule)
  ultimately show ?thesis
    using unknown_capability_blocked [OF demo_policy_ok z(1,2)] z(1) by blast
qed

text \<open>
  A proposal with a step of a physical class is never eligible and never passes with an approval
  alone: it is deferred or blocked, and the evaluation of the motion or of the contact by a
  downstream system is listed as a prerequisite of that step.
\<close>

theorem physical_step_deferred:
  assumes "policy_ok y" "evaluate_proposal \<lparr>sk_policy = y\<rparr> d = Inr z"
    and "snapshot_proposal True d = Inr p" "s \<in> set (pp_steps p)"
    and "step_hazard y s \<in> {PhysicalMovement, PhysicalContact}"
  shows "yd_disposition z \<in> {Deferred, Blocked} \<and>
    (\<exists>q \<in> set (yd_prerequisites z). sp_affected_step q = ns_step_id s \<and>
       sp_kind q = (if step_hazard y s = PhysicalMovement then MotionSafetyEvaluation
                    else ContactSafetyEvaluation))"
proof -
  note e = evaluation_parts [OF assms(1-3)]
  let ?vs = "step_verdicts y (pp_steps p) (pp_assumptions p)"
  obtain as v where v: "v \<in> set ?vs" "v = step_verdict y s as"
    using step_verdict_mem [OF assms(4)] by blast
  have "Deferred \<le> sd_disposition v"
    using step_table_minimum(1) [of y s "as \<noteq> []"] assms(5) by (auto simp: v(2) step_verdict_def)
  also have "sd_disposition v \<le> strongest (map sd_disposition ?vs)"
    using v(1) by (simp add: strongest_le)
  finally have "strongest (map sd_disposition ?vs) \<in> {Deferred, Blocked}"
    by (cases "strongest (map sd_disposition ?vs)") (simp_all add: less_eq_safety_disposition_def)
  moreover have "\<exists>q \<in> set (sd_prerequisites v). sp_affected_step q = ns_step_id s \<and>
      sp_kind q = (if step_hazard y s = PhysicalMovement then MotionSafetyEvaluation
                   else ContactSafetyEvaluation)"
    using assms(5) by (auto simp: v(2) step_verdict_def step_prerequisites_def v1_rule_def
        v1_hazard_rules_def index_get_def motion_prerequisite_def contact_prerequisite_def)
  ultimately show ?thesis
    using v(1) unfolding e(1) decision_disposition decision_prerequisites_set by blast
qed

lemma physical_step_deferred_witness:
  "\<exists>d z. evaluate_proposal \<lparr>sk_policy = demo_policy PhysicalMovement\<rparr> d = Inr z \<and>
     yd_disposition z \<in> {Deferred, Blocked}"
proof -
  obtain d where ev: "evaluate demo_service (Inr demo_snapshot) demo_request = Inr d"
    using demo_evaluate by blast
  obtain z p where z: "evaluate_proposal \<lparr>sk_policy = demo_policy PhysicalMovement\<rparr> d = Inr z"
    "snapshot_proposal True d = Inr p" "pp_steps p = [step_copy demo_step]"
    using demo_evaluation [OF ev] by blast
  have "step_copy demo_step \<in> set (pp_steps p)" by (simp add: z(3))
  from physical_step_deferred [OF demo_policy_ok z(1,2) this] z(1) show ?thesis
    by (auto simp: demo_step_table)
qed

lemma strongest_eligible:
  "ds \<noteq> [] \<Longrightarrow> strongest ds = EligibleForDownstream \<longleftrightarrow> (\<forall>x \<in> set ds. x = EligibleForDownstream)"
proof
  have least: "x \<le> EligibleForDownstream \<Longrightarrow> x = EligibleForDownstream" for x
    by (cases x) (simp_all add: less_eq_safety_disposition_def)
  show "\<forall>x \<in> set ds. x = EligibleForDownstream" if "strongest ds = EligibleForDownstream"
    using that least strongest_le [of _ ds] by auto
qed (use strongest_in [of ds] in blast)

text \<open>
  A proposal is eligible for downstream layers exactly when nothing is assumed and every step is
  of a harmless class, declares the metadata its capability rule demands and a result of its class,
  and needs no approval.
\<close>

theorem eligible_iff:
  assumes "policy_ok y" "evaluate_proposal \<lparr>sk_policy = y\<rparr> d = Inr z"
    and "snapshot_proposal True d = Inr p"
  shows "yd_disposition z = EligibleForDownstream \<longleftrightarrow>
    pp_assumptions p = [] \<and>
    (\<forall>s \<in> set (pp_steps p). step_hazard y s \<in> {InformationalReadOnly, InternalNonActuating} \<and>
       \<not> metadata_missing y s \<and> ns_expected_result s \<in> expected_results (step_hazard y s) \<and>
       ns_required_approvals s = [])"
proof -
  note e = evaluation_parts [OF assms]
  let ?vs = "step_verdicts y (pp_steps p) (pp_assumptions p)"
  have harmless: "step_disposition y s False = EligibleForDownstream \<longleftrightarrow>
      step_hazard y s \<in> {InformationalReadOnly, InternalNonActuating} \<and>
      \<not> metadata_missing y s \<and> ns_expected_result s \<in> expected_results (step_hazard y s) \<and>
      ns_required_approvals s = []" for s
    by (cases "step_hazard y s") (auto simp: step_disposition_def)
  have "map sd_disposition ?vs \<noteq> []" using e(2) by simp
  from strongest_eligible [OF this] have "strongest (map sd_disposition ?vs) = EligibleForDownstream \<longleftrightarrow>
      (\<forall>v \<in> set ?vs. sd_disposition v = EligibleForDownstream)"
    by simp
  also have "\<dots> \<longleftrightarrow> pp_assumptions p = [] \<and>
      (\<forall>s \<in> set (pp_steps p). step_disposition y s False = EligibleForDownstream)"
  proof (cases "pp_steps p")
    case (Cons t ts)
    have "step_disposition y t True \<noteq> EligibleForDownstream" by (simp add: step_disposition_def Let_def)
    with Cons show ?thesis
      by (cases "pp_assumptions p = []") (auto simp: step_verdicts_def step_verdict_def)
  qed (use e(2) in simp)
  also have "\<dots> \<longleftrightarrow> pp_assumptions p = [] \<and> (\<forall>s \<in> set (pp_steps p).
      step_hazard y s \<in> {InformationalReadOnly, InternalNonActuating} \<and>
      \<not> metadata_missing y s \<and> ns_expected_result s \<in> expected_results (step_hazard y s) \<and>
      ns_required_approvals s = [])"
    by (simp only: harmless)
  finally show ?thesis by (simp add: e(1) decision_disposition)
qed

lemma eligible_iff_witness:
  "\<exists>d z. evaluate_proposal \<lparr>sk_policy = demo_policy InformationalReadOnly\<rparr> d = Inr z \<and>
     yd_disposition z = EligibleForDownstream"
proof -
  obtain d where ev: "evaluate demo_service (Inr demo_snapshot) demo_request = Inr d"
    using demo_evaluate by blast
  obtain z p where z: "evaluate_proposal \<lparr>sk_policy = demo_policy InformationalReadOnly\<rparr> d = Inr z"
    "snapshot_proposal True d = Inr p" "pp_steps p = [step_copy demo_step]" "pp_assumptions p = []"
    using demo_evaluation [OF ev] by blast
  have "ps_required_approvals demo_step = []" "ps_expected_result demo_step = ResInformation"
    by (simp_all add: demo_step_def)
  with eligible_iff [OF demo_policy_ok z(1,2)] z show ?thesis
    by (auto simp: demo_step_table demo_step_copy)
qed

section \<open>The snapshot\<close>

text \<open>
  C11. What the Safety Kernel evaluates is the decision it was given. A snapshot is only taken of a
  proposal with a plan, whose identifier is the one of its fingerprint; its steps are the plan's, each
  after the steps it depends on. With the source-integrity check, as \<open>evaluate\<close> takes it
  (\<open>require_source_integrity=True\<close>), the fingerprints of the proposal are moreover those of the decision
  built again from its content. \<open>revalidate\<close> takes its snapshot without that check, and then a proposal
  whose content was changed behind its fingerprint has a snapshot too, with the same steps.
\<close>

theorem snapshot_authentic:
  assumes "snapshot_proposal integrity d = Inr p"
  shows "(integrity \<longrightarrow> (\<exists>r. rebuilt d = Inr r \<and> ed_decision_fingerprint r = ed_decision_fingerprint d \<and>
      ed_relevant_context_fingerprint r = ed_relevant_context_fingerprint d)) \<and>
    ed_decision_id d = ''decision-'' @ fp_digest (ed_decision_fingerprint d) \<and>
    (\<exists>plan raw. ed_proposed_plan d = Some plan \<and>
       traverse snapshot_step (pl_steps plan) = Inr raw \<and> mset (pp_steps p) = mset raw \<and>
       (\<forall>xs s ys. pp_steps p = xs @ s # ys \<longrightarrow> set (ns_dependencies s) \<subseteq> ns_step_id ` set xs))"
proof -
  obtain c v where c: "snapshot_contents d = Inr c" and v: "check_provenance d = Inr v"
    and i: "check_integrity integrity d = Inr ()" and steps: "pp_steps p = pn_steps c"
    using assms by (auto simp: snapshot_proposal_Inr)
  from i have r: "\<exists>r. rebuilt d = Inr r \<and> ed_decision_fingerprint r = ed_decision_fingerprint d \<and>
      ed_relevant_context_fingerprint r = ed_relevant_context_fingerprint d" if integrity
    using that by (auto simp: check_integrity_def res_simps)
  have "ed_decision_id d = ''decision-'' @ fp_digest (ed_decision_fingerprint d)"
    using v unfolding check_provenance_Inr by blast
  moreover have "snapshot_plan d = Inr (pn_steps c)" using c by (simp add: snapshot_contents_Inr)
  from snapshot_plan_Inr [OF this] obtain plan raw where
    plan: "ed_proposed_plan d = Some plan" "traverse snapshot_step (pl_steps plan) = Inr raw"
    and raw: "list_all plan_step_snapshot_ok raw" "distinct (map ns_step_id raw)"
    and m: "mset (pn_steps c) = mset raw"
    and t: "topo_sorted (snapshot_graph raw) (map ns_step_id (pn_steps c))"
    by blast
  note g = snapshot_graph_proper [OF raw]
  have "set (ns_dependencies s) \<subseteq> ns_step_id ` set xs" if "pp_steps p = xs @ s # ys" for xs s ys
  proof -
    have "s \<in> set raw" using mset_eq_setD [OF m] that steps by auto
    then have "needs (snapshot_graph raw) (ns_step_id s) = set (ns_dependencies s)"
      by (intro needs_item [OF g]) (auto simp: snapshot_graph_def)
    moreover have "deps_first (snapshot_graph raw)
        (map ns_step_id xs @ ns_step_id s # map ns_step_id ys)"
      using t that steps by (simp add: topo_sorted_def)
    ultimately show ?thesis using deps_first_split by fastforce
  qed
  ultimately show ?thesis using r plan m steps by metis
qed

lemma snapshot_authentic_witness:
  "\<exists>d p r. snapshot_proposal True d = Inr p \<and> pp_steps p = [step_copy demo_step] \<and>
     rebuilt d = Inr r \<and> ed_decision_fingerprint r = ed_decision_fingerprint d"
proof -
  obtain d where ev: "evaluate demo_service (Inr demo_snapshot) demo_request = Inr d"
    using demo_evaluate by blast
  obtain p where p: "snapshot_proposal True d = Inr p" "pp_steps p = [step_copy demo_step]"
    using demo_proposal [OF ev] by blast
  show ?thesis using snapshot_authentic [OF p(1)] p by blast
qed

text \<open>
  C12. Composition: every plan the Executive proposes for a well-formed request passes all the checks
  that the Safety Kernel makes on its content, its relations, its provenance and its integrity.
  The copy is refused only when its own document is over the fingerprint limits.
\<close>

theorem executive_proposal_passes:
  assumes "evaluate svc (Inr s) req = Inr d" "ed_proposed_plan d = Some plan"
    and "request_ok req" "registry_ok (es_registry svc)" "version_ok (pcs_version s)"
  shows "\<exists>c v. snapshot_contents d = Inr c \<and> check_relations (ed_decision_type d) c = Inr () \<and>
    check_provenance d = Inr v \<and> check_integrity True d = Inr () \<and>
    ((\<exists>p. snapshot_proposal True d = Inr p) \<longleftrightarrow>
      validate_value safety_fingerprint_limits invalid_proposal (proposal_document d c v) = Inr ())"
  using assms by (rule executive_proposal_checks)

lemma executive_proposal_passes_witness:
  "\<exists>d c. evaluate demo_service (Inr demo_snapshot) demo_request = Inr d \<and> snapshot_contents d = Inr c \<and>
     check_relations (ed_decision_type d) c = Inr () \<and> check_integrity True d = Inr ()"
proof -
  obtain d where d: "evaluate demo_service (Inr demo_snapshot) demo_request = Inr d"
    "ed_proposed_plan d = Some \<lparr>pl_steps = [demo_step]\<rparr>"
    using demo_evaluate by blast
  from executive_proposal_passes [OF d demo_request_ok demo_registry_ok demo_version_ok] d(1)
  show ?thesis by blast
qed

text \<open>
  C13. The Executive and the Safety Kernel sort plans differently, one step at a time and layer by
  layer, but they accept the same dependency graphs and place the same steps.
\<close>

theorem plan_sorts_agree:
  assumes "proper g"
  shows "((\<exists>xs. validate_dependency_graph plan_invariant g = Inr xs) \<longleftrightarrow>
      (\<exists>ys. topological_steps safety_plan_invariant g = Inr ys)) \<and>
    (\<forall>xs ys. validate_dependency_graph plan_invariant g = Inr xs \<longrightarrow>
      topological_steps safety_plan_invariant g = Inr ys \<longrightarrow> mset xs = mset ys)"
  using plan_sorts.same_graphs [OF assms, of plan_invariant safety_plan_invariant]
    plan_sorts.same_steps [OF assms, of plan_invariant _ safety_plan_invariant] by simp

lemma plan_sorts_agree_witness:
  "(\<exists>ys. topological_steps safety_plan_invariant [(''s1'', [])] = Inr ys)"
proof -
  have "proper [(''s1'', [])]" by (simp add: proper_def)
  from plan_sorts_agree [OF this] demo_order [of plan_invariant] show ?thesis by blast
qed

section \<open>The policy\<close>

text \<open>
  C14. A policy can be built from valid capability rules exactly when there are at most 256 of them
  and no capability has two: the bound on the fingerprinted document is never the reason to refuse.
\<close>

theorem policy_accepts_iff:
  assumes "list_all capability_rule_ok rules"
  shows "(\<exists>y. mk_safety_policy rules = Inr y) \<longleftrightarrow>
    length rules \<le> 256 \<and> distinct (map sr_capability_id rules)"
proof -
  let ?o = "sort_key sr_capability_id rules"
  let ?h = "sort_key (\<lambda>r. hazard_class_value (hr_hazard_class r)) v1_hazard_rules"
  have "length v1_hazard_rules = 8" by (simp add: v1_hazard_rules_def)
  then have "validate_value safety_fingerprint_limits invalid_policy (policy_document ?o ?h) = Inr ()"
    if "length rules \<le> 256"
    using assms that by (intro policy_document_valid) (simp_all add: list_all_iff)
  then show ?thesis
    by (auto simp: mk_safety_policy_eq Let_def res_simps safety_fingerprint_document_Inr)
qed

lemma policy_accepts_iff_witness:
  "\<exists>y. mk_safety_policy (demo_rules PhysicalContact) = Inr y"
proof -
  have "distinct (map sr_capability_id (demo_rules PhysicalContact))" by (simp add: demo_rules_def)
  then show ?thesis using policy_accepts_iff [OF demo_rules_ok(1) [of PhysicalContact]] by (simp add: demo_rules_def)
qed

text \<open>
  The order in which the capability rules are listed has no meaning: the policy and its
  fingerprint are the same.
\<close>

theorem policy_listing_irrelevant:
  assumes "mset rules = mset rules'"
  shows "mk_safety_policy rules = mk_safety_policy rules'"
  using assms by (rule mk_safety_policy_perm)

lemma policy_listing_irrelevant_witness:
  "mk_safety_policy [demo_rule, demo_rule\<lparr>sr_capability_id := ''c2''\<rparr>] =
   mk_safety_policy [demo_rule\<lparr>sr_capability_id := ''c2''\<rparr>, demo_rule]"
  by (rule policy_listing_irrelevant) simp

section \<open>Revalidation\<close>

text \<open>
  C15. A safety decision is current exactly when the proposal and the policy still have the
  fingerprints it records; a decision that is stale says which of the two changed, and asserting
  that it is current raises \<open>StaleSafetyDecisionError\<close>.
\<close>

theorem safety_revalidation_exact:
  assumes "sf_kind (sy_fingerprint (sk_policy k)) = SfPolicy" "snapshot_proposal False d = Inr p"
    and "text_ok (yd_decision_id z)" "sf_kind (yd_proposal_fingerprint z) = SfProposal"
    and "sf_kind (yd_policy_fingerprint z) = SfPolicy"
  shows "\<exists>r. safety_revalidate k z d = Inr r \<and>
    (ProposalChanged \<in> set (sv_reasons r) \<longleftrightarrow> yd_proposal_fingerprint z \<noteq> pp_fingerprint p) \<and>
    (PolicyChanged \<in> set (sv_reasons r) \<longleftrightarrow> yd_policy_fingerprint z \<noteq> sy_fingerprint (sk_policy k)) \<and>
    assert_current r =
      (if yd_proposal_fingerprint z = pp_fingerprint p \<and>
          yd_policy_fingerprint z = sy_fingerprint (sk_policy k)
       then Inr () else Inl stale_decision)"
proof -
  from safety_revalidate_eq [OF assms] obtain r where r: "safety_revalidate k z d = Inr r"
    "sv_status r = SafetyCurrent \<longleftrightarrow> yd_proposal_fingerprint z = pp_fingerprint p \<and>
       yd_policy_fingerprint z = sy_fingerprint (sk_policy k)"
    "ProposalChanged \<in> set (sv_reasons r) \<longleftrightarrow> yd_proposal_fingerprint z \<noteq> pp_fingerprint p"
    "PolicyChanged \<in> set (sv_reasons r) \<longleftrightarrow> yd_policy_fingerprint z \<noteq> sy_fingerprint (sk_policy k)"
    by blast
  then show ?thesis
    by (intro exI [of _ r])
      (cases "sv_status r"; auto simp: assert_current_def raise_if_def)
qed

lemma safety_decision_id_ok: "text_ok (''safety-decision-'' @ sha256_hex s)"
  by (rule digest_text_ok) (simp_all add: py_isspace_def code_point_def)

text \<open>A decision that has just been taken meets the conditions, and is current.\<close>

lemma fresh_safety_parts:
  assumes "policy_ok y" "evaluate_proposal \<lparr>sk_policy = y\<rparr> d = Inr z"
  shows "\<exists>p. snapshot_proposal False d = Inr p \<and> text_ok (yd_decision_id z) \<and>
    yd_proposal_fingerprint z = pp_fingerprint p \<and> yd_policy_fingerprint z = sy_fingerprint y \<and>
    sf_kind (pp_fingerprint p) = SfProposal \<and> sf_kind (sy_fingerprint y) = SfPolicy"
proof -
  from assms obtain p where p: "snapshot_proposal True d = Inr p" "z = proposal_decision y p"
    by (auto simp: evaluate_proposal_Inr)
  have "yd_decision_id z = ''safety-decision-'' @ sha256_hex (canon (proposal_decision_document y p))"
    by (simp add: p(2) proposal_decision_def Let_def)
  with safety_decision_id_ok have "text_ok (yd_decision_id z)" by metis
  with p assms(1) snapshot_proposal_lax [OF p(1)] snapshot_proposal_parts(12) [OF p(1)] show ?thesis
    by (auto simp: proposal_decision_def Let_def policy_ok_def)
qed

lemma safety_revalidation_exact_witness:
  "\<exists>z d r. safety_revalidate \<lparr>sk_policy = demo_policy InformationalReadOnly\<rparr> z d = Inr r \<and>
     assert_current r = Inr ()"
proof -
  obtain d where ev: "evaluate demo_service (Inr demo_snapshot) demo_request = Inr d"
    using demo_evaluate by blast
  obtain z where z: "evaluate_proposal \<lparr>sk_policy = demo_policy InformationalReadOnly\<rparr> d = Inr z"
    using demo_evaluation [OF ev] by blast
  obtain p where p: "snapshot_proposal False d = Inr p" "text_ok (yd_decision_id z)"
    "yd_proposal_fingerprint z = pp_fingerprint p"
    "yd_policy_fingerprint z = sy_fingerprint (demo_policy InformationalReadOnly)"
    "sf_kind (pp_fingerprint p) = SfProposal"
    "sf_kind (sy_fingerprint (demo_policy InformationalReadOnly)) = SfPolicy"
    using fresh_safety_parts [OF demo_policy_ok z] by blast
  from safety_revalidation_exact [of "\<lparr>sk_policy = demo_policy InformationalReadOnly\<rparr>" d p z] p
  show ?thesis by auto
qed

text \<open>
  A safety decision that has just been taken is current under the same policy and proposal, also
  when the proposal is then read without its integrity check.
\<close>

theorem fresh_safety_decision_current:
  assumes "policy_ok y" "evaluate_proposal \<lparr>sk_policy = y\<rparr> d = Inr z"
  shows "\<exists>r. safety_revalidate \<lparr>sk_policy = y\<rparr> z d = Inr r \<and> sv_status r = SafetyCurrent \<and>
    assert_current r = Inr ()"
proof -
  obtain p where p: "snapshot_proposal False d = Inr p" "text_ok (yd_decision_id z)"
    "yd_proposal_fingerprint z = pp_fingerprint p" "yd_policy_fingerprint z = sy_fingerprint y"
    "sf_kind (pp_fingerprint p) = SfProposal" "sf_kind (sy_fingerprint y) = SfPolicy"
    using fresh_safety_parts [OF assms] by blast
  from safety_revalidate_eq [of "\<lparr>sk_policy = y\<rparr>" d p z] p
  obtain r where "safety_revalidate \<lparr>sk_policy = y\<rparr> z d = Inr r" "sv_status r = SafetyCurrent"
    by auto
  then show ?thesis by (simp add: assert_current_def)
qed

lemma fresh_safety_decision_current_witness:
  "\<exists>d z r. evaluate_proposal \<lparr>sk_policy = demo_policy PhysicalContact\<rparr> d = Inr z \<and>
     safety_revalidate \<lparr>sk_policy = demo_policy PhysicalContact\<rparr> z d = Inr r \<and>
     sv_status r = SafetyCurrent"
  using demo_evaluate demo_evaluation [where h = PhysicalContact]
    fresh_safety_decision_current [OF demo_policy_ok] by meson

section \<open>Errors\<close>

text \<open>
  C19. An evaluation that returns no decision has raised an error of the Safety Kernel or the
  \<open>AssertionError\<close> of a parameter property: when the proposal itself is accepted, the only cause
  left is a decision document over the fingerprint limits.
\<close>

theorem safety_evaluation_fails_closed:
  assumes "policy_ok y" "evaluate_proposal \<lparr>sk_policy = y\<rparr> d = Inl e"
  shows "e \<in> {invalid_proposal, safety_plan_invariant, safety_decision_invariant, assertion_error} \<and>
    (\<forall>p. snapshot_proposal True d = Inr p \<longrightarrow> e = safety_decision_invariant \<and>
       validate_value safety_fingerprint_limits e (proposal_decision_document y p) = Inl e)"
proof (cases "snapshot_proposal True d")
  case (Inl x)
  then show ?thesis
    using assms raises_onlyD [OF snapshot_proposal_raises Inl]
    by (auto simp: evaluate_proposal_eq)
next
  case (Inr p)
  then have "validate_value safety_fingerprint_limits safety_decision_invariant
      (proposal_decision_document y p) = Inl e"
    using assms by (auto simp: evaluate_proposal_eq res_simps)
  moreover from this have "e = safety_decision_invariant" by (rule validate_value_error)
  ultimately show ?thesis using Inr by simp
qed

lemma safety_evaluation_fails_closed_witness:
  "\<exists>d e. evaluate_proposal \<lparr>sk_policy = demo_policy Unclassified\<rparr> d = Inl e \<and>
     e \<in> {invalid_proposal, safety_plan_invariant, safety_decision_invariant, assertion_error}"
proof -
  obtain d :: executive_decision where "ed_decision_type d = Defer"
    by (meson executive_decision.select_convs(4))
  then have "evaluate_proposal \<lparr>sk_policy = demo_policy Unclassified\<rparr> d = Inl invalid_proposal"
    by (simp add: evaluate_proposal_def snapshot_proposal_def snapshot_contents_def snapshot_plan_def
        inspected_def)
  with safety_evaluation_fails_closed [OF demo_policy_ok] show ?thesis by blast
qed

end
