(* ===== verification/Json_Loads.thy ===== *)
theory Json_Loads
  imports Json_Canonical
begin

text \<open>
  \<open>json.loads\<close> on the texts that \<open>json.dumps\<close> writes with sorted keys and without spaces, and its
  round trip: what is read back from the canonical text of a value is the value with the members of
  its dicts in the order of their keys.
\<close>

section \<open>The reader\<close>

text \<open>The rest of a string literal, after its opening quote; one unit of fuel per character.\<close>

fun read_chars :: "nat \<Rightarrow> string \<Rightarrow> (string \<times> string) option" where
  "read_chars 0 s = None"
| "read_chars (Suc n) [] = None"
| "read_chars (Suc n) (c # r) =
     (if c = CHR 0x22 then Some ([], r)
      else case unescape (c # r) of (d, u) \<Rightarrow>
        (case read_chars n u of None \<Rightarrow> None | Some (t, w) \<Rightarrow> Some (d # t, w)))"

definition read_number :: "string \<Rightarrow> pyval" where
  "read_number t =
     (if CHR ''.'' \<in> set t \<or> CHR ''e'' \<in> set t then PFloat (Finite t)
      else if take 1 t = ''-'' then PInt (- int (foldl (\<lambda>a c. 10 * a + digit_value c) 0 (tl t)))
      else PInt (int (foldl (\<lambda>a c. 10 * a + digit_value c) 0 t)))"

text \<open>Items separated by commas up to a closing bracket; one unit of fuel per item.\<close>

fun read_seq ::
  "(string \<Rightarrow> ('a \<times> string) option) \<Rightarrow> char \<Rightarrow> nat \<Rightarrow> string \<Rightarrow> ('a list \<times> string) option" where
  "read_seq rd cl 0 s = None"
| "read_seq rd cl (Suc n) s =
     (case rd s of
        Some (x, c # r) \<Rightarrow>
          if c = cl then Some ([x], r)
          else if c = CHR '','' then
            (case read_seq rd cl n r of None \<Rightarrow> None | Some (xs, u) \<Rightarrow> Some (x # xs, u))
          else None
      | _ \<Rightarrow> None)"

definition read_member ::
  "(string \<Rightarrow> (pyval \<times> string) option) \<Rightarrow> string \<Rightarrow> ((pykey \<times> pyval) \<times> string) option" where
  "read_member rd s =
     (case read_chars (length s) (tl s) of
        Some (k, c # u) \<Rightarrow> map_option (\<lambda>(v, w). ((KStr k, v), w)) (rd u)
      | _ \<Rightarrow> None)"

text \<open>A value; one unit of fuel per level of nesting.\<close>

primrec read_value :: "nat \<Rightarrow> string \<Rightarrow> (pyval \<times> string) option" where
  "read_value 0 = (\<lambda>s. None)"
| "read_value (Suc n) = (\<lambda>s.
     if take 1 s = ''\"'' then map_option (\<lambda>(t, u). (PStr t, u)) (read_chars (length s) (tl s))
     else if take 2 s = ''[]'' then Some (PList [], drop 2 s)
     else if take 2 s = ''{}'' then Some (PDict [], drop 2 s)
     else if take 1 s = ''['' then
       map_option (\<lambda>(vs, u). (PList vs, u)) (read_seq (read_value n) (CHR '']'') (length s) (tl s))
     else if take 1 s = ''{'' then
       map_option (\<lambda>(kvs, u). (PDict kvs, u))
         (read_seq (read_member (read_value n)) (CHR ''}'') (length s) (tl s))
     else if take 4 s = ''null'' then Some (PNone, drop 4 s)
     else if take 4 s = ''true'' then Some (PBool True, drop 4 s)
     else if take 5 s = ''false'' then Some (PBool False, drop 5 s)
     else let t = takeWhile is_num_char s in
       if t = [] then None else Some (read_number t, dropWhile is_num_char s))"

definition json_loads :: "string \<Rightarrow> pyval option" where
  "json_loads s = (case read_value (length s) s of Some (v, []) \<Rightarrow> Some v | _ \<Rightarrow> None)"

section \<open>Reading back\<close>

lemma read_chars_escape:
  "length s < n \<Longrightarrow> read_chars n (concat (map json_escape s) @ CHR 0x22 # r) = Some (s, r)"
proof (induction s arbitrary: n)
  case Nil
  then show ?case by (cases n) auto
next
  case (Cons c s)
  then obtain m where n: "n = Suc m" "length s < m" by (cases n) auto
  let ?rest = "concat (map json_escape s) @ CHR 0x22 # r"
  obtain d ds where e: "json_escape c = d # ds" "d \<noteq> CHR 0x22"
    using escape_head [of c] by (cases "json_escape c") auto
  have "unescape (d # ds @ ?rest) = (c, ?rest)"
    using unescape_escape [of c ?rest] e by simp
  with e n Cons.IH show ?case by simp
qed

lemma length_escape: "length s \<le> length (concat (map json_escape s))"
proof (induction s)
  case (Cons c s)
  then show ?case using escape_head(2) [of c] by (cases "json_escape c") auto
qed simp

lemma read_chars_quote:
  "read_chars (Suc (length (concat (map json_escape s) @ CHR 0x22 # r)))
     (concat (map json_escape s) @ CHR 0x22 # r) = Some (s, r)"
  using length_escape [of s] by (intro read_chars_escape) simp

lemma read_seq_join:
  assumes "cl = CHR '']'' \<or> cl = CHR ''}''"
  shows "xs \<noteq> [] \<Longrightarrow> \<forall>x \<in> set xs. \<forall>r. delimited r \<longrightarrow> rd (p x @ r) = Some (g x, r) \<Longrightarrow>
    length xs \<le> n \<Longrightarrow> read_seq rd cl n (join_comma (map p xs) @ cl # r) = Some (map g xs, r)"
proof (induction xs arbitrary: n)
  case (Cons x xs)
  then obtain m where n: "n = Suc m" "length xs \<le> m" by (cases n) auto
  have d: "delimited (cl # u)" for u using assms by (auto simp: delimited_def)
  show ?case
  proof (cases "xs = []")
    case True
    with Cons.prems n d show ?thesis by (simp add: join_comma_Cons)
  next
    case False
    let ?rest = "join_comma (map p xs) @ cl # r"
    have "rd (p x @ CHR '','' # ?rest) = Some (g x, CHR '','' # ?rest)"
      using Cons.prems(2) by simp
    moreover have "read_seq rd cl m ?rest = Some (map g xs, r)"
      using Cons.IH [of m] Cons.prems n False by simp
    moreover have "cl \<noteq> CHR '',''" using assms by auto
    ultimately show ?thesis using n False by (simp add: join_comma_Cons)
  qed
qed simp

lemma read_member_quote:
  assumes "rd (t @ r) = Some (v, r)"
  shows "read_member rd (json_quote k @ '':'' @ t @ r) = Some ((KStr k, v), r)"
  using assms read_chars_quote [of k "'':'' @ t @ r"] by (simp add: read_member_def json_quote_def)

lemma delimited_number:
  assumes "list_all is_num_char t" "delimited r"
  shows "takeWhile is_num_char (t @ r) = t" "dropWhile is_num_char (t @ r) = r"
proof -
  have "takeWhile is_num_char r = []" "dropWhile is_num_char r = r"
    using assms(2) by (cases r; auto dest: delimited_not_num)+
  with assms(1) show "takeWhile is_num_char (t @ r) = t" "dropWhile is_num_char (t @ r) = r"
    by (simp_all add: list_all_iff)
qed

lemma read_number_canon: "is_number v \<Longrightarrow> printable v \<Longrightarrow> read_number (canon v) = v"
proof (cases v)
  case (PInt i)
  have digits: "foldl (\<lambda>a c. 10 * a + digit_value c) 0 (nat_digits n) = n" "nat_digits n \<noteq> []" for n
    using nat_digits_props by auto
  have "nat_digits n \<noteq> CHR ''-'' # ds" for n ds
    using nat_digits_chars [of "CHR ''-''" n] by auto
  then have "take 1 (nat_digits n) \<noteq> ''-''" for n
    by (cases "nat_digits n") auto
  with int_repr_chars [of i] digits show ?thesis
    using PInt by (auto simp: read_number_def int_repr_def)
next
  case (PFloat x)
  moreover assume "printable v"
  ultimately show ?thesis by (cases x) (auto simp: read_number_def float_text_def)
qed simp_all

lemma member_length: "t \<in> set ts \<Longrightarrow> length t \<le> length (join_comma ts)"
  by (induction ts rule: join_comma.induct) auto

lemma length_join: "\<forall>t \<in> set ts. t \<noteq> [] \<Longrightarrow> length ts \<le> length (join_comma ts)"
proof (induction ts rule: join_comma.induct)
  case (3 s t ts)
  then have "length (t # ts) \<le> length (join_comma (t # ts))" by simp
  with 3(2) show ?case by (cases s) auto
qed (auto simp: Suc_le_eq)

text \<open>The branches of the reader on the texts of the different kinds of values.\<close>

lemma read_value_kinds:
  "read_value (Suc n) (json_quote t @ r) = Some (PStr t, r)"
  "read_value (Suc n) (''null'' @ r) = Some (PNone, r)"
  "read_value (Suc n) (''true'' @ r) = Some (PBool True, r)"
  "read_value (Suc n) (''false'' @ r) = Some (PBool False, r)"
  "read_value (Suc n) (''[]'' @ r) = Some (PList [], r)"
  "read_value (Suc n) (''{}'' @ r) = Some (PDict [], r)"
  "s \<noteq> [] \<Longrightarrow> hd s \<noteq> CHR '']'' \<Longrightarrow> read_value (Suc n) (CHR ''['' # s) =
     map_option (\<lambda>(vs, u). (PList vs, u)) (read_seq (read_value n) (CHR '']'') (Suc (length s)) s)"
  "s \<noteq> [] \<Longrightarrow> hd s \<noteq> CHR ''}'' \<Longrightarrow> read_value (Suc n) (CHR ''{'' # s) =
     map_option (\<lambda>(kvs, u). (PDict kvs, u))
       (read_seq (read_member (read_value n)) (CHR ''}'') (Suc (length s)) s)"
  using read_chars_quote [of t r]
  by (simp_all add: json_quote_def neq_Nil_conv) (auto simp: neq_Nil_conv)

lemma read_value_number:
  assumes "is_number v" "printable v" "delimited r"
  shows "read_value (Suc n) (canon v @ r) = Some (v, r)"
proof -
  obtain c t where c: "canon v = c # t" "is_num_char c"
    using number_text [OF assms(1,2)] by (cases "canon v") auto
  have "c \<notin> set ''\"[{ntf''" using c(2) by (auto simp: is_num_char_def)
  with c number_text [OF assms(1,2)] delimited_number [of "canon v" r] assms(3)
    read_number_canon [OF assms(1,2)]
  show ?thesis by simp
qed

lemma read_value_canon:
  "printable v \<Longrightarrow> length (canon v) \<le> n \<Longrightarrow> delimited r \<Longrightarrow>
     read_value n (canon v @ r) = Some (normal v, r)"
proof (induction v arbitrary: n r rule: canon.induct [case_names 1 2 none bool int float str other])
  case (1 vs)
  then obtain m where n: "n = Suc m" "length (join_comma (map canon vs)) \<le> m" by (cases n) auto
  let ?s = "join_comma (map canon vs) @ CHR '']'' # r"
  show ?case
  proof (cases "vs = []")
    case False
    have ne: "\<forall>v \<in> set vs. canon v \<noteq> [] \<and> hd (canon v) \<noteq> CHR '']''"
      using "1.prems"(1) canon_nonempty canon_head_not_closing by (auto simp: list_all_iff)
    have "\<forall>v \<in> set vs. \<forall>r. delimited r \<longrightarrow> read_value m (canon v @ r) = Some (normal v, r)"
      using 1 n member_length [of _ "map canon vs"] by (fastforce simp: list_all_iff)
    moreover have "length vs \<le> Suc (length ?s)"
      using length_join [of "map canon vs"] ne by simp
    ultimately have "read_seq (read_value m) (CHR '']'') (Suc (length ?s)) ?s = Some (map normal vs, r)"
      using False by (intro read_seq_join) auto
    moreover obtain v us where "vs = v # us" using False by (cases vs) auto
    then have "?s \<noteq> []" "hd ?s \<noteq> CHR '']''" using ne by (auto simp: join_comma_Cons)
    ultimately show ?thesis
      using read_value_kinds(7) [of ?s m] n by simp
  qed (use n read_value_kinds(5) in simp)
next
  case (2 kvs)
  let ?p = "\<lambda>kv. json_quote (key_str (fst kv)) @ '':'' @ canon (snd kv)"
  let ?g = "\<lambda>kv. (fst kv, normal (snd kv))"
  let ?us = "sorted_items kvs"
  have shape: "canon (PDict kvs) = ''{'' @ join_comma (map ?p ?us) @ ''}''"
    by (simp add: sorted_items_map [of canon] o_def)
  with "2.prems" obtain m where n: "n = Suc m" "length (join_comma (map ?p ?us)) \<le> m"
    by (cases n) auto
  let ?s = "join_comma (map ?p ?us) @ CHR ''}'' # r"
  show ?case
  proof (cases "kvs = []")
    case False
    then have us: "?us \<noteq> []" by (simp add: sorted_items_def)
    have "read_member (read_value m) (?p kv @ r) = Some (?g kv, r)"
      if kv: "kv \<in> set ?us" and r: "delimited r" for kv r
    proof -
      have "length (?p kv) \<le> m" using member_length [of "?p kv" "map ?p ?us"] kv n by simp
      then have "read_value m (canon (snd kv) @ r) = Some (normal (snd kv), r)"
        using 2 kv r by (auto simp: list_all_iff)
      moreover have "KStr (key_str (fst kv)) = fst kv"
        using "2.prems"(1) kv by (cases "fst kv") force+
      ultimately show ?thesis
        using read_member_quote [of "read_value m" "canon (snd kv)" r] by simp
    qed
    moreover have "length ?us \<le> Suc (length ?s)"
      using length_join [of "map ?p ?us"] by (simp add: json_quote_def)
    ultimately have "read_seq (read_member (read_value m)) (CHR ''}'') (Suc (length ?s)) ?s =
        Some (map ?g ?us, r)"
      using us by (intro read_seq_join) auto
    moreover obtain v ws where "?us = v # ws" using us by (cases ?us) auto
    then have "?s \<noteq> []" "hd ?s \<noteq> CHR ''}''" by (auto simp: join_comma_Cons json_quote_def)
    moreover have "canon (PDict kvs) @ r = CHR ''{'' # ?s" by (simp only: shape) simp
    moreover have "normal (PDict kvs) = PDict (map ?g ?us)"
      by (simp add: sorted_items_map [of normal])
    ultimately show ?thesis
      using read_value_kinds(8) [of ?s m] n(1) by (simp del: canon.simps normal.simps)
  qed (use n read_value_kinds(6) in \<open>simp add: sorted_items_def\<close>)
next
  case (int i)
  then obtain m where "n = Suc m" using canon_nonempty [of "PInt i"] by (cases n) auto
  then show ?case using read_value_number [of "PInt i" r m] int by simp
next
  case (float x)
  then obtain m where "n = Suc m" using canon_nonempty [of "PFloat x"] by (cases n) auto
  then show ?case using read_value_number [of "PFloat x" r m] float by simp
qed (use read_value_kinds in \<open>auto simp: Suc_le_eq neq_Nil_conv json_quote_def dest!: less_imp_Suc_add\<close>)

lemma json_loads_canon: "printable v \<Longrightarrow> json_loads (canon v) = Some (normal v)"
  using read_value_canon [of v "length (canon v)" "[]"] by (simp add: json_loads_def)

end
