(* ===== verification/Memory_Rows.thy ===== *)
theory Memory_Rows
  imports Json_Loads Memory_Models
begin

text \<open>
  The rows of the table \<open>memories\<close> (\<open>memory/sqlite_schema.py\<close>, \<open>memory/sqlite_store.py\<close>): how a record
  is written as text columns and read back.
\<close>

section \<open>Texts of UUIDs, instants and enumerations\<close>

definition uuid_from_text :: "string \<Rightarrow> uuid" where
  "uuid_from_text s =
     of_nat (foldl (\<lambda>a c. 16 * a + hex_value c) 0 (filter (\<lambda>c. c \<noteq> CHR ''-'') s))"

definition dec_value :: "string \<Rightarrow> nat" where
  "dec_value s = foldl (\<lambda>a c. 10 * a + digit_value c) 0 s"

text \<open>\<open>datetime.fromisoformat\<close> of a text with microseconds, \<open>Z\<close> read as \<open>+00:00\<close>.\<close>

definition datetime_from_text :: "string \<Rightarrow> py_datetime" where
  "datetime_from_text s =
     \<lparr>dt_year = dec_value (take 4 s), dt_month = dec_value (take 2 (drop 5 s)),
      dt_day = dec_value (take 2 (drop 8 s)), dt_hour = dec_value (take 2 (drop 11 s)),
      dt_minute = dec_value (take 2 (drop 14 s)), dt_second = dec_value (take 2 (drop 17 s)),
      dt_microsecond = dec_value (take 6 (drop 20 s)), dt_utcoffset = Some 0\<rparr>"

text \<open>\<open>Enum(text)\<close>.\<close>

definition enum_member :: "('a \<Rightarrow> string) \<Rightarrow> 'a list \<Rightarrow> string \<Rightarrow> 'a res" where
  "enum_member value_of members s =
     (case find (\<lambda>m. value_of m = s) members of
        None \<Rightarrow> Inl (BuiltinExn ValueError) | Some m \<Rightarrow> Inr m)"

definition memory_types :: "memory_type list" where
  "memory_types = [Episodic, Semantic, Preference, Social, Spatial, Procedural, Failure]"

definition provenance_types :: "provenance_type list" where
  "provenance_types =
     [ExplicitOwnerStatement, DirectObservation, DerivedInference, SystemEvent, TrustedManualImport]"

definition memory_statuses :: "memory_status list" where
  "memory_statuses = [Active, Superseded, Retracted]"

text \<open>The fields of an instant, as \<open>datetime\<close> bounds them.\<close>

definition instant_ok :: "py_datetime \<Rightarrow> bool" where
  "instant_ok t \<longleftrightarrow>
     dt_year t < 10000 \<and> dt_month t < 13 \<and> dt_day t < 32 \<and> dt_hour t < 24 \<and> dt_minute t < 60 \<and>
     dt_second t < 60 \<and> dt_microsecond t < 1000000"

lemma hex_value_char: "hex_value (hex_char n) = n mod 16"
  by (simp add: hex_char_def hex_char_value)

lemma hex_digits_value:
  "foldl (\<lambda>a c. 16 * a + hex_value c) 0 (hex_digits k n) = n mod 16 ^ k"
proof (induction k arbitrary: n)
  case (Suc k)
  have "n mod 16 ^ Suc k = 16 * (n div 16 mod 16 ^ k) + n mod 16"
    by (simp only: power_Suc mod_mult2_eq)
  with Suc.IH [of "n div 16"] show ?case by (simp add: hex_value_char)
qed simp

lemma hex_char_not_dash: "hex_char n \<noteq> CHR ''-''"
proof -
  have "\<forall>i < 16. ''0123456789abcdef'' ! i \<noteq> CHR ''-''"
    by (simp add: All_less_Suc numeral_eq_Suc)
  then show ?thesis by (simp add: hex_char_def)
qed

lemma hex_digits_not_dash: "filter (\<lambda>c. c \<noteq> CHR ''-'') (hex_digits k n) = hex_digits k n"
  by (induction k arbitrary: n) (simp_all add: hex_char_not_dash)

lemma uuid_from_text_str [simp]: "uuid_from_text (uuid_str u) = u"
proof -
  let ?h = "hex_digits 32 (unat u)" and ?f = "filter (\<lambda>c. c \<noteq> CHR ''-'')"
  have ne: "?f (take i (drop j ?h)) = take i (drop j ?h)" "?f (take i ?h) = take i ?h"
    "?f (drop j ?h) = drop j ?h" for i j
  proof -
    have "\<forall>c \<in> set ?h. c \<noteq> CHR ''-''"
      using hex_digits_not_dash [of 32 "unat u"] by (simp add: filter_id_conv)
    then have "set xs \<subseteq> set ?h \<Longrightarrow> ?f xs = xs" for xs
      by (auto simp: filter_id_conv)
    then show "?f (take i (drop j ?h)) = take i (drop j ?h)" "?f (take i ?h) = take i ?h"
      "?f (drop j ?h) = drop j ?h"
      by (blast dest: in_set_takeD in_set_dropD)+
  qed
  have "?f (uuid_str u) =
    take 8 ?h @ take 4 (drop 8 ?h) @ take 4 (drop 12 ?h) @ take 4 (drop 16 ?h) @ drop 20 ?h"
    by (simp add: uuid_str_def Let_def ne del: hex_digits.simps)
  also have "\<dots> = ?h"
  proof -
    have join: "take 4 (drop i ?h) @ drop (i + 4) ?h = drop i ?h" for i
      using append_take_drop_id [of 4 "drop i ?h"] by (simp add: add.commute)
    show ?thesis
      using join [of 8] join [of 12] join [of 16] append_take_drop_id [of 8 ?h]
      by simp
  qed
  finally have "uuid_from_text (uuid_str u) = of_nat (unat u mod 16 ^ 32)"
    by (simp only: uuid_from_text_def hex_digits_value)
  moreover have "unat u < 16 ^ 32"
    using unsigned_less [of u, where ?'a = nat] by simp
  ultimately show ?thesis by simp
qed

lemma dec_value_digits: "n < 10 ^ k \<Longrightarrow> dec_value (dec_digits k n) = n"
proof (induction k arbitrary: n)
  case (Suc k)
  then have "n div 10 < 10 ^ k" by (simp add: div_less_iff_less_mult)
  with Suc.IH [of "n div 10"] digit_char [of "n mod 10"] show ?case
    by (simp add: dec_value_def)
qed (simp add: dec_value_def)

lemma length_dec_digits [simp]: "length (dec_digits k n) = k"
  by (induction k arbitrary: n) simp_all

lemma datetime_from_text_utc [simp]:
  assumes "instant_ok t" "utc_ok t"
  shows "datetime_from_text (utc_text t) = t"
  using assms by (cases t)
    (simp add: instant_ok_def utc_ok_def datetime_from_text_def utc_text_def dec_value_digits
      del: dec_digits.simps)

lemma enum_member_value:
  assumes "m \<in> set ms" "\<And>x y. f x = f y \<longleftrightarrow> x = y"
  shows "enum_member f ms (f m) = Inr m"
proof -
  have "find (\<lambda>x. x = m) ms = Some m" using assms(1) by (induction ms) auto
  then show ?thesis by (simp add: enum_member_def assms(2))
qed

lemma enum_members [simp]:
  "enum_member memory_type_value memory_types (memory_type_value t) = Inr t"
  "enum_member provenance_type_value provenance_types (provenance_type_value p) = Inr p"
  "enum_member memory_status_value memory_statuses (memory_status_value s) = Inr s"
  by (rule enum_member_value;
      (cases t; simp add: memory_types_def | cases p; simp add: provenance_types_def
       | cases s; simp add: memory_statuses_def | simp))+

section \<open>Rows\<close>

record memory_columns =
  mw_memory_id :: string
  mw_memory_type :: string
  mw_subject :: string
  mw_predicate :: string
  mw_value_json :: string
  mw_provenance_type :: string
  mw_provenance_source_id :: string
  mw_provenance_details_json :: string
  mw_confidence :: pyfloat
  mw_observed_at :: string
  mw_created_at :: string
  mw_status :: string
  mw_status_changed_at :: string
  mw_supersedes_id :: "string option"
  mw_revision_reason :: "string option"
  mw_status_reason :: "string option"
  mw_metadata_json :: string

text \<open>\<open>json.dumps\<close> with sorted keys and without spaces, of validated JSON data.\<close>

definition canonical_json :: "pyval \<Rightarrow> string res" where
  "canonical_json v = raise_if (\<not> ints_printable v) (BuiltinExn ValueError) (Inr (canon v))"

text \<open>
  The \<open>REAL\<close> column with its check: a number outside of the unit interval violates the constraint,
  an integer is converted, and a negative zero is stored as zero.
\<close>

definition real_column :: "pyval \<Rightarrow> pyfloat res" where
  "real_column c =
     (case confidence_value c of
        None \<Rightarrow> Inl (BuiltinExn IntegrityError)
      | Some x \<Rightarrow> Inr (if x = Finite ''-0.0'' then Finite ''0.0'' else x))"

text \<open>The parameters of the \<open>INSERT\<close>.\<close>

definition memory_row :: "memory_record \<Rightarrow> memory_columns res" where
  "memory_row r =
     tryE (canonical_json (mr_value r)) (\<lambda>value_json.
     tryE (canonical_json (PDict (pv_details (mr_provenance r)))) (\<lambda>details_json.
     tryE (canonical_json (PDict (mr_metadata r))) (\<lambda>metadata_json.
     tryE (real_column (mr_confidence r)) (\<lambda>confidence.
     Inr \<lparr>mw_memory_id = uuid_str (mr_memory_id r),
          mw_memory_type = memory_type_value (mr_memory_type r),
          mw_subject = mr_subject r, mw_predicate = mr_predicate r,
          mw_value_json = value_json,
          mw_provenance_type = provenance_type_value (pv_type (mr_provenance r)),
          mw_provenance_source_id = pv_source_id (mr_provenance r),
          mw_provenance_details_json = details_json,
          mw_confidence = confidence,
          mw_observed_at = utc_text (mr_observed_at r),
          mw_created_at = utc_text (mr_created_at r),
          mw_status = memory_status_value (mr_status r),
          mw_status_changed_at = utc_text (mr_status_changed_at r),
          mw_supersedes_id = map_option uuid_str (mr_supersedes r),
          mw_revision_reason = mr_revision_reason r,
          mw_status_reason = mr_status_reason r,
          mw_metadata_json = metadata_json\<rparr>))))"

definition loaded :: "string \<Rightarrow> pyval res" where
  "loaded s = (case json_loads s of None \<Rightarrow> Inl (BuiltinExn ValueError) | Some v \<Rightarrow> Inr v)"

text \<open>A loaded value where a mapping is expected.\<close>

definition loaded_mapping :: "exn \<Rightarrow> pyval \<Rightarrow> (pykey \<times> pyval) list res" where
  "loaded_mapping e v = raise_if (\<not> is_dict v) e (Inr (dict_items v))"

definition memory_from_row :: "memory_columns \<Rightarrow> memory_record res" where
  "memory_from_row w =
     tryE (enum_member memory_type_value memory_types (mw_memory_type w)) (\<lambda>mtype.
     tryE (loaded (mw_value_json w)) (\<lambda>val.
     tryE (enum_member provenance_type_value provenance_types (mw_provenance_type w)) (\<lambda>ptype.
     tryE (loaded (mw_provenance_details_json w)) (\<lambda>details.
     tryE (loaded_mapping invalid_provenance details) (\<lambda>details.
     tryE (mk_provenance ptype (mw_provenance_source_id w) details) (\<lambda>prov.
     tryE (enum_member memory_status_value memory_statuses (mw_status w)) (\<lambda>status.
     tryE (loaded (mw_metadata_json w)) (\<lambda>metadata.
     tryE (loaded_mapping invalid_memory_data metadata) (\<lambda>metadata.
     check_memory_record
       \<lparr>mr_memory_id = uuid_from_text (mw_memory_id w), mr_memory_type = mtype,
        mr_subject = mw_subject w, mr_predicate = mw_predicate w, mr_value = val,
        mr_provenance = prov, mr_confidence = PFloat (mw_confidence w),
        mr_observed_at = datetime_from_text (mw_observed_at w),
        mr_created_at = datetime_from_text (mw_created_at w), mr_status = status,
        mr_status_changed_at = datetime_from_text (mw_status_changed_at w),
        mr_supersedes = map_option uuid_from_text (mw_supersedes_id w),
        mr_revision_reason = mw_revision_reason w, mr_status_reason = mw_status_reason w,
        mr_metadata = metadata\<rparr>)))))))))"

section \<open>Round trip\<close>

text \<open>What is read back: the data with sorted members, and the confidence as a float.\<close>

definition stored_record :: "memory_record \<Rightarrow> memory_record" where
  "stored_record r =
     \<lparr>mr_memory_id = mr_memory_id r, mr_memory_type = mr_memory_type r,
      mr_subject = mr_subject r, mr_predicate = mr_predicate r, mr_value = normal (mr_value r),
      mr_provenance =
        \<lparr>pv_type = pv_type (mr_provenance r), pv_source_id = pv_source_id (mr_provenance r),
         pv_details = dict_items (normal (PDict (pv_details (mr_provenance r))))\<rparr>,
      mr_confidence = PFloat (case real_column (mr_confidence r) of Inr x \<Rightarrow> x | Inl _ \<Rightarrow> NonFinite),
      mr_observed_at = mr_observed_at r, mr_created_at = mr_created_at r, mr_status = mr_status r,
      mr_status_changed_at = mr_status_changed_at r, mr_supersedes = mr_supersedes r,
      mr_revision_reason = mr_revision_reason r, mr_status_reason = mr_status_reason r,
      mr_metadata = dict_items (normal (PDict (mr_metadata r)))\<rparr>"

text \<open>
  The records whose JSON data exists in Python (the keys of a dict are distinct, the text of a float
  is its \<open>repr\<close>) and can be printed, with the fields of the instants in range.
\<close>

definition printable_record :: "memory_record \<Rightarrow> bool" where
  "printable_record r \<longleftrightarrow>
     (\<forall>v \<in> {mr_value r, PDict (pv_details (mr_provenance r)), PDict (mr_metadata r)}.
        printable v \<and> ints_printable v) \<and>
     instant_ok (mr_observed_at r) \<and> instant_ok (mr_created_at r) \<and>
     instant_ok (mr_status_changed_at r)"

lemma normal_json [simp]:
  "memory_json_ok (normal v) = memory_json_ok v" "ints_printable (normal v) = ints_printable v"
  by (induction v rule: normal.induct) (auto simp: list_all_iff)

lemma normal_printable: "printable v \<Longrightarrow> printable (normal v)"
proof (induction v rule: normal.induct)
  case (2 kvs)
  have "map fst (sorted_items (map (\<lambda>kv. (fst kv, normal (snd kv))) kvs)) = map fst (sorted_items kvs)"
    by (simp add: sorted_items_map [of normal] o_def)
  moreover have "distinct (map fst (sorted_items kvs))"
    using 2(2) by (simp add: sorted_items_def)
  ultimately show ?case using 2 by (fastforce simp: list_all_iff image_iff)
qed (auto simp: list_all_iff)

lemma normal_normal [simp]: "normal (normal v) = normal v"
proof (induction v rule: normal.induct)
  case (2 kvs)
  let ?n = "map (\<lambda>kv. (fst kv, normal (snd kv)))"
  have "?n (?n kvs) = ?n kvs" using 2 by simp
  moreover have "?n (sorted_items (?n kvs)) = sorted_items (?n (?n kvs))"
    by (simp only: sorted_items_map [of normal])
  ultimately show ?case by (simp del: map_map)
qed auto

lemma normal_dict [simp]: "PDict (dict_items (normal (PDict kvs))) = normal (PDict kvs)"
  by simp

lemma is_dict_normal [simp]: "is_dict (normal (PDict kvs))"
  by simp

lemma confidence_real:
  "confidence_value c = Some x \<Longrightarrow>
     real_column c = Inr (if x = Finite ''-0.0'' then Finite ''0.0'' else x) \<and>
     confidence_value (PFloat (if x = Finite ''-0.0'' then Finite ''0.0'' else x)) \<noteq> None"
  by (auto simp: real_column_def repr_in_unit_def split: if_splits elim!: confidence_value.elims)

lemma canonical_json_printable: "ints_printable v \<Longrightarrow> canonical_json v = Inr (canon v)"
  by (simp add: canonical_json_def)

lemma loaded_canon: "printable v \<Longrightarrow> loaded (canon v) = Inr (normal v)"
  by (simp add: loaded_def json_loads_canon)

lemma stored_record_sel [simp]:
  "mr_memory_id (stored_record r) = mr_memory_id r"
  "mr_memory_type (stored_record r) = mr_memory_type r"
  "mr_subject (stored_record r) = mr_subject r"
  "mr_predicate (stored_record r) = mr_predicate r"
  "mr_value (stored_record r) = normal (mr_value r)"
  "pv_type (mr_provenance (stored_record r)) = pv_type (mr_provenance r)"
  "pv_source_id (mr_provenance (stored_record r)) = pv_source_id (mr_provenance r)"
  "PDict (pv_details (mr_provenance (stored_record r))) = normal (PDict (pv_details (mr_provenance r)))"
  "mr_observed_at (stored_record r) = mr_observed_at r"
  "mr_created_at (stored_record r) = mr_created_at r"
  "mr_status (stored_record r) = mr_status r"
  "mr_status_changed_at (stored_record r) = mr_status_changed_at r"
  "mr_supersedes (stored_record r) = mr_supersedes r"
  "mr_revision_reason (stored_record r) = mr_revision_reason r"
  "mr_status_reason (stored_record r) = mr_status_reason r"
  "PDict (mr_metadata (stored_record r)) = normal (PDict (mr_metadata r))"
  by (simp_all add: stored_record_def)

lemma stored_confidence:
  "confidence_value (mr_confidence r) = Some x \<Longrightarrow>
     mr_confidence (stored_record r) = PFloat (if x = Finite ''-0.0'' then Finite ''0.0'' else x)"
  by (simp add: stored_record_def real_column_def)

lemma real_column_stored:
  assumes "confidence_value (mr_confidence r) = Some x"
  shows "real_column (mr_confidence (stored_record r)) = real_column (mr_confidence r)"
proof -
  let ?y = "if x = Finite ''-0.0'' then Finite ''0.0'' else x"
  have "confidence_value (PFloat ?y) \<noteq> None" using confidence_real [OF assms] by simp
  then have "confidence_value (PFloat ?y) = Some ?y"
    by (cases ?y) (auto split: if_splits)
  moreover have "?y \<noteq> Finite ''-0.0''" by simp
  ultimately have "real_column (PFloat ?y) = Inr ?y"
    unfolding real_column_def by (simp only: option.case if_False)
  then show ?thesis using confidence_real [OF assms] stored_confidence [OF assms] by simp
qed

lemma stored_record_ok:
  assumes "memory_record_ok r" "printable_record r"
  shows "memory_record_ok (stored_record r)" "printable_record (stored_record r)"
proof -
  obtain x where "confidence_value (mr_confidence r) = Some x"
    using assms(1) by (auto simp: memory_record_ok_def)
  from confidence_real [OF this] stored_confidence [OF this] assms
  show "memory_record_ok (stored_record r)"
    by (auto simp: memory_record_ok_def provenance_ok_def simp del: normal.simps memory_json_ok.simps
        split: option.splits)
  show "printable_record (stored_record r)"
    using assms(2) by (simp add: printable_record_def normal_printable
        del: normal.simps printable.simps ints_printable.simps)
qed

lemma memory_row_total:
  assumes "memory_record_ok r" "printable_record r"
  obtains w where "memory_row r = Inr w" "memory_from_row w = Inr (stored_record r)"
    "memory_row (stored_record r) = Inr w"
proof -
  obtain x where x: "confidence_value (mr_confidence r) = Some x"
    using assms(1) by (auto simp: memory_record_ok_def)
  obtain y where real: "real_column (mr_confidence r) = Inr y"
    using confidence_real [OF x] by blast
  let ?w = "\<lparr>mw_memory_id = uuid_str (mr_memory_id r),
    mw_memory_type = memory_type_value (mr_memory_type r),
    mw_subject = mr_subject r, mw_predicate = mr_predicate r, mw_value_json = canon (mr_value r),
    mw_provenance_type = provenance_type_value (pv_type (mr_provenance r)),
    mw_provenance_source_id = pv_source_id (mr_provenance r),
    mw_provenance_details_json = canon (PDict (pv_details (mr_provenance r))),
    mw_confidence = y,
    mw_observed_at = utc_text (mr_observed_at r), mw_created_at = utc_text (mr_created_at r),
    mw_status = memory_status_value (mr_status r),
    mw_status_changed_at = utc_text (mr_status_changed_at r),
    mw_supersedes_id = map_option uuid_str (mr_supersedes r),
    mw_revision_reason = mr_revision_reason r, mw_status_reason = mr_status_reason r,
    mw_metadata_json = canon (PDict (mr_metadata r))\<rparr>"
  have p: "printable (mr_value r)" "printable (PDict (pv_details (mr_provenance r)))"
    "printable (PDict (mr_metadata r))"
    and i: "ints_printable (mr_value r)" "ints_printable (PDict (pv_details (mr_provenance r)))"
    "ints_printable (PDict (mr_metadata r))"
    using assms(2) by (auto simp: printable_record_def)
  have row: "memory_row r = Inr ?w"
    by (simp only: memory_row_def canonical_json_printable [OF i(1)] canonical_json_printable [OF i(2)]
        canonical_json_printable [OF i(3)] real tryE_simps)
  have ids: "map_option uuid_from_text (map_option uuid_str u) = u" for u
    by (simp add: option.map_comp o_def option.map_ident)
  have prov: "provenance_ok \<lparr>pv_type = pv_type (mr_provenance r),
      pv_source_id = pv_source_id (mr_provenance r),
      pv_details = dict_items (normal (PDict (pv_details (mr_provenance r))))\<rparr>"
    using assms(1) by (simp add: memory_record_ok_def provenance_ok_def
        del: normal.simps memory_json_ok.simps)
  have instants: "instant_ok (mr_observed_at r)" "utc_ok (mr_observed_at r)"
    "instant_ok (mr_created_at r)" "utc_ok (mr_created_at r)"
    "instant_ok (mr_status_changed_at r)" "utc_ok (mr_status_changed_at r)"
    using assms by (simp_all add: memory_record_ok_def printable_record_def)
  have "memory_from_row ?w = check_memory_record (stored_record r)"
    by (simp add: memory_from_row_def loaded_canon p loaded_mapping_def ids prov instants
        stored_record_def real del: normal.simps printable.simps canon.simps)
  then have "memory_from_row ?w = Inr (stored_record r)"
    using stored_record_ok(1) [OF assms] by (simp only: check_memory_record_Inr)
  moreover have "real_column (mr_confidence (stored_record r)) = real_column (mr_confidence r)"
    using x by (rule real_column_stored)
  then have "memory_row (stored_record r) = memory_row r"
    by (simp add: memory_row_def canonical_json_def canon_normal
        del: normal.simps canon.simps ints_printable.simps)
  ultimately show ?thesis using row by (intro that) simp_all
qed

end
