(* ===== verification/Memory_Store.thy ===== *)
theory Memory_Store
  imports Memory_Rows
begin

text \<open>
  The SQLite store of Memory OS (\<open>memory/sqlite_store.py\<close>): the two tables with the constraints of
  their schema (\<open>memory/sqlite_schema.py\<close>), the statements that the store executes on them, and its
  operations. A statement that violates a constraint raises \<open>IntegrityError\<close>; a transaction that
  raises leaves the database as it was.
\<close>

abbreviation persistence_conflict :: exn where
  "persistence_conflict \<equiv> MemoryExn PersistenceConflictError"
abbreviation integrity_error :: exn where
  "integrity_error \<equiv> BuiltinExn IntegrityError"

section \<open>Tables and statements\<close>

record conflict_row =
  fw_conflict_id :: string
  fw_left_id :: string
  fw_right_id :: string
  fw_created_at :: string
  fw_reason :: string
  fw_resolved_at :: "string option"
  fw_resolution_id :: "string option"

record database =
  db_memories :: "memory_columns list"
  db_conflicts :: "conflict_row list"

text \<open>
  \<open>length(trim(t)) > 0\<close>: \<open>trim\<close> removes spaces, \<open>length\<close> counts the characters before the first NUL.
\<close>

definition sql_nonblank :: "string \<Rightarrow> bool" where
  "sql_nonblank t =
     (case dropWhile (\<lambda>c. c = CHR '' '') t of [] \<Rightarrow> False | c # _ \<Rightarrow> c \<noteq> CHR 0x00)"

text \<open>The checks of the table \<open>memories\<close>; a check of \<open>NULL\<close> passes.\<close>

definition revision_check :: "string option \<Rightarrow> string option \<Rightarrow> bool" where
  "revision_check supersedes reason =
     (case reason of None \<Rightarrow> True | Some t \<Rightarrow> supersedes \<noteq> None \<and> sql_nonblank t)"

definition status_check :: "string \<Rightarrow> string option \<Rightarrow> bool" where
  "status_check status reason =
     (status \<in> {''active'', ''superseded'', ''retracted''} \<and>
      (case reason of None \<Rightarrow> True | Some t \<Rightarrow> status \<noteq> ''active'' \<and> sql_nonblank t))"

definition memory_ids :: "database \<Rightarrow> string list" where
  "memory_ids db = map mw_memory_id (db_memories db)"

definition insert_memory_row :: "memory_columns \<Rightarrow> database \<Rightarrow> database res" where
  "insert_memory_row w db =
     raise_if (mw_memory_id w \<in> set (memory_ids db)) integrity_error
    (raise_if (\<not> revision_check (mw_supersedes_id w) (mw_revision_reason w)) integrity_error
    (raise_if (\<not> status_check (mw_status w) (mw_status_reason w)) integrity_error
    (raise_if (case mw_supersedes_id w of None \<Rightarrow> False | Some p \<Rightarrow>
         p \<notin> set (mw_memory_id w # memory_ids db) \<or>
         Some p \<in> set (map mw_supersedes_id (db_memories db))) integrity_error
    (Inr (db\<lparr>db_memories := db_memories db @ [w]\<rparr>)))))"

text \<open>
  \<open>UPDATE memories SET status, status_changed_at, status_reason WHERE memory_id = ? AND status = ?\<close>,
  with the number of the rows that it changed.
\<close>

definition update_status ::
  "string \<Rightarrow> string \<Rightarrow> string option \<Rightarrow> string \<Rightarrow> string \<Rightarrow> database \<Rightarrow> (nat \<times> database) res" where
  "update_status status changed_at reason memory_id expected db =
     (let hit = (\<lambda>w. mw_memory_id w = memory_id \<and> mw_status w = expected);
          changed = length (filter hit (db_memories db)) in
      raise_if (0 < changed \<and> \<not> status_check status reason) integrity_error
     (Inr (changed, db\<lparr>db_memories := map (\<lambda>w. if hit w
          then w\<lparr>mw_status := status, mw_status_changed_at := changed_at,
                 mw_status_reason := reason\<rparr>
          else w) (db_memories db)\<rparr>)))"

definition insert_conflict_row :: "conflict_row \<Rightarrow> database \<Rightarrow> database res" where
  "insert_conflict_row c db =
     raise_if (fw_conflict_id c \<in> set (map fw_conflict_id (db_conflicts db))) integrity_error
    (raise_if (fw_left_id c \<notin> set (memory_ids db) \<or> fw_right_id c \<notin> set (memory_ids db))
       integrity_error
    (raise_if (case fw_resolution_id c of None \<Rightarrow> False | Some i \<Rightarrow>
         i \<notin> set (memory_ids db) \<or> fw_resolved_at c = None) integrity_error
    (raise_if ((fw_left_id c, fw_right_id c) \<in>
         set (map (\<lambda>d. (fw_left_id d, fw_right_id d)) (db_conflicts db))) integrity_error
    (raise_if (\<not> fw_left_id c < fw_right_id c) integrity_error
    (Inr (db\<lparr>db_conflicts := db_conflicts db @ [c]\<rparr>))))))"

definition update_resolved ::
  "string \<Rightarrow> string option \<Rightarrow> string \<Rightarrow> database \<Rightarrow> database res" where
  "update_resolved resolved_at resolution_id memory_id db =
     (let hit = (\<lambda>c. fw_resolved_at c = None \<and>
            (fw_left_id c = memory_id \<or> fw_right_id c = memory_id)) in
      raise_if (list_ex hit (db_conflicts db) \<and>
          (case resolution_id of None \<Rightarrow> False | Some i \<Rightarrow> i \<notin> set (memory_ids db))) integrity_error
     (Inr (db\<lparr>db_conflicts := map (\<lambda>c. if hit c
          then c\<lparr>fw_resolved_at := Some resolved_at, fw_resolution_id := resolution_id\<rparr>
          else c) (db_conflicts db)\<rparr>)))"

text \<open>\<open>ORDER BY created_at ASC, memory_id ASC\<close>.\<close>

definition memory_order :: "memory_columns \<Rightarrow> string \<times> string" where
  "memory_order w = (mw_created_at w, mw_memory_id w)"

definition conflict_order :: "conflict_row \<Rightarrow> string \<times> string" where
  "conflict_order c = (fw_created_at c, fw_conflict_id c)"

section \<open>Reading\<close>

definition find_memory :: "uuid \<Rightarrow> database \<Rightarrow> memory_record option res" where
  "find_memory i db =
     (case find (\<lambda>w. mw_memory_id w = uuid_str i) (db_memories db) of
        None \<Rightarrow> Inr None
      | Some w \<Rightarrow> tryE (memory_from_row w) (\<lambda>r. Inr (Some r)))"

definition require_memory :: "uuid \<Rightarrow> database \<Rightarrow> memory_record res" where
  "require_memory i db =
     tryE (find_memory i db) (\<lambda>found.
     case found of None \<Rightarrow> Inl (MemoryExn MemoryNotFoundError) | Some r \<Rightarrow> Inr r)"

text \<open>\<open>column = ?\<close>, when the filter is given.\<close>

definition column_is :: "string option \<Rightarrow> string \<Rightarrow> bool" where
  "column_is f column = (case f of None \<Rightarrow> True | Some t \<Rightarrow> column = t)"

definition select_memories :: "memory_query \<Rightarrow> database \<Rightarrow> memory_record list res" where
  "select_memories q db =
     traverse memory_from_row (sort_key memory_order (filter (\<lambda>w.
       column_is (map_option memory_type_value (mq_memory_type q)) (mw_memory_type w) \<and>
       column_is (mq_subject q) (mw_subject w) \<and>
       column_is (mq_predicate q) (mw_predicate w) \<and>
       (mq_active_only q \<longrightarrow> mw_status w = ''active'')) (db_memories db)))"

definition conflict_from_row :: "database \<Rightarrow> conflict_row \<Rightarrow> memory_conflict res" where
  "conflict_from_row db c =
     tryE (require_memory (uuid_from_text (fw_left_id c)) db) (\<lambda>left.
     tryE (require_memory (uuid_from_text (fw_right_id c)) db) (\<lambda>right.
     check_memory_conflict
       \<lparr>mc_conflict_id = uuid_from_text (fw_conflict_id c), mc_left = left, mc_right = right,
        mc_created_at = datetime_from_text (fw_created_at c), mc_reason = fw_reason c,
        mc_resolved_at = map_option datetime_from_text (fw_resolved_at c),
        mc_resolution_id = map_option uuid_from_text (fw_resolution_id c)\<rparr>))"

definition select_conflicts ::
  "string option \<Rightarrow> string option \<Rightarrow> bool \<Rightarrow> database \<Rightarrow> memory_conflict list res" where
  "select_conflicts subject predicate include_resolved db =
     traverse (conflict_from_row db) (sort_key conflict_order (filter (\<lambda>c.
       list_ex (\<lambda>w. mw_memory_id w = fw_left_id c \<and> column_is subject (mw_subject w) \<and>
         column_is predicate (mw_predicate w)) (db_memories db) \<and>
       (\<not> include_resolved \<longrightarrow> fw_resolved_at c = None)) (db_conflicts db)))"

section \<open>Writing\<close>

text \<open>
  The identifiers of new conflicts are random: \<open>ids k\<close> is the result of the \<open>k\<close>-th call of \<open>uuid4\<close> by
  the operation.
\<close>

definition conflict_reason :: string where
  "conflict_reason = ''different values for the same memory type, subject, and predicate''"

definition insert_conflict ::
  "uuid \<Rightarrow> uuid \<Rightarrow> uuid \<Rightarrow> py_datetime \<Rightarrow> py_datetime option \<Rightarrow> uuid option \<Rightarrow> database \<Rightarrow>
   database res" where
  "insert_conflict new_id a b created_at resolved_at resolution_id db =
     raise_if (a = b) invalid_memory_data
    (insert_conflict_row
       \<lparr>fw_conflict_id = uuid_str new_id,
        fw_left_id = min (uuid_str a) (uuid_str b), fw_right_id = max (uuid_str a) (uuid_str b),
        fw_created_at = utc_text created_at, fw_reason = conflict_reason,
        fw_resolved_at = map_option utc_text resolved_at,
        fw_resolution_id = map_option uuid_str resolution_id\<rparr> db)"

fun insert_conflicts ::
  "(nat \<Rightarrow> uuid) \<Rightarrow> memory_record \<Rightarrow> string \<Rightarrow> memory_columns list \<Rightarrow> database \<Rightarrow> database res" where
  "insert_conflicts ids r value_json [] db = Inr db"
| "insert_conflicts ids r value_json (w # ws) db =
     (if mw_value_json w \<noteq> value_json
      then tryE (insert_conflict (ids 0) (uuid_from_text (mw_memory_id w)) (mr_memory_id r)
             (mr_created_at r) None None db)
           (insert_conflicts (\<lambda>k. ids (Suc k)) r value_json ws)
      else insert_conflicts ids r value_json ws db)"

definition create_unresolved_conflicts ::
  "(nat \<Rightarrow> uuid) \<Rightarrow> memory_record \<Rightarrow> database \<Rightarrow> database res" where
  "create_unresolved_conflicts ids r db =
     tryE (canonical_json (mr_value r)) (\<lambda>value_json.
     insert_conflicts ids r value_json
       (sort_key memory_order (filter (\<lambda>w.
         mw_memory_type w = memory_type_value (mr_memory_type r) \<and>
         mw_subject w = mr_subject r \<and> mw_predicate w = mr_predicate r \<and>
         mw_status w = ''active'' \<and> mw_memory_id w \<noteq> uuid_str (mr_memory_id r))
         (db_memories db))) db)"

definition insert_memory :: "memory_record \<Rightarrow> database \<Rightarrow> database res" where
  "insert_memory r db = tryE (memory_row r) (\<lambda>w. insert_memory_row w db)"

definition resolve_conflicts ::
  "uuid \<Rightarrow> py_datetime \<Rightarrow> uuid option \<Rightarrow> database \<Rightarrow> database res" where
  "resolve_conflicts memory_id resolved_at resolution_id db =
     update_resolved (utc_text resolved_at) (map_option uuid_str resolution_id)
       (uuid_str memory_id) db"

section \<open>The store\<close>

record memory_store =
  ss_open :: bool
  ss_database :: database

definition with_connection :: "memory_store \<Rightarrow> (database \<Rightarrow> 'a res) \<Rightarrow> 'a res" where
  "with_connection s f =
     raise_if (\<not> ss_open s) (MemoryExn StoreClosedError) (f (ss_database s))"

text \<open>\<open>with self._transaction()\<close>: commit on success, roll back on every exception.\<close>

definition transaction ::
  "(database \<Rightarrow> ('a \<times> database) res) \<Rightarrow> memory_store \<Rightarrow> 'a res \<times> memory_store" where
  "transaction body s =
     (case with_connection s body of
        Inl e \<Rightarrow> (Inl e, s)
      | Inr (x, db) \<Rightarrow> (Inr x, s\<lparr>ss_database := db\<rparr>))"

text \<open>\<open>except sqlite3.IntegrityError as error: raise PersistenceConflictError\<close>.\<close>

definition as_persistence_conflict :: "'a res \<times> memory_store \<Rightarrow> 'a res \<times> memory_store" where
  "as_persistence_conflict p =
     (case p of (Inl (BuiltinExn IntegrityError), s) \<Rightarrow> (Inl persistence_conflict, s) | _ \<Rightarrow> p)"

definition add_memory ::
  "(nat \<Rightarrow> uuid) \<Rightarrow> memory_record \<Rightarrow> memory_store \<Rightarrow> memory_record res \<times> memory_store" where
  "add_memory ids r s =
     (if mr_status r \<noteq> Active \<or> mr_supersedes r \<noteq> None then (Inl invalid_memory_data, s)
      else as_persistence_conflict (transaction (\<lambda>db.
        tryE (insert_memory r db) (\<lambda>db.
        tryE (create_unresolved_conflicts ids r db) (\<lambda>db. Inr (r, db)))) s))"

definition get_stored_memory :: "uuid \<Rightarrow> memory_store \<Rightarrow> memory_record option res" where
  "get_stored_memory i s = with_connection s (find_memory i)"

definition query_stored_memories :: "memory_query \<Rightarrow> memory_store \<Rightarrow> memory_record list res" where
  "query_stored_memories q s = with_connection s (select_memories q)"

definition list_stored_conflicts ::
  "string option \<Rightarrow> string option \<Rightarrow> bool \<Rightarrow> memory_store \<Rightarrow> memory_conflict list res" where
  "list_stored_conflicts subject predicate include_resolved s =
     tryE (if subject \<noteq> None then validate_optional_text subject else Inr ()) (\<lambda>_.
     tryE (if predicate \<noteq> None then validate_optional_text predicate else Inr ()) (\<lambda>_.
     with_connection s (select_conflicts subject predicate include_resolved)))"

definition memory_key :: "memory_record \<Rightarrow> memory_type \<times> string \<times> string" where
  "memory_key r = (mr_memory_type r, mr_subject r, mr_predicate r)"

definition correction ::
  "(nat \<Rightarrow> uuid) \<Rightarrow> uuid \<Rightarrow> memory_record \<Rightarrow> database \<Rightarrow> (memory_record \<times> database) res" where
  "correction ids target_id replacement db =
     tryE (require_memory target_id db) (\<lambda>target.
     raise_if (mr_status target = Retracted) (MemoryExn AlreadyRetractedError)
    (raise_if (mr_status target \<noteq> Active) (MemoryExn InvalidCorrectionTargetError)
    (raise_if (dt_before (mr_created_at replacement) (mr_created_at target)) invalid_memory_data
    (raise_if (memory_key replacement \<noteq> memory_key target) (MemoryExn InvalidCorrectionTargetError)
    (tryE (update_status ''superseded'' (utc_text (mr_created_at replacement))
             (mr_revision_reason replacement) (uuid_str target_id) ''active'' db) (\<lambda>(changed, db).
     raise_if (changed \<noteq> 1) (MemoryExn InvalidCorrectionTargetError)
    (tryE (insert_memory replacement db) (\<lambda>db.
     tryE (resolve_conflicts target_id (mr_created_at replacement)
             (Some (mr_memory_id replacement)) db) (\<lambda>db.
     tryE (canonical_json (mr_value target)) (\<lambda>target_json.
     tryE (canonical_json (mr_value replacement)) (\<lambda>replacement_json.
     tryE (if target_json \<noteq> replacement_json
           then insert_conflict (ids 0) (mr_memory_id target) (mr_memory_id replacement)
             (mr_created_at replacement) (Some (mr_created_at replacement))
             (Some (mr_memory_id replacement)) db
           else Inr db) (\<lambda>db.
     tryE (create_unresolved_conflicts
             (if target_json \<noteq> replacement_json then (\<lambda>k. ids (Suc k)) else ids) replacement db)
       (\<lambda>db. Inr (replacement, db))))))))))))))"

definition correct_stored_memory ::
  "(nat \<Rightarrow> uuid) \<Rightarrow> uuid \<Rightarrow> memory_record \<Rightarrow> memory_store \<Rightarrow> memory_record res \<times> memory_store"
where
  "correct_stored_memory ids target_id replacement s =
     (if mr_status replacement \<noteq> Active \<or> mr_supersedes replacement \<noteq> Some target_id
      then (Inl invalid_memory_data, s)
      else as_persistence_conflict (transaction (correction ids target_id replacement) s))"

definition retraction ::
  "uuid \<Rightarrow> string \<Rightarrow> py_datetime \<Rightarrow> database \<Rightarrow> (memory_record \<times> database) res" where
  "retraction memory_id reason retracted_at db =
     tryE (require_memory memory_id db) (\<lambda>r.
     raise_if (mr_status r = Retracted) (MemoryExn AlreadyRetractedError)
    (raise_if (mr_status r \<noteq> Active) (MemoryExn InvalidRetractionTargetError)
    (raise_if (dt_before retracted_at (mr_created_at r)) invalid_memory_data
    (tryE (update_status ''retracted'' (utc_text retracted_at) (Some reason) (uuid_str memory_id)
             ''active'' db) (\<lambda>(changed, db).
     raise_if (changed \<noteq> 1) (MemoryExn InvalidRetractionTargetError)
    (tryE (resolve_conflicts memory_id retracted_at None db) (\<lambda>db.
     tryE (require_memory memory_id db) (\<lambda>r. Inr (r, db)))))))))"

definition retract_stored_memory ::
  "uuid \<Rightarrow> string \<Rightarrow> py_datetime \<Rightarrow> memory_store \<Rightarrow> memory_record res \<times> memory_store" where
  "retract_stored_memory memory_id reason retracted_at s =
     (case tryE (validate_nonempty_text reason) (\<lambda>_. validate_utc_datetime retracted_at) of
        Inl e \<Rightarrow> (Inl e, s)
      | Inr _ \<Rightarrow> transaction (retraction memory_id reason retracted_at) s)"

section \<open>Revision histories\<close>

text \<open>
  The two loops of \<open>get_revision_history\<close>: back to the first revision, then forward over the
  successors. They return unless the recorded links never end; \<open>None\<close> is not returning.
\<close>

partial_function (option) first_revision ::
  "database \<Rightarrow> uuid list \<Rightarrow> memory_record \<Rightarrow> memory_record res option" where
  "first_revision db seen r =
     (case mr_supersedes r of
        None \<Rightarrow> Some (Inr r)
      | Some p \<Rightarrow>
          if mr_memory_id r \<in> set seen then Some (Inl (MemoryExn MemoryPersistenceError))
          else (case require_memory p db of
                  Inl e \<Rightarrow> Some (Inl e)
                | Inr q \<Rightarrow> first_revision db (mr_memory_id r # seen) q))"

partial_function (option) later_revisions ::
  "database \<Rightarrow> uuid list \<Rightarrow> memory_record list \<Rightarrow> memory_record \<Rightarrow> memory_record list res option"
where
  "later_revisions db seen history r =
     (if mr_memory_id r \<in> set seen then Some (Inl (MemoryExn MemoryPersistenceError))
      else (case find (\<lambda>w. mw_supersedes_id w = Some (uuid_str (mr_memory_id r))) (db_memories db) of
              None \<Rightarrow> Some (Inr (history @ [r]))
            | Some w \<Rightarrow>
                (case memory_from_row w of
                   Inl e \<Rightarrow> Some (Inl e)
                 | Inr q \<Rightarrow> later_revisions db (mr_memory_id r # seen) (history @ [r]) q)))"

definition revision_history :: "uuid \<Rightarrow> database \<Rightarrow> memory_record list res option" where
  "revision_history i db =
     (case require_memory i db of
        Inl e \<Rightarrow> Some (Inl e)
      | Inr r \<Rightarrow>
          Option.bind (first_revision db [] r) (\<lambda>first.
          case first of
            Inl e \<Rightarrow> Some (Inl e)
          | Inr q \<Rightarrow> later_revisions db [] [] q))"

definition stored_revision_history :: "uuid \<Rightarrow> memory_store \<Rightarrow> memory_record list res option" where
  "stored_revision_history i s =
     (if \<not> ss_open s then Some (Inl (MemoryExn StoreClosedError))
      else revision_history i (ss_database s))"

definition close_store :: "memory_store \<Rightarrow> memory_store" where
  "close_store s = s\<lparr>ss_open := False\<rparr>"

text \<open>A new database: \<open>migrate\<close> has created the two empty tables.\<close>

definition new_store :: memory_store where
  "new_store = \<lparr>ss_open = True, ss_database = \<lparr>db_memories = [], db_conflicts = []\<rparr>\<rparr>"

end
