(* ===== verification/Memory_Spec.thy ===== *)
theory Memory_Spec
  imports Memory_Store
begin

text \<open>
  What Memory OS promises, on typed records instead of rows of text: an abstract state with the
  records and the conflicts between them, the effect of the three mutations on it, and the
  simulation: a mutation of the SQLite store that returns has exactly that effect, and the reads of
  the store are reads of the abstract state.
\<close>

section \<open>The abstract state\<close>

record stored_conflict =
  sc_id :: uuid
  sc_left :: uuid
  sc_right :: uuid
  sc_created_at :: py_datetime
  sc_resolved_at :: "py_datetime option"
  sc_resolution_id :: "uuid option"

record memory_state =
  st_records :: "memory_record list"
  st_conflicts :: "stored_conflict list"

definition record_order :: "memory_record \<Rightarrow> string \<times> string" where
  "record_order r = (utc_text (mr_created_at r), uuid_str (mr_memory_id r))"

definition spec_find :: "uuid \<Rightarrow> memory_state \<Rightarrow> memory_record option" where
  "spec_find i st = find (\<lambda>r. mr_memory_id r = i) (st_records st)"

text \<open>The conflict between two memories, the smaller identifier on the left.\<close>

definition conflict_between ::
  "uuid \<Rightarrow> uuid \<Rightarrow> uuid \<Rightarrow> py_datetime \<Rightarrow> py_datetime option \<Rightarrow> uuid option \<Rightarrow> stored_conflict"
where
  "conflict_between new_id a b created_at resolved_at resolution_id =
     \<lparr>sc_id = new_id,
      sc_left = (if uuid_str a \<le> uuid_str b then a else b),
      sc_right = (if uuid_str a \<le> uuid_str b then b else a),
      sc_created_at = created_at, sc_resolved_at = resolved_at, sc_resolution_id = resolution_id\<rparr>"

text \<open>The active memories that contradict a new one.\<close>

definition opposed :: "memory_record \<Rightarrow> memory_record \<Rightarrow> bool" where
  "opposed r a \<longleftrightarrow>
     memory_key a = memory_key r \<and> mr_status a = Active \<and> mr_memory_id a \<noteq> mr_memory_id r \<and>
     canon (mr_value a) \<noteq> canon (mr_value r)"

fun new_conflicts :: "(nat \<Rightarrow> uuid) \<Rightarrow> memory_record \<Rightarrow> memory_record list \<Rightarrow> stored_conflict list" where
  "new_conflicts ids r [] = []"
| "new_conflicts ids r (a # as) =
     conflict_between (ids 0) (mr_memory_id a) (mr_memory_id r) (mr_created_at r) None None #
     new_conflicts (\<lambda>k. ids (Suc k)) r as"

definition contradicting :: "memory_record \<Rightarrow> memory_record list \<Rightarrow> memory_record list" where
  "contradicting r rs = sort_key record_order (filter (opposed r) rs)"

text \<open>A memory that leaves the active state resolves its open conflicts.\<close>

definition touches :: "uuid \<Rightarrow> stored_conflict \<Rightarrow> bool" where
  "touches i c \<longleftrightarrow> sc_resolved_at c = None \<and> (sc_left c = i \<or> sc_right c = i)"

definition resolve :: "uuid \<Rightarrow> py_datetime \<Rightarrow> uuid option \<Rightarrow> stored_conflict list \<Rightarrow> stored_conflict list"
where
  "resolve i at_time by_id =
     map (\<lambda>c. if touches i c then c\<lparr>sc_resolved_at := Some at_time, sc_resolution_id := by_id\<rparr> else c)"

definition retire ::
  "memory_status \<Rightarrow> py_datetime \<Rightarrow> string option \<Rightarrow> memory_record \<Rightarrow> memory_record" where
  "retire status at_time reason r =
     r\<lparr>mr_status := status, mr_status_changed_at := at_time, mr_status_reason := reason\<rparr>"

definition retire_in ::
  "uuid \<Rightarrow> memory_status \<Rightarrow> py_datetime \<Rightarrow> string option \<Rightarrow> memory_record list \<Rightarrow> memory_record list"
where
  "retire_in i status at_time reason =
     map (\<lambda>r. if mr_memory_id r = i \<and> mr_status r = Active then retire status at_time reason r else r)"

section \<open>The mutations\<close>

definition spec_add :: "(nat \<Rightarrow> uuid) \<Rightarrow> memory_record \<Rightarrow> memory_state \<Rightarrow> memory_state" where
  "spec_add ids r st =
     \<lparr>st_records = st_records st @ [stored_record r],
      st_conflicts = st_conflicts st @ new_conflicts ids r (contradicting r (st_records st))\<rparr>"

definition spec_correct ::
  "(nat \<Rightarrow> uuid) \<Rightarrow> memory_record \<Rightarrow> memory_record \<Rightarrow> memory_state \<Rightarrow> memory_state" where
  "spec_correct ids t r st =
     (let records = retire_in (mr_memory_id t) Superseded (mr_created_at r) (mr_revision_reason r)
            (st_records st);
          differ = (canon (mr_value t) \<noteq> canon (mr_value r)) in
      \<lparr>st_records = records @ [stored_record r],
       st_conflicts =
         resolve (mr_memory_id t) (mr_created_at r) (Some (mr_memory_id r)) (st_conflicts st) @
         (if differ
          then [conflict_between (ids 0) (mr_memory_id t) (mr_memory_id r) (mr_created_at r)
                  (Some (mr_created_at r)) (Some (mr_memory_id r))]
          else []) @
         new_conflicts (if differ then (\<lambda>k. ids (Suc k)) else ids) r (contradicting r records)\<rparr>)"

definition spec_retract ::
  "uuid \<Rightarrow> string \<Rightarrow> py_datetime \<Rightarrow> memory_state \<Rightarrow> memory_state" where
  "spec_retract i reason at_time st =
     \<lparr>st_records = retire_in i Retracted at_time (Some reason) (st_records st),
      st_conflicts = resolve i at_time None (st_conflicts st)\<rparr>"

section \<open>The representation\<close>

definition row_of :: "memory_record \<Rightarrow> memory_columns" where
  "row_of r =
     \<lparr>mw_memory_id = uuid_str (mr_memory_id r),
      mw_memory_type = memory_type_value (mr_memory_type r),
      mw_subject = mr_subject r, mw_predicate = mr_predicate r, mw_value_json = canon (mr_value r),
      mw_provenance_type = provenance_type_value (pv_type (mr_provenance r)),
      mw_provenance_source_id = pv_source_id (mr_provenance r),
      mw_provenance_details_json = canon (PDict (pv_details (mr_provenance r))),
      mw_confidence = projr (real_column (mr_confidence r)),
      mw_observed_at = utc_text (mr_observed_at r), mw_created_at = utc_text (mr_created_at r),
      mw_status = memory_status_value (mr_status r),
      mw_status_changed_at = utc_text (mr_status_changed_at r),
      mw_supersedes_id = map_option uuid_str (mr_supersedes r),
      mw_revision_reason = mr_revision_reason r, mw_status_reason = mr_status_reason r,
      mw_metadata_json = canon (PDict (mr_metadata r))\<rparr>"

definition conflict_row_of :: "stored_conflict \<Rightarrow> conflict_row" where
  "conflict_row_of c =
     \<lparr>fw_conflict_id = uuid_str (sc_id c), fw_left_id = uuid_str (sc_left c),
      fw_right_id = uuid_str (sc_right c), fw_created_at = utc_text (sc_created_at c),
      fw_reason = conflict_reason, fw_resolved_at = map_option utc_text (sc_resolved_at c),
      fw_resolution_id = map_option uuid_str (sc_resolution_id c)\<rparr>"

definition stored_ok :: "memory_record \<Rightarrow> bool" where
  "stored_ok r \<longleftrightarrow> memory_record_ok r \<and> printable_record r \<and> stored_record r = r"

definition represents :: "memory_state \<Rightarrow> database \<Rightarrow> bool" where
  "represents st db \<longleftrightarrow>
     list_all stored_ok (st_records st) \<and> db_memories db = map row_of (st_records st) \<and>
     db_conflicts db = map conflict_row_of (st_conflicts st)"

lemma memory_row_row_of: "memory_row r = Inr w \<Longrightarrow> w = row_of r"
  by (auto simp: memory_row_def row_of_def canonical_json_def res_simps simp del: canon.simps)

lemma row_of_Inr:
  assumes "memory_record_ok r" "printable_record r"
  shows "memory_row r = Inr (row_of r)"
  using memory_row_total [OF assms] memory_row_row_of by metis

lemma row_of_stored:
  assumes "memory_record_ok r" "printable_record r"
  shows "row_of (stored_record r) = row_of r"
  using memory_row_total [OF assms] memory_row_row_of by metis

lemma memory_from_row_of: "stored_ok r \<Longrightarrow> memory_from_row (row_of r) = Inr r"
  by (metis memory_row_row_of memory_row_total stored_ok_def)

lemma stored_record_stored_ok:
  assumes "memory_record_ok r" "printable_record r"
  shows "stored_ok (stored_record r)"
proof -
  note ok = stored_record_ok [OF assms]
  obtain w where "memory_from_row w = Inr (stored_record r)" "memory_row (stored_record r) = Inr w"
    using memory_row_total [OF assms] by metis
  moreover obtain w' where "memory_row (stored_record r) = Inr w'"
    "memory_from_row w' = Inr (stored_record (stored_record r))"
    using memory_row_total [OF ok] by metis
  ultimately show ?thesis using ok by (simp add: stored_ok_def)
qed

lemma row_of_sel [simp]:
  "mw_memory_id (row_of r) = uuid_str (mr_memory_id r)"
  "mw_memory_type (row_of r) = memory_type_value (mr_memory_type r)"
  "mw_subject (row_of r) = mr_subject r" "mw_predicate (row_of r) = mr_predicate r"
  "mw_value_json (row_of r) = canon (mr_value r)"
  "mw_created_at (row_of r) = utc_text (mr_created_at r)"
  "mw_status (row_of r) = memory_status_value (mr_status r)"
  "mw_supersedes_id (row_of r) = map_option uuid_str (mr_supersedes r)"
  "mw_revision_reason (row_of r) = mr_revision_reason r"
  "mw_status_reason (row_of r) = mr_status_reason r"
  by (simp_all add: row_of_def)

text \<open>Retiring a record changes the three columns that the \<open>UPDATE\<close> sets.\<close>

lemma row_of_retire:
  "row_of (retire status t reason r) = (row_of r)
    \<lparr>mw_status := memory_status_value status, mw_status_changed_at := utc_text t,
     mw_status_reason := reason\<rparr>"
  by (simp add: row_of_def retire_def)

section \<open>Reads\<close>

lemma represents_stored: "represents st db \<Longrightarrow> r \<in> set (st_records st) \<Longrightarrow> stored_ok r"
  by (simp add: represents_def list_all_iff)

lemma represents_rows: "represents st db \<Longrightarrow> db_memories db = map row_of (st_records st)"
  by (simp add: represents_def)

lemma represents_conflicts: "represents st db \<Longrightarrow> db_conflicts db = map conflict_row_of (st_conflicts st)"
  by (simp add: represents_def)

lemma find_map: "find P (map f xs) = map_option f (find (\<lambda>x. P (f x)) xs)"
  by (induction xs) auto

lemma find_some: "find P xs = Some x \<Longrightarrow> x \<in> set xs \<and> P x"
  by (auto simp: find_Some_iff)

lemma find_memory_spec:
  assumes "represents st db"
  shows "find_memory i db = Inr (spec_find i st)"
proof -
  have "find_memory i db = (case spec_find i st of None \<Rightarrow> Inr None
      | Some r \<Rightarrow> tryE (memory_from_row (row_of r)) (\<lambda>r. Inr (Some r)))"
    by (simp add: find_memory_def represents_rows [OF assms] find_map spec_find_def split: option.splits)
  then show ?thesis
    using represents_stored [OF assms]
    by (auto simp: spec_find_def memory_from_row_of dest: find_some split: option.splits)
qed

lemma require_memory_spec:
  "represents st db \<Longrightarrow> require_memory i db =
     (case spec_find i st of None \<Rightarrow> Inl (MemoryExn MemoryNotFoundError) | Some r \<Rightarrow> Inr r)"
  by (simp add: require_memory_def find_memory_spec)

lemma traverse_rows:
  "list_all stored_ok rs \<Longrightarrow> traverse memory_from_row (map row_of rs) = Inr rs"
  by (induction rs) (simp_all add: memory_from_row_of)

lemma memory_order_row: "memory_order \<circ> row_of = record_order"
  by (simp add: fun_eq_iff memory_order_def record_order_def)

definition query_matches :: "memory_query \<Rightarrow> memory_record \<Rightarrow> bool" where
  "query_matches q r \<longleftrightarrow>
     (case mq_memory_type q of None \<Rightarrow> True | Some t \<Rightarrow> mr_memory_type r = t) \<and>
     (case mq_subject q of None \<Rightarrow> True | Some s \<Rightarrow> mr_subject r = s) \<and>
     (case mq_predicate q of None \<Rightarrow> True | Some s \<Rightarrow> mr_predicate r = s) \<and>
     (mq_active_only q \<longrightarrow> mr_status r = Active)"

lemma status_text [simp]: "memory_status_value s = ''active'' \<longleftrightarrow> s = Active"
  by (cases s) simp_all

lemma select_memories_spec:
  assumes "represents st db"
  shows "select_memories q db = Inr (sort_key record_order (filter (query_matches q) (st_records st)))"
proof -
  have "filter (\<lambda>w. column_is (map_option memory_type_value (mq_memory_type q)) (mw_memory_type w) \<and>
       column_is (mq_subject q) (mw_subject w) \<and> column_is (mq_predicate q) (mw_predicate w) \<and>
       (mq_active_only q \<longrightarrow> mw_status w = ''active'')) (map row_of (st_records st)) =
     map row_of (filter (query_matches q) (st_records st))"
    by (auto simp: filter_map query_matches_def column_is_def o_def split: option.splits
        intro!: arg_cong [where f = "map row_of"] filter_cong)
  then have "select_memories q db =
      traverse memory_from_row (map row_of (sort_key record_order (filter (query_matches q) (st_records st))))"
    by (simp add: select_memories_def represents_rows [OF assms] sort_key_map memory_order_row)
  also have "\<dots> = Inr (sort_key record_order (filter (query_matches q) (st_records st)))"
    using represents_stored [OF assms] by (intro traverse_rows) (simp add: list_all_iff)
  finally show ?thesis .
qed

text \<open>A conflict with its two memories, as \<open>list_conflicts\<close> returns it.\<close>

definition spec_conflict :: "memory_state \<Rightarrow> stored_conflict \<Rightarrow> memory_conflict" where
  "spec_conflict st c =
     \<lparr>mc_conflict_id = sc_id c, mc_left = the (spec_find (sc_left c) st),
      mc_right = the (spec_find (sc_right c) st), mc_created_at = sc_created_at c,
      mc_reason = conflict_reason, mc_resolved_at = sc_resolved_at c,
      mc_resolution_id = sc_resolution_id c\<rparr>"

definition stored_conflict_ok :: "memory_state \<Rightarrow> stored_conflict \<Rightarrow> bool" where
  "stored_conflict_ok st c \<longleftrightarrow>
     sc_left c \<noteq> sc_right c \<and> sc_left c \<in> mr_memory_id ` set (st_records st) \<and>
     sc_right c \<in> mr_memory_id ` set (st_records st) \<and>
     instant_ok (sc_created_at c) \<and> utc_ok (sc_created_at c) \<and>
     (case sc_resolved_at c of None \<Rightarrow> True | Some t \<Rightarrow> instant_ok t \<and> utc_ok t) \<and>
     (sc_resolution_id c \<noteq> None \<longrightarrow> sc_resolved_at c \<noteq> None)"

text \<open>
  What the constructor of a conflict demands besides: a correction at a time before an open conflict
  was recorded, by a clock that went backwards, resolves it out of order.
\<close>

definition resolved_in_order :: "stored_conflict \<Rightarrow> bool" where
  "resolved_in_order c \<longleftrightarrow>
     (case sc_resolved_at c of None \<Rightarrow> True | Some t \<Rightarrow> \<not> dt_before t (sc_created_at c))"

lemma spec_find_in: "i \<in> mr_memory_id ` set (st_records st) \<Longrightarrow> \<exists>r. spec_find i st = Some r"
  by (cases "spec_find i st") (auto simp: spec_find_def find_None_iff)

lemma spec_find_some: "spec_find i st = Some r \<Longrightarrow> r \<in> set (st_records st) \<and> mr_memory_id r = i"
  by (auto simp: spec_find_def dest: find_some)

lemma conflict_reason_text: "exact_text_ok conflict_reason"
  by (simp add: conflict_reason_def exact_text_ok_def py_strip_def py_isspace_def code_point_def)

lemma conflict_from_row_spec:
  assumes "represents st db" "stored_conflict_ok st c" "resolved_in_order c"
  shows "conflict_from_row db (conflict_row_of c) = Inr (spec_conflict st c)"
proof -
  obtain l r where lr: "spec_find (sc_left c) st = Some l" "spec_find (sc_right c) st = Some r"
    using assms(2) spec_find_in [of "sc_left c" st] spec_find_in [of "sc_right c" st]
    unfolding stored_conflict_ok_def by blast
  have ids: "mr_memory_id l \<noteq> mr_memory_id r"
    using lr assms(2) by (auto simp: stored_conflict_ok_def dest!: spec_find_some)
  have "map_option uuid_from_text (map_option uuid_str u) = u" for u
    by (simp add: option.map_comp o_def option.map_ident)
  moreover have "map_option datetime_from_text (map_option utc_text (sc_resolved_at c)) = sc_resolved_at c"
    using assms(2) by (auto simp: stored_conflict_ok_def split: option.splits)
  moreover have "check_memory_conflict (spec_conflict st c) = Inr (spec_conflict st c)"
    using assms(2,3) lr ids conflict_reason_text
    by (auto simp: resolved_in_order_def check_memory_conflict_def spec_conflict_def stored_conflict_ok_def
        validate_utc_datetime_def validate_nonempty_text_def utc_ok_def split: option.splits)
  ultimately show ?thesis
    using lr assms(2)
    by (simp add: conflict_from_row_def conflict_row_of_def require_memory_spec [OF assms(1)]
        spec_conflict_def stored_conflict_ok_def)
qed

definition conflict_listed :: "string option \<Rightarrow> string option \<Rightarrow> bool \<Rightarrow> memory_state \<Rightarrow>
   stored_conflict \<Rightarrow> bool" where
  "conflict_listed subject predicate include_resolved st c \<longleftrightarrow>
     column_is subject (mr_subject (the (spec_find (sc_left c) st))) \<and>
     column_is predicate (mr_predicate (the (spec_find (sc_left c) st))) \<and>
     (\<not> include_resolved \<longrightarrow> sc_resolved_at c = None)"

definition spec_conflict_order :: "stored_conflict \<Rightarrow> string \<times> string" where
  "spec_conflict_order c = (utc_text (sc_created_at c), uuid_str (sc_id c))"

lemma unique_find:
  assumes "distinct (map mr_memory_id (st_records st))" "r \<in> set (st_records st)"
  shows "spec_find (mr_memory_id r) st = Some r"
proof -
  obtain q where q: "spec_find (mr_memory_id r) st = Some q"
    using assms(2) spec_find_in [of "mr_memory_id r" st] by blast
  with assms show ?thesis by (auto dest!: spec_find_some simp: distinct_map inj_on_def)
qed

lemma select_conflicts_spec:
  assumes "represents st db" "distinct (map mr_memory_id (st_records st))"
    and "list_all (stored_conflict_ok st) (st_conflicts st)"
    and "include_resolved \<Longrightarrow> list_all resolved_in_order (st_conflicts st)"
  shows "select_conflicts subject predicate include_resolved db =
    Inr (map (spec_conflict st) (sort_key spec_conflict_order
      (filter (conflict_listed subject predicate include_resolved st) (st_conflicts st))))"
proof -
  let ?cs = "filter (conflict_listed subject predicate include_resolved st) (st_conflicts st)"
  have "filter (\<lambda>c. list_ex (\<lambda>w. mw_memory_id w = fw_left_id c \<and> column_is subject (mw_subject w) \<and>
         column_is predicate (mw_predicate w)) (db_memories db) \<and>
       (\<not> include_resolved \<longrightarrow> fw_resolved_at c = None)) (db_conflicts db) = map conflict_row_of ?cs"
    unfolding represents_conflicts [OF assms(1)] represents_rows [OF assms(1)] filter_map
  proof (rule arg_cong [where f = "map conflict_row_of"], rule filter_cong [OF refl], unfold o_def)
    fix c assume c: "c \<in> set (st_conflicts st)"
    then obtain l where l: "spec_find (sc_left c) st = Some l"
      using assms(3) spec_find_in [of "sc_left c" st] by (auto simp: list_all_iff stored_conflict_ok_def)
    have u: "mr_memory_id r = sc_left c \<longleftrightarrow> r = l" if "r \<in> set (st_records st)" for r
      using unique_find [OF assms(2) that] l spec_find_some [OF l] by auto
    have "list_ex (\<lambda>w. mw_memory_id w = fw_left_id (conflict_row_of c) \<and>
        column_is subject (mw_subject w) \<and> column_is predicate (mw_predicate w))
        (map row_of (st_records st)) \<longleftrightarrow>
      column_is subject (mr_subject l) \<and> column_is predicate (mr_predicate l)"
      using u spec_find_some [OF l] by (auto simp: list_ex_iff conflict_row_of_def)
    then show "(list_ex (\<lambda>w. mw_memory_id w = fw_left_id (conflict_row_of c) \<and>
          column_is subject (mw_subject w) \<and> column_is predicate (mw_predicate w))
          (map row_of (st_records st)) \<and>
        (\<not> include_resolved \<longrightarrow> fw_resolved_at (conflict_row_of c) = None)) =
      conflict_listed subject predicate include_resolved st c"
      by (simp add: conflict_listed_def l conflict_row_of_def)
  qed
  moreover have "conflict_order \<circ> conflict_row_of = spec_conflict_order"
    by (simp add: fun_eq_iff conflict_order_def spec_conflict_order_def conflict_row_of_def)
  moreover have "traverse (conflict_from_row db) (map conflict_row_of cs) = Inr (map (spec_conflict st) cs)"
    if "set cs \<subseteq> set (st_conflicts st)" "list_all resolved_in_order cs" for cs
    using that assms(3) by (induction cs) (auto simp: list_all_iff conflict_from_row_spec [OF assms(1)])
  moreover have "list_all resolved_in_order (sort_key spec_conflict_order ?cs)"
    using assms(4) by (auto simp: list_all_iff conflict_listed_def resolved_in_order_def
        split: option.splits)
  ultimately show ?thesis
    by (simp add: select_conflicts_def sort_key_map)
qed

end
