(* ===== verification/Memory_Refinement.thy ===== *)
theory Memory_Refinement
  imports Memory_Spec
begin

text \<open>
  The simulation: on a database that represents an abstract state, a mutation that returns leaves a
  database that represents the state after the abstract mutation.
\<close>

section \<open>Records as Python holds them\<close>

text \<open>The keys of a dict are distinct and the text of a finite float is its \<open>repr\<close>.\<close>

fun represented :: "pyval \<Rightarrow> bool" where
  "represented (PFloat (Finite t)) = float_text t"
| "represented (PList vs) = list_all represented vs"
| "represented (PDict kvs) = (distinct (map fst kvs) \<and> list_all (\<lambda>kv. represented (snd kv)) kvs)"
| "represented _ = True"

definition python_record :: "memory_record \<Rightarrow> bool" where
  "python_record r \<longleftrightarrow>
     represented (mr_value r) \<and> represented (PDict (pv_details (mr_provenance r))) \<and>
     represented (PDict (mr_metadata r)) \<and>
     instant_ok (mr_observed_at r) \<and> instant_ok (mr_created_at r) \<and>
     instant_ok (mr_status_changed_at r)"

lemma represented_printable: "represented v \<Longrightarrow> memory_json_ok v \<Longrightarrow> printable v"
  by (induction v rule: represented.induct) (fastforce simp: list_all_iff)+

lemma printable_represented: "printable v \<Longrightarrow> represented v"
  by (induction v rule: represented.induct) (auto simp: list_all_iff)

lemma python_record_printable:
  assumes "memory_record_ok r" "python_record r" "memory_row r = Inr w"
  shows "printable_record r"
  using assms represented_printable
  by (auto simp: memory_record_ok_def provenance_ok_def python_record_def printable_record_def
      memory_row_def canonical_json_def res_simps
      simp del: represented.simps memory_json_ok.simps printable.simps ints_printable.simps)

section \<open>The statements\<close>

lemma insert_memory_spec:
  assumes "represents st db" "memory_record_ok r" "python_record r" "insert_memory r db = Inr db'"
  shows "represents (st\<lparr>st_records := st_records st @ [stored_record r]\<rparr>) db'"
    "mr_memory_id r \<notin> mr_memory_id ` set (st_records st)" "printable_record r"
proof -
  obtain w where w: "memory_row r = Inr w" "insert_memory_row w db = Inr db'"
    using assms(4) by (auto simp: insert_memory_def res_simps)
  show p: "printable_record r" by (rule python_record_printable [OF assms(2,3) w(1)])
  have "w = row_of (stored_record r)"
    using w(1) row_of_Inr [OF assms(2) p] row_of_stored [OF assms(2) p] by simp
  then show "represents (st\<lparr>st_records := st_records st @ [stored_record r]\<rparr>) db'"
    using assms(1) w(2) stored_record_stored_ok [OF assms(2) p]
    by (auto simp: represents_def insert_memory_row_def res_simps)
  show "mr_memory_id r \<notin> mr_memory_id ` set (st_records st)"
    using w \<open>w = row_of (stored_record r)\<close> represents_rows [OF assms(1)]
    by (auto simp: insert_memory_row_def res_simps memory_ids_def)
qed

lemma insert_conflict_spec:
  assumes "insert_conflict n a b t res rid db = Inr db'"
  shows "db' = db\<lparr>db_conflicts := db_conflicts db @ [conflict_row_of (conflict_between n a b t res rid)]\<rparr>"
    "a \<noteq> b"
  using assms
  by (auto simp: insert_conflict_def insert_conflict_row_def res_simps conflict_row_of_def
      conflict_between_def min_def max_def)

lemma insert_conflicts_spec:
  "insert_conflicts ids r (canon (mr_value r)) (map row_of as) db = Inr db' \<Longrightarrow>
   db' = db\<lparr>db_conflicts := db_conflicts db @ map conflict_row_of (new_conflicts ids r
     (filter (\<lambda>a. canon (mr_value a) \<noteq> canon (mr_value r)) as))\<rparr>"
proof (induction as arbitrary: ids db)
  case (Cons a as)
  show ?case
  proof (cases "canon (mr_value a) = canon (mr_value r)")
    case False
    with Cons.prems obtain db1 where
      1: "insert_conflict (ids 0) (mr_memory_id a) (mr_memory_id r) (mr_created_at r) None None db = Inr db1"
      and 2: "insert_conflicts (\<lambda>k. ids (Suc k)) r (canon (mr_value r)) (map row_of as) db1 = Inr db'"
      by (auto simp: res_simps)
    from Cons.IH [OF 2] insert_conflict_spec(1) [OF 1] False show ?thesis by simp
  qed (use Cons in auto)
qed simp

lemma create_unresolved_spec:
  assumes "represents st db" "create_unresolved_conflicts ids r db = Inr db'"
  shows "represents (st\<lparr>st_conflicts := st_conflicts st @
    new_conflicts ids r (contradicting r (st_records st))\<rparr>) db'"
proof -
  let ?P = "\<lambda>a. memory_key a = memory_key r \<and> mr_status a = Active \<and> mr_memory_id a \<noteq> mr_memory_id r"
  let ?D = "\<lambda>a. canon (mr_value a) \<noteq> canon (mr_value r)"
  have "sort_key memory_order (filter (\<lambda>w. mw_memory_type w = memory_type_value (mr_memory_type r) \<and>
         mw_subject w = mr_subject r \<and> mw_predicate w = mr_predicate r \<and>
         mw_status w = ''active'' \<and> mw_memory_id w \<noteq> uuid_str (mr_memory_id r)) (db_memories db)) =
    map row_of (sort_key record_order (filter ?P (st_records st)))"
    by (simp add: represents_rows [OF assms(1)] filter_map sort_key_map memory_key_def o_def
        memory_order_row [unfolded o_def])
  then have "insert_conflicts ids r (canon (mr_value r))
      (map row_of (sort_key record_order (filter ?P (st_records st)))) db = Inr db'"
    using assms(2) by (auto simp: create_unresolved_conflicts_def canonical_json_def res_simps)
  from insert_conflicts_spec [OF this]
  have "db' = db\<lparr>db_conflicts := db_conflicts db @ map conflict_row_of (new_conflicts ids r
      (filter ?D (sort_key record_order (filter ?P (st_records st)))))\<rparr>" .
  moreover have "filter ?D (sort_key record_order (filter ?P (st_records st))) =
      contradicting r (st_records st)"
    by (auto simp: contradicting_def filter_sort opposed_def
        intro!: arg_cong [where f = "sort_key record_order"] filter_cong)
  ultimately show ?thesis
    using assms(1) by (simp add: represents_def)
qed

lemma update_status_spec:
  assumes rep: "represents st db"
    and up: "update_status (memory_status_value status) (utc_text t) reason (uuid_str i) ''active'' db =
      Inr (n, db')"
    and ok: "\<And>r. r \<in> set (st_records st) \<Longrightarrow> mr_memory_id r = i \<Longrightarrow> mr_status r = Active \<Longrightarrow>
      stored_ok (retire status t reason r)"
  shows "represents (st\<lparr>st_records := retire_in i status t reason (st_records st)\<rparr>) db'"
proof -
  have "db' = db\<lparr>db_memories := map row_of (retire_in i status t reason (st_records st))\<rparr>"
    using up by (auto simp: update_status_def Let_def res_simps represents_rows [OF rep] retire_in_def
        row_of_retire)
  moreover have "list_all stored_ok (retire_in i status t reason (st_records st))"
    using ok represents_stored [OF rep] by (auto simp: retire_in_def list_all_iff)
  ultimately show ?thesis using rep by (simp add: represents_def)
qed

lemma resolve_conflicts_spec:
  assumes "represents st db" "resolve_conflicts i t by_id db = Inr db'"
  shows "represents (st\<lparr>st_conflicts := resolve i t by_id (st_conflicts st)\<rparr>) db'"
  using assms
  by (auto simp: resolve_conflicts_def update_resolved_def Let_def res_simps represents_def resolve_def
      touches_def conflict_row_of_def)

section \<open>The mutations\<close>

lemma stored_ok_retire:
  assumes "stored_ok r" "instant_ok t" "utc_ok t" "\<not> dt_before t (mr_created_at r)"
    and "status \<noteq> Active" "exact_text_ok reason"
  shows "stored_ok (retire status t (Some reason) r)"
proof -
  have "stored_record (retire status t (Some reason) r) = retire status t (Some reason) (stored_record r)"
    by (simp add: stored_record_def retire_def)
  with assms show ?thesis
    by (auto simp: stored_ok_def retire_def memory_record_ok_def printable_record_def
        simp del: stored_record_sel split: option.splits)
qed

lemma retire_sel [simp]:
  "mr_memory_id (retire status t reason r) = mr_memory_id r"
  "memory_key (retire status t reason r) = memory_key r"
  "mr_value (retire status t reason r) = mr_value r"
  "mr_status (retire status t reason r) = status"
  "mr_supersedes (retire status t reason r) = mr_supersedes r"
  "mr_created_at (retire status t reason r) = mr_created_at r"
  by (simp_all add: retire_def memory_key_def)

lemma retire_in_ids [simp]:
  "map mr_memory_id (retire_in i status t reason rs) = map mr_memory_id rs"
  "mr_memory_id ` set (retire_in i status t reason rs) = mr_memory_id ` set rs"
proof -
  show eq: "map mr_memory_id (retire_in i status t reason rs) = map mr_memory_id rs"
    by (simp add: retire_in_def)
  then show "mr_memory_id ` set (retire_in i status t reason rs) = mr_memory_id ` set rs"
    by (metis list.set_map)
qed

lemma transaction_Inr:
  "transaction body s = (Inr x, s') \<longleftrightarrow>
     ss_open s \<and> (\<exists>db. body (ss_database s) = Inr (x, db) \<and> s' = s\<lparr>ss_database := db\<rparr>)"
  by (auto simp: transaction_def with_connection_def raise_if_def split: sum.splits prod.splits)

lemma transaction_Inl: "transaction body s = (Inl e, s') \<Longrightarrow> s' = s"
  by (auto simp: transaction_def split: sum.splits prod.splits)

lemma as_persistence_conflict_Inr [simp]:
  "as_persistence_conflict p = (Inr x, s') \<longleftrightarrow> p = (Inr x, s')"
  by (auto simp: as_persistence_conflict_def split: prod.splits sum.splits exn.splits builtin_exn.splits)

lemma as_persistence_conflict_state: "snd (as_persistence_conflict p) = snd p"
  by (auto simp: as_persistence_conflict_def split: prod.splits sum.splits exn.splits builtin_exn.splits)

lemma add_memory_spec:
  assumes rep: "represents st (ss_database s)" and ok: "memory_record_ok r" "python_record r"
    and add: "add_memory ids r s = (Inr r', s')"
  shows "represents (spec_add ids r st) (ss_database s')" "r' = r" "ss_open s' = ss_open s"
    "mr_status r = Active" "mr_supersedes r = None"
    "mr_memory_id r \<notin> mr_memory_id ` set (st_records st)" "printable_record r"
proof -
  obtain db1 db2 where db: "insert_memory r (ss_database s) = Inr db1"
      "create_unresolved_conflicts ids r db1 = Inr db2" "s' = s\<lparr>ss_database := db2\<rparr>" "r' = r"
    and st: "mr_status r = Active" "mr_supersedes r = None"
    using add by (auto simp: add_memory_def transaction_Inr res_simps split: if_splits)
  note ins = insert_memory_spec [OF rep ok db(1)]
  have "contradicting r (st_records st @ [stored_record r]) = contradicting r (st_records st)"
    by (simp add: contradicting_def opposed_def)
  with create_unresolved_spec [OF ins(1) db(2)]
  show "represents (spec_add ids r st) (ss_database s')"
    by (simp add: spec_add_def db(3) represents_def)
  show "r' = r" "ss_open s' = ss_open s" "mr_status r = Active" "mr_supersedes r = None"
    using db st by simp_all
  show "mr_memory_id r \<notin> mr_memory_id ` set (st_records st)" "printable_record r" by (fact ins)+
qed

lemma correction_Inr:
  assumes "correction ids i r db = Inr (r', db')"
  obtains t n db1 db2 db3 tj rj db4 db5 where
    "require_memory i db = Inr t" "mr_status t = Active"
    "\<not> dt_before (mr_created_at r) (mr_created_at t)" "memory_key r = memory_key t"
    "update_status ''superseded'' (utc_text (mr_created_at r)) (mr_revision_reason r) (uuid_str i)
       ''active'' db = Inr (n, db1)"
    "insert_memory r db1 = Inr db2"
    "resolve_conflicts i (mr_created_at r) (Some (mr_memory_id r)) db2 = Inr db3"
    "canonical_json (mr_value t) = Inr tj" "canonical_json (mr_value r) = Inr rj"
    "(if tj \<noteq> rj then insert_conflict (ids 0) (mr_memory_id t) (mr_memory_id r) (mr_created_at r)
        (Some (mr_created_at r)) (Some (mr_memory_id r)) db3 else Inr db3) = Inr db4"
    "create_unresolved_conflicts (if tj \<noteq> rj then (\<lambda>k. ids (Suc k)) else ids) r db4 = Inr db5"
    "(Inr (r, db5) :: (memory_record \<times> database) res) = Inr (r', db')"
  using assms
  unfolding correction_def tryE_Inr raise_if_Inr not_not split_paired_Ex prod.case
  by (elim exE conjE) (rule that; assumption)

lemma correct_memory_spec:
  assumes rep: "represents st (ss_database s)" and dist: "distinct (map mr_memory_id (st_records st))"
    and ok: "memory_record_ok r" "python_record r"
    and corr: "correct_stored_memory ids i r s = (Inr r', s')"
  obtains t where "spec_find i st = Some t" "mr_status t = Active" "mr_status r = Active"
    "mr_supersedes r = Some i" "memory_key r = memory_key t"
    "\<not> dt_before (mr_created_at r) (mr_created_at t)"
    "mr_memory_id r \<notin> mr_memory_id ` set (st_records st)"
    "printable_record r" "r' = r" "ss_open s' = ss_open s"
    "represents (spec_correct ids t r st) (ss_database s')"
proof -
  have r: "mr_status r = Active" "mr_supersedes r = Some i"
    using corr by (auto simp: correct_stored_memory_def split: if_splits)
  obtain db' where c: "correction ids i r (ss_database s) = Inr (r', db')"
    and s': "s' = s\<lparr>ss_database := db'\<rparr>"
    using corr r by (auto simp: correct_stored_memory_def transaction_Inr)
  from c obtain t n db1 db2 db3 tj rj db4 db5 where
    req: "require_memory i (ss_database s) = Inr t" and act: "mr_status t = Active"
    and time: "\<not> dt_before (mr_created_at r) (mr_created_at t)" and key: "memory_key r = memory_key t"
    and up: "update_status ''superseded'' (utc_text (mr_created_at r)) (mr_revision_reason r)
      (uuid_str i) ''active'' (ss_database s) = Inr (n, db1)"
    and ins: "insert_memory r db1 = Inr db2"
    and res: "resolve_conflicts i (mr_created_at r) (Some (mr_memory_id r)) db2 = Inr db3"
    and j: "canonical_json (mr_value t) = Inr tj" "canonical_json (mr_value r) = Inr rj"
    and confl: "(if tj \<noteq> rj then insert_conflict (ids 0) (mr_memory_id t) (mr_memory_id r)
        (mr_created_at r) (Some (mr_created_at r)) (Some (mr_memory_id r)) db3 else Inr db3) = Inr db4"
    and new: "create_unresolved_conflicts (if tj \<noteq> rj then (\<lambda>k. ids (Suc k)) else ids) r db4 = Inr db5"
    and eq: "(Inr (r, db5) :: (memory_record \<times> database) res) = Inr (r', db')"
    by (rule correction_Inr)
  have r': "r' = r" "db5 = db'" using eq by simp_all
  have json: "tj = canon (mr_value t)" "rj = canon (mr_value r)"
    using j by (auto simp: canonical_json_def res_simps)
  have t: "spec_find i st = Some t" "t \<in> set (st_records st)" "mr_memory_id t = i"
    using req by (auto simp: require_memory_spec [OF rep] dest: spec_find_some split: option.splits)
  obtain reason where reason: "mr_revision_reason r = Some reason" "exact_text_ok reason"
    using ok(1) r(2) by (auto simp: memory_record_ok_def)
  have "stored_ok (retire Superseded (mr_created_at r) (mr_revision_reason r) x)"
    if x: "x \<in> set (st_records st)" "mr_memory_id x = i" for x
  proof -
    have "x = t" using unique_find [OF dist x(1)] x(2) t(1) by simp
    then show ?thesis
      using represents_stored [OF rep x(1)] ok time reason
      by (auto simp: memory_record_ok_def python_record_def intro!: stored_ok_retire)
  qed
  then have 1: "represents (st\<lparr>st_records := retire_in i Superseded (mr_created_at r)
      (mr_revision_reason r) (st_records st)\<rparr>) db1"
    using update_status_spec [OF rep, of Superseded] up by simp
  note 2 = insert_memory_spec [OF 1 ok ins]
  note 3 = resolve_conflicts_spec [OF 2(1) res]
  let ?rs = "retire_in i Superseded (mr_created_at r) (mr_revision_reason r) (st_records st)"
  let ?cs = "resolve i (mr_created_at r) (Some (mr_memory_id r)) (st_conflicts st)"
  let ?one = "if tj \<noteq> rj then [conflict_between (ids 0) i (mr_memory_id r) (mr_created_at r)
    (Some (mr_created_at r)) (Some (mr_memory_id r))] else []"
  have "represents \<lparr>st_records = ?rs @ [stored_record r], st_conflicts = ?cs @ ?one\<rparr> db4"
    using 3 confl t(3) by (auto simp: represents_def dest!: insert_conflict_spec(1) split: if_splits)
  from create_unresolved_spec [OF this new]
  have "represents (spec_correct ids t r st) (ss_database s')"
    by (simp add: spec_correct_def Let_def s' r'(2) t(3) json contradicting_def opposed_def represents_def)
  moreover have "mr_memory_id r \<notin> mr_memory_id ` set (st_records st)"
    using 2(2) by simp
  ultimately show ?thesis
    using t r r' act key time 2(3) s' by (intro that) simp_all
qed

lemma retract_memory_spec:
  assumes rep: "represents st (ss_database s)" and dist: "distinct (map mr_memory_id (st_records st))"
    and time: "instant_ok at_time"
    and retr: "retract_stored_memory i reason at_time s = (Inr r', s')"
  obtains t where "spec_find i st = Some t" "mr_status t = Active" "exact_text_ok reason"
    "utc_ok at_time" "\<not> dt_before at_time (mr_created_at t)" "ss_open s' = ss_open s"
    "represents (spec_retract i reason at_time st) (ss_database s')"
proof -
  have texts: "exact_text_ok reason" "utc_ok at_time"
    using retr by (auto simp: retract_stored_memory_def validate_nonempty_text_def utc_ok_def
        validate_utc_datetime_def res_simps split: sum.splits if_splits)
  obtain t n db1 db2 where req: "require_memory i (ss_database s) = Inr t" and act: "mr_status t = Active"
    and before: "\<not> dt_before at_time (mr_created_at t)"
    and up: "update_status ''retracted'' (utc_text at_time) (Some reason) (uuid_str i) ''active''
      (ss_database s) = Inr (n, db1)"
    and res: "resolve_conflicts i at_time None db1 = Inr db2" and s': "s' = s\<lparr>ss_database := db2\<rparr>"
    using retr
    by (auto simp: retract_stored_memory_def transaction_Inr retraction_def res_simps
        split: sum.splits)
  have t: "spec_find i st = Some t" "t \<in> set (st_records st)" "mr_memory_id t = i"
    using req by (auto simp: require_memory_spec [OF rep] dest: spec_find_some split: option.splits)
  have "stored_ok (retire Retracted at_time (Some reason) x)"
    if x: "x \<in> set (st_records st)" "mr_memory_id x = i" for x
  proof -
    have "x = t" using unique_find [OF dist x(1)] x(2) t(1) by simp
    then show ?thesis
      using represents_stored [OF rep x(1)] texts time before by (auto intro!: stored_ok_retire)
  qed
  then have "represents (st\<lparr>st_records := retire_in i Retracted at_time (Some reason) (st_records st)\<rparr>) db1"
    using update_status_spec [OF rep, of Retracted] up by simp
  from resolve_conflicts_spec [OF this res]
  have "represents (spec_retract i reason at_time st) (ss_database s')"
    by (simp add: spec_retract_def s' represents_def)
  with t act before texts show ?thesis by (intro that) (simp_all add: s')
qed

end
