(* ===== verification/Memory_Invariant.thy ===== *)
theory Memory_Invariant
  imports Memory_Refinement
begin

text \<open>
  The invariant of Memory OS: the open conflicts are exactly the contradictions between active
  memories, and the revisions form chains.
\<close>

section \<open>Contradictions and open conflicts\<close>

definition contradict :: "memory_record \<Rightarrow> memory_record \<Rightarrow> bool" where
  "contradict a b \<longleftrightarrow>
     memory_key a = memory_key b \<and> mr_status a = Active \<and> mr_status b = Active \<and>
     canon (mr_value a) \<noteq> canon (mr_value b)"

definition contradictions :: "memory_record list \<Rightarrow> uuid set set" where
  "contradictions rs =
     {{mr_memory_id a, mr_memory_id b} |a b. a \<in> set rs \<and> b \<in> set rs \<and> contradict a b}"

definition conflict_pair :: "stored_conflict \<Rightarrow> uuid set" where
  "conflict_pair c = {sc_left c, sc_right c}"

definition open_pairs :: "stored_conflict list \<Rightarrow> uuid set set" where
  "open_pairs cs = conflict_pair ` {c \<in> set cs. sc_resolved_at c = None}"

lemma conflict_between_sel [simp]:
  "conflict_pair (conflict_between n a b t res rid) = {a, b}"
  "sc_id (conflict_between n a b t res rid) = n"
  "sc_created_at (conflict_between n a b t res rid) = t"
  "sc_resolved_at (conflict_between n a b t res rid) = res"
  "sc_resolution_id (conflict_between n a b t res rid) = rid"
  by (auto simp: conflict_between_def conflict_pair_def)

lemma open_pairs_simps [simp]:
  "open_pairs [] = {}"
  "open_pairs (c # cs) =
     (if sc_resolved_at c = None then insert (conflict_pair c) (open_pairs cs) else open_pairs cs)"
  "open_pairs (cs @ ds) = open_pairs cs \<union> open_pairs ds"
proof -
  show Cons: "open_pairs (c # cs) =
     (if sc_resolved_at c = None then insert (conflict_pair c) (open_pairs cs) else open_pairs cs)" for c cs
    by (auto simp: open_pairs_def)
  show "open_pairs [] = {}" by (simp add: open_pairs_def)
  then show "open_pairs (cs @ ds) = open_pairs cs \<union> open_pairs ds"
    by (induction cs) (auto simp: Cons)
qed

lemma open_pairs_resolve: "open_pairs (resolve i t x cs) = {p \<in> open_pairs cs. i \<notin> p}"
proof (induction cs)
  case (Cons c cs)
  have "touches i c \<longleftrightarrow> sc_resolved_at c = None \<and> i \<in> conflict_pair c"
    by (auto simp: touches_def conflict_pair_def)
  moreover have "{p \<in> insert q A. i \<notin> p} =
      (if i \<in> q then {p \<in> A. i \<notin> p} else insert q {p \<in> A. i \<notin> p})" for q A by auto
  ultimately show ?case
    using Cons by (cases "sc_resolved_at c"; cases "i \<in> conflict_pair c") (simp_all add: resolve_def)
qed (simp add: resolve_def)

lemma open_pairs_new:
  "open_pairs (new_conflicts ids r as) = (\<lambda>a. {mr_memory_id a, mr_memory_id r}) ` set as"
  by (induction ids r as rule: new_conflicts.induct) simp_all

lemma contradictions_retire:
  assumes "status \<noteq> Active"
  shows "contradictions (retire_in i status t reason rs) = {p \<in> contradictions rs. i \<notin> p}"
proof -
  let ?f = "\<lambda>r. if mr_memory_id r = i \<and> mr_status r = Active then retire status t reason r else r"
  have "a \<in> set (retire_in i status t reason rs) \<and> mr_status a = Active \<longleftrightarrow>
      a \<in> set rs \<and> mr_status a = Active \<and> mr_memory_id a \<noteq> i" for a
    using assms by (auto simp: retire_in_def image_iff)
  then show ?thesis
    unfolding contradictions_def contradict_def by blast
qed

declare canon_normal [simp]

lemma stored_record_canon [simp]: "canon (mr_value (stored_record r)) = canon (mr_value r)"
  by (simp del: canon.simps)

lemma memory_key_stored [simp]: "memory_key (stored_record r) = memory_key r"
  by (simp add: memory_key_def)

lemma contradicting_set: "set (contradicting r rs) = {a \<in> set rs. opposed r a}"
  by (simp add: contradicting_def)

lemma contradictions_add:
  assumes "mr_status r = Active" "mr_memory_id r \<notin> mr_memory_id ` set rs"
  shows "contradictions (rs @ [stored_record r]) =
    contradictions rs \<union> (\<lambda>a. {mr_memory_id a, mr_memory_id r}) ` set (contradicting r rs)"
proof -
  have one: "contradict a (stored_record r) \<longleftrightarrow> opposed r a" "contradict (stored_record r) a \<longleftrightarrow> opposed r a"
    if "a \<in> set rs" for a
  proof -
    have "mr_memory_id a \<noteq> mr_memory_id r" using assms(2) that by (metis image_eqI)
    then show "contradict a (stored_record r) \<longleftrightarrow> opposed r a"
      "contradict (stored_record r) a \<longleftrightarrow> opposed r a"
      using assms(1) unfolding contradict_def opposed_def stored_record_canon by auto
  qed
  have self: "\<not> contradict (stored_record r) (stored_record r)" by (simp add: contradict_def)
  show ?thesis
  proof (intro equalityI subsetI)
    fix p assume "p \<in> contradictions (rs @ [stored_record r])"
    then show "p \<in> contradictions rs \<union> (\<lambda>a. {mr_memory_id a, mr_memory_id r}) ` set (contradicting r rs)"
      using one self by (auto simp: contradictions_def contradicting_set)
  next
    fix p assume "p \<in> contradictions rs \<union> (\<lambda>a. {mr_memory_id a, mr_memory_id r}) ` set (contradicting r rs)"
    then consider "p \<in> contradictions rs"
      | a where "a \<in> set rs" "opposed r a" "p = {mr_memory_id a, mr_memory_id (stored_record r)}"
      by (auto simp: contradicting_set)
    then show "p \<in> contradictions (rs @ [stored_record r])"
    proof cases
      case (2 a)
      with one show ?thesis
        unfolding contradictions_def by (intro CollectI exI [of _ a] exI [of _ "stored_record r"]) simp
    qed (auto simp: contradictions_def)
  qed
qed

section \<open>The invariant\<close>

text \<open>A conflict, open or resolved, is between two stored memories that differ.\<close>

definition conflict_sound :: "memory_record list \<Rightarrow> stored_conflict \<Rightarrow> bool" where
  "conflict_sound rs c \<longleftrightarrow>
     uuid_str (sc_left c) < uuid_str (sc_right c) \<and>
     (\<exists>a \<in> set rs. \<exists>b \<in> set rs. sc_left c = mr_memory_id a \<and> sc_right c = mr_memory_id b \<and>
        memory_key a = memory_key b \<and> canon (mr_value a) \<noteq> canon (mr_value b))"

text \<open>A revision comes after the superseded memory that it replaces.\<close>

definition revision_links :: "memory_record list \<Rightarrow> bool" where
  "revision_links rs \<longleftrightarrow>
     (\<forall>xs r ys p. rs = xs @ r # ys \<longrightarrow> mr_supersedes r = Some p \<longrightarrow>
        (\<exists>q \<in> set xs. mr_memory_id q = p \<and> mr_status q = Superseded \<and>
           memory_key q = memory_key r \<and> \<not> dt_before (mr_created_at r) (mr_created_at q)))"

definition one_successor :: "memory_record list \<Rightarrow> bool" where
  "one_successor rs \<longleftrightarrow>
     (\<forall>a \<in> set rs. \<forall>b \<in> set rs. \<forall>p. mr_supersedes a = Some p \<longrightarrow> mr_supersedes b = Some p \<longrightarrow>
        mr_memory_id a = mr_memory_id b)"

definition superseded_replaced :: "memory_record list \<Rightarrow> bool" where
  "superseded_replaced rs \<longleftrightarrow>
     (\<forall>q \<in> set rs. mr_status q = Superseded \<longrightarrow> Some (mr_memory_id q) \<in> mr_supersedes ` set rs)"

definition memory_inv :: "memory_state \<Rightarrow> bool" where
  "memory_inv st \<longleftrightarrow>
     distinct (map mr_memory_id (st_records st)) \<and>
     list_all (stored_conflict_ok st) (st_conflicts st) \<and>
     list_all (conflict_sound (st_records st)) (st_conflicts st) \<and>
     distinct (map conflict_pair (st_conflicts st)) \<and>
     open_pairs (st_conflicts st) = contradictions (st_records st) \<and>
     revision_links (st_records st) \<and> one_successor (st_records st) \<and>
     superseded_replaced (st_records st)"

section \<open>A memory is retired\<close>

lemma resolve_map [simp]:
  "map conflict_pair (resolve i t x cs) = map conflict_pair cs"
  "map sc_id (resolve i t x cs) = map sc_id cs"
  "conflict_pair ` set (resolve i t x cs) = conflict_pair ` set cs"
  "sc_id ` set (resolve i t x cs) = sc_id ` set cs"
proof -
  show eqs: "map conflict_pair (resolve i t x cs) = map conflict_pair cs"
    "map sc_id (resolve i t x cs) = map sc_id cs"
    by (simp_all add: resolve_def conflict_pair_def)
  show "conflict_pair ` set (resolve i t x cs) = conflict_pair ` set cs"
    "sc_id ` set (resolve i t x cs) = sc_id ` set cs"
    using eqs by (metis list.set_map)+
qed

lemma resolve_sound:
  assumes "list_all (conflict_sound rs) cs"
  shows "list_all (conflict_sound (retire_in i status t reason rs)) (resolve i t x cs)"
proof -
  have "conflict_sound (retire_in i status t reason rs) c" if sound: "conflict_sound rs c" for c
  proof -
    let ?f = "\<lambda>r. if mr_memory_id r = i \<and> mr_status r = Active then retire status t reason r else r"
    obtain a b where ab: "a \<in> set rs" "b \<in> set rs" "sc_left c = mr_memory_id a"
      "sc_right c = mr_memory_id b" "memory_key a = memory_key b" "canon (mr_value a) \<noteq> canon (mr_value b)"
      and ord: "uuid_str (sc_left c) < uuid_str (sc_right c)"
      using sound unfolding conflict_sound_def by blast
    have "?f a \<in> set (retire_in i status t reason rs)" "?f b \<in> set (retire_in i status t reason rs)"
      using ab(1,2) by (simp_all add: retire_in_def)
    moreover have "sc_left c = mr_memory_id (?f a)" "sc_right c = mr_memory_id (?f b)"
      "memory_key (?f a) = memory_key (?f b)" "canon (mr_value (?f a)) \<noteq> canon (mr_value (?f b))"
      using ab by simp_all
    ultimately show ?thesis using ord unfolding conflict_sound_def by blast
  qed
  moreover have "conflict_sound rs' (if touches i c
      then c\<lparr>sc_resolved_at := Some t, sc_resolution_id := x\<rparr> else c) = conflict_sound rs' c" for rs' c
    by (simp add: conflict_sound_def)
  then have "list_all (conflict_sound rs') (resolve i t x cs) = list_all (conflict_sound rs') cs" for rs'
    by (simp add: resolve_def list.pred_map o_def)
  ultimately show ?thesis
    using assms by (simp add: list_all_iff)
qed

lemma resolve_conflicts_ok:
  assumes "list_all (stored_conflict_ok st) cs" "instant_ok t" "utc_ok t"
    and "mr_memory_id ` set (st_records st) \<subseteq> mr_memory_id ` set (st_records st')"
  shows "list_all (stored_conflict_ok st') (resolve i t x cs)"
  using assms by (auto simp: resolve_def list_all_iff stored_conflict_ok_def)

lemma retire_links:
  assumes "revision_links rs"
  shows "revision_links (retire_in i status t reason rs)"
  unfolding revision_links_def
proof (intro allI impI)
  fix xs r ys p
  assume eq: "retire_in i status t reason rs = xs @ r # ys" and p: "mr_supersedes r = Some p"
  let ?f = "\<lambda>r. if mr_memory_id r = i \<and> mr_status r = Active then retire status t reason r else r"
  obtain us u vs where rs: "rs = us @ u # vs" "xs = map ?f us" "r = ?f u"
    using eq by (auto simp: retire_in_def map_eq_append_conv Cons_eq_map_conv)
  have "mr_supersedes u = Some p" using p rs(3) by (auto split: if_splits)
  then obtain q where q: "q \<in> set us" "mr_memory_id q = p" "mr_status q = Superseded"
    "memory_key q = memory_key u" "\<not> dt_before (mr_created_at u) (mr_created_at q)"
    using assms rs(1) unfolding revision_links_def by blast
  then have "q \<in> set xs" using rs(2) by (force simp: image_iff)
  with q rs(3) show "\<exists>q \<in> set xs. mr_memory_id q = p \<and> mr_status q = Superseded \<and>
      memory_key q = memory_key r \<and> \<not> dt_before (mr_created_at r) (mr_created_at q)"
    by (intro bexI [of _ q]) auto
qed

lemma retire_in_elem:
  assumes "x \<in> set (retire_in i status t reason rs)"
  obtains r where "r \<in> set rs" "mr_memory_id x = mr_memory_id r" "mr_supersedes x = mr_supersedes r"
    "mr_status x = mr_status r \<or> mr_status x = status"
  using assms by (auto simp: retire_in_def split: if_splits)

lemma retire_in_supersedes [simp]:
  "map mr_supersedes (retire_in i status t reason rs) = map mr_supersedes rs"
  "mr_supersedes ` set (retire_in i status t reason rs) = mr_supersedes ` set rs"
proof -
  show eq: "map mr_supersedes (retire_in i status t reason rs) = map mr_supersedes rs"
    by (simp add: retire_in_def)
  then show "mr_supersedes ` set (retire_in i status t reason rs) = mr_supersedes ` set rs"
    by (metis list.set_map)
qed

lemma retire_one_successor:
  assumes "one_successor rs"
  shows "one_successor (retire_in i status t reason rs)"
  unfolding one_successor_def
proof (intro ballI allI impI)
  fix a b p
  assume "a \<in> set (retire_in i status t reason rs)" "b \<in> set (retire_in i status t reason rs)"
    and p: "mr_supersedes a = Some p" "mr_supersedes b = Some p"
  then obtain a' b' where "a' \<in> set rs" "mr_memory_id a = mr_memory_id a'"
    "mr_supersedes a = mr_supersedes a'" "b' \<in> set rs" "mr_memory_id b = mr_memory_id b'"
    "mr_supersedes b = mr_supersedes b'"
    by (elim retire_in_elem) metis
  with assms p show "mr_memory_id a = mr_memory_id b" unfolding one_successor_def by metis
qed

lemma retire_replaced:
  assumes "superseded_replaced rs" "status \<noteq> Superseded"
  shows "superseded_replaced (retire_in i status t reason rs)"
  unfolding superseded_replaced_def
proof (intro ballI impI)
  fix q
  assume q: "q \<in> set (retire_in i status t reason rs)" "mr_status q = Superseded"
  from q(1) obtain r where "r \<in> set rs" "mr_memory_id q = mr_memory_id r"
    "mr_status q = mr_status r \<or> mr_status q = status" by (rule retire_in_elem)
  with assms q(2) show "Some (mr_memory_id q) \<in> mr_supersedes ` set (retire_in i status t reason rs)"
    by (auto simp: superseded_replaced_def)
qed

lemma retract_inv:
  assumes inv: "memory_inv st" and t: "instant_ok t" "utc_ok t"
  shows "memory_inv (spec_retract i reason t st)"
  using inv resolve_conflicts_ok [of st "st_conflicts st" t "spec_retract i reason t st" i None]
    resolve_sound [of "st_records st" "st_conflicts st" i Retracted t "Some reason" None]
    retire_links [of "st_records st"] retire_one_successor [of "st_records st"]
    retire_replaced [of "st_records st" Retracted] t
  by (simp add: memory_inv_def spec_retract_def open_pairs_resolve contradictions_retire)

section \<open>A memory is added\<close>

lemma conflict_sound_pair: "conflict_sound rs c \<Longrightarrow> conflict_pair c \<subseteq> mr_memory_id ` set rs"
  by (auto simp: conflict_sound_def conflict_pair_def)

lemma conflict_soundI:
  "a \<in> set rs \<Longrightarrow> b \<in> set rs \<Longrightarrow> sc_left c = mr_memory_id a \<Longrightarrow> sc_right c = mr_memory_id b \<Longrightarrow>
   memory_key a = memory_key b \<Longrightarrow> canon (mr_value a) \<noteq> canon (mr_value b) \<Longrightarrow>
   uuid_str (sc_left c) < uuid_str (sc_right c) \<Longrightarrow> conflict_sound rs c"
  unfolding conflict_sound_def by blast

lemma conflict_between_sound:
  assumes "a \<in> set rs" "b \<in> set rs" "mr_memory_id a \<noteq> mr_memory_id b"
    and "memory_key a = memory_key b" "canon (mr_value a) \<noteq> canon (mr_value b)"
  shows "conflict_sound rs (conflict_between n (mr_memory_id a) (mr_memory_id b) t res rid)"
proof -
  have "uuid_str (mr_memory_id a) < uuid_str (mr_memory_id b) \<or>
      uuid_str (mr_memory_id b) < uuid_str (mr_memory_id a)"
    using assms(3) by (simp add: neq_iff flip: uuid_str_inject)
  then show ?thesis
  proof
    assume "uuid_str (mr_memory_id a) < uuid_str (mr_memory_id b)"
    with assms show ?thesis by (intro conflict_soundI [of a rs b]) (auto simp: conflict_between_def)
  next
    assume "uuid_str (mr_memory_id b) < uuid_str (mr_memory_id a)"
    with assms show ?thesis by (intro conflict_soundI [of b rs a]) (auto simp: conflict_between_def)
  qed
qed

lemma conflict_between_ok:
  assumes "i \<in> mr_memory_id ` set (st_records st)" "j \<in> mr_memory_id ` set (st_records st)" "i \<noteq> j"
    and "instant_ok t" "utc_ok t" "case res of None \<Rightarrow> True | Some t \<Rightarrow> instant_ok t \<and> utc_ok t"
    and "rid \<noteq> None \<longrightarrow> res \<noteq> None"
  shows "stored_conflict_ok st (conflict_between n i j t res rid)"
  using assms unfolding stored_conflict_ok_def by (simp add: conflict_between_def)

lemma conflict_sound_mono: "conflict_sound rs c \<Longrightarrow> set rs \<subseteq> set rs' \<Longrightarrow> conflict_sound rs' c"
  unfolding conflict_sound_def by blast

lemma new_conflicts_sound:
  assumes "set as \<subseteq> {a \<in> set rs. opposed r a}"
  shows "list_all (conflict_sound (rs @ [stored_record r])) (new_conflicts ids r as)"
  using assms
proof (induction ids r as rule: new_conflicts.induct)
  case (2 ids r a as)
  then have "conflict_sound (rs @ [stored_record r]) (conflict_between (ids 0) (mr_memory_id a)
      (mr_memory_id (stored_record r)) (mr_created_at r) None None)"
    by (intro conflict_between_sound) (auto simp: opposed_def simp del: stored_record_sel(5))
  with 2 show ?case by simp
qed simp

lemma new_conflicts_ok:
  assumes "set as \<subseteq> {a \<in> set (st_records st). opposed r a}" "r' \<in> set (st_records st)"
    and "mr_memory_id r' = mr_memory_id r" "instant_ok (mr_created_at r)" "utc_ok (mr_created_at r)"
  shows "list_all (stored_conflict_ok st) (new_conflicts ids r as)"
  using assms
proof (induction ids r as rule: new_conflicts.induct)
  case (2 ids r a as)
  then have "stored_conflict_ok st
      (conflict_between (ids 0) (mr_memory_id a) (mr_memory_id r) (mr_created_at r) None None)"
    by (intro conflict_between_ok) (auto simp: opposed_def intro: rev_image_eqI)
  with 2 show ?case by simp
qed simp

lemma new_conflicts_pairs:
  "map conflict_pair (new_conflicts ids r as) = map (\<lambda>a. {mr_memory_id a, mr_memory_id r}) as"
  by (induction ids r as rule: new_conflicts.induct) simp_all

lemma new_pairs_distinct:
  assumes "distinct (map mr_memory_id as)" "mr_memory_id r \<notin> mr_memory_id ` set as"
  shows "distinct (map (\<lambda>a. {mr_memory_id a, mr_memory_id r}) as)"
  using assms
proof (induction as)
  case (Cons a as)
  have "{mr_memory_id a, mr_memory_id r} \<noteq> {mr_memory_id b, mr_memory_id r}" if "b \<in> set as" for b
    using Cons.prems that by (auto simp: doubleton_eq_iff)
  with Cons show ?case by auto
qed simp

lemma contradicting_distinct:
  "distinct (map mr_memory_id rs) \<Longrightarrow> distinct (map mr_memory_id (contradicting r rs))"
  by (simp add: contradicting_def distinct_map_filter)

text \<open>Adding a memory to sound conflicts, whose pairs it does not touch yet.\<close>

lemma add_conflicts:
  assumes rs: "distinct (map mr_memory_id rs)" and act: "mr_status r = Active"
    and fresh: "mr_memory_id r \<notin> mr_memory_id ` set rs"
    and cs: "list_all (conflict_sound rs) cs" "distinct (map conflict_pair cs)"
      "open_pairs cs = contradictions rs"
  shows "list_all (conflict_sound (rs @ [stored_record r])) (cs @ new_conflicts ids r (contradicting r rs))"
    "distinct (map conflict_pair (cs @ new_conflicts ids r (contradicting r rs)))"
    "open_pairs (cs @ new_conflicts ids r (contradicting r rs)) = contradictions (rs @ [stored_record r])"
proof -
  show "list_all (conflict_sound (rs @ [stored_record r])) (cs @ new_conflicts ids r (contradicting r rs))"
    using cs(1) new_conflicts_sound [of "contradicting r rs" rs r ids]
    by (auto simp: list_all_iff contradicting_set intro: conflict_sound_mono)
  have "mr_memory_id r \<notin> conflict_pair c" if "c \<in> set cs" for c
    using that cs(1) fresh conflict_sound_pair unfolding list_all_iff by blast
  moreover have "distinct (map (\<lambda>a. {mr_memory_id a, mr_memory_id r}) (contradicting r rs))"
    using contradicting_distinct [OF rs, of r] fresh
    by (intro new_pairs_distinct) (auto simp: contradicting_set)
  ultimately show "distinct (map conflict_pair (cs @ new_conflicts ids r (contradicting r rs)))"
    using cs(2) by (auto simp: new_conflicts_pairs)
  show "open_pairs (cs @ new_conflicts ids r (contradicting r rs)) = contradictions (rs @ [stored_record r])"
    by (simp only: open_pairs_simps open_pairs_new contradictions_add [OF act fresh] cs(3))
qed

lemma add_links:
  assumes "revision_links rs"
    and "\<And>p. mr_supersedes r = Some p \<Longrightarrow> \<exists>q \<in> set rs. mr_memory_id q = p \<and>
      mr_status q = Superseded \<and> memory_key q = memory_key r \<and>
      \<not> dt_before (mr_created_at r) (mr_created_at q)"
  shows "revision_links (rs @ [stored_record r])"
  unfolding revision_links_def
proof (intro allI impI)
  fix xs u ys p
  assume eq: "rs @ [stored_record r] = xs @ u # ys" and p: "mr_supersedes u = Some p"
  show "\<exists>q \<in> set xs. mr_memory_id q = p \<and> mr_status q = Superseded \<and>
      memory_key q = memory_key u \<and> \<not> dt_before (mr_created_at u) (mr_created_at q)"
  proof (cases ys rule: rev_cases)
    case Nil
    with eq have "xs = rs" "u = stored_record r" by simp_all
    with assms(2) p show ?thesis by simp
  next
    case (snoc zs z)
    with eq have "rs = xs @ u # zs" by simp
    with assms(1) p show ?thesis unfolding revision_links_def by blast
  qed
qed

lemma add_one_successor:
  assumes "one_successor rs" "\<And>p a. mr_supersedes r = Some p \<Longrightarrow> a \<in> set rs \<Longrightarrow> mr_supersedes a \<noteq> Some p"
  shows "one_successor (rs @ [stored_record r])"
  unfolding one_successor_def
proof (intro ballI allI impI)
  fix a b p
  assume a: "a \<in> set (rs @ [stored_record r])" "mr_supersedes a = Some p"
    and b: "b \<in> set (rs @ [stored_record r])" "mr_supersedes b = Some p"
  show "mr_memory_id a = mr_memory_id b"
  proof (cases "a \<in> set rs \<and> b \<in> set rs")
    case True
    with assms(1) a(2) b(2) show ?thesis unfolding one_successor_def by metis
  next
    case False
    then have "mr_supersedes r = Some p" using a b by auto
    then have "a \<notin> set rs" "b \<notin> set rs" using assms(2) a(2) b(2) by blast+
    with a(1) b(1) show ?thesis by simp
  qed
qed

lemma add_inv:
  assumes inv: "memory_inv st" and act: "mr_status r = Active" "mr_supersedes r = None"
    and fresh: "mr_memory_id r \<notin> mr_memory_id ` set (st_records st)"
    and t: "instant_ok (mr_created_at r)" "utc_ok (mr_created_at r)"
  shows "memory_inv (spec_add ids r st)"
proof -
  let ?rs = "st_records st" and ?st = "spec_add ids r st"
  have st: "st_records ?st = ?rs @ [stored_record r]"
    "st_conflicts ?st = st_conflicts st @ new_conflicts ids r (contradicting r ?rs)"
    by (simp_all add: spec_add_def)
  have "list_all (stored_conflict_ok ?st) (st_conflicts st)"
    using inv by (auto simp: memory_inv_def list_all_iff stored_conflict_ok_def st(1))
  moreover have "list_all (stored_conflict_ok ?st) (new_conflicts ids r (contradicting r ?rs))"
    by (rule new_conflicts_ok [of _ _ _ "stored_record r"])
      (use t in \<open>auto simp: st(1) contradicting_set\<close>)
  moreover have "superseded_replaced (?rs @ [stored_record r])"
    using inv act(1) by (auto simp: memory_inv_def superseded_replaced_def)
  moreover have "revision_links (?rs @ [stored_record r])" "one_successor (?rs @ [stored_record r])"
    using inv act by (auto simp: memory_inv_def intro!: add_links add_one_successor)
  ultimately show ?thesis
    using inv add_conflicts [OF _ act(1) fresh, of "st_conflicts st" ids] fresh
    by (simp add: memory_inv_def st)
qed

lemma correct_inv:
  assumes inv: "memory_inv st" and t: "t \<in> set (st_records st)" "mr_status t = Active"
    and r: "mr_status r = Active" "mr_supersedes r = Some (mr_memory_id t)"
      "memory_key r = memory_key t" "\<not> dt_before (mr_created_at r) (mr_created_at t)"
    and fresh: "mr_memory_id r \<notin> mr_memory_id ` set (st_records st)"
    and time: "instant_ok (mr_created_at r)" "utc_ok (mr_created_at r)"
  shows "memory_inv (spec_correct ids t r st)"
proof -
  let ?i = "mr_memory_id t" and ?now = "mr_created_at r" and ?j = "mr_memory_id r"
  let ?rs = "retire_in ?i Superseded ?now (mr_revision_reason r) (st_records st)"
  let ?differ = "canon (mr_value t) \<noteq> canon (mr_value r)"
  let ?old = "resolve ?i ?now (Some ?j) (st_conflicts st)"
  let ?one = "if ?differ then [conflict_between (ids 0) ?i ?j ?now (Some ?now) (Some ?j)] else []"
  let ?ids = "if ?differ then (\<lambda>k. ids (Suc k)) else ids"
  let ?new = "new_conflicts ?ids r (contradicting r ?rs)"
  let ?st = "spec_correct ids t r st"
  let ?q = "retire Superseded ?now (mr_revision_reason r) t"
  have st: "st_records ?st = ?rs @ [stored_record r]" "st_conflicts ?st = ?old @ ?one @ ?new"
    by (simp_all add: spec_correct_def Let_def)
  have q: "?q \<in> set ?rs" "mr_memory_id ?q = ?i" "mr_status ?q = Superseded"
    using t by (auto simp: retire_in_def image_iff)
  have dist: "distinct (map mr_memory_id ?rs)" "?j \<notin> mr_memory_id ` set ?rs"
    using inv fresh by (simp_all add: memory_inv_def)
  have old: "list_all (stored_conflict_ok ?st) ?old"
    using inv time by (intro resolve_conflicts_ok [of st]) (auto simp: memory_inv_def st(1))
  have new: "list_all (stored_conflict_ok ?st) ?new"
    by (rule new_conflicts_ok [of _ _ _ "stored_record r"])
      (use time in \<open>auto simp: st(1) contradicting_set\<close>)
  have ij: "?i \<noteq> ?j" using t(1) fresh by (metis image_eqI)
  have "stored_conflict_ok ?st (conflict_between (ids 0) ?i ?j ?now (Some ?now) (Some ?j))"
    by (rule conflict_between_ok) (use t(1) ij time in \<open>auto simp: st(1)\<close>)
  then have one: "list_all (stored_conflict_ok ?st) ?one" by simp
  have sound: "conflict_sound (?rs @ [stored_record r])
      (conflict_between (ids 0) ?i ?j ?now (Some ?now) (Some ?j))" if ?differ
    using conflict_between_sound [of ?q "?rs @ [stored_record r]" "stored_record r" "ids 0" ?now
        "Some ?now" "Some ?j"] q(1) ij r(3) that
    by simp
  have replaced: "superseded_replaced (?rs @ [stored_record r])"
    unfolding superseded_replaced_def
  proof (intro ballI impI)
    fix u assume u: "u \<in> set (?rs @ [stored_record r])" "mr_status u = Superseded"
    with r(1) have "u \<in> set ?rs" by auto
    then consider "u \<in> set (st_records st)" | "mr_memory_id u = ?i" by (auto simp: retire_in_def split: if_splits)
    then show "Some (mr_memory_id u) \<in> mr_supersedes ` set (?rs @ [stored_record r])"
      by cases (use inv u r(2) in \<open>auto simp: memory_inv_def superseded_replaced_def\<close>)
  qed
  have links: "revision_links (?rs @ [stored_record r])"
  proof (rule add_links)
    show "revision_links ?rs" using inv by (simp add: memory_inv_def retire_links)
    show "\<exists>q \<in> set ?rs. mr_memory_id q = p \<and> mr_status q = Superseded \<and>
        memory_key q = memory_key r \<and> \<not> dt_before ?now (mr_created_at q)" if "mr_supersedes r = Some p" for p
      using that r by (intro bexI [OF _ q(1)]) simp
  qed
  have successor: "one_successor (?rs @ [stored_record r])"
  proof (rule add_one_successor)
    show "one_successor ?rs" using inv by (simp add: memory_inv_def retire_one_successor)
    show "mr_supersedes a \<noteq> Some p" if "mr_supersedes r = Some p" "a \<in> set ?rs" for p a
    proof
      assume a: "mr_supersedes a = Some p"
      from that(2) obtain b where b: "b \<in> set (st_records st)" "mr_supersedes b = mr_supersedes a"
        by (rule retire_in_elem) metis
      then have "mr_supersedes b = Some ?i" using a that(1) r(2) by simp
      then obtain u where "u \<in> set (st_records st)" "mr_memory_id u = ?i" "mr_status u = Superseded"
        using inv split_list [OF b(1)] unfolding memory_inv_def revision_links_def by (metis Un_iff set_append)
      then show False using inv t unique_find by (metis memory_inv_def memory_status.distinct(1) option.inject)
    qed
  qed
  have cs: "list_all (conflict_sound ?rs) ?old" "distinct (map conflict_pair ?old)"
    "open_pairs ?old = contradictions ?rs"
    using inv resolve_sound [of "st_records st" "st_conflicts st"]
    by (simp_all add: memory_inv_def open_pairs_resolve contradictions_retire)
  note all = add_conflicts [OF dist(1) r(1) dist(2) cs, of ?ids]
  have "{?i, ?j} \<notin> conflict_pair ` set ?old"
    using cs(1) dist(2) conflict_sound_pair unfolding list_all_iff by blast
  moreover have "{?i, ?j} \<notin> conflict_pair ` set ?new"
  proof -
    have "mr_memory_id a \<noteq> ?i" if "a \<in> set (contradicting r ?rs)" for a
      using that by (auto simp: contradicting_set opposed_def retire_in_def)
    moreover have "conflict_pair ` set ?new =
        (\<lambda>a. {mr_memory_id a, ?j}) ` set (contradicting r ?rs)"
      by (simp only: new_conflicts_pairs flip: set_map)
    ultimately show ?thesis using ij by (simp add: image_iff doubleton_eq_iff) metis
  qed
  ultimately have pairs: "distinct (map conflict_pair (?old @ ?one @ ?new))" using all(2) by auto
  have opens: "open_pairs (?old @ ?one @ ?new) = contradictions (?rs @ [stored_record r])"
    using all(3) by (simp split: if_splits)
  have sounds: "list_all (conflict_sound (?rs @ [stored_record r])) (?old @ ?one @ ?new)"
    using all(1) sound by simp
  show ?thesis
    unfolding memory_inv_def st
    using old one new sounds pairs opens links successor replaced dist by simp
qed

end
