(* ===== verification/Memory_Service.thy ===== *)
theory Memory_Service
  imports Memory_Invariant
begin

text \<open>
  The service of Memory OS (\<open>memory/service.py\<close>) over the SQLite store, the stores that a program can
  reach through it, and the invariant of these stores.
\<close>

section \<open>The operations\<close>

text \<open>What the clock, the factory of identifiers and \<open>uuid4\<close> return during a call.\<close>

record surroundings =
  su_now :: py_datetime
  su_id :: uuid
  su_uuids :: "nat \<Rightarrow> uuid"

definition current_time :: "surroundings \<Rightarrow> py_datetime res" where
  "current_time u = tryE (validate_utc_datetime (su_now u)) (\<lambda>_. Inr (su_now u))"

definition correction_types :: "provenance_type list" where
  "correction_types = [ExplicitOwnerStatement, TrustedManualImport]"

text \<open>Checks before a call of the store: when one raises, the store is not touched.\<close>

definition checked :: "'a res \<Rightarrow> ('a \<Rightarrow> 's \<Rightarrow> 'b res \<times> 's) \<Rightarrow> 's \<Rightarrow> 'b res \<times> 's" where
  "checked r k s = (case r of Inl e \<Rightarrow> (Inl e, s) | Inr v \<Rightarrow> k v s)"

definition new_memory ::
  "surroundings \<Rightarrow> memory_type \<Rightarrow> string \<Rightarrow> string \<Rightarrow> pyval \<Rightarrow> provenance \<Rightarrow> pyval \<Rightarrow> py_datetime \<Rightarrow>
   (pykey \<times> pyval) list option \<Rightarrow> memory_record res" where
  "new_memory u mtype subject predicate val prov confidence observed_at metadata =
     tryE (current_time u) (\<lambda>created_at.
     check_memory_record
       \<lparr>mr_memory_id = su_id u, mr_memory_type = mtype, mr_subject = subject,
        mr_predicate = predicate, mr_value = val, mr_provenance = prov, mr_confidence = confidence,
        mr_observed_at = observed_at, mr_created_at = created_at, mr_status = Active,
        mr_status_changed_at = created_at, mr_supersedes = None, mr_revision_reason = None,
        mr_status_reason = None,
        mr_metadata = (case metadata of None \<Rightarrow> [] | Some m \<Rightarrow> m)\<rparr>)"

definition create_memory ::
  "surroundings \<Rightarrow> memory_type \<Rightarrow> string \<Rightarrow> string \<Rightarrow> pyval \<Rightarrow> provenance \<Rightarrow> pyval \<Rightarrow> py_datetime \<Rightarrow>
   (pykey \<times> pyval) list option \<Rightarrow> memory_store \<Rightarrow> memory_record res \<times> memory_store" where
  "create_memory u mtype subject predicate val prov confidence observed_at metadata =
     checked (new_memory u mtype subject predicate val prov confidence observed_at metadata)
       (add_memory (su_uuids u))"

definition get_memory :: "uuid \<Rightarrow> memory_store \<Rightarrow> memory_record res" where
  "get_memory i s =
     tryE (get_stored_memory i s) (\<lambda>found.
     case found of None \<Rightarrow> Inl (MemoryExn MemoryNotFoundError) | Some r \<Rightarrow> Inr r)"

definition query_memories ::
  "memory_type option \<Rightarrow> string option \<Rightarrow> string option \<Rightarrow> bool \<Rightarrow> memory_store \<Rightarrow>
   memory_record list res" where
  "query_memories mtype subject predicate active_only s =
     tryE (check_memory_query
       \<lparr>mq_memory_type = mtype, mq_subject = subject, mq_predicate = predicate,
        mq_active_only = active_only\<rparr>) (\<lambda>q.
     query_stored_memories q s)"

definition replacement_memory ::
  "surroundings \<Rightarrow> uuid \<Rightarrow> pyval \<Rightarrow> provenance \<Rightarrow> pyval \<Rightarrow> py_datetime \<Rightarrow> string \<Rightarrow>
   (pykey \<times> pyval) list option \<Rightarrow> memory_store \<Rightarrow> (uuid \<times> memory_record) res" where
  "replacement_memory u i val prov confidence observed_at reason metadata s =
     tryE (get_memory i s) (\<lambda>target.
     raise_if (mr_status target = Retracted) (MemoryExn AlreadyRetractedError)
    (raise_if (mr_status target \<noteq> Active) (MemoryExn InvalidCorrectionTargetError)
    (raise_if (pv_type prov \<notin> set correction_types) invalid_provenance
    (tryE (validate_nonempty_text reason) (\<lambda>_.
     tryE (current_time u) (\<lambda>created_at.
     tryE (check_memory_record
       \<lparr>mr_memory_id = su_id u, mr_memory_type = mr_memory_type target,
        mr_subject = mr_subject target, mr_predicate = mr_predicate target,
        mr_value = val, mr_provenance = prov, mr_confidence = confidence,
        mr_observed_at = observed_at, mr_created_at = created_at, mr_status = Active,
        mr_status_changed_at = created_at, mr_supersedes = Some (mr_memory_id target),
        mr_revision_reason = Some reason, mr_status_reason = None,
        mr_metadata = (case metadata of None \<Rightarrow> mr_metadata target | Some m \<Rightarrow> m)\<rparr>)
       (\<lambda>replacement. Inr (mr_memory_id target, replacement))))))))"

definition correct_memory ::
  "surroundings \<Rightarrow> uuid \<Rightarrow> pyval \<Rightarrow> provenance \<Rightarrow> pyval \<Rightarrow> py_datetime \<Rightarrow> string \<Rightarrow>
   (pykey \<times> pyval) list option \<Rightarrow> memory_store \<Rightarrow> memory_record res \<times> memory_store" where
  "correct_memory u i val prov confidence observed_at reason metadata s =
     checked (replacement_memory u i val prov confidence observed_at reason metadata s)
       (\<lambda>(target_id, replacement). correct_stored_memory (su_uuids u) target_id replacement) s"

definition retract_memory ::
  "surroundings \<Rightarrow> uuid \<Rightarrow> string \<Rightarrow> memory_store \<Rightarrow> memory_record res \<times> memory_store" where
  "retract_memory u i reason =
     checked (tryE (validate_nonempty_text reason) (\<lambda>_. current_time u))
       (retract_stored_memory i reason)"

definition get_revision_history :: "uuid \<Rightarrow> memory_store \<Rightarrow> memory_record list res option" where
  "get_revision_history i s = stored_revision_history i s"

definition list_conflicts ::
  "string option \<Rightarrow> string option \<Rightarrow> bool \<Rightarrow> memory_store \<Rightarrow> memory_conflict list res" where
  "list_conflicts subject predicate include_resolved s =
     list_stored_conflicts subject predicate include_resolved s"

section \<open>Identifiers of conflicts\<close>

text \<open>They are a primary key: no statement of the store makes two of them equal.\<close>

definition conflict_ids_distinct :: "database \<Rightarrow> bool" where
  "conflict_ids_distinct db \<longleftrightarrow> distinct (map fw_conflict_id (db_conflicts db))"

lemma insert_conflict_row_ids:
  "insert_conflict_row c db = Inr db' \<Longrightarrow> conflict_ids_distinct db \<Longrightarrow> conflict_ids_distinct db'"
  by (auto simp: insert_conflict_row_def conflict_ids_distinct_def res_simps)

lemma insert_conflict_ids:
  "insert_conflict n a b t res rid db = Inr db' \<Longrightarrow> conflict_ids_distinct db \<Longrightarrow> conflict_ids_distinct db'"
  by (auto simp: insert_conflict_def res_simps intro: insert_conflict_row_ids)

lemma insert_conflicts_ids:
  "insert_conflicts ids r v ws db = Inr db' \<Longrightarrow> conflict_ids_distinct db \<Longrightarrow> conflict_ids_distinct db'"
  by (induction ids r v ws db rule: insert_conflicts.induct)
    (auto simp: res_simps split: if_splits dest: insert_conflict_ids)

lemma create_unresolved_ids:
  "create_unresolved_conflicts ids r db = Inr db' \<Longrightarrow> conflict_ids_distinct db \<Longrightarrow>
   conflict_ids_distinct db'"
  by (auto simp: create_unresolved_conflicts_def res_simps intro: insert_conflicts_ids)

lemma insert_memory_ids:
  "insert_memory r db = Inr db' \<Longrightarrow> conflict_ids_distinct db' = conflict_ids_distinct db"
  by (auto simp: insert_memory_def insert_memory_row_def conflict_ids_distinct_def res_simps)

lemma update_status_ids:
  "update_status st t reason i e db = Inr (n, db') \<Longrightarrow> conflict_ids_distinct db' = conflict_ids_distinct db"
  by (auto simp: update_status_def conflict_ids_distinct_def res_simps Let_def)

lemma resolve_conflicts_ids:
  assumes "resolve_conflicts i t rid db = Inr db'"
  shows "conflict_ids_distinct db' = conflict_ids_distinct db"
proof -
  have "map fw_conflict_id (db_conflicts db') = map fw_conflict_id (db_conflicts db)"
    using assms by (auto simp: resolve_conflicts_def update_resolved_def res_simps Let_def)
  then show ?thesis by (simp add: conflict_ids_distinct_def)
qed

lemmas statement_ids = insert_memory_ids update_status_ids resolve_conflicts_ids

lemma add_memory_ids:
  assumes "add_memory ids r s = (Inr r', s')" "conflict_ids_distinct (ss_database s)"
  shows "conflict_ids_distinct (ss_database s')"
  using assms create_unresolved_ids statement_ids
  by (auto simp: add_memory_def transaction_Inr res_simps split: if_splits)

lemma correct_stored_memory_ids:
  assumes "correct_stored_memory ids i r s = (Inr r', s')" "conflict_ids_distinct (ss_database s)"
  shows "conflict_ids_distinct (ss_database s')"
proof -
  obtain db' where c: "correction ids i r (ss_database s) = Inr (r', db')"
    and s': "s' = s\<lparr>ss_database := db'\<rparr>"
    using assms(1) by (auto simp: correct_stored_memory_def transaction_Inr split: if_splits)
  from c show ?thesis
    by (rule correction_Inr)
      (use assms(2) s' in \<open>auto dest!: statement_ids create_unresolved_ids insert_conflict_ids split: if_splits\<close>)
qed

lemma retract_stored_memory_ids:
  assumes "retract_stored_memory i reason t s = (Inr r', s')" "conflict_ids_distinct (ss_database s)"
  shows "conflict_ids_distinct (ss_database s')"
  using assms
  by (auto simp: retract_stored_memory_def retraction_def transaction_Inr res_simps
      split: sum.splits dest!: statement_ids)

end
