(* ===== verification/Memory_Reachable.thy ===== *)
theory Memory_Reachable
  imports Memory_Service
begin

text \<open>
  The stores that a program reaches through the service: the invariant of Memory OS holds in all of
  them, and every mutation is the abstract mutation of the state that the tables represent.
\<close>

section \<open>The state in the tables\<close>

definition conflict_of_row :: "conflict_row \<Rightarrow> stored_conflict" where
  "conflict_of_row c =
     \<lparr>sc_id = uuid_from_text (fw_conflict_id c), sc_left = uuid_from_text (fw_left_id c),
      sc_right = uuid_from_text (fw_right_id c),
      sc_created_at = datetime_from_text (fw_created_at c),
      sc_resolved_at = map_option datetime_from_text (fw_resolved_at c),
      sc_resolution_id = map_option uuid_from_text (fw_resolution_id c)\<rparr>"

definition state_of :: "database \<Rightarrow> memory_state" where
  "state_of db =
     \<lparr>st_records = map (\<lambda>w. projr (memory_from_row w)) (db_memories db),
      st_conflicts = map conflict_of_row (db_conflicts db)\<rparr>"

abbreviation memory_state :: "memory_store \<Rightarrow> memory_state" where
  "memory_state s \<equiv> state_of (ss_database s)"

lemma conflict_of_row [simp]:
  assumes "stored_conflict_ok st c"
  shows "conflict_of_row (conflict_row_of c) = c"
proof -
  have "map_option uuid_from_text (map_option uuid_str u) = u" for u
    by (simp add: option.map_comp o_def option.map_ident)
  moreover have "map_option datetime_from_text (map_option utc_text (sc_resolved_at c)) = sc_resolved_at c"
    using assms by (auto simp: stored_conflict_ok_def split: option.splits)
  ultimately show ?thesis
    using assms by (simp add: conflict_of_row_def conflict_row_of_def stored_conflict_ok_def)
qed

lemma represents_state_of:
  assumes "represents st db" "memory_inv st"
  shows "state_of db = st"
proof -
  have "map (\<lambda>r. projr (memory_from_row (row_of r))) (st_records st) = map id (st_records st)"
    using assms(1) by (intro map_cong) (auto simp: represents_def list_all_iff memory_from_row_of)
  moreover have "map (\<lambda>c. conflict_of_row (conflict_row_of c)) (st_conflicts st) = map id (st_conflicts st)"
    using assms(2) by (intro map_cong) (auto simp: memory_inv_def list_all_iff)
  ultimately show ?thesis
    using assms(1) by (simp add: state_of_def represents_def o_def)
qed

definition store_inv :: "memory_store \<Rightarrow> bool" where
  "store_inv s \<longleftrightarrow>
     represents (memory_state s) (ss_database s) \<and> memory_inv (memory_state s) \<and>
     conflict_ids_distinct (ss_database s)"

lemma store_invI:
  assumes "represents st (ss_database s)" "memory_inv st" "conflict_ids_distinct (ss_database s)"
  shows "store_inv s" "memory_state s = st"
  using assms represents_state_of [OF assms(1,2)] by (simp_all add: store_inv_def)

lemma store_inv_conflict_ids:
  assumes "store_inv s"
  shows "distinct (map sc_id (st_conflicts (memory_state s)))"
proof -
  have "map fw_conflict_id (db_conflicts (ss_database s)) =
      map uuid_str (map sc_id (st_conflicts (memory_state s)))"
    using assms represents_conflicts by (auto simp: store_inv_def conflict_row_of_def)
  then show ?thesis
    using assms unfolding store_inv_def conflict_ids_distinct_def
    by (metis distinct_map)
qed

section \<open>The mutations of the service\<close>

text \<open>Arguments that are Python values: dicts with distinct keys, instants with fields in range.\<close>

definition python_arguments ::
  "surroundings \<Rightarrow> pyval \<Rightarrow> provenance \<Rightarrow> py_datetime \<Rightarrow> (pykey \<times> pyval) list option \<Rightarrow> bool" where
  "python_arguments u val prov observed_at metadata \<longleftrightarrow>
     represented val \<and> represented (PDict (pv_details prov)) \<and> instant_ok observed_at \<and>
     instant_ok (su_now u) \<and>
     (case metadata of None \<Rightarrow> True | Some m \<Rightarrow> represented (PDict m))"

lemma checked_Inr:
  "checked r k s = (Inr x, s') \<longleftrightarrow> (\<exists>v. r = Inr v \<and> k v s = (Inr x, s'))"
  by (auto simp: checked_def split: sum.splits)

lemma current_time_Inr: "current_time u = Inr t \<longleftrightarrow> utc_ok (su_now u) \<and> t = su_now u"
  by (auto simp: current_time_def validate_utc_datetime_def utc_ok_def res_simps)

lemma new_memory_Inr:
  assumes "new_memory u mtype subject predicate val prov confidence observed_at metadata = Inr r"
    and "python_arguments u val prov observed_at metadata"
  shows "memory_record_ok r" "python_record r" "mr_status r = Active" "mr_supersedes r = None"
    "mr_created_at r = su_now u"
proof -
  let ?r = "\<lparr>mr_memory_id = su_id u, mr_memory_type = mtype, mr_subject = subject,
        mr_predicate = predicate, mr_value = val, mr_provenance = prov, mr_confidence = confidence,
        mr_observed_at = observed_at, mr_created_at = su_now u, mr_status = Active,
        mr_status_changed_at = su_now u, mr_supersedes = None, mr_revision_reason = None,
        mr_status_reason = None, mr_metadata = (case metadata of None \<Rightarrow> [] | Some m \<Rightarrow> m)\<rparr>"
  have "check_memory_record ?r = Inr r"
    using assms(1) by (simp add: new_memory_def tryE_Inr current_time_Inr)
  then have both: "memory_record_ok ?r \<and> r = ?r" by (simp only: check_memory_record_Inr)
  note r = conjunct2 [OF both]
  have ok: "memory_record_ok r" using both by (simp only:)
  show "memory_record_ok r" by (rule ok)
  show "mr_status r = Active" "mr_supersedes r = None" "mr_created_at r = su_now u"
    by (simp_all add: r)
  have "represented (PDict (case metadata of None \<Rightarrow> [] | Some m \<Rightarrow> m))"
    using assms(2) by (cases metadata) (simp_all add: python_arguments_def)
  then show "python_record r"
    using assms(2) by (simp add: python_record_def python_arguments_def r del: represented.simps)
qed

text \<open>A mutation that raises leaves the store as it was: the transaction is rolled back.\<close>

lemma rolled_back:
  assumes "as_persistence_conflict (transaction body s) = (Inl e, s')"
  shows "s' = s"
proof -
  have "s' = snd (transaction body s)"
    using assms as_persistence_conflict_state [of "transaction body s"] by simp
  moreover have "\<exists>x. fst (transaction body s) = Inl x"
    using assms by (cases "transaction body s"; cases "fst (transaction body s)")
      (auto simp: as_persistence_conflict_def)
  ultimately show ?thesis by (metis prod.collapse transaction_Inl)
qed

lemma add_memory_raises: "add_memory ids r s = (Inl e, s') \<Longrightarrow> s' = s"
  unfolding add_memory_def by (split if_split_asm) (simp, erule rolled_back)

lemma correct_stored_memory_raises: "correct_stored_memory ids i r s = (Inl e, s') \<Longrightarrow> s' = s"
  unfolding correct_stored_memory_def by (split if_split_asm) (simp, erule rolled_back)

lemma retract_stored_memory_raises: "retract_stored_memory i reason t s = (Inl e, s') \<Longrightarrow> s' = s"
  unfolding retract_stored_memory_def by (split sum.split_asm) (simp, erule transaction_Inl)

lemmas mutation_raises = add_memory_raises correct_stored_memory_raises retract_stored_memory_raises

lemma service_raises:
  "create_memory u mtype subject predicate val prov conf obs metadata s = (Inl e, s') \<Longrightarrow> s' = s"
  "correct_memory u i val prov conf obs reason metadata s = (Inl e, s') \<Longrightarrow> s' = s"
  "retract_memory u i reason s = (Inl e, s') \<Longrightarrow> s' = s"
  by (auto simp: create_memory_def correct_memory_def retract_memory_def checked_def
      dest: mutation_raises split: sum.splits)

lemma create_memory_step:
  assumes inv: "store_inv s" and args: "python_arguments u val prov observed_at metadata"
    and create: "create_memory u mtype subject predicate val prov confidence observed_at metadata s =
      (Inr r, s')"
  shows "store_inv s'" "memory_state s' = spec_add (su_uuids u) r (memory_state s)"
    "new_memory u mtype subject predicate val prov confidence observed_at metadata = Inr r"
    "mr_memory_id r \<notin> mr_memory_id ` set (st_records (memory_state s))" "ss_open s' = ss_open s"
proof -
  obtain q where q: "new_memory u mtype subject predicate val prov confidence observed_at metadata = Inr q"
    and add: "add_memory (su_uuids u) q s = (Inr r, s')"
    using create by (auto simp: create_memory_def checked_Inr)
  note new = new_memory_Inr [OF q args]
  have rep: "represents (memory_state s) (ss_database s)" and ids: "conflict_ids_distinct (ss_database s)"
    using inv by (simp_all add: store_inv_def)
  note spec = add_memory_spec [OF rep new(1,2) add]
  have "memory_inv (spec_add (su_uuids u) r (memory_state s))"
    using inv new spec args
    by (intro add_inv) (auto simp: store_inv_def memory_record_ok_def python_arguments_def)
  then show "store_inv s'" "memory_state s' = spec_add (su_uuids u) r (memory_state s)"
    using spec(1,2) add_memory_ids [OF add ids] by (auto intro: store_invI)
  show "new_memory u mtype subject predicate val prov confidence observed_at metadata = Inr r"
    "mr_memory_id r \<notin> mr_memory_id ` set (st_records (memory_state s))" "ss_open s' = ss_open s"
    using q spec(2,3,6) by simp_all
qed

lemma get_memory_spec:
  assumes "represents st (ss_database s)" "ss_open s"
  shows "get_memory i s = (case spec_find i st of
    None \<Rightarrow> Inl (MemoryExn MemoryNotFoundError) | Some r \<Rightarrow> Inr r)"
  using assms by (simp add: get_memory_def get_stored_memory_def with_connection_def find_memory_spec)

lemma correct_memory_step:
  assumes inv: "store_inv s" and args: "python_arguments u val prov observed_at metadata"
    and correct: "correct_memory u i val prov confidence observed_at reason metadata s = (Inr r, s')"
  obtains t where "spec_find i (memory_state s) = Some t" "mr_status t = Active"
    "replacement_memory u i val prov confidence observed_at reason metadata s = Inr (i, r)"
    "mr_memory_id r \<notin> mr_memory_id ` set (st_records (memory_state s))"
    "memory_state s' = spec_correct (su_uuids u) t r (memory_state s)" "store_inv s'"
    "ss_open s' = ss_open s"
proof -
  obtain j q where q: "replacement_memory u i val prov confidence observed_at reason metadata s = Inr (j, q)"
    and corr: "correct_stored_memory (su_uuids u) j q s = (Inr r, s')"
    using correct by (auto simp: correct_memory_def checked_Inr)
  have rep: "represents (memory_state s) (ss_database s)" and ids: "conflict_ids_distinct (ss_database s)"
    and minv: "memory_inv (memory_state s)"
    using inv by (simp_all add: store_inv_def)
  have dist: "distinct (map mr_memory_id (st_records (memory_state s)))"
    using minv by (simp add: memory_inv_def)
  have "ss_open s" using corr by (auto simp: correct_stored_memory_def transaction_Inr split: if_splits)
  then obtain t where t: "spec_find i (memory_state s) = Some t" and ok: "memory_record_ok q"
    and fields: "mr_value q = val" "mr_provenance q = prov" "mr_observed_at q = observed_at"
      "mr_created_at q = su_now u" "mr_status_changed_at q = su_now u"
      "mr_metadata q = (case metadata of None \<Rightarrow> mr_metadata t | Some m \<Rightarrow> m)"
    and j: "j = mr_memory_id t"
    using q by (auto simp: replacement_memory_def get_memory_spec [OF rep] res_simps current_time_Inr
        check_memory_record_Inr split: option.splits)
  have "printable_record t" using t represents_stored [OF rep] by (auto simp: stored_ok_def dest: spec_find_some)
  then have "represented (PDict (mr_metadata t))"
    by (auto simp: printable_record_def simp del: represented.simps printable.simps
        intro: printable_represented)
  then have py: "python_record q"
    using args fields by (auto simp: python_record_def python_arguments_def simp del: represented.simps
        split: option.splits)
  have ij: "j = i" using t j by (auto dest: spec_find_some)
  from correct_memory_spec [OF rep dist ok py corr] obtain t' where
    t': "spec_find j (memory_state s) = Some t'" "mr_status t' = Active" "mr_status q = Active"
      "mr_supersedes q = Some j" "memory_key q = memory_key t'"
      "\<not> dt_before (mr_created_at q) (mr_created_at t')"
      "mr_memory_id q \<notin> mr_memory_id ` set (st_records (memory_state s))"
      "r = q" "ss_open s' = ss_open s"
      "represents (spec_correct (su_uuids u) t' q (memory_state s)) (ss_database s')" by metis
  have "t' = t" using t t'(1) ij by simp
  have "memory_inv (spec_correct (su_uuids u) t q (memory_state s))"
    using minv t t' \<open>t' = t\<close> ij ok args fields
    by (intro correct_inv)
      (auto simp: memory_record_ok_def python_arguments_def dest: spec_find_some)
  then show ?thesis
    using t t' \<open>t' = t\<close> q ij correct_stored_memory_ids [OF corr ids]
    by (intro that [OF t]) (auto intro: store_invI)
qed

lemma retract_memory_step:
  assumes inv: "store_inv s" and time: "instant_ok (su_now u)"
    and retract: "retract_memory u i reason s = (Inr r, s')"
  obtains t where "spec_find i (memory_state s) = Some t" "mr_status t = Active"
    "\<not> dt_before (su_now u) (mr_created_at t)"
    "memory_state s' = spec_retract i reason (su_now u) (memory_state s)" "store_inv s'"
    "ss_open s' = ss_open s"
proof -
  have rep: "represents (memory_state s) (ss_database s)" and ids: "conflict_ids_distinct (ss_database s)"
    and minv: "memory_inv (memory_state s)"
    using inv by (simp_all add: store_inv_def)
  have dist: "distinct (map mr_memory_id (st_records (memory_state s)))"
    using minv by (simp add: memory_inv_def)
  have retr: "retract_stored_memory i reason (su_now u) s = (Inr r, s')"
    using retract by (auto simp: retract_memory_def checked_Inr res_simps current_time_Inr)
  from retract_memory_spec [OF rep dist time retr] obtain t where
    t: "spec_find i (memory_state s) = Some t" "mr_status t = Active" "utc_ok (su_now u)"
      "\<not> dt_before (su_now u) (mr_created_at t)" "ss_open s' = ss_open s"
      "represents (spec_retract i reason (su_now u) (memory_state s)) (ss_database s')" by metis
  note inv' = retract_inv [OF minv time t(3), of i reason]
  show ?thesis
    using t store_invI [OF t(6) inv' retract_stored_memory_ids [OF retr ids]] by (intro that) auto
qed

section \<open>Reachable stores\<close>

text \<open>
  One call of the service that may change the store, whether it returns or raises, and the stores that
  a program reaches from a new database by such calls.
\<close>

inductive memory_step :: "memory_store \<Rightarrow> memory_store \<Rightarrow> bool" where
  step_create: "python_arguments u val prov observed_at metadata \<Longrightarrow>
    create_memory u mtype subject predicate val prov confidence observed_at metadata s = (out, s') \<Longrightarrow>
    memory_step s s'"
| step_correct: "python_arguments u val prov observed_at metadata \<Longrightarrow>
    correct_memory u i val prov confidence observed_at reason metadata s = (out, s') \<Longrightarrow>
    memory_step s s'"
| step_retract: "instant_ok (su_now u) \<Longrightarrow> retract_memory u i reason s = (out, s') \<Longrightarrow>
    memory_step s s'"
| step_close: "memory_step s (close_store s)"

abbreviation later_store :: "memory_store \<Rightarrow> memory_store \<Rightarrow> bool" where
  "later_store \<equiv> memory_step\<^sup>*\<^sup>*"

definition reachable_store :: "memory_store \<Rightarrow> bool" where
  "reachable_store s \<longleftrightarrow> later_store new_store s"

text \<open>The effect of a step: nothing, one of the three abstract mutations, or closing.\<close>

lemma memory_step_cases:
  assumes "memory_step s s'" "store_inv s"
  obtains "s' = s" | "s' = close_store s"
  | ids r where "store_inv s'" "memory_state s' = spec_add ids r (memory_state s)" "ss_open s' = ss_open s"
  | ids t r where "store_inv s'" "memory_state s' = spec_correct ids t r (memory_state s)"
      "ss_open s' = ss_open s"
  | i reason t where "store_inv s'" "memory_state s' = spec_retract i reason t (memory_state s)"
      "ss_open s' = ss_open s"
  using assms(1)
proof cases
  case (step_create u val prov observed_at metadata mtype subject predicate confidence out)
  show ?thesis
  proof (cases out)
    case (Inl e)
    with step_create show ?thesis using service_raises(1) that(1) by metis
  next
    case (Inr r)
    with step_create show ?thesis
      using create_memory_step(1,2,5) [OF assms(2)] that(3) by metis
  qed
next
  case (step_correct u val prov observed_at metadata i confidence reason out)
  show ?thesis
  proof (cases out)
    case (Inl e)
    with step_correct show ?thesis using service_raises(2) that(1) by metis
  next
    case (Inr r)
    with step_correct show ?thesis using correct_memory_step [OF assms(2)] that(4) by metis
  qed
next
  case (step_retract u i reason out)
  show ?thesis
  proof (cases out)
    case (Inl e)
    with step_retract show ?thesis using service_raises(3) that(1) by metis
  next
    case (Inr r)
    with step_retract show ?thesis using retract_memory_step [OF assms(2)] that(5) by metis
  qed
next
  case step_close
  then show ?thesis by (rule that(2))
qed

lemma close_store_inv [simp]: "store_inv (close_store s) = store_inv s" "memory_state (close_store s) = memory_state s"
  "ss_open (close_store s) = False"
  by (simp_all add: store_inv_def close_store_def)

lemma memory_step_inv: "memory_step s s' \<Longrightarrow> store_inv s \<Longrightarrow> store_inv s'"
  by (erule memory_step_cases) auto

lemma later_store_inv: "later_store s s' \<Longrightarrow> store_inv s \<Longrightarrow> store_inv s'"
  by (induction rule: rtranclp_induct) (auto intro: memory_step_inv)

lemma new_store_inv: "store_inv new_store"
proof (rule store_invI)
  let ?st = "\<lparr>st_records = [], st_conflicts = []\<rparr>"
  show "represents ?st (ss_database new_store)" by (simp add: represents_def new_store_def)
  show "memory_inv ?st"
    by (simp add: memory_inv_def contradictions_def revision_links_def one_successor_def
        superseded_replaced_def)
qed (simp add: conflict_ids_distinct_def new_store_def)

lemma reachable_store_inv: "reachable_store s \<Longrightarrow> store_inv s"
  using later_store_inv new_store_inv unfolding reachable_store_def by blast

text \<open>A conflict stays in the table, with its identifier and its two memories.\<close>

definition conflict_name :: "stored_conflict \<Rightarrow> uuid \<times> uuid \<times> uuid" where
  "conflict_name c = (sc_id c, sc_left c, sc_right c)"

definition conflict_names :: "memory_store \<Rightarrow> (uuid \<times> uuid \<times> uuid) set" where
  "conflict_names s = conflict_name ` set (st_conflicts (memory_state s))"

lemma resolve_names: "conflict_name ` set (resolve i t x cs) = conflict_name ` set cs"
proof -
  have "map conflict_name (resolve i t x cs) = map conflict_name cs"
    by (simp add: resolve_def conflict_name_def)
  then show ?thesis by (metis list.set_map)
qed

lemma memory_step_names:
  assumes "memory_step s s'" "store_inv s"
  shows "conflict_names s \<subseteq> conflict_names s'"
  using assms
proof (cases rule: memory_step_cases)
  case (3 ids r)
  show ?thesis unfolding conflict_names_def 3(2) spec_add_def by auto
next
  case (4 ids t r)
  have "conflict_name ` set (st_conflicts (memory_state s)) \<subseteq>
      conflict_name ` set (st_conflicts (spec_correct ids t r (memory_state s)))"
    unfolding spec_correct_def Let_def memory_state.select_convs set_append image_Un resolve_names
    by (rule Un_upper1)
  then show ?thesis unfolding conflict_names_def 4(2) .
next
  case (5 i reason t)
  show ?thesis unfolding conflict_names_def 5(2) spec_retract_def by (simp add: resolve_names)
qed (simp_all add: conflict_names_def)

lemma later_store_names:
  assumes "later_store s s'" "store_inv s"
  shows "conflict_names s \<subseteq> conflict_names s' \<and> (ss_open s' \<longrightarrow> ss_open s)"
  using assms(1)
proof (induction rule: rtranclp_induct)
  case (step t u)
  have inv: "store_inv t" using step.hyps(1) assms(2) by (rule later_store_inv)
  have "ss_open u \<longrightarrow> ss_open t" using step.hyps(2) inv by (cases rule: memory_step_cases) auto
  then show ?case using step.IH memory_step_names [OF step.hyps(2) inv] by blast
qed simp

section \<open>Nothing is forgotten\<close>

text \<open>A stored memory stays as it is but for its status, which leaves \<open>active\<close> once.\<close>

definition same_or_retired :: "memory_record \<Rightarrow> memory_record \<Rightarrow> bool" where
  "same_or_retired r r' \<longleftrightarrow> r' = r \<or>
     mr_status r = Active \<and> (\<exists>status t reason. status \<noteq> Active \<and> r' = retire status t reason r)"

lemma same_or_retired_trans:
  "same_or_retired r r' \<Longrightarrow> same_or_retired r' r'' \<Longrightarrow> same_or_retired r r''"
  by (auto simp: same_or_retired_def)

lemma retire_in_keeps:
  assumes "r \<in> set rs" "status \<noteq> Active"
  shows "\<exists>r' \<in> set (retire_in i status t reason rs). same_or_retired r r'"
proof -
  let ?r = "if mr_memory_id r = i \<and> mr_status r = Active then retire status t reason r else r"
  have "?r \<in> set (retire_in i status t reason rs)" using assms(1) by (simp add: retire_in_def)
  moreover have "same_or_retired r ?r" using assms(2) by (auto simp: same_or_retired_def)
  ultimately show ?thesis by blast
qed

lemma memory_step_records:
  assumes "memory_step s s'" "store_inv s" and r: "r \<in> set (st_records (memory_state s))"
  shows "\<exists>r' \<in> set (st_records (memory_state s')). same_or_retired r r'"
  using assms(1,2)
proof (cases rule: memory_step_cases)
  case (3 ids q)
  then show ?thesis using r by (auto simp: spec_add_def same_or_retired_def)
next
  case (4 ids t q)
  obtain r' where "r' \<in> set (retire_in (mr_memory_id t) Superseded (mr_created_at q)
      (mr_revision_reason q) (st_records (memory_state s)))" "same_or_retired r r'"
    using retire_in_keeps [OF r] by blast
  then show ?thesis unfolding 4(2) spec_correct_def Let_def by auto
next
  case (5 i reason t)
  then show ?thesis using retire_in_keeps [OF r] by (simp add: spec_retract_def)
qed (use r in \<open>auto simp: same_or_retired_def\<close>)

lemma later_store_records:
  assumes "later_store s s'" "store_inv s" and r: "r \<in> set (st_records (memory_state s))"
  shows "\<exists>r' \<in> set (st_records (memory_state s')). same_or_retired r r'"
  using assms(1)
proof (induction rule: rtranclp_induct)
  case base
  show ?case using r by (auto simp: same_or_retired_def)
next
  case (step t u)
  have inv: "store_inv t" using step.hyps(1) assms(2) by (rule later_store_inv)
  obtain q where "q \<in> set (st_records (memory_state t))" "same_or_retired r q" using step.IH by blast
  then show ?case using memory_step_records [OF step.hyps(2) inv] same_or_retired_trans by blast
qed

section \<open>Open conflicts of a state\<close>

abbreviation text_of :: "memory_record \<Rightarrow> string" where
  "text_of r \<equiv> canon (mr_value r)"

definition open_conflict :: "memory_record list \<Rightarrow> memory_conflict \<Rightarrow> bool" where
  "open_conflict ms c \<longleftrightarrow>
     mc_left c \<in> set ms \<and> mc_right c \<in> set ms \<and> mc_resolved_at c = None \<and>
     memory_key (mc_left c) = memory_key (mc_right c) \<and> text_of (mc_left c) \<noteq> text_of (mc_right c)"

text \<open>The two memories of a conflict that is open.\<close>

lemma open_conflict_sides:
  assumes inv: "memory_inv st" and c: "c \<in> set (st_conflicts st)" "sc_resolved_at c = None"
  obtains a b where "a \<in> set (st_records st)" "b \<in> set (st_records st)" "contradict a b"
    "sc_left c = mr_memory_id a" "sc_right c = mr_memory_id b"
    "spec_find (sc_left c) st = Some a" "spec_find (sc_right c) st = Some b"
proof -
  have dist: "distinct (map mr_memory_id (st_records st))" using inv by (simp add: memory_inv_def)
  have ids: "x = y" if "x \<in> set (st_records st)" "y \<in> set (st_records st)" "mr_memory_id x = mr_memory_id y" for x y
    using dist that by (auto simp: distinct_map dest: inj_onD)
  obtain a b where ab: "a \<in> set (st_records st)" "b \<in> set (st_records st)" "sc_left c = mr_memory_id a"
    "sc_right c = mr_memory_id b" "memory_key a = memory_key b" "text_of a \<noteq> text_of b"
    using inv c(1) by (auto simp: memory_inv_def list_all_iff conflict_sound_def)
  have "conflict_pair c \<in> contradictions (st_records st)"
    using inv c by (auto simp: memory_inv_def open_pairs_def)
  then obtain x y where xy: "x \<in> set (st_records st)" "y \<in> set (st_records st)" "contradict x y"
    "{mr_memory_id a, mr_memory_id b} = {mr_memory_id x, mr_memory_id y}"
    using ab(3,4) by (auto simp: contradictions_def conflict_pair_def)
  then have "mr_status a = Active" "mr_status b = Active"
    using ab(1,2) ids by (auto simp: doubleton_eq_iff contradict_def)
  then have "contradict a b" using ab by (simp add: contradict_def)
  then show ?thesis
    using that [of a b] ab unique_find [OF dist] by simp
qed

text \<open>The contradictions that a memory adds to a list.\<close>

lemma contradictions_Cons:
  "contradictions (l # rs) =
     (\<lambda>r. {mr_memory_id l, mr_memory_id r}) ` {r \<in> set rs. contradict l r} \<union> contradictions rs"
proof (intro equalityI subsetI)
  fix p assume "p \<in> contradictions (l # rs)"
  then obtain a b where ab: "a = l \<or> a \<in> set rs" "b = l \<or> b \<in> set rs" "contradict a b"
    "p = {mr_memory_id a, mr_memory_id b}" by (auto simp: contradictions_def)
  have irrefl: "\<not> contradict l l" and sym: "contradict b a" using ab(3) by (auto simp: contradict_def)
  consider "a \<in> set rs" "b \<in> set rs" | "a = l" "b \<in> set rs" | "b = l" "a \<in> set rs"
    using ab irrefl by metis
  then show "p \<in> (\<lambda>r. {mr_memory_id l, mr_memory_id r}) ` {r \<in> set rs. contradict l r} \<union> contradictions rs"
  proof cases
    case 3
    then have "p = {mr_memory_id l, mr_memory_id a}" using ab(4) by auto
    then show ?thesis using 3 sym by auto
  qed (use ab in \<open>auto simp: contradictions_def\<close>)
qed (auto simp: contradictions_def)

end
