(* ===== verification/Memory_History.thy ===== *)
theory Memory_History
  imports Memory_Reachable
begin

text \<open>
  Revision histories: on every state that satisfies the invariant the two loops of
  \<open>get_revision_history\<close> return, and the history is the chain of revisions that the memory is in.
\<close>

definition revises :: "memory_record \<Rightarrow> memory_record \<Rightarrow> bool" where
  "revises a b \<longleftrightarrow> mr_supersedes b = Some (mr_memory_id a)"

definition revision_order :: "memory_record list \<Rightarrow> (memory_record \<times> memory_record) set" where
  "revision_order rs = {(a, b). a \<in> set rs \<and> b \<in> set rs \<and> revises a b}"

definition revision_chain :: "memory_record list \<Rightarrow> bool" where
  "revision_chain h \<longleftrightarrow>
     h \<noteq> [] \<and> mr_supersedes (hd h) = None \<and> successively revises h \<and>
     mr_status (last h) \<noteq> Superseded"

lemma same_record:
  "memory_inv st \<Longrightarrow> a \<in> set (st_records st) \<Longrightarrow> b \<in> set (st_records st) \<Longrightarrow>
   mr_memory_id a = mr_memory_id b \<Longrightarrow> a = b"
  by (auto simp: memory_inv_def distinct_map inj_on_def)

text \<open>A revision stands after the memory that it revises.\<close>

lemma revises_before:
  assumes inv: "memory_inv st" and rs: "st_records st = xs @ b # ys" and p: "mr_supersedes b = Some p"
  obtains a where "a \<in> set xs" "mr_memory_id a = p" "mr_status a = Superseded"
    "memory_key a = memory_key b" "\<not> dt_before (mr_created_at b) (mr_created_at a)"
  using inv rs p unfolding memory_inv_def revision_links_def by metis

lemma revises_after:
  assumes inv: "memory_inv st" and rs: "st_records st = xs @ a # ys"
    and b: "b \<in> set (st_records st)" "revises a b"
  shows "b \<in> set ys"
proof (rule ccontr)
  assume "b \<notin> set ys"
  then have "b \<in> set (xs @ [a])" using b(1) rs by auto
  then obtain us vs where split: "xs @ [a] = us @ b # vs" by (meson split_list)
  then have all: "st_records st = us @ b # (vs @ ys)" using rs by simp
  obtain c where c: "c \<in> set us" "mr_memory_id c = mr_memory_id a"
    using revises_before [OF inv all] b(2) by (metis revises_def)
  have "c \<in> set (st_records st)" using c(1) all by simp
  moreover have "a \<in> set (st_records st)" using rs by simp
  ultimately have "c = a" using c(2) by (rule same_record [OF inv])
  have "a \<notin> set xs" using inv rs by (auto simp: memory_inv_def)
  moreover have "set us \<subseteq> set xs"
    using split by (cases vs rule: rev_cases) auto
  ultimately show False using c(1) \<open>c = a\<close> by blast
qed

lemma revises_superseded:
  assumes inv: "memory_inv st" and a: "a \<in> set (st_records st)" and b: "b \<in> set (st_records st)"
    and rev: "revises a b"
  shows "mr_status a = Superseded" "memory_key a = memory_key b"
    "\<not> dt_before (mr_created_at b) (mr_created_at a)"
proof -
  obtain xs ys where rs: "st_records st = xs @ b # ys" using b by (meson split_list)
  obtain q where q: "q \<in> set xs" "mr_memory_id q = mr_memory_id a" "mr_status q = Superseded"
    "memory_key q = memory_key b" "\<not> dt_before (mr_created_at b) (mr_created_at q)"
    using revises_before [OF inv rs] rev by (metis revises_def)
  moreover have "q = a" using q(1,2) rs a by (intro same_record [OF inv]) auto
  ultimately show "mr_status a = Superseded" "memory_key a = memory_key b"
    "\<not> dt_before (mr_created_at b) (mr_created_at a)" by auto
qed

section \<open>Back to the first revision\<close>

lemma first_revision_returns:
  assumes rep: "represents st db" and inv: "memory_inv st"
  shows "st_records st = xs @ r # ys \<Longrightarrow> set seen \<subseteq> mr_memory_id ` set ys \<Longrightarrow>
    \<exists>q \<in> set (st_records st). first_revision db seen r = Some (Inr q) \<and> mr_supersedes q = None \<and>
      (q, r) \<in> (revision_order (st_records st))\<^sup>*"
proof (induction xs arbitrary: r ys seen rule: measure_induct_rule [of length])
  case (less xs)
  show ?case
  proof (cases "mr_supersedes r")
    case None
    then show ?thesis using less.prems(1) by (intro bexI [of _ r]) (simp_all add: first_revision.simps)
  next
    case (Some p)
    obtain q where q: "q \<in> set xs" "mr_memory_id q = p"
      using revises_before [OF inv less.prems(1) Some] by metis
    obtain us vs where xs: "xs = us @ q # vs" using q(1) by (meson split_list)
    have "distinct (map mr_memory_id (xs @ r # ys))" using inv less.prems(1) by (simp add: memory_inv_def)
    then have unseen: "mr_memory_id r \<notin> set seen" using less.prems(2) by auto
    have found: "require_memory p db = Inr q"
      using unique_find [of st q] inv q less.prems(1) by (simp add: require_memory_spec [OF rep] memory_inv_def)
    have "length us < length xs" "st_records st = us @ q # (vs @ r # ys)"
      "set (mr_memory_id r # seen) \<subseteq> mr_memory_id ` set (vs @ r # ys)"
      using less.prems xs by auto
    from less.IH [OF this] obtain f where f: "f \<in> set (st_records st)"
      "first_revision db (mr_memory_id r # seen) q = Some (Inr f)" "mr_supersedes f = None"
      "(f, q) \<in> (revision_order (st_records st))\<^sup>*" by blast
    have "(q, r) \<in> revision_order (st_records st)"
      using q less.prems(1) Some by (simp add: revision_order_def revises_def)
    then have "(f, r) \<in> (revision_order (st_records st))\<^sup>*" using f(4) by (rule rtrancl_into_rtrancl [rotated])
    with f found unseen Some show ?thesis by (intro bexI [of _ f]) (simp_all add: first_revision.simps)
  qed
qed

section \<open>Forward over the successors\<close>

lemma find_successor:
  assumes "represents st db"
  shows "find (\<lambda>w. mw_supersedes_id w = Some (uuid_str i)) (db_memories db) =
    map_option row_of (find (\<lambda>r. mr_supersedes r = Some i) (st_records st))"
  by (simp add: represents_rows [OF assms] find_map map_option_eq_Some)

lemma later_revisions_returns:
  assumes rep: "represents st db" and inv: "memory_inv st"
  shows "st_records st = xs @ r # ys \<Longrightarrow> set seen \<subseteq> mr_memory_id ` set xs \<Longrightarrow>
    \<exists>h. later_revisions db seen history r = Some (Inr (history @ r # h)) \<and>
      set (r # h) = {x. (r, x) \<in> (revision_order (st_records st))\<^sup>*} \<and>
      successively revises (r # h) \<and> mr_status (last (r # h)) \<noteq> Superseded"
proof (induction ys arbitrary: r xs seen history rule: measure_induct_rule [of length])
  case (less ys)
  let ?rs = "st_records st"
  have "distinct (map mr_memory_id (xs @ r # ys))" using inv less.prems(1) by (simp add: memory_inv_def)
  then have unseen: "mr_memory_id r \<notin> set seen" using less.prems(2) by auto
  have step: "{x. (r, x) \<in> (revision_order ?rs)\<^sup>*} =
      insert r (\<Union>s \<in> {s \<in> set ?rs. revises r s}. {x. (s, x) \<in> (revision_order ?rs)\<^sup>*})"
    using less.prems(1)
    by (auto simp: revision_order_def elim: converse_rtranclE intro: converse_rtrancl_into_rtrancl)
  show ?case
  proof (cases "find (\<lambda>b. mr_supersedes b = Some (mr_memory_id r)) ?rs")
    case None
    then have none: "{s \<in> set ?rs. revises r s} = {}" by (auto simp: find_None_iff revises_def)
    have "r \<in> set ?rs" using less.prems(1) by simp
    then have "mr_status r \<noteq> Superseded"
      using inv none by (force simp: memory_inv_def superseded_replaced_def revises_def)
    moreover have "{x. (r, x) \<in> (revision_order ?rs)\<^sup>*} = {r}" unfolding step none by simp
    ultimately show ?thesis
      using None unseen
      by (intro exI [of _ "[]"]) (simp add: later_revisions.simps find_successor [OF rep])
  next
    case (Some s)
    then have s: "s \<in> set ?rs" "revises r s" by (auto simp: revises_def dest: find_some)
    then have "s \<in> set ys" by (intro revises_after [OF inv less.prems(1)])
    then obtain us vs where ys: "ys = us @ s # vs" by (meson split_list)
    have only: "{s \<in> set ?rs. revises r s} = {s}"
      using s inv same_record [OF inv]
      unfolding memory_inv_def one_successor_def revises_def by (blast dest: sym)
    have "length vs < length ys" "?rs = (xs @ r # us) @ s # vs"
      "set (mr_memory_id r # seen) \<subseteq> mr_memory_id ` set (xs @ r # us)"
      using less.prems ys by auto
    from less.IH [OF this, of "history @ [r]"] obtain h where
      h: "later_revisions db (mr_memory_id r # seen) (history @ [r]) s = Some (Inr ((history @ [r]) @ s # h))"
        "set (s # h) = {x. (s, x) \<in> (revision_order ?rs)\<^sup>*}" "successively revises (s # h)"
        "mr_status (last (s # h)) \<noteq> Superseded" by blast
    have row: "memory_from_row (row_of s) = Inr s"
      using represents_stored [OF rep s(1)] by (rule memory_from_row_of)
    have "set (r # s # h) = {x. (r, x) \<in> (revision_order ?rs)\<^sup>*}" using h(2) unfolding step only by simp
    then show ?thesis
      using Some unseen h s(2) row
      by (intro exI [of _ "s # h"])
        (simp add: later_revisions.simps find_successor [OF rep] del: set_simps(2))
  qed
qed

theorem revision_history_returns:
  assumes rep: "represents st db" and inv: "memory_inv st" and r: "spec_find i st = Some r"
  obtains h where "revision_history i db = Some (Inr h)" "r \<in> set h" "revision_chain h"
    "set h \<subseteq> set (st_records st)"
proof -
  have "r \<in> set (st_records st)" using r spec_find_some by blast
  then obtain xs ys where rs: "st_records st = xs @ r # ys" by (meson split_list)
  obtain q where q: "q \<in> set (st_records st)" "first_revision db [] r = Some (Inr q)"
    "mr_supersedes q = None" "(q, r) \<in> (revision_order (st_records st))\<^sup>*"
    using first_revision_returns [OF rep inv rs, of "[]"] by auto
  obtain us vs where rs': "st_records st = us @ q # vs" using q(1) by (meson split_list)
  obtain h where h: "later_revisions db [] [] q = Some (Inr ([] @ q # h))"
    "set (q # h) = {x. (q, x) \<in> (revision_order (st_records st))\<^sup>*}" "successively revises (q # h)"
    "mr_status (last (q # h)) \<noteq> Superseded"
    using later_revisions_returns [OF rep inv rs', of "[]" "[]"] by auto
  have "x \<in> set (st_records st)" if "(q, x) \<in> (revision_order (st_records st))\<^sup>*" for x
    using that q(1) by (induction rule: rtrancl_induct) (auto simp: revision_order_def)
  then have "set (q # h) \<subseteq> set (st_records st)" using h(2) by blast
  then show ?thesis
    using q h r by (intro that [of "q # h"])
      (auto simp: revision_history_def require_memory_spec [OF rep] revision_chain_def simp del: set_simps(2))
qed

end
