(* ===== verification/Memory_Properties.thy ===== *)
theory Memory_Properties
  imports Memory_History
begin

text \<open>A concrete run of Memory OS: two memories that contradict each other, and a correction.\<close>

definition day_at :: "nat \<Rightarrow> py_datetime" where
  "day_at h = \<lparr>dt_year = 1, dt_month = 1, dt_day = 1, dt_hour = h, dt_minute = 0, dt_second = 0,
     dt_microsecond = 0, dt_utcoffset = Some 0\<rparr>"

definition owner_says :: provenance where
  "owner_says = \<lparr>pv_type = ExplicitOwnerStatement, pv_source_id = ''owner'', pv_details = []\<rparr>"

definition at_hour :: "nat \<Rightarrow> uuid \<Rightarrow> uuid \<Rightarrow> surroundings" where
  "at_hour h i c = \<lparr>su_now = day_at h, su_id = i, su_uuids = (\<lambda>k. c + of_nat k)\<rparr>"

definition tea_call :: "memory_store \<Rightarrow> memory_record res \<times> memory_store" where
  "tea_call = create_memory (at_hour 8 1 100) Preference ''owner'' ''drink'' (PStr ''tea'') owner_says
     (PInt 1) (day_at 8) None"

definition coffee_call :: "memory_store \<Rightarrow> memory_record res \<times> memory_store" where
  "coffee_call = create_memory (at_hour 9 2 200) Preference ''owner'' ''drink'' (PStr ''coffee'')
     owner_says (PFloat (Finite ''0.5'')) (day_at 9) None"

definition tea_store :: memory_store where
  "tea_store = snd (tea_call new_store)"

definition two_drinks :: memory_store where
  "two_drinks = snd (coffee_call tea_store)"

lemma two_drinks_value:
  "ss_open two_drinks \<and>
   map (\<lambda>c. (uuid_from_text (fw_left_id c), uuid_from_text (fw_right_id c), fw_resolved_at c))
     (db_conflicts (ss_database two_drinks)) = [(1, 2, None)] \<and>
   map (\<lambda>w. (uuid_from_text (mw_memory_id w), mw_value_json w)) (db_memories (ss_database two_drinks)) =
     [(1, canon (PStr ''tea'')), (2, canon (PStr ''coffee''))]"
  by code_simp

text \<open>The tea is corrected by a clock that has gone back to before the conflict was recorded.\<close>

definition milk_call :: "memory_store \<Rightarrow> memory_record res \<times> memory_store" where
  "milk_call = correct_memory (at_hour 8 3 300) 1 (PStr ''milk'') owner_says (PInt 1) (day_at 8)
     ''changed'' None"

definition three_drinks :: memory_store where
  "three_drinks = snd (milk_call two_drinks)"

lemma three_drinks_value:
  "list_conflicts None None True three_drinks = Inl invalid_memory_data \<and>
   map_prod id ss_open (milk_call two_drinks) = (Inr \<lparr>mr_memory_id = 3, mr_memory_type = Preference,
     mr_subject = ''owner'', mr_predicate = ''drink'', mr_value = PStr ''milk'',
     mr_provenance = owner_says, mr_confidence = PInt 1, mr_observed_at = day_at 8,
     mr_created_at = day_at 8, mr_status = Active, mr_status_changed_at = day_at 8,
     mr_supersedes = Some 1, mr_revision_reason = Some ''changed'', mr_status_reason = None,
     mr_metadata = []\<rparr>, True)"
  by code_simp

text \<open>
  A reason that starts with NUL is a text for the service, but its SQL length is zero: the constraint
  of the table refuses it, and \<open>retract_memory\<close> does not translate the error of the driver.
\<close>

lemma nul_reason_escapes:
  "fst (retract_memory (at_hour 9 9 900) 1 [CHR 0x00, CHR ''x''] tea_store) = Inl integrity_error"
  by code_simp


text \<open>
  The properties of Memory OS: the text of a row, the invariant of the tables, the refinement of the
  abstract mutations, and the histories.
\<close>

section \<open>Reachable example stores\<close>

lemma small_hour [simp]: "h < 24 \<Longrightarrow> instant_ok (day_at h)"
  by (simp add: instant_ok_def day_at_def)

lemma drink_arguments: "h < 24 \<Longrightarrow> python_arguments (at_hour h i c) (PStr v) owner_says (day_at h) None"
  by (simp add: python_arguments_def at_hour_def owner_says_def)

lemma tea_step: "memory_step new_store tea_store"
  unfolding tea_store_def tea_call_def
  by (rule step_create [OF drink_arguments, of 8, where out = "fst (tea_call new_store)"])
    (simp_all add: tea_call_def)

lemma coffee_step: "memory_step tea_store two_drinks"
  unfolding two_drinks_def coffee_call_def
  by (rule step_create [OF drink_arguments, of 9, where out = "fst (coffee_call tea_store)"])
    (simp_all add: coffee_call_def)

lemma milk_step: "memory_step two_drinks three_drinks"
  unfolding three_drinks_def milk_call_def
  by (rule step_correct [OF drink_arguments, of 8, where out = "fst (milk_call two_drinks)"])
    (simp_all add: milk_call_def)

lemma drinks_reachable:
  "reachable_store new_store" "reachable_store tea_store" "reachable_store two_drinks"
  "reachable_store three_drinks"
  unfolding reachable_store_def using tea_step coffee_step milk_step
  by (auto intro: rtranclp.rtrancl_into_rtrancl)

section \<open>Rows\<close>

text \<open>
  C20. A memory that passed its constructor, with dicts and floats as Python has them, is written to
  a row, and the row read again gives that memory, with its floats as the column stores them and the
  members of its objects in the order of the canonical text. Writing what was read gives the same row.
\<close>

theorem memory_row_roundtrip:
  assumes "memory_record_ok r" "printable_record r"
  shows "\<exists>w. memory_row r = Inr w \<and> memory_from_row w = Inr (stored_record r) \<and>
    memory_row (stored_record r) = Inr w"
  using memory_row_total [OF assms] by metis

definition tea_memory :: memory_record where
  "tea_memory = \<lparr>mr_memory_id = 1, mr_memory_type = Preference, mr_subject = ''owner'',
     mr_predicate = ''drink'', mr_value = PStr ''tea'', mr_provenance = owner_says,
     mr_confidence = PInt 1, mr_observed_at = day_at 8, mr_created_at = day_at 8, mr_status = Active,
     mr_status_changed_at = day_at 8, mr_supersedes = None, mr_revision_reason = None,
     mr_status_reason = None, mr_metadata = []\<rparr>"

lemma tea_memory_ok: "memory_record_ok tea_memory"
proof -
  have "check_memory_record tea_memory = Inr tea_memory" by code_simp
  then show ?thesis by (simp add: check_memory_record_Inr)
qed

lemma tea_memory_printable: "printable_record tea_memory"
  by (simp add: printable_record_def tea_memory_def owner_says_def)

lemma memory_row_roundtrip_witness:
  "\<exists>w. memory_row tea_memory = Inr w \<and> memory_from_row w = Inr (stored_record tea_memory) \<and>
    memory_row (stored_record tea_memory) = Inr w"
  by (rule memory_row_roundtrip [OF tea_memory_ok tea_memory_printable])

section \<open>Mutations\<close>

lemma tea_value: "fst (tea_call new_store) = Inr tea_memory"
  by code_simp

lemma tea_stored: "memory_state tea_store = spec_add (\<lambda>k. 100 + of_nat k) tea_memory (memory_state new_store)"
proof -
  have "tea_call new_store = (Inr tea_memory, tea_store)"
    using tea_value by (simp add: tea_store_def prod_eq_iff)
  from create_memory_step(2) [OF new_store_inv drink_arguments this [unfolded tea_call_def]]
  show ?thesis by (simp add: at_hour_def)
qed

lemma milk_stored:
  obtains t r where "three_drinks = snd (milk_call two_drinks)" "ss_open three_drinks"
    "spec_find 1 (memory_state two_drinks) = Some t" "mr_memory_id r = 3"
    "memory_state three_drinks = spec_correct (\<lambda>k. 300 + of_nat k) t r (memory_state two_drinks)"
proof -
  obtain r where r: "fst (milk_call two_drinks) = Inr r" "mr_memory_id r = 3" and "ss_open three_drinks"
    using three_drinks_value by (auto simp: map_prod_def three_drinks_def split: prod.splits)
  then have call: "milk_call two_drinks = (Inr r, three_drinks)"
    by (simp add: three_drinks_def prod_eq_iff)
  from correct_memory_step [OF reachable_store_inv [OF drinks_reachable(3)] drink_arguments
      call [unfolded milk_call_def]]
  show ?thesis using that r(2) \<open>ss_open three_drinks\<close> three_drinks_def by (auto simp: at_hour_def)
qed

lemma result_cases:
  assumes "\<And>e s'. p = (Inl e, s') \<Longrightarrow> P e s'" "\<And>r s'. p = (Inr r, s') \<Longrightarrow> Q r s'"
  shows "case p of (Inl e, s') \<Rightarrow> P e s' | (Inr r, s') \<Rightarrow> Q r s'"
  using assms by (auto split: prod.split sum.split)

text \<open>
  C21. On a store that a program can reach, a mutation of the service that returns changes the state in
  the tables exactly as the abstract mutation does: creating adds the memory and an open conflict with
  every active memory that contradicts it; correcting retires the active target, resolves its conflicts
  and adds the replacement; retracting retires the target and resolves its conflicts. A mutation that
  raises leaves the store as it was.
\<close>

theorem memory_mutations_refine:
  assumes "reachable_store s" "python_arguments u val prov observed_at metadata"
  shows "(case create_memory u mtype subject predicate val prov confidence observed_at metadata s of
      (Inl e, s') \<Rightarrow> s' = s
    | (Inr r, s') \<Rightarrow> mr_memory_id r \<notin> mr_memory_id ` set (st_records (memory_state s)) \<and>
        memory_state s' = spec_add (su_uuids u) r (memory_state s)) \<and>
   (case correct_memory u i val prov confidence observed_at reason metadata s of
      (Inl e, s') \<Rightarrow> s' = s
    | (Inr r, s') \<Rightarrow> \<exists>t. spec_find i (memory_state s) = Some t \<and> mr_status t = Active \<and>
        mr_memory_id r \<notin> mr_memory_id ` set (st_records (memory_state s)) \<and>
        memory_state s' = spec_correct (su_uuids u) t r (memory_state s)) \<and>
   (case retract_memory u i reason s of
      (Inl e, s') \<Rightarrow> s' = s
    | (Inr r, s') \<Rightarrow> \<exists>t. spec_find i (memory_state s) = Some t \<and> mr_status t = Active \<and>
        memory_state s' = spec_retract i reason (su_now u) (memory_state s))"
proof -
  have inv: "store_inv s" by (rule reachable_store_inv [OF assms(1)])
  have now: "instant_ok (su_now u)" using assms(2) by (simp add: python_arguments_def)
  show ?thesis
    by (intro conjI result_cases)
      (use service_raises create_memory_step [OF inv assms(2)] correct_memory_step [OF inv assms(2)]
        retract_memory_step [OF inv now] in metis)+
qed

lemma memory_mutations_refine_witness:
  "memory_state tea_store = spec_add (\<lambda>k. 100 + of_nat k) tea_memory (memory_state new_store)"
proof -
  have "tea_call new_store = (Inr tea_memory, tea_store)"
    using tea_value by (simp add: tea_store_def prod_eq_iff)
  with memory_mutations_refine [OF drinks_reachable(1) drink_arguments [of 8 1 100 "''tea''"],
      of Preference "''owner''" "''drink''" "PInt 1"]
  show ?thesis by (simp add: tea_call_def at_hour_def)
qed

text \<open>
  C22. In every store that a program can reach the identifiers of the memories are distinct, as are
  those of the conflicts; no two conflicts are about the same two memories; every conflict is about two
  stored memories of the same type, subject and predicate with different values; and the conflicts that
  are open are exactly the pairs of active memories that contradict each other.
\<close>

theorem memory_store_invariant:
  assumes "reachable_store s"
  shows "distinct (map mr_memory_id (st_records (memory_state s))) \<and>
    distinct (map sc_id (st_conflicts (memory_state s))) \<and>
    distinct (map conflict_pair (st_conflicts (memory_state s))) \<and>
    list_all (conflict_sound (st_records (memory_state s))) (st_conflicts (memory_state s)) \<and>
    open_pairs (st_conflicts (memory_state s)) = contradictions (st_records (memory_state s))"
  using reachable_store_inv [OF assms] store_inv_conflict_ids [of s]
  by (simp add: store_inv_def memory_inv_def)

lemma memory_store_invariant_witness:
  "open_pairs (st_conflicts (memory_state two_drinks)) = {{1, 2}} \<and>
   contradictions (st_records (memory_state two_drinks)) = {{1, 2}}"
proof -
  have "map (\<lambda>c. (sc_left c, sc_right c, sc_resolved_at c)) (st_conflicts (memory_state two_drinks)) =
      [(1, 2, None)]"
    using two_drinks_value by (auto simp: state_of_def conflict_of_row_def map_eq_Cons_conv)
  then have "open_pairs (st_conflicts (memory_state two_drinks)) = {{1, 2}}"
    by (auto simp: map_eq_Cons_conv conflict_pair_def)
  then show ?thesis using memory_store_invariant [OF drinks_reachable(3)] by simp
qed

text \<open>
  C23. Nothing is forgotten: every memory of a reachable store is in every later store, with everything
  but its status, the time and the reason of the status unchanged; these change once, when the memory
  stops being active.
\<close>

theorem memories_are_kept:
  assumes "reachable_store s" "later_store s s'" "r \<in> set (st_records (memory_state s))"
  shows "\<exists>r' \<in> set (st_records (memory_state s')). r' = r \<or> mr_status r = Active \<and>
    (\<exists>status t reason. status \<noteq> Active \<and>
      r' = r\<lparr>mr_status := status, mr_status_changed_at := t, mr_status_reason := reason\<rparr>)"
  using later_store_records [OF assms(2) reachable_store_inv [OF assms(1)] assms(3)]
  by (simp add: same_or_retired_def retire_def)

lemma memories_are_kept_witness:
  "\<exists>r' \<in> set (st_records (memory_state two_drinks)).
     mr_memory_id r' = 1 \<and> mr_value r' = mr_value (stored_record tea_memory)"
proof -
  have "stored_record tea_memory \<in> set (st_records (memory_state tea_store))"
    by (simp add: tea_stored spec_add_def)
  from memories_are_kept [OF drinks_reachable(2) r_into_rtranclp [of memory_step, OF coffee_step] this]
  show ?thesis by (auto simp: tea_memory_def intro: rev_bexI)
qed

section \<open>Histories\<close>

text \<open>
  C24. \<open>get_revision_history\<close> returns on every reachable open store, although its loops follow
  identifiers in the tables: for a stored memory it gives the chain of revisions that the memory is in,
  from a memory that revises nothing to one that is not superseded, each revising the one before it;
  otherwise it raises \<open>MemoryNotFoundError\<close>.
\<close>

theorem history_returns:
  assumes "reachable_store s" "ss_open s"
  shows "case spec_find i (memory_state s) of
      None \<Rightarrow> get_revision_history i s = Some (Inl (MemoryExn MemoryNotFoundError))
    | Some r \<Rightarrow> \<exists>h. get_revision_history i s = Some (Inr h) \<and> r \<in> set h \<and>
        mr_supersedes (hd h) = None \<and> mr_status (last h) \<noteq> Superseded \<and>
        successively (\<lambda>a b. mr_supersedes b = Some (mr_memory_id a)) h \<and>
        set h \<subseteq> set (st_records (memory_state s))"
proof -
  have inv: "represents (memory_state s) (ss_database s)" "memory_inv (memory_state s)"
    using reachable_store_inv [OF assms(1)] by (simp_all add: store_inv_def)
  have revises: "revises = (\<lambda>a b. mr_supersedes b = Some (mr_memory_id a))"
    by (simp add: fun_eq_iff revises_def)
  show ?thesis
  proof (cases "spec_find i (memory_state s)")
    case None
    then show ?thesis
      using assms(2) by (simp add: get_revision_history_def stored_revision_history_def
          revision_history_def require_memory_spec [OF inv(1)])
  next
    case (Some r)
    from revision_history_returns [OF inv Some] show ?thesis
      using assms(2) Some
      by (auto simp: get_revision_history_def stored_revision_history_def revision_chain_def revises)
  qed
qed

lemma history_returns_witness:
  "\<exists>h. get_revision_history 3 three_drinks = Some (Inr h) \<and> 3 \<in> mr_memory_id ` set h"
proof -
  obtain t r where o: "ss_open three_drinks" and r: "mr_memory_id r = 3"
    and st: "memory_state three_drinks = spec_correct (\<lambda>k. 300 + of_nat k) t r (memory_state two_drinks)"
    by (rule milk_stored)
  have "3 \<in> mr_memory_id ` set (st_records (memory_state three_drinks))"
    using r by (simp add: st spec_correct_def Let_def)
  then obtain q where q: "spec_find 3 (memory_state three_drinks) = Some q" using spec_find_in by blast
  then have "mr_memory_id q = 3" using spec_find_some by blast
  with history_returns [OF drinks_reachable(4) o, of 3] q show ?thesis by (auto intro: rev_image_eqI)
qed

section \<open>Errors\<close>

text \<open>
  C25. A memory that is not active is never corrected nor retracted: on a reachable open store, with a
  clock in UTC and, for the retraction, a reason that is not blank and has no surrounding whitespace, the
  two operations raise the error for its status, or \<open>MemoryNotFoundError\<close> when it is not stored, and leave
  the store as it was, whatever the other arguments of the correction are.
\<close>

theorem inactive_target_refused:
  assumes "reachable_store s" "ss_open s" "exact_text_ok reason" "utc_ok (su_now u)"
    and "\<And>t. spec_find i (memory_state s) = Some t \<Longrightarrow> mr_status t \<noteq> Active"
  shows "correct_memory u i val prov confidence observed_at why metadata s =
      (Inl (MemoryExn (case spec_find i (memory_state s) of None \<Rightarrow> MemoryNotFoundError
        | Some t \<Rightarrow> if mr_status t = Retracted then AlreadyRetractedError
                    else InvalidCorrectionTargetError)), s) \<and>
    retract_memory u i reason s =
      (Inl (MemoryExn (case spec_find i (memory_state s) of None \<Rightarrow> MemoryNotFoundError
        | Some t \<Rightarrow> if mr_status t = Retracted then AlreadyRetractedError
                    else InvalidRetractionTargetError)), s)"
proof -
  have rep: "represents (memory_state s) (ss_database s)"
    using reachable_store_inv [OF assms(1)] by (simp add: store_inv_def)
  have "tryE (validate_nonempty_text reason) (\<lambda>_. current_time u) = Inr (su_now u)"
    using assms(3,4) by (simp add: validate_nonempty_text_def current_time_def validate_utc_datetime_def utc_ok_def)
  moreover have "validate_nonempty_text reason = Inr ()" "validate_utc_datetime (su_now u) = Inr ()"
    using assms(3,4) by (simp_all add: validate_nonempty_text_def validate_utc_datetime_def utc_ok_def)
  ultimately show ?thesis
    using assms(2,5)
    by (cases "spec_find i (memory_state s)")
      (auto simp: correct_memory_def replacement_memory_def checked_def get_memory_spec [OF rep]
        retract_memory_def retract_stored_memory_def transaction_def with_connection_def retraction_def
        require_memory_spec [OF rep])
qed

lemma inactive_target_refused_witness:
  "\<exists>e. correct_memory (at_hour 9 7 700) 1 (PStr ''water'') owner_says (PInt 1) (day_at 9) ''again'' None
     three_drinks = (Inl (MemoryExn e), three_drinks)"
proof -
  obtain t r where o: "ss_open three_drinks" and t: "spec_find 1 (memory_state two_drinks) = Some t"
    and r: "mr_memory_id r = 3"
    and st: "memory_state three_drinks = spec_correct (\<lambda>k. 300 + of_nat k) t r (memory_state two_drinks)"
    by (rule milk_stored)
  have "mr_memory_id t = 1" using t spec_find_some by blast
  then have retired: "mr_status q \<noteq> Active" if "spec_find 1 (memory_state three_drinks) = Some q" for q
    using spec_find_some [OF that] r by (auto simp: st spec_correct_def Let_def retire_in_def)
  have "exact_text_ok ''again''" by code_simp
  from inactive_target_refused [OF drinks_reachable(4) o this, of "at_hour 9 7 700" 1] retired
  show ?thesis by (auto simp: at_hour_def day_at_def utc_ok_def)
qed

end
