(* ===== verification/Context_Projector.thy ===== *)
theory Context_Projector
  imports Context_Models Memory_Service Py_Order
begin

text \<open>
  The projection of two reads of Memory OS to a Personal Context snapshot
  (\<open>personal_context/projector.py\<close>) and the service that performs it (\<open>personal_context/service.py\<close>).
\<close>

abbreviation inconsistent_source :: exn where
  "inconsistent_source \<equiv> ContextExn InconsistentSourceStateError"

section \<open>Identities and signatures\<close>

fun domain_of :: "memory_type \<Rightarrow> context_domain option" where
  "domain_of Semantic = Some DomSemantic"
| "domain_of Preference = Some DomPreference"
| "domain_of Social = Some DomSocial"
| "domain_of Spatial = Some DomSpatial"
| "domain_of Procedural = Some DomProcedural"
| "domain_of _ = None"

definition identity_for :: "memory_record \<Rightarrow> context_identity res" where
  "identity_for r =
     (case domain_of (mr_memory_type r) of
        None \<Rightarrow> Inl (BuiltinExn KeyError)
      | Some d \<Rightarrow> mk_context_identity d (mr_subject r) (mr_predicate r))"

text \<open>Floats compare as numbers: the two zeroes are equal.\<close>

definition float_key :: "pyval \<Rightarrow> pyfloat option" where
  "float_key c =
     (case confidence_value c of
        Some x \<Rightarrow> Some (if x = Finite ''-0.0'' then Finite ''0.0'' else x) | None \<Rightarrow> None)"

record memory_signature =
  sg_memory_id :: uuid
  sg_memory_type :: memory_type
  sg_subject :: string
  sg_predicate :: string
  sg_value :: string
  sg_provenance_type :: provenance_type
  sg_source_id :: string
  sg_details :: string
  sg_confidence :: "pyfloat option"
  sg_observed_at :: py_datetime
  sg_created_at :: py_datetime
  sg_status :: memory_status
  sg_status_changed_at :: py_datetime
  sg_supersedes :: "uuid option"
  sg_revision_reason :: "string option"
  sg_status_reason :: "string option"
  sg_metadata :: string

definition record_signature :: "memory_record \<Rightarrow> memory_signature res" where
  "record_signature r =
     tryE (context_canonicalize (mr_value r)) (\<lambda>val.
     tryE (context_canonicalize (PDict (pv_details (mr_provenance r)))) (\<lambda>details.
     tryE (context_canonicalize (PDict (mr_metadata r))) (\<lambda>metadata.
     Inr \<lparr>sg_memory_id = mr_memory_id r, sg_memory_type = mr_memory_type r,
          sg_subject = mr_subject r, sg_predicate = mr_predicate r, sg_value = val,
          sg_provenance_type = pv_type (mr_provenance r),
          sg_source_id = pv_source_id (mr_provenance r), sg_details = details,
          sg_confidence = float_key (mr_confidence r), sg_observed_at = mr_observed_at r,
          sg_created_at = mr_created_at r, sg_status = mr_status r,
          sg_status_changed_at = mr_status_changed_at r, sg_supersedes = mr_supersedes r,
          sg_revision_reason = mr_revision_reason r, sg_status_reason = mr_status_reason r,
          sg_metadata = metadata\<rparr>)))"

section \<open>Validation of the two reads\<close>

fun collect_memories ::
  "string \<Rightarrow> uuid list \<Rightarrow> memory_record list \<Rightarrow> memory_record list res" where
  "collect_memories owner seen [] = Inr []"
| "collect_memories owner seen (r # rs) =
     raise_if (mr_subject r \<noteq> owner) inconsistent_source
    (raise_if (mr_status r \<noteq> Active) inconsistent_source
    (raise_if (mr_memory_id r \<in> set seen) inconsistent_source
    (tryE (collect_memories owner (mr_memory_id r # seen) rs) (\<lambda>relevant.
     Inr (if domain_of (mr_memory_type r) = None then relevant else r # relevant)))))"

definition validated_memories :: "string \<Rightarrow> memory_record list \<Rightarrow> memory_record list res" where
  "validated_memories owner rs =
     tryE (collect_memories owner [] rs) (\<lambda>relevant.
     Inr (sort_key (\<lambda>r. uuid_str (mr_memory_id r)) relevant))"

text \<open>\<open>_record_signature(active_by_id[m.memory_id]) != _record_signature(m)\<close>.\<close>

definition signature_differs :: "memory_record list \<Rightarrow> memory_record \<Rightarrow> bool res" where
  "signature_differs active m =
     (case index_get mr_memory_id active (mr_memory_id m) of
        None \<Rightarrow> Inl (BuiltinExn KeyError)
      | Some r \<Rightarrow>
          tryE (record_signature r) (\<lambda>a.
          tryE (record_signature m) (\<lambda>b. Inr (a \<noteq> b))))"

definition memory_pair :: "memory_conflict \<Rightarrow> uuid set" where
  "memory_pair c = {mr_memory_id (mc_left c), mr_memory_id (mc_right c)}"

text \<open>The checks on one conflict; it returns whether the conflict is relevant.\<close>

definition check_conflict ::
  "string \<Rightarrow> memory_record list \<Rightarrow> uuid list \<Rightarrow> uuid set list \<Rightarrow> memory_conflict \<Rightarrow> bool res" where
  "check_conflict owner active ids pairs c =
     (let l = mc_left c; r = mc_right c in
      raise_if (mr_subject l \<noteq> owner \<or> mr_subject r \<noteq> owner) inconsistent_source
     (if domain_of (mr_memory_type l) = None \<and> domain_of (mr_memory_type r) = None then Inr False
      else
      raise_if (domain_of (mr_memory_type l) = None \<or> domain_of (mr_memory_type r) = None)
        inconsistent_source
     (raise_if (mc_resolved_at c \<noteq> None) inconsistent_source
     (raise_if (mr_status l \<noteq> Active \<or> mr_status r \<noteq> Active) inconsistent_source
     (raise_if (memory_key l \<noteq> memory_key r) inconsistent_source
     (tryE (context_canonicalize (mr_value l)) (\<lambda>left_value.
      tryE (context_canonicalize (mr_value r)) (\<lambda>right_value.
      raise_if (left_value = right_value) inconsistent_source
     (raise_if (mc_conflict_id c \<in> set ids \<or> memory_pair c \<in> set pairs) inconsistent_source
     (raise_if (\<not> memory_pair c \<subseteq> mr_memory_id ` set active) inconsistent_source
     (tryE (signature_differs active l) (\<lambda>left_differs.
      tryE (if left_differs then Inr True else signature_differs active r) (\<lambda>differs.
      raise_if differs inconsistent_source (Inr True))))))))))))))"

fun collect_conflicts ::
  "string \<Rightarrow> memory_record list \<Rightarrow> uuid list \<Rightarrow> uuid set list \<Rightarrow> memory_conflict list \<Rightarrow>
   memory_conflict list res" where
  "collect_conflicts owner active ids pairs [] = Inr []"
| "collect_conflicts owner active ids pairs (c # cs) =
     tryE (check_conflict owner active ids pairs c) (\<lambda>relevant.
     if relevant
     then tryE (collect_conflicts owner active (mc_conflict_id c # ids) (memory_pair c # pairs) cs)
            (\<lambda>rest. Inr (c # rest))
     else collect_conflicts owner active ids pairs cs)"

definition validated_conflicts ::
  "string \<Rightarrow> memory_record list \<Rightarrow> memory_conflict list \<Rightarrow> memory_conflict list res" where
  "validated_conflicts owner active cs =
     tryE (collect_conflicts owner active [] [] cs) (\<lambda>relevant.
     Inr (sort_key (\<lambda>c. uuid_str (mc_conflict_id c)) relevant))"

text \<open>The pairs of \<open>combinations(active_memories, 2)\<close> that contradict each other.\<close>

fun pairs_with :: "memory_record \<Rightarrow> memory_record list \<Rightarrow> uuid set list res" where
  "pairs_with l [] = Inr []"
| "pairs_with l (r # rs) =
     tryE (if memory_key l = memory_key r
           then tryE (context_canonicalize (mr_value l)) (\<lambda>a.
                tryE (context_canonicalize (mr_value r)) (\<lambda>b. Inr (a \<noteq> b)))
           else Inr False) (\<lambda>differ.
     tryE (pairs_with l rs) (\<lambda>ps.
     Inr (if differ then {mr_memory_id l, mr_memory_id r} # ps else ps)))"

fun expected_pairs :: "memory_record list \<Rightarrow> uuid set list res" where
  "expected_pairs [] = Inr []"
| "expected_pairs (l # rs) =
     tryE (pairs_with l rs) (\<lambda>ps. tryE (expected_pairs rs) (\<lambda>qs. Inr (ps @ qs)))"

definition require_complete_conflicts ::
  "memory_record list \<Rightarrow> memory_conflict list \<Rightarrow> unit res" where
  "require_complete_conflicts active cs =
     tryE (expected_pairs active) (\<lambda>expected.
     raise_if (set (map memory_pair cs) \<noteq> set expected) inconsistent_source (Inr ()))"

section \<open>Entries\<close>

definition evidence_of :: "memory_record \<Rightarrow> evidence_reference res" where
  "evidence_of r =
     mk_evidence_reference (mr_memory_id r) (pv_type (mr_provenance r)) (pv_source_id (mr_provenance r))
       (pv_details (mr_provenance r)) (mr_metadata r) (mr_confidence r) (mr_observed_at r)
       (mr_created_at r) (mr_supersedes r) (mr_revision_reason r)"

definition value_of_group :: "memory_record list \<Rightarrow> context_value res" where
  "value_of_group rs =
     tryE (traverse evidence_of rs) (\<lambda>references.
     mk_context_value (mr_value (hd rs))
       (sort_key (\<lambda>e. uuid_str (er_memory_id e)) references))"

definition entry_of_group ::
  "(context_identity \<times> uuid list) list \<Rightarrow> context_identity \<times> memory_record list \<Rightarrow> context_entry res"
where
  "entry_of_group conflict_groups = (\<lambda>(ident, rs).
     tryE (group_by (\<lambda>r. context_canonicalize (mr_value r)) (\<lambda>r. r) rs) (\<lambda>by_value.
     tryE (traverse (\<lambda>g. value_of_group (snd g)) (sort_key fst by_value)) (\<lambda>vals.
     mk_context_entry ident (if length vals = 1 then CtxResolved else CtxConflicted) vals
       (sort_key uuid_str (group_get conflict_groups ident)))))"

definition build_entries ::
  "memory_record list \<Rightarrow> memory_conflict list \<Rightarrow> context_entry list res" where
  "build_entries active cs =
     tryE (group_by identity_for (\<lambda>r. r) active) (\<lambda>records.
     tryE (group_by (\<lambda>c. identity_for (mc_left c)) mc_conflict_id cs) (\<lambda>conflict_groups.
     tryE (traverse (entry_of_group conflict_groups) records) (\<lambda>entries.
     Inr (sort_key (\<lambda>e. identity_key (ce_identity e)) entries))))"

definition project :: "string \<Rightarrow> memory_record list \<Rightarrow> memory_conflict list \<Rightarrow> context_snapshot res" where
  "project owner active_memories unresolved_conflicts =
     tryE (validate_owner_subject owner) (\<lambda>_.
     tryE (validated_memories owner active_memories) (\<lambda>memories.
     tryE (validated_conflicts owner memories unresolved_conflicts) (\<lambda>conflicts.
     tryE (require_complete_conflicts memories conflicts) (\<lambda>_.
     tryE (build_entries memories conflicts) (\<lambda>entries.
     tryE (compute_snapshot_version owner entries) (\<lambda>version.
     mk_context_snapshot owner entries version))))))"

section \<open>The service\<close>

definition new_context_service :: "string \<Rightarrow> string res" where
  "new_context_service owner = tryE (validate_owner_subject owner) (\<lambda>_. Inr owner)"

text \<open>
  The two reads are two transactions: another process may change the store between them, so the reads
  are of two states of it.
\<close>

definition build_snapshot :: "string \<Rightarrow> memory_store \<Rightarrow> memory_store \<Rightarrow> context_snapshot res" where
  "build_snapshot owner s s' =
     tryE (query_memories None (Some owner) None True s) (\<lambda>active_memories.
     tryE (list_conflicts (Some owner) None False s') (\<lambda>unresolved_conflicts.
     project owner active_memories unresolved_conflicts))"

definition current_context ::
  "string \<Rightarrow> context_domain \<Rightarrow> string \<Rightarrow> memory_store \<Rightarrow> memory_store \<Rightarrow> context_query_result res" where
  "current_context owner domain predicate s s' =
     tryE (build_snapshot owner s s') (\<lambda>snapshot. get_context snapshot domain predicate)"

definition current_snapshot_version ::
  "string \<Rightarrow> memory_store \<Rightarrow> memory_store \<Rightarrow> snapshot_version res" where
  "current_snapshot_version owner s s' =
     tryE (build_snapshot owner s s') (\<lambda>snapshot. Inr (pcs_version snapshot))"


text \<open>
  Laws of the grouping of lists by a key, and the number of pairs of items from different groups.
\<close>

section \<open>Groups\<close>

text \<open>The groups of the items of a list, in the order of a list of keys.\<close>

definition grouped :: "('a \<Rightarrow> 'k) \<Rightarrow> 'a list \<Rightarrow> 'k list \<Rightarrow> ('k \<times> 'a list) list" where
  "grouped f xs = map (\<lambda>k. (k, filter (\<lambda>x. f x = k) xs))"

lemma group_pairs_grouped:
  "group_pairs (map (\<lambda>x. (f x, x)) xs) =
   grouped f xs (map fst (group_pairs (map (\<lambda>x. (f x, x)) xs)))"
proof -
  let ?G = "group_pairs (map (\<lambda>x. (f x, x)) xs)"
  have "map snd (filter (\<lambda>p. fst p = k) (map (\<lambda>x. (f x, x)) xs)) = filter (\<lambda>x. f x = k) xs" for k
    by (induction xs) auto
  then have "vs = filter (\<lambda>x. f x = k) xs" if "(k, vs) \<in> set ?G" for k vs
    using group_get_member [OF group_pairs_distinct that] by (simp add: group_get_pairs)
  then have "map (\<lambda>kv. (fst kv, filter (\<lambda>x. f x = fst kv) xs)) ?G = map id ?G"
    by (intro map_cong) auto
  then show ?thesis by (simp add: grouped_def o_def)
qed

lemma group_by_total:
  assumes "\<And>x. x \<in> set xs \<Longrightarrow> f x = Inr (k x)"
  shows "group_by f g xs = Inr (group_pairs (map (\<lambda>x. (k x, g x)) xs))"
proof -
  have "traverse (\<lambda>x. tryE (f x) (\<lambda>k. Inr (k, g x))) xs = Inr (map (\<lambda>x. (k x, g x)) xs)"
    by (rule traverse_map) (simp add: assms)
  then show ?thesis by (simp add: group_by_def)
qed

lemma group_by_grouped:
  assumes "\<And>x. x \<in> set xs \<Longrightarrow> f x = Inr (k x)"
  obtains ks where "group_by f (\<lambda>x. x) xs = Inr (grouped k xs ks)" "distinct ks" "set ks = k ` set xs"
proof -
  let ?ks = "map fst (group_pairs (map (\<lambda>x. (k x, x)) xs))"
  have "group_by f (\<lambda>x. x) xs = Inr (grouped k xs ?ks)"
    using group_by_total [OF assms, where g = "\<lambda>x. x"] group_pairs_grouped [of k xs] by simp
  then show ?thesis by (rule that) (simp_all add: image_image)
qed

lemma sort_grouped: "sort_key fst (grouped f xs ks) = grouped f xs (sort ks)"
  by (simp add: grouped_def sort_key_map o_def)

lemma sort_sorted_set: "distinct ks \<Longrightarrow> set ks = set ls \<Longrightarrow> sort ks = sorted_set ls"
  by (intro sorted_distinct_set_unique) simp_all

lemma grouped_concat:
  assumes "distinct ks" "distinct (map f xs)"
  shows "distinct (concat (map (\<lambda>k. map f (filter (\<lambda>x. g x = k) xs)) ks))"
  using assms
proof (induction ks)
  case (Cons k ks)
  have "f x \<noteq> f y" if "x \<in> set xs" "y \<in> set xs" "g x = k" "g y \<in> set ks" for x y
    using that Cons.prems by (auto simp: distinct_map dest: inj_onD)
  with Cons show ?case by (auto simp: distinct_map_filter)
qed simp

section \<open>Pairs of items from different groups\<close>

fun cross_pairs :: "'a list list \<Rightarrow> 'a set set" where
  "cross_pairs [] = {}"
| "cross_pairs (g # gs) = (\<lambda>(a, b). {a, b}) ` (set g \<times> set (concat gs)) \<union> cross_pairs gs"

fun cross_count :: "'a list list \<Rightarrow> nat" where
  "cross_count [] = 0"
| "cross_count (g # gs) = sum_list (map (\<lambda>h. length g * length h) gs) + cross_count gs"

lemma cross_pairs_subset: "p \<in> cross_pairs gs \<Longrightarrow> p \<subseteq> set (concat gs)"
  by (induction gs) auto

lemma finite_cross_pairs: "finite (cross_pairs gs)"
  by (induction gs) auto

lemma card_cross_pairs:
  assumes "distinct (concat gs)"
  shows "card (cross_pairs gs) = cross_count gs"
  using assms
proof (induction gs)
  case (Cons g gs)
  let ?h = "concat gs"
  have disj: "set g \<inter> set ?h = {}" and dist: "distinct g" "distinct ?h" using Cons.prems by auto
  have "inj_on (\<lambda>(a, b). {a, b}) (set g \<times> set ?h)"
    using disj by (auto simp: inj_on_def doubleton_eq_iff)
  then have "card ((\<lambda>(a, b). {a, b}) ` (set g \<times> set ?h)) = length g * length ?h"
    using dist by (simp only: card_image card_cartesian_product distinct_card)
  also have "\<dots> = sum_list (map (\<lambda>h. length g * length h) gs)"
    by (simp add: length_concat sum_list_const_mult o_def)
  finally have "card ((\<lambda>(a, b). {a, b}) ` (set g \<times> set ?h)) = sum_list (map (\<lambda>h. length g * length h) gs)" .
  moreover have "(\<lambda>(a, b). {a, b}) ` (set g \<times> set ?h) \<inter> cross_pairs gs = {}"
    using disj cross_pairs_subset [of _ gs] by fastforce
  ultimately show ?case
    using Cons finite_cross_pairs [of gs] by (simp add: card_Un_disjoint)
qed simp

lemma cross_pairs_grouped:
  assumes "distinct ks"
  shows "cross_pairs (map (\<lambda>k. map f (filter (\<lambda>x. g x = k) xs)) ks) =
    {{f x, f y} |x y. x \<in> set xs \<and> y \<in> set xs \<and> g x \<in> set ks \<and> g y \<in> set ks \<and> g x \<noteq> g y}"
  using assms
proof (induction ks)
  case (Cons k ks)
  let ?P = "\<lambda>ks. {{f x, f y} |x y. x \<in> set xs \<and> y \<in> set xs \<and> g x \<in> set ks \<and> g y \<in> set ks \<and> g x \<noteq> g y}"
  let ?Q = "{{f x, f y} |x y. x \<in> set xs \<and> y \<in> set xs \<and> g x = k \<and> g y \<in> set ks}"
  have "(\<lambda>(a, b). {a, b}) ` (set (map f (filter (\<lambda>x. g x = k) xs)) \<times>
      set (concat (map (\<lambda>k. map f (filter (\<lambda>x. g x = k) xs)) ks))) = ?Q" (is "?L = _")
  proof (intro equalityI subsetI)
    fix p assume "p \<in> ?L" then show "p \<in> ?Q" by auto
  next
    fix p assume "p \<in> ?Q"
    then obtain x y where "x \<in> set xs" "y \<in> set xs" "g x = k" "g y \<in> set ks" "p = {f x, f y}" by blast
    then show "p \<in> ?L" by (intro image_eqI [of _ _ "(f x, f y)"]) auto
  qed
  moreover have "?P (k # ks) = ?Q \<union> ?P ks"
  proof (intro equalityI subsetI)
    fix p assume "p \<in> ?P (k # ks)"
    then obtain x y where xy: "x \<in> set xs" "y \<in> set xs" "p = {f x, f y}" "g x \<noteq> g y"
      "g x = k \<or> g x \<in> set ks" "g y = k \<or> g y \<in> set ks" by auto
    show "p \<in> ?Q \<union> ?P ks"
    proof (cases "g y = k")
      case True
      then have "p = {f y, f x}" "g x \<in> set ks" using xy by auto
      with True xy show ?thesis by blast
    next
      case False
      with xy show ?thesis by blast
    qed
  next
    fix p assume "p \<in> ?Q \<union> ?P ks"
    moreover have "k \<notin> set ks" using Cons.prems by simp
    ultimately show "p \<in> ?P (k # ks)" by (elim UnE) (fastforce, auto)
  qed
  ultimately show ?case using Cons by simp
qed simp

end
