(* ===== verification/Context_Reads.thy ===== *)
theory Context_Reads
  imports Context_Projector Memory_Reachable
begin

text \<open>
  Two coherent reads of Memory OS pass every check of the projector: the active memories of the owner
  and exactly the conflicts between those that contradict each other.
\<close>

section \<open>Coherent reads\<close>

definition supported :: "memory_record \<Rightarrow> bool" where
  "supported r \<longleftrightarrow> domain_of (mr_memory_type r) \<noteq> None"

definition owned :: "string \<Rightarrow> memory_record \<Rightarrow> bool" where
  "owned owner r \<longleftrightarrow> mr_subject r = owner \<and> mr_status r = Active \<and> stored_ok r"

definition coherent_reads :: "string \<Rightarrow> memory_record list \<Rightarrow> memory_conflict list \<Rightarrow> bool" where
  "coherent_reads owner ms cs \<longleftrightarrow>
     list_all (owned owner) ms \<and> distinct (map mr_memory_id ms) \<and>
     list_all (open_conflict ms) cs \<and>
     distinct (map mc_conflict_id cs) \<and> distinct (map memory_pair cs) \<and>
     memory_pair ` set cs = contradictions ms"

definition relevant :: "memory_record list \<Rightarrow> memory_record list" where
  "relevant ms = sort_key (\<lambda>r. uuid_str (mr_memory_id r)) (filter supported ms)"

definition relevant_conflicts :: "memory_conflict list \<Rightarrow> memory_conflict list" where
  "relevant_conflicts cs =
     sort_key (\<lambda>c. uuid_str (mc_conflict_id c)) (filter (\<lambda>c. supported (mc_left c)) cs)"

section \<open>Data of stored memories\<close>

lemma printable_context: "printable v \<Longrightarrow> context_json_ok v"
proof (induction v rule: context_json_ok.induct)
  case (1 x)
  then show ?case by (cases x) auto
qed (auto simp: list_all_iff)

lemma printable_canonicalize:
  "printable v \<Longrightarrow> ints_printable v \<Longrightarrow> context_canonicalize v = Inr (canon v)"
  by (simp add: context_canonicalize_def printable_context del: canon.simps)

lemma stored_data:
  assumes "stored_ok r" "v \<in> {mr_value r, PDict (pv_details (mr_provenance r)), PDict (mr_metadata r)}"
  shows "context_canonicalize v = Inr (canon v)" "context_json_ok v" "ints_printable v"
  using assms printable_canonicalize printable_context unfolding stored_ok_def printable_record_def
  by blast+

lemma signature_total:
  assumes "stored_ok r"
  shows "\<exists>s. record_signature r = Inr s \<and> sg_memory_type s = mr_memory_type r \<and>
    sg_subject s = mr_subject r \<and> sg_predicate s = mr_predicate r"
  using stored_data(1) [OF assms] by (simp add: record_signature_def del: canon.simps)

section \<open>The checks on the memories\<close>

lemma collect_memories_total:
  assumes "list_all (owned owner) ms" "distinct (map mr_memory_id ms)"
    and "set seen \<inter> mr_memory_id ` set ms = {}"
  shows "collect_memories owner seen ms = Inr (filter supported ms)"
  using assms
  by (induction owner seen ms rule: collect_memories.induct) (auto simp: owned_def supported_def)

lemma validated_memories_total:
  "list_all (owned owner) ms \<Longrightarrow> distinct (map mr_memory_id ms) \<Longrightarrow>
   validated_memories owner ms = Inr (relevant ms)"
  by (simp add: validated_memories_def collect_memories_total relevant_def)

lemma relevant_set [simp]: "set (relevant ms) = {r \<in> set ms. supported r}"
  by (simp add: relevant_def)

lemma relevant_distinct:
  "distinct (map mr_memory_id ms) \<Longrightarrow> distinct (map mr_memory_id (relevant ms))"
  by (simp add: relevant_def distinct_map_filter)

section \<open>The checks on the conflicts\<close>

lemma supported_key: "memory_key a = memory_key b \<Longrightarrow> supported a = supported b"
  by (simp add: memory_key_def supported_def)

lemma check_conflict_total:
  assumes ms: "list_all (owned owner) ms" "distinct (map mr_memory_id ms)" and c: "open_conflict ms c"
    and new: "mc_conflict_id c \<notin> set ids" "memory_pair c \<notin> set pairs"
  shows "check_conflict owner (relevant ms) ids pairs c = Inr (supported (mc_left c))"
proof -
  let ?l = "mc_left c" and ?r = "mc_right c"
  have lr: "?l \<in> set ms" "?r \<in> set ms" and key: "memory_key ?l = memory_key ?r"
    and texts: "text_of ?l \<noteq> text_of ?r" "mc_resolved_at c = None"
    using c by (auto simp: open_conflict_def)
  have own: "owned owner ?l" "owned owner ?r" using lr ms(1) by (auto simp: list_all_iff)
  have same: "signature_differs (relevant ms) m = Inr False" if "m \<in> set ms" "supported m" for m
  proof -
    have "index_get mr_memory_id (relevant ms) (mr_memory_id m) = Some m"
      using that by (simp add: index_get_Some [OF relevant_distinct [OF ms(2)]])
    moreover have "owned owner m" using that(1) ms(1) by (simp add: list_all_iff)
    then obtain s where "record_signature m = Inr s"
      using signature_total by (auto simp: owned_def)
    ultimately show ?thesis by (simp add: signature_differs_def)
  qed
  have vals: "context_canonicalize (mr_value ?l) = Inr (text_of ?l)"
    "context_canonicalize (mr_value ?r) = Inr (text_of ?r)"
    using own stored_data(1) by (auto simp: owned_def)
  show ?thesis
  proof (cases "supported ?l")
    case True
    then have "supported ?r" using supported_key [OF key] by simp
    moreover have "memory_pair c \<subseteq> mr_memory_id ` set (relevant ms)"
      using lr True \<open>supported ?r\<close> by (auto simp: memory_pair_def)
    ultimately show ?thesis
      using own new key texts vals same [OF lr(1) True] same [OF lr(2)] True
      by (auto simp: check_conflict_def Let_def owned_def supported_def
        simp del: canon.simps)
  next
    case False
    then have "\<not> supported ?r" using supported_key [OF key] by simp
    with False show ?thesis
      using own by (simp add: check_conflict_def Let_def owned_def supported_def)
  qed
qed

lemma collect_conflicts_total:
  assumes ms: "list_all (owned owner) ms" "distinct (map mr_memory_id ms)"
    and "list_all (open_conflict ms) cs" "distinct (map mc_conflict_id cs)" "distinct (map memory_pair cs)"
    and "set ids \<inter> mc_conflict_id ` set cs = {}" "set pairs \<inter> memory_pair ` set cs = {}"
  shows "collect_conflicts owner (relevant ms) ids pairs cs = Inr (filter (\<lambda>c. supported (mc_left c)) cs)"
  using assms(3-)
proof (induction cs arbitrary: ids pairs)
  case (Cons c cs)
  then have "check_conflict owner (relevant ms) ids pairs c = Inr (supported (mc_left c))"
    by (intro check_conflict_total [OF ms]) auto
  with Cons show ?case by simp
qed simp

lemma validated_conflicts_total:
  "coherent_reads owner ms cs \<Longrightarrow>
   validated_conflicts owner (relevant ms) cs = Inr (relevant_conflicts cs)"
  by (simp add: validated_conflicts_def coherent_reads_def collect_conflicts_total relevant_conflicts_def)

section \<open>Completeness\<close>

definition differ :: "memory_record \<Rightarrow> memory_record \<Rightarrow> bool" where
  "differ a b \<longleftrightarrow> memory_key a = memory_key b \<and> text_of a \<noteq> text_of b"

lemma pairs_with_total:
  assumes "list_all stored_ok (l # rs)"
  shows "pairs_with l rs = Inr (map (\<lambda>r. {mr_memory_id l, mr_memory_id r}) (filter (differ l) rs))"
  using assms
proof (induction rs)
  case (Cons r rs)
  then have "context_canonicalize (mr_value l) = Inr (text_of l)"
    "context_canonicalize (mr_value r) = Inr (text_of r)"
    using stored_data(1) by auto
  with Cons show ?case by (simp add: differ_def del: canon.simps)
qed simp

lemma expected_pairs_total:
  assumes "list_all stored_ok rs" "list_all (\<lambda>r. mr_status r = Active) rs"
  shows "\<exists>ps. expected_pairs rs = Inr ps \<and> set ps = contradictions rs"
  using assms
proof (induction rs)
  case Nil
  show ?case by (simp add: contradictions_def)
next
  case (Cons l rs)
  then obtain ps where ps: "expected_pairs rs = Inr ps" "set ps = contradictions rs" by auto
  have "contradict l r \<longleftrightarrow> differ l r" if "r \<in> set rs" for r
    using that Cons.prems(2) by (auto simp: contradict_def differ_def list_all_iff)
  then have "contradictions (l # rs) =
      set (map (\<lambda>r. {mr_memory_id l, mr_memory_id r}) (filter (differ l) rs)) \<union> contradictions rs"
    by (auto simp: contradictions_Cons)
  then show ?case using ps pairs_with_total [OF Cons.prems(1)] by (simp del: filter.simps)
qed

lemma relevant_pairs:
  assumes "coherent_reads owner ms cs"
  shows "memory_pair ` set (relevant_conflicts cs) = contradictions (relevant ms)"
proof -
  have ids: "a = b" if "a \<in> set ms" "b \<in> set ms" "mr_memory_id a = mr_memory_id b" for a b
    using assms that by (auto simp: coherent_reads_def distinct_map dest: inj_onD)
  have open_c: "open_conflict ms c" if "c \<in> set cs" for c
    using assms that by (auto simp: coherent_reads_def list_all_iff)
  have active: "mr_status r = Active" if "r \<in> set ms" for r
    using assms that by (auto simp: coherent_reads_def owned_def list_all_iff)
  show ?thesis
  proof (intro equalityI subsetI)
    fix p assume "p \<in> memory_pair ` set (relevant_conflicts cs)"
    then obtain c where c: "c \<in> set cs" "supported (mc_left c)" "p = memory_pair c"
      by (auto simp: relevant_conflicts_def)
    note o = open_c [OF c(1)]
    then have "contradict (mc_left c) (mc_right c)" "supported (mc_right c)"
      using c(2) active supported_key [of "mc_left c" "mc_right c"]
      by (auto simp: open_conflict_def contradict_def)
    then show "p \<in> contradictions (relevant ms)"
      using c o unfolding contradictions_def open_conflict_def memory_pair_def by auto
  next
    fix p assume "p \<in> contradictions (relevant ms)"
    then obtain a b where ab: "a \<in> set ms" "supported a" "b \<in> set ms" "supported b"
      "p = {mr_memory_id a, mr_memory_id b}" "contradict a b" by (auto simp: contradictions_def)
    then have "p \<in> contradictions ms" unfolding contradictions_def by blast
    then obtain c where c: "c \<in> set cs" "p = memory_pair c"
      using assms unfolding coherent_reads_def by (metis imageE)
    have "mr_memory_id (mc_left c) \<in> p" using c(2) by (simp add: memory_pair_def)
    then have "mc_left c = a \<or> mc_left c = b"
      using open_c [OF c(1)] ab(1,3,5) ids by (auto simp: open_conflict_def)
    then show "p \<in> memory_pair ` set (relevant_conflicts cs)"
      using c ab(2,4) by (auto simp: relevant_conflicts_def)
  qed
qed

lemma require_complete_total:
  assumes "coherent_reads owner ms cs"
  shows "require_complete_conflicts (relevant ms) (relevant_conflicts cs) = Inr ()"
proof -
  have "list_all stored_ok (relevant ms)" "list_all (\<lambda>r. mr_status r = Active) (relevant ms)"
    using assms by (auto simp: coherent_reads_def owned_def list_all_iff)
  from expected_pairs_total [OF this] show ?thesis
    using relevant_pairs [OF assms] by (auto simp: require_complete_conflicts_def)
qed

end
