(* ===== verification/Context_Entries.thy ===== *)
theory Context_Entries
  imports Context_Reads
begin

text \<open>
  The entries that the projector builds from coherent reads: one per identity of an active memory, with
  one value per canonical text and the conflicts of the identity.
\<close>

section \<open>Identities and evidence\<close>

definition identity_of :: "memory_record \<Rightarrow> context_identity" where
  "identity_of r =
     \<lparr>ci_domain = the (domain_of (mr_memory_type r)), ci_subject = mr_subject r,
      ci_predicate = mr_predicate r\<rparr>"

lemma identity_for_total:
  "supported r \<Longrightarrow> stored_ok r \<Longrightarrow> identity_for r = Inr (identity_of r)"
  by (auto simp: supported_def identity_for_def identity_of_def mk_context_identity_def stored_ok_def
      memory_record_ok_def)

lemma domain_of_inject: "domain_of a = Some d \<Longrightarrow> domain_of b = Some d \<Longrightarrow> a = b"
  by (cases a; cases b; auto)

lemma identity_of_eq:
  "supported a \<Longrightarrow> supported b \<Longrightarrow> identity_of a = identity_of b \<longleftrightarrow> memory_key a = memory_key b"
  by (auto simp: supported_def identity_of_def memory_key_def dest: domain_of_inject)

definition evidence_ref :: "memory_record \<Rightarrow> evidence_reference" where
  "evidence_ref r =
     \<lparr>er_memory_id = mr_memory_id r, er_provenance_type = pv_type (mr_provenance r),
      er_provenance_source_id = pv_source_id (mr_provenance r),
      er_confidence = the (confidence_value (mr_confidence r)),
      er_observed_at = mr_observed_at r, er_recorded_at = mr_created_at r,
      er_supersedes = mr_supersedes r, er_revision_reason = mr_revision_reason r,
      er_provenance_details = PDict (pv_details (mr_provenance r)),
      er_canonical_provenance_details = canon (PDict (pv_details (mr_provenance r))),
      er_metadata = PDict (mr_metadata r), er_canonical_metadata = canon (PDict (mr_metadata r))\<rparr>"

lemma evidence_ref_id [simp]: "er_memory_id (evidence_ref r) = mr_memory_id r"
  by (simp add: evidence_ref_def)

lemma evidence_of_total:
  assumes "stored_ok r"
  shows "evidence_of r = Inr (evidence_ref r)"
proof -
  have ok: "memory_record_ok r" using assms by (simp add: stored_ok_def)
  then obtain c where c: "confidence_value (mr_confidence r) = Some c"
    by (auto simp: memory_record_ok_def)
  have texts: "exact_text_ok (pv_source_id (mr_provenance r))" "utc_ok (mr_observed_at r)"
    "utc_ok (mr_created_at r)" "mr_supersedes r \<noteq> Some (mr_memory_id r)"
    using ok by (simp_all add: memory_record_ok_def provenance_ok_def)
  have links: "(mr_supersedes r = None \<and> mr_revision_reason r \<noteq> None) = False"
    "(case mr_supersedes r of None \<Rightarrow> Inr () | Some _ \<Rightarrow>
       (case mr_revision_reason r of None \<Rightarrow> Inl context_invariant
        | Some reason \<Rightarrow> validate_exact_text context_invariant reason)) = Inr ()"
    using ok by (auto simp: memory_record_ok_def split: option.splits)
  show ?thesis
    unfolding evidence_of_def mk_evidence_reference_def links
    using texts c stored_data [OF assms]
    by (simp add: evidence_ref_def context_copy_def validate_utc_def utc_ok_def
        del: context_json_ok.simps canon.simps)
qed

section \<open>Values\<close>

definition by_id :: "memory_record list \<Rightarrow> bool" where
  "by_id rs \<longleftrightarrow> list_all stored_ok rs \<and> distinct (map mr_memory_id rs) \<and>
     sorted (map (\<lambda>r. uuid_str (mr_memory_id r)) rs)"

lemma by_id_filter: "by_id rs \<Longrightarrow> by_id (filter P rs)"
  by (auto simp: by_id_def list_all_iff distinct_map_filter sorted_filter)

definition value_for :: "memory_record list \<Rightarrow> context_value" where
  "value_for rs =
     \<lparr>cv_evidence = map evidence_ref rs, cv_value = mr_value (hd rs),
      cv_canonical_value = text_of (hd rs)\<rparr>"

lemma value_of_group_total:
  assumes "by_id rs" "rs \<noteq> []"
  shows "value_of_group rs = Inr (value_for rs)"
proof -
  have "traverse evidence_of rs = Inr (map evidence_ref rs)"
    using assms(1) by (intro traverse_map) (auto simp: by_id_def list_all_iff evidence_of_total)
  moreover have "sort_key (\<lambda>e. uuid_str (er_memory_id e)) (map evidence_ref rs) = map evidence_ref rs"
    using assms(1) by (intro sort_key_sorted_id) (simp add: by_id_def o_def)
  moreover have "stored_ok (hd rs)" using assms by (cases rs) (auto simp: by_id_def)
  ultimately show ?thesis
    using assms stored_data
    by (simp add: value_of_group_def mk_context_value_def value_for_def by_id_def o_def context_copy_def
        del: canon.simps)
qed

definition values_for :: "memory_record list \<Rightarrow> context_value list" where
  "values_for rs = map (\<lambda>g. value_for (snd g)) (grouped text_of rs (sorted_set (map text_of rs)))"

lemma group_text:
  assumes "t \<in> text_of ` set rs"
  shows "filter (\<lambda>r. text_of r = t) rs \<noteq> []" "text_of (hd (filter (\<lambda>r. text_of r = t) rs)) = t"
proof -
  show ne: "filter (\<lambda>r. text_of r = t) rs \<noteq> []" using assms by (auto simp: filter_empty_conv)
  show "text_of (hd (filter (\<lambda>r. text_of r = t) rs)) = t" using hd_in_set [OF ne] by simp
qed

lemma values_for_texts: "map cv_canonical_value (values_for rs) = sorted_set (map text_of rs)"
proof -
  have "map (\<lambda>t. text_of (hd (filter (\<lambda>r. text_of r = t) rs))) (sorted_set (map text_of rs)) =
      map id (sorted_set (map text_of rs))"
    using group_text(2) by (intro map_cong) (auto simp del: canon.simps)
  then show ?thesis by (simp add: values_for_def grouped_def value_for_def o_def del: canon.simps)
qed

lemma values_for_evidence:
  "map (\<lambda>v. map er_memory_id (cv_evidence v)) (values_for rs) =
   map (\<lambda>t. map mr_memory_id (filter (\<lambda>r. text_of r = t) rs)) (sorted_set (map text_of rs))"
  by (simp add: values_for_def grouped_def value_for_def o_def)

lemma evidence_pairs_count:
  "evidence_pairs vs = cross_count (map (\<lambda>v. map er_memory_id (cv_evidence v)) vs)"
  by (induction vs) (simp_all add: o_def)

text \<open>The pairs of memories of a list that differ in their canonical text.\<close>

definition differing_pairs :: "memory_record list \<Rightarrow> uuid set set" where
  "differing_pairs rs =
     {{mr_memory_id a, mr_memory_id b} |a b. a \<in> set rs \<and> b \<in> set rs \<and> text_of a \<noteq> text_of b}"

lemma values_for_pairs:
  assumes "distinct (map mr_memory_id rs)"
  shows "evidence_pairs (values_for rs) = card (differing_pairs rs)"
    "distinct (entry_evidence_ids (values_for rs))"
proof -
  let ?ts = "sorted_set (map text_of rs)"
  let ?gs = "map (\<lambda>t. map mr_memory_id (filter (\<lambda>r. text_of r = t) rs)) ?ts"
  have d: "distinct (concat ?gs)" by (rule grouped_concat) (use assms in simp_all)
  have "cross_pairs ?gs = differing_pairs rs"
    by (subst cross_pairs_grouped) (auto simp: differing_pairs_def simp del: canon.simps)
  with card_cross_pairs [OF d] show "evidence_pairs (values_for rs) = card (differing_pairs rs)"
    by (simp add: evidence_pairs_count values_for_evidence del: canon.simps)
  show "distinct (entry_evidence_ids (values_for rs))"
    using d by (simp add: entry_evidence_ids_def values_for_evidence del: canon.simps)
qed

lemma entry_evidence_values: "set (entry_evidence_ids (values_for rs)) = mr_memory_id ` set rs"
proof -
  have "set (entry_evidence_ids (values_for rs)) =
      (\<Union>t \<in> text_of ` set rs. mr_memory_id ` {r \<in> set rs. text_of r = t})"
    by (simp add: entry_evidence_ids_def values_for_evidence del: canon.simps)
  then show ?thesis by auto
qed

section \<open>Entries\<close>

definition entry_for :: "uuid list \<Rightarrow> context_identity \<Rightarrow> memory_record list \<Rightarrow> context_entry" where
  "entry_for ids i rs =
     \<lparr>ce_identity = i,
      ce_state = (if card (text_of ` set rs) = 1 then CtxResolved else CtxConflicted),
      ce_values = values_for rs, ce_conflict_ids = sort_key uuid_str ids\<rparr>"

lemma length_texts: "length (sorted_set (map text_of rs)) = card (text_of ` set rs)"
  by (simp add: sorted_set_def length_remdups_card_conv del: canon.simps)

lemma differing_pairs_empty: "differing_pairs rs = {} \<longleftrightarrow> card (text_of ` set rs) \<le> 1"
proof -
  have "card (text_of ` set rs) \<le> 1 \<longleftrightarrow> (\<forall>a \<in> set rs. \<forall>b \<in> set rs. text_of a = text_of b)"
    using card_le_Suc0_iff_eq [of "text_of ` set rs"] by (simp del: canon.simps)
  then show ?thesis by (auto simp: differing_pairs_def simp del: canon.simps)
qed

lemma finite_differing: "finite (differing_pairs rs)"
proof -
  have "differing_pairs rs \<subseteq> (\<lambda>(a, b). {mr_memory_id a, mr_memory_id b}) ` (set rs \<times> set rs)"
    by (auto simp: differing_pairs_def)
  then show ?thesis by (rule finite_subset) simp
qed

lemma entry_of_group_total:
  assumes rs: "by_id rs" "rs \<noteq> []"
    and ids: "distinct (group_get G i)" "length (group_get G i) = card (differing_pairs rs)"
  shows "entry_of_group G (i, rs) = Inr (entry_for (group_get G i) i rs)"
proof -
  let ?ids = "group_get G i" and ?ts = "sorted_set (map text_of rs)"
  have "context_canonicalize (mr_value r) = Inr (text_of r)" if "r \<in> set rs" for r
    using that rs(1) stored_data(1) by (auto simp: by_id_def list_all_iff)
  then obtain ks where ks: "group_by (\<lambda>r. context_canonicalize (mr_value r)) (\<lambda>r. r) rs =
      Inr (grouped text_of rs ks)" "distinct ks" "set ks = text_of ` set rs"
    by (rule group_by_grouped)
  have sorted_ks: "sort ks = ?ts" using ks(2,3) by (intro sort_sorted_set) (simp_all del: canon.simps)
  have "value_of_group (snd g) = Inr (value_for (snd g))" if "g \<in> set (grouped text_of rs ?ts)" for g
    using that group_text(1) by_id_filter [OF rs(1)]
    by (auto simp: grouped_def intro!: value_of_group_total simp del: canon.simps)
  then have vals: "traverse (\<lambda>g. value_of_group (snd g)) (grouped text_of rs ?ts) = Inr (values_for rs)"
    unfolding values_for_def by (rule traverse_map)
  have len: "length (values_for rs) = card (text_of ` set rs)"
    using arg_cong [OF values_for_texts [of rs], of length] length_texts by (simp del: canon.simps)
  define n where "n = card (text_of ` set rs)"
  have "n \<noteq> 0" using rs(2) by (simp add: n_def del: canon.simps)
  then have "n = 1 \<or> 2 \<le> n" by arith
  moreover have "?ids = [] \<longleftrightarrow> n \<le> 1"
    unfolding n_def using ids(2) finite_differing [of rs] differing_pairs_empty [of rs] by (metis card_eq_0_iff length_0_conv)
  moreover have "sorted_uuids (sort_key uuid_str ?ids) = sort_key uuid_str ?ids"
    using ids(1) by (simp add: sorted_uuids_id)
  ultimately show ?thesis
    using values_for_texts [of rs] values_for_pairs [of rs] rs(1) ids(2)
    by (auto simp: entry_of_group_def ks(1) sort_grouped sorted_ks vals mk_context_entry_def entry_for_def
        len by_id_def simp flip: n_def simp del: canon.simps)
qed

section \<open>All entries\<close>

definition memories_of :: "memory_record list \<Rightarrow> context_identity \<Rightarrow> memory_record list" where
  "memories_of ms i = filter (\<lambda>r. identity_of r = i) (relevant ms)"

definition conflict_ids_of :: "memory_conflict list \<Rightarrow> context_identity \<Rightarrow> uuid list" where
  "conflict_ids_of cs i =
     map mc_conflict_id (filter (\<lambda>c. identity_of (mc_left c) = i) (relevant_conflicts cs))"

definition entry_at :: "memory_record list \<Rightarrow> memory_conflict list \<Rightarrow> context_identity \<Rightarrow> context_entry"
where
  "entry_at ms cs i = entry_for (conflict_ids_of cs i) i (memories_of ms i)"

lemma entry_at_identity [simp]: "ce_identity (entry_at ms cs i) = i"
  by (simp add: entry_at_def entry_for_def)

lemma relevant_by_id:
  assumes "coherent_reads owner ms cs"
  shows "by_id (relevant ms)"
  using assms by (auto simp: by_id_def coherent_reads_def owned_def list_all_iff relevant_distinct)
    (simp add: relevant_def)

lemma conflict_count:
  assumes "coherent_reads owner ms cs"
  shows "distinct (conflict_ids_of cs i)"
    "length (conflict_ids_of cs i) = card (differing_pairs (memories_of ms i))"
proof -
  let ?cs = "filter (\<lambda>c. identity_of (mc_left c) = i) (relevant_conflicts cs)"
  have "distinct (map mc_conflict_id cs)" "distinct (map memory_pair cs)"
    using assms by (simp_all add: coherent_reads_def)
  then have d: "distinct (map mc_conflict_id ?cs)" "distinct (map memory_pair ?cs)"
    by (simp_all add: relevant_conflicts_def distinct_map_filter)
  then show "distinct (conflict_ids_of cs i)" by (simp add: conflict_ids_of_def)
  have open_c: "open_conflict ms c" if "c \<in> set cs" for c
    using assms that by (auto simp: coherent_reads_def list_all_iff)
  have ids: "a = b" if "a \<in> set ms" "b \<in> set ms" "mr_memory_id a = mr_memory_id b" for a b
    using assms that by (auto simp: coherent_reads_def distinct_map dest: inj_onD)
  have "memory_pair ` set ?cs = differing_pairs (memories_of ms i)"
  proof (intro equalityI subsetI)
    fix p assume "p \<in> memory_pair ` set ?cs"
    then obtain c where c: "c \<in> set cs" "supported (mc_left c)" "identity_of (mc_left c) = i"
      "p = memory_pair c" by (auto simp: relevant_conflicts_def)
    note o = open_c [OF c(1)]
    then have "supported (mc_right c)" "identity_of (mc_right c) = i"
      using c(2,3) supported_key [of "mc_left c" "mc_right c"] identity_of_eq [of "mc_left c" "mc_right c"]
      by (auto simp: open_conflict_def)
    then show "p \<in> differing_pairs (memories_of ms i)"
      using c o unfolding differing_pairs_def memories_of_def open_conflict_def memory_pair_def by auto
  next
    fix p assume "p \<in> differing_pairs (memories_of ms i)"
    then obtain a b where ab: "a \<in> set ms" "supported a" "identity_of a = i" "b \<in> set ms" "supported b"
      "identity_of b = i" "text_of a \<noteq> text_of b" "p = {mr_memory_id a, mr_memory_id b}"
      by (auto simp: differing_pairs_def memories_of_def)
    then have "memory_key a = memory_key b" using identity_of_eq [of a b] by simp
    then have "contradict a b"
      using ab assms by (auto simp: contradict_def coherent_reads_def owned_def list_all_iff)
    then have "p \<in> contradictions (relevant ms)" using ab unfolding contradictions_def by auto
    then obtain c where c: "c \<in> set (relevant_conflicts cs)" "p = memory_pair c"
      using relevant_pairs [OF assms] by (metis imageE)
    have o: "open_conflict ms c" using c(1) by (intro open_c) (simp add: relevant_conflicts_def)
    have "mr_memory_id (mc_left c) \<in> p" using c(2) by (simp add: memory_pair_def)
    then have "mc_left c = a \<or> mc_left c = b" using o ab ids by (auto simp: open_conflict_def)
    then show "p \<in> memory_pair ` set ?cs" using c ab by auto
  qed
  then show "length (conflict_ids_of cs i) = card (differing_pairs (memories_of ms i))"
    using distinct_card [OF d(2)] by (simp add: conflict_ids_of_def)
qed

lemma build_entries_total:
  assumes "coherent_reads owner ms cs"
  obtains keys where "build_entries (relevant ms) (relevant_conflicts cs) = Inr (map (entry_at ms cs) keys)"
    "distinct keys" "sorted (map identity_key keys)" "set keys = identity_of ` set (relevant ms)"
proof -
  note byid = relevant_by_id [OF assms]
  have "identity_for r = Inr (identity_of r)" if "r \<in> set (relevant ms)" for r
    using that byid by (intro identity_for_total) (auto simp: by_id_def list_all_iff)
  then obtain ks where ks: "group_by identity_for (\<lambda>r. r) (relevant ms) =
      Inr (grouped identity_of (relevant ms) ks)" "distinct ks" "set ks = identity_of ` set (relevant ms)"
    by (rule group_by_grouped)
  have "identity_for (mc_left c) = Inr (identity_of (mc_left c))" if "c \<in> set (relevant_conflicts cs)" for c
    using that assms by (intro identity_for_total)
      (auto simp: relevant_conflicts_def coherent_reads_def list_all_iff open_conflict_def owned_def)
  note groups = group_by_total [of "relevant_conflicts cs" "\<lambda>c. identity_for (mc_left c)", OF this,
      of mc_conflict_id]
  let ?G = "group_pairs (map (\<lambda>c. (identity_of (mc_left c), mc_conflict_id c)) (relevant_conflicts cs))"
  have get: "group_get ?G i = conflict_ids_of cs i" for i
    unfolding group_get_pairs conflict_ids_of_def by (simp add: filter_map o_def)
  have "entry_of_group ?G g = Inr (entry_at ms cs (fst g))"
    if "g \<in> set (grouped identity_of (relevant ms) ks)" for g
  proof -
    from that obtain i where i: "i \<in> identity_of ` set (relevant ms)" "g = (i, memories_of ms i)"
      using ks(3) by (auto simp: grouped_def memories_of_def)
    then have "memories_of ms i \<noteq> []" by (auto simp: memories_of_def filter_empty_conv)
    then show ?thesis
      using conflict_count [OF assms, of i] by_id_filter [OF byid]
      by (simp add: i(2) entry_at_def entry_of_group_total get memories_of_def)
  qed
  then have "traverse (entry_of_group ?G) (grouped identity_of (relevant ms) ks) =
      Inr (map (\<lambda>g. entry_at ms cs (fst g)) (grouped identity_of (relevant ms) ks))"
    by (rule traverse_map)
  moreover have "map (\<lambda>g. entry_at ms cs (fst g)) (grouped identity_of (relevant ms) ks) = map (entry_at ms cs) ks"
    by (simp add: grouped_def o_def)
  ultimately have "build_entries (relevant ms) (relevant_conflicts cs) =
      Inr (map (entry_at ms cs) (sort_key identity_key ks))"
    by (simp add: build_entries_def ks(1) groups sort_key_map o_def)
  then show ?thesis using ks by (intro that [of "sort_key identity_key ks"]) simp_all
qed

end
