(* ===== verification/Context_Snapshot.thy ===== *)
theory Context_Snapshot
  imports Context_Entries
begin

text \<open>
  The projector on coherent reads: it always returns a well-formed snapshot, with the entry of every
  identity given by the active memories and the open conflicts of that identity.
\<close>

section \<open>The version of a snapshot\<close>

definition documentable :: "pyval res \<Rightarrow> bool" where
  "documentable d \<longleftrightarrow> (\<exists>v. d = Inr v \<and> context_json_ok v \<and> ints_printable v)"

lemma documentable_Inr [simp]: "documentable (Inr v) \<longleftrightarrow> context_json_ok v \<and> ints_printable v"
  by (simp add: documentable_def)

lemma obj_ok:
  "context_json_ok (obj kvs) \<longleftrightarrow> list_all (\<lambda>kv. context_json_ok (snd kv)) kvs"
  "ints_printable (obj kvs) \<longleftrightarrow> list_all (\<lambda>kv. ints_printable (snd kv)) kvs"
  by (auto simp: obj_def list_all_iff)

lemma str_list_ok: "context_json_ok (str_list ss)" "ints_printable (str_list ss)"
  by (simp_all add: str_list_def list_all_iff)

lemma pystr_option_ok: "context_json_ok (pystr_option s)" "ints_printable (pystr_option s)"
  by (simp_all add: pystr_option_def split: option.splits)

lemma documentable_traverse:
  assumes "\<And>x. x \<in> set xs \<Longrightarrow> documentable (f x)"
  obtains ds where "traverse f xs = Inr ds" "list_all context_json_ok ds" "list_all ints_printable ds"
proof -
  have "\<exists>ds. traverse f xs = Inr ds \<and> list_all context_json_ok ds \<and> list_all ints_printable ds"
    using assms
  proof (induction xs)
    case (Cons x xs)
    then obtain d where "f x = Inr d" "context_json_ok d" "ints_printable d"
      unfolding documentable_def by (metis list.set_intros(1))
    with Cons show ?case by auto
  qed simp
  with that show ?thesis by blast
qed

lemma confidence_finite: "confidence_value c = Some x \<Longrightarrow> x \<noteq> NonFinite"
  by (cases c rule: confidence_value.cases) (auto split: if_splits)

lemma evidence_documentable:
  assumes "stored_ok r"
  shows "documentable (evidence_document (evidence_ref r))"
proof -
  obtain c where "confidence_value (mr_confidence r) = Some c"
    using assms by (auto simp: stored_ok_def memory_record_ok_def)
  then show ?thesis
    using stored_data(2,3) [OF assms] confidence_finite
    by (auto simp: evidence_document_def evidence_ref_def context_dict_copy_def context_copy_def obj_ok
        pystr_option_ok simp del: context_json_ok.simps(3) ints_printable.simps(3))
qed

lemma value_documentable:
  assumes "list_all stored_ok rs" "rs \<noteq> []"
  shows "documentable (value_document (value_for rs))"
proof -
  have "stored_ok (hd rs)" using assms by (cases rs) simp_all
  note data = stored_data(2,3) [OF this]
  have "documentable (evidence_document e)" if "e \<in> set (map evidence_ref rs)" for e
    using that assms(1) by (auto simp: list_all_iff evidence_documentable)
  then obtain ds where "traverse evidence_document (map evidence_ref rs) = Inr ds"
    "list_all context_json_ok ds" "list_all ints_printable ds" by (rule documentable_traverse)
  then show ?thesis using data by (simp add: value_document_def value_for_def context_copy_def obj_ok)
qed

lemma entry_documentable:
  assumes "list_all stored_ok rs"
  shows "documentable (entry_document (entry_for ids i rs))"
proof -
  have "documentable (value_document v)" if "v \<in> set (values_for rs)" for v
  proof -
    from that obtain t where "t \<in> text_of ` set rs" "v = value_for (filter (\<lambda>r. text_of r = t) rs)"
      by (auto simp: values_for_def grouped_def simp del: canon.simps)
    then show ?thesis
      using assms group_text(1) by (auto intro!: value_documentable simp: list_all_iff simp del: canon.simps)
  qed
  then obtain ds where "traverse value_document (values_for rs) = Inr ds"
    "list_all context_json_ok ds" "list_all ints_printable ds" by (rule documentable_traverse)
  then show ?thesis by (simp add: entry_document_def entry_for_def obj_ok str_list_ok)
qed

lemma version_total:
  assumes "\<And>e. e \<in> set es \<Longrightarrow> documentable (entry_document e)"
  shows "\<exists>v. compute_snapshot_version owner es = Inr v"
proof -
  obtain ds where "traverse entry_document es = Inr ds" "list_all context_json_ok ds"
    "list_all ints_printable ds" using assms by (rule documentable_traverse)
  then show ?thesis
    by (simp add: compute_snapshot_version_def context_canonicalize_def obj_ok del: canon.simps)
qed

section \<open>The projection\<close>

lemma identities_sorted:
  "unsorted_by context_entry_eq (\<lambda>e. identity_key (ce_identity e)) es \<longleftrightarrow>
     \<not> sorted (map (\<lambda>e. identity_key (ce_identity e)) es)"
  by (rule unsorted_by_iff) (auto simp: context_entry_eq_def)

definition snapshot_entries :: "memory_record list \<Rightarrow> memory_conflict list \<Rightarrow> context_entry set" where
  "snapshot_entries ms cs = entry_at ms cs ` identity_of ` {r \<in> set ms. supported r}"

lemma project_total:
  assumes coh: "coherent_reads owner ms cs" and owner: "exact_text_ok owner"
  obtains s where "project owner ms cs = Inr s" "pcs_owner_subject s = owner" "snapshot_ok s"
    "set (pcs_entries s) = snapshot_entries ms cs" "compute_snapshot_version owner (pcs_entries s) = Inr (pcs_version s)"
proof -
  obtain keys where b: "build_entries (relevant ms) (relevant_conflicts cs) = Inr (map (entry_at ms cs) keys)"
    and keys: "distinct keys" "sorted (map identity_key keys)" "set keys = identity_of ` set (relevant ms)"
    by (rule build_entries_total [OF coh])
  let ?es = "map (entry_at ms cs) keys"
  have all: "list_all stored_ok (memories_of ms i)" for i
    using relevant_by_id [OF coh] by (auto simp: by_id_def memories_of_def list_all_iff)
  have "documentable (entry_document e)" if "e \<in> set ?es" for e
    using that all by (auto simp: entry_at_def entry_documentable)
  then obtain v where v: "compute_snapshot_version owner ?es = Inr v"
    using version_total [of ?es owner] by blast
  have "ci_subject i = owner" if "i \<in> set keys" for i
    using that keys(3) coh by (auto simp: identity_of_def coherent_reads_def owned_def list_all_iff)
  then have "mk_context_snapshot owner ?es v =
      Inr \<lparr>pcs_owner_subject = owner, pcs_entries = ?es, pcs_version = v\<rparr>" (is "_ = Inr ?s")
    using keys owner v
    by (simp add: mk_context_snapshot_def validate_owner_subject_def identities_sorted o_def list_ex_iff)
  then have p: "project owner ms cs = Inr ?s"
    using coh owner b v validated_conflicts_total [OF coh] require_complete_total [OF coh]
    by (simp add: project_def validate_owner_subject_def coherent_reads_def validated_memories_total)
  have "entry_ok e" if "e \<in> set ?es" for e
  proof -
    from that obtain i where i: "e = entry_at ms cs i" "i \<in> identity_of ` set (relevant ms)"
      using keys(3) by auto
    then have "memories_of ms i \<noteq> []" by (auto simp: memories_of_def filter_empty_conv)
    moreover have "group_get [(i, conflict_ids_of cs i)] i = conflict_ids_of cs i" by (simp add: group_get_def)
    ultimately have "entry_of_group [(i, conflict_ids_of cs i)] (i, memories_of ms i) = Inr e"
      using conflict_count [OF coh, of i] by_id_filter [OF relevant_by_id [OF coh]]
      by (simp add: i(1) entry_at_def memories_of_def entry_of_group_total)
    then obtain vals where vals: "mk_context_entry i (if length vals = 1 then CtxResolved else CtxConflicted)
        vals (sort_key uuid_str (conflict_ids_of cs i)) = Inr e"
      by (auto simp: entry_of_group_def res_simps group_get_def)
    then have "vals = values_for (memories_of ms i)"
      by (auto simp: mk_context_entry_def res_simps i(1) entry_at_def entry_for_def)
    moreover have "cv_evidence v \<noteq> []" if "v \<in> set (values_for rs)" for v rs
      using that group_text(1) [of _ rs]
      by (auto simp: values_for_def grouped_def value_for_def simp del: canon.simps)
    ultimately show ?thesis
      using mk_context_entry_ok [OF vals] by (simp add: list_all_iff)
  qed
  then have "snapshot_ok ?s"
    using \<open>mk_context_snapshot owner ?es v = Inr ?s\<close> by (intro mk_context_snapshot_ok) auto
  with p v keys(3) show ?thesis
    by (intro that) (auto simp: snapshot_entries_def)
qed

end
