(* ===== verification/Context_Source.thy ===== *)
theory Context_Source
  imports Context_Snapshot
begin

text \<open>
  The interface between the projector and Memory OS: a source whose two reads are coherent. The stores
  that a program can reach are such a source. When the store changes between the two reads, a snapshot
  that is returned is the one of the first read.
\<close>

section \<open>The interface\<close>

locale memory_source =
  fixes source :: "'s \<Rightarrow> bool"
    and active_read :: "string \<Rightarrow> 's \<Rightarrow> memory_record list res"
    and conflict_read :: "string \<Rightarrow> 's \<Rightarrow> memory_conflict list res"
  assumes coherent:
    "source s \<Longrightarrow> exact_text_ok owner \<Longrightarrow> \<exists>ms cs. active_read owner s = Inr ms \<and>
       conflict_read owner s = Inr cs \<and> coherent_reads owner ms cs"
begin

lemma snapshot_total:
  assumes "source s" "exact_text_ok owner"
  obtains ms cs p where "active_read owner s = Inr ms" "conflict_read owner s = Inr cs"
    "coherent_reads owner ms cs" "project owner ms cs = Inr p" "snapshot_ok p"
    "pcs_owner_subject p = owner" "set (pcs_entries p) = snapshot_entries ms cs"
    "compute_snapshot_version owner (pcs_entries p) = Inr (pcs_version p)"
proof -
  obtain ms cs where r: "active_read owner s = Inr ms" "conflict_read owner s = Inr cs"
    "coherent_reads owner ms cs" using coherent [OF assms] by blast
  from project_total [OF r(3) assms(2)] show ?thesis using that [OF r] by metis
qed

lemma reads_never_inconsistent:
  assumes "source s" "exact_text_ok owner"
  shows "tryE (active_read owner s) (\<lambda>ms. tryE (conflict_read owner s) (project owner ms)) \<noteq>
    Inl inconsistent_source"
  using snapshot_total [OF assms] by (metis sum.distinct(1) tryE_simps(2))

end

section \<open>The reads of Memory OS\<close>

definition active_memories :: "string \<Rightarrow> memory_state \<Rightarrow> memory_record list" where
  "active_memories owner st =
     sort_key record_order (filter (\<lambda>r. mr_subject r = owner \<and> mr_status r = Active) (st_records st))"

definition owner_conflicts :: "string \<Rightarrow> memory_state \<Rightarrow> stored_conflict list" where
  "owner_conflicts owner st =
     sort_key spec_conflict_order (filter (conflict_listed (Some owner) None False st) (st_conflicts st))"

lemma query_active:
  assumes "store_inv s" "ss_open s" "exact_text_ok owner"
  shows "query_memories None (Some owner) None True s = Inr (active_memories owner (memory_state s))"
proof -
  let ?q = "\<lparr>mq_memory_type = None, mq_subject = Some owner, mq_predicate = None, mq_active_only = True\<rparr>"
  have "query_matches ?q = (\<lambda>r. mr_subject r = owner \<and> mr_status r = Active)"
    by (auto simp: query_matches_def)
  then show ?thesis
    using assms select_memories_spec [of "memory_state s" "ss_database s" ?q]
    by (simp add: query_memories_def check_memory_query_def validate_optional_text_def
        validate_nonempty_text_def query_stored_memories_def with_connection_def active_memories_def
        store_inv_def)
qed

lemma list_open:
  assumes "store_inv s" "ss_open s" "exact_text_ok owner"
  shows "list_conflicts (Some owner) None False s =
    Inr (map (spec_conflict (memory_state s)) (owner_conflicts owner (memory_state s)))"
  using assms select_conflicts_spec [of "memory_state s" "ss_database s" False "Some owner" None]
  by (simp add: list_conflicts_def list_stored_conflicts_def validate_optional_text_def
      validate_nonempty_text_def with_connection_def owner_conflicts_def store_inv_def memory_inv_def)

lemma active_memories_set [simp]:
  "set (active_memories owner st) = {r \<in> set (st_records st). mr_subject r = owner \<and> mr_status r = Active}"
  by (auto simp: active_memories_def)

lemma owner_conflict_sides:
  assumes inv: "memory_inv st" and c: "c \<in> set (owner_conflicts owner st)"
  shows "open_conflict (active_memories owner st) (spec_conflict st c)"
    "memory_pair (spec_conflict st c) = conflict_pair c" "c \<in> set (st_conflicts st)"
proof -
  show member: "c \<in> set (st_conflicts st)" using c by (simp add: owner_conflicts_def)
  have listed: "sc_resolved_at c = None" "mr_subject (the (spec_find (sc_left c) st)) = owner"
    using c by (auto simp: owner_conflicts_def conflict_listed_def column_is_def)
  from open_conflict_sides [OF inv member listed(1)] obtain a b where
    ab: "a \<in> set (st_records st)" "b \<in> set (st_records st)" "contradict a b"
      "sc_left c = mr_memory_id a" "sc_right c = mr_memory_id b"
      "spec_find (sc_left c) st = Some a" "spec_find (sc_right c) st = Some b" by metis
  then show "open_conflict (active_memories owner st) (spec_conflict st c)"
    using listed by (auto simp: open_conflict_def spec_conflict_def contradict_def memory_key_def)
  show "memory_pair (spec_conflict st c) = conflict_pair c"
    using ab by (simp add: memory_pair_def spec_conflict_def conflict_pair_def)
qed

lemma spec_conflict_id [simp]: "mc_conflict_id (spec_conflict st c) = sc_id c"
  by (simp add: spec_conflict_def)

lemma store_coherent:
  assumes inv: "store_inv s"
  shows "coherent_reads owner (active_memories owner (memory_state s))
    (map (spec_conflict (memory_state s)) (owner_conflicts owner (memory_state s)))"
proof -
  let ?st = "memory_state s" and ?ms = "active_memories owner (memory_state s)"
  let ?cs = "owner_conflicts owner (memory_state s)"
  have minv: "memory_inv ?st" and rep: "represents ?st (ss_database s)"
    using inv by (simp_all add: store_inv_def)
  note sides = owner_conflict_sides [OF minv]
  have "list_all (owned owner) ?ms"
    using represents_stored [OF rep] by (auto simp: list_all_iff owned_def)
  moreover have "distinct (map mr_memory_id ?ms)"
    using minv by (simp add: memory_inv_def active_memories_def distinct_map_filter)
  moreover have "list_all (open_conflict ?ms) (map (spec_conflict ?st) ?cs)"
    using sides(1) by (auto simp: list_all_iff)
  moreover have "distinct (map mc_conflict_id (map (spec_conflict ?st) ?cs))"
    using store_inv_conflict_ids [OF inv] by (simp add: o_def owner_conflicts_def distinct_map_filter)
  moreover have pairs: "map memory_pair (map (spec_conflict ?st) ?cs) = map conflict_pair ?cs"
    using sides(2) by simp
  moreover have "distinct (map conflict_pair ?cs)"
    using minv by (simp add: memory_inv_def owner_conflicts_def distinct_map_filter)
  moreover have "conflict_pair ` set ?cs = contradictions ?ms"
  proof (intro equalityI subsetI)
    fix p assume "p \<in> conflict_pair ` set ?cs"
    then obtain c where c: "c \<in> set ?cs" "p = memory_pair (spec_conflict ?st c)" using sides(2) by auto
    from sides(1) [OF c(1)] show "p \<in> contradictions ?ms"
      unfolding c(2) contradictions_def open_conflict_def memory_pair_def contradict_def by auto
  next
    fix p assume "p \<in> contradictions ?ms"
    then obtain a b where ab: "a \<in> set ?ms" "b \<in> set ?ms" "contradict a b"
      "p = {mr_memory_id a, mr_memory_id b}" by (auto simp: contradictions_def)
    then have "p \<in> contradictions (st_records ?st)" unfolding contradictions_def by auto
    then obtain c where c: "c \<in> set (st_conflicts ?st)" "sc_resolved_at c = None" "p = conflict_pair c"
      using minv by (auto simp: memory_inv_def open_pairs_def)
    from open_conflict_sides [OF minv c(1,2)] obtain x where x: "x \<in> set (st_records ?st)"
      "sc_left c = mr_memory_id x" "spec_find (sc_left c) ?st = Some x" by metis
    have "mr_memory_id x \<in> p" using c(3) x(2) by (simp add: conflict_pair_def)
    then have "x = a \<or> x = b"
      using ab minv x(1) by (auto simp: memory_inv_def distinct_map dest: inj_onD)
    then have "mr_subject x = owner" using ab by auto
    then have "c \<in> set ?cs"
      using c x by (simp add: owner_conflicts_def conflict_listed_def column_is_def)
    with c(3) show "p \<in> conflict_pair ` set ?cs" by blast
  qed
  ultimately show ?thesis
    unfolding coherent_reads_def by (metis list.set_map)
qed

interpretation memory_os: memory_source "\<lambda>s. reachable_store s \<and> ss_open s"
  "\<lambda>owner. query_memories None (Some owner) None True" "\<lambda>owner. list_conflicts (Some owner) None False"
proof
  fix s owner assume s: "reachable_store s \<and> ss_open s" and owner: "exact_text_ok owner"
  then have inv: "store_inv s" by (simp add: reachable_store_inv)
  show "\<exists>ms cs. query_memories None (Some owner) None True s = Inr ms \<and>
      list_conflicts (Some owner) None False s = Inr cs \<and> coherent_reads owner ms cs"
    using query_active [OF inv _ owner] list_open [OF inv _ owner] store_coherent [OF inv] s by blast
qed

end
