(* ===== verification/Context_Torn.thy ===== *)
theory Context_Torn
  imports Context_Source
begin

text \<open>
  Reads that a change of the store separates: the projector checks the conflicts of the second read
  against the memories of the first one, so that it returns the snapshot of the store at the time of the
  first read or raises \<open>InconsistentSourceStateError\<close>.
\<close>

section \<open>What the checks on the conflicts establish\<close>

lemma check_conflict_True:
  assumes "check_conflict owner active ids pairs c = Inr True"
  shows "mc_conflict_id c \<notin> set ids" "signature_differs active (mc_left c) = Inr False"
  using assms by (auto simp: check_conflict_def Let_def res_simps split: if_splits)

lemma collect_conflicts_Inr:
  "collect_conflicts owner active ids pairs cs = Inr vs \<Longrightarrow>
   set vs \<subseteq> {c \<in> set cs. signature_differs active (mc_left c) = Inr False} \<and>
   distinct (map mc_conflict_id vs) \<and> set ids \<inter> mc_conflict_id ` set vs = {}"
proof (induction owner active ids pairs cs arbitrary: vs rule: collect_conflicts.induct)
  case (2 owner active ids pairs c cs)
  from "2.prems" obtain rel where rel: "check_conflict owner active ids pairs c = Inr rel"
    by (auto simp: res_simps)
  show ?case
  proof (cases rel)
    case True
    with "2.prems" rel obtain rest where rest: "vs = c # rest"
      "collect_conflicts owner active (mc_conflict_id c # ids) (memory_pair c # pairs) cs = Inr rest"
      by (auto simp: res_simps)
    from "2.IH"(1) [OF rel True rest(2)] show ?thesis
      using check_conflict_True [of owner active ids pairs c] rel True rest(1) by auto
  next
    case False
    with "2.prems" rel have "collect_conflicts owner active ids pairs cs = Inr vs" by simp
    from "2.IH"(2) [OF rel False this] show ?thesis by auto
  qed
qed simp

lemma validated_conflicts_Inr:
  assumes "validated_conflicts owner active cs = Inr vs"
  shows "set vs \<subseteq> {c \<in> set cs. signature_differs active (mc_left c) = Inr False}"
    "distinct (map mc_conflict_id vs)" "sorted (map (\<lambda>c. uuid_str (mc_conflict_id c)) vs)"
  using assms collect_conflicts_Inr
  by (fastforce simp: validated_conflicts_def res_simps)+

lemma same_signature_identity:
  assumes "signature_differs active m = Inr False" "distinct (map mr_memory_id active)"
    and "r \<in> set active" "mr_memory_id r = mr_memory_id m"
  shows "identity_for m = identity_for r"
proof -
  have "index_get mr_memory_id active (mr_memory_id m) = Some r"
    using assms(2-4) by (simp add: index_get_Some)
  then have "record_signature r = record_signature m" "\<exists>s. record_signature m = Inr s"
    using assms(1) by (auto simp: signature_differs_def res_simps)
  then show ?thesis by (auto simp: record_signature_def identity_for_def res_simps cong: option.case_cong)
qed

section \<open>The same conflicts\<close>

definition conflict_tag :: "memory_conflict \<Rightarrow> context_identity res \<times> uuid" where
  "conflict_tag c = (identity_for (mc_left c), mc_conflict_id c)"

lemma build_entries_tags:
  assumes "map conflict_tag cs = map conflict_tag ds"
  shows "build_entries ms cs = build_entries ms ds"
proof -
  have "traverse (\<lambda>c. tryE (identity_for (mc_left c)) (\<lambda>k. Inr (k, mc_conflict_id c))) xs =
      traverse (\<lambda>(i, n). tryE i (\<lambda>k. Inr (k, n))) (map conflict_tag xs)" for xs
    by (induction xs) (simp_all add: conflict_tag_def)
  with assms show ?thesis by (simp add: build_entries_def group_by_def)
qed

lemma same_tags:
  assumes tags: "conflict_tag ` set xs = conflict_tag ` set ys"
    and dist: "distinct (map mc_conflict_id xs)" "distinct (map mc_conflict_id ys)"
    and sorted: "sorted (map (\<lambda>c. uuid_str (mc_conflict_id c)) xs)"
      "sorted (map (\<lambda>c. uuid_str (mc_conflict_id c)) ys)"
  shows "map conflict_tag xs = map conflict_tag ys"
proof (rule map_sorted_distinct_set_unique [where f = "\<lambda>t. uuid_str (snd t)"])
  have snd_tag: "map (\<lambda>t. uuid_str (snd t)) (map conflict_tag zs) =
      map (\<lambda>c. uuid_str (mc_conflict_id c)) zs" for zs
    by (simp add: conflict_tag_def)
  have d: "distinct (map (\<lambda>c. uuid_str (mc_conflict_id c)) zs)" if "distinct (map mc_conflict_id zs)" for zs
    using that by (auto simp: distinct_map inj_on_def)
  show "sorted (map (\<lambda>t. uuid_str (snd t)) (map conflict_tag xs))"
    "sorted (map (\<lambda>t. uuid_str (snd t)) (map conflict_tag ys))"
    "distinct (map (\<lambda>t. uuid_str (snd t)) (map conflict_tag xs))"
    "distinct (map (\<lambda>t. uuid_str (snd t)) (map conflict_tag ys))"
    unfolding snd_tag using dist sorted d by simp_all
  show "set (map conflict_tag xs) = set (map conflict_tag ys)" using tags by simp
  have "inj_on (\<lambda>t. uuid_str (snd t)) (conflict_tag ` set xs)"
    using dist(1) by (auto simp: inj_on_def conflict_tag_def distinct_map)
  then show "inj_on (\<lambda>t. uuid_str (snd t)) (set (map conflict_tag xs) \<union> set (map conflict_tag ys))"
    using tags by simp
qed

section \<open>Torn reads\<close>

definition named :: "memory_store \<Rightarrow> memory_conflict \<Rightarrow> bool" where
  "named s c \<longleftrightarrow>
     (mc_conflict_id c, mr_memory_id (mc_left c), mr_memory_id (mc_right c)) \<in> conflict_names s"

lemma listed_named:
  assumes "store_inv s" "c \<in> set (map (spec_conflict (memory_state s)) (owner_conflicts owner (memory_state s)))"
  shows "named s c"
proof -
  have inv: "memory_inv (memory_state s)" using assms(1) by (simp add: store_inv_def)
  obtain d where d: "d \<in> set (owner_conflicts owner (memory_state s))" "c = spec_conflict (memory_state s) d"
    using assms(2) by auto
  then have "d \<in> set (st_conflicts (memory_state s))" "sc_resolved_at d = None"
    by (auto simp: owner_conflicts_def conflict_listed_def)
  from open_conflict_sides [OF inv this] obtain a b where
    "sc_left d = mr_memory_id a" "sc_right d = mr_memory_id b"
    "spec_find (sc_left d) (memory_state s) = Some a" "spec_find (sc_right d) (memory_state s) = Some b" by metis
  then show ?thesis
    using \<open>d \<in> set (st_conflicts (memory_state s))\<close>
    by (auto simp: named_def conflict_names_def conflict_name_def d(2) spec_conflict_def intro!: rev_image_eqI)
qed

text \<open>Two conflicts of one store about the same memories are the same conflict.\<close>

lemma named_unique:
  assumes inv: "store_inv s" and "named s c" "named s d" "memory_pair c = memory_pair d"
  shows "mc_conflict_id c = mc_conflict_id d" "mr_memory_id (mc_left c) = mr_memory_id (mc_left d)"
proof -
  obtain x y where xy: "x \<in> set (st_conflicts (memory_state s))" "y \<in> set (st_conflicts (memory_state s))"
    "conflict_name x = (mc_conflict_id c, mr_memory_id (mc_left c), mr_memory_id (mc_right c))"
    "conflict_name y = (mc_conflict_id d, mr_memory_id (mc_left d), mr_memory_id (mc_right d))"
    using assms(2,3) by (auto simp: named_def conflict_names_def)
  then have "conflict_pair x = conflict_pair y"
    using assms(4) by (simp add: conflict_name_def conflict_pair_def memory_pair_def)
  then have "x = y"
    using inv xy(1,2) by (auto simp: store_inv_def memory_inv_def distinct_map dest: inj_onD)
  with xy show "mc_conflict_id c = mc_conflict_id d" "mr_memory_id (mc_left c) = mr_memory_id (mc_left d)"
    by (simp_all add: conflict_name_def)
qed

text \<open>When the checks on the second read pass, the projection is the one of two reads of the first store.\<close>

lemma torn_accepted:
  assumes reach: "reachable_store s" and later: "later_store s s'"
    and open_store: "ss_open s'" and owner: "exact_text_ok owner"
    and ws: "validated_conflicts owner (relevant (active_memories owner (memory_state s)))
      (map (spec_conflict (memory_state s')) (owner_conflicts owner (memory_state s'))) = Inr ws"
    and complete: "require_complete_conflicts (relevant (active_memories owner (memory_state s))) ws = Inr ()"
  shows "build_snapshot owner s s' = build_snapshot owner s s"
proof -
  have inv: "store_inv s" by (rule reachable_store_inv [OF reach])
  have inv': "store_inv s'" using later inv by (rule later_store_inv)
  have names: "conflict_names s \<subseteq> conflict_names s'" and opened: "ss_open s"
    using later_store_names [OF later inv] open_store by simp_all
  let ?ms = "active_memories owner (memory_state s)"
  let ?cs = "map (spec_conflict (memory_state s)) (owner_conflicts owner (memory_state s))"
  let ?ds = "map (spec_conflict (memory_state s')) (owner_conflicts owner (memory_state s'))"
  note reads = query_active [OF inv opened owner] list_open [OF inv opened owner]
    list_open [OF inv' open_store owner]
  note coh = store_coherent [OF inv, of owner]
  let ?rel = "relevant ?ms" and ?vs = "relevant_conflicts ?cs"
  have mems: "validated_memories owner ?ms = Inr ?rel"
    using coh by (intro validated_memories_total) (simp_all add: coherent_reads_def)
  note w = validated_conflicts_Inr [OF ws]
  have v: "set ?vs \<subseteq> set ?cs" "distinct (map mc_conflict_id ?vs)"
    "sorted (map (\<lambda>c. uuid_str (mc_conflict_id c)) ?vs)"
    using coh by (auto simp: relevant_conflicts_def coherent_reads_def distinct_map_filter)
  have pairs: "memory_pair ` set ws = memory_pair ` set ?vs"
    using complete require_complete_total [OF coh] by (auto simp: require_complete_conflicts_def res_simps)
  have dist: "distinct (map mr_memory_id ?rel)"
    using coh by (simp add: coherent_reads_def relevant_distinct)
  have same: "conflict_tag c = conflict_tag d" if c: "c \<in> set ?vs" and d: "d \<in> set ws"
    and pair: "memory_pair c = memory_pair d" for c d
  proof -
    have "c \<in> set ?cs" "d \<in> set ?ds" using c d v(1) w(1) by blast+
    then have "named s c" "named s' d" using listed_named [OF inv] listed_named [OF inv'] by blast+
    then have n: "named s' c" "named s' d" using names by (auto simp: named_def)
    have "mc_left c \<in> set ?rel"
      using c coh v(1) by (auto simp: relevant_conflicts_def coherent_reads_def open_conflict_def list_all_iff)
    then have "identity_for (mc_left d) = identity_for (mc_left c)"
      using w(1) d named_unique(2) [OF inv' n pair] by (intro same_signature_identity [OF _ dist]) auto
    then show ?thesis using named_unique(1) [OF inv' n pair] by (simp add: conflict_tag_def)
  qed
  have "conflict_tag ` set ?vs = conflict_tag ` set ws"
  proof (intro equalityI subsetI)
    fix t assume "t \<in> conflict_tag ` set ?vs"
    then obtain c where c: "c \<in> set ?vs" "t = conflict_tag c" by blast
    then have "memory_pair c \<in> memory_pair ` set ws" unfolding pairs by blast
    then obtain d where "d \<in> set ws" "memory_pair c = memory_pair d" by blast
    with same c show "t \<in> conflict_tag ` set ws" by blast
  next
    fix t assume "t \<in> conflict_tag ` set ws"
    then obtain d where d: "d \<in> set ws" "t = conflict_tag d" by blast
    then have "memory_pair d \<in> memory_pair ` set ?vs" unfolding pairs [symmetric] by blast
    then obtain c where c: "c \<in> set ?vs" "memory_pair d = memory_pair c" by blast
    then have "t = conflict_tag c" using same [of c d] d by simp
    then show "t \<in> conflict_tag ` set ?vs" using c(1) by (rule image_eqI)
  qed
  then have "map conflict_tag ?vs = map conflict_tag ws"
    using v(2) w(2) v(3) w(3) by (rule same_tags)
  then have "build_entries ?rel ?vs = build_entries ?rel ws" by (rule build_entries_tags)
  then have "project owner ?ms ?cs = project owner ?ms ?ds"
    using validated_conflicts_total [OF coh] require_complete_total [OF coh] mems ws complete
    by (simp add: project_def)
  then show ?thesis using reads by (simp add: build_snapshot_def)
qed

text \<open>The checks raise nothing but \<open>InconsistentSourceStateError\<close> on conflicts between stored memories.\<close>

definition sides_stored :: "memory_conflict \<Rightarrow> bool" where
  "sides_stored c \<longleftrightarrow> stored_ok (mc_left c) \<and> stored_ok (mc_right c)"

lemma signature_raises:
  assumes "stored_ok m" "list_all stored_ok active" "distinct (map mr_memory_id active)"
    and "mr_memory_id m \<in> mr_memory_id ` set active"
  shows "raises_only S (signature_differs active m)"
proof -
  obtain r where r: "r \<in> set active" "index_get mr_memory_id active (mr_memory_id m) = Some r"
    using assms(3,4) by (auto simp: index_get_Some)
  then obtain a b where "record_signature r = Inr a" "record_signature m = Inr b"
    using assms(1,2) signature_total by (metis list_all_iff)
  then show ?thesis using r(2) by (simp add: signature_differs_def raises_only_def)
qed

lemma check_conflict_raises:
  assumes "sides_stored c" "list_all stored_ok active" "distinct (map mr_memory_id active)"
  shows "raises_only {inconsistent_source} (check_conflict owner active ids pairs c)"
proof -
  have sides: "stored_ok (mc_left c)" "stored_ok (mc_right c)" using assms(1) by (simp_all add: sides_stored_def)
  have "raises_only S (context_canonicalize (mr_value r))" if "stored_ok r" for S r
    using stored_data(1) [OF that] by (simp add: raises_only_def del: canon.simps)
  with sides show ?thesis
    unfolding check_conflict_def Let_def
    by (intro raises signature_raises assms(2,3)) (auto simp: memory_pair_def)
qed

lemma collect_conflicts_raises:
  assumes "list_all sides_stored cs" "list_all stored_ok active" "distinct (map mr_memory_id active)"
  shows "raises_only {inconsistent_source} (collect_conflicts owner active ids pairs cs)"
  using assms(1)
proof (induction cs arbitrary: ids pairs)
  case (Cons c cs)
  then show ?case by (auto intro!: raises check_conflict_raises assms(2,3))
qed (simp add: raises)

lemma expected_pairs_raises:
  assumes "list_all stored_ok rs" "list_all (\<lambda>r. mr_status r = Active) rs"
  shows "raises_only S (expected_pairs rs)"
  using expected_pairs_total [OF assms] by (auto simp: raises_only_def)

text \<open>What two reads give that a change of the store may separate.\<close>

lemma torn_outcome:
  assumes reach: "reachable_store s" and later: "later_store s s'"
    and open_store: "ss_open s'" and owner: "exact_text_ok owner"
  shows "build_snapshot owner s s' = build_snapshot owner s s \<or>
    build_snapshot owner s s' = Inl inconsistent_source"
proof -
  have inv: "store_inv s" by (rule reachable_store_inv [OF reach])
  have inv': "store_inv s'" using later inv by (rule later_store_inv)
  have opened: "ss_open s" using later_store_names [OF later inv] open_store by simp
  let ?ms = "active_memories owner (memory_state s)"
  let ?ds = "map (spec_conflict (memory_state s')) (owner_conflicts owner (memory_state s'))"
  let ?rel = "relevant ?ms"
  note coh = store_coherent [OF inv, of owner] and coh' = store_coherent [OF inv', of owner]
  have mems: "validated_memories owner ?ms = Inr ?rel"
    using coh by (intro validated_memories_total) (simp_all add: coherent_reads_def)
  have rel: "list_all stored_ok ?rel" "list_all (\<lambda>r. mr_status r = Active) ?rel" "distinct (map mr_memory_id ?rel)"
    using coh relevant_distinct by (auto simp: coherent_reads_def owned_def list_all_iff)
  have ds: "list_all sides_stored ?ds"
    using coh' by (auto simp: coherent_reads_def owned_def list_all_iff open_conflict_def sides_stored_def)
  have built: "build_snapshot owner s s' = project owner ?ms ?ds"
    using query_active [OF inv opened owner] list_open [OF inv' open_store owner]
    by (simp add: build_snapshot_def)
  have checked: "raises_only {inconsistent_source} (validated_conflicts owner ?rel ?ds)"
    unfolding validated_conflicts_def by (intro raises collect_conflicts_raises ds rel(1,3))
  show ?thesis
  proof (cases "validated_conflicts owner ?rel ?ds")
    case (Inl e)
    then have "e = inconsistent_source" using checked by (simp add: raises_only_def)
    then show ?thesis using built owner mems Inl by (simp add: project_def validate_owner_subject_def)
  next
    case (Inr ws)
    have complete: "raises_only {inconsistent_source} (require_complete_conflicts ?rel ws)"
      unfolding require_complete_conflicts_def by (intro raises expected_pairs_raises rel(1,2)) simp
    show ?thesis
    proof (cases "require_complete_conflicts ?rel ws")
      case (Inl e)
      then have "e = inconsistent_source" using complete by (simp add: raises_only_def)
      then show ?thesis using built owner mems Inr Inl by (simp add: project_def validate_owner_subject_def)
    next
      case (Inr u)
      with torn_accepted [OF assms \<open>validated_conflicts owner ?rel ?ds = Inr ws\<close>] show ?thesis by simp
    qed
  qed
qed

text \<open>A store that is closed by the second read.\<close>

lemma closed_reads:
  assumes "reachable_store s" "exact_text_ok owner" "\<not> ss_open s'"
  shows "build_snapshot owner s s' = Inl (MemoryExn StoreClosedError)"
proof (cases "ss_open s")
  case True
  then have "query_memories None (Some owner) None True s = Inr (active_memories owner (memory_state s))"
    by (rule query_active [OF reachable_store_inv [OF assms(1)] _ assms(2)])
  then show ?thesis
    using assms(2,3) by (simp add: build_snapshot_def list_conflicts_def list_stored_conflicts_def
        validate_optional_text_def validate_nonempty_text_def with_connection_def)
next
  case False
  then show ?thesis
    using assms(2) by (simp add: build_snapshot_def query_memories_def check_memory_query_def
        validate_optional_text_def validate_nonempty_text_def query_stored_memories_def with_connection_def)
qed

lemma torn_reads:
  assumes "reachable_store s" "later_store s s'" "ss_open s'" "exact_text_ok owner"
    and "build_snapshot owner s s' = Inr p"
  shows "build_snapshot owner s s = Inr p"
  using torn_outcome [OF assms(1-4)] assms(5) by auto

end
