(* ===== verification/Context_Lookup.thy ===== *)
theory Context_Lookup
  imports Context_Torn
begin

text \<open>
  What a lookup in the snapshot of a store answers, in terms of the memories and conflicts in the tables.
\<close>

definition memories_about :: "string \<Rightarrow> context_domain \<Rightarrow> string \<Rightarrow> memory_state \<Rightarrow> memory_record list" where
  "memories_about owner d p st =
     filter (\<lambda>r. mr_subject r = owner \<and> mr_status r = Active \<and> domain_of (mr_memory_type r) = Some d \<and>
       mr_predicate r = p) (st_records st)"

definition conflicts_about :: "memory_record list \<Rightarrow> memory_state \<Rightarrow> stored_conflict set" where
  "conflicts_about rs st =
     {c \<in> set (st_conflicts st). sc_resolved_at c = None \<and> conflict_pair c \<subseteq> mr_memory_id ` set rs}"

definition context_at :: "string \<Rightarrow> context_domain \<Rightarrow> string \<Rightarrow> context_identity" where
  "context_at owner d p = \<lparr>ci_domain = d, ci_subject = owner, ci_predicate = p\<rparr>"

lemma identity_at:
  "supported r \<Longrightarrow> identity_of r = context_at owner d p \<longleftrightarrow>
     domain_of (mr_memory_type r) = Some d \<and> mr_subject r = owner \<and> mr_predicate r = p"
  by (auto simp: supported_def identity_of_def context_at_def)

lemma memories_of_about:
  "set (memories_of (active_memories owner st) (context_at owner d p)) = set (memories_about owner d p st)"
proof -
  have "supported r \<and> identity_of r = context_at owner d p \<longleftrightarrow>
      domain_of (mr_memory_type r) = Some d \<and> mr_subject r = owner \<and> mr_predicate r = p" for r
    using identity_at [of r owner d p] by (auto simp: supported_def)
  then show ?thesis by (auto simp: memories_of_def memories_about_def)
qed

lemma conflict_ids_about:
  assumes inv: "memory_inv st"
  shows "set (conflict_ids_of (map (spec_conflict st) (owner_conflicts owner st)) (context_at owner d p)) =
    sc_id ` conflicts_about (memories_about owner d p st) st"
proof -
  let ?rs = "memories_about owner d p st"
  have ids: "x = y" if "x \<in> set (st_records st)" "y \<in> set (st_records st)" "mr_memory_id x = mr_memory_id y" for x y
    using inv that by (auto simp: memory_inv_def distinct_map dest: inj_onD)
  have "c \<in> set (owner_conflicts owner st) \<and> supported (mc_left (spec_conflict st c)) \<and>
      identity_of (mc_left (spec_conflict st c)) = context_at owner d p \<longleftrightarrow> c \<in> conflicts_about ?rs st"
    if c: "c \<in> set (st_conflicts st)" "sc_resolved_at c = None" for c
  proof -
    from open_conflict_sides [OF inv c] obtain a b where ab: "a \<in> set (st_records st)" "b \<in> set (st_records st)"
      "contradict a b" "sc_left c = mr_memory_id a" "sc_right c = mr_memory_id b"
      "spec_find (sc_left c) st = Some a" by metis
    have left: "mc_left (spec_conflict st c) = a" using ab by (simp add: spec_conflict_def)
    have about: "mr_memory_id r \<in> mr_memory_id ` set ?rs \<longleftrightarrow> r \<in> set ?rs" if "r \<in> set (st_records st)" for r
      using ids that by (auto simp: memories_about_def)
    have "a \<in> set ?rs \<longleftrightarrow> b \<in> set ?rs"
      using ab(1-3) by (auto simp: memories_about_def contradict_def memory_key_def)
    then have "c \<in> conflicts_about ?rs st \<longleftrightarrow> a \<in> set ?rs"
      using c ab about by (auto simp: conflicts_about_def conflict_pair_def)
    moreover have "a \<in> set ?rs \<longleftrightarrow> mr_subject a = owner \<and> supported a \<and> identity_of a = context_at owner d p"
      using ab(1,3) identity_at [of a owner d p] by (auto simp: memories_about_def supported_def contradict_def)
    ultimately show ?thesis
      using c ab by (auto simp: left owner_conflicts_def conflict_listed_def column_is_def)
  qed
  moreover have "sc_resolved_at c = None \<and> c \<in> set (st_conflicts st)" if "c \<in> set (owner_conflicts owner st)" for c
    using that by (simp add: owner_conflicts_def conflict_listed_def)
  moreover have "sc_resolved_at c = None \<and> c \<in> set (st_conflicts st)" if "c \<in> conflicts_about ?rs st" for c
    using that by (simp add: conflicts_about_def)
  ultimately have "{c \<in> set (owner_conflicts owner st). supported (mc_left (spec_conflict st c)) \<and>
      identity_of (mc_left (spec_conflict st c)) = context_at owner d p} = conflicts_about ?rs st"
    by blast
  moreover have "set (conflict_ids_of (map (spec_conflict st) (owner_conflicts owner st)) (context_at owner d p)) =
      sc_id ` {c \<in> set (owner_conflicts owner st). supported (mc_left (spec_conflict st c)) \<and>
        identity_of (mc_left (spec_conflict st c)) = context_at owner d p}"
  proof -
    have restrict: "{x \<in> {x \<in> g ` A. Q x}. R x} = g ` {a \<in> A. Q (g a) \<and> R (g a)}" for g :: "'a \<Rightarrow> 'b" and A Q R
      by auto
    show ?thesis
      by (simp add: conflict_ids_of_def relevant_conflicts_def restrict image_image
          del: image_Collect mem_Collect_eq)
  qed
  ultimately show ?thesis by simp
qed

text \<open>The entry of a key, from the memories about it.\<close>

definition entry_reflects :: "memory_record list \<Rightarrow> stored_conflict set \<Rightarrow> context_entry option \<Rightarrow> bool" where
  "entry_reflects rs cs entry \<longleftrightarrow>
     (case entry of
        None \<Rightarrow> rs = []
      | Some e \<Rightarrow> rs \<noteq> [] \<and>
          ce_state e = (if card (text_of ` set rs) = 1 then CtxResolved else CtxConflicted) \<and>
          map cv_canonical_value (ce_values e) = sorted_set (map text_of rs) \<and>
          set (entry_evidence_ids (ce_values e)) = mr_memory_id ` set rs \<and>
          set (ce_conflict_ids e) = sc_id ` cs)"

lemma store_snapshot:
  assumes reach: "reachable_store s" "ss_open s" and owner: "exact_text_ok owner"
  obtains snap where "build_snapshot owner s s = Inr snap" "snapshot_ok snap"
    "pcs_owner_subject snap = owner"
    "compute_snapshot_version owner (pcs_entries snap) = Inr (pcs_version snap)"
    "\<And>d p. entry_reflects (memories_about owner d p (memory_state s))
       (conflicts_about (memories_about owner d p (memory_state s)) (memory_state s))
       (index_get ce_identity (pcs_entries snap) (context_at owner d p))"
proof -
  have inv: "store_inv s" by (rule reachable_store_inv [OF reach(1)])
  then have minv: "memory_inv (memory_state s)" by (simp add: store_inv_def)
  let ?st = "memory_state s"
  let ?ms = "active_memories owner ?st" and ?cs = "map (spec_conflict ?st) (owner_conflicts owner ?st)"
  note reads = query_active [OF inv reach(2) owner] list_open [OF inv reach(2) owner]
  have src: "reachable_store s \<and> ss_open s" using reach by simp
  from memory_os.snapshot_total [OF src owner] obtain ms cs snap where
    "query_memories None (Some owner) None True s = Inr ms"
    "list_conflicts (Some owner) None False s = Inr cs" "project owner ms cs = Inr snap"
    and snap: "snapshot_ok snap" "pcs_owner_subject snap = owner"
    "set (pcs_entries snap) = snapshot_entries ms cs"
    "compute_snapshot_version owner (pcs_entries snap) = Inr (pcs_version snap)" by metis
  then have eqs: "ms = ?ms" "cs = ?cs" and build: "build_snapshot owner s s = Inr snap"
    using reads by (simp_all add: build_snapshot_def)
  have "entry_reflects (memories_about owner d p ?st) (conflicts_about (memories_about owner d p ?st) ?st)
      (index_get ce_identity (pcs_entries snap) (context_at owner d p))" for d p
  proof -
    let ?i = "context_at owner d p" and ?rs = "memories_about owner d p ?st"
    have dist: "distinct (map ce_identity (pcs_entries snap))" using snap(1) by (simp add: snapshot_ok_def)
    show ?thesis
    proof (cases "?rs = []")
      case True
      then have "memories_of ?ms ?i = []" using memories_of_about [of owner ?st d p] by simp
      then have "?i \<notin> ce_identity ` set (pcs_entries snap)"
        unfolding snap(3) eqs by (auto simp: snapshot_entries_def memories_of_def filter_empty_conv)
      then have "index_get ce_identity (pcs_entries snap) ?i = None" by (simp add: index_get_None)
      with True show ?thesis by (simp add: entry_reflects_def)
    next
      case False
      have mem: "set (memories_of ?ms ?i) = set ?rs" by (rule memories_of_about)
      with False have "memories_of ?ms ?i \<noteq> []" by auto
      then obtain r where "r \<in> set ?ms" "supported r" "identity_of r = ?i"
        by (auto simp: memories_of_def filter_empty_conv)
      then have "?i \<in> identity_of ` {r \<in> set ?ms. supported r}" by (intro rev_image_eqI [of r]) simp_all
      then have "entry_at ?ms ?cs ?i \<in> set (pcs_entries snap)"
        unfolding snap(3) eqs snapshot_entries_def by (rule imageI)
      then have "index_get ce_identity (pcs_entries snap) ?i = Some (entry_at ?ms ?cs ?i)"
        by (simp add: index_get_Some [OF dist])
      moreover have "sorted_set (map text_of (memories_of ?ms ?i)) = sorted_set (map text_of ?rs)"
        using mem by (intro sorted_set_cong) (simp del: canon.simps)
      ultimately show ?thesis
        using False mem conflict_ids_about [OF minv, of owner d p]
        by (simp add: entry_reflects_def entry_at_def entry_for_def values_for_texts entry_evidence_values
            del: canon.simps)
    qed
  qed
  then show ?thesis using that [OF build snap(1,2,4)] by blast
qed

lemma current_context_total:
  assumes reach: "reachable_store s" "ss_open s" and texts: "exact_text_ok owner" "exact_text_ok p"
  obtains q where "current_context owner d p s s = Inr q"
    "cq_state q = (case cq_entry q of None \<Rightarrow> CtxUnknown | Some e \<Rightarrow> ce_state e)"
    "entry_reflects (memories_about owner d p (memory_state s))
       (conflicts_about (memories_about owner d p (memory_state s)) (memory_state s)) (cq_entry q)"
proof -
  from store_snapshot [OF reach texts(1)] obtain snap where snap: "build_snapshot owner s s = Inr snap"
    "snapshot_ok snap" "pcs_owner_subject snap = owner"
    "entry_reflects (memories_about owner d p (memory_state s))
       (conflicts_about (memories_about owner d p (memory_state s)) (memory_state s))
       (index_get ce_identity (pcs_entries snap) (context_at owner d p))" by metis
  from get_context_total [OF snap(2) texts(2), of "context_at owner d p" d
      "index_get ce_identity (pcs_entries snap) (context_at owner d p)"] snap
  show ?thesis by (intro that) (auto simp: current_context_def context_at_def)
qed

end
