(* ===== verification/Context_Chain.thy ===== *)
theory Context_Chain
  imports Context_Lookup Exec_Fixtures Memory_Properties
begin

text \<open>
  From the memories to a plan: what the Executive cites of a store, through the snapshot that the
  Personal Context service builds from it.
\<close>

section \<open>What a context reference cites\<close>

definition reference_grounded :: "memory_record list \<Rightarrow> context_reference \<Rightarrow> bool" where
  "reference_grounded rs ref \<longleftrightarrow>
     rs \<noteq> [] \<and> (\<exists>t. text_of ` set rs = {t} \<and> cf_value_digests ref = [sha256_hex t]) \<and>
     set (cf_memory_ids ref) = mr_memory_id ` set rs \<and> cf_conflict_ids ref = []"

lemma mk_context_reference_Inr:
  "mk_context_reference r b st ds ms cs = Inr ref \<Longrightarrow>
   cf_state ref = st \<and> cf_value_digests ref = ds \<and> cf_memory_ids ref = ms \<and> cf_conflict_ids ref = cs \<and>
   (st = CtxResolved \<longrightarrow> cs = [])"
  by (auto simp: mk_context_reference_def res_simps)

lemma resolved_reference:
  assumes snap: "snapshot_ok snap" and key: "exact_text_ok (cr_predicate (cf_requirement ref))"
    and ref: "context_reference_for snap b (cf_requirement ref) = Inr ref" "cf_state ref = CtxResolved"
    and entry: "entry_reflects rs cs (index_get ce_identity (pcs_entries snap)
      (context_at (pcs_owner_subject snap) (cr_domain (cf_requirement ref)) (cr_predicate (cf_requirement ref))))"
  shows "reference_grounded rs ref"
proof -
  let ?entry = "index_get ce_identity (pcs_entries snap)
    (context_at (pcs_owner_subject snap) (cr_domain (cf_requirement ref)) (cr_predicate (cf_requirement ref)))"
  note found = get_context_total [OF snap key refl, of ?entry "cr_domain (cf_requirement ref)"]
  have "?entry \<noteq> None"
  proof
    assume "?entry = None"
    then have "cf_state ref = CtxUnknown"
      using ref(1) found by (simp add: context_reference_for_def context_at_def mk_context_reference_Inr)
    with ref(2) show False by simp
  qed
  then obtain e where e: "?entry = Some e" by blast
  have "ce_state e \<noteq> CtxUnknown"
  proof
    assume "ce_state e = CtxUnknown"
    then have "cf_state ref = CtxUnknown"
      using ref(1) found e by (simp add: context_reference_for_def context_at_def mk_context_reference_Inr)
    with ref(2) show False by simp
  qed
  then have "mk_context_reference (cf_requirement ref) b (ce_state e)
      (sort (map (\<lambda>v. sha256_hex (cv_canonical_value v)) (ce_values e)))
      (sort_key uuid_str (entry_evidence_ids (ce_values e))) (ce_conflict_ids e) = Inr ref"
    using ref(1) found e by (simp add: context_reference_for_def context_at_def)
  from mk_context_reference_Inr [OF this] ref(2) have fields: "ce_state e = CtxResolved"
    "cf_conflict_ids ref = []"
    "cf_value_digests ref = sort (map (\<lambda>v. sha256_hex (cv_canonical_value v)) (ce_values e))"
    "cf_memory_ids ref = sort_key uuid_str (entry_evidence_ids (ce_values e))"
    by simp_all
  have reflects: "rs \<noteq> []" "card (text_of ` set rs) = 1"
    "map cv_canonical_value (ce_values e) = sorted_set (map text_of rs)"
    "set (entry_evidence_ids (ce_values e)) = mr_memory_id ` set rs"
    using entry fields(1) unfolding e by (auto simp: entry_reflects_def simp del: canon.simps split: if_splits)
  obtain t where t: "text_of ` set rs = {t}" using reflects(2) by (auto simp: card_1_singleton_iff)
  then have "sorted_set (map text_of rs) = sorted_set [t]" by (intro sorted_set_cong) simp
  also have "\<dots> = [t]" by (simp add: sorted_set_def)
  finally have "map (\<lambda>v. sha256_hex (cv_canonical_value v)) (ce_values e) = [sha256_hex t]"
    using reflects(3) map_map [of sha256_hex cv_canonical_value "ce_values e"] by (simp add: o_def)
  then show ?thesis using fields reflects t by (simp add: reference_grounded_def)
qed

lemma required_predicates:
  assumes "references_for s req opt = Inr refs" "ref \<in> set refs" "snapshot_ok s"
  shows "exact_text_ok (cr_predicate (cf_requirement ref))"
  using references_for_member [OF assms(1,2)]
  by (auto simp: context_reference_for_def res_simps get_context_def split: if_splits)

lemma cited_context_grounded:
  assumes reach: "reachable_store s" "ss_open s" and owner: "exact_text_ok (es_owner_subject svc)"
    and snap: "build_snapshot (es_owner_subject svc) s s = Inr snap"
    and decision: "evaluate svc (Inr snap) req = Inr d"
    and ref: "ref \<in> set (ed_context_references d)" "cf_state ref = CtxResolved"
  shows "reference_grounded (memories_about (es_owner_subject svc) (cr_domain (cf_requirement ref))
    (cr_predicate (cf_requirement ref)) (memory_state s)) ref"
proof -
  from store_snapshot [OF reach owner] snap have ok: "snapshot_ok snap"
    "pcs_owner_subject snap = es_owner_subject svc"
    and entries: "entry_reflects (memories_about (es_owner_subject svc) dm p (memory_state s))
       (conflicts_about (memories_about (es_owner_subject svc) dm p (memory_state s)) (memory_state s))
       (index_get ce_identity (pcs_entries snap) (context_at (es_owner_subject svc) dm p))" for dm p
    by (metis sum.inject(2))+
  from decision obtain cfp required refs t rs ex asms aps cons plan where
    refs: "references_for snap required (rq_optional_context req) = Inr refs"
    and mk: "mk_executive_decision (rq_request_id req) (pcs_owner_subject snap) t (sorted_set rs) ex
       (pcs_version snap) (rq_fingerprint req) cfp refs asms (requested_capabilities req) aps cons plan = Inr d"
    by (rule evaluate_Inr)
  have mem: "ref \<in> set refs" using ref(1) mk_executive_decision_Inr [OF mk] by auto
  from resolved_reference [OF ok(1) required_predicates [OF refs mem ok(1)]
      references_for_member [OF refs mem] ref(2)]
  show ?thesis unfolding ok(2) using entries by blast
qed

section \<open>The context of a proposed plan\<close>

text \<open>A plan is only proposed when no required reference is unknown or conflicted.\<close>

lemma planned_context_resolved:
  assumes decision: "evaluate svc (Inr snap) req = Inr d" "ed_proposed_plan d = Some p"
    and ref: "ref \<in> set (ed_context_references d)" "cf_required ref"
  shows "cf_state ref = CtxResolved"
proof -
  from decision(1) obtain cfp defs unknown unavailable refs aps asms cons t rs ex plan where
    dec: "decide req defs unknown unavailable (state_requirements CtxUnknown refs)
       (state_requirements CtxConflicted refs) aps = Inr (t, rs, ex, plan)"
    and mk: "mk_executive_decision (rq_request_id req) (pcs_owner_subject snap) t (sorted_set rs) ex
       (pcs_version snap) (rq_fingerprint req) cfp refs asms (requested_capabilities req) aps cons plan = Inr d"
    by (rule evaluate_Inr)
  have "plan = Some p" "ref \<in> set refs"
    using decision(2) ref(1) mk_executive_decision_Inr [OF mk] by auto
  with dec have "state_requirements CtxUnknown refs = []" "state_requirements CtxConflicted refs = []"
    by (auto simp: decide_def res_simps split: if_splits)
  with \<open>ref \<in> set refs\<close> ref(2) show ?thesis
    by (cases "cf_state ref") (auto simp: state_requirements_def filter_empty_conv)
qed

end
