(* ===== verification/Context_Fixtures.thy ===== *)
theory Context_Fixtures
  imports Context_Chain
begin

text \<open>A request that requires the owner's drink, evaluated on the snapshot of a store that knows it.\<close>

definition drink_key :: context_requirement where
  "drink_key = \<lparr>cr_domain = DomPreference, cr_predicate = ''drink''\<rparr>"

definition drink_request :: executive_request where
  "drink_request = demo_request\<lparr>rq_required_context := [drink_key]\<rparr>"

definition drink_step :: plan_step where
  "drink_step = demo_step\<lparr>ps_required_context := [drink_key]\<rparr>"

definition tea_reference :: context_reference where
  "tea_reference = \<lparr>cf_requirement = drink_key, cf_required = True, cf_state = CtxResolved,
     cf_value_digests = [sha256_hex (canon (PStr ''tea''))], cf_memory_ids = [1], cf_conflict_ids = []\<rparr>"

section \<open>The memories about the drink\<close>

lemma tea_open [simp]: "ss_open tea_store"
  by code_simp

lemma new_store_state: "memory_state new_store = \<lparr>st_records = [], st_conflicts = []\<rparr>"
  by (simp add: state_of_def new_store_def)

lemma tea_state: "memory_state tea_store = \<lparr>st_records = [stored_record tea_memory], st_conflicts = []\<rparr>"
  by (simp add: tea_stored new_store_state spec_add_def contradicting_def)

lemma tea_about:
  "memories_about ''owner'' DomPreference ''drink'' (memory_state tea_store) = [stored_record tea_memory]"
  by (simp add: memories_about_def tea_state tea_memory_def stored_record_def)

lemma drink_texts [simp]: "exact_text_ok ''drink''" "exact_text_ok ''owner''"
  by code_simp+

definition coffee_memory :: memory_record where
  "coffee_memory = \<lparr>mr_memory_id = 2, mr_memory_type = Preference, mr_subject = ''owner'',
     mr_predicate = ''drink'', mr_value = PStr ''coffee'', mr_provenance = owner_says,
     mr_confidence = PFloat (Finite ''0.5''), mr_observed_at = day_at 9, mr_created_at = day_at 9,
     mr_status = Active, mr_status_changed_at = day_at 9, mr_supersedes = None,
     mr_revision_reason = None, mr_status_reason = None, mr_metadata = []\<rparr>"

lemma coffee_value: "fst (coffee_call tea_store) = Inr coffee_memory"
  by code_simp

lemma coffee_state:
  "st_records (memory_state two_drinks) = [stored_record tea_memory, stored_record coffee_memory]"
proof -
  have "coffee_call tea_store = (Inr coffee_memory, two_drinks)"
    using coffee_value by (simp add: two_drinks_def prod_eq_iff)
  from create_memory_step(2) [OF reachable_store_inv [OF drinks_reachable(2)] drink_arguments
      this [unfolded coffee_call_def]]
  show ?thesis by (simp add: spec_add_def tea_state)
qed

lemma coffee_about:
  "memories_about ''owner'' DomPreference ''drink'' (memory_state two_drinks) =
     [stored_record tea_memory, stored_record coffee_memory]"
  by (simp add: memories_about_def coffee_state tea_memory_def coffee_memory_def stored_record_def)

section \<open>The decision on the request\<close>

lemma drink_build_step:
  "build_step drink_request (definitions_by_id [demo_capability]) demo_invocation = Inr drink_step"
  by (simp add: build_step_def definitions_by_id_def demo_defs drink_request_def drink_step_def dict_item_def
      merge_unique_def mk_plan_step_def exec_copy_def exec_canonicalize_def canonicalize_value_canon size_evals
      sorted_set_def plan_tuple_def Let_def sorted_items_def drink_key_def max_request_items_def)

lemma drink_fields [simp]:
  "requested_capabilities drink_request = [''c1'']" "rq_invocations drink_request = [demo_invocation]"
  "rq_required_context drink_request = [drink_key]" "rq_optional_context drink_request = []"
  "rq_request_id drink_request = ''r1''" "rq_fingerprint drink_request = sha_fingerprint FpRequest ''r1''"
  by (simp_all add: drink_request_def requested_capabilities_def demo_request_def demo_invocation_def
      sorted_set_def)

lemma drink_plan:
  "build_plan drink_request (definitions_by_id [demo_capability]) = Inr \<lparr>pl_steps = [drink_step]\<rparr>"
proof -
  have "map fst (definitions_by_id [demo_capability]) = [''c1'']"
    by (simp add: definitions_by_id_def demo_capability_def)
  moreover have "mk_plan [drink_step] = Inr \<lparr>pl_steps = [drink_step]\<rparr>"
    by (simp add: mk_plan_def step_graph_def drink_step_def demo_step_def demo_order index_get_def
        dict_item_def max_plan_steps_def)
  ultimately show ?thesis by (simp add: build_plan_def drink_build_step)
qed

lemma drink_merges:
  "merge_context_requirements drink_request [demo_capability] = Inr [drink_key]"
  "merge_approvals drink_request [demo_capability] = Inr []"
  "merge_assumptions drink_request [demo_capability] = Inr []"
  "merge_constraints drink_request [demo_capability] = Inr []"
  by (simp_all add: merge_context_requirements_def merge_approvals_def merge_assumptions_def
      merge_constraints_def demo_capability_def merge_unique_def drink_request_def demo_request_def
      max_request_items_def max_context_requirements_def)

lemma drink_decide:
  "decide drink_request [demo_capability] [] [] [] [] [] =
     Inr (Propose, [ReadyForSafetyReview], proposal_explanation, Some \<lparr>pl_steps = [drink_step]\<rparr>)"
  by (simp add: decide_def drink_plan)

lemma one_text: "uuid_str 1 = ''00000000-0000-0000-0000-000000000001''"
  by code_simp

lemma drink_decision:
  assumes "fp_kind f = FpCapabilityContract" "fp_algorithm f = ''sha256''" "length (fp_digest f) = 64"
  shows "\<exists>d. mk_executive_decision ''r1'' ''owner'' Propose [ReadyForSafetyReview] proposal_explanation
    v (sha_fingerprint FpRequest ''r1'') f [tea_reference] [] [''c1''] [] []
    (Some \<lparr>pl_steps = [drink_step]\<rparr>) = Inr d \<and> ed_context_references d = [tea_reference] \<and>
    ed_proposed_plan d = Some \<lparr>pl_steps = [drink_step]\<rparr>"
  using assms
  by (simp add: mk_executive_decision_def sorted_set_def max_context_requirements_def Let_def
      state_requirements_def decision_tuple_def max_plan_steps_def validate_shape_def
      validate_plan_match_def drink_step_def demo_step_def relevant_context_fingerprint_def
      relevant_context_document_def fingerprint_document_eq decision_document_def step_document_def
      step_parameters_def size_evals fingerprint_str_def demo_explanation tea_reference_def
      reference_document_def drink_key_def context_document_def one_text Collect_conv_if)

lemma drink_evaluate:
  assumes snap: "pcs_owner_subject snap = ''owner''"
    and ref: "context_reference_for snap True drink_key = Inr tea_reference"
  shows "\<exists>d. evaluate demo_service (Inr snap) drink_request = Inr d \<and> ed_context_references d = [tea_reference] \<and>
     ed_proposed_plan d = Some \<lparr>pl_steps = [drink_step]\<rparr>"
proof -
  obtain f where f: "fingerprint_for (es_registry demo_service) [''c1''] = Inr f"
    using demo_fingerprint_for by blast
  have refs: "references_for snap [drink_key] [] = Inr [tea_reference]"
    using ref by (simp add: references_for_def)
  have st: "state_requirements CtxUnknown [tea_reference] = []"
    "state_requirements CtxConflicted [tea_reference] = []"
    by (simp_all add: state_requirements_def tea_reference_def)
  have "evaluate demo_service (Inr snap) drink_request =
      mk_executive_decision ''r1'' ''owner'' Propose [ReadyForSafetyReview] proposal_explanation
        (pcs_version snap) (sha_fingerprint FpRequest ''r1'') f [tea_reference] [] [''c1''] [] []
        (Some \<lparr>pl_steps = [drink_step]\<rparr>)"
    using f demo_lookup drink_merges demo_validate drink_decide refs st snap
    by (simp add: evaluate_def Let_def sorted_set_def
        demo_service_def [THEN arg_cong [where f = es_owner_subject], simplified])
  with demo_contract [OF f] drink_decision [of f] show ?thesis by simp
qed

text \<open>The Executive cites the tea.\<close>

lemma tea_cited:
  assumes "build_snapshot ''owner'' tea_store tea_store = Inr snap"
  shows "pcs_owner_subject snap = ''owner''" "context_reference_for snap True drink_key = Inr tea_reference"
proof -
  from store_snapshot [OF drinks_reachable(2) tea_open drink_texts(2)] assms have ok: "snapshot_ok snap"
    and owner: "pcs_owner_subject snap = ''owner''"
    and entries: "entry_reflects [stored_record tea_memory]
        (conflicts_about [stored_record tea_memory] (memory_state tea_store))
        (index_get ce_identity (pcs_entries snap) (context_at ''owner'' DomPreference ''drink''))"
    by (metis sum.inject(2) tea_about)+
  show "pcs_owner_subject snap = ''owner''" by (rule owner)
  obtain e where e: "index_get ce_identity (pcs_entries snap) (context_at ''owner'' DomPreference ''drink'') = Some e"
    "ce_state e = CtxResolved" "map cv_canonical_value (ce_values e) = [canon (PStr ''tea'')]"
    "set (entry_evidence_ids (ce_values e)) = set [1]" "ce_conflict_ids e = []"
    using entries
    by (auto simp: entry_reflects_def tea_state conflicts_about_def sorted_set_def tea_memory_def stored_record_def
        simp del: canon.simps split: option.splits)
  have "e \<in> set (pcs_entries snap)" using e(1) by (auto dest: index_get_in)
  then have "distinct (entry_evidence_ids (ce_values e))"
    using ok by (simp add: snapshot_ok_def list_all_iff entry_ok_def)
  then have "length (entry_evidence_ids (ce_values e)) = length [1 :: uuid]"
    using e(4) by (metis distinct_card distinct_singleton)
  then have ids: "entry_evidence_ids (ce_values e) = [1]"
    using e(4) by (cases "entry_evidence_ids (ce_values e)") simp_all
  have "map (\<lambda>v. sha256_hex (cv_canonical_value v)) (ce_values e) = map sha256_hex [canon (PStr ''tea'')]"
    unfolding e(3) [symmetric] by (simp add: o_def)
  moreover have "get_context snap DomPreference ''drink'' = Inr
      \<lparr>cq_identity = context_at ''owner'' DomPreference ''drink'', cq_state = CtxResolved,
       cq_snapshot_version = pcs_version snap, cq_entry = Some e\<rparr>"
    using get_context_total [OF ok, of "''drink''" _ DomPreference, OF _ refl refl] e(1,2) owner
    by (simp add: context_at_def)
  ultimately show "context_reference_for snap True drink_key = Inr tea_reference"
    using ids e(5)
    by (simp add: context_reference_for_def drink_key_def tea_reference_def mk_context_reference_def
        sorted_set_def sorted_uuids_def del: canon.simps)
qed

end
