(* ===== verification/Context_Properties.thy ===== *)
theory Context_Properties
  imports Context_Fixtures Exec_Errors
begin

text \<open>
  The properties of the Personal Context: what a query answers, what reads that are torn apart give, and
  what the Executive cites.
\<close>

text \<open>
  C29. On every reachable open store a query of the owner's context returns, for every domain and
  predicate: it is unknown when no active memory of the owner is about it, resolved when the active
  memories about it have one value and conflicted when they have several. The entry lists exactly these
  values in order of their canonical text, cites exactly these memories and names exactly the open
  conflicts between them.
\<close>

theorem context_reflects_memory:
  assumes "reachable_store s" "ss_open s" "exact_text_ok owner" "exact_text_ok p"
  shows "\<exists>q. current_context owner d p s s = Inr q \<and>
    (let rs = memories_about owner d p (memory_state s); texts = map (\<lambda>r. canon (mr_value r)) rs in
     cq_state q = (if rs = [] then CtxUnknown else if card (set texts) = 1 then CtxResolved else CtxConflicted) \<and>
     (case cq_entry q of None \<Rightarrow> rs = []
      | Some e \<Rightarrow> map cv_canonical_value (ce_values e) = sorted_set texts \<and>
          set (entry_evidence_ids (ce_values e)) = mr_memory_id ` set rs \<and>
          set (ce_conflict_ids e) = sc_id ` conflicts_about rs (memory_state s)))"
proof -
  from current_context_total [OF assms, of d] obtain q where "current_context owner d p s s = Inr q"
    "cq_state q = (case cq_entry q of None \<Rightarrow> CtxUnknown | Some e \<Rightarrow> ce_state e)"
    "entry_reflects (memories_about owner d p (memory_state s))
       (conflicts_about (memories_about owner d p (memory_state s)) (memory_state s)) (cq_entry q)" .
  then show ?thesis
    by (cases "cq_entry q") (auto simp: entry_reflects_def Let_def simp del: canon.simps)
qed

lemma new_open: "ss_open new_store"
  by (simp add: new_store_def)

lemma two_drinks_open: "ss_open two_drinks"
  using two_drinks_value by blast

lemma context_reflects_memory_witness:
  "(\<exists>q. current_context ''owner'' DomPreference ''drink'' two_drinks two_drinks = Inr q \<and>
     cq_state q = CtxConflicted) \<and>
   (\<exists>q. current_context ''owner'' DomPreference ''drink'' tea_store tea_store = Inr q \<and>
     cq_state q = CtxResolved) \<and>
   (\<exists>q. current_context ''owner'' DomPreference ''drink'' new_store new_store = Inr q \<and>
     cq_state q = CtxUnknown)"
proof -
  have "canon (PStr ''tea'') \<noteq> canon (PStr ''coffee'')" by code_simp
  then have "card {canon (PStr ''tea''), canon (PStr ''coffee'')} = 2" by (simp del: canon.simps)
  then have "card ((\<lambda>r. canon (mr_value r)) ` set [stored_record tea_memory, stored_record coffee_memory]) = 2"
    by (simp add: stored_record_def tea_memory_def coffee_memory_def del: canon.simps)
  then show ?thesis
    using context_reflects_memory [OF drinks_reachable(3) two_drinks_open drink_texts(2,1), of DomPreference]
      context_reflects_memory [OF drinks_reachable(2) tea_open drink_texts(2,1), of DomPreference]
      context_reflects_memory [OF drinks_reachable(1) new_open drink_texts(2,1), of DomPreference]
    unfolding coffee_about tea_about
    by (auto simp: Let_def memories_about_def new_store_state simp del: canon.simps)
qed

text \<open>
  C30. \<open>build_snapshot\<close> reads the memories and the conflicts in two transactions. When other programs
  change the store between them and a snapshot is returned nevertheless, it is the snapshot of the store
  as the first read saw it: a mixture of two states is never projected.
\<close>

theorem torn_snapshot:
  assumes "reachable_store s" "later_store s s'" "ss_open s'" "exact_text_ok owner"
    and "build_snapshot owner s s' = Inr p"
  shows "build_snapshot owner s s = Inr p"
  using assms by (rule torn_reads)

lemma torn_snapshot_witness:
  "\<exists>p. build_snapshot ''owner'' new_store tea_store = Inr p \<and> build_snapshot ''owner'' new_store new_store = Inr p"
proof -
  have later: "later_store new_store tea_store" by (rule r_into_rtranclp [of memory_step, OF tea_step])
  note inv = reachable_store_inv [OF drinks_reachable(1)] reachable_store_inv [OF drinks_reachable(2)]
  have "list_conflicts (Some ''owner'') None False tea_store = list_conflicts (Some ''owner'') None False new_store"
    using list_open [OF inv(1) new_open drink_texts(2)] list_open [OF inv(2) tea_open drink_texts(2)]
    by (simp add: owner_conflicts_def tea_state new_store_state)
  moreover obtain p where "build_snapshot ''owner'' new_store new_store = Inr p"
    using store_snapshot [OF drinks_reachable(1) new_open drink_texts(2)] by metis
  ultimately have torn: "build_snapshot ''owner'' new_store tea_store = Inr p" by (simp add: build_snapshot_def)
  from torn_snapshot [OF drinks_reachable(1) later tea_open drink_texts(2) torn] torn show ?thesis by blast
qed

text \<open>
  C31. From the memories to the plan. When the Executive proposes a plan on the snapshot of a store, every
  required piece of context it cites is backed by the store: at least one active memory of the owner is
  about it, all of them have the value whose digest the decision cites, and the decision cites exactly
  these memories and no conflict. This holds also when the snapshot comes from two reads that other
  programs separate.
\<close>

theorem proposed_plan_remembered:
  assumes "reachable_store s" "later_store s s'" "ss_open s'" "exact_text_ok (es_owner_subject svc)"
    and "build_snapshot (es_owner_subject svc) s s' = Inr snap"
    and "evaluate svc (Inr snap) req = Inr d" "ed_proposed_plan d = Some p"
  shows "\<forall>ref \<in> set (ed_context_references d). cf_required ref \<longrightarrow>
    (let rs = memories_about (es_owner_subject svc) (cr_domain (cf_requirement ref))
         (cr_predicate (cf_requirement ref)) (memory_state s) in
     rs \<noteq> [] \<and> (\<exists>t. (\<lambda>r. canon (mr_value r)) ` set rs = {t} \<and> cf_value_digests ref = [sha256_hex t]) \<and>
     set (cf_memory_ids ref) = mr_memory_id ` set rs \<and> cf_conflict_ids ref = [])"
proof (intro ballI impI)
  fix ref assume ref: "ref \<in> set (ed_context_references d)" "cf_required ref"
  have opened: "ss_open s"
    using later_store_names [OF assms(2) reachable_store_inv [OF assms(1)]] assms(3) by simp
  have snap: "build_snapshot (es_owner_subject svc) s s = Inr snap"
    by (rule torn_reads [OF assms(1-5)])
  have "cf_state ref = CtxResolved" by (rule planned_context_resolved [OF assms(6,7) ref])
  from cited_context_grounded [OF assms(1) opened assms(4) snap assms(6) ref(1) this]
  show "let rs = memories_about (es_owner_subject svc) (cr_domain (cf_requirement ref))
         (cr_predicate (cf_requirement ref)) (memory_state s) in
     rs \<noteq> [] \<and> (\<exists>t. (\<lambda>r. canon (mr_value r)) ` set rs = {t} \<and> cf_value_digests ref = [sha256_hex t]) \<and>
     set (cf_memory_ids ref) = mr_memory_id ` set rs \<and> cf_conflict_ids ref = []"
    by (simp add: reference_grounded_def Let_def del: canon.simps)
qed

lemma proposed_plan_remembered_witness:
  "\<exists>snap d. build_snapshot ''owner'' tea_store tea_store = Inr snap \<and>
     evaluate demo_service (Inr snap) drink_request = Inr d \<and> tea_reference \<in> set (ed_context_references d) \<and>
     set (cf_memory_ids tea_reference) =
       mr_memory_id ` set (memories_about ''owner'' DomPreference ''drink'' (memory_state tea_store))"
proof -
  obtain snap where snap: "build_snapshot ''owner'' tea_store tea_store = Inr snap"
    using store_snapshot [OF drinks_reachable(2) tea_open drink_texts(2)] by metis
  obtain d where d: "evaluate demo_service (Inr snap) drink_request = Inr d"
    "ed_context_references d = [tea_reference]" "ed_proposed_plan d = Some \<lparr>pl_steps = [drink_step]\<rparr>"
    using drink_evaluate [OF tea_cited [OF snap]] by blast
  have owner: "es_owner_subject demo_service = ''owner''" by (simp add: demo_service_def)
  have "cf_required tea_reference" "cf_requirement tea_reference = drink_key"
    by (simp_all add: tea_reference_def)
  with proposed_plan_remembered [OF drinks_reachable(2) rtranclp.rtrancl_refl tea_open, of demo_service snap, unfolded owner,
      OF drink_texts(2) snap d(1,3)] d(2)
  have "set (cf_memory_ids tea_reference) =
      mr_memory_id ` set (memories_about ''owner'' DomPreference ''drink'' (memory_state tea_store))"
    by (simp add: drink_key_def Let_def)
  with snap d show ?thesis by (intro exI [of _ snap] exI [of _ d]) simp
qed

text \<open>
  C32. What an evaluation over a store can raise. On well-formed input and an open store that nobody
  changes between the two reads, only errors of the Executive: no lookup fails with a \<open>KeyError\<close>, no
  assertion is violated, and reading the context does not fail. When another program changes the store
  between the reads, \<open>build_snapshot\<close> may raise \<open>InconsistentSourceStateError\<close>, which escapes as it is;
  on a store that is closed by the second read, the \<open>StoreClosedError\<close> of Memory OS escapes.
\<close>

theorem evaluation_fails_closed:
  assumes "request_ok req" "registry_ok (es_registry svc)" "exact_text_ok (es_owner_subject svc)"
    and "reachable_store s" "later_store s s'"
    and "evaluate svc (build_snapshot (es_owner_subject svc) s s') req = Inl e"
  shows "if ss_open s' then (\<exists>x. e = ExecutiveExn x) \<or> s' \<noteq> s \<and> e = inconsistent_source
    else e = MemoryExn StoreClosedError"
proof (cases "ss_open s'")
  case True
  then have opened: "ss_open s"
    using later_store_names [OF assms(5) reachable_store_inv [OF assms(4)]] by simp
  obtain p where p: "build_snapshot (es_owner_subject svc) s s = Inr p" "snapshot_ok p"
    using store_snapshot [OF assms(4) opened assms(3)] by metis
  show ?thesis
  proof (cases "build_snapshot (es_owner_subject svc) s s' = Inr p")
    case True
    then have "evaluate svc (Inr p) req = Inl e" using assms(6) by simp
    then show ?thesis
      using raises_onlyD [OF evaluate_raises [OF assms(1,2) p(2)]] \<open>ss_open s'\<close> by auto
  next
    case False
    then have "build_snapshot (es_owner_subject svc) s s' = Inl inconsistent_source" "s' \<noteq> s"
      using torn_outcome [OF assms(4,5) True assms(3)] p(1) by auto
    then show ?thesis using assms(6) \<open>ss_open s'\<close> by simp
  qed
next
  case False
  then have "build_snapshot (es_owner_subject svc) s s' = Inl (MemoryExn StoreClosedError)"
    by (rule closed_reads [OF assms(4,3)])
  then show ?thesis using assms(6) False by simp
qed

lemma evaluation_fails_closed_witness:
  "\<exists>e. evaluate demo_service (build_snapshot ''owner'' tea_store (close_store tea_store)) demo_request = Inl e \<and>
     e = MemoryExn StoreClosedError"
proof -
  let ?s = "close_store tea_store"
  have owner: "es_owner_subject demo_service = ''owner''" by (simp add: demo_service_def)
  have later: "later_store tea_store ?s" by (rule r_into_rtranclp [of memory_step, OF step_close])
  have shut: "\<not> ss_open ?s" by simp
  have eval: "evaluate demo_service (build_snapshot ''owner'' tea_store ?s) demo_request =
      Inl (MemoryExn StoreClosedError)"
    by (simp add: closed_reads [OF drinks_reachable(2) drink_texts(2) shut])
  from evaluation_fails_closed [OF demo_request_ok demo_registry_ok _ drinks_reachable(2) later,
      where e = "MemoryExn StoreClosedError"] eval shut drink_texts(2) owner
  show ?thesis by auto
qed

end
