(* ===== verification/Py_Numbers.thy ===== *)
theory Py_Numbers
  imports Complex_Main Py_Values Json_Canonical
begin

text \<open>
  Comparison of Python numbers. A float is given by its \<open>repr\<close>, a decimal; its value is the double that
  the decimal rounds to, as a mantissa and a power of two. Python compares an integer and a float by
  their exact values.
\<close>

section \<open>The decimal of a \<open>repr\<close>\<close>

definition digits_value :: "string \<Rightarrow> int" where
  "digits_value ds = foldl (\<lambda>n c. 10 * n + int (digit_value c)) 0 ds"

definition signed_value :: "string \<Rightarrow> int" where
  "signed_value s =
     (case s of [] \<Rightarrow> 0
      | c # ds \<Rightarrow> if c = CHR ''-'' then - digits_value ds
                  else if c = CHR ''+'' then digits_value ds else digits_value s)"

text \<open>\<open>[-]i.f[e[+-]x]\<close>: sign, digits and power of ten.\<close>

definition decimal_of :: "string \<Rightarrow> bool \<times> int \<times> int" where
  "decimal_of s =
     (let negative = (s \<noteq> [] \<and> hd s = CHR ''-'');
          body = (if negative then tl s else s);
          mantissa = takeWhile (\<lambda>c. c \<noteq> CHR ''e'') body;
          power = drop (Suc (length mantissa)) body;
          whole = takeWhile (\<lambda>c. c \<noteq> CHR ''.'') mantissa;
          fraction = drop (Suc (length whole)) mantissa in
      (negative, digits_value (whole @ fraction), signed_value power - int (length fraction)))"

section \<open>Rounding to a double\<close>

function bit_length :: "int \<Rightarrow> int" where
  "bit_length n = (if n \<le> 0 then 0 else 1 + bit_length (n div 2))"
  by auto
termination by (relation "measure nat") auto

declare bit_length.simps [simp del]

definition power_of :: "int \<Rightarrow> int \<Rightarrow> int" where
  "power_of b k = b ^ nat k"

definition round_half_even :: "int \<Rightarrow> int \<Rightarrow> int" where
  "round_half_even n d =
     (let q = n div d; r = n mod d in
      if 2 * r < d then q else if d < 2 * r then q + 1 else if even q then q else q + 1)"

text \<open>A quotient as a mantissa of at most 53 bits and a power of two that is at least -1074.\<close>

definition double_of :: "int \<Rightarrow> int \<Rightarrow> int \<times> int" where
  "double_of n d =
     (let k = bit_length n - bit_length d - 53;
          fits = (n * power_of 2 (- k) < 2 ^ 53 * d * power_of 2 k);
          e = max (- 1074) (if fits then k else k + 1) in
      (round_half_even (n * power_of 2 (- e)) (d * power_of 2 e), e))"

definition float_value :: "string \<Rightarrow> int \<times> int" where
  "float_value s =
     (let (negative, m, x) = decimal_of s; (q, e) = double_of (m * power_of 10 x) (power_of 10 (- x)) in
      (if negative then - q else q, e))"

section \<open>Comparison\<close>

definition number_value :: "pyval \<Rightarrow> (int \<times> int) option" where
  "number_value v =
     (case v of PInt i \<Rightarrow> Some (i, 0) | PFloat (Finite s) \<Rightarrow> Some (float_value s) | _ \<Rightarrow> None)"

definition dyadic_less :: "int \<times> int \<Rightarrow> int \<times> int \<Rightarrow> bool" where
  "dyadic_less p q =
     (let k = min (snd p) (snd q) in fst p * 2 ^ nat (snd p - k) < fst q * 2 ^ nat (snd q - k))"

definition number_less :: "pyval \<Rightarrow> pyval \<Rightarrow> bool" where
  "number_less v w =
     (case (number_value v, number_value w) of (Some p, Some q) \<Rightarrow> dyadic_less p q | _ \<Rightarrow> False)"

lemma number_less_int [simp]: "number_less (PInt i) (PInt j) \<longleftrightarrow> i < j"
  by (simp add: number_less_def number_value_def dyadic_less_def)

text \<open>The order is the one of the values as real numbers.\<close>

definition dyadic_real :: "int \<times> int \<Rightarrow> real" where
  "dyadic_real p = of_int (fst p) * 2 powr of_int (snd p)"

lemma dyadic_less_real: "dyadic_less p q \<longleftrightarrow> dyadic_real p < dyadic_real q"
proof -
  let ?k = "min (snd p) (snd q)"
  have scaled: "dyadic_real r = of_int (fst r * 2 ^ nat (snd r - ?k)) * 2 powr of_int ?k"
    if "?k \<le> snd r" for r
  proof -
    have "(2::real) powr of_int (snd r) = 2 powr of_int (snd r - ?k) * 2 powr of_int ?k"
      by (simp add: powr_add [symmetric])
    also have "(2::real) powr of_int (snd r - ?k) = 2 ^ nat (snd r - ?k)"
      using that by (simp add: powr_realpow [symmetric])
    finally show ?thesis by (simp add: dyadic_real_def)
  qed
  have "dyadic_real p < dyadic_real q \<longleftrightarrow>
      (of_int (fst p * 2 ^ nat (snd p - ?k)) :: real) < of_int (fst q * 2 ^ nat (snd q - ?k))"
    using scaled [of p] scaled [of q] by (simp del: of_int_mult)
  then show ?thesis by (simp add: dyadic_less_def Let_def del: of_int_mult)
qed

text \<open>The double next to \<open>10 ^ 23\<close> is below it, as CPython has it; a tenth is not a dyadic fraction.\<close>

lemma number_less_examples:
  "number_less (PFloat (Finite ''1e+23'')) (PInt (10 ^ 23))"
  "number_less (PInt 9007199254740992) (PFloat (Finite ''9007199254740994.0''))"
  "number_less (PFloat (Finite ''-0.5'')) (PFloat (Finite ''1e-20''))"
  "float_value ''0.1'' = (7205759403792794, - 56)"
  by code_simp+

lemma number_less_trans: "number_less u v \<Longrightarrow> number_less v w \<Longrightarrow> number_less u w"
  by (auto simp: number_less_def dyadic_less_real split: option.splits)

lemma number_less_irrefl [simp]: "\<not> number_less v v"
  by (auto simp: number_less_def dyadic_less_real split: option.splits)

section \<open>Equality\<close>

text \<open>
  Equality of Python values, coarser than identity: \<open>1 == 1.0 == True\<close>, and two dicts are equal whatever
  the order of their items.
\<close>

fun scalar_number :: "pyval \<Rightarrow> (int \<times> int) option" where
  "scalar_number (PBool b) = Some (of_bool b, 0)"
| "scalar_number v = number_value v"

definition dyadic_eq :: "int \<times> int \<Rightarrow> int \<times> int \<Rightarrow> bool" where
  "dyadic_eq a b = (\<not> dyadic_less a b \<and> \<not> dyadic_less b a)"

lemma size_element: "x \<in> set xs \<Longrightarrow> size x < Suc (size_list size xs)"
  by (simp add: less_Suc_eq_le size_list_estimation')

lemma size_member: "(a, b) \<in> set kvs \<Longrightarrow> size b < Suc (size_list (size_prod (\<lambda>x. 0) size) kvs)"
  using size_list_estimation' [of "(a, b)" kvs "size b" "size_prod (\<lambda>x. 0) size"] by simp

function py_equal :: "pyval \<Rightarrow> pyval \<Rightarrow> bool" where
  "py_equal v w =
     (case (v, w) of
        (PNone, PNone) \<Rightarrow> True
      | (PStr s, PStr t) \<Rightarrow> s = t
      | (PList vs, PList ws) \<Rightarrow> list_all2 py_equal vs ws
      | (PDict as, PDict bs) \<Rightarrow>
          length as = length bs \<and>
          (\<forall>a \<in> set as. \<exists>b \<in> set bs. fst a = fst b \<and> py_equal (snd a) (snd b))
      | _ \<Rightarrow> (case (scalar_number v, scalar_number w) of (Some x, Some y) \<Rightarrow> dyadic_eq x y | _ \<Rightarrow> False))"
  by pat_completeness auto
termination
  by (relation "measure (\<lambda>(v, w). size v)") (auto intro: size_element size_member)

declare py_equal.simps [simp del]

lemma dyadic_eq_refl [simp]: "dyadic_eq p p"
  by (simp add: dyadic_eq_def dyadic_less_def)

text \<open>Data is equal to itself; a NaN is not.\<close>

fun number_data :: "pyval \<Rightarrow> bool" where
  "number_data (PFloat x) = (x \<noteq> NonFinite)"
| "number_data (PList vs) = list_all number_data vs"
| "number_data (PDict kvs) = list_all (\<lambda>kv. number_data (snd kv)) kvs"
| "number_data POther = False"
| "number_data _ = True"

lemma py_equal_refl: "number_data v \<Longrightarrow> py_equal v v"
proof (induction v)
  case (PFloat x)
  then obtain t where "x = Finite t" by (cases x) auto
  then show ?case by (subst py_equal.simps) (simp add: number_value_def)
next
  case (PList vs)
  then show ?case by (auto simp: py_equal.simps [of "PList vs" "PList vs"] list_all_iff list.rel_refl_strong)
next
  case (PDict kvs)
  have "\<forall>a \<in> set kvs. \<exists>b \<in> set kvs. fst a = fst b \<and> py_equal (snd a) (snd b)"
  proof
    fix a assume a: "a \<in> set kvs"
    then have "number_data (snd a)" using PDict.prems by (auto simp: list_all_iff)
    then have "py_equal (snd a) (snd a)" using PDict.IH [OF a, of "snd a"] by (cases a) simp
    with a show "\<exists>b \<in> set kvs. fst a = fst b \<and> py_equal (snd a) (snd b)" by blast
  qed
  then show ?case by (simp add: py_equal.simps [of "PDict kvs" "PDict kvs"])
qed (auto simp: py_equal.simps number_value_def)

end
