(* ===== verification/Validation_Models.thy ===== *)
theory Validation_Models
  imports Memory_Refinement Py_Numbers
begin

text \<open>
  Texts, JSON data and records of the memory validation (\<open>memory_validation/normalization.py\<close>,
  \<open>models.py\<close>): candidates for memories, their normalized identity, and the decisions about them.
\<close>

abbreviation invalid_candidate :: exn where
  "invalid_candidate \<equiv> ValidationExn CandidateValidationError"
abbreviation invalid_candidate_provenance :: exn where
  "invalid_candidate_provenance \<equiv> ValidationExn CandidateProvenanceError"
abbreviation invalid_candidate_confidence :: exn where
  "invalid_candidate_confidence \<equiv> ValidationExn CandidateConfidenceError"
abbreviation invalid_candidate_timestamp :: exn where
  "invalid_candidate_timestamp \<equiv> ValidationExn CandidateTimestampError"
abbreviation invalid_correction_request :: exn where
  "invalid_correction_request \<equiv> ValidationExn InvalidCorrectionRequestError"
abbreviation normalization_error :: exn where
  "normalization_error \<equiv> ValidationExn NormalizationError"
abbreviation unsupported_value :: exn where
  "unsupported_value \<equiv> ValidationExn UnsupportedValueError"
abbreviation decision_not_applicable :: exn where
  "decision_not_applicable \<equiv> ValidationExn DecisionNotApplicableError"
abbreviation stale_validation_decision :: exn where
  "stale_validation_decision \<equiv> ValidationExn StaleDecisionError"
abbreviation policy_invariant :: exn where
  "policy_invariant \<equiv> ValidationExn PolicyInvariantError"

section \<open>Identity texts\<close>

text \<open>\<open>str.split()\<close>: the maximal runs of characters that are not whitespace.\<close>

lemma dropWhile_shorter: "length (dropWhile P xs) \<le> length xs"
  by (induction xs) auto

function py_split :: "string \<Rightarrow> string list" where
  "py_split s =
     (case dropWhile py_isspace s of
        [] \<Rightarrow> []
      | c # r \<Rightarrow> (c # takeWhile (\<lambda>d. \<not> py_isspace d) r) # py_split (dropWhile (\<lambda>d. \<not> py_isspace d) r))"
  by pat_completeness auto
termination
proof (relation "measure length")
  fix s c r
  assume "dropWhile py_isspace s = c # r"
  then have "length r < length s"
    using dropWhile_shorter [of py_isspace s] by simp
  then show "(dropWhile (\<lambda>d. \<not> py_isspace d) r, s) \<in> measure length"
    using dropWhile_shorter [of "\<lambda>d. \<not> py_isspace d" r] by simp
qed simp

declare py_split.simps [simp del]

fun join_space :: "string list \<Rightarrow> string" where
  "join_space [] = []"
| "join_space [w] = w"
| "join_space (w # ws) = w @ '' '' @ join_space ws"

text \<open>
  \<open>normalize_identity_text\<close>. \<open>unicodedata.normalize("NFC", \<dots>)\<close> returns its argument when every character is
  below U+0300: those characters have no composition (\<open>NFC_Quick_Check=Yes\<close>, combining class 0). The
  characters of the model are below U+0100, so only the whitespace is left to normalize.
\<close>

definition normalize_identity_text :: "string \<Rightarrow> string res" where
  "normalize_identity_text s =
     (let normalized = join_space (py_split s) in
      raise_if (normalized = []) normalization_error (Inr normalized))"

section \<open>JSON data\<close>

text \<open>The loop of \<open>_validate_json_tree\<close> on a tree: the values that are still on the stack.\<close>

function tree_loop :: "pyval list \<Rightarrow> unit res" where
  "tree_loop [] = Inr ()"
| "tree_loop (v # stack) =
     (case v of
        PFloat x \<Rightarrow> raise_if (x = NonFinite) unsupported_value (tree_loop stack)
      | PList vs \<Rightarrow> tree_loop (vs @ stack)
      | PDict kvs \<Rightarrow>
          raise_if (KOther \<in> set (map fst kvs)) unsupported_value (tree_loop (map snd kvs @ stack))
      | POther \<Rightarrow> Inl unsupported_value
      | _ \<Rightarrow> tree_loop stack)"
  by pat_completeness auto
termination
proof (relation "measure (\<lambda>stack. sum_list (map print_weight stack))")
  have lists: "sum_list (map print_weight vs) < print_weight (PList vs)" for vs by (induction vs) auto
  have dicts: "sum_list (map print_weight (map snd kvs)) < print_weight (PDict kvs)"
    for kvs :: "(pykey \<times> pyval) list" by (induction kvs) auto
  fix v stack
  show "v = PList vs \<Longrightarrow>
    (vs @ stack, v # stack) \<in> measure (\<lambda>stack. sum_list (map print_weight stack))" for vs
    using lists [of vs] by simp
  show "v = PDict kvs \<Longrightarrow> \<not> KOther \<in> set (map fst kvs) \<Longrightarrow>
    (map snd kvs @ stack, v # stack) \<in> measure (\<lambda>stack. sum_list (map print_weight stack))" for kvs
    using dicts [of kvs] by simp
qed auto

definition validate_json_tree :: "pyval \<Rightarrow> unit res" where
  "validate_json_tree v = tree_loop [v]"

text \<open>\<open>canonicalize_json\<close>: the only error of \<open>json.dumps\<close> on validated data is an integer too long to print.\<close>

definition canonicalize_json :: "pyval \<Rightarrow> string res" where
  "canonicalize_json v =
     tryE (validate_json_tree v) (\<lambda>_.
     raise_if (\<not> ints_printable v) unsupported_value (Inr (canon v)))"

text \<open>\<open>copy_json\<close>: \<open>except (RecursionError, ValueError) as error: raise UnsupportedValueError\<close>.\<close>

definition copy_json_value :: "pyval \<Rightarrow> pyval res" where
  "copy_json_value v =
     tryE (canonicalize_json v) (\<lambda>canonical.
     case json_loads canonical of None \<Rightarrow> Inl unsupported_value | Some w \<Rightarrow> Inr w)"

section \<open>Decision types and reasons\<close>

definition validation_metadata_key :: string where
  "validation_metadata_key = ''ayyo_memory_validation''"

definition validation_policy_version :: int where
  "validation_policy_version = 1"

datatype validation_type = AcceptNew | ExactDuplicate | ConflictReview | ApplyCorrection | RejectCandidate

fun validation_type_value :: "validation_type \<Rightarrow> string" where
  "validation_type_value AcceptNew = ''accept_new''"
| "validation_type_value ExactDuplicate = ''exact_duplicate''"
| "validation_type_value ConflictReview = ''conflict_review''"
| "validation_type_value ApplyCorrection = ''apply_correction''"
| "validation_type_value RejectCandidate = ''reject''"

datatype validation_reason =
    NoActiveMemory
  | ExactValueAlreadyActive
  | ExactValueActiveWithConflicts
  | DifferentActiveValue
  | CanonicalIdentityVariantRequiresReview
  | ExplicitCorrectionAllowed
  | CorrectionAlreadyApplied
  | CorrectionTargetNotFound
  | CorrectionTargetNotActive
  | CorrectionIdentityMismatch
  | CorrectionAuthorityForbidden

fun validation_reason_value :: "validation_reason \<Rightarrow> string" where
  "validation_reason_value NoActiveMemory = ''no_active_memory''"
| "validation_reason_value ExactValueAlreadyActive = ''exact_value_already_active''"
| "validation_reason_value ExactValueActiveWithConflicts = ''exact_value_active_with_conflicts''"
| "validation_reason_value DifferentActiveValue = ''different_active_value''"
| "validation_reason_value CanonicalIdentityVariantRequiresReview =
     ''canonical_identity_variant_requires_review''"
| "validation_reason_value ExplicitCorrectionAllowed = ''explicit_correction_allowed''"
| "validation_reason_value CorrectionAlreadyApplied = ''correction_already_applied''"
| "validation_reason_value CorrectionTargetNotFound = ''correction_target_not_found''"
| "validation_reason_value CorrectionTargetNotActive = ''correction_target_not_active''"
| "validation_reason_value CorrectionIdentityMismatch = ''correction_identity_mismatch''"
| "validation_reason_value CorrectionAuthorityForbidden = ''correction_authority_forbidden''"

fun reasons_of :: "validation_type \<Rightarrow> validation_reason list" where
  "reasons_of AcceptNew = [NoActiveMemory]"
| "reasons_of ExactDuplicate =
     [ExactValueAlreadyActive, ExactValueActiveWithConflicts, CorrectionAlreadyApplied]"
| "reasons_of ConflictReview = [DifferentActiveValue, CanonicalIdentityVariantRequiresReview]"
| "reasons_of ApplyCorrection = [ExplicitCorrectionAllowed]"
| "reasons_of RejectCandidate =
     [CorrectionTargetNotFound, CorrectionTargetNotActive, CorrectionIdentityMismatch,
      CorrectionAuthorityForbidden]"

definition correction_authorities :: "provenance_type list" where
  "correction_authorities = [ExplicitOwnerStatement, TrustedManualImport]"

definition correction_only_reasons :: "validation_reason list" where
  "correction_only_reasons =
     [ExplicitCorrectionAllowed, CorrectionAlreadyApplied, CorrectionTargetNotFound,
      CorrectionTargetNotActive, CorrectionIdentityMismatch, CorrectionAuthorityForbidden]"

definition decision_metadata_keys :: "string list" where
  "decision_metadata_keys =
     [''active_memory_count'', ''correction_requested'', ''exact_duplicate_count'',
      ''identity_was_normalized'', ''policy_version'', ''storage_identity_variant_count'']"

section \<open>Candidates\<close>

record candidate =
  cd_memory_type :: memory_type
  cd_subject :: string
  cd_predicate :: string
  cd_confidence :: pyfloat
  cd_observed_at :: py_datetime
  cd_target :: "uuid option"
  cd_reason :: "string option"
  cd_value_json :: string
  cd_metadata_json :: string
  cd_provenance_type :: provenance_type
  cd_source_id :: string
  cd_details_json :: string

text \<open>\<open>float(confidence)\<close>, when it is a finite number from 0.0 to 1.0.\<close>

definition candidate_confidence :: "pyval \<Rightarrow> pyfloat res" where
  "candidate_confidence c =
     raise_if (float_overflow c) (BuiltinExn OverflowError)
    (case confidence_value c of None \<Rightarrow> Inl invalid_candidate_confidence | Some x \<Rightarrow> Inr x)"

definition check_correction_request :: "uuid option \<Rightarrow> string option \<Rightarrow> unit res" where
  "check_correction_request target reason =
     (case target of
        None \<Rightarrow> raise_if (reason \<noteq> None) invalid_correction_request (Inr ())
      | Some _ \<Rightarrow>
          (case reason of None \<Rightarrow> Inl invalid_correction_request
           | Some t \<Rightarrow> validate_exact_text invalid_correction_request t))"

text \<open>\<open>except NormalizationError as error: raise CandidateProvenanceError\<close>.\<close>

definition as_candidate_provenance :: "'a res \<Rightarrow> 'a res" where
  "as_candidate_provenance r =
     (case r of Inl (ValidationExn e) \<Rightarrow>
        if e \<in> {NormalizationError, UnsupportedValueError} then Inl invalid_candidate_provenance else r
      | _ \<Rightarrow> r)"

definition mk_candidate ::
  "memory_type \<Rightarrow> string \<Rightarrow> string \<Rightarrow> pyval \<Rightarrow> provenance \<Rightarrow> pyval \<Rightarrow> py_datetime \<Rightarrow>
   (pykey \<times> pyval) list option \<Rightarrow> uuid option \<Rightarrow> string option \<Rightarrow> candidate res" where
  "mk_candidate mtype subject predicate val prov confidence observed_at metadata target reason =
     tryE (normalize_identity_text subject) (\<lambda>_.
     tryE (normalize_identity_text predicate) (\<lambda>_.
     tryE (candidate_confidence confidence) (\<lambda>conf.
     raise_if (dt_utcoffset observed_at = None) invalid_candidate_timestamp
    (raise_if (dt_utcoffset observed_at \<noteq> Some 0) invalid_candidate_timestamp
    (let meta = (case metadata of None \<Rightarrow> [] | Some m \<Rightarrow> m) in
     raise_if (KStr validation_metadata_key \<in> set (map fst meta)) invalid_candidate
    (tryE (check_correction_request target reason) (\<lambda>_.
     tryE (as_candidate_provenance (canonicalize_json (PDict (pv_details prov)))) (\<lambda>details_json.
     tryE (canonicalize_json val) (\<lambda>value_json.
     tryE (canonicalize_json (PDict meta)) (\<lambda>metadata_json.
     Inr \<lparr>cd_memory_type = mtype, cd_subject = subject, cd_predicate = predicate,
          cd_confidence = conf, cd_observed_at = observed_at, cd_target = target,
          cd_reason = reason, cd_value_json = value_json, cd_metadata_json = metadata_json,
          cd_provenance_type = pv_type prov, cd_source_id = pv_source_id prov,
          cd_details_json = details_json\<rparr>))))))))))"

text \<open>The properties: they read the kept texts again.\<close>

definition candidate_value :: "candidate \<Rightarrow> pyval res" where
  "candidate_value c = loaded (cd_value_json c)"

definition candidate_metadata :: "candidate \<Rightarrow> pyval res" where
  "candidate_metadata c = loaded (cd_metadata_json c)"

definition candidate_provenance :: "candidate \<Rightarrow> provenance res" where
  "candidate_provenance c =
     tryE (loaded (cd_details_json c)) (\<lambda>details.
     tryE (loaded_mapping invalid_provenance details) (\<lambda>details.
     mk_provenance (cd_provenance_type c) (cd_source_id c) details))"

section \<open>Identities\<close>

record identity =
  ni_memory_type :: memory_type
  ni_subject :: string
  ni_predicate :: string

definition mk_identity :: "memory_type \<Rightarrow> string \<Rightarrow> string \<Rightarrow> identity res" where
  "mk_identity mtype subject predicate =
     tryE (normalize_identity_text subject) (\<lambda>s. raise_if (s \<noteq> subject) policy_invariant
    (tryE (normalize_identity_text predicate) (\<lambda>p. raise_if (p \<noteq> predicate) policy_invariant
    (Inr \<lparr>ni_memory_type = mtype, ni_subject = subject, ni_predicate = predicate\<rparr>))))"

definition normalized_identity :: "memory_type \<Rightarrow> string \<Rightarrow> string \<Rightarrow> identity res" where
  "normalized_identity mtype subject predicate =
     tryE (normalize_identity_text subject) (\<lambda>s.
     tryE (normalize_identity_text predicate) (\<lambda>p. mk_identity mtype s p))"

definition candidate_identity :: "candidate \<Rightarrow> identity res" where
  "candidate_identity c = normalized_identity (cd_memory_type c) (cd_subject c) (cd_predicate c)"

definition identity_for_record :: "memory_record \<Rightarrow> identity res" where
  "identity_for_record r = normalized_identity (mr_memory_type r) (mr_subject r) (mr_predicate r)"

record normalized_candidate =
  nc_candidate :: candidate
  nc_identity :: identity
  nc_value :: string

definition check_normalized_candidate :: "normalized_candidate \<Rightarrow> normalized_candidate res" where
  "check_normalized_candidate n =
     tryE (candidate_identity (nc_candidate n)) (\<lambda>expected.
     raise_if (nc_identity n \<noteq> expected) policy_invariant
    (raise_if (nc_value n \<noteq> cd_value_json (nc_candidate n)) policy_invariant (Inr n)))"

section \<open>Decisions\<close>

record validation_decision =
  vd_type :: validation_type
  vd_reason :: validation_reason
  vd_identity :: identity
  vd_candidate :: candidate
  vd_memory_ids :: "uuid list"
  vd_conflict_ids :: "uuid list"
  vd_permitted :: bool
  vd_metadata :: "(pykey \<times> pyval) list"

definition validate_uuid_tuple :: "uuid list \<Rightarrow> unit res" where
  "validate_uuid_tuple ids = raise_if (ids \<noteq> sorted_uuids ids) policy_invariant (Inr ())"

definition check_permission :: "validation_decision \<Rightarrow> unit res" where
  "check_permission d =
     raise_if (vd_type d \<in> {AcceptNew, ApplyCorrection} \<and> \<not> vd_permitted d) policy_invariant
    (raise_if (vd_type d \<in> {ExactDuplicate, RejectCandidate} \<and> vd_permitted d) policy_invariant
    (raise_if (vd_type d = ConflictReview \<and>
         vd_permitted d \<noteq> (vd_reason d = DifferentActiveValue)) policy_invariant (Inr ())))"

definition validate_decision_shape :: "validation_decision \<Rightarrow> unit res" where
  "validate_decision_shape d =
     (let target = cd_target (vd_candidate d);
          in_ids = (case target of None \<Rightarrow> False | Some i \<Rightarrow> i \<in> set (vd_memory_ids d)) in
      raise_if (vd_reason d \<in> set correction_only_reasons \<and> target = None) policy_invariant
     (raise_if (vd_type d \<in> {ApplyCorrection, RejectCandidate} \<and> target = None) policy_invariant
     (raise_if (vd_type d = AcceptNew \<and> target \<noteq> None) policy_invariant
     (raise_if (vd_type d = AcceptNew \<and> (vd_memory_ids d \<noteq> [] \<or> vd_conflict_ids d \<noteq> [])) policy_invariant
     (raise_if (vd_type d = ExactDuplicate \<and> vd_memory_ids d = []) policy_invariant
     (raise_if (vd_type d = ConflictReview \<and> vd_memory_ids d = []) policy_invariant
     (raise_if (vd_type d = ConflictReview \<and> target \<noteq> None \<and>
          vd_reason d \<noteq> CanonicalIdentityVariantRequiresReview) policy_invariant
     (raise_if (vd_type d = ApplyCorrection \<and> \<not> in_ids) policy_invariant
     (tryE (if vd_type d = ApplyCorrection
            then tryE (candidate_provenance (vd_candidate d)) (\<lambda>prov.
              raise_if (pv_type prov \<notin> set correction_authorities) policy_invariant (Inr ()))
            else Inr ()) (\<lambda>_.
      raise_if (target \<noteq> None \<and> vd_reason d \<noteq> CorrectionTargetNotFound \<and> \<not> in_ids) policy_invariant
        (Inr ())))))))))))"

text \<open>The loop over the pairs and the check of the keys.\<close>

fun metadata_scalar :: "pyval \<Rightarrow> bool" where
  "metadata_scalar (PList vs) = False"
| "metadata_scalar (PDict kvs) = False"
| "metadata_scalar POther = False"
| "metadata_scalar _ = True"

definition check_metadata_pairs :: "(pykey \<times> pyval) list \<Rightarrow> unit res" where
  "check_metadata_pairs m =
     tryE (for_each (\<lambda>(k, v).
       raise_if (k = KOther \<or> k = KStr []) policy_invariant
      (raise_if (\<not> metadata_scalar v) policy_invariant
      (raise_if (v = PFloat NonFinite) policy_invariant (Inr ())))) m) (\<lambda>_.
     let keys = map (key_str \<circ> fst) m in
     raise_if (keys \<noteq> sort keys \<or> length keys \<noteq> length (remdups keys)) policy_invariant (Inr ()))"

text \<open>\<open>metadata[key]\<close> as an exact non-negative integer; other values are -1.\<close>

definition metadata_count :: "(pykey \<times> pyval) list \<Rightarrow> string \<Rightarrow> int" where
  "metadata_count m k =
     (case map_of m (KStr k) of Some (PInt i) \<Rightarrow> (if i < 0 then - 1 else i) | _ \<Rightarrow> - 1)"

definition validate_explanatory_metadata :: "validation_decision \<Rightarrow> unit res" where
  "validate_explanatory_metadata d =
     (let m = vd_metadata d;
          active = metadata_count m ''active_memory_count'';
          exact = metadata_count m ''exact_duplicate_count'';
          variants = metadata_count m ''storage_identity_variant_count'' in
      raise_if (set (map fst m) \<noteq> KStr ` set decision_metadata_keys) policy_invariant
     (raise_if (active < 0 \<or> exact < 0 \<or> variants < 0) policy_invariant
     (raise_if (exact > active \<or> variants > active) policy_invariant
     (raise_if (map_of m (KStr ''policy_version'') \<noteq> Some (PInt validation_policy_version)) policy_invariant
     (raise_if (map_of m (KStr ''correction_requested'') \<noteq>
         Some (PBool (cd_target (vd_candidate d) \<noteq> None))) policy_invariant
     (raise_if (map_of m (KStr ''identity_was_normalized'') \<noteq>
         Some (PBool (cd_subject (vd_candidate d) \<noteq> ni_subject (vd_identity d) \<or>
           cd_predicate (vd_candidate d) \<noteq> ni_predicate (vd_identity d)))) policy_invariant
     (raise_if (vd_type d = AcceptNew \<and> active \<noteq> 0) policy_invariant
     (raise_if (vd_type d = ExactDuplicate \<and> exact = 0) policy_invariant
     (raise_if (vd_type d \<in> {ConflictReview, ApplyCorrection} \<and> active = 0) policy_invariant
     (raise_if (vd_conflict_ids d \<noteq> [] \<and> (active < 2 \<or> length (vd_memory_ids d) < 2)) policy_invariant
     (raise_if (vd_reason d = ExactValueActiveWithConflicts \<and> vd_conflict_ids d = []) policy_invariant
       (Inr ()))))))))))))"

definition check_validation_decision :: "validation_decision \<Rightarrow> validation_decision res" where
  "check_validation_decision d =
     tryE (candidate_identity (vd_candidate d)) (\<lambda>expected.
     raise_if (vd_identity d \<noteq> expected) policy_invariant
    (raise_if (vd_reason d \<notin> set (reasons_of (vd_type d))) policy_invariant
    (tryE (check_permission d) (\<lambda>_.
     tryE (validate_uuid_tuple (vd_memory_ids d)) (\<lambda>_.
     tryE (validate_uuid_tuple (vd_conflict_ids d)) (\<lambda>_.
     tryE (validate_decision_shape d) (\<lambda>_.
     tryE (check_metadata_pairs (vd_metadata d)) (\<lambda>_.
     tryE (validate_explanatory_metadata d) (\<lambda>_. Inr d)))))))))"

section \<open>Results\<close>

record application_result =
  ar_decision :: validation_decision
  ar_mutated :: bool
  ar_memory :: "memory_record option"

definition check_application_result :: "application_result \<Rightarrow> application_result res" where
  "check_application_result a =
     (let d = ar_decision a in
      raise_if (ar_mutated a \<and> ar_memory a = None) policy_invariant
     (raise_if (ar_mutated a \<and> \<not> vd_permitted d) policy_invariant
     (raise_if (\<not> ar_mutated a \<and> (vd_type d \<noteq> ExactDuplicate \<or> ar_memory a = None)) policy_invariant
     (case ar_memory a of
        None \<Rightarrow> Inr a
      | Some r \<Rightarrow>
          tryE (identity_for_record r) (\<lambda>i.
          raise_if (i \<noteq> vd_identity d) policy_invariant
         (tryE (canonicalize_json (mr_value r)) (\<lambda>t.
          raise_if (t \<noteq> cd_value_json (vd_candidate d)) policy_invariant (Inr a))))))))"

section \<open>Normalized texts\<close>

definition words_ok :: "string list \<Rightarrow> bool" where
  "words_ok ws \<longleftrightarrow> (\<forall>w \<in> set ws. w \<noteq> [] \<and> (\<forall>c \<in> set w. \<not> py_isspace c))"

definition normal_text :: "string \<Rightarrow> string" where
  "normal_text s = join_space (py_split s)"

lemma py_split_unfold:
  "dropWhile py_isspace s = [] \<Longrightarrow> py_split s = []"
  "dropWhile py_isspace s = c # r \<Longrightarrow>
     py_split s = (c # takeWhile (\<lambda>d. \<not> py_isspace d) r) # py_split (dropWhile (\<lambda>d. \<not> py_isspace d) r)"
  by (subst py_split.simps, simp only: list.case)+

lemma dropWhile_head: "dropWhile P xs = c # r \<Longrightarrow> \<not> P c"
  by (induction xs) (auto split: if_splits)

lemma words_ok_Cons:
  "words_ok ((c # w) # ws) \<longleftrightarrow> \<not> py_isspace c \<and> (\<forall>d \<in> set w. \<not> py_isspace d) \<and> words_ok ws"
  by (simp add: words_ok_def)

lemma py_split_words: "words_ok (py_split s)"
proof (induction s rule: measure_induct_rule [of length])
  case (less s)
  show ?case
  proof (cases "dropWhile py_isspace s")
    case (Cons c r)
    have "length (c # r) \<le> length s" using dropWhile_shorter [of py_isspace s] unfolding Cons .
    then have "words_ok (py_split (dropWhile (\<lambda>d. \<not> py_isspace d) r))"
      using dropWhile_shorter [of "\<lambda>d. \<not> py_isspace d" r] by (intro less) simp
    moreover have "\<forall>d \<in> set (takeWhile (\<lambda>d. \<not> py_isspace d) r). \<not> py_isspace d"
      by (blast dest: set_takeWhileD)
    moreover note dropWhile_head [OF Cons]
    ultimately show ?thesis
      unfolding py_split_unfold(2) [OF Cons] words_ok_Cons by blast
  next
    case Nil
    show ?thesis unfolding py_split_unfold(1) [OF Nil] by (simp add: words_ok_def)
  qed
qed

lemma py_split_space: "py_isspace c \<Longrightarrow> py_split (c # r) = py_split r"
  by (simp add: py_split.simps [of "c # r"] py_split.simps [of r])

lemma py_split_word:
  assumes "w \<noteq> []" "\<forall>c \<in> set w. \<not> py_isspace c" "r = [] \<or> py_isspace (hd r)"
  shows "py_split (w @ r) = w # py_split r"
proof -
  obtain c v where w: "w = c # v" using assms(1) by (cases w) auto
  have "takeWhile (\<lambda>d. \<not> py_isspace d) (v @ r) = v" "dropWhile (\<lambda>d. \<not> py_isspace d) (v @ r) = r"
    using assms(2,3) w by (cases r; simp add: takeWhile_append2 dropWhile_append2)+
  then show ?thesis using assms(2) w by (simp add: py_split.simps [of "c # v @ r"])
qed

lemma py_isspace_blank [simp]: "py_isspace (CHR '' '')"
  by (simp add: py_isspace_def code_point_def)

lemma py_split_join: "words_ok ws \<Longrightarrow> py_split (join_space ws) = ws"
proof (induction ws rule: join_space.induct)
  case (2 w)
  then show ?case using py_split_word [of w "[]"] by (simp add: words_ok_def py_split.simps [of "[]"])
next
  case (3 w w' ws)
  then show ?case by (simp add: words_ok_def py_split_word py_split_space)
qed (simp add: py_split.simps)

lemma join_space_ends:
  "words_ok ws \<Longrightarrow> ws \<noteq> [] \<Longrightarrow> join_space ws \<noteq> [] \<and> hd (join_space ws) = hd (hd ws) \<and>
   last (join_space ws) = last (last ws)"
  by (induction ws rule: join_space.induct) (auto simp: words_ok_def)

lemma normal_text_idem [simp]: "normal_text (normal_text s) = normal_text s"
  by (simp add: normal_text_def py_split_join py_split_words)

lemma normal_text_exact:
  assumes "normal_text s \<noteq> []"
  shows "exact_text_ok (normal_text s)"
proof -
  let ?ws = "py_split s"
  have ne: "?ws \<noteq> []" using assms by (auto simp: normal_text_def)
  note ends = join_space_ends [OF py_split_words ne]
  have "\<not> py_isspace (hd (hd ?ws))" "\<not> py_isspace (last (last ?ws))"
    using py_split_words [of s] ne unfolding words_ok_def by (meson hd_in_set last_in_set)+
  then have "\<not> py_isspace (hd (normal_text s))" "\<not> py_isspace (last (normal_text s))"
    using ends by (simp_all add: normal_text_def)
  moreover have "dropWhile P t = t" if "t \<noteq> []" "\<not> P (hd t)" for t :: string and P
    using that by (cases t) auto
  ultimately show ?thesis
    using assms by (simp add: exact_text_ok_def py_strip_def hd_rev)
qed

lemma exact_text_normal: "exact_text_ok s \<Longrightarrow> normal_text s \<noteq> []"
proof
  assume s: "exact_text_ok s" "normal_text s = []"
  have "py_split s = []"
    using s(2) join_space_ends [OF py_split_words, of s] by (auto simp: normal_text_def)
  then have "dropWhile py_isspace s = []" by (simp add: py_split.simps [of s] split: list.splits)
  with s(1) show False by (auto simp: exact_text_ok_def py_strip_def)
qed

lemma normalize_identity_text_eq:
  "normalize_identity_text s =
     (if normal_text s = [] then Inl normalization_error else Inr (normal_text s))"
  by (simp add: normalize_identity_text_def normal_text_def Let_def raise_if_def)

lemma normalized_identity_eq:
  "normalized_identity t s p =
     (if normal_text s = [] \<or> normal_text p = [] then Inl normalization_error
      else Inr \<lparr>ni_memory_type = t, ni_subject = normal_text s, ni_predicate = normal_text p\<rparr>)"
  by (simp add: normalized_identity_def mk_identity_def normalize_identity_text_eq)

section \<open>JSON texts\<close>

lemma tree_loop_eq:
  "tree_loop stack = (if list_all memory_json_ok stack then Inr () else Inl unsupported_value)"
proof (induction stack rule: tree_loop.induct)
  case (2 v stack)
  have "KOther \<notin> set (map fst kvs) \<and> list_all memory_json_ok (map snd kvs) \<longleftrightarrow> memory_json_ok (PDict kvs)" for kvs
    by (auto simp: list_all_iff image_iff)
  with 2 show ?case by (cases v) (auto simp: raise_if_def simp del: memory_json_ok.simps(3))
qed simp

lemma canonicalize_json_eq:
  "canonicalize_json v =
     (if memory_json_ok v \<and> ints_printable v then Inr (canon v) else Inl unsupported_value)"
  by (simp add: canonicalize_json_def validate_json_tree_def tree_loop_eq raise_if_def del: canon.simps)

lemma printable_json: "printable v \<Longrightarrow> memory_json_ok v"
  by (induction v rule: printable.induct) (auto simp: list_all_iff image_iff)

lemma memory_json_number: "memory_json_ok v \<Longrightarrow> number_data v"
  by (induction v rule: number_data.induct) (auto simp: list_all_iff)

text \<open>A copy is the data with its members in the order of their keys.\<close>

lemma copy_json_value_eq:
  "printable v \<Longrightarrow> ints_printable v \<Longrightarrow> copy_json_value v = Inr (normal v)"
  by (simp add: copy_json_value_def canonicalize_json_eq printable_json json_loads_canon del: canon.simps)

section \<open>Well-formed candidates\<close>

definition text_of_dict :: "string \<Rightarrow> (pykey \<times> pyval) list \<Rightarrow> bool" where
  "text_of_dict t m \<longleftrightarrow>
     t = canon (PDict m) \<and> printable (PDict m) \<and> ints_printable (PDict m) \<and> normal (PDict m) = PDict m"

definition candidate_ok :: "candidate \<Rightarrow> bool" where
  "candidate_ok c \<longleftrightarrow>
     normal_text (cd_subject c) \<noteq> [] \<and> normal_text (cd_predicate c) \<noteq> [] \<and>
     confidence_value (PFloat (cd_confidence c)) \<noteq> None \<and>
     utc_ok (cd_observed_at c) \<and> instant_ok (cd_observed_at c) \<and>
     (case cd_target c of None \<Rightarrow> cd_reason c = None
      | Some _ \<Rightarrow> (\<exists>t. cd_reason c = Some t \<and> exact_text_ok t)) \<and>
     exact_text_ok (cd_source_id c) \<and>
     (\<exists>v. cd_value_json c = canon v \<and> printable v \<and> ints_printable v \<and> normal v = v) \<and>
     (\<exists>m. text_of_dict (cd_metadata_json c) m \<and> KStr validation_metadata_key \<notin> set (map fst m)) \<and>
     (\<exists>m. text_of_dict (cd_details_json c) m)"

lemma dict_text:
  assumes "printable (PDict m)" "ints_printable (PDict m)"
  obtains n where "text_of_dict (canon (PDict m)) n" "set (map fst n) = set (map fst m)"
proof -
  obtain n where n: "normal (PDict m) = PDict n" by simp
  have "printable (PDict n)" "ints_printable (PDict n)" "normal (PDict n) = PDict n"
    "canon (PDict n) = canon (PDict m)"
    using assms normal_printable [OF assms(1)] normal_json(2) [of "PDict m"] normal_normal [of "PDict m"]
      canon_normal [of "PDict m"] by (simp_all only: n)
  then have "text_of_dict (canon (PDict m)) n"
    unfolding text_of_dict_def by (simp only: simp_thms)
  moreover have "n = sorted_items (map (\<lambda>kv. (fst kv, normal (snd kv))) m)" using n by simp
  then have "set (map fst n) = set (map fst m)" by (simp add: image_image)
  ultimately show thesis by (rule that)
qed

lemma candidate_confidence_Inr:
  "candidate_confidence c = Inr x \<Longrightarrow> confidence_value (PFloat x) \<noteq> None"
  by (auto simp: candidate_confidence_def res_simps repr_in_unit_def split: option.splits if_splits
      elim!: confidence_value.elims)

lemma mk_candidate_ok:
  assumes made: "mk_candidate t s p v prov conf at_time metadata target reason = Inr c"
    and python: "represented v" "represented (PDict (case metadata of None \<Rightarrow> [] | Some m \<Rightarrow> m))"
      "represented (PDict (pv_details prov))" "instant_ok at_time"
    and prov: "provenance_ok prov"
  shows "candidate_ok c" "cd_value_json c = canon v" "cd_target c = target" "cd_provenance_type c = pv_type prov"
proof -
  define m where "m = (case metadata of None \<Rightarrow> [] | Some m \<Rightarrow> m)"
  obtain x where parts: "normal_text s \<noteq> []" "normal_text p \<noteq> []" "candidate_confidence conf = Inr x"
    "utc_ok at_time" "KStr validation_metadata_key \<notin> set (map fst m)"
    "check_correction_request target reason = Inr ()"
    "memory_json_ok (PDict (pv_details prov))" "ints_printable (PDict (pv_details prov))"
    "memory_json_ok v" "ints_printable v" "memory_json_ok (PDict m)" "ints_printable (PDict m)"
    and c: "c = \<lparr>cd_memory_type = t, cd_subject = s, cd_predicate = p, cd_confidence = x,
      cd_observed_at = at_time, cd_target = target, cd_reason = reason, cd_value_json = canon v,
      cd_metadata_json = canon (PDict m), cd_provenance_type = pv_type prov,
      cd_source_id = pv_source_id prov, cd_details_json = canon (PDict (pv_details prov))\<rparr>"
    using made
    by (auto simp: mk_candidate_def m_def Let_def res_simps normalize_identity_text_eq utc_ok_def
        canonicalize_json_eq as_candidate_provenance_def split: if_splits
        simp del: canon.simps memory_json_ok.simps ints_printable.simps)
  have print: "printable v" "printable (PDict m)" "printable (PDict (pv_details prov))"
    using parts python represented_printable unfolding m_def by blast+
  have val: "\<exists>w. canon v = canon w \<and> printable w \<and> ints_printable w \<and> normal w = w"
    using print(1) parts(10) normal_printable canon_normal by (intro exI [of _ "normal v"]) simp
  obtain n where n: "text_of_dict (canon (PDict m)) n" "set (map fst n) = set (map fst m)"
    using print(2) parts(12) by (rule dict_text)
  obtain d where d: "text_of_dict (canon (PDict (pv_details prov))) d"
    using print(3) parts(8) by (rule dict_text)
  have target: "case target of None \<Rightarrow> reason = None | Some _ \<Rightarrow> (\<exists>t. reason = Some t \<and> exact_text_ok t)"
    using parts(6) by (auto simp: check_correction_request_def res_simps split: option.splits if_splits)
  show "candidate_ok c"
    unfolding candidate_ok_def c candidate.simps
    using parts(1,2,4) candidate_confidence_Inr [OF parts(3)] python(4) target prov val n d parts(5)
    unfolding provenance_ok_def by blast
  show "cd_value_json c = canon v" "cd_target c = target" "cd_provenance_type c = pv_type prov"
    by (simp_all add: c del: canon.simps)
qed

end
