(* ===== verification/Validation_Policy.thy ===== *)
theory Validation_Policy
  imports Validation_Models Memory_History
begin

text \<open>
  The policy of the memory validation (\<open>memory_validation/policy.py\<close>): the checks of the memories, conflicts
  and revisions that it is given, and its decision.
\<close>

section \<open>The context\<close>

text \<open>
  \<open>==\<close> of two memory records, field by field. The instants of a record are in UTC, so they are equal when
  their fields are.
\<close>

definition memory_record_eq :: "memory_record \<Rightarrow> memory_record \<Rightarrow> bool" where
  "memory_record_eq a b \<longleftrightarrow>
     mr_memory_id a = mr_memory_id b \<and> mr_memory_type a = mr_memory_type b \<and>
     mr_subject a = mr_subject b \<and> mr_predicate a = mr_predicate b \<and>
     py_equal (mr_value a) (mr_value b) \<and>
     pv_type (mr_provenance a) = pv_type (mr_provenance b) \<and>
     pv_source_id (mr_provenance a) = pv_source_id (mr_provenance b) \<and>
     py_equal (PDict (pv_details (mr_provenance a))) (PDict (pv_details (mr_provenance b))) \<and>
     py_equal (mr_confidence a) (mr_confidence b) \<and>
     mr_observed_at a = mr_observed_at b \<and> mr_created_at a = mr_created_at b \<and>
     mr_status a = mr_status b \<and> mr_status_changed_at a = mr_status_changed_at b \<and>
     mr_supersedes a = mr_supersedes b \<and> mr_revision_reason a = mr_revision_reason b \<and>
     mr_status_reason a = mr_status_reason b \<and>
     py_equal (PDict (mr_metadata a)) (PDict (mr_metadata b))"

text \<open>The loop over the active memories; \<open>active_by_id\<close> as the list of its values.\<close>

fun collect_active ::
  "identity \<Rightarrow> memory_record list \<Rightarrow> memory_record list \<Rightarrow> memory_record list res" where
  "collect_active i active [] = Inr active"
| "collect_active i active (r # rs) =
     raise_if (mr_status r \<noteq> Active) policy_invariant
    (tryE (identity_for_record r) (\<lambda>j.
     raise_if (j \<noteq> i) policy_invariant
    (raise_if (mr_memory_id r \<in> set (map mr_memory_id active)) policy_invariant
    (collect_active i (active @ [r]) rs))))"

definition snapshot_matches :: "memory_record list \<Rightarrow> memory_record \<Rightarrow> bool res" where
  "snapshot_matches active r =
     (case find (\<lambda>a. mr_memory_id a = mr_memory_id r) active of
        None \<Rightarrow> Inl (BuiltinExn KeyError) | Some a \<Rightarrow> Inr (memory_record_eq a r))"

definition pair_of :: "memory_conflict \<Rightarrow> uuid set" where
  "pair_of c = {mr_memory_id (mc_left c), mr_memory_id (mc_right c)}"

text \<open>One round of the loop over the conflicts: \<open>conflict_ids\<close> and \<open>actual_pairs\<close> so far.\<close>

definition check_policy_conflict ::
  "identity \<Rightarrow> memory_record list \<Rightarrow> uuid list \<Rightarrow> uuid set list \<Rightarrow> memory_conflict \<Rightarrow> unit res" where
  "check_policy_conflict i active ids pairs c =
     raise_if (mc_resolved_at c \<noteq> None) policy_invariant
    (tryE (identity_for_record (mc_left c)) (\<lambda>l.
     raise_if (l \<noteq> i) policy_invariant
    (tryE (identity_for_record (mc_right c)) (\<lambda>r.
     raise_if (r \<noteq> i) policy_invariant
    (raise_if (mr_status (mc_left c) \<noteq> Active \<or> mr_status (mc_right c) \<noteq> Active) policy_invariant
    (raise_if (\<not> pair_of c \<subseteq> mr_memory_id ` set active) policy_invariant
    (tryE (snapshot_matches active (mc_left c)) (\<lambda>same.
     raise_if (\<not> same) policy_invariant
    (tryE (snapshot_matches active (mc_right c)) (\<lambda>same.
     raise_if (\<not> same) policy_invariant
    (raise_if (mc_conflict_id c \<in> set ids \<or> pair_of c \<in> set pairs) policy_invariant
    (tryE (canonicalize_json (mr_value (mc_left c))) (\<lambda>a.
     tryE (canonicalize_json (mr_value (mc_right c))) (\<lambda>b.
     raise_if (a = b) policy_invariant (Inr ())))))))))))))))"

fun collect_pairs ::
  "identity \<Rightarrow> memory_record list \<Rightarrow> uuid list \<Rightarrow> uuid set list \<Rightarrow> memory_conflict list \<Rightarrow>
   uuid set list res" where
  "collect_pairs i active ids pairs [] = Inr pairs"
| "collect_pairs i active ids pairs (c # cs) =
     tryE (check_policy_conflict i active ids pairs c) (\<lambda>_.
     collect_pairs i active (mc_conflict_id c # ids) (pair_of c # pairs) cs)"

text \<open>\<open>expected_pairs\<close>: the contradictions between active memories with the same stored identity.\<close>

fun contradicted_by :: "memory_record \<Rightarrow> memory_record list \<Rightarrow> uuid set list res" where
  "contradicted_by l [] = Inr []"
| "contradicted_by l (r # rs) =
     tryE (if memory_key l = memory_key r
           then tryE (canonicalize_json (mr_value l)) (\<lambda>a.
             tryE (canonicalize_json (mr_value r)) (\<lambda>b.
             Inr (if a \<noteq> b then [{mr_memory_id l, mr_memory_id r}] else [])))
           else Inr []) (\<lambda>pair.
     tryE (contradicted_by l rs) (\<lambda>pairs. Inr (pair @ pairs)))"

fun contradicted_pairs :: "memory_record list \<Rightarrow> uuid set list res" where
  "contradicted_pairs [] = Inr []"
| "contradicted_pairs (l # rs) =
     tryE (contradicted_by l rs) (\<lambda>pairs.
     tryE (contradicted_pairs rs) (\<lambda>more. Inr (pairs @ more)))"

definition validate_context ::
  "normalized_candidate \<Rightarrow> memory_record list \<Rightarrow> memory_conflict list \<Rightarrow> unit res" where
  "validate_context n ms cs =
     tryE (collect_active (nc_identity n) [] ms) (\<lambda>active.
     tryE (collect_pairs (nc_identity n) active [] [] cs) (\<lambda>actual.
     tryE (contradicted_pairs active) (\<lambda>expected.
     raise_if (set actual \<noteq> set expected) policy_invariant (Inr ()))))"

text \<open>
  The loop over the revisions: the identifiers so far, the previous record, and whether the target was
  found and is the record of the history.
\<close>

fun check_revisions ::
  "identity \<Rightarrow> memory_record \<Rightarrow> uuid list \<Rightarrow> memory_record option \<Rightarrow> bool \<times> bool \<Rightarrow>
   memory_record list \<Rightarrow> (bool \<times> bool) res" where
  "check_revisions i target ids previous found [] = Inr found"
| "check_revisions i target ids previous found (r # rs) =
     raise_if (mr_memory_id r \<in> set ids) policy_invariant
    (raise_if (mr_supersedes r \<noteq> map_option mr_memory_id previous) policy_invariant
    (tryE (identity_for_record r) (\<lambda>j.
     raise_if (j \<noteq> i) policy_invariant
    (check_revisions i target (mr_memory_id r # ids) (Some r)
      (if mr_memory_id r = mr_memory_id target then (True, memory_record_eq r target) else found) rs))))"

definition validate_history :: "memory_record \<Rightarrow> memory_record list \<Rightarrow> unit res" where
  "validate_history target history =
     tryE (identity_for_record target) (\<lambda>i.
     tryE (check_revisions i target [] None (False, False) history) (\<lambda>(found, matches).
     raise_if (\<not> found \<or> \<not> matches) policy_invariant
    (raise_if (list_ex (\<lambda>r. mr_status r \<noteq> Superseded) (butlast history)) policy_invariant
    (raise_if (mr_status (last history) = Superseded) policy_invariant (Inr ())))))"

definition validate_correction_context ::
  "normalized_candidate \<Rightarrow> memory_record option \<Rightarrow> bool \<Rightarrow> memory_record list \<Rightarrow> unit res" where
  "validate_correction_context n target missing history =
     (case cd_target (nc_candidate n) of
        None \<Rightarrow>
          raise_if (target \<noteq> None \<or> missing) policy_invariant
         (raise_if (history \<noteq> []) policy_invariant (Inr ()))
      | Some i \<Rightarrow>
          if missing then
            raise_if (target \<noteq> None) policy_invariant
           (raise_if (history \<noteq> []) policy_invariant (Inr ()))
          else
            (case target of
               None \<Rightarrow> Inl policy_invariant
             | Some t \<Rightarrow>
                 raise_if (i \<noteq> mr_memory_id t) policy_invariant
                (if mr_status t = Active then raise_if (history \<noteq> []) policy_invariant (Inr ())
                 else raise_if (history = []) policy_invariant (validate_history t history))))"

section \<open>The decision\<close>

definition explanatory_metadata :: "normalized_candidate \<Rightarrow> nat \<Rightarrow> nat \<Rightarrow> nat \<Rightarrow> (pykey \<times> pyval) list" where
  "explanatory_metadata n active exact variants =
     (let c = nc_candidate n in
      [(KStr ''active_memory_count'', PInt (int active)),
       (KStr ''correction_requested'', PBool (cd_target c \<noteq> None)),
       (KStr ''exact_duplicate_count'', PInt (int exact)),
       (KStr ''identity_was_normalized'', PBool (cd_subject c \<noteq> ni_subject (nc_identity n) \<or>
          cd_predicate c \<noteq> ni_predicate (nc_identity n))),
       (KStr ''policy_version'', PInt validation_policy_version),
       (KStr ''storage_identity_variant_count'', PInt (int variants))])"

definition policy_decision ::
  "normalized_candidate \<Rightarrow> validation_type \<Rightarrow> validation_reason \<Rightarrow> uuid list \<Rightarrow> uuid list \<Rightarrow> bool \<Rightarrow>
   nat \<Rightarrow> nat \<Rightarrow> nat \<Rightarrow> validation_decision res" where
  "policy_decision n t reason ids conflict_ids permitted active exact variants =
     check_validation_decision
       \<lparr>vd_type = t, vd_reason = reason, vd_identity = nc_identity n, vd_candidate = nc_candidate n,
        vd_memory_ids = ids, vd_conflict_ids = conflict_ids, vd_permitted = permitted,
        vd_metadata = explanatory_metadata n active exact variants\<rparr>"

fun exact_memories :: "string \<Rightarrow> memory_record list \<Rightarrow> memory_record list res" where
  "exact_memories t [] = Inr []"
| "exact_memories t (r # rs) =
     tryE (canonicalize_json (mr_value r)) (\<lambda>v.
     tryE (exact_memories t rs) (\<lambda>es. Inr (if v = t then r # es else es)))"

definition stored_variant :: "identity \<Rightarrow> memory_record \<Rightarrow> bool" where
  "stored_variant i r = ((mr_subject r, mr_predicate r) \<noteq> (ni_subject i, ni_predicate i))"

definition variant_count :: "identity \<Rightarrow> memory_record list \<Rightarrow> nat" where
  "variant_count i ms = length (filter (stored_variant i) ms)"

text \<open>The last revision holds the corrected value: \<open>tip_matches\<close>.\<close>

definition tip_matches :: "normalized_candidate \<Rightarrow> memory_record \<Rightarrow> bool res" where
  "tip_matches n tip =
     (if mr_status tip \<noteq> Active then Inr False
      else tryE (identity_for_record tip) (\<lambda>i.
        if i \<noteq> nc_identity n then Inr False
        else tryE (canonicalize_json (mr_value tip)) (\<lambda>t. Inr (t = nc_value n))))"

definition evaluate_correction ::
  "normalized_candidate \<Rightarrow> memory_record list \<Rightarrow> memory_record list \<Rightarrow> memory_conflict list \<Rightarrow>
   memory_record option \<Rightarrow> bool \<Rightarrow> memory_record list \<Rightarrow> nat \<Rightarrow> validation_decision res" where
  "evaluate_correction n ms exact cs target missing history variants =
     (let active_ids = map mr_memory_id ms;
          conflict_ids = sorted_uuids (map mc_conflict_id cs);
          active = length ms in
      if missing then
        policy_decision n RejectCandidate CorrectionTargetNotFound (sorted_uuids active_ids) conflict_ids
          False active (length exact) variants
      else (case target of None \<Rightarrow> Inl policy_invariant | Some t \<Rightarrow>
        let ids = sorted_uuids (active_ids @ [mr_memory_id t]) in
        tryE (candidate_provenance (nc_candidate n)) (\<lambda>prov.
        if pv_type prov \<notin> set correction_authorities then
          policy_decision n RejectCandidate CorrectionAuthorityForbidden ids conflict_ids
            False active (length exact) variants
        else tryE (identity_for_record t) (\<lambda>i.
        if i \<noteq> nc_identity n then
          policy_decision n RejectCandidate CorrectionIdentityMismatch ids conflict_ids
            False active (length exact) variants
        else if mr_status t \<noteq> Active then
          tryE (if history \<noteq> [] then tip_matches n (last history) else Inr False) (\<lambda>applied.
          if applied then
            policy_decision n ExactDuplicate CorrectionAlreadyApplied
              (sorted_uuids (active_ids @ [mr_memory_id t, mr_memory_id (last history)])) conflict_ids
              False active (max 1 (length exact)) variants
          else
            policy_decision n RejectCandidate CorrectionTargetNotActive ids conflict_ids
              False active (length exact) variants)
        else
          raise_if (mr_memory_id t \<notin> set active_ids) policy_invariant
         (if variants \<noteq> 0 then
            policy_decision n ConflictReview CanonicalIdentityVariantRequiresReview ids conflict_ids
              False active (length exact) variants
          else tryE (canonicalize_json (mr_value t)) (\<lambda>v.
            if v = nc_value n then
              policy_decision n ExactDuplicate
                (if conflict_ids \<noteq> [] then ExactValueActiveWithConflicts else ExactValueAlreadyActive)
                ids conflict_ids False active (max 1 (length exact)) 0
            else
              policy_decision n ApplyCorrection ExplicitCorrectionAllowed ids conflict_ids
                True active (length exact) 0))))))"

definition policy_evaluate ::
  "normalized_candidate \<Rightarrow> memory_record list \<Rightarrow> memory_conflict list \<Rightarrow> memory_record option \<Rightarrow> bool \<Rightarrow>
   memory_record list \<Rightarrow> validation_decision res" where
  "policy_evaluate n ms cs target missing history =
     tryE (validate_context n ms cs) (\<lambda>_.
     tryE (validate_correction_context n target missing history) (\<lambda>_.
     tryE (exact_memories (nc_value n) ms) (\<lambda>exact.
     let variants = variant_count (nc_identity n) ms;
         conflict_ids = sorted_uuids (map mc_conflict_id cs) in
     if cd_target (nc_candidate n) \<noteq> None then
       evaluate_correction n ms exact cs target missing history variants
     else
       let ids = sorted_uuids (map mr_memory_id ms) in
       if exact \<noteq> [] then
         policy_decision n ExactDuplicate
           (if conflict_ids \<noteq> [] then ExactValueActiveWithConflicts else ExactValueAlreadyActive)
           ids conflict_ids False (length ms) (length exact) variants
       else if ms \<noteq> [] then
         policy_decision n ConflictReview
           (if variants \<noteq> 0 then CanonicalIdentityVariantRequiresReview else DifferentActiveValue)
           ids conflict_ids (variants = 0) (length ms) 0 variants
       else policy_decision n AcceptNew NoActiveMemory [] [] True 0 0 0)))"

section \<open>Coherent contexts\<close>

text \<open>
  What the reads of a store give for an identity: its active memories, and exactly the conflicts between
  those that contradict each other.
\<close>

definition identified :: "identity \<Rightarrow> memory_record \<Rightarrow> bool" where
  "identified i r \<longleftrightarrow> stored_ok r \<and> mr_status r = Active \<and> identity_for_record r = Inr i"

definition coherent_context :: "identity \<Rightarrow> memory_record list \<Rightarrow> memory_conflict list \<Rightarrow> bool" where
  "coherent_context i ms cs \<longleftrightarrow>
     list_all (identified i) ms \<and> distinct (map mr_memory_id ms) \<and>
     list_all (open_conflict ms) cs \<and>
     distinct (map mc_conflict_id cs) \<and> distinct (map pair_of cs) \<and>
     pair_of ` set cs = contradictions ms"

lemma stored_canonicalize: "stored_ok r \<Longrightarrow> canonicalize_json (mr_value r) = Inr (text_of r)"
  by (simp add: canonicalize_json_eq stored_ok_def memory_record_ok_def printable_record_def del: canon.simps)

lemma stored_equal: "stored_ok r \<Longrightarrow> memory_record_eq r r"
proof -
  assume ok: "stored_ok r"
  have "number_data (mr_confidence r)"
    using ok by (cases "mr_confidence r" rule: confidence_value.cases)
      (auto simp: stored_ok_def memory_record_ok_def)
  moreover have "number_data (mr_value r)" "number_data (PDict (pv_details (mr_provenance r)))"
    "number_data (PDict (mr_metadata r))"
    using ok memory_json_number by (auto simp: stored_ok_def memory_record_ok_def provenance_ok_def
        simp del: number_data.simps memory_json_ok.simps)
  ultimately show ?thesis by (simp add: memory_record_eq_def py_equal_refl del: number_data.simps)
qed

lemma collect_active_total:
  "list_all (identified i) ms \<Longrightarrow> distinct (map mr_memory_id (active @ ms)) \<Longrightarrow>
   collect_active i active ms = Inr (active @ ms)"
  by (induction i active ms rule: collect_active.induct) (auto simp: identified_def)

lemma snapshot_matches_total:
  assumes "distinct (map mr_memory_id ms)" "r \<in> set ms" "stored_ok r"
  shows "snapshot_matches ms r = Inr True"
proof -
  have "find (\<lambda>a. mr_memory_id a = mr_memory_id r) ms = Some r"
    using assms(1,2) by (induction ms) auto
  then show ?thesis by (simp add: snapshot_matches_def stored_equal [OF assms(3)])
qed

lemma policy_conflict_total:
  assumes ms: "list_all (identified i) ms" "distinct (map mr_memory_id ms)" and c: "open_conflict ms c"
    and new: "mc_conflict_id c \<notin> set ids" "pair_of c \<notin> set pairs"
  shows "check_policy_conflict i ms ids pairs c = Inr ()"
proof -
  have lr: "mc_left c \<in> set ms" "mc_right c \<in> set ms" "text_of (mc_left c) \<noteq> text_of (mc_right c)"
    "mc_resolved_at c = None" using c by (auto simp: open_conflict_def)
  then have i: "identified i (mc_left c)" "identified i (mc_right c)" using ms(1) by (auto simp: list_all_iff)
  then have ok: "stored_ok (mc_left c)" "stored_ok (mc_right c)" by (simp_all add: identified_def)
  have "pair_of c \<subseteq> mr_memory_id ` set ms" using lr(1,2) by (simp add: pair_of_def)
  then show ?thesis
    using i lr(3,4) new snapshot_matches_total [OF ms(2)] lr(1,2) ok
    by (simp add: check_policy_conflict_def identified_def stored_canonicalize del: canon.simps)
qed

lemma collect_pairs_total:
  assumes ms: "list_all (identified i) ms" "distinct (map mr_memory_id ms)"
    and "list_all (open_conflict ms) cs" "distinct (map mc_conflict_id cs)" "distinct (map pair_of cs)"
    and "set ids \<inter> mc_conflict_id ` set cs = {}" "set pairs \<inter> pair_of ` set cs = {}"
  shows "\<exists>ps. collect_pairs i ms ids pairs cs = Inr ps \<and> set ps = set pairs \<union> pair_of ` set cs"
  using assms(3-)
proof (induction cs arbitrary: ids pairs)
  case (Cons c cs)
  then have "check_policy_conflict i ms ids pairs c = Inr ()"
    by (intro policy_conflict_total [OF ms]) auto
  moreover have "\<exists>ps. collect_pairs i ms (mc_conflict_id c # ids) (pair_of c # pairs) cs = Inr ps \<and>
      set ps = set (pair_of c # pairs) \<union> pair_of ` set cs"
    using Cons.prems by (intro Cons.IH) auto
  ultimately show ?case by auto
qed simp

lemma contradicted_by_total:
  assumes "list_all (\<lambda>r. stored_ok r \<and> mr_status r = Active) (l # rs)"
  shows "\<exists>ps. contradicted_by l rs = Inr ps \<and>
    set ps = (\<lambda>r. {mr_memory_id l, mr_memory_id r}) ` {r \<in> set rs. contradict l r}"
  using assms
proof (induction rs)
  case (Cons r rs)
  then obtain ps where ps: "contradicted_by l rs = Inr ps"
    "set ps = (\<lambda>r. {mr_memory_id l, mr_memory_id r}) ` {r \<in> set rs. contradict l r}" by auto
  have "{x. (x = r \<or> x \<in> set rs) \<and> contradict l x} =
      (if contradict l r then insert r {x \<in> set rs. contradict l x} else {x \<in> set rs. contradict l x})" by auto
  then show ?case
    using Cons.prems ps by (auto simp: stored_canonicalize contradict_def simp del: canon.simps)
qed simp

lemma contradicted_pairs_total:
  assumes "list_all (\<lambda>r. stored_ok r \<and> mr_status r = Active) rs"
  shows "\<exists>ps. contradicted_pairs rs = Inr ps \<and> set ps = contradictions rs"
  using assms
proof (induction rs)
  case Nil
  then show ?case by (simp add: contradictions_def)
next
  case (Cons l rs)
  then show ?case using contradicted_by_total [OF Cons.prems] by (auto simp: contradictions_Cons)
qed

lemma validate_context_total:
  assumes "coherent_context (nc_identity n) ms cs"
  shows "validate_context n ms cs = Inr ()"
proof -
  let ?i = "nc_identity n"
  note c = assms [unfolded coherent_context_def]
  have "collect_active ?i [] ms = Inr ms" using c collect_active_total [of ?i ms "[]"] by simp
  moreover obtain ps where "collect_pairs ?i ms [] [] cs = Inr ps" "set ps = contradictions ms"
    using c collect_pairs_total [of ?i ms cs "[]" "[]"] by auto
  moreover have "list_all (\<lambda>r. stored_ok r \<and> mr_status r = Active) ms"
    using c by (auto simp: list_all_iff identified_def)
  then obtain es where "contradicted_pairs ms = Inr es" "set es = contradictions ms"
    using contradicted_pairs_total by blast
  ultimately show ?thesis by (simp add: validate_context_def)
qed

section \<open>Chains of revisions\<close>

text \<open>The history of a target that is not active, as \<open>get_revision_history\<close> returns it.\<close>

definition coherent_history :: "memory_record \<Rightarrow> memory_record list \<Rightarrow> bool" where
  "coherent_history t h \<longleftrightarrow>
     revision_chain h \<and> t \<in> set h \<and> list_all stored_ok h \<and> distinct (map mr_memory_id h) \<and>
     list_all (\<lambda>r. memory_key r = memory_key t) h \<and>
     list_all (\<lambda>r. mr_status r = Superseded) (butlast h)"

lemma check_revisions_total:
  assumes "list_all (\<lambda>r. identity_for_record r = Inr i) rs" "distinct (map mr_memory_id rs)"
    and "set ids \<inter> mr_memory_id ` set rs = {}" "successively revises rs"
    and "rs \<noteq> [] \<Longrightarrow> mr_supersedes (hd rs) = map_option mr_memory_id prev"
    and "\<forall>r \<in> set rs. mr_memory_id r = mr_memory_id t \<longrightarrow> memory_record_eq r t"
  shows "check_revisions i t ids prev found rs =
    Inr (if mr_memory_id t \<in> mr_memory_id ` set rs then (True, True) else found)"
  using assms
proof (induction rs arbitrary: ids prev found)
  case (Cons r rs)
  have "rs \<noteq> [] \<Longrightarrow> mr_supersedes (hd rs) = map_option mr_memory_id (Some r)"
    using Cons.prems(4) by (cases rs) (auto simp: revises_def)
  moreover have "successively revises rs" using Cons.prems(4) by (cases rs) auto
  ultimately have "check_revisions i t (mr_memory_id r # ids) (Some r) f rs =
      Inr (if mr_memory_id t \<in> mr_memory_id ` set rs then (True, True) else f)" for f
    using Cons.prems by (intro Cons.IH) auto
  then show ?case using Cons.prems by auto
qed simp

lemma validate_history_total:
  assumes h: "coherent_history t h" and t: "identity_for_record t = Inr i"
  shows "validate_history t h = Inr ()"
proof -
  have c: "distinct (map mr_memory_id h)" "successively revises h" "mr_supersedes (hd h) = None" "h \<noteq> []"
    "t \<in> set h" "list_all stored_ok h" "list_all (\<lambda>r. mr_status r = Superseded) (butlast h)"
    "mr_status (last h) \<noteq> Superseded" and keys: "list_all (\<lambda>r. memory_key r = memory_key t) h"
    using h unfolding coherent_history_def revision_chain_def by blast+
  have same: "memory_record_eq r t" if r: "r \<in> set h" "mr_memory_id r = mr_memory_id t" for r
  proof -
    have "r = t" using c(1,5) r by (auto simp: distinct_map inj_on_def)
    then show ?thesis using c(5,6) stored_equal by (auto simp: list_all_iff)
  qed
  have "identity_for_record r = Inr i" if "r \<in> set h" for r
    using keys that t by (auto simp: list_all_iff memory_key_def identity_for_record_def)
  then have "list_all (\<lambda>r. identity_for_record r = Inr i) h" by (simp add: list_all_iff)
  moreover have "mr_memory_id t \<in> mr_memory_id ` set h" using c(5) by (rule imageI)
  ultimately have "check_revisions i t [] None (False, False) h = Inr (True, True)"
    using check_revisions_total [of i h "[]" None t "(False, False)"] c same by simp
  moreover have "\<not> list_ex (\<lambda>r. mr_status r \<noteq> Superseded) (butlast h)"
    using c(7) by (simp add: list_ex_iff list_all_iff)
  ultimately show ?thesis using c(8) t by (simp add: validate_history_def)
qed

section \<open>The constructor of decisions\<close>

lemma candidate_provenance_Inr:
  assumes "candidate_ok c"
  shows "\<exists>p. candidate_provenance c = Inr p \<and> pv_type p = cd_provenance_type c \<and> provenance_ok p \<and>
    represented (PDict (pv_details p))"
proof -
  obtain m where m: "text_of_dict (cd_details_json c) m" and src: "exact_text_ok (cd_source_id c)"
    using assms by (auto simp: candidate_ok_def)
  have "loaded (cd_details_json c) = Inr (PDict m)"
    using m loaded_canon [of "PDict m"] unfolding text_of_dict_def by metis
  moreover have "memory_json_ok (PDict m)" "represented (PDict m)"
    using m printable_json printable_represented unfolding text_of_dict_def by blast+
  ultimately show ?thesis
    using src by (auto simp: candidate_provenance_def loaded_mapping_def provenance_ok_def
        simp del: memory_json_ok.simps represented.simps)
qed

lemma decision_keys: "sort decision_metadata_keys = decision_metadata_keys" "distinct decision_metadata_keys"
  by code_simp+

lemma explanatory_keys: "map (key_str \<circ> fst) (explanatory_metadata n a e v) = decision_metadata_keys"
  "fst ` set (explanatory_metadata n a e v) = KStr ` set decision_metadata_keys"
  by (simp_all add: explanatory_metadata_def decision_metadata_keys_def Let_def)

lemma explanatory_pairs: "check_metadata_pairs (explanatory_metadata n a e v) = Inr ()"
proof -
  have "for_each (\<lambda>(k, v). raise_if (k = KOther \<or> k = KStr []) policy_invariant
      (raise_if (\<not> metadata_scalar v) policy_invariant
      (raise_if (v = PFloat NonFinite) policy_invariant (Inr ())))) (explanatory_metadata n a e v) = Inr ()"
    by (simp add: explanatory_metadata_def Let_def)
  then show ?thesis
    by (simp only: check_metadata_pairs_def explanatory_keys decision_keys tryE_simps Let_def
        distinct_remdups_id simp_thms raise_if_simps)
qed

lemma explanatory_lookup:
  "metadata_count (explanatory_metadata n a e v) ''active_memory_count'' = int a"
  "metadata_count (explanatory_metadata n a e v) ''exact_duplicate_count'' = int e"
  "metadata_count (explanatory_metadata n a e v) ''storage_identity_variant_count'' = int v"
  "map_of (explanatory_metadata n a e v) (KStr ''policy_version'') = Some (PInt validation_policy_version)"
  "map_of (explanatory_metadata n a e v) (KStr ''correction_requested'') =
     Some (PBool (cd_target (nc_candidate n) \<noteq> None))"
  "map_of (explanatory_metadata n a e v) (KStr ''identity_was_normalized'') =
     Some (PBool (cd_subject (nc_candidate n) \<noteq> ni_subject (nc_identity n) \<or>
          cd_predicate (nc_candidate n) \<noteq> ni_predicate (nc_identity n)))"
  by (simp_all add: explanatory_metadata_def metadata_count_def Let_def)

definition permits :: "validation_type \<Rightarrow> validation_reason \<Rightarrow> bool" where
  "permits t reason \<longleftrightarrow> t \<in> {AcceptNew, ApplyCorrection} \<or> reason = DifferentActiveValue"

text \<open>What the constructor demands of the parts of a decision besides their form.\<close>

definition decision_fits ::
  "candidate \<Rightarrow> validation_type \<Rightarrow> validation_reason \<Rightarrow> uuid set \<Rightarrow> uuid set \<Rightarrow> nat \<Rightarrow> nat \<Rightarrow> nat \<Rightarrow> bool"
where
  "decision_fits c t reason ids conflicts active exact variants \<longleftrightarrow>
     reason \<in> set (reasons_of t) \<and> exact \<le> active \<and> variants \<le> active \<and>
     (t = AcceptNew \<longrightarrow> cd_target c = None \<and> ids = {} \<and> conflicts = {} \<and> active = 0) \<and>
     (t = ExactDuplicate \<longrightarrow> ids \<noteq> {} \<and> exact \<noteq> 0) \<and>
     (t = ConflictReview \<longrightarrow> ids \<noteq> {} \<and> active \<noteq> 0 \<and>
        (cd_target c \<noteq> None \<longrightarrow> reason = CanonicalIdentityVariantRequiresReview)) \<and>
     (t = ApplyCorrection \<longrightarrow> active \<noteq> 0 \<and> cd_provenance_type c \<in> set correction_authorities) \<and>
     (t \<in> {ApplyCorrection, RejectCandidate} \<or> reason = CorrectionAlreadyApplied \<longrightarrow> cd_target c \<noteq> None) \<and>
     (reason \<noteq> CorrectionTargetNotFound \<longrightarrow> set_option (cd_target c) \<subseteq> ids) \<and>
     (conflicts \<noteq> {} \<longrightarrow> 2 \<le> active \<and> 2 \<le> card ids) \<and>
     (reason = ExactValueActiveWithConflicts \<longrightarrow> conflicts \<noteq> {})"

lemma sorted_uuids_idem: "sorted_uuids (sorted_uuids us) = sorted_uuids us"
  by (simp add: sorted_uuids_id)

lemma sorted_uuids_empty: "sorted_uuids us = [] \<longleftrightarrow> us = []" "[] = sorted_uuids us \<longleftrightarrow> us = []"
  by (metis set_empty sorted_uuids_props(1))+

lemma length_sorted_uuids: "length (sorted_uuids us) = card (set us)"
  by (metis distinct_card sorted_uuids_props(1,3))

lemma policy_decision_Inr:
  assumes c: "candidate_ok (nc_candidate n)" "candidate_identity (nc_candidate n) = Inr (nc_identity n)"
    and fits: "decision_fits (nc_candidate n) t reason (set us) (set vs) active exact variants"
    and perm: "permitted = permits t reason"
  shows "policy_decision n t reason (sorted_uuids us) (sorted_uuids vs) permitted active exact variants =
    Inr \<lparr>vd_type = t, vd_reason = reason, vd_identity = nc_identity n, vd_candidate = nc_candidate n,
      vd_memory_ids = sorted_uuids us, vd_conflict_ids = sorted_uuids vs, vd_permitted = permitted,
      vd_metadata = explanatory_metadata n active exact variants\<rparr>" (is "_ = Inr ?d")
proof -
  note f = fits [unfolded decision_fits_def]
  obtain prov where prov: "candidate_provenance (nc_candidate n) = Inr prov"
    "pv_type prov = cd_provenance_type (nc_candidate n)"
    using candidate_provenance_Inr [OF c(1)] by blast
  have "check_permission ?d = Inr ()"
    using f unfolding check_permission_def perm permits_def by (cases t) auto
  moreover have "validate_decision_shape ?d = Inr ()"
    using f prov unfolding validate_decision_shape_def Let_def correction_only_reasons_def
    by (cases t; cases "cd_target (nc_candidate n)") (auto simp: sorted_uuids_empty)
  moreover have "validate_explanatory_metadata ?d = Inr ()"
    using f unfolding validate_explanatory_metadata_def Let_def
    by (cases t) (auto simp: explanatory_lookup explanatory_keys sorted_uuids_empty length_sorted_uuids)
  moreover have "check_metadata_pairs (vd_metadata ?d) = Inr ()" by (simp add: explanatory_pairs)
  ultimately show ?thesis
    using c(2) f by (simp add: policy_decision_def check_validation_decision_def validate_uuid_tuple_def
        sorted_uuids_idem)
qed

section \<open>The table of decisions\<close>

definition contested :: "memory_record list \<Rightarrow> bool" where
  "contested ms = list_ex (\<lambda>a. list_ex (contradict a) ms) ms"

definition same_value :: "candidate \<Rightarrow> memory_record \<Rightarrow> bool" where
  "same_value c r \<longleftrightarrow> text_of r = cd_value_json c"

text \<open>
  The decision on a candidate with identity \<open>i\<close>: \<open>ms\<close> are the active memories of the identity, \<open>target\<close> the
  memory to correct if it exists, and \<open>tip\<close> its last revision if it is not active.
\<close>

definition policy_verdict ::
  "candidate \<Rightarrow> identity \<Rightarrow> memory_record list \<Rightarrow> memory_record option \<Rightarrow> memory_record option \<Rightarrow>
   validation_type \<times> validation_reason" where
  "policy_verdict c i ms target tip =
     (let duplicate = (ExactDuplicate,
            if contested ms then ExactValueActiveWithConflicts else ExactValueAlreadyActive);
          review = (ConflictReview, CanonicalIdentityVariantRequiresReview) in
      case cd_target c of
        None \<Rightarrow>
          if list_ex (same_value c) ms then duplicate
          else if ms = [] then (AcceptNew, NoActiveMemory)
          else if list_ex (stored_variant i) ms then review
          else (ConflictReview, DifferentActiveValue)
      | Some _ \<Rightarrow>
          (case target of
             None \<Rightarrow> (RejectCandidate, CorrectionTargetNotFound)
           | Some t \<Rightarrow>
               if cd_provenance_type c \<notin> set correction_authorities then
                 (RejectCandidate, CorrectionAuthorityForbidden)
               else if identity_for_record t \<noteq> Inr i then (RejectCandidate, CorrectionIdentityMismatch)
               else if mr_status t \<noteq> Active then
                 (if list_ex (\<lambda>r. mr_status r = Active \<and> same_value c r)
                       (case tip of None \<Rightarrow> [] | Some r \<Rightarrow> [r])
                  then (ExactDuplicate, CorrectionAlreadyApplied)
                  else (RejectCandidate, CorrectionTargetNotActive))
               else if list_ex (stored_variant i) ms then review
               else if same_value c t then duplicate
               else (ApplyCorrection, ExplicitCorrectionAllowed)))"

text \<open>What the reads of a store give for the target of a correction.\<close>

definition coherent_target ::
  "candidate \<Rightarrow> identity \<Rightarrow> memory_record list \<Rightarrow> memory_record option \<Rightarrow> memory_record list \<Rightarrow> bool" where
  "coherent_target c i ms target history \<longleftrightarrow>
     (case target of
        None \<Rightarrow> history = []
      | Some t \<Rightarrow>
          cd_target c = Some (mr_memory_id t) \<and> stored_ok t \<and>
          (if mr_status t = Active then history = [] \<and> (identity_for_record t = Inr i \<longrightarrow> t \<in> set ms)
           else coherent_history t history \<and>
             (mr_status (last history) = Active \<and> identity_for_record t = Inr i \<longrightarrow>
                last history \<in> set ms)))"

definition tip_of :: "memory_record list \<Rightarrow> memory_record option" where
  "tip_of history = (if history = [] then None else Some (last history))"

definition decided ::
  "candidate \<Rightarrow> identity \<Rightarrow> memory_record list \<Rightarrow> memory_conflict list \<Rightarrow> memory_record option \<Rightarrow>
   memory_record option \<Rightarrow> validation_decision \<Rightarrow> bool" where
  "decided c i ms cs target tip d \<longleftrightarrow>
     (vd_type d, vd_reason d) = policy_verdict c i ms target tip \<and>
     vd_identity d = i \<and> vd_candidate d = c \<and> vd_permitted d = permits (vd_type d) (vd_reason d) \<and>
     set (vd_memory_ids d) = mr_memory_id ` (set ms \<union> set_option target \<union>
       (if vd_reason d = CorrectionAlreadyApplied then set_option tip else {})) \<and>
     set (vd_conflict_ids d) = mc_conflict_id ` set cs"

lemma exact_memories_total:
  "list_all (identified i) ms \<Longrightarrow> exact_memories t ms = Inr (filter (\<lambda>r. text_of r = t) ms)"
  by (induction ms) (simp_all add: identified_def stored_canonicalize del: canon.simps)

lemma contested_pairs: "contested ms \<longleftrightarrow> contradictions ms \<noteq> {}"
  by (auto simp: contested_def contradictions_def list_ex_iff)

lemma contested_two:
  assumes "contested ms" "distinct (map mr_memory_id ms)"
  shows "2 \<le> length ms" "mr_memory_id ` set ms \<subseteq> S \<Longrightarrow> finite S \<Longrightarrow> 2 \<le> card S"
proof -
  obtain a b where ab: "a \<in> set ms" "b \<in> set ms" "contradict a b"
    using assms(1) by (auto simp: contested_def list_ex_iff)
  then have "a \<noteq> b" by (auto simp: contradict_def)
  then have "mr_memory_id a \<noteq> mr_memory_id b" using assms(2) ab by (auto simp: distinct_map inj_on_def)
  then have two: "card {mr_memory_id a, mr_memory_id b} = 2" by simp
  have card: "card (mr_memory_id ` set ms) = length ms"
    using assms(2) by (metis distinct_card length_map list.set_map)
  have "2 \<le> card (mr_memory_id ` set ms)"
    using ab unfolding two [symmetric] by (intro card_mono) auto
  with card show "2 \<le> length ms" by simp
  show "2 \<le> card S" if "mr_memory_id ` set ms \<subseteq> S" "finite S"
    using \<open>2 \<le> card (mr_memory_id ` set ms)\<close> card_mono [OF that(2,1)] by simp
qed

lemma decided_by:
  assumes "candidate_ok c" "candidate_identity c = Inr i"
    and "decision_fits c t reason (set us) (set vs) active exact variants" "permitted = permits t reason"
    and "policy_verdict c i ms target tip = (t, reason)"
    and "set us = mr_memory_id ` (set ms \<union> set_option target \<union>
       (if reason = CorrectionAlreadyApplied then set_option tip else {}))"
    and "set vs = mc_conflict_id ` set cs"
    and "nc_candidate n = c" "nc_identity n = i"
  shows "\<exists>d. policy_decision n t reason (sorted_uuids us) (sorted_uuids vs) permitted active exact variants =
      Inr d \<and> decided c i ms cs target tip d"
  using policy_decision_Inr [of n t reason us vs active exact variants permitted] assms
  by (auto simp: decided_def)

text \<open>The part of the table without a correction.\<close>

lemma policy_table_evidence:
  assumes c: "candidate_ok c" "candidate_identity c = Inr i" "cd_target c = None"
    and ctx: "coherent_context i ms cs"
  shows "\<exists>d. policy_evaluate \<lparr>nc_candidate = c, nc_identity = i, nc_value = cd_value_json c\<rparr> ms cs None False [] =
      Inr d \<and> decided c i ms cs None None d"
proof -
  define n where "n = \<lparr>nc_candidate = c, nc_identity = i, nc_value = cd_value_json c\<rparr>"
  have n: "nc_candidate n = c" "nc_identity n = i" "nc_value n = cd_value_json c" by (simp_all add: n_def)
  note k = ctx [unfolded coherent_context_def]
  let ?us = "map mr_memory_id ms" and ?vs = "map mc_conflict_id cs"
  have con: "cs \<noteq> [] \<longleftrightarrow> contested ms" using k by (auto simp: contested_pairs)
  have two: "cs \<noteq> [] \<Longrightarrow> 2 \<le> length ms \<and> 2 \<le> card (mr_memory_id ` set ms)"
    using con k contested_two(1) [of ms] contested_two(2) [of ms "mr_memory_id ` set ms"] by simp
  have var: "variant_count i ms \<le> length ms" "variant_count i ms \<noteq> 0 \<longleftrightarrow> list_ex (stored_variant i) ms"
    by (auto simp: variant_count_def list_ex_iff filter_empty_conv)
  define e where "e = filter (\<lambda>r. text_of r = cd_value_json c) ms"
  have e: "length e \<le> length ms" "e \<noteq> [] \<longleftrightarrow> list_ex (same_value c) ms"
    by (auto simp: e_def list_ex_iff filter_empty_conv same_value_def)
  have reduce: "policy_evaluate n ms cs None False [] =
     (if e \<noteq> [] then policy_decision n ExactDuplicate
           (if cs \<noteq> [] then ExactValueActiveWithConflicts else ExactValueAlreadyActive)
           (sorted_uuids ?us) (sorted_uuids ?vs) False (length ms) (length e) (variant_count i ms)
       else if ms \<noteq> [] then
         policy_decision n ConflictReview
           (if variant_count i ms \<noteq> 0 then CanonicalIdentityVariantRequiresReview else DifferentActiveValue)
           (sorted_uuids ?us) (sorted_uuids ?vs) (variant_count i ms = 0) (length ms) 0 (variant_count i ms)
       else policy_decision n AcceptNew NoActiveMemory (sorted_uuids []) (sorted_uuids []) True 0 0 0)"
    using k c(3) validate_context_total [of n ms cs] ctx exact_memories_total [of i ms "cd_value_json c"]
    by (simp add: policy_evaluate_def n validate_correction_context_def sorted_uuids_empty
        flip: e_def) (simp add: sorted_uuids_def)
  have "\<exists>d. policy_evaluate n ms cs None False [] = Inr d \<and> decided c i ms cs None None d"
    unfolding reduce
    using e var two con c(3) k
    by (auto simp: decision_fits_def permits_def policy_verdict_def Let_def n
        intro!: decided_by c(1,2))
  then show ?thesis by (simp only: n_def)
qed

text \<open>The part of the table for corrections.\<close>

lemma stored_identity: "stored_ok r \<Longrightarrow> \<exists>j. identity_for_record r = Inr j"
  by (simp add: stored_ok_def memory_record_ok_def identity_for_record_def normalized_identity_eq
      exact_text_normal)

lemma correction_context_total:
  assumes t: "coherent_target c i ms target history" and c: "cd_target c = Some j" "nc_candidate n = c"
  shows "validate_correction_context n target (target = None) history = Inr ()"
proof (cases target)
  case None
  then show ?thesis using t c by (simp add: validate_correction_context_def coherent_target_def)
next
  case (Some r)
  note r = t [unfolded coherent_target_def Some option.case]
  obtain k where "identity_for_record r = Inr k" using r stored_identity by blast
  then have "validate_history r history = Inr ()" if "mr_status r \<noteq> Active"
    using r that validate_history_total by simp
  moreover have "history \<noteq> []" if "mr_status r \<noteq> Active"
    using r that by (simp add: coherent_history_def revision_chain_def)
  ultimately show ?thesis using r c Some by (auto simp: validate_correction_context_def)
qed

lemma applied_total:
  assumes h: "coherent_history t h" and i: "identity_for_record t = Inr (nc_identity n)"
  shows "tip_matches n (last h) = Inr (mr_status (last h) = Active \<and> text_of (last h) = nc_value n)"
proof -
  have "last h \<in> set h" using h by (simp add: coherent_history_def revision_chain_def)
  then have tip: "stored_ok (last h)" "memory_key (last h) = memory_key t"
    using h unfolding coherent_history_def list_all_iff by blast+
  then have "identity_for_record (last h) = Inr (nc_identity n)"
    using i by (simp add: memory_key_def identity_for_record_def)
  then show ?thesis using stored_canonicalize [OF tip(1)] by (simp add: tip_matches_def del: canon.simps)
qed

lemma reject_fits:
  "exact \<le> active \<Longrightarrow> variants \<le> active \<Longrightarrow> cd_target c \<noteq> None \<Longrightarrow> reason \<in> set (reasons_of RejectCandidate) \<Longrightarrow>
   reason = CorrectionTargetNotFound \<or> set_option (cd_target c) \<subseteq> ids \<Longrightarrow>
   conflicts \<noteq> {} \<longrightarrow> 2 \<le> active \<and> 2 \<le> card ids \<Longrightarrow>
   decision_fits c RejectCandidate reason ids conflicts active exact variants"
  by (auto simp: decision_fits_def)

lemma policy_table_correction:
  assumes c: "candidate_ok c" "candidate_identity c = Inr i" "cd_target c = Some j"
    and ctx: "coherent_context i ms cs" and tgt: "coherent_target c i ms target history"
  shows "\<exists>d. policy_evaluate \<lparr>nc_candidate = c, nc_identity = i, nc_value = cd_value_json c\<rparr> ms cs target
      (target = None) history = Inr d \<and> decided c i ms cs target (tip_of history) d"
proof -
  define n where "n = \<lparr>nc_candidate = c, nc_identity = i, nc_value = cd_value_json c\<rparr>"
  have n: "nc_candidate n = c" "nc_identity n = i" "nc_value n = cd_value_json c" by (simp_all add: n_def)
  note k = ctx [unfolded coherent_context_def]
  let ?ids = "mr_memory_id ` set ms" and ?vs = "map mc_conflict_id cs"
  have con: "cs \<noteq> [] \<longleftrightarrow> contested ms" using k by (auto simp: contested_pairs)
  have two: "set ?vs \<noteq> {} \<longrightarrow> 2 \<le> length ms \<and> 2 \<le> card (?ids \<union> X)" if "finite X" for X
    using that con k contested_two(1) [of ms] contested_two(2) [of ms "?ids \<union> X"] by auto
  let ?v = "variant_count i ms"
  have var: "?v \<le> length ms" "?v \<noteq> 0 \<longleftrightarrow> list_ex (stored_variant i) ms"
    by (auto simp: variant_count_def list_ex_iff filter_empty_conv)
  define e where "e = filter (\<lambda>r. text_of r = cd_value_json c) ms"
  have e: "length e \<le> length ms" by (simp add: e_def)
  obtain prov where prov: "candidate_provenance c = Inr prov" "pv_type prov = cd_provenance_type c"
    using candidate_provenance_Inr [OF c(1)] by blast
  have reduce: "policy_evaluate n ms cs target (target = None) history =
      evaluate_correction n ms e cs target (target = None) history ?v"
    using k c(3) validate_context_total [of n ms cs] ctx exact_memories_total [of i ms "cd_value_json c"]
      correction_context_total [OF tgt c(3) n(1)]
    by (simp add: policy_evaluate_def n flip: e_def)
  note by_parts = decided_by [where ms = ms and cs = cs and target = target and tip = "tip_of history",
      OF c(1,2) _ refl _ _ _ n(1,2)]
  have "\<exists>d. evaluate_correction n ms e cs target (target = None) history ?v = Inr d \<and>
      decided c i ms cs target (tip_of history) d"
  proof (cases target)
    case None
    have "decision_fits c RejectCandidate CorrectionTargetNotFound (set (map mr_memory_id ms)) (set ?vs)
        (length ms) (length e) ?v"
      using two [of "{}"] c(3) by (intro reject_fits e var) auto
    from by_parts [OF this] show ?thesis
      using None c(3) by (simp add: evaluate_correction_def permits_def policy_verdict_def)
  next
    case (Some t)
    have r: "cd_target c = Some (mr_memory_id t)" "stored_ok t"
      using tgt [unfolded coherent_target_def Some option.case] by blast+
    let ?us = "map mr_memory_id ms @ [mr_memory_id t]"
    have ids: "set ?us = mr_memory_id ` (set ms \<union> {t})" by simp
    have big: "set ?vs \<noteq> {} \<longrightarrow> 2 \<le> length ms \<and> 2 \<le> card (set ?us)" using two [of "{mr_memory_id t}"] by simp
    have rejected: "decision_fits c RejectCandidate reason (set ?us) (set ?vs) (length ms) (length e) ?v"
      if "reason \<in> set (reasons_of RejectCandidate)" for reason
      using that big r(1) by (intro reject_fits e var) auto
    obtain ti where ti: "identity_for_record t = Inr ti" using r(2) stored_identity by blast
    consider (authority) "cd_provenance_type c \<notin> set correction_authorities"
      | (mismatch) "cd_provenance_type c \<in> set correction_authorities" "ti \<noteq> i"
      | (inactive) "cd_provenance_type c \<in> set correction_authorities" "ti = i" "mr_status t \<noteq> Active"
      | (active) "cd_provenance_type c \<in> set correction_authorities" "ti = i" "mr_status t = Active" by blast
    then show ?thesis
    proof cases
      case authority
      from by_parts [OF rejected [of CorrectionAuthorityForbidden]] authority show ?thesis
        using Some prov r(1) n(1)
        by (simp add: evaluate_correction_def permits_def policy_verdict_def Let_def)
    next
      case mismatch
      from by_parts [OF rejected [of CorrectionIdentityMismatch]] mismatch show ?thesis
        using Some prov r(1) n ti
        by (simp add: evaluate_correction_def permits_def policy_verdict_def Let_def)
    next
      case inactive
      have h: "coherent_history t history" "history \<noteq> []" and tip: "mr_status (last history) = Active \<Longrightarrow> last history \<in> set ms"
        using tgt [unfolded coherent_target_def Some option.case] inactive(2,3) ti
        by (auto simp: coherent_history_def revision_chain_def)
      have applied: "tip_matches n (last history) =
          Inr (mr_status (last history) = Active \<and> text_of (last history) = cd_value_json c)"
        using applied_total [OF h(1), of n] ti inactive(2) n by simp
      show ?thesis
      proof (cases "mr_status (last history) = Active \<and> text_of (last history) = cd_value_json c")
        case True
        let ?ws = "map mr_memory_id ms @ [mr_memory_id t, mr_memory_id (last history)]"
        have "ms \<noteq> []" using True tip by auto
        then have "decision_fits c ExactDuplicate CorrectionAlreadyApplied (set ?ws) (set ?vs) (length ms)
            (max 1 (length e)) ?v"
          using two [of "{mr_memory_id t, mr_memory_id (last history)}"] e var(1) r(1)
          by (simp add: decision_fits_def Suc_le_eq)
        from by_parts [OF this] show ?thesis
          using Some prov r(1) n ti inactive applied True h(2)
          by (simp add: evaluate_correction_def permits_def policy_verdict_def Let_def tip_of_def
              same_value_def insert_commute)
      next
        case False
        from by_parts [OF rejected [of CorrectionTargetNotActive]] show ?thesis
          using Some prov r(1) n ti inactive applied False h(2)
          by (simp add: evaluate_correction_def permits_def policy_verdict_def Let_def tip_of_def
              same_value_def)
      qed
    next
      case active
      have t: "t \<in> set ms" using tgt [unfolded coherent_target_def Some option.case] active(2,3) ti by simp
      then have "ms \<noteq> []" by auto
      show ?thesis
      proof (cases "?v = 0")
        case False
        have "decision_fits c ConflictReview CanonicalIdentityVariantRequiresReview (set ?us) (set ?vs)
            (length ms) (length e) ?v"
          using big e var(1) r(1) \<open>ms \<noteq> []\<close> by (simp add: decision_fits_def)
        from by_parts [OF this] show ?thesis
          using Some prov r(1) n ti active False var(2) t
          by (simp add: evaluate_correction_def permits_def policy_verdict_def Let_def)
      next
        case novar: True
        have printed: "canonicalize_json (mr_value t) = Inr (text_of t)" using r(2) by (rule stored_canonicalize)
        show ?thesis
        proof (cases "text_of t = cd_value_json c")
          case True
          have "decision_fits c ExactDuplicate
              (if cs \<noteq> [] then ExactValueActiveWithConflicts else ExactValueAlreadyActive) (set ?us) (set ?vs)
              (length ms) (max 1 (length e)) 0"
            using big e r(1) \<open>ms \<noteq> []\<close> by (simp add: decision_fits_def Suc_le_eq)
          from by_parts [OF this] show ?thesis
            using Some prov r(1) n ti active novar var(2) t printed True con
            by (cases "contested ms")
              (simp_all add: evaluate_correction_def permits_def policy_verdict_def Let_def same_value_def
                sorted_uuids_empty del: canon.simps)
        next
          case False
          have "decision_fits c ApplyCorrection ExplicitCorrectionAllowed (set ?us) (set ?vs)
              (length ms) (length e) 0"
            using big e r(1) \<open>ms \<noteq> []\<close> active(1) by (simp add: decision_fits_def)
          from by_parts [OF this] show ?thesis
            using Some prov r(1) n ti active novar var(2) t printed False
            by (simp add: evaluate_correction_def permits_def policy_verdict_def Let_def same_value_def
                del: canon.simps)
        qed
      qed
    qed
  qed
  then show ?thesis unfolding reduce [unfolded n_def] n_def .
qed

end
