(* ===== verification/Validation_Service.thy ===== *)
theory Validation_Service
  imports Validation_Policy
begin

text \<open>
  The service of the memory validation (\<open>memory_validation/service.py\<close>) over Memory OS: the evaluation of
  a candidate against the store and the application of a decision. A store that a program can reach gives
  the policy coherent reads, so that an evaluation always decides.
\<close>

section \<open>Reads\<close>

definition normalize_candidate :: "candidate \<Rightarrow> normalized_candidate res" where
  "normalize_candidate c =
     tryE (candidate_identity c) (\<lambda>i.
     check_normalized_candidate \<lparr>nc_candidate = c, nc_identity = i, nc_value = cd_value_json c\<rparr>)"

fun records_with :: "identity \<Rightarrow> memory_record list \<Rightarrow> memory_record list res" where
  "records_with i [] = Inr []"
| "records_with i (r # rs) =
     tryE (identity_for_record r) (\<lambda>j.
     tryE (records_with i rs) (\<lambda>ms. Inr (if j = i then r # ms else ms)))"

definition identity_memories :: "identity \<Rightarrow> memory_store \<Rightarrow> memory_record list res" where
  "identity_memories i s =
     tryE (query_memories (Some (ni_memory_type i)) None None True s) (\<lambda>records.
     tryE (records_with i records) (\<lambda>relevant.
     Inr (sort_key (\<lambda>r. uuid_str (mr_memory_id r)) relevant)))"

fun conflicts_with :: "identity \<Rightarrow> memory_conflict list \<Rightarrow> memory_conflict list res" where
  "conflicts_with i [] = Inr []"
| "conflicts_with i (c # cs) =
     tryE (identity_for_record (mc_left c)) (\<lambda>l.
     tryE (if l \<noteq> i then Inr False
           else tryE (identity_for_record (mc_right c)) (\<lambda>r. Inr (r = i))) (\<lambda>keep.
     tryE (conflicts_with i cs) (\<lambda>ds. Inr (if keep then c # ds else ds))))"

definition identity_conflicts :: "identity \<Rightarrow> memory_store \<Rightarrow> memory_conflict list res" where
  "identity_conflicts i s =
     tryE (list_conflicts None None False s) (\<lambda>conflicts.
     tryE (conflicts_with i conflicts) (\<lambda>relevant.
     Inr (sort_key (\<lambda>c. uuid_str (mc_conflict_id c)) relevant)))"

text \<open>
  The target of a correction, whether it is missing, and its history. \<open>None\<close> is a history that is never
  returned.
\<close>

definition correction_state ::
  "candidate \<Rightarrow> memory_store \<Rightarrow> (memory_record option \<times> bool \<times> memory_record list) res option" where
  "correction_state c s =
     (case cd_target c of
        None \<Rightarrow> Some (Inr (None, False, []))
      | Some j \<Rightarrow>
          (case get_memory j s of
             Inl e \<Rightarrow>
               if e = MemoryExn MemoryNotFoundError then Some (Inr (None, True, [])) else Some (Inl e)
           | Inr t \<Rightarrow>
               if mr_status t \<noteq> Active then
                 map_option (\<lambda>r. tryE r (\<lambda>history. Inr (Some t, False, history)))
                   (get_revision_history (mr_memory_id t) s)
               else Some (Inr (Some t, False, []))))"

section \<open>Evaluation\<close>

text \<open>The evaluation over any source of these reads.\<close>

definition evaluate_over ::
  "(identity \<Rightarrow> 's \<Rightarrow> memory_record list res) \<Rightarrow> (identity \<Rightarrow> 's \<Rightarrow> memory_conflict list res) \<Rightarrow>
   (candidate \<Rightarrow> 's \<Rightarrow> (memory_record option \<times> bool \<times> memory_record list) res option) \<Rightarrow>
   candidate \<Rightarrow> 's \<Rightarrow> validation_decision res option" where
  "evaluate_over memories conflicts target_state c s =
     (case tryE (normalize_candidate c) (\<lambda>n.
           tryE (memories (nc_identity n) s) (\<lambda>ms.
           tryE (conflicts (nc_identity n) s) (\<lambda>cs. Inr (n, ms, cs)))) of
        Inl e \<Rightarrow> Some (Inl e)
      | Inr (n, ms, cs) \<Rightarrow>
          map_option (\<lambda>r. tryE r (\<lambda>(target, missing, history).
            policy_evaluate n ms cs target missing history)) (target_state c s))"

definition validation_evaluate :: "candidate \<Rightarrow> memory_store \<Rightarrow> validation_decision res option" where
  "validation_evaluate = evaluate_over identity_memories identity_conflicts correction_state"

section \<open>Application\<close>

fun find_duplicate :: "validation_decision \<Rightarrow> memory_store \<Rightarrow> uuid list \<Rightarrow> memory_record res" where
  "find_duplicate d s [] = Inl policy_invariant"
| "find_duplicate d s (j # js) =
     tryE (get_memory j s) (\<lambda>r.
     if mr_status r \<noteq> Active then find_duplicate d s js
     else tryE (identity_for_record r) (\<lambda>i.
       if i \<noteq> vd_identity d then find_duplicate d s js
       else tryE (canonicalize_json (mr_value r)) (\<lambda>t.
         if t \<noteq> cd_value_json (vd_candidate d) then find_duplicate d s js else Inr r)))"

definition require_active_duplicate :: "validation_decision \<Rightarrow> memory_store \<Rightarrow> memory_record res" where
  "require_active_duplicate d s = find_duplicate d s (vd_memory_ids d)"

definition persistence_metadata :: "validation_decision \<Rightarrow> (pykey \<times> pyval) list res" where
  "persistence_metadata d =
     tryE (candidate_metadata (vd_candidate d)) (\<lambda>metadata.
     Inr (dict_set (KStr validation_metadata_key)
       (obj [(''decision'', PStr (validation_type_value (vd_type d))),
             (''normalized_predicate'', PStr (ni_predicate (vd_identity d))),
             (''normalized_subject'', PStr (ni_subject (vd_identity d))),
             (''original_predicate'', PStr (cd_predicate (vd_candidate d))),
             (''original_subject'', PStr (cd_subject (vd_candidate d))),
             (''policy_version'', PInt validation_policy_version),
             (''reason_code'', PStr (validation_reason_value (vd_reason d)))])
       (dict_items metadata)))"

text \<open>The result of a decision that needs no mutation.\<close>

definition duplicate_result :: "validation_decision \<Rightarrow> memory_store \<Rightarrow> application_result res" where
  "duplicate_result d s =
     tryE (require_active_duplicate d s) (\<lambda>r.
     check_application_result \<lparr>ar_decision = d, ar_mutated = False, ar_memory = Some r\<rparr>)"

text \<open>The checks before the call of Memory OS, and the data of the candidate, read again for it.\<close>

definition mutation_arguments ::
  "validation_decision \<Rightarrow> ((pykey \<times> pyval) list \<times> pyval \<times> provenance) res" where
  "mutation_arguments d =
     (let c = vd_candidate d in
      tryE (persistence_metadata d) (\<lambda>metadata.
      raise_if (vd_type d \<notin> {AcceptNew, ConflictReview, ApplyCorrection}) policy_invariant
     (raise_if (vd_type d = ApplyCorrection \<and> (cd_target c = None \<or> cd_reason c = None)) policy_invariant
     (tryE (candidate_value c) (\<lambda>val.
      tryE (candidate_provenance c) (\<lambda>prov. Inr (metadata, val, prov)))))))"

definition perform_mutation ::
  "surroundings \<Rightarrow> validation_decision \<Rightarrow> memory_store \<Rightarrow> memory_record res \<times> memory_store" where
  "perform_mutation u d s =
     (let c = vd_candidate d; i = vd_identity d; confidence = PFloat (cd_confidence c) in
      checked (mutation_arguments d) (\<lambda>(metadata, val, prov).
        if vd_type d = ApplyCorrection then
          correct_memory u (the (cd_target c)) val prov confidence (cd_observed_at c)
            (the (cd_reason c)) (Some metadata)
        else
          create_memory u (ni_memory_type i) (ni_subject i) (ni_predicate i) val prov confidence
            (cd_observed_at c) (Some metadata)) s)"

definition validation_apply ::
  "surroundings \<Rightarrow> validation_decision \<Rightarrow> memory_store \<Rightarrow> (application_result res \<times> memory_store) option"
where
  "validation_apply u d s =
     map_option (\<lambda>evaluated. case evaluated of
         Inl e \<Rightarrow> (Inl e, s)
       | Inr current \<Rightarrow>
           if current \<noteq> d then
             (if vd_permitted d \<and> vd_type current = ExactDuplicate then (duplicate_result current s, s)
              else (Inl stale_validation_decision, s))
           else if vd_type current = ExactDuplicate then (duplicate_result current s, s)
           else if \<not> vd_permitted current then (Inl decision_not_applicable, s)
           else (case perform_mutation u current s of (result, s') \<Rightarrow>
             (tryE result (\<lambda>r. check_application_result
               \<lparr>ar_decision = current, ar_mutated = True, ar_memory = Some r\<rparr>), s')))
       (validation_evaluate (vd_candidate d) s)"

section \<open>Coherent sources\<close>

text \<open>
  The interface between the policy and a memory: its reads of an identity are the active memories and
  exactly the conflicts of those that contradict each other, and the target of a correction comes with the
  chain of its revisions.
\<close>

locale evidence_source =
  fixes opened :: "'s \<Rightarrow> bool"
    and memories :: "identity \<Rightarrow> 's \<Rightarrow> memory_record list res"
    and conflicts :: "identity \<Rightarrow> 's \<Rightarrow> memory_conflict list res"
    and target_state :: "candidate \<Rightarrow> 's \<Rightarrow> (memory_record option \<times> bool \<times> memory_record list) res option"
  assumes coherent: "opened s \<Longrightarrow> \<exists>ms cs. memories i s = Inr ms \<and> conflicts i s = Inr cs \<and>
      coherent_context i ms cs"
    and coherent_correction: "opened s \<Longrightarrow> memories i s = Inr ms \<Longrightarrow> \<exists>target history.
      target_state c s = Some (Inr (target, cd_target c \<noteq> None \<and> target = None, history)) \<and>
      coherent_target c i ms target history"
begin

lemma evaluation_decides:
  assumes s: "opened s" and c: "candidate_ok c" "candidate_identity c = Inr i"
  obtains ms cs target history d where "memories i s = Inr ms" "conflicts i s = Inr cs"
    "target_state c s = Some (Inr (target, cd_target c \<noteq> None \<and> target = None, history))"
    "evaluate_over memories conflicts target_state c s = Some (Inr d)"
    "decided c i ms cs target (tip_of history) d"
proof -
  obtain ms cs where r: "memories i s = Inr ms" "conflicts i s = Inr cs" "coherent_context i ms cs"
    using coherent [OF s] by blast
  obtain target history where t: "coherent_target c i ms target history"
    "target_state c s = Some (Inr (target, cd_target c \<noteq> None \<and> target = None, history))"
    using coherent_correction [OF s r(1)] by blast
  let ?n = "\<lparr>nc_candidate = c, nc_identity = i, nc_value = cd_value_json c\<rparr>"
  have "normalize_candidate c = Inr ?n"
    using c(2) by (simp add: normalize_candidate_def check_normalized_candidate_def)
  then have e: "evaluate_over memories conflicts target_state c s =
      Some (policy_evaluate ?n ms cs target (cd_target c \<noteq> None \<and> target = None) history)"
    using r t(2) by (simp add: evaluate_over_def)
  have "\<exists>d. policy_evaluate ?n ms cs target (cd_target c \<noteq> None \<and> target = None) history = Inr d \<and>
      decided c i ms cs target (tip_of history) d"
  proof (cases "cd_target c")
    case None
    then have "target = None" "history = []"
      using t(1) by (auto simp: coherent_target_def split: option.splits)
    then show ?thesis using policy_table_evidence [OF c None r(3)] None by (simp add: tip_of_def)
  next
    case (Some j)
    then show ?thesis using policy_table_correction [OF c Some r(3) t(1)] by simp
  qed
  then show thesis using that [OF r(1,2) t(2)] e by auto
qed

end

section \<open>Memory OS as a source\<close>

definition opened_store :: "memory_store \<Rightarrow> bool" where
  "opened_store s \<longleftrightarrow> store_inv s \<and> ss_open s"

definition identity_record :: "identity \<Rightarrow> memory_record \<Rightarrow> bool" where
  "identity_record i r \<longleftrightarrow> mr_status r = Active \<and> identity_for_record r = Inr i"

lemma opened_state:
  assumes "opened_store s"
  shows "represents (memory_state s) (ss_database s)" "memory_inv (memory_state s)"
    "r \<in> set (st_records (memory_state s)) \<Longrightarrow> stored_ok r"
    "distinct (map mr_memory_id (st_records (memory_state s)))"
  using assms represents_stored by (auto simp: opened_store_def store_inv_def memory_inv_def)

lemma records_with_total:
  "list_all stored_ok rs \<Longrightarrow> records_with i rs = Inr (filter (\<lambda>r. identity_for_record r = Inr i) rs)"
  by (induction rs) (auto dest: stored_identity)

lemma identity_type: "identity_for_record r = Inr i \<Longrightarrow> mr_memory_type r = ni_memory_type i"
  by (auto simp: identity_for_record_def normalized_identity_eq split: if_splits)

lemma identity_memories_total:
  assumes s: "opened_store s"
  obtains ms where "identity_memories i s = Inr ms" "distinct (map mr_memory_id ms)"
    "set ms = {r \<in> set (st_records (memory_state s)). identity_record i r}"
proof -
  let ?rs = "st_records (memory_state s)"
  let ?q = "\<lparr>mq_memory_type = Some (ni_memory_type i), mq_subject = None, mq_predicate = None,
    mq_active_only = True\<rparr>"
  define rs where "rs = sort_key record_order (filter (query_matches ?q) ?rs)"
  have "query_memories (Some (ni_memory_type i)) None None True s = Inr rs"
    using s select_memories_spec [OF opened_state(1) [OF s], of ?q]
    by (simp add: query_memories_def check_memory_query_def query_stored_memories_def with_connection_def
        opened_store_def rs_def)
  moreover have "list_all stored_ok rs" using opened_state(3) [OF s] by (auto simp: rs_def list_all_iff)
  ultimately have "identity_memories i s =
      Inr (sort_key (\<lambda>r. uuid_str (mr_memory_id r)) (filter (\<lambda>r. identity_for_record r = Inr i) rs))"
    by (simp add: identity_memories_def records_with_total)
  then show thesis
    by (rule that)
      (use opened_state(4) [OF s] in \<open>auto simp: rs_def query_matches_def identity_record_def distinct_map_filter
        dest: identity_type\<close>)
qed

lemma conflicts_with_total:
  "list_all (\<lambda>c. stored_ok (mc_left c) \<and> memory_key (mc_left c) = memory_key (mc_right c)) cs \<Longrightarrow>
   conflicts_with i cs = Inr (filter (\<lambda>c. identity_for_record (mc_left c) = Inr i) cs)"
proof (induction cs)
  case (Cons c cs)
  obtain j where "identity_for_record (mc_left c) = Inr j" using Cons.prems stored_identity by auto
  moreover have "identity_for_record (mc_right c) = identity_for_record (mc_left c)"
    using Cons.prems by (simp add: memory_key_def identity_for_record_def)
  ultimately show ?case using Cons by auto
qed simp

text \<open>The open conflicts of a state, as \<open>list_conflicts\<close> returns them.\<close>

definition open_conflicts :: "memory_state \<Rightarrow> stored_conflict list" where
  "open_conflicts st =
     sort_key spec_conflict_order (filter (\<lambda>c. sc_resolved_at c = None) (st_conflicts st))"

lemma list_all_open:
  assumes "opened_store s"
  shows "list_conflicts None None False s =
    Inr (map (spec_conflict (memory_state s)) (open_conflicts (memory_state s)))"
proof -
  have "conflict_listed None None False (memory_state s) = (\<lambda>c. sc_resolved_at c = None)"
    by (simp add: fun_eq_iff conflict_listed_def column_is_def)
  then show ?thesis
    using assms select_conflicts_spec [of "memory_state s" "ss_database s" False None None]
    by (simp add: list_conflicts_def list_stored_conflicts_def with_connection_def open_conflicts_def
        opened_store_def store_inv_def memory_inv_def)
qed

lemma open_conflict_listed:
  assumes inv: "memory_inv st" and c: "c \<in> set (open_conflicts st)"
  shows "open_conflict (filter (\<lambda>r. mr_status r = Active) (st_records st)) (spec_conflict st c)"
    "pair_of (spec_conflict st c) = conflict_pair c"
proof -
  from c have "c \<in> set (st_conflicts st)" "sc_resolved_at c = None" by (auto simp: open_conflicts_def)
  from open_conflict_sides [OF inv this] obtain a b where
    ab: "a \<in> set (st_records st)" "b \<in> set (st_records st)" "contradict a b"
      "sc_left c = mr_memory_id a" "sc_right c = mr_memory_id b"
      "spec_find (sc_left c) st = Some a" "spec_find (sc_right c) st = Some b" by metis
  then show "open_conflict (filter (\<lambda>r. mr_status r = Active) (st_records st)) (spec_conflict st c)"
    using \<open>sc_resolved_at c = None\<close>
    by (auto simp: open_conflict_def spec_conflict_def contradict_def)
  show "pair_of (spec_conflict st c) = conflict_pair c"
    using ab by (simp add: pair_of_def spec_conflict_def conflict_pair_def)
qed

lemma key_identity: "memory_key a = memory_key b \<Longrightarrow> identity_for_record a = identity_for_record b"
  by (simp add: memory_key_def identity_for_record_def)

lemma spec_conflict_name [simp]: "mc_conflict_id (spec_conflict st c) = sc_id c"
  by (simp add: spec_conflict_def)

lemma open_pairs_of_state:
  assumes inv: "memory_inv st"
  shows "pair_of ` set (map (spec_conflict st) (open_conflicts st)) = contradictions (st_records st)"
    "distinct (map pair_of (map (spec_conflict st) (open_conflicts st)))"
proof -
  have eq: "map pair_of (map (spec_conflict st) (open_conflicts st)) = map conflict_pair (open_conflicts st)"
    using open_conflict_listed(2) [OF inv] by simp
  have "conflict_pair ` set (open_conflicts st) = open_pairs (st_conflicts st)"
    by (auto simp: open_conflicts_def open_pairs_def)
  then show "pair_of ` set (map (spec_conflict st) (open_conflicts st)) = contradictions (st_records st)"
    using inv eq by (metis list.set_map memory_inv_def)
  have "distinct (map conflict_pair (open_conflicts st))"
    using inv by (simp add: open_conflicts_def memory_inv_def distinct_map_filter)
  then show "distinct (map pair_of (map (spec_conflict st) (open_conflicts st)))" by (simp only: eq)
qed

lemma contradictions_part:
  assumes ids: "distinct (map mr_memory_id rs)" and "set ms \<subseteq> set rs"
    and x: "{mr_memory_id a, mr_memory_id b} \<in> contradictions ms" "a \<in> set rs" "b \<in> set rs"
  shows "a \<in> set ms \<and> b \<in> set ms"
proof -
  obtain c d where cd: "c \<in> set ms" "d \<in> set ms" "{mr_memory_id a, mr_memory_id b} = {mr_memory_id c, mr_memory_id d}"
    "contradict c d" using x(1) by (auto simp: contradictions_def)
  have same: "p = q" if "p \<in> set rs" "q \<in> set rs" "mr_memory_id p = mr_memory_id q" for p q
    using ids that by (auto simp: distinct_map dest: inj_onD)
  have "c \<in> set rs" "d \<in> set rs" using cd(1,2) assms(2) by auto
  then show ?thesis using cd same x(2,3) by (metis doubleton_eq_iff)
qed

lemma identity_conflicts_total:
  assumes s: "opened_store s" and ms: "distinct (map mr_memory_id ms)"
    "set ms = {r \<in> set (st_records (memory_state s)). identity_record i r}"
  obtains cs where "identity_conflicts i s = Inr cs" "coherent_context i ms cs"
proof -
  let ?st = "memory_state s"
  define all where "all = map (spec_conflict ?st) (open_conflicts ?st)"
  define part where "part = filter (\<lambda>c. identity_for_record (mc_left c) = Inr i) all"
  have inv: "memory_inv ?st" by (rule opened_state(2) [OF s])
  have each: "open_conflict (filter (\<lambda>r. mr_status r = Active) (st_records ?st)) c" if "c \<in> set all" for c
    using that open_conflict_listed(1) [OF inv] by (auto simp: all_def)
  have "list_all (\<lambda>c. stored_ok (mc_left c) \<and> memory_key (mc_left c) = memory_key (mc_right c)) all"
    using each opened_state(3) [OF s] by (auto simp: list_all_iff open_conflict_def)
  then have reads: "identity_conflicts i s = Inr (sort_key (\<lambda>c. uuid_str (mc_conflict_id c)) part)"
    using list_all_open [OF s] by (simp add: identity_conflicts_def conflicts_with_total part_def flip: all_def)
  have in_ms: "open_conflict ms c" if "c \<in> set part" for c
  proof -
    have o: "open_conflict (filter (\<lambda>r. mr_status r = Active) (st_records ?st)) c"
      and i: "identity_for_record (mc_left c) = Inr i" using that each by (auto simp: part_def)
    then have "identity_for_record (mc_right c) = Inr i"
      using key_identity [of "mc_left c" "mc_right c"] by (simp add: open_conflict_def)
    with o i show ?thesis by (auto simp: open_conflict_def ms(2) identity_record_def)
  qed
  have ids: "distinct (map mc_conflict_id part)"
  proof -
    have "distinct (map sc_id (open_conflicts ?st))"
      using store_inv_conflict_ids [of s] s by (simp add: opened_store_def open_conflicts_def distinct_map_filter)
    then show ?thesis by (simp add: part_def all_def o_def distinct_map_filter)
  qed
  note pairs = open_pairs_of_state [OF inv, folded all_def]
  have "distinct (map pair_of part)" using pairs(2) by (simp add: part_def distinct_map_filter)
  moreover have "pair_of ` set part = contradictions ms"
  proof (intro equalityI subsetI)
    fix x assume "x \<in> pair_of ` set part"
    then obtain c where c: "c \<in> set part" "x = pair_of c" by auto
    have "mc_left c \<in> set ms" "mc_right c \<in> set ms" "contradict (mc_left c) (mc_right c)"
      using in_ms [OF c(1)] by (auto simp: open_conflict_def contradict_def ms(2) identity_record_def)
    with c(2) show "x \<in> contradictions ms" unfolding contradictions_def pair_of_def by blast
  next
    fix x assume x: "x \<in> contradictions ms"
    have sub: "set ms \<subseteq> set (st_records ?st)" by (auto simp: ms(2))
    have "x \<in> contradictions (st_records ?st)" using x sub unfolding contradictions_def by blast
    then obtain c where c: "c \<in> set all" "x = pair_of c" using pairs(1) by auto
    have "mc_left c \<in> set (st_records ?st)" "mc_right c \<in> set (st_records ?st)"
      using each [OF c(1)] by (auto simp: open_conflict_def)
    then have "mc_left c \<in> set ms"
      using contradictions_part [OF opened_state(4) [OF s] sub] x c(2) by (auto simp: pair_of_def)
    then have "c \<in> set part" using c(1) by (simp add: part_def ms(2) identity_record_def)
    then show "x \<in> pair_of ` set part" using c(2) by simp
  qed
  moreover have "list_all (identified i) ms"
    using opened_state(3) [OF s] by (auto simp: list_all_iff ms(2) identified_def identity_record_def)
  moreover have "list_all (open_conflict ms) part" using in_ms by (simp add: list_all_iff)
  ultimately have "coherent_context i ms (sort_key (\<lambda>c. uuid_str (mc_conflict_id c)) part)"
    using ms(1) ids by (simp add: coherent_context_def list_all_iff)
  with reads show thesis by (rule that)
qed

section \<open>Targets of corrections\<close>

lemma get_memory_opened:
  "opened_store s \<Longrightarrow> get_memory j s = (case spec_find j (memory_state s) of
     None \<Rightarrow> Inl (MemoryExn MemoryNotFoundError) | Some r \<Rightarrow> Inr r)"
  by (rule get_memory_spec) (simp_all add: opened_store_def store_inv_def)

lemma chain_keys:
  assumes inv: "memory_inv st" and h: "successively revises h" "set h \<subseteq> set (st_records st)"
  shows "list_all (\<lambda>r. mr_status r = Superseded) (butlast h)"
    "a \<in> set h \<Longrightarrow> b \<in> set h \<Longrightarrow> memory_key a = memory_key b"
proof -
  have "list_all (\<lambda>r. mr_status r = Superseded) (butlast h) \<and> (\<forall>a \<in> set h. memory_key a = memory_key (hd h))"
    using h
  proof (induction h rule: induct_list012)
    case (3 x y zs)
    then have "memory_key x = memory_key y" "mr_status x = Superseded"
      using revises_superseded [OF inv, of x y] by auto
    with 3 show ?case by auto
  qed simp_all
  then show "list_all (\<lambda>r. mr_status r = Superseded) (butlast h)"
    "a \<in> set h \<Longrightarrow> b \<in> set h \<Longrightarrow> memory_key a = memory_key b" by auto
qed

lemma chain_distinct:
  assumes inv: "memory_inv st" and h: "successively revises h" "set h \<subseteq> set (st_records st)"
  shows "distinct (map mr_memory_id h)"
proof -
  define pos where "pos r = length (takeWhile (\<lambda>q. q \<noteq> r) (st_records st))" for r
  have earlier: "pos a < pos b" if ab: "a \<in> set (st_records st)" "b \<in> set (st_records st)" "revises a b" for a b
  proof -
    obtain xs ys where rs: "st_records st = xs @ a # ys" using ab(1) by (meson split_list)
    have "b \<in> set ys" by (rule revises_after [OF inv rs ab(2,3)])
    moreover have "b \<notin> set (xs @ [a])"
    proof -
      have "distinct (st_records st)" using inv by (auto simp: memory_inv_def distinct_map)
      then show ?thesis using rs \<open>b \<in> set ys\<close> by auto
    qed
    ultimately have "pos b \<ge> length (xs @ [a])" "pos a \<le> length xs"
      unfolding pos_def rs by (auto simp: takeWhile_append length_takeWhile_le)
    then show ?thesis by simp
  qed
  have "successively (<) (map pos h)"
    using h
  proof (induction h rule: induct_list012)
    case (3 x y zs)
    then show ?case using earlier [of x y] by auto
  qed simp_all
  then have "distinct (map pos h)" by (simp add: successively_conv_sorted_wrt strict_sorted_iff)
  then have "distinct h" by (simp add: distinct_map)
  then show ?thesis
    using h(2) same_record [OF inv] by (auto simp: distinct_map inj_on_def)
qed

lemma history_opened:
  assumes s: "opened_store s" and t: "spec_find j (memory_state s) = Some t"
  obtains h where "get_revision_history j s = Some (Inr h)" "coherent_history t h"
    "set h \<subseteq> set (st_records (memory_state s))"
proof -
  let ?st = "memory_state s"
  obtain h where h: "revision_history j (ss_database s) = Some (Inr h)" "t \<in> set h" "revision_chain h"
    "set h \<subseteq> set (st_records ?st)"
    using revision_history_returns [OF opened_state(1,2) [OF s] t] by metis
  note keys = chain_keys [OF opened_state(2) [OF s] _ h(4)]
  have rev: "successively revises h" "mr_supersedes (hd h) = None" "h \<noteq> []"
    using h(3) by (auto simp: revision_chain_def)
  have ok: "list_all stored_ok h" using h(4) opened_state(3) [OF s] by (auto simp: list_all_iff)
  have "distinct (map mr_memory_id h)" by (rule chain_distinct [OF opened_state(2) [OF s] rev(1) h(4)])
  then have "coherent_history t h"
    using h(2,3) ok keys(1) [OF rev(1)] keys(2) [OF rev(1) _ h(2)]
    unfolding coherent_history_def list_all_iff by blast
  moreover have "get_revision_history j s = Some (Inr h)"
    using s h(1) by (simp add: get_revision_history_def stored_revision_history_def opened_store_def)
  ultimately show thesis using that h(4) by blast
qed

lemma correction_state_opened:
  assumes s: "opened_store s" and ms: "identity_memories i s = Inr ms"
  obtains target history where
    "correction_state c s = Some (Inr (target, cd_target c \<noteq> None \<and> target = None, history))"
    "coherent_target c i ms target history"
    "target = Option.bind (cd_target c) (\<lambda>j. spec_find j (memory_state s))"
    "target \<noteq> None \<Longrightarrow> mr_status (the target) \<noteq> Active \<Longrightarrow>
       get_revision_history (the (cd_target c)) s = Some (Inr history)"
proof -
  let ?st = "memory_state s"
  have active: "r \<in> set ms" if "r \<in> set (st_records ?st)" "mr_status r = Active" "identity_for_record r = Inr i" for r
    using identity_memories_total [OF s, of i] ms that by (auto simp: identity_record_def)
  show thesis
  proof (cases "Option.bind (cd_target c) (\<lambda>j. spec_find j ?st)")
    case None
    then show thesis
      using get_memory_opened [OF s]
      by (intro that [of None "[]"]) (auto simp: correction_state_def coherent_target_def split: option.splits)
  next
    case (Some t)
    then obtain j where j: "cd_target c = Some j" "spec_find j ?st = Some t" by (auto simp: bind_eq_Some_conv)
    have t: "t \<in> set (st_records ?st)" "mr_memory_id t = j" using spec_find_some [OF j(2)] by auto
    have get: "get_memory j s = Inr t" using get_memory_opened [OF s] j(2) by simp
    show thesis
    proof (cases "mr_status t = Active")
      case True
      then show thesis
        using j t get active opened_state(3) [OF s t(1)]
        by (intro that [of "Some t" "[]"]) (auto simp: correction_state_def coherent_target_def)
    next
      case False
      obtain h where h: "get_revision_history j s = Some (Inr h)" "coherent_history t h"
        "set h \<subseteq> set (st_records ?st)" using history_opened [OF s j(2)] by blast
      have "last h \<in> set h" using h(2) by (simp add: coherent_history_def revision_chain_def)
      then have "memory_key (last h) = memory_key t" "last h \<in> set (st_records ?st)"
        using h(2,3) unfolding coherent_history_def list_all_iff by blast+
      then have "mr_status (last h) = Active \<and> identity_for_record t = Inr i \<longrightarrow> last h \<in> set ms"
        using key_identity [of "last h" t] active by auto
      then show thesis
        using False j t get h(1,2) opened_state(3) [OF s t(1)]
        by (intro that [of "Some t" h]) (auto simp: correction_state_def coherent_target_def)
    qed
  qed
qed

interpretation memory_os_evidence: evidence_source opened_store identity_memories identity_conflicts
  correction_state
proof
  fix s i assume s: "opened_store s"
  obtain ms where ms: "identity_memories i s = Inr ms" "distinct (map mr_memory_id ms)"
    "set ms = {r \<in> set (st_records (memory_state s)). identity_record i r}"
    using identity_memories_total [OF s] by metis
  then show "\<exists>ms cs. identity_memories i s = Inr ms \<and> identity_conflicts i s = Inr cs \<and> coherent_context i ms cs"
    using identity_conflicts_total [OF s ms(2,3)] by metis
next
  fix s i ms c assume "opened_store s" "identity_memories i s = Inr ms"
  then show "\<exists>target history. correction_state c s =
      Some (Inr (target, cd_target c \<noteq> None \<and> target = None, history)) \<and> coherent_target c i ms target history"
    using correction_state_opened by metis
qed

section \<open>The decision on a store\<close>

text \<open>
  The table of the policy on the state of the store: the active memories of the identity, the target, and
  the last revision in its history.
\<close>

definition correction_target :: "candidate \<Rightarrow> memory_store \<Rightarrow> memory_record option" where
  "correction_target c s = Option.bind (cd_target c) (\<lambda>j. spec_find j (memory_state s))"

definition correction_tip :: "candidate \<Rightarrow> memory_store \<Rightarrow> memory_record option" where
  "correction_tip c s =
     Option.bind (cd_target c) (\<lambda>j.
     case get_revision_history j s of Some (Inr h) \<Rightarrow> tip_of h | _ \<Rightarrow> None)"

definition expected_verdict :: "candidate \<Rightarrow> identity \<Rightarrow> memory_store \<Rightarrow> validation_type \<times> validation_reason" where
  "expected_verdict c i s =
     policy_verdict c i (filter (identity_record i) (st_records (memory_state s)))
       (correction_target c s) (correction_tip c s)"

lemma policy_verdict_cong:
  assumes "set ms = set ms'" "\<And>t. target = Some t \<Longrightarrow> mr_status t \<noteq> Active \<Longrightarrow> tip = tip'"
  shows "policy_verdict c i ms target tip = policy_verdict c i ms' target tip'"
proof -
  have "list_ex P ms = list_ex P ms'" "list_ex P ms = list_ex P ms' \<Longrightarrow> contested ms = contested ms'"
    "ms = [] \<longleftrightarrow> ms' = []" for P
    using assms(1) by (auto simp: list_ex_iff contested_def)
  then show ?thesis using assms(2) by (auto simp: policy_verdict_def Let_def split: option.splits)
qed

lemma evaluation_table:
  assumes s: "opened_store s" and c: "candidate_ok c" "candidate_identity c = Inr i"
  obtains d where "validation_evaluate c s = Some (Inr d)" "(vd_type d, vd_reason d) = expected_verdict c i s"
    "vd_identity d = i" "vd_candidate d = c" "vd_permitted d = permits (vd_type d) (vd_reason d)"
    "set (vd_memory_ids d) = mr_memory_id ` ({r \<in> set (st_records (memory_state s)). identity_record i r} \<union>
      set_option (correction_target c s) \<union>
      (if vd_reason d = CorrectionAlreadyApplied then set_option (correction_tip c s) else {}))"
proof -
  obtain ms cs target history d where e: "identity_memories i s = Inr ms"
    "correction_state c s = Some (Inr (target, cd_target c \<noteq> None \<and> target = None, history))"
    "evaluate_over identity_memories identity_conflicts correction_state c s = Some (Inr d)"
    "decided c i ms cs target (tip_of history) d"
    using memory_os_evidence.evaluation_decides [OF s c] by metis
  obtain t h where th: "correction_state c s = Some (Inr (t, cd_target c \<noteq> None \<and> t = None, h))"
    "t = correction_target c s"
    "t \<noteq> None \<Longrightarrow> mr_status (the t) \<noteq> Active \<Longrightarrow> get_revision_history (the (cd_target c)) s = Some (Inr h)"
    using correction_state_opened [OF s e(1), of c] unfolding correction_target_def by metis
  have eq: "target = correction_target c s" "history = h" using e(2) th(1,2) by auto
  have ms: "set ms = {r \<in> set (st_records (memory_state s)). identity_record i r}"
    using identity_memories_total [OF s, of i] e(1) by auto
  have tip: "correction_tip c s = tip_of history" if "target = Some x" "mr_status x \<noteq> Active" for x
    using that th eq by (auto simp: correction_target_def correction_tip_def bind_eq_Some_conv)
  have verdict: "policy_verdict c i ms target (tip_of history) = expected_verdict c i s"
    unfolding expected_verdict_def eq(1) [symmetric] by (rule policy_verdict_cong) (auto simp: ms tip)
  have "set_option (tip_of history) = set_option (correction_tip c s)" if "vd_reason d = CorrectionAlreadyApplied"
  proof -
    have "snd (policy_verdict c i ms target (tip_of history)) = CorrectionAlreadyApplied"
      using that e(4) unfolding decided_def by (metis snd_conv)
    then obtain x where "target = Some x" "mr_status x \<noteq> Active"
      by (auto simp: policy_verdict_def Let_def split: option.splits if_splits)
    then show ?thesis using tip by simp
  qed
  then show thesis
    using that [of d] e(3,4) verdict ms eq(1) by (auto simp: decided_def validation_evaluate_def)
qed

end
