(* ===== verification/Validation_Properties.thy ===== *)
theory Validation_Properties
  imports Validation_Service Memory_Properties
begin

text \<open>
  What applying a decision does to the store, and the properties of the memory validation, with concrete
  objects at which they hold.
\<close>

section \<open>The mutation of a decision\<close>

lemma dict_set_new: "k \<notin> fst ` set m \<Longrightarrow> dict_set k x m = m @ [(k, x)]"
  by (induction k x m rule: dict_set.induct) auto

lemma mutation_arguments_Inr:
  assumes c: "candidate_ok (vd_candidate d)" and d: "vd_type d \<in> {AcceptNew, ConflictReview, ApplyCorrection}"
    and target: "vd_type d = ApplyCorrection \<Longrightarrow> cd_target (vd_candidate d) \<noteq> None"
  obtains metadata val prov where "mutation_arguments d = Inr (metadata, val, prov)"
    "represented (PDict metadata)" "represented val" "represented (PDict (pv_details prov))"
    "canon val = cd_value_json (vd_candidate d)" "memory_json_ok val" "ints_printable val"
    "pv_type prov = cd_provenance_type (vd_candidate d)"
proof -
  let ?c = "vd_candidate d"
  obtain v where v: "cd_value_json ?c = canon v" "printable v" "ints_printable v" "normal v = v"
    using c by (auto simp: candidate_ok_def)
  obtain m where m: "text_of_dict (cd_metadata_json ?c) m" "KStr validation_metadata_key \<notin> fst ` set m"
    using c by (auto simp: candidate_ok_def)
  obtain prov where prov: "candidate_provenance ?c = Inr prov" "pv_type prov = cd_provenance_type ?c"
    "represented (PDict (pv_details prov))" using candidate_provenance_Inr [OF c] by blast
  have "candidate_value ?c = Inr v" using v loaded_canon [OF v(2)] by (simp add: candidate_value_def)
  moreover have "candidate_metadata ?c = Inr (PDict m)"
    using m(1) loaded_canon [of "PDict m"] unfolding text_of_dict_def candidate_metadata_def by metis
  ultimately obtain x where args: "mutation_arguments d = Inr (m @ [(KStr validation_metadata_key, x)], v, prov)"
    and x: "represented x"
    using prov(1) d target c
    by (auto simp: mutation_arguments_def persistence_metadata_def Let_def dict_set_new [OF m(2)] obj_def
        candidate_ok_def split: option.splits)
  have "represented (PDict m)" using m(1) printable_represented unfolding text_of_dict_def by blast
  then have "represented (PDict (m @ [(KStr validation_metadata_key, x)]))" using m(2) x by simp
  then show thesis
    using that [OF args] v printable_represented printable_json prov by simp
qed

lemma identity_again:
  "candidate_identity c = Inr i \<Longrightarrow> normalized_identity (ni_memory_type i) (ni_subject i) (ni_predicate i) = Inr i"
  by (auto simp: candidate_identity_def normalized_identity_eq split: if_splits)

text \<open>The memory that holds the value of the candidate.\<close>

definition holds_candidate :: "candidate \<Rightarrow> identity \<Rightarrow> memory_record \<Rightarrow> bool" where
  "holds_candidate c i r \<longleftrightarrow> identity_record i r \<and> same_value c r"

lemma candidate_identity_Inr: "candidate_ok c \<Longrightarrow> \<exists>i. candidate_identity c = Inr i"
  by (simp add: candidate_ok_def candidate_identity_def normalized_identity_eq)

lemma evaluated_by:
  assumes "opened_store s" "candidate_ok c" "validation_evaluate c s = Some (Inr d)"
  shows "candidate_identity c = Inr (vd_identity d)" "vd_candidate d = c"
    "(vd_type d, vd_reason d) = expected_verdict c (vd_identity d) s"
    "vd_permitted d = permits (vd_type d) (vd_reason d)"
    "set (vd_memory_ids d) = mr_memory_id ` ({r \<in> set (st_records (memory_state s)). identity_record (vd_identity d) r} \<union>
      set_option (correction_target c s) \<union>
      (if vd_reason d = CorrectionAlreadyApplied then set_option (correction_tip c s) else {}))"
proof -
  obtain i where i: "candidate_identity c = Inr i" using assms(2) candidate_identity_Inr by blast
  obtain e where e: "validation_evaluate c s = Some (Inr e)" "(vd_type e, vd_reason e) = expected_verdict c i s"
    "vd_identity e = i" "vd_candidate e = c" "vd_permitted e = permits (vd_type e) (vd_reason e)"
    "set (vd_memory_ids e) = mr_memory_id ` ({r \<in> set (st_records (memory_state s)). identity_record i r} \<union>
      set_option (correction_target c s) \<union>
      (if vd_reason e = CorrectionAlreadyApplied then set_option (correction_tip c s) else {}))"
    by (rule evaluation_table [OF assms(1,2) i])
  have d: "e = d" using e(1) assms(3) by simp
  then have v: "i = vd_identity d" using e(3) by simp
  show "candidate_identity c = Inr (vd_identity d)" using i unfolding v .
  show "vd_candidate d = c" using e(4) unfolding d .
  show "(vd_type d, vd_reason d) = expected_verdict c (vd_identity d) s" using e(2) unfolding d v .
  show "vd_permitted d = permits (vd_type d) (vd_reason d)" using e(5) unfolding d .
  show "set (vd_memory_ids d) = mr_memory_id ` ({r \<in> set (st_records (memory_state s)). identity_record (vd_identity d) r} \<union>
      set_option (correction_target c s) \<union>
      (if vd_reason d = CorrectionAlreadyApplied then set_option (correction_tip c s) else {}))"
    using e(6) unfolding d v .
qed

text \<open>A permitted decision, read off the table.\<close>

lemma verdict_permits:
  assumes "policy_verdict c i ms target tip = (t, reason)" "permits t reason"
  shows "t \<in> {AcceptNew, ConflictReview, ApplyCorrection}"
    "t = ApplyCorrection \<Longrightarrow> \<exists>r. cd_target c \<noteq> None \<and> target = Some r \<and> mr_status r = Active \<and>
       identity_for_record r = Inr i \<and> cd_provenance_type c \<in> set correction_authorities \<and> \<not> same_value c r"
    "t \<noteq> ApplyCorrection \<Longrightarrow> cd_target c = None \<and> \<not> list_ex (same_value c) ms \<and>
       \<not> list_ex (stored_variant i) ms \<and> (t = AcceptNew \<longleftrightarrow> ms = [])"
  using assms by (auto simp: policy_verdict_def permits_def Let_def split: option.splits if_splits)

lemma perform_created:
  assumes s: "opened_store s" and c: "candidate_ok (vd_candidate d)" "candidate_identity (vd_candidate d) = Inr (vd_identity d)"
    and d: "vd_type d \<in> {AcceptNew, ConflictReview}" and now: "instant_ok (su_now u)"
    and run: "perform_mutation u d s = (Inr r, s')"
  shows "opened_store s'" "memory_state s' = spec_add (su_uuids u) r (memory_state s)"
    "holds_candidate (vd_candidate d) (vd_identity d) r"
    "canonicalize_json (mr_value r) = Inr (cd_value_json (vd_candidate d))"
    "mr_memory_id r \<notin> mr_memory_id ` set (st_records (memory_state s))" "memory_step s s'"
proof -
  let ?c = "vd_candidate d" and ?i = "vd_identity d"
  have other: "vd_type d \<noteq> ApplyCorrection" using d by auto
  obtain metadata val prov where args: "mutation_arguments d = Inr (metadata, val, prov)"
    "represented (PDict metadata)" "represented val" "represented (PDict (pv_details prov))"
    "canon val = cd_value_json ?c" "memory_json_ok val" "ints_printable val"
    by (rule mutation_arguments_Inr [OF c(1)]) (use d in auto)
  have call: "create_memory u (ni_memory_type ?i) (ni_subject ?i) (ni_predicate ?i) val prov
      (PFloat (cd_confidence ?c)) (cd_observed_at ?c) (Some metadata) s = (Inr r, s')"
    using run args(1) other by (simp add: perform_mutation_def checked_def Let_def)
  have python: "python_arguments u val prov (cd_observed_at ?c) (Some metadata)"
    using args now c(1) unfolding python_arguments_def candidate_ok_def by simp
  note step = create_memory_step [OF _ python call]
  show "opened_store s'" "memory_state s' = spec_add (su_uuids u) r (memory_state s)"
    "mr_memory_id r \<notin> mr_memory_id ` set (st_records (memory_state s))"
    using step s by (auto simp: opened_store_def)
  have r: "mr_memory_type r = ni_memory_type ?i" "mr_subject r = ni_subject ?i" "mr_predicate r = ni_predicate ?i"
    "mr_value r = val" "mr_status r = Active"
    using step(3) s by (auto simp: opened_store_def new_memory_def tryE_Inr current_time_Inr check_memory_record_Inr)
  show "holds_candidate ?c ?i r"
    using r identity_again [OF c(2)] args(5)
    by (simp add: holds_candidate_def identity_record_def identity_for_record_def same_value_def)
  show "canonicalize_json (mr_value r) = Inr (cd_value_json ?c)"
    using r(4) args(5-7) by (simp add: canonicalize_json_eq)
  show "memory_step s s'" using python call by (rule step_create)
qed

lemma perform_corrected:
  assumes s: "opened_store s" and c: "candidate_ok (vd_candidate d)"
    and d: "vd_type d = ApplyCorrection" "correction_target (vd_candidate d) s = Some t"
      "identity_for_record t = Inr (vd_identity d)" and now: "instant_ok (su_now u)"
    and run: "perform_mutation u d s = (Inr r, s')"
  shows "opened_store s'" "memory_state s' = spec_correct (su_uuids u) t r (memory_state s)"
    "holds_candidate (vd_candidate d) (vd_identity d) r"
    "canonicalize_json (mr_value r) = Inr (cd_value_json (vd_candidate d))" "mr_supersedes r = Some (mr_memory_id t)"
    "mr_memory_id r \<notin> mr_memory_id ` set (st_records (memory_state s))" "memory_step s s'"
proof -
  let ?c = "vd_candidate d" and ?i = "vd_identity d"
  obtain j where j: "cd_target ?c = Some j" "spec_find j (memory_state s) = Some t"
    using d(2) by (auto simp: correction_target_def bind_eq_Some_conv)
  obtain metadata val prov where args: "mutation_arguments d = Inr (metadata, val, prov)"
    "represented (PDict metadata)" "represented val" "represented (PDict (pv_details prov))"
    "canon val = cd_value_json ?c" "memory_json_ok val" "ints_printable val"
    by (rule mutation_arguments_Inr [OF c]) (use d(1) j(1) in auto)
  have call: "correct_memory u j val prov (PFloat (cd_confidence ?c)) (cd_observed_at ?c) (the (cd_reason ?c))
      (Some metadata) s = (Inr r, s')"
    using run d(1) j(1) args(1) by (simp add: perform_mutation_def checked_def Let_def)
  have python: "python_arguments u val prov (cd_observed_at ?c) (Some metadata)"
    using args now c unfolding python_arguments_def candidate_ok_def by simp
  have inv: "store_inv s" using s by (simp add: opened_store_def)
  obtain t' where step: "spec_find j (memory_state s) = Some t'"
    "replacement_memory u j val prov (PFloat (cd_confidence ?c)) (cd_observed_at ?c) (the (cd_reason ?c))
      (Some metadata) s = Inr (j, r)"
    "memory_state s' = spec_correct (su_uuids u) t' r (memory_state s)" "store_inv s'" "ss_open s' = ss_open s"
    "mr_memory_id r \<notin> mr_memory_id ` set (st_records (memory_state s))"
    by (rule correct_memory_step [OF inv python call])
  have same: "t' = t" using step(1) j(2) by simp
  show "opened_store s'" "memory_state s' = spec_correct (su_uuids u) t r (memory_state s)"
    "mr_memory_id r \<notin> mr_memory_id ` set (st_records (memory_state s))"
    using step s same by (auto simp: opened_store_def)
  have r: "memory_key r = memory_key t" "mr_value r = val" "mr_status r = Active"
    and sup: "mr_supersedes r = Some (mr_memory_id t)"
    using step(2) j(2) get_memory_opened [OF s]
    by (auto simp: replacement_memory_def res_simps current_time_Inr check_memory_record_Inr memory_key_def)
  show "mr_supersedes r = Some (mr_memory_id t)" by (rule sup)
  show "holds_candidate ?c ?i r"
    using r key_identity [OF r(1)] d(3) args(5)
    by (simp add: holds_candidate_def identity_record_def same_value_def)
  show "canonicalize_json (mr_value r) = Inr (cd_value_json ?c)"
    using r(2) args(5-7) by (simp add: canonicalize_json_eq)
  show "memory_step s s'" using python call by (rule step_correct)
qed

section \<open>Duplicates\<close>

lemma find_duplicate_total:
  assumes s: "opened_store s"
    and "\<forall>j \<in> set js. \<exists>r \<in> set (st_records (memory_state s)). mr_memory_id r = j"
    and "\<exists>r \<in> set (st_records (memory_state s)). mr_memory_id r \<in> set js \<and>
      holds_candidate (vd_candidate d) (vd_identity d) r"
  shows "\<exists>r \<in> set (st_records (memory_state s)). find_duplicate d s js = Inr r \<and>
    holds_candidate (vd_candidate d) (vd_identity d) r"
  using assms(2,3)
proof (induction js)
  case (Cons j js)
  let ?rs = "st_records (memory_state s)"
  obtain r where r: "r \<in> set ?rs" "mr_memory_id r = j" using Cons.prems(1) by auto
  have found: "get_memory j s = Inr r"
    using get_memory_opened [OF s] unique_find [OF opened_state(4) [OF s] r(1)] r(2) by simp
  obtain i where i: "identity_for_record r = Inr i" using stored_identity opened_state(3) [OF s r(1)] by blast
  have t: "canonicalize_json (mr_value r) = Inr (text_of r)"
    using opened_state(3) [OF s r(1)] by (rule stored_canonicalize)
  have step: "find_duplicate d s (j # js) =
      (if holds_candidate (vd_candidate d) (vd_identity d) r then Inr r else find_duplicate d s js)"
    using found i t by (simp add: holds_candidate_def identity_record_def same_value_def del: canon.simps)
  show ?case
  proof (cases "holds_candidate (vd_candidate d) (vd_identity d) r")
    case True
    then show ?thesis using r(1) step by auto
  next
    case False
    obtain q where q: "q \<in> set ?rs" "mr_memory_id q \<in> set (j # js)"
      "holds_candidate (vd_candidate d) (vd_identity d) q" using Cons.prems(2) by blast
    have "mr_memory_id q \<noteq> j"
      using q(1,3) False r opened_state(4) [OF s] by (auto simp: distinct_map dest: inj_onD)
    then have "mr_memory_id q \<in> set js" using q(2) by simp
    moreover have "\<forall>j \<in> set js. \<exists>r \<in> set ?rs. mr_memory_id r = j" using Cons.prems(1) by simp
    ultimately show ?thesis using Cons.IH q(1,3) False step by auto
  qed
qed simp

lemma target_opened:
  assumes s: "opened_store s" and t: "correction_target c s = Some t"
  shows "t \<in> set (st_records (memory_state s))" "cd_target c = Some (mr_memory_id t)"
    "correction_tip c s = Some q \<Longrightarrow> q \<in> set (st_records (memory_state s)) \<and> memory_key q = memory_key t"
proof -
  obtain j where j: "cd_target c = Some j" "spec_find j (memory_state s) = Some t"
    using t by (auto simp: correction_target_def bind_eq_Some_conv)
  show "t \<in> set (st_records (memory_state s))" "cd_target c = Some (mr_memory_id t)"
    using spec_find_some [OF j(2)] j(1) by auto
  obtain h where h: "get_revision_history j s = Some (Inr h)" "coherent_history t h"
    "set h \<subseteq> set (st_records (memory_state s))" using history_opened [OF s j(2)] by blast
  assume "correction_tip c s = Some q"
  then have "q \<in> set h" using j(1) h(1) by (auto simp: correction_tip_def tip_of_def split: if_splits)
  then show "q \<in> set (st_records (memory_state s)) \<and> memory_key q = memory_key t"
    using h(2,3) unfolding coherent_history_def list_all_iff by blast
qed

lemma verdict_duplicate:
  assumes "policy_verdict c i ms target tip = (ExactDuplicate, reason)"
  shows "(reason \<noteq> CorrectionAlreadyApplied \<and> ((\<exists>r \<in> set ms. same_value c r) \<or>
       (\<exists>t. target = Some t \<and> identity_record i t \<and> same_value c t))) \<or>
     (reason = CorrectionAlreadyApplied \<and> (\<exists>t r. target = Some t \<and> tip = Some r \<and>
       identity_for_record t = Inr i \<and> mr_status r = Active \<and> same_value c r))"
  using assms
  by (auto simp: policy_verdict_def Let_def list_ex_iff identity_record_def split: option.splits if_splits)

lemma duplicate_result_total:
  assumes s: "opened_store s" and c: "candidate_ok c" and e: "validation_evaluate c s = Some (Inr d)"
    and dup: "vd_type d = ExactDuplicate"
  obtains r where "duplicate_result d s = Inr \<lparr>ar_decision = d, ar_mutated = False, ar_memory = Some r\<rparr>"
    "r \<in> set (st_records (memory_state s))" "holds_candidate c (vd_identity d) r"
proof -
  let ?rs = "st_records (memory_state s)" and ?i = "vd_identity d"
  note by_table = evaluated_by [OF s c e]
  have v: "policy_verdict c ?i (filter (identity_record ?i) ?rs) (correction_target c s) (correction_tip c s) =
      (ExactDuplicate, vd_reason d)"
    using by_table(3) dup by (simp add: expected_verdict_def)
  have tip: "q \<in> set ?rs" if "vd_reason d = CorrectionAlreadyApplied" "correction_tip c s = Some q" for q
    using verdict_duplicate [OF v] that target_opened(3) [OF s] by blast
  have all: "\<forall>j \<in> set (vd_memory_ids d). \<exists>r \<in> set ?rs. mr_memory_id r = j"
    using by_table(5) target_opened(1) [OF s] tip by (auto split: if_splits)
  have "\<exists>r \<in> set ?rs. mr_memory_id r \<in> set (vd_memory_ids d) \<and> holds_candidate c ?i r"
  proof (cases "vd_reason d = CorrectionAlreadyApplied")
    case True
    then obtain t r where tr: "correction_target c s = Some t" "correction_tip c s = Some r"
      "identity_for_record t = Inr ?i" "mr_status r = Active" "same_value c r"
      using verdict_duplicate [OF v] by blast
    have r: "r \<in> set ?rs" "memory_key r = memory_key t" using target_opened(3) [OF s tr(1,2)] by auto
    have "holds_candidate c ?i r"
      using tr key_identity [OF r(2)] by (simp add: holds_candidate_def identity_record_def)
    then show ?thesis using r(1) True tr(2) by_table(5) by auto
  next
    case False
    then obtain r where "r \<in> set ?rs" "identity_record ?i r" "same_value c r"
      using verdict_duplicate [OF v] target_opened(1) [OF s] by auto
    then show ?thesis using by_table(5) by (auto simp: holds_candidate_def)
  qed
  then obtain r where r: "r \<in> set ?rs" "find_duplicate d s (vd_memory_ids d) = Inr r" "holds_candidate c ?i r"
    using find_duplicate_total [OF s all] by_table(2) by auto
  have "canonicalize_json (mr_value r) = Inr (cd_value_json c)"
    using stored_canonicalize [OF opened_state(3) [OF s r(1)]] r(3)
    by (simp add: holds_candidate_def same_value_def)
  then have "check_application_result \<lparr>ar_decision = d, ar_mutated = False, ar_memory = Some r\<rparr> =
      Inr \<lparr>ar_decision = d, ar_mutated = False, ar_memory = Some r\<rparr>"
    using r(3) dup by_table(2)
    by (simp add: check_application_result_def holds_candidate_def identity_record_def)
  then show thesis
    using that r by (simp add: duplicate_result_def require_active_duplicate_def)
qed

section \<open>Applying a decision\<close>

text \<open>What a permitted decision does to the abstract state; \<open>r\<close> is the memory that it makes.\<close>

definition decision_effect ::
  "surroundings \<Rightarrow> validation_decision \<Rightarrow> memory_record \<Rightarrow> memory_store \<Rightarrow> memory_store \<Rightarrow> bool" where
  "decision_effect u d r s s' \<longleftrightarrow>
     (if vd_type d = ApplyCorrection
      then (\<exists>t. correction_target (vd_candidate d) s = Some t \<and> mr_status t = Active \<and>
        cd_provenance_type (vd_candidate d) \<in> set correction_authorities \<and>
        mr_supersedes r = Some (mr_memory_id t) \<and>
        memory_state s' = spec_correct (su_uuids u) t r (memory_state s))
      else memory_state s' = spec_add (su_uuids u) r (memory_state s))"

lemma perform_effect:
  assumes s: "opened_store s" and c: "candidate_ok (vd_candidate d)"
    and e: "validation_evaluate (vd_candidate d) s = Some (Inr d)" "vd_permitted d"
    and now: "instant_ok (su_now u)" and run: "perform_mutation u d s = (Inr r, s')"
  shows "opened_store s'" "decision_effect u d r s s'" "holds_candidate (vd_candidate d) (vd_identity d) r"
    "check_application_result \<lparr>ar_decision = d, ar_mutated = True, ar_memory = Some r\<rparr> =
      Inr \<lparr>ar_decision = d, ar_mutated = True, ar_memory = Some r\<rparr>"
    "mr_memory_id r \<notin> mr_memory_id ` set (st_records (memory_state s))" "memory_step s s'"
proof -
  note by_table = evaluated_by [OF s c e(1)]
  define ms where "ms = filter (identity_record (vd_identity d)) (st_records (memory_state s))"
  have v: "policy_verdict (vd_candidate d) (vd_identity d) ms (correction_target (vd_candidate d) s)
      (correction_tip (vd_candidate d) s) = (vd_type d, vd_reason d)"
    using by_table(3) by (simp add: expected_verdict_def ms_def)
  have p: "permits (vd_type d) (vd_reason d)" using e(2) by_table(4) by simp
  note facts = verdict_permits [OF v p]
  have "opened_store s' \<and> decision_effect u d r s s' \<and> holds_candidate (vd_candidate d) (vd_identity d) r \<and>
    canonicalize_json (mr_value r) = Inr (cd_value_json (vd_candidate d)) \<and>
    mr_memory_id r \<notin> mr_memory_id ` set (st_records (memory_state s)) \<and> memory_step s s'"
  proof (cases "vd_type d = ApplyCorrection")
    case True
    obtain t where t: "correction_target (vd_candidate d) s = Some t" "mr_status t = Active"
      "identity_for_record t = Inr (vd_identity d)" "cd_provenance_type (vd_candidate d) \<in> set correction_authorities"
      using facts(2) [OF True] by blast
    from perform_corrected [OF s c True t(1,3) now run] True t show ?thesis
      by (simp add: decision_effect_def)
  next
    case False
    then have "vd_type d \<in> {AcceptNew, ConflictReview}" using facts(1) by blast
    from perform_created [OF s c by_table(1) this now run] False show ?thesis
      by (simp add: decision_effect_def)
  qed
  note all = this
  then show "opened_store s'" "decision_effect u d r s s'" "holds_candidate (vd_candidate d) (vd_identity d) r"
    "mr_memory_id r \<notin> mr_memory_id ` set (st_records (memory_state s))" "memory_step s s'" by blast+
  show "check_application_result \<lparr>ar_decision = d, ar_mutated = True, ar_memory = Some r\<rparr> =
      Inr \<lparr>ar_decision = d, ar_mutated = True, ar_memory = Some r\<rparr>"
    using all e(2) by (simp add: check_application_result_def holds_candidate_def identity_record_def)
qed

lemma perform_raises: "perform_mutation u d s = (Inl e, s') \<Longrightarrow> s' = s"
  by (cases "mutation_arguments d")
    (auto simp: perform_mutation_def checked_def Let_def split: if_splits prod.splits dest: service_raises)

lemma validation_apply_unfold:
  assumes "validation_evaluate (vd_candidate d) s = Some (Inr e)"
  shows "validation_apply u d s = Some (
    if vd_type e = ExactDuplicate \<and> (e = d \<or> vd_permitted d) then (duplicate_result e s, s)
    else if e \<noteq> d then (Inl stale_validation_decision, s)
    else if \<not> vd_permitted d then (Inl decision_not_applicable, s)
    else (case perform_mutation u d s of (result, s') \<Rightarrow>
      (tryE result (\<lambda>r. check_application_result
        \<lparr>ar_decision = d, ar_mutated = True, ar_memory = Some r\<rparr>), s')))"
  using assms by (auto simp: validation_apply_def)

lemma opened_reachable: "reachable_store s \<Longrightarrow> ss_open s \<Longrightarrow> opened_store s"
  by (simp add: opened_store_def reachable_store_inv)

definition applied_result ::
  "surroundings \<Rightarrow> validation_decision \<Rightarrow> memory_store \<Rightarrow> memory_store \<Rightarrow> application_result \<Rightarrow> bool" where
  "applied_result u d s s' a \<longleftrightarrow>
     (\<exists>r. ar_memory a = Some r \<and> holds_candidate (vd_candidate d) (vd_identity (ar_decision a)) r \<and>
        validation_evaluate (vd_candidate d) s = Some (Inr (ar_decision a)) \<and>
        (if ar_mutated a then ar_decision a = d \<and> vd_permitted d \<and> decision_effect u d r s s'
         else s' = s \<and> vd_type (ar_decision a) = ExactDuplicate \<and> r \<in> set (st_records (memory_state s))))"

lemma apply_outcome:
  assumes s: "opened_store s" and c: "candidate_ok (vd_candidate d)" and now: "instant_ok (su_now u)"
  obtains out s' where "validation_apply u d s = Some (out, s')"
    "case out of Inl e \<Rightarrow> s' = s | Inr a \<Rightarrow> applied_result u d s s' a" "opened_store s'"
    "s' = s \<or> memory_step s s'"
proof -
  obtain e where e: "validation_evaluate (vd_candidate d) s = Some (Inr e)"
    using candidate_identity_Inr [OF c] evaluation_table [OF s c] by metis
  note unf = validation_apply_unfold [OF e, of u]
  consider (duplicate) "vd_type e = ExactDuplicate" "e = d \<or> vd_permitted d"
    | (refused) "\<not> (vd_type e = ExactDuplicate \<and> (e = d \<or> vd_permitted d))" "e \<noteq> d \<or> \<not> vd_permitted d"
    | (mutation) "e = d" "vd_permitted d" "vd_type d \<noteq> ExactDuplicate" by blast
  then show thesis
  proof cases
    case duplicate
    obtain r where r: "duplicate_result e s = Inr \<lparr>ar_decision = e, ar_mutated = False, ar_memory = Some r\<rparr>"
      "r \<in> set (st_records (memory_state s))" "holds_candidate (vd_candidate d) (vd_identity e) r"
      using duplicate_result_total [OF s c e duplicate(1)] by blast
    show thesis
      using unf duplicate r e s
      by (intro that [of "Inr \<lparr>ar_decision = e, ar_mutated = False, ar_memory = Some r\<rparr>" s])
        (auto simp: applied_result_def)
  next
    case refused
    then have "validation_apply u d s =
        Some (Inl (if e \<noteq> d then stale_validation_decision else decision_not_applicable), s)"
      using unf by auto
    then show thesis by (rule that) (use s in simp_all)
  next
    case mutation
    obtain out s' where run: "perform_mutation u d s = (out, s')" by (cases "perform_mutation u d s")
    show thesis
    proof (cases out)
      case (Inl x)
      then have "s' = s" using run perform_raises by simp
      then show thesis using unf mutation run Inl s by (intro that [of "Inl x" s]) auto
    next
      case (Inr r)
      have e': "validation_evaluate (vd_candidate d) s = Some (Inr d)" using e mutation(1) by simp
      note eff = perform_effect [OF s c e' mutation(2) now run [unfolded Inr]]
      show thesis
        using unf mutation run Inr eff e'
        by (intro that [of "Inr \<lparr>ar_decision = d, ar_mutated = True, ar_memory = Some r\<rparr>" s'])
          (auto simp: applied_result_def)
    qed
  qed
qed

section \<open>Applying a decision again\<close>

lemma holds_stored: "holds_candidate c i r \<Longrightarrow> holds_candidate c i (stored_record r)"
  using key_identity [OF memory_key_stored, of r]
  by (simp add: holds_candidate_def identity_record_def same_value_def del: canon.simps)

lemma revision_last:
  assumes inv: "memory_inv st" and h: "coherent_history t h" "set h \<subseteq> set (st_records st)"
    and q: "q \<in> set (st_records st)" "revises t q" "mr_status q = Active"
  shows "last h = q"
proof -
  have c: "t \<in> set h" "successively revises h" "mr_status (last h) \<noteq> Superseded"
    "list_all (\<lambda>r. mr_status r = Superseded) (butlast h)"
    using h(1) unfolding coherent_history_def revision_chain_def by blast+
  obtain xs ys where split: "h = xs @ t # ys" using c(1) by (meson split_list)
  have "mr_status t = Superseded" using revises_superseded(1) [OF inv _ q(1,2)] c(1) h(2) by blast
  then obtain y zs where ys: "ys = y # zs" using c(3) split by (cases ys) auto
  have "revises t y" using c(2) by (simp add: split ys successively_append_iff)
  moreover have y: "y \<in> set (st_records st)" using h(2) split ys by auto
  ultimately have "mr_memory_id y = mr_memory_id q"
    using inv q(1,2) unfolding memory_inv_def one_successor_def revises_def by blast
  then have "y = q" by (rule same_record [OF inv y q(1)])
  then have "q \<in> set h" using split ys by simp
  moreover have "q \<notin> set (butlast h)" using c(4) q(3) by (auto simp: list_all_iff)
  moreover have "h = butlast h @ [last h]" using c(1) by (cases h) auto
  ultimately show ?thesis by (metis Un_iff empty_iff empty_set insert_iff list.simps(15) set_append)
qed

lemma verdict_after_addition:
  assumes "cd_target c = None" "holds_candidate c i r" "memory_state s' = spec_add ids r (memory_state s)"
  shows "fst (expected_verdict c i s') = ExactDuplicate"
  using assms(1,3) holds_stored [OF assms(2)]
  by (simp add: expected_verdict_def policy_verdict_def Let_def spec_add_def holds_candidate_def)

lemma verdict_after_correction:
  assumes s: "opened_store s" and s': "opened_store s'"
    and t: "correction_target c s = Some t" "mr_status t = Active" "identity_for_record t = Inr i"
    and auth: "cd_provenance_type c \<in> set correction_authorities" and r: "holds_candidate c i r"
    and sup: "mr_supersedes r = Some (mr_memory_id t)" and new: "mr_memory_id r \<notin> mr_memory_id ` set (st_records (memory_state s))"
    and state: "memory_state s' = spec_correct ids t r (memory_state s)"
  shows "expected_verdict c i s' = (ExactDuplicate, CorrectionAlreadyApplied)"
proof -
  let ?t = "retire Superseded (mr_created_at r) (mr_revision_reason r) t"
  have member: "t \<in> set (st_records (memory_state s))" and j: "cd_target c = Some (mr_memory_id t)"
    using target_opened [OF s t(1)] by simp_all
  have records: "st_records (memory_state s') =
      retire_in (mr_memory_id t) Superseded (mr_created_at r) (mr_revision_reason r)
        (st_records (memory_state s)) @ [stored_record r]"
    by (simp add: state spec_correct_def Let_def)
  have "?t \<in> set (st_records (memory_state s'))" using member t(2) by (force simp: records retire_in_def)
  then have found: "spec_find (mr_memory_id t) (memory_state s') = Some ?t"
    using unique_find [OF opened_state(4) [OF s'], of ?t] by (simp add: retire_def)
  obtain h where h: "get_revision_history (mr_memory_id t) s' = Some (Inr h)" "coherent_history ?t h"
    "set h \<subseteq> set (st_records (memory_state s'))" using history_opened [OF s' found] by blast
  have "last h = stored_record r"
    using revision_last [OF opened_state(2) [OF s'] h(2,3), of "stored_record r"] sup holds_stored [OF r]
    by (simp add: records revises_def retire_def holds_candidate_def identity_record_def)
  moreover have "h \<noteq> []" using h(2) by (simp add: coherent_history_def revision_chain_def)
  moreover have "identity_for_record ?t = Inr i" using t(3) by (simp add: identity_for_record_def retire_def)
  ultimately show ?thesis
    using found h(1) j auth holds_stored [OF r]
    by (simp add: expected_verdict_def policy_verdict_def correction_target_def correction_tip_def tip_of_def
        holds_candidate_def identity_record_def retire_def)
qed

lemma apply_mutation_runs:
  assumes s: "opened_store s" and c: "candidate_ok (vd_candidate d)"
    and run: "validation_apply u d s = Some (Inr a, s')" "ar_mutated a"
  obtains r where "validation_evaluate (vd_candidate d) s = Some (Inr d)" "vd_permitted d"
    "perform_mutation u d s = (Inr r, s')" "vd_type d \<noteq> ExactDuplicate"
proof -
  obtain e where e: "validation_evaluate (vd_candidate d) s = Some (Inr e)"
    using candidate_identity_Inr [OF c] evaluation_table [OF s c] by metis
  note unf = validation_apply_unfold [OF e, of u]
  have "\<not> (vd_type e = ExactDuplicate \<and> (e = d \<or> vd_permitted d))"
  proof
    assume dup: "vd_type e = ExactDuplicate \<and> (e = d \<or> vd_permitted d)"
    then obtain r where "duplicate_result e s = Inr \<lparr>ar_decision = e, ar_mutated = False, ar_memory = Some r\<rparr>"
      using duplicate_result_total [OF s c e] by blast
    with run unf dup show False by auto
  qed
  then have d: "e = d" "vd_permitted d" "vd_type d \<noteq> ExactDuplicate"
    using run(1) unf by (auto split: if_splits)
  obtain out t where p: "perform_mutation u d s = (out, t)" by (cases "perform_mutation u d s")
  obtain r where "out = Inr r" "t = s'" using run(1) unf d p by (cases out) auto
  then show thesis using that e d p by simp
qed

lemma apply_mutation_again:
  assumes s: "opened_store s" and c: "candidate_ok (vd_candidate d)" and now: "instant_ok (su_now u)"
    and run: "validation_apply u d s = Some (Inr a, s')" "ar_mutated a"
  obtains b where "validation_apply u' d s' = Some (Inr b, s')" "\<not> ar_mutated b"
    "applied_result u' d s' s' b"
proof -
  let ?c = "vd_candidate d" and ?i = "vd_identity d"
  obtain r where e: "validation_evaluate ?c s = Some (Inr d)" "vd_permitted d"
    and mut: "perform_mutation u d s = (Inr r, s')" and other: "vd_type d \<noteq> ExactDuplicate"
    by (rule apply_mutation_runs [OF s c run])
  note eff = perform_effect [OF s c e now mut]
  note by_table = evaluated_by [OF s c e(1)]
  have v: "policy_verdict ?c ?i (filter (identity_record ?i) (st_records (memory_state s))) (correction_target ?c s)
      (correction_tip ?c s) = (vd_type d, vd_reason d)"
    using by_table(3) by (simp add: expected_verdict_def)
  note facts = verdict_permits [OF v by_table(4) [symmetric, THEN iffD2]]
  have dup: "fst (expected_verdict ?c ?i s') = ExactDuplicate"
  proof (cases "vd_type d = ApplyCorrection")
    case True
    obtain t where t: "correction_target ?c s = Some t" "mr_status t = Active"
      "cd_provenance_type ?c \<in> set correction_authorities" "mr_supersedes r = Some (mr_memory_id t)"
      "memory_state s' = spec_correct (su_uuids u) t r (memory_state s)"
      using eff(2) True unfolding decision_effect_def by auto
    have "identity_for_record t = Inr ?i"
      using facts(2) e(2) True t(1) by (simp add: by_table(4))
    from verdict_after_correction [OF s eff(1) t(1,2) this t(3) eff(3) t(4) eff(5) t(5)] show ?thesis by simp
  next
    case False
    then have "cd_target ?c = None" using facts(3) e(2) by (simp add: by_table(4))
    then show ?thesis
      using False eff(2,3) verdict_after_addition by (simp add: decision_effect_def)
  qed
  obtain d' where d': "validation_evaluate ?c s' = Some (Inr d')" "(vd_type d', vd_reason d') = expected_verdict ?c ?i s'"
    using evaluation_table [OF eff(1) c by_table(1)] by metis
  then have "vd_type d' = ExactDuplicate" using dup by (metis fst_conv)
  then obtain q where q: "duplicate_result d' s' = Inr \<lparr>ar_decision = d', ar_mutated = False, ar_memory = Some q\<rparr>"
    "q \<in> set (st_records (memory_state s'))" "holds_candidate ?c (vd_identity d') q"
    using duplicate_result_total [OF eff(1) c d'(1)] by blast
  show thesis
    using validation_apply_unfold [OF d'(1), of u'] \<open>vd_type d' = ExactDuplicate\<close> e(2) q d'(1)
    by (intro that [of "\<lparr>ar_decision = d', ar_mutated = False, ar_memory = Some q\<rparr>"])
      (auto simp: applied_result_def)
qed

section \<open>Example candidates\<close>

text \<open>
  The owner states a drink besides the stored tea, in an identity with more whitespace than the stored one,
  and corrects the tea.
\<close>

definition juice :: candidate where
  "juice = projr (mk_candidate Preference '' owner'' ''drink '' (PStr ''juice'') owner_says (PInt 1) (day_at 9)
     None None None)"

definition corrected_tea :: candidate where
  "corrected_tea = projr (mk_candidate Preference ''owner'' ''drink'' (PStr ''green tea'') owner_says (PInt 1)
     (day_at 9) None (Some 1) (Some ''precise''))"

lemma example_candidates:
  "mk_candidate Preference '' owner'' ''drink '' (PStr ''juice'') owner_says (PInt 1) (day_at 9)
     None None None = Inr juice"
  "mk_candidate Preference ''owner'' ''drink'' (PStr ''green tea'') owner_says (PInt 1)
     (day_at 9) None (Some 1) (Some ''precise'') = Inr corrected_tea"
  by code_simp+

lemma owner_says_ok: "provenance_ok owner_says" "represented (PDict (pv_details owner_says))"
  by code_simp+

lemma example_candidates_ok: "candidate_ok juice" "candidate_ok corrected_tea"
  using mk_candidate_ok(1) [OF example_candidates(1)] mk_candidate_ok(1) [OF example_candidates(2)] owner_says_ok
  by simp_all

section \<open>Properties\<close>

text \<open>
  C26. On every store that a program can reach and has not closed, the evaluation of a well-formed candidate
  returns a decision, never an error. Its type and its reason are those of the table: a candidate without a
  correction is new, a duplicate of an active memory of its identity, or in conflict with them; a correction
  needs an existing target of the same identity and an authoritative source, is already applied when the last
  revision of the target holds the value, and is held back when an active memory is stored under another
  spelling of the identity. It permits a mutation exactly for new evidence, a conflict without such a spelling,
  and a correction.
\<close>

theorem validation_decision_table:
  assumes "reachable_store s" "ss_open s" "candidate_ok c"
  shows "\<exists>i d. candidate_identity c = Inr i \<and> validation_evaluate c s = Some (Inr d) \<and>
    (vd_type d, vd_reason d) = expected_verdict c i s \<and> vd_identity d = i \<and> vd_candidate d = c \<and>
    vd_permitted d = (vd_type d \<in> {AcceptNew, ApplyCorrection} \<or> vd_reason d = DifferentActiveValue)"
proof -
  obtain i where i: "candidate_identity c = Inr i" using candidate_identity_Inr [OF assms(3)] by blast
  show ?thesis
    using evaluation_table [OF opened_reachable [OF assms(1,2)] assms(3) i] i
    unfolding permits_def by metis
qed

lemma example_verdicts:
  "expected_verdict juice \<lparr>ni_memory_type = Preference, ni_subject = ''owner'', ni_predicate = ''drink''\<rparr> tea_store =
     (ConflictReview, DifferentActiveValue)"
  "expected_verdict corrected_tea \<lparr>ni_memory_type = Preference, ni_subject = ''owner'', ni_predicate = ''drink''\<rparr>
     tea_store = (ApplyCorrection, ExplicitCorrectionAllowed)"
  "candidate_identity juice = Inr \<lparr>ni_memory_type = Preference, ni_subject = ''owner'', ni_predicate = ''drink''\<rparr>"
  "candidate_identity corrected_tea =
     Inr \<lparr>ni_memory_type = Preference, ni_subject = ''owner'', ni_predicate = ''drink''\<rparr>"
  "ss_open tea_store"
  by code_simp+

lemma validation_decision_table_witness:
  "\<exists>d. validation_evaluate corrected_tea tea_store = Some (Inr d) \<and> vd_type d = ApplyCorrection \<and> vd_permitted d"
  using validation_decision_table [OF drinks_reachable(2) example_verdicts(5) example_candidates_ok(2)]
    example_verdicts(2,4) by auto

text \<open>
  C27. Applying a decision about a well-formed candidate, current, stale or forged, to a reachable open store
  always ends, with a clock that gives valid instants, and the store stays reachable. An error leaves the store as it was. A result without a mutation is for a duplicate: the store is
  unchanged and has the active memory of the result, with the value and the identity of the candidate. A
  mutation is only done for the very decision that the evaluation takes now, which permits it, and its effect
  on the state is exactly the addition of the new memory, or the correction of the active target by an
  authoritative source.
\<close>

theorem decision_application:
  assumes "reachable_store s" "ss_open s" "candidate_ok (vd_candidate d)" "instant_ok (su_now u)"
  shows "\<exists>out s'. validation_apply u d s = Some (out, s') \<and> reachable_store s' \<and>
    (case out of Inl e \<Rightarrow> s' = s | Inr a \<Rightarrow> applied_result u d s s' a)"
proof -
  obtain out s' where a: "validation_apply u d s = Some (out, s')"
    "case out of Inl e \<Rightarrow> s' = s | Inr a \<Rightarrow> applied_result u d s s' a" "s' = s \<or> memory_step s s'"
    using apply_outcome [OF opened_reachable [OF assms(1,2)] assms(3,4)] by metis
  have "reachable_store s'"
    using a(3) assms(1) unfolding reachable_store_def by (metis rtranclp.rtrancl_into_rtrancl)
  with a(1,2) show ?thesis by blast
qed

text \<open>The juice is new to an empty store.\<close>

definition juice_decision :: validation_decision where
  "juice_decision = projr (the (validation_evaluate juice new_store))"

definition owner_drink :: identity where
  "owner_drink = \<lparr>ni_memory_type = Preference, ni_subject = ''owner'', ni_predicate = ''drink''\<rparr>"

definition juice_memory :: memory_record where
  "juice_memory = \<lparr>mr_memory_id = 2, mr_memory_type = Preference, mr_subject = ''owner'',
     mr_predicate = ''drink'', mr_value = PStr ''juice'', mr_provenance = owner_says,
     mr_confidence = PFloat (Finite ''1.0''), mr_observed_at = day_at 9, mr_created_at = day_at 9,
     mr_status = Active, mr_status_changed_at = day_at 9, mr_supersedes = None, mr_revision_reason = None,
     mr_status_reason = None, mr_metadata = [(KStr ''ayyo_memory_validation'', obj
       [(''decision'', PStr ''accept_new''), (''normalized_predicate'', PStr ''drink''),
        (''normalized_subject'', PStr ''owner''), (''original_predicate'', PStr ''drink ''),
        (''original_subject'', PStr '' owner''), (''policy_version'', PInt 1),
        (''reason_code'', PStr ''no_active_memory'')])]\<rparr>"

lemma juice_parts:
  "candidate_metadata juice = Inr (PDict [])" "candidate_value juice = Inr (PStr ''juice'')"
  "candidate_provenance juice = Inr owner_says" "cd_subject juice = '' owner''" "cd_predicate juice = ''drink ''"
  "cd_confidence juice = Finite ''1.0''" "cd_observed_at juice = day_at 9"
  by code_simp+

lemma juice_memory_row: "memory_row juice_memory = Inr (row_of juice_memory)"
proof (rule row_of_Inr)
  have "check_memory_record juice_memory = Inr juice_memory" by code_simp
  then show "memory_record_ok juice_memory" by (simp add: check_memory_record_Inr)
  have "1 < int_str_limit" unfolding int_str_limit_def by (rule one_less_power) simp_all
  then show "printable_record juice_memory"
    by (simp add: printable_record_def juice_memory_def owner_says_def obj_def)
qed

lemma juice_created:
  "create_memory (at_hour 9 2 200) Preference ''owner'' ''drink'' (PStr ''juice'') owner_says
     (PFloat (Finite ''1.0'')) (day_at 9) (Some (mr_metadata juice_memory)) new_store =
   (Inr juice_memory, new_store\<lparr>ss_database := \<lparr>db_memories = [row_of juice_memory], db_conflicts = []\<rparr>\<rparr>)"
proof -
  have new: "new_memory (at_hour 9 2 200) Preference ''owner'' ''drink'' (PStr ''juice'') owner_says
      (PFloat (Finite ''1.0'')) (day_at 9) (Some (mr_metadata juice_memory)) = Inr juice_memory"
    by code_simp
  have "mr_status juice_memory = Active" "mr_supersedes juice_memory = None" "mr_revision_reason juice_memory = None"
    "mr_status_reason juice_memory = None" "mr_value juice_memory = PStr ''juice''"
    by (simp_all add: juice_memory_def)
  then show ?thesis
    by (simp add: create_memory_def checked_def new add_memory_def transaction_def with_connection_def
        insert_memory_def juice_memory_row insert_memory_row_def memory_ids_def revision_check_def
        status_check_def create_unresolved_conflicts_def canonical_json_def as_persistence_conflict_def new_store_def)
qed

lemma new_store_open: "ss_open new_store"
  by (simp add: new_store_def)

lemma target_juice: "cd_target juice = None"
  using mk_candidate_ok(3) [OF example_candidates(1)] owner_says_ok by simp

lemma juice_decision:
  "validation_evaluate juice new_store = Some (Inr juice_decision)" "vd_type juice_decision = AcceptNew"
  "vd_reason juice_decision = NoActiveMemory" "vd_candidate juice_decision = juice"
  "vd_identity juice_decision = owner_drink" "vd_permitted juice_decision"
proof -
  have ident: "candidate_identity juice = Inr owner_drink" by (simp only: example_verdicts(3) owner_drink_def)
  have verdict: "expected_verdict juice owner_drink new_store = (AcceptNew, NoActiveMemory)"
    by (simp add: expected_verdict_def policy_verdict_def Let_def new_store_def state_of_def target_juice)
  obtain d where d: "validation_evaluate juice new_store = Some (Inr d)"
    "(vd_type d, vd_reason d) = expected_verdict juice owner_drink new_store" "vd_identity d = owner_drink"
    "vd_candidate d = juice" "vd_permitted d = permits (vd_type d) (vd_reason d)"
    by (rule evaluation_table [OF opened_reachable [OF drinks_reachable(1) new_store_open]
      example_candidates_ok(1) ident])
  have e: "juice_decision = d" by (simp add: juice_decision_def d(1))
  show "validation_evaluate juice new_store = Some (Inr juice_decision)" unfolding e by (rule d(1))
  show type: "vd_type juice_decision = AcceptNew" "vd_reason juice_decision = NoActiveMemory"
    using d(2) unfolding e verdict by simp_all
  show "vd_candidate juice_decision = juice" "vd_identity juice_decision = owner_drink"
    unfolding e by (rule d(4), rule d(3))
  show "vd_permitted juice_decision" using d(5) type unfolding e by (simp add: permits_def)
qed

lemma nine_ok: "instant_ok (su_now (at_hour 9 2 200))"
  by (simp add: at_hour_def)

lemma juice_candidate: "candidate_ok (vd_candidate juice_decision)"
  by (simp add: juice_decision(4) example_candidates_ok(1))

lemma juice_applied:
  obtains a s' where "validation_apply (at_hour 9 2 200) juice_decision new_store = Some (Inr a, s')" "ar_mutated a"
proof -
  have args: "mutation_arguments juice_decision = Inr (mr_metadata juice_memory, PStr ''juice'', owner_says)"
    by (simp add: mutation_arguments_def persistence_metadata_def juice_decision juice_parts owner_drink_def
        juice_memory_def validation_metadata_key_def validation_policy_version_def Let_def)
  have run: "perform_mutation (at_hour 9 2 200) juice_decision new_store = (Inr juice_memory,
      new_store\<lparr>ss_database := \<lparr>db_memories = [row_of juice_memory], db_conflicts = []\<rparr>\<rparr>)"
    unfolding juice_created [symmetric]
    by (simp add: perform_mutation_def checked_def Let_def args juice_decision juice_parts owner_drink_def)
  have e: "validation_evaluate (vd_candidate juice_decision) new_store = Some (Inr juice_decision)"
    by (simp only: juice_decision(1,4))
  note eff = perform_effect [OF opened_reachable [OF drinks_reachable(1) new_store_open] juice_candidate e
      juice_decision(6) nine_ok run]
  show thesis
    using that validation_apply_unfold [OF e, of "at_hour 9 2 200"] run eff(4)
    by (simp add: juice_decision(2,6))
qed

lemma decision_application_witness:
  "\<exists>a s'. validation_apply (at_hour 9 2 200) juice_decision new_store = Some (Inr a, s') \<and> ar_mutated a \<and>
     applied_result (at_hour 9 2 200) juice_decision new_store s' a"
proof -
  obtain a s' where a: "validation_apply (at_hour 9 2 200) juice_decision new_store = Some (Inr a, s')" "ar_mutated a"
    by (rule juice_applied)
  from decision_application [OF drinks_reachable(1) new_store_open juice_candidate nine_ok] a show ?thesis
    by auto
qed

text \<open>
  C28. A decision about a well-formed candidate is applied at most once. After an application that changed a
  reachable open store, applying the same decision again, whatever the clock says then, changes nothing and returns an active memory with the value and the identity of the
  candidate: the evaluation now finds a duplicate, or that the correction is already applied.
\<close>

theorem application_once:
  assumes "reachable_store s" "ss_open s" "candidate_ok (vd_candidate d)" "instant_ok (su_now u)"
    and "validation_apply u d s = Some (Inr a, s')" "ar_mutated a"
  shows "\<exists>b r. validation_apply u' d s' = Some (Inr b, s') \<and> \<not> ar_mutated b \<and>
    vd_type (ar_decision b) = ExactDuplicate \<and> ar_memory b = Some r \<and>
    r \<in> set (st_records (memory_state s')) \<and> holds_candidate (vd_candidate d) (vd_identity (ar_decision b)) r"
proof -
  obtain b where "validation_apply u' d s' = Some (Inr b, s')" "\<not> ar_mutated b" "applied_result u' d s' s' b"
    using apply_mutation_again [OF opened_reachable [OF assms(1,2)] assms(3-6)] by blast
  then show ?thesis by (auto simp: applied_result_def)
qed

lemma application_once_witness:
  "\<exists>a s' b. validation_apply (at_hour 9 2 200) juice_decision new_store = Some (Inr a, s') \<and> ar_mutated a \<and>
     validation_apply (at_hour 10 3 300) juice_decision s' = Some (Inr b, s') \<and> \<not> ar_mutated b"
proof -
  obtain a s' where a: "validation_apply (at_hour 9 2 200) juice_decision new_store = Some (Inr a, s')" "ar_mutated a"
    by (rule juice_applied)
  from application_once [OF drinks_reachable(1) new_store_open juice_candidate nine_ok a] a show ?thesis
    by blast
qed

end
