(* ===== verification/Json_Bounded.thy ===== *)
theory Json_Bounded
  imports Json_Bounds
begin

text \<open>
  The JSON values of the packages after the Safety Kernel (\<open>skill_manager/canonical.py\<close>): a second
  validation loop with limits on the size of a collection and the bits of an integer, and the copy and
  the canonical text of what it accepts.
\<close>

record bounded_limits = json_limits +
  max_collection :: nat
  max_integer_bits :: nat

definition too_many_bits :: "nat \<Rightarrow> int \<Rightarrow> bool" where
  "too_many_bits n i = (2 ^ n \<le> \<bar>i\<bar>)"

text \<open>The members of a container are visited at once after it, so the counters run through the tree.\<close>

fun check_bounded :: "bounded_limits \<Rightarrow> 'e \<Rightarrow> nat \<Rightarrow> pyval \<Rightarrow> nat \<times> nat \<Rightarrow> 'e + nat \<times> nat"
and check_bounded_list :: "bounded_limits \<Rightarrow> 'e \<Rightarrow> nat \<Rightarrow> pyval list \<Rightarrow> nat \<times> nat \<Rightarrow> 'e + nat \<times> nat"
and check_bounded_items ::
  "bounded_limits \<Rightarrow> 'e \<Rightarrow> nat \<Rightarrow> (pykey \<times> pyval) list \<Rightarrow> nat \<times> nat \<Rightarrow> 'e + nat \<times> nat"
where
  "check_bounded L e d v (nodes, chars) =
     raise_if (max_nodes L < Suc nodes) e
    (raise_if (max_depth L < d) e
    (case v of
       PStr s \<Rightarrow>
         raise_if (max_characters L < chars + length s) e
        (raise_if (\<not> utf8_encodable s) e (Inr (Suc nodes, chars + length s)))
     | PNone \<Rightarrow> Inr (Suc nodes, chars)
     | PBool b \<Rightarrow> Inr (Suc nodes, chars)
     | PInt i \<Rightarrow> raise_if (too_many_bits (max_integer_bits L) i) e (Inr (Suc nodes, chars))
     | PFloat x \<Rightarrow> raise_if (x = NonFinite) e (Inr (Suc nodes, chars))
     | PList vs \<Rightarrow>
         raise_if (max_collection L < length vs) e
        (check_bounded_list L e (Suc d) vs (Suc nodes, chars))
     | PDict kvs \<Rightarrow>
         raise_if (max_collection L < length kvs) e
        (raise_if (KOther \<in> set (map fst kvs)) e
        (tryE (check_keys (json_limits.truncate L) e (map fst kvs) chars) (\<lambda>chars'.
          check_bounded_items L e (Suc d) kvs (Suc nodes, chars'))))
     | POther \<Rightarrow> Inl e))"
| "check_bounded_list L e d [] c = Inr c"
| "check_bounded_list L e d (v # vs) c =
     tryE (check_bounded L e d v c) (\<lambda>c'. check_bounded_list L e d vs c')"
| "check_bounded_items L e d [] c = Inr c"
| "check_bounded_items L e d ((k, v) # kvs) c =
     tryE (check_bounded L e d v c) (\<lambda>c'. check_bounded_items L e d kvs c')"

declare check_bounded.simps [simp del]

definition validate_bounded :: "bounded_limits \<Rightarrow> 'e \<Rightarrow> pyval \<Rightarrow> 'e + unit" where
  "validate_bounded L e v = tryE (check_bounded L e 0 v (0, 0)) (\<lambda>_. Inr ())"

text \<open>A copy of a tree is the tree, and the printer is the one of the Executive.\<close>

definition bounded_copy :: "bounded_limits \<Rightarrow> 'e \<Rightarrow> pyval \<Rightarrow> 'e + pyval" where
  "bounded_copy L e v = tryE (validate_bounded L e v) (\<lambda>_. Inr v)"

definition bounded_canonicalize :: "bounded_limits \<Rightarrow> 'e \<Rightarrow> pyval \<Rightarrow> 'e + string" where
  "bounded_canonicalize L e v =
     tryE (validate_bounded L e v) (\<lambda>_. Inr (canon_loop [Value v] []))"

section \<open>What is accepted\<close>

fun contents_ok :: "nat \<Rightarrow> nat \<Rightarrow> pyval \<Rightarrow> bool" where
  "contents_ok n b (PInt i) = (\<not> too_many_bits b i)"
| "contents_ok n b (PFloat x) = (x \<noteq> NonFinite)"
| "contents_ok n b (PList vs) = (length vs \<le> n \<and> list_all (contents_ok n b) vs)"
| "contents_ok n b (PDict kvs) =
     (length kvs \<le> n \<and> KOther \<notin> set (map fst kvs) \<and> list_all (\<lambda>kv. contents_ok n b (snd kv)) kvs)"
| "contents_ok n b POther = False"
| "contents_ok n b _ = True"

definition bounded_within ::
  "bounded_limits \<Rightarrow> nat \<Rightarrow> pyval list \<Rightarrow> nat \<times> nat \<Rightarrow> nat \<times> nat \<Rightarrow> bool" where
  "bounded_within L d vs c c' \<longleftrightarrow>
     c' = (fst c + sum_list (map node_count vs), snd c + sum_list (map char_count vs)) \<and>
     fst c' \<le> max_nodes L \<and> snd c' \<le> max_characters L \<and>
     list_all (contents_ok (max_collection L) (max_integer_bits L)) vs \<and>
     (vs = [] \<or> (d \<le> max_depth L \<and> list_all (depth_within (max_depth L - d)) vs))"

lemma bounded_within_Cons:
  "bounded_within L d (v # vs) c c' \<longleftrightarrow> (\<exists>m. bounded_within L d [v] c m \<and> bounded_within L d vs m c')"
  by (auto simp: bounded_within_def)

lemma bounded_error:
  "check_bounded L e d v c = Inl x \<Longrightarrow> x = e"
  "check_bounded_list L e d vs c = Inl x \<Longrightarrow> x = e"
  "check_bounded_items L e d kvs c = Inl x \<Longrightarrow> x = e"
proof (induction L e d v c and L e d vs c and L e d kvs c
    rule: check_bounded_check_bounded_list_check_bounded_items.induct)
  case (1 L e d v nodes chars)
  then show ?case
    by (auto simp: check_bounded.simps [of L e d v] res_simps Let_def
        split: if_splits pyval.splits dest: check_keys_error)
qed (auto simp: res_simps)

lemma truncated_limits [simp]: "max_characters (json_limits.truncate L) = max_characters L"
  by (simp add: json_limits.truncate_def)

lemma check_bounded_within:
  "fst c \<le> max_nodes L \<Longrightarrow> snd c \<le> max_characters L \<Longrightarrow>
     check_bounded L e d v c = Inr c' \<longleftrightarrow> bounded_within L d [v] c c'"
  "fst c \<le> max_nodes L \<Longrightarrow> snd c \<le> max_characters L \<Longrightarrow>
     check_bounded_list L e d vs c = Inr c' \<longleftrightarrow> bounded_within L d vs c c'"
  "fst c \<le> max_nodes L \<Longrightarrow> snd c \<le> max_characters L \<Longrightarrow>
     check_bounded_items L e d kvs c = Inr c' \<longleftrightarrow> bounded_within L d (map snd kvs) c c'"
proof (induction L e d v c and L e d vs c and L e d kvs c arbitrary: c' and c' and c'
    rule: check_bounded_check_bounded_list_check_bounded_items.induct)
  case (1 L e d v nodes chars)
  obtain n k where c': "c' = (n, k)" by (cases c')
  show ?case
  proof (cases v)
    case (PDict kvs)
    have chars: "sum_list (map (\<lambda>kv. length (key_str (fst kv)) + char_count (snd kv)) kvs) =
        sum_list (map (\<lambda>kv. length (key_str (fst kv))) kvs) +
        sum_list (map (\<lambda>kv. char_count (snd kv)) kvs)"
      by (simp add: sum_list_addf)
    let ?c = "chars + sum_list (map (\<lambda>k. length (key_str k)) (map fst kvs))"
    have "check_bounded L e d v (nodes, chars) = Inr c' \<longleftrightarrow>
        Suc nodes \<le> max_nodes L \<and> d \<le> max_depth L \<and> length kvs \<le> max_collection L \<and>
        KOther \<notin> set (map fst kvs) \<and> ?c \<le> max_characters L \<and>
        bounded_within L (Suc d) (map snd kvs) (Suc nodes, ?c) c'"
      using 1 by (auto simp: c' PDict check_bounded.simps [of L e d "PDict kvs"] res_simps not_less
          check_keys_Inr)
    also have "\<dots> \<longleftrightarrow> bounded_within L d [v] (nodes, chars) c'"
      using PDict by (auto simp: bounded_within_def chars o_def list_all_iff)
    finally show ?thesis .
  qed (use 1 in \<open>auto simp: check_bounded.simps [of L e d] res_simps not_less bounded_within_def c'\<close>)
next
  case (3 L e d v vs c)
  have "check_bounded_list L e d (v # vs) c = Inr c' \<longleftrightarrow>
      (\<exists>m. bounded_within L d [v] c m \<and> check_bounded_list L e d vs m = Inr c')"
    using "3.IH"(1) [OF "3.prems"] by (simp add: tryE_Inr)
  also have "\<dots> \<longleftrightarrow> (\<exists>m. bounded_within L d [v] c m \<and> bounded_within L d vs m c')"
  proof -
    have "check_bounded_list L e d vs m = Inr c' \<longleftrightarrow> bounded_within L d vs m c'"
      if m: "bounded_within L d [v] c m" for m
      using "3.IH"(1) [OF "3.prems", of m] m by (intro "3.IH"(2)) (auto simp: bounded_within_def)
    then show ?thesis by blast
  qed
  finally show ?case by (simp only: bounded_within_Cons [of L d v vs])
next
  case (5 L e d k v kvs c)
  have "check_bounded_items L e d ((k, v) # kvs) c = Inr c' \<longleftrightarrow>
      (\<exists>m. bounded_within L d [v] c m \<and> check_bounded_items L e d kvs m = Inr c')"
    using "5.IH"(1) [OF "5.prems"] by (simp add: tryE_Inr)
  also have "\<dots> \<longleftrightarrow> (\<exists>m. bounded_within L d [v] c m \<and> bounded_within L d (map snd kvs) m c')"
  proof -
    have "check_bounded_items L e d kvs m = Inr c' \<longleftrightarrow> bounded_within L d (map snd kvs) m c'"
      if m: "bounded_within L d [v] c m" for m
      using "5.IH"(1) [OF "5.prems", of m] m by (intro "5.IH"(2)) (auto simp: bounded_within_def)
    then show ?thesis by blast
  qed
  finally show ?case by (simp only: bounded_within_Cons [of L d v "map snd kvs"] list.map snd_conv)
qed (auto simp: bounded_within_def)

definition bounded_ok :: "bounded_limits \<Rightarrow> pyval \<Rightarrow> bool" where
  "bounded_ok L v \<longleftrightarrow>
     contents_ok (max_collection L) (max_integer_bits L) v \<and> node_count v \<le> max_nodes L \<and>
     char_count v \<le> max_characters L \<and> depth_within (max_depth L) v"

lemma validate_bounded_eq: "validate_bounded L e v = (if bounded_ok L v then Inr () else Inl e)"
proof (cases "check_bounded L e 0 v (0, 0)")
  case (Inl x)
  then have "x = e" by (rule bounded_error(1))
  moreover have "\<not> bounded_ok L v"
  proof
    assume "bounded_ok L v"
    then have "check_bounded L e 0 v (0, 0) = Inr (node_count v, char_count v)"
      by (subst check_bounded_within(1)) (auto simp: bounded_within_def bounded_ok_def)
    with Inl show False by simp
  qed
  ultimately show ?thesis using Inl by (simp add: validate_bounded_def)
next
  case (Inr c)
  then have "bounded_within L 0 [v] (0, 0) c" using check_bounded_within(1) [of "(0, 0)" L e 0 v c] by simp
  with Inr show ?thesis by (auto simp: validate_bounded_def bounded_within_def bounded_ok_def)
qed

lemma bounded_copy_eq [simp]: "bounded_copy L e v = (if bounded_ok L v then Inr v else Inl e)"
  by (simp add: bounded_copy_def validate_bounded_eq)

lemma bounded_canonicalize_eq:
  "bounded_canonicalize L e v = (if bounded_ok L v then Inr (canon v) else Inl e)"
  by (simp add: bounded_canonicalize_def validate_bounded_eq canon_loop_render)

end
