(* ===== verification/Skill_Schema.thy ===== *)
theory Skill_Schema
  imports Json_Bounded Py_Numbers Exec_Service
begin

text \<open>
  The texts and the value schemas of the Skill Manager (\<open>skill_manager/models.py\<close>, \<open>canonical.py\<close>,
  \<open>schema.py\<close>). A schema is a finite tree: schemas are immutable and built from schemas that exist, so
  none contains itself, and the set of active schemas of the validation loop never rejects one.
\<close>

abbreviation invalid_schema :: exn where
  "invalid_schema \<equiv> SkillExn InvalidSchemaError"

abbreviation invalid_skill :: exn where
  "invalid_skill \<equiv> SkillExn InvalidSkillDefinitionError"

abbreviation invalid_skill_parameters :: exn where
  "invalid_skill_parameters \<equiv> SkillExn InvalidSkillParametersError"

abbreviation skill_invariant :: exn where
  "skill_invariant \<equiv> SkillExn SkillInvocationInvariantError"

definition skill_json_limits :: bounded_limits where
  "skill_json_limits = \<lparr>max_depth = 32, max_nodes = 4096, max_characters = 1000000,
     max_collection = 256, max_integer_bits = 1024\<rparr>"

definition skill_canonicalize :: "exn \<Rightarrow> pyval \<Rightarrow> string res" where
  "skill_canonicalize e v = bounded_canonicalize skill_json_limits e v"

definition skill_copy :: "exn \<Rightarrow> pyval \<Rightarrow> pyval res" where
  "skill_copy e v = bounded_copy skill_json_limits e v"

section \<open>Texts, identifiers and versions\<close>

definition skill_text :: "exn \<Rightarrow> string \<Rightarrow> string res" where
  "skill_text e s =
     raise_if (s = [] \<or> py_strip s = []) e
    (raise_if (s \<noteq> py_strip s) e
    (raise_if (16384 < length s) e
    (raise_if (\<not> utf8_encodable s) e (Inr s))))"

definition lower_alnum :: "char \<Rightarrow> bool" where
  "lower_alnum c = (let n = code_point c in (48 \<le> n \<and> n \<le> 57) \<or> (97 \<le> n \<and> n \<le> 122))"

text \<open>\<open>[a-z0-9]+(?:[._-][a-z0-9]+)*\<close>: the flag says whether the text may end here.\<close>

fun identifier_matches :: "bool \<Rightarrow> string \<Rightarrow> bool" where
  "identifier_matches ends [] = ends"
| "identifier_matches ends (c # s) =
     (if lower_alnum c then identifier_matches True s
      else ends \<and> c \<in> {CHR ''.'', CHR ''_'', CHR ''-''} \<and> identifier_matches False s)"

definition skill_identifier :: "exn \<Rightarrow> string \<Rightarrow> string res" where
  "skill_identifier e s =
     tryE (skill_text e s) (\<lambda>text.
     raise_if (256 < length text \<or> \<not> identifier_matches False text) e (Inr text))"

text \<open>\<open>s.partition(c)\<close> with \<open>None\<close> when the separator is absent, and \<open>s.split(".")\<close>.\<close>

definition split_first :: "char \<Rightarrow> string \<Rightarrow> string \<times> string option" where
  "split_first c s =
     (takeWhile (\<lambda>x. x \<noteq> c) s, if c \<in> set s then Some (tl (dropWhile (\<lambda>x. x \<noteq> c) s)) else None)"

fun split_dots :: "string \<Rightarrow> string list" where
  "split_dots [] = [[]]"
| "split_dots (c # s) =
     (if c = CHR ''.'' then [] # split_dots s else (c # hd (split_dots s)) # tl (split_dots s))"

definition version_number :: "string \<Rightarrow> bool" where
  "version_number s = (s = ''0'' \<or> s \<noteq> [] \<and> list_all is_digit s \<and> hd s \<noteq> CHR ''0'')"

definition version_label :: "string \<Rightarrow> bool" where
  "version_label s =
     (s \<noteq> [] \<and> list_all (\<lambda>c. is_digit c \<or> c = CHR ''-'' \<or>
        (let n = code_point c in (65 \<le> n \<and> n \<le> 90) \<or> (97 \<le> n \<and> n \<le> 122))) s)"

definition version_labels :: "string option \<Rightarrow> bool" where
  "version_labels labels = (case labels of None \<Rightarrow> True | Some s \<Rightarrow> list_all version_label (split_dots s))"

text \<open>\<open>_SEMVER_PATTERN.fullmatch\<close>: the prerelease group of a match.\<close>

definition version_match :: "string \<Rightarrow> string option option" where
  "version_match s =
     (let (front, build) = split_first (CHR ''+'') s; (core, prerelease) = split_first (CHR ''-'') front in
      if length (split_dots core) = 3 \<and> list_all version_number (split_dots core) \<and>
         version_labels prerelease \<and> version_labels build
      then Some prerelease else None)"

type_synonym semantic_version = string

definition mk_semantic_version :: "string \<Rightarrow> semantic_version res" where
  "mk_semantic_version s =
     tryE (skill_text invalid_skill s) (\<lambda>_.
     case version_match s of
       None \<Rightarrow> Inl invalid_skill
     | Some None \<Rightarrow> Inr s
     | Some (Some prerelease) \<Rightarrow>
         tryE (for_each (\<lambda>label.
             raise_if (list_all is_digit label \<and> 1 < length label \<and> hd label = CHR ''0'') invalid_skill (Inr ()))
           (split_dots prerelease)) (\<lambda>_. Inr s))"

section \<open>Schemas\<close>

datatype value_type = VtString | VtInteger | VtNumber | VtBoolean | VtNull | VtArray | VtObject

fun value_type_value :: "value_type \<Rightarrow> string" where
  "value_type_value VtString = ''string''"
| "value_type_value VtInteger = ''integer''"
| "value_type_value VtNumber = ''number''"
| "value_type_value VtBoolean = ''boolean''"
| "value_type_value VtNull = ''null''"
| "value_type_value VtArray = ''array''"
| "value_type_value VtObject = ''object''"

datatype value_schema =
    ValueSchema (vs_type: value_type) (vs_nullable: bool) (vs_properties: "schema_property list")
      (vs_item: "value_schema option") (vs_additional: bool) (vs_allowed: "pyval list")
      (vs_minimum: "pyval option") (vs_maximum: "pyval option")
      (vs_min_length: "int option") (vs_max_length: "int option")
      (vs_min_items: "int option") (vs_max_items: "int option")
and schema_property =
    SchemaProperty (pr_name: string) (pr_schema: value_schema) (pr_required: bool)

definition mk_schema_property :: "string \<Rightarrow> value_schema \<Rightarrow> bool \<Rightarrow> schema_property res" where
  "mk_schema_property name schema required =
     tryE (skill_identifier invalid_schema name) (\<lambda>_. Inr (SchemaProperty name schema required))"

fun matches_scalar :: "pyval \<Rightarrow> value_type \<Rightarrow> bool \<Rightarrow> bool" where
  "matches_scalar PNone t nullable = (nullable \<or> t = VtNull)"
| "matches_scalar (PStr s) t nullable = (t = VtString)"
| "matches_scalar (PInt i) t nullable = (t = VtInteger \<or> t = VtNumber)"
| "matches_scalar (PFloat x) t nullable = (t = VtNumber)"
| "matches_scalar (PBool b) t nullable = (t = VtBoolean)"
| "matches_scalar v t nullable = False"

fun is_scalar :: "pyval \<Rightarrow> bool" where
  "is_scalar (PList vs) = False"
| "is_scalar (PDict kvs) = False"
| "is_scalar POther = False"
| "is_scalar v = True"

fun finite_number :: "pyval \<Rightarrow> bool" where
  "finite_number (PInt i) = True"
| "finite_number (PFloat x) = (x \<noteq> NonFinite)"
| "finite_number v = False"

definition exceeds :: "int option \<Rightarrow> int option \<Rightarrow> bool" where
  "exceeds low high = (case (low, high) of (Some a, Some b) \<Rightarrow> b < a | _ \<Rightarrow> False)"

text \<open>The canonical keys of the allowed values, and the values in the order of the keys.\<close>

definition allowed_tuple :: "value_type \<Rightarrow> bool \<Rightarrow> pyval list \<Rightarrow> pyval list res" where
  "allowed_tuple t nullable allowed =
     raise_if (list_ex (\<lambda>v. \<not> is_scalar v) allowed) invalid_schema
    (tryE (for_each (\<lambda>v.
         raise_if (v = PFloat NonFinite) invalid_schema
        (raise_if (\<not> matches_scalar v t nullable) invalid_schema (Inr ()))) allowed) (\<lambda>_.
     tryE (traverse (\<lambda>v. skill_canonicalize invalid_schema v) allowed) (\<lambda>keys.
     raise_if (has_dup keys) invalid_schema
    (Inr (map snd (sort_key fst (zip keys allowed)))))))"

definition mk_value_schema ::
  "value_type \<Rightarrow> bool \<Rightarrow> schema_property list \<Rightarrow> value_schema option \<Rightarrow> bool \<Rightarrow> pyval list \<Rightarrow>
   pyval option \<Rightarrow> pyval option \<Rightarrow> int option \<Rightarrow> int option \<Rightarrow> int option \<Rightarrow> int option \<Rightarrow>
   value_schema res" where
  "mk_value_schema t nullable properties item additional allowed minimum maximum
     min_length max_length min_items max_items =
     raise_if (128 < length properties) invalid_schema
    (let properties = sort_key pr_name properties in
     raise_if (has_dup (map pr_name properties)) invalid_schema
    (tryE (allowed_tuple t nullable allowed) (\<lambda>allowed.
     raise_if (list_ex (\<lambda>b. case b of None \<Rightarrow> False | Some v \<Rightarrow> \<not> finite_number v) [minimum, maximum])
       invalid_schema
    (raise_if (list_ex (\<lambda>b. case b of None \<Rightarrow> False | Some n \<Rightarrow> n < 0)
         [min_length, max_length, min_items, max_items]) invalid_schema
    (raise_if (case (minimum, maximum) of (Some a, Some b) \<Rightarrow> number_less b a | _ \<Rightarrow> False) invalid_schema
    (raise_if (exceeds min_length max_length) invalid_schema
    (raise_if (exceeds min_items max_items) invalid_schema
    (raise_if (exceeds max_length (Some 65536)) invalid_schema
    (raise_if (exceeds max_items (Some 256)) invalid_schema
    (let no_numeric = (minimum = None \<and> maximum = None);
         no_length = (min_length = None \<and> max_length = None);
         no_items = (min_items = None \<and> max_items = None) in
     tryE (case t of
         VtObject \<Rightarrow>
           raise_if (item \<noteq> None \<or> \<not> no_numeric \<or> \<not> no_length \<or> \<not> no_items \<or> allowed \<noteq> [])
             invalid_schema (Inr ())
       | VtArray \<Rightarrow>
           raise_if (item = None) invalid_schema
          (raise_if (properties \<noteq> [] \<or> additional \<or> \<not> no_numeric \<or> \<not> no_length \<or> allowed \<noteq> [])
             invalid_schema (Inr ()))
       | _ \<Rightarrow>
           raise_if (properties \<noteq> [] \<or> item \<noteq> None \<or> additional) invalid_schema
          (raise_if (if t = VtString then \<not> no_numeric \<or> \<not> no_items
                     else if t = VtInteger \<or> t = VtNumber then \<not> no_length \<or> \<not> no_items
                     else \<not> no_numeric \<or> \<not> no_length \<or> \<not> no_items) invalid_schema (Inr ()))) (\<lambda>_.
     raise_if (t = VtNull \<and> nullable) invalid_schema
    (Inr (ValueSchema t nullable properties item additional allowed minimum maximum
            min_length max_length min_items max_items)))))))))))))"

section \<open>Bounds of a schema\<close>

definition schema_children :: "value_schema \<Rightarrow> value_schema list" where
  "schema_children s =
     map pr_schema (vs_properties s) @ (case vs_item s of None \<Rightarrow> [] | Some i \<Rightarrow> [i])"

lemma size_property: "p \<in> set (vs_properties s) \<Longrightarrow> size (pr_schema p) < size s"
proof (cases s)
  case (ValueSchema t n ps i a al mi ma l1 l2 i1 i2)
  assume p: "p \<in> set (vs_properties s)"
  then have "size p \<le> size_list size ps" by (simp add: ValueSchema size_list_estimation')
  moreover have "size (pr_schema p) < size p" by (cases p) simp
  ultimately show ?thesis by (simp add: ValueSchema)
qed

lemma size_item: "vs_item s = Some i \<Longrightarrow> size i < size s"
  by (cases s) auto

lemma size_children: "sum_list (map size (schema_children s)) < size s"
proof (cases s)
  case (ValueSchema t n ps i a al mi ma l1 l2 i1 i2)
  have "sum_list (map (\<lambda>p. size (pr_schema p)) ps) \<le> size_list size ps"
  proof (induction ps)
    case (Cons p ps)
    have "size (pr_schema p) < size p" by (cases p) simp
    with Cons show ?case by simp
  qed simp
  then show ?thesis by (simp add: ValueSchema schema_children_def o_def split: option.splits)
qed

function schema_loop :: "'e \<Rightarrow> (value_schema \<times> nat) list \<Rightarrow> nat \<Rightarrow> 'e + unit" where
  "schema_loop e [] nodes = Inr ()"
| "schema_loop e ((s, d) # stack) nodes =
     raise_if (512 < Suc nodes) e
    (raise_if (16 < d) e
    (schema_loop e (map (\<lambda>c. (c, Suc d)) (schema_children s) @ stack) (Suc nodes)))"
  by pat_completeness auto
termination
  by (relation "measure (\<lambda>(e, stack, n). sum_list (map (size \<circ> fst) stack))")
    (use size_children in \<open>auto simp: o_def\<close>)

definition validate_graph :: "'e \<Rightarrow> value_schema \<Rightarrow> 'e + unit" where
  "validate_graph e s = schema_loop e [(s, 0)] 0"

definition validate_schema_graph :: "value_schema \<Rightarrow> unit res" where
  "validate_schema_graph s = validate_graph invalid_schema s"

function document_of_schema :: "'e \<Rightarrow> value_schema \<Rightarrow> 'e + pyval" where
  "document_of_schema e s =
     tryE (validate_graph e s) (\<lambda>_.
     tryE (case vs_item s of None \<Rightarrow> Inr PNone | Some i \<Rightarrow> document_of_schema e i) (\<lambda>item.
     tryE (traverse (\<lambda>p. tryE (document_of_schema e (pr_schema p)) (\<lambda>doc.
         Inr (obj [(''name'', PStr (pr_name p)), (''required'', PBool (pr_required p)), (''schema'', doc)])))
       (vs_properties s)) (\<lambda>properties.
     Inr (obj [
       (''allow_additional_properties'', PBool (vs_additional s)),
       (''allowed_values'', PList (vs_allowed s)),
       (''item_schema'', item),
       (''max_items'', (case vs_max_items s of None \<Rightarrow> PNone | Some n \<Rightarrow> PInt n)),
       (''max_length'', (case vs_max_length s of None \<Rightarrow> PNone | Some n \<Rightarrow> PInt n)),
       (''maximum'', (case vs_maximum s of None \<Rightarrow> PNone | Some v \<Rightarrow> v)),
       (''min_items'', (case vs_min_items s of None \<Rightarrow> PNone | Some n \<Rightarrow> PInt n)),
       (''min_length'', (case vs_min_length s of None \<Rightarrow> PNone | Some n \<Rightarrow> PInt n)),
       (''minimum'', (case vs_minimum s of None \<Rightarrow> PNone | Some v \<Rightarrow> v)),
       (''nullable'', PBool (vs_nullable s)),
       (''properties'', PList properties),
       (''value_type'', PStr (value_type_value (vs_type s)))]))))"
  by pat_completeness auto
termination by (relation "measure (\<lambda>(e, s). size s)") (auto simp: size_property size_item)

declare document_of_schema.simps [simp del]

definition schema_document :: "value_schema \<Rightarrow> pyval res" where
  "schema_document s = document_of_schema invalid_schema s"

section \<open>What the loops accept\<close>

lemma skill_canonicalize_eq:
  "skill_canonicalize e v = (if bounded_ok skill_json_limits v then Inr (canon v) else Inl e)"
  by (simp add: skill_canonicalize_def bounded_canonicalize_eq)

lemma skill_copy_eq [simp]: "skill_copy e v = (if bounded_ok skill_json_limits v then Inr v else Inl e)"
  by (simp add: skill_copy_def)

lemma skill_text_eq [simp]: "skill_text e s = (if text_ok s then Inr s else Inl e)"
  by (auto simp: skill_text_def text_ok_def exact_text_ok_def max_text_length_def raise_if_def)

definition skill_identifier_ok :: "string \<Rightarrow> bool" where
  "skill_identifier_ok s \<longleftrightarrow> text_ok s \<and> length s \<le> 256 \<and> identifier_matches False s"

lemma skill_identifier_eq [simp]: "skill_identifier e s = (if skill_identifier_ok s then Inr s else Inl e)"
  by (auto simp: skill_identifier_def skill_identifier_ok_def raise_if_def)

text \<open>The nodes and the depth of a schema.\<close>

function schema_nodes :: "value_schema \<Rightarrow> nat" where
  "schema_nodes s =
     Suc (sum_list (map (\<lambda>p. schema_nodes (pr_schema p)) (vs_properties s)) +
          (case vs_item s of None \<Rightarrow> 0 | Some i \<Rightarrow> schema_nodes i))"
  by pat_completeness auto
termination by (relation "measure size") (auto simp: size_property size_item)

function schema_within :: "nat \<Rightarrow> value_schema \<Rightarrow> bool" where
  "schema_within d s \<longleftrightarrow>
     (\<forall>p \<in> set (vs_properties s). 0 < d \<and> schema_within (d - 1) (pr_schema p)) \<and>
     (case vs_item s of None \<Rightarrow> True | Some i \<Rightarrow> 0 < d \<and> schema_within (d - 1) i)"
  by pat_completeness auto
termination by (relation "measure (\<lambda>(d, s). size s)") (auto simp: size_property size_item)

declare schema_nodes.simps [simp del] schema_within.simps [simp del]

lemma schema_nodes_children: "schema_nodes s = Suc (sum_list (map schema_nodes (schema_children s)))"
  by (subst schema_nodes.simps) (simp add: schema_children_def o_def split: option.splits)

lemma schema_within_children:
  "schema_within d s \<longleftrightarrow> (\<forall>c \<in> set (schema_children s). 0 < d \<and> schema_within (d - 1) c)"
  by (subst schema_within.simps) (auto simp: schema_children_def split: option.splits)

lemma schema_loop_iff:
  "nodes \<le> 512 \<Longrightarrow> schema_loop e stack nodes = Inr () \<longleftrightarrow>
     nodes + sum_list (map schema_nodes (map fst stack)) \<le> 512 \<and>
     (\<forall>(s, d) \<in> set stack. d \<le> 16 \<and> schema_within (16 - d) s)"
proof (induction e stack nodes rule: schema_loop.induct)
  case (2 e s d stack nodes)
  let ?new = "map (\<lambda>c. (c, Suc d)) (schema_children s)"
  let ?ok = "\<lambda>(s, d). d \<le> 16 \<and> schema_within (16 - d) s"
  have new: "map fst ?new = schema_children s" by (simp add: o_def)
  have count: "sum_list (map schema_nodes (map fst (?new @ stack))) + 1 =
      sum_list (map schema_nodes (map fst ((s, d) # stack)))"
    unfolding map_append new by (simp add: schema_nodes_children [of s])
  show ?case
  proof (cases "Suc nodes \<le> 512 \<and> d \<le> 16")
    case True
    then have "schema_loop e ((s, d) # stack) nodes = schema_loop e (?new @ stack) (Suc nodes)"
      by (simp add: raise_if_def)
    moreover have "schema_loop e (?new @ stack) (Suc nodes) = Inr () \<longleftrightarrow>
        Suc nodes + sum_list (map schema_nodes (map fst (?new @ stack))) \<le> 512 \<and> list_all ?ok (?new @ stack)"
      unfolding list_all_iff using True by (intro "2.IH") auto
    moreover have "list_all ?ok ?new \<longleftrightarrow> schema_within (16 - d) s"
      using True schema_within_children [of "16 - d" s]
      by (auto simp: list_all_iff Suc_le_eq)
    ultimately have "schema_loop e ((s, d) # stack) nodes = Inr () \<longleftrightarrow>
        nodes + sum_list (map schema_nodes (map fst ((s, d) # stack))) \<le> 512 \<and> list_all ?ok ((s, d) # stack)"
      using True count by (auto simp del: map_append map_map)
    then show ?thesis by (simp add: list_all_iff)
  next
    case False
    have "0 < schema_nodes s" by (simp add: schema_nodes_children [of s])
    with False show ?thesis by (auto simp: raise_if_def)
  qed
qed simp

lemma schema_loop_error: "schema_loop e stack nodes = Inl x \<Longrightarrow> x = e"
  by (induction e stack nodes rule: schema_loop.induct) (auto simp: res_simps split: if_splits)

definition schema_ok :: "value_schema \<Rightarrow> bool" where
  "schema_ok s \<longleftrightarrow> schema_nodes s \<le> 512 \<and> schema_within 16 s"

lemma validate_graph_eq: "validate_graph e s = (if schema_ok s then Inr () else Inl e)"
proof (cases "schema_loop e [(s, 0)] 0")
  case (Inl x)
  then have "x = e" "\<not> schema_ok s"
    using schema_loop_error [OF Inl] schema_loop_iff [of 0 e "[(s, 0)]"] by (simp_all add: schema_ok_def)
  with Inl show ?thesis by (simp only: validate_graph_def if_False)
next
  case (Inr u)
  then have "schema_ok s" using schema_loop_iff [of 0 e "[(s, 0)]"] by (simp add: schema_ok_def)
  with Inr show ?thesis by (simp add: validate_graph_def del: schema_loop.simps)
qed

lemma validate_schema_eq: "validate_schema_graph s = (if schema_ok s then Inr () else Inl invalid_schema)"
  by (simp add: validate_schema_graph_def validate_graph_eq)

section \<open>Schema documents\<close>

lemma sum_list_member: "x \<in> set xs \<Longrightarrow> f x \<le> sum_list (map f xs)" for f :: "'a \<Rightarrow> nat"
  by (induction xs) auto

lemma schema_within_mono: "schema_within d s \<Longrightarrow> d \<le> e \<Longrightarrow> schema_within e s"
proof (induction d s arbitrary: e rule: schema_within.induct)
  case (1 d s)
  have "schema_within (e - 1) c" if c: "c \<in> set (schema_children s)" for c
  proof -
    have d: "0 < d" "schema_within (d - 1) c" using "1.prems"(1) c schema_within_children [of d s] by blast+
    from c consider p where "p \<in> set (vs_properties s)" "c = pr_schema p" | "vs_item s = Some c"
      by (auto simp: schema_children_def split: option.splits)
    then show ?thesis
      using d "1.prems"(2) by cases (auto intro: "1.IH")
  qed
  moreover have "0 < e" if "schema_children s \<noteq> []"
  proof -
    from that obtain c where "c \<in> set (schema_children s)" by (meson last_in_set)
    then show ?thesis using "1.prems" schema_within_children [of d s] by auto
  qed
  ultimately show ?case using schema_within_children [of e s] by force
qed

lemma schema_ok_child:
  assumes "schema_ok s" "c \<in> set (schema_children s)"
  shows "schema_ok c"
proof -
  have "schema_nodes c \<le> schema_nodes s"
    using sum_list_member [OF assms(2), of schema_nodes] schema_nodes_children [of s] by simp
  moreover have "schema_within 15 c" using assms schema_within_children [of 16 s] by (auto simp: schema_ok_def)
  then have "schema_within 16 c" by (rule schema_within_mono) simp
  ultimately show ?thesis using assms(1) by (simp add: schema_ok_def)
qed

lemma document_of_schema_total: "schema_ok s \<Longrightarrow> \<exists>doc. document_of_schema e s = Inr doc"
proof (induction s rule: measure_induct_rule [of size])
  case (less s)
  have valid: "validate_graph e s = Inr ()" using less.prems by (simp add: validate_graph_eq)
  have "\<exists>doc. document_of_schema e (pr_schema p) = Inr doc" if "p \<in> set (vs_properties s)" for p
    using that
    by (intro less.IH size_property schema_ok_child [OF less.prems]) (auto simp: schema_children_def)
  then have "\<exists>docs. traverse (\<lambda>p. tryE (document_of_schema e (pr_schema p)) (\<lambda>doc.
      Inr (obj [(''name'', PStr (pr_name p)), (''required'', PBool (pr_required p)), (''schema'', doc)])))
      (vs_properties s) = Inr docs"
    by (intro traverse_total) fastforce
  moreover have "\<exists>doc. document_of_schema e i = Inr doc" if "vs_item s = Some i" for i
    using that
    by (intro less.IH size_item schema_ok_child [OF less.prems]) (auto simp: schema_children_def)
  then have "\<exists>doc. (case vs_item s of None \<Rightarrow> Inr PNone | Some i \<Rightarrow> document_of_schema e i) = Inr doc"
    by (cases "vs_item s") auto
  ultimately show ?case by (subst document_of_schema.simps [of e s]) (auto simp: valid)
qed

lemma schema_document_total: "schema_ok s \<Longrightarrow> \<exists>doc. schema_document s = Inr doc"
  by (simp add: schema_document_def document_of_schema_total)

end
