(* ===== verification/Skill_Parameters.thy ===== *)
theory Skill_Parameters
  imports Skill_Schema
begin

text \<open>
  The validation of proposed parameters against an input schema (\<open>skill_manager/parameters.py\<close>), and
  the relation of schemas and values that it decides.
\<close>

section \<open>The code\<close>

fun type_matches :: "pyval \<Rightarrow> value_type \<Rightarrow> bool" where
  "type_matches v VtString = (case v of PStr _ \<Rightarrow> True | _ \<Rightarrow> False)"
| "type_matches v VtInteger = (case v of PInt _ \<Rightarrow> True | _ \<Rightarrow> False)"
| "type_matches v VtNumber = (case v of PInt _ \<Rightarrow> True | PFloat _ \<Rightarrow> True | _ \<Rightarrow> False)"
| "type_matches v VtBoolean = (case v of PBool _ \<Rightarrow> True | _ \<Rightarrow> False)"
| "type_matches v VtNull = (v = PNone)"
| "type_matches v VtArray = (case v of PList _ \<Rightarrow> True | _ \<Rightarrow> False)"
| "type_matches v VtObject = is_dict v"

definition check_allowed :: "value_schema \<Rightarrow> pyval \<Rightarrow> unit res" where
  "check_allowed s v =
     (if vs_allowed s = [] then Inr ()
      else tryE (skill_canonicalize invalid_skill_parameters v) (\<lambda>actual.
           tryE (traverse (\<lambda>item. skill_canonicalize invalid_skill_parameters item) (vs_allowed s)) (\<lambda>allowed.
           raise_if (actual \<notin> set allowed) invalid_skill_parameters (Inr ()))))"

definition shorter :: "nat \<Rightarrow> int option \<Rightarrow> bool" where
  "shorter n low = (case low of None \<Rightarrow> False | Some b \<Rightarrow> int n < b)"

definition longer :: "nat \<Rightarrow> int option \<Rightarrow> bool" where
  "longer n high = (case high of None \<Rightarrow> False | Some b \<Rightarrow> b < int n)"

definition check_number :: "value_schema \<Rightarrow> pyval \<Rightarrow> unit res" where
  "check_number s v =
     raise_if (case vs_minimum s of None \<Rightarrow> False | Some b \<Rightarrow> number_less v b) invalid_skill_parameters
    (raise_if (case vs_maximum s of None \<Rightarrow> False | Some b \<Rightarrow> number_less b v) invalid_skill_parameters
    (Inr ()))"

definition validate_node :: "value_schema \<Rightarrow> pyval \<Rightarrow> unit res" where
  "validate_node s v =
     (if v = PNone \<and> vs_nullable s then Inr ()
      else
      raise_if (\<not> type_matches v (vs_type s)) invalid_skill_parameters
     (tryE (check_allowed s v) (\<lambda>_.
      case v of
        PStr t \<Rightarrow>
          raise_if (shorter (length t) (vs_min_length s)) invalid_skill_parameters
         (raise_if (longer (length t) (vs_max_length s)) invalid_skill_parameters (Inr ()))
      | PInt i \<Rightarrow> check_number s v
      | PFloat x \<Rightarrow> check_number s v
      | PList vs \<Rightarrow>
          raise_if (shorter (length vs) (vs_min_items s)) invalid_skill_parameters
         (raise_if (longer (length vs) (vs_max_items s)) invalid_skill_parameters (Inr ()))
      | _ \<Rightarrow> Inr ())))"

text \<open>\<open>{item.name: item for item in current_schema.properties}\<close>: the last property of a name.\<close>

definition property_for :: "value_schema \<Rightarrow> pykey \<Rightarrow> schema_property option" where
  "property_for s k = map_of (rev (map (\<lambda>p. (KStr (pr_name p), p)) (vs_properties s))) k"

text \<open>The members that have a property, in the order of their names, with the schemas of the properties.\<close>

definition known_members :: "value_schema \<Rightarrow> (pykey \<times> pyval) list \<Rightarrow> (value_schema \<times> pyval) list" where
  "known_members s kvs =
     List.map_filter (\<lambda>(k, v). map_option (\<lambda>p. (pr_schema p, v)) (property_for s k)) (sorted_items kvs)"

lemma known_members_nodes: "sum_list (map (\<lambda>x. node_count (snd x)) (known_members s kvs)) < node_count (PDict kvs)"
proof -
  have "sum_list (map (\<lambda>x. node_count (snd x)) (List.map_filter (\<lambda>(k, v). map_option (\<lambda>p. (pr_schema p, v)) (f k)) xs))
      \<le> sum_list (map (\<lambda>kv. node_count (snd kv)) xs)" for f :: "pykey \<Rightarrow> schema_property option" and xs
    by (induction xs) (auto simp: List.map_filter_simps split: option.splits)
  then have "sum_list (map (\<lambda>x. node_count (snd x)) (known_members s kvs)) \<le>
      sum_list (map (\<lambda>kv. node_count (snd kv)) (sorted_items kvs))"
    unfolding known_members_def by blast
  also have "\<dots> = sum_list (map (\<lambda>kv. node_count (snd kv)) kvs)" by (rule sum_list_sorted_items)
  finally show ?thesis by simp
qed

function parameters_loop :: "(value_schema \<times> pyval) list \<Rightarrow> unit res" where
  "parameters_loop [] = Inr ()"
| "parameters_loop ((s, v) # stack) =
     tryE (validate_node s v) (\<lambda>_.
     if v = PNone then parameters_loop stack
     else
     (case vs_type s of
        VtObject \<Rightarrow>
          (case v of
             PDict kvs \<Rightarrow>
               raise_if (list_ex (\<lambda>p. pr_required p \<and> KStr (pr_name p) \<notin> set (map fst kvs)) (vs_properties s))
                 invalid_skill_parameters
              (raise_if (list_ex (\<lambda>k. property_for s k = None) (map fst kvs) \<and> \<not> vs_additional s)
                 invalid_skill_parameters
              (parameters_loop (known_members s kvs @ stack)))
           | _ \<Rightarrow> Inl (BuiltinExn AssertionError))
      | VtArray \<Rightarrow>
          (case (v, vs_item s) of
             (PList vs, Some i) \<Rightarrow> parameters_loop (map (\<lambda>w. (i, w)) vs @ stack)
           | _ \<Rightarrow> Inl (BuiltinExn AssertionError))
      | _ \<Rightarrow> parameters_loop stack))"
  by pat_completeness auto
termination
  by (relation "measure (\<lambda>stack. sum_list (map (\<lambda>x. node_count (snd x)) stack))")
    (use known_members_nodes in \<open>auto simp: o_def\<close>)

section \<open>The values of a schema\<close>

text \<open>
  A value conforms to a schema when it is null and the schema admits null, or when it has the type of the
  schema, is one of the allowed values if these are listed, is within the bounds, and its members or items
  conform to the schemas of the properties and of the items.
\<close>

definition in_bounds :: "value_schema \<Rightarrow> pyval \<Rightarrow> bool" where
  "in_bounds s v \<longleftrightarrow>
     (case v of
        PStr t \<Rightarrow> \<not> shorter (length t) (vs_min_length s) \<and> \<not> longer (length t) (vs_max_length s)
      | PList vs \<Rightarrow> \<not> shorter (length vs) (vs_min_items s) \<and> \<not> longer (length vs) (vs_max_items s)
      | PInt i \<Rightarrow> (\<forall>b. vs_minimum s = Some b \<longrightarrow> \<not> number_less v b) \<and>
          (\<forall>b. vs_maximum s = Some b \<longrightarrow> \<not> number_less b v)
      | PFloat x \<Rightarrow> (\<forall>b. vs_minimum s = Some b \<longrightarrow> \<not> number_less v b) \<and>
          (\<forall>b. vs_maximum s = Some b \<longrightarrow> \<not> number_less b v)
      | _ \<Rightarrow> True)"

function conforms :: "value_schema \<Rightarrow> pyval \<Rightarrow> bool" where
  "conforms s v \<longleftrightarrow>
     v = PNone \<and> vs_nullable s \<or>
     type_matches v (vs_type s) \<and> (vs_allowed s = [] \<or> canon v \<in> canon ` set (vs_allowed s)) \<and> in_bounds s v \<and>
     (case v of
        PList vs \<Rightarrow> (\<forall>w \<in> set vs. \<forall>i. vs_item s = Some i \<longrightarrow> conforms i w)
      | PDict kvs \<Rightarrow>
          (\<forall>p \<in> set (vs_properties s). pr_required p \<longrightarrow> KStr (pr_name p) \<in> fst ` set kvs) \<and>
          (\<forall>kv \<in> set kvs.
             (vs_additional s \<or> (\<exists>p \<in> set (vs_properties s). fst kv = KStr (pr_name p))) \<and>
             (\<forall>p \<in> set (vs_properties s). fst kv = KStr (pr_name p) \<longrightarrow> conforms (pr_schema p) (snd kv)))
      | _ \<Rightarrow> True)"
  by pat_completeness auto
termination
proof (relation "measure (\<lambda>(s, v). node_count v)", goal_cases)
  case (2 s v vs w i)
  then show ?case using member_le_sum_list [of "node_count w" "map node_count vs"] by auto
next
  case (3 s v kvs kv p)
  then show ?case using member_le_sum_list [of "node_count (snd kv)" "map (\<lambda>kv. node_count (snd kv)) kvs"] by auto
qed simp

declare conforms.simps [simp del]

definition validate_skill_parameters :: "value_schema \<Rightarrow> pyval \<Rightarrow> pyval res" where
  "validate_skill_parameters s parameters =
     tryE (validate_schema_graph s) (\<lambda>_.
     raise_if (vs_type s \<noteq> VtObject \<or> vs_nullable s) invalid_skill_parameters
    (tryE (skill_copy invalid_skill_parameters parameters) (\<lambda>copied.
     raise_if (\<not> is_dict copied) invalid_skill_parameters
    (tryE (parameters_loop [(s, copied)]) (\<lambda>_. Inr copied)))))"

section \<open>Schemas that the constructor builds\<close>

inductive built_schema :: "value_schema \<Rightarrow> bool" where
  build: "\<forall>p \<in> set properties. built_schema (pr_schema p) \<and> skill_identifier_ok (pr_name p) \<Longrightarrow>
    \<forall>i. item = Some i \<longrightarrow> built_schema i \<Longrightarrow>
    mk_value_schema t nullable properties item additional allowed minimum maximum
      min_length max_length min_items max_items = Inr s \<Longrightarrow> built_schema s"

lemma allowed_tuple_Inr:
  assumes "allowed_tuple t nullable allowed = Inr vs"
  shows "list_all is_scalar vs \<and> list_all (bounded_ok skill_json_limits) vs"
proof -
  from assms obtain keys where scalar: "list_all is_scalar allowed"
    and keys: "list_all2 (\<lambda>v k. skill_canonicalize invalid_schema v = Inr k) allowed keys"
    and vs: "vs = map snd (sort_key fst (zip keys allowed))"
    by (auto simp: allowed_tuple_def res_simps traverse_Inr list_ex_iff list_all_iff)
  have "set vs \<subseteq> set allowed" unfolding vs by (auto dest: set_zip_rightD)
  moreover have "list_all (bounded_ok skill_json_limits) allowed"
    using keys by (induction rule: list_all2_induct) (auto simp: skill_canonicalize_eq split: if_splits)
  ultimately show ?thesis using scalar by (auto simp: list_all_iff)
qed

lemma mk_value_schema_Inr:
  assumes "mk_value_schema t nullable properties item additional allowed minimum maximum
    min_length max_length min_items max_items = Inr s"
  shows "distinct (map pr_name (vs_properties s)) \<and> set (vs_properties s) = set properties \<and> vs_item s = item \<and>
    vs_type s = t \<and> (t = VtArray \<longrightarrow> item \<noteq> None) \<and> (vs_allowed s \<noteq> [] \<longrightarrow> t \<noteq> VtArray \<and> t \<noteq> VtObject) \<and>
    list_all (bounded_ok skill_json_limits) (vs_allowed s)"
  using assms
  by (cases t) (auto simp: mk_value_schema_def Let_def res_simps list.set_map [symmetric] simp del: list.set_map
      dest: allowed_tuple_Inr)

text \<open>The allowed values are sorted by their canonical texts, and what is built is built from itself.\<close>

lemma allowed_tuple_eq:
  "allowed_tuple t nullable allowed =
     (if list_all is_scalar allowed \<and> list_all (\<lambda>v. v \<noteq> PFloat NonFinite \<and> matches_scalar v t nullable) allowed \<and>
        list_all (bounded_ok skill_json_limits) allowed \<and> distinct (map canon allowed)
      then Inr (sort_key canon allowed) else Inl invalid_schema)"
proof -
  have scan: "for_each (\<lambda>v. raise_if (v = PFloat NonFinite) invalid_schema
      (raise_if (\<not> matches_scalar v t nullable) invalid_schema (Inr ()))) vs =
    (if list_all (\<lambda>v. v \<noteq> PFloat NonFinite \<and> matches_scalar v t nullable) vs then Inr () else Inl invalid_schema)" for vs
    by (induction vs) (auto simp: raise_if_def)
  have keys: "traverse (\<lambda>v. skill_canonicalize invalid_schema v) vs =
    (if list_all (bounded_ok skill_json_limits) vs then Inr (map canon vs) else Inl invalid_schema)" for vs
    by (induction vs) (auto simp: skill_canonicalize_eq)
  have "zip (map canon vs) vs = map (\<lambda>v. (canon v, v)) vs" for vs by (induction vs) auto
  then have order: "map snd (sort_key fst (zip (map canon vs) vs)) = sort_key canon vs" for vs
    by (simp add: sort_key_map o_def)
  have scalars: "list_ex (\<lambda>v. \<not> is_scalar v) allowed = (\<not> list_all is_scalar allowed)"
    by (auto simp: list_ex_iff list_all_iff)
  show ?thesis unfolding allowed_tuple_def scan keys scalars by (simp add: order raise_if_def)
qed

lemma mk_value_schema_again:
  assumes "mk_value_schema t nullable properties item additional allowed minimum maximum
    min_length max_length min_items max_items = Inr s"
  shows "mk_value_schema (vs_type s) (vs_nullable s) (vs_properties s) (vs_item s) (vs_additional s) (vs_allowed s)
    (vs_minimum s) (vs_maximum s) (vs_min_length s) (vs_max_length s) (vs_min_items s) (vs_max_items s) = Inr s"
proof -
  from assms obtain vs where vs: "allowed_tuple t nullable allowed = Inr vs"
    and s: "s = ValueSchema t nullable (sort_key pr_name properties) item additional vs minimum maximum
      min_length max_length min_items max_items"
    by (auto simp: mk_value_schema_def Let_def res_simps)
  have again: "allowed_tuple t nullable vs = Inr vs"
    using vs by (auto simp: allowed_tuple_eq list_all_iff split: if_splits)
  have "mk_value_schema t nullable (sort_key pr_name properties) item additional vs minimum maximum
      min_length max_length min_items max_items =
    mk_value_schema t nullable properties item additional allowed minimum maximum
      min_length max_length min_items max_items"
    by (simp only: mk_value_schema_def length_sort sort_key_idem vs again)
  with assms show ?thesis by (simp add: s)
qed

lemma built_schemaD:
  assumes "built_schema s"
  shows "distinct (map pr_name (vs_properties s))" "vs_type s = VtArray \<Longrightarrow> vs_item s \<noteq> None"
    "vs_allowed s \<noteq> [] \<Longrightarrow> vs_type s \<noteq> VtArray \<and> vs_type s \<noteq> VtObject"
    "v \<in> set (vs_allowed s) \<Longrightarrow> bounded_ok skill_json_limits v"
    "p \<in> set (vs_properties s) \<Longrightarrow> built_schema (pr_schema p)" "vs_item s = Some i \<Longrightarrow> built_schema i"
    "p \<in> set (vs_properties s) \<Longrightarrow> skill_identifier_ok (pr_name p)"
    "mk_value_schema (vs_type s) (vs_nullable s) (vs_properties s) (vs_item s) (vs_additional s) (vs_allowed s)
       (vs_minimum s) (vs_maximum s) (vs_min_length s) (vs_max_length s) (vs_min_items s) (vs_max_items s) = Inr s"
proof -
  from assms obtain properties item t nullable additional allowed minimum maximum l1 l2 i1 i2 where
    b: "\<forall>p \<in> set properties. built_schema (pr_schema p) \<and> skill_identifier_ok (pr_name p)"
      "\<forall>i. item = Some i \<longrightarrow> built_schema i"
    and mk: "mk_value_schema t nullable properties item additional allowed minimum maximum l1 l2 i1 i2 = Inr s"
    by cases
  note s = mk_value_schema_Inr [OF mk]
  show "distinct (map pr_name (vs_properties s))" "vs_type s = VtArray \<Longrightarrow> vs_item s \<noteq> None"
    "vs_allowed s \<noteq> [] \<Longrightarrow> vs_type s \<noteq> VtArray \<and> vs_type s \<noteq> VtObject"
    "v \<in> set (vs_allowed s) \<Longrightarrow> bounded_ok skill_json_limits v"
    "p \<in> set (vs_properties s) \<Longrightarrow> built_schema (pr_schema p)" "vs_item s = Some i \<Longrightarrow> built_schema i"
    "p \<in> set (vs_properties s) \<Longrightarrow> skill_identifier_ok (pr_name p)"
    using s b by (auto simp: list_all_iff)
  show "mk_value_schema (vs_type s) (vs_nullable s) (vs_properties s) (vs_item s) (vs_additional s) (vs_allowed s)
       (vs_minimum s) (vs_maximum s) (vs_min_length s) (vs_max_length s) (vs_min_items s) (vs_max_items s) = Inr s"
    by (rule mk_value_schema_again [OF mk])
qed

section \<open>The loop decides conformance\<close>

lemma property_for_eq:
  assumes "distinct (map pr_name (vs_properties s))"
  shows "property_for s k = Some p \<longleftrightarrow> p \<in> set (vs_properties s) \<and> k = KStr (pr_name p)"
proof -
  let ?kvs = "rev (map (\<lambda>p. (KStr (pr_name p), p)) (vs_properties s))"
  have "distinct (map fst ?kvs)"
    using assms by (simp add: rev_map [symmetric] o_def distinct_map inj_on_def)
  then have "map_of ?kvs k = Some p \<longleftrightarrow> (k, p) \<in> set ?kvs" by (rule map_of_eq_Some_iff)
  then show ?thesis by (auto simp: property_for_def)
qed

lemma property_for_none:
  "property_for s k = None \<longleftrightarrow> (\<forall>p \<in> set (vs_properties s). k \<noteq> KStr (pr_name p))"
  by (auto simp: property_for_def map_of_eq_None_iff image_image)

lemma known_members_in:
  assumes "distinct (map pr_name (vs_properties s))"
  shows "(c, v) \<in> set (known_members s kvs) \<longleftrightarrow>
    (\<exists>p \<in> set (vs_properties s). c = pr_schema p \<and> (KStr (pr_name p), v) \<in> set kvs)"
  by (force simp: known_members_def in_map_filter property_for_eq [OF assms])

text \<open>The parts of a validated value.\<close>

definition part_ok :: "pyval \<Rightarrow> bool" where
  "part_ok v \<longleftrightarrow> contents_ok 256 1024 v \<and> char_count v \<le> 1000000"

lemma part_scalar: "part_ok v \<Longrightarrow> is_scalar v \<Longrightarrow> bounded_ok skill_json_limits v"
  by (cases v) (auto simp: part_ok_def bounded_ok_def skill_json_limits_def)

lemma part_items:
  "part_ok (PList vs) \<Longrightarrow> v \<in> set vs \<Longrightarrow> part_ok v"
  "part_ok (PDict kvs) \<Longrightarrow> (k, v) \<in> set kvs \<Longrightarrow> part_ok v"
proof -
  assume "part_ok (PList vs)" "v \<in> set vs"
  then show "part_ok v"
    using member_le_sum_list [of "char_count v" "map char_count vs"] by (auto simp: part_ok_def list_all_iff)
next
  assume "part_ok (PDict kvs)" "(k, v) \<in> set kvs"
  then show "part_ok v"
    using member_le_sum_list [of "length (key_str k) + char_count v"
        "map (\<lambda>kv. length (key_str (fst kv)) + char_count (snd kv)) kvs"]
    by (force simp: part_ok_def list_all_iff)
qed

lemma matching_scalar: "type_matches v t \<Longrightarrow> t \<noteq> VtArray \<Longrightarrow> t \<noteq> VtObject \<Longrightarrow> is_scalar v"
  by (cases t; cases v) auto

definition node_ok :: "value_schema \<Rightarrow> pyval \<Rightarrow> bool" where
  "node_ok s v \<longleftrightarrow>
     type_matches v (vs_type s) \<and> (vs_allowed s = [] \<or> canon v \<in> canon ` set (vs_allowed s)) \<and> in_bounds s v"

lemma validate_node_eq:
  assumes "built_schema s" "part_ok v"
  shows "validate_node s v =
    (if v = PNone \<and> vs_nullable s \<or> node_ok s v then Inr () else Inl invalid_skill_parameters)"
proof -
  have "check_allowed s v = (if vs_allowed s = [] \<or> canon v \<in> canon ` set (vs_allowed s) then Inr ()
      else Inl invalid_skill_parameters)" if "type_matches v (vs_type s)"
  proof (cases "vs_allowed s = []")
    case False
    then have "bounded_ok skill_json_limits v"
      using built_schemaD(3) [OF assms(1)] that assms(2) by (intro part_scalar matching_scalar) auto
    moreover have "traverse (skill_canonicalize invalid_skill_parameters) (vs_allowed s) =
        Inr (map canon (vs_allowed s))"
      using built_schemaD(4) [OF assms(1)] by (intro traverse_map) (simp add: skill_canonicalize_eq)
    ultimately show ?thesis
      using False by (simp add: check_allowed_def skill_canonicalize_eq)
  qed (simp add: check_allowed_def)
  then show ?thesis
    by (auto simp: validate_node_def node_ok_def in_bounds_def check_number_def raise_if_def
        split: pyval.splits option.splits)
qed

definition members_ok :: "value_schema \<Rightarrow> pyval \<Rightarrow> bool" where
  "members_ok s v \<longleftrightarrow>
     (case v of
        PList vs \<Rightarrow> (\<forall>w \<in> set vs. \<forall>i. vs_item s = Some i \<longrightarrow> conforms i w)
      | PDict kvs \<Rightarrow>
          (\<forall>p \<in> set (vs_properties s). pr_required p \<longrightarrow> KStr (pr_name p) \<in> fst ` set kvs) \<and>
          (\<forall>kv \<in> set kvs.
             (vs_additional s \<or> (\<exists>p \<in> set (vs_properties s). fst kv = KStr (pr_name p))) \<and>
             (\<forall>p \<in> set (vs_properties s). fst kv = KStr (pr_name p) \<longrightarrow> conforms (pr_schema p) (snd kv)))
      | _ \<Rightarrow> True)"

lemma conforms_eq: "conforms s v \<longleftrightarrow> v = PNone \<and> vs_nullable s \<or> node_ok s v \<and> members_ok s v"
  by (subst conforms.simps) (simp add: node_ok_def members_ok_def)

lemma node_shape:
  "node_ok s v \<Longrightarrow> v \<noteq> PNone \<Longrightarrow> vs_type s = VtObject \<Longrightarrow> \<exists>kvs. v = PDict kvs"
  "node_ok s v \<Longrightarrow> v \<noteq> PNone \<Longrightarrow> vs_type s = VtArray \<Longrightarrow> \<exists>vs. v = PList vs"
  "node_ok s v \<Longrightarrow> vs_type s \<noteq> VtObject \<Longrightarrow> vs_type s \<noteq> VtArray \<Longrightarrow> members_ok s v"
  by (cases v; cases "vs_type s"; simp add: node_ok_def members_ok_def)+

abbreviation stack_nodes :: "(value_schema \<times> pyval) list \<Rightarrow> nat" where
  "stack_nodes stack \<equiv> sum_list (map (\<lambda>x. node_count (snd x)) stack)"

abbreviation all_conform :: "(value_schema \<times> pyval) list \<Rightarrow> bool" where
  "all_conform \<equiv> list_all (\<lambda>(s, v). conforms s v)"

lemma known_members_conform:
  assumes "distinct (map pr_name (vs_properties s))"
  shows "all_conform (known_members s kvs) \<longleftrightarrow>
    (\<forall>kv \<in> set kvs. \<forall>p \<in> set (vs_properties s). fst kv = KStr (pr_name p) \<longrightarrow> conforms (pr_schema p) (snd kv))"
  unfolding list_all_iff using known_members_in [OF assms] by fastforce

lemma parameters_loop_eq:
  "list_all (\<lambda>(s, v). built_schema s \<and> part_ok v) stack \<Longrightarrow>
   parameters_loop stack = (if all_conform stack then Inr () else Inl invalid_skill_parameters)"
proof (induction "stack_nodes stack" arbitrary: stack rule: less_induct)
  case less
  show ?case
  proof (cases stack)
    case (Cons x rest)
    obtain s v where x: "x = (s, v)" by (cases x)
    have sv: "built_schema s" "part_ok v" and
      rest: "list_all (\<lambda>(s, v). built_schema s \<and> part_ok v) rest" using less.prems by (simp_all add: Cons x)
    have tail: "parameters_loop rest = (if all_conform rest then Inr () else Inl invalid_skill_parameters)"
      using less.hyps [OF _ rest] by (simp add: Cons x)
    note node = validate_node_eq [OF sv]
    note dist = built_schemaD(1) [OF sv(1)]
    show ?thesis
    proof (cases "v = PNone \<and> vs_nullable s \<or> node_ok s v")
      case False
      then have "validate_node s v = Inl invalid_skill_parameters" "\<not> conforms s v"
        using node conforms_eq by simp_all
      then show ?thesis by (simp add: Cons x)
    next
      case True
      then have ok: "validate_node s v = Inr ()" using node by simp
      consider (none) "v = PNone" | (obj) kvs where "v = PDict kvs" "vs_type s = VtObject" "node_ok s v"
        | (array) vs where "v = PList vs" "vs_type s = VtArray" "node_ok s v"
        | (scalar) "v \<noteq> PNone" "vs_type s \<noteq> VtObject" "vs_type s \<noteq> VtArray" "node_ok s v"
        using True node_shape(1,2) by metis
      then show ?thesis
      proof cases
        case none
        then have "conforms s v" using True by (auto simp: conforms_eq members_ok_def)
        then show ?thesis using none ok tail by (simp add: Cons x)
      next
        case scalar
        then have "conforms s v" using node_shape(3) by (simp add: conforms_eq)
        moreover have "parameters_loop ((s, v) # rest) = parameters_loop rest"
          using scalar ok by (cases "vs_type s") simp_all
        ultimately show ?thesis using tail by (simp add: Cons x)
      next
        case obj
        let ?new = "known_members s kvs"
        let ?required = "\<forall>p \<in> set (vs_properties s). pr_required p \<longrightarrow> KStr (pr_name p) \<in> fst ` set kvs"
        let ?known = "\<forall>kv \<in> set kvs. vs_additional s \<or> (\<exists>p \<in> set (vs_properties s). fst kv = KStr (pr_name p))"
        have "list_all (\<lambda>(s, v). built_schema s \<and> part_ok v) ?new"
          using known_members_in [OF dist] built_schemaD(5) [OF sv(1)] part_items(2) sv(2) obj(1)
          by (fastforce simp: list_all_iff)
        then have new: "parameters_loop (?new @ rest) =
            (if all_conform (?new @ rest) then Inr () else Inl invalid_skill_parameters)"
          using known_members_nodes [of s kvs] rest by (intro less.hyps) (auto simp: Cons x obj(1))
        have c: "conforms s v \<longleftrightarrow> ?required \<and> ?known \<and> all_conform ?new"
          using obj known_members_conform [OF dist, of kvs] by (auto simp: conforms_eq [of s "PDict kvs"] members_ok_def)
        have "parameters_loop ((s, v) # rest) =
            (if ?required \<and> ?known then parameters_loop (?new @ rest) else Inl invalid_skill_parameters)"
          using obj ok by (auto simp: raise_if_def list_ex_iff property_for_none)
        then show ?thesis using c new by (simp add: Cons x)
      next
        case array
        obtain i where i: "vs_item s = Some i" using built_schemaD(2) [OF sv(1) array(2)] by blast
        let ?new = "map (\<lambda>w. (i, w)) vs"
        have "list_all (\<lambda>(s, v). built_schema s \<and> part_ok v) ?new"
          using built_schemaD(6) [OF sv(1) i] part_items(1) sv(2) array(1) by (auto simp: list_all_iff)
        then have new: "parameters_loop (?new @ rest) =
            (if all_conform (?new @ rest) then Inr () else Inl invalid_skill_parameters)"
          using rest by (intro less.hyps) (auto simp: Cons x array(1) o_def)
        have "conforms s v \<longleftrightarrow> all_conform ?new"
          using array i by (auto simp: conforms_eq [of s "PList vs"] members_ok_def list_all_iff)
        moreover have "parameters_loop ((s, v) # rest) = parameters_loop (?new @ rest)"
          using array i ok by simp
        ultimately show ?thesis using new by (simp add: Cons x)
      qed
    qed
  qed simp
qed

lemma validate_skill_parameters_eq:
  assumes "built_schema s" "schema_ok s" "vs_type s = VtObject" "\<not> vs_nullable s"
  shows "validate_skill_parameters s v =
    (if bounded_ok skill_json_limits v \<and> conforms s v then Inr v else Inl invalid_skill_parameters)"
proof (cases "bounded_ok skill_json_limits v \<and> is_dict v")
  case True
  then have "part_ok v" by (simp add: bounded_ok_def part_ok_def skill_json_limits_def)
  then have "parameters_loop [(s, v)] = (if conforms s v then Inr () else Inl invalid_skill_parameters)"
    using parameters_loop_eq [of "[(s, v)]"] assms(1) by simp
  with True show ?thesis using assms by (simp add: validate_skill_parameters_def validate_schema_eq)
next
  case False
  have "\<not> conforms s v" if "\<not> is_dict v"
    using that assms(3,4) by (cases v) (auto simp: conforms_eq node_ok_def)
  with False show ?thesis using assms by (auto simp: validate_skill_parameters_def validate_schema_eq)
qed

end
