(* ===== verification/Skill_Models.thy ===== *)
theory Skill_Models
  imports Skill_Parameters Safety_Models
begin

text \<open>The contracts of the Skill Manager (\<open>skill_manager/models.py\<close>).\<close>

section \<open>Fingerprints\<close>

datatype skill_fingerprint_kind = KfSkill | KfRegistry | KfSelection | KfInvocation

fun skill_fingerprint_kind_value :: "skill_fingerprint_kind \<Rightarrow> string" where
  "skill_fingerprint_kind_value KfSkill = ''skill''"
| "skill_fingerprint_kind_value KfRegistry = ''registry''"
| "skill_fingerprint_kind_value KfSelection = ''selection''"
| "skill_fingerprint_kind_value KfInvocation = ''invocation''"

record skill_fingerprint =
  kf_kind :: skill_fingerprint_kind
  kf_digest :: string
  kf_algorithm :: string
  kf_schema_version :: int

definition mk_skill_fingerprint ::
  "skill_fingerprint_kind \<Rightarrow> string \<Rightarrow> string \<Rightarrow> int \<Rightarrow> skill_fingerprint res" where
  "mk_skill_fingerprint kind digest algorithm schema =
     raise_if (algorithm \<noteq> ''sha256'' \<or> schema \<noteq> 1) skill_invariant
    (raise_if (\<not> hex_digest_ok digest) skill_invariant
    (Inr \<lparr>kf_kind = kind, kf_digest = digest, kf_algorithm = algorithm, kf_schema_version = schema\<rparr>))"

definition skill_fingerprint_str :: "skill_fingerprint \<Rightarrow> string" where
  "skill_fingerprint_str f = skill_fingerprint_kind_value (kf_kind f) @ '':sha256:'' @ kf_digest f"

definition skill_fingerprint_document :: "skill_fingerprint_kind \<Rightarrow> exn \<Rightarrow> pyval \<Rightarrow> skill_fingerprint res" where
  "skill_fingerprint_document kind e document =
     tryE (skill_canonicalize e document) (\<lambda>canonical.
     mk_skill_fingerprint kind (sha256_hex canonical) ''sha256'' 1)"

definition skill_sha :: "skill_fingerprint_kind \<Rightarrow> string \<Rightarrow> skill_fingerprint" where
  "skill_sha kind s =
     \<lparr>kf_kind = kind, kf_digest = sha256_hex s, kf_algorithm = ''sha256'', kf_schema_version = 1\<rparr>"

lemma skill_sha_kind [simp]: "kf_kind (skill_sha kind s) = kind" "kf_digest (skill_sha kind s) = sha256_hex s"
  by (simp_all add: skill_sha_def)

lemma skill_fingerprint_document_eq:
  "skill_fingerprint_document kind e document =
     (if bounded_ok skill_json_limits document then Inr (skill_sha kind (canon document)) else Inl e)"
  by (simp add: skill_fingerprint_document_def skill_canonicalize_eq mk_skill_fingerprint_def skill_sha_def)

section \<open>Enumerations\<close>

datatype skill_availability = SkillUnavailable | SkillAvailable | SkillDegraded | SkillDisabled

fun skill_availability_value :: "skill_availability \<Rightarrow> string" where
  "skill_availability_value SkillUnavailable = ''unavailable''"
| "skill_availability_value SkillAvailable = ''available''"
| "skill_availability_value SkillDegraded = ''degraded''"
| "skill_availability_value SkillDisabled = ''disabled''"

datatype skill_lifecycle = Experimental | Validated | Deprecated

fun skill_lifecycle_value :: "skill_lifecycle \<Rightarrow> string" where
  "skill_lifecycle_value Experimental = ''experimental''"
| "skill_lifecycle_value Validated = ''validated''"
| "skill_lifecycle_value Deprecated = ''deprecated''"

datatype resource_access = SharedAccess | ExclusiveAccess

fun resource_access_value :: "resource_access \<Rightarrow> string" where
  "resource_access_value SharedAccess = ''shared''"
| "resource_access_value ExclusiveAccess = ''exclusive''"

datatype concurrency_policy = ParallelPolicy | ResourceGoverned | ExclusivePolicy

fun concurrency_policy_value :: "concurrency_policy \<Rightarrow> string" where
  "concurrency_policy_value ParallelPolicy = ''parallel''"
| "concurrency_policy_value ResourceGoverned = ''resource_governed''"
| "concurrency_policy_value ExclusivePolicy = ''exclusive''"

datatype idempotency_class = Idempotent | ConditionallyIdempotent | NonIdempotent

fun idempotency_value :: "idempotency_class \<Rightarrow> string" where
  "idempotency_value Idempotent = ''idempotent''"
| "idempotency_value ConditionallyIdempotent = ''conditionally_idempotent''"
| "idempotency_value NonIdempotent = ''non_idempotent''"

datatype failure_semantics = Retryable | NonRetryable | RequiresReplan | RequiresOperator | EmergencyAbort

fun failure_semantics_value :: "failure_semantics \<Rightarrow> string" where
  "failure_semantics_value Retryable = ''retryable''"
| "failure_semantics_value NonRetryable = ''non_retryable''"
| "failure_semantics_value RequiresReplan = ''requires_replan''"
| "failure_semantics_value RequiresOperator = ''requires_operator''"
| "failure_semantics_value EmergencyAbort = ''emergency_abort''"

section \<open>Skill definitions\<close>

record resource_requirement =
  rr_resource_id :: string
  rr_access :: resource_access

definition check_resource_requirement :: "resource_requirement \<Rightarrow> resource_requirement res" where
  "check_resource_requirement r = tryE (skill_identifier invalid_skill (rr_resource_id r)) (\<lambda>_. Inr r)"

text \<open>All that a definition declares; its fingerprint is that of its document.\<close>

record skill_contract =
  kd_skill_id :: string
  kd_version :: semantic_version
  kd_name :: string
  kd_description :: string
  kd_capability_ids :: "string list"
  kd_backend_id :: string
  kd_input_schema :: value_schema
  kd_output_schema :: value_schema
  kd_required_context :: "context_requirement list"
  kd_required_resources :: "resource_requirement list"
  kd_required_approval_classes :: "approval_class list"
  kd_safety_classification :: hazard_class
  kd_expected_result :: expected_result
  kd_timeout_ms :: int
  kd_concurrency_policy :: concurrency_policy
  kd_idempotency :: idempotency_class
  kd_failure_semantics :: failure_semantics
  kd_availability :: skill_availability
  kd_lifecycle :: skill_lifecycle
  kd_metadata :: pyval

record skill_definition = skill_contract +
  kd_fingerprint :: skill_fingerprint

definition resource_document :: "resource_requirement \<Rightarrow> pyval" where
  "resource_document r = obj [
     (''access'', PStr (resource_access_value (rr_access r))), (''resource_id'', PStr (rr_resource_id r))]"

text \<open>The property \<open>metadata\<close>: a copy, asserted to be a dict.\<close>

definition skill_dict_property :: "pyval \<Rightarrow> pyval res" where
  "skill_dict_property v =
     tryE (skill_copy (SkillExn SkillValidationError) v) (\<lambda>w.
     raise_if (\<not> is_dict w) (BuiltinExn AssertionError) (Inr w))"

definition skill_document :: "skill_contract \<Rightarrow> pyval res" where
  "skill_document k =
     tryE (schema_document (kd_input_schema k)) (\<lambda>input_doc.
     tryE (skill_dict_property (kd_metadata k)) (\<lambda>metadata.
     tryE (schema_document (kd_output_schema k)) (\<lambda>output_doc.
     Inr (obj [
       (''availability'', PStr (skill_availability_value (kd_availability k))),
       (''backend_id'', PStr (kd_backend_id k)),
       (''capability_ids'', str_list (kd_capability_ids k)),
       (''concurrency_policy'', PStr (concurrency_policy_value (kd_concurrency_policy k))),
       (''description'', PStr (kd_description k)),
       (''expected_result'', PStr (expected_result_value (kd_expected_result k))),
       (''failure_semantics'', PStr (failure_semantics_value (kd_failure_semantics k))),
       (''idempotency'', PStr (idempotency_value (kd_idempotency k))),
       (''input_schema'', input_doc),
       (''lifecycle'', PStr (skill_lifecycle_value (kd_lifecycle k))),
       (''metadata'', metadata),
       (''name'', PStr (kd_name k)),
       (''output_schema'', output_doc),
       (''required_approval_classes'', str_list (map approval_class_value (kd_required_approval_classes k))),
       (''required_context'', PList (map context_document (kd_required_context k))),
       (''required_resources'', PList (map resource_document (kd_required_resources k))),
       (''safety_classification'', PStr (hazard_class_value (kd_safety_classification k))),
       (''schema'', PStr ''ayyo.skill-manager.skill.v1''),
       (''skill_id'', PStr (kd_skill_id k)),
       (''timeout_ms'', PInt (kd_timeout_ms k)),
       (''version'', PStr (kd_version k))]))))"

definition capability_tuple :: "string list \<Rightarrow> string list res" where
  "capability_tuple ids =
     raise_if (ids = []) invalid_skill
    (raise_if (128 < length ids) invalid_skill
    (tryE (traverse (skill_identifier invalid_skill) ids) (\<lambda>ids.
     raise_if (has_dup ids) invalid_skill (Inr (sort ids)))))"

definition check_concurrency :: "concurrency_policy \<Rightarrow> resource_requirement list \<Rightarrow> unit res" where
  "check_concurrency policy resources =
     raise_if (policy = ParallelPolicy \<and> list_ex (\<lambda>r. rr_access r = ExclusiveAccess) resources) invalid_skill
    (raise_if (policy = ResourceGoverned \<and> resources = []) invalid_skill
    (raise_if (policy = ExclusivePolicy \<and>
        (resources = [] \<or> list_ex (\<lambda>r. rr_access r \<noteq> ExclusiveAccess) resources)) invalid_skill
    (Inr ())))"

definition skill_metadata :: "pyval option \<Rightarrow> pyval res" where
  "skill_metadata metadata =
     (let source = (case metadata of None \<Rightarrow> PDict [] | Some m \<Rightarrow> m) in
      raise_if (\<not> is_dict source) invalid_skill
     (tryE (skill_copy invalid_skill source) (\<lambda>copied.
      raise_if (\<not> is_dict copied) (BuiltinExn AssertionError) (Inr copied))))"

definition mk_skill_definition ::
  "string \<Rightarrow> semantic_version \<Rightarrow> string \<Rightarrow> string \<Rightarrow> string list \<Rightarrow> string \<Rightarrow> value_schema \<Rightarrow> value_schema \<Rightarrow>
   context_requirement list \<Rightarrow> resource_requirement list \<Rightarrow> approval_class list \<Rightarrow> hazard_class \<Rightarrow>
   expected_result \<Rightarrow> int \<Rightarrow> concurrency_policy \<Rightarrow> idempotency_class \<Rightarrow> failure_semantics \<Rightarrow>
   skill_availability \<Rightarrow> skill_lifecycle \<Rightarrow> pyval option \<Rightarrow> skill_definition res" where
  "mk_skill_definition skill_id version name description capability_ids backend_id input_schema
     output_schema required_context resources approval_classes classification expected timeout_ms
     concurrency idempotency failure availability lifecycle metadata =
     tryE (skill_identifier invalid_skill skill_id) (\<lambda>skill_id.
     tryE (skill_text invalid_skill name) (\<lambda>name.
     tryE (skill_text invalid_skill description) (\<lambda>description.
     tryE (capability_tuple capability_ids) (\<lambda>capabilities.
     tryE (skill_identifier invalid_skill backend_id) (\<lambda>backend_id.
     tryE (validate_schema_graph input_schema) (\<lambda>_.
     tryE (validate_schema_graph output_schema) (\<lambda>_.
     raise_if (vs_type input_schema \<noteq> VtObject \<or> vs_nullable input_schema) invalid_skill
    (let required_context = sort_key context_key required_context;
         resources = sort_key rr_resource_id resources;
         approval_classes = sort_key approval_class_value approval_classes in
     raise_if (128 < length required_context \<or> has_dup required_context) invalid_skill
    (raise_if (128 < length resources \<or> has_dup (map rr_resource_id resources)) invalid_skill
    (raise_if (has_dup approval_classes) invalid_skill
    (raise_if (classification = Unclassified) invalid_skill
    (raise_if (timeout_ms < 1 \<or> 86400000 < timeout_ms) invalid_skill
    (raise_if (lifecycle = Deprecated \<and> availability \<in> {SkillAvailable, SkillDegraded}) invalid_skill
    (tryE (check_concurrency concurrency resources) (\<lambda>_.
     tryE (skill_metadata metadata) (\<lambda>metadata.
     let contract = \<lparr>kd_skill_id = skill_id, kd_version = version, kd_name = name,
         kd_description = description, kd_capability_ids = capabilities, kd_backend_id = backend_id,
         kd_input_schema = input_schema, kd_output_schema = output_schema,
         kd_required_context = required_context, kd_required_resources = resources,
         kd_required_approval_classes = approval_classes, kd_safety_classification = classification,
         kd_expected_result = expected, kd_timeout_ms = timeout_ms, kd_concurrency_policy = concurrency,
         kd_idempotency = idempotency, kd_failure_semantics = failure, kd_availability = availability,
         kd_lifecycle = lifecycle, kd_metadata = metadata\<rparr> in
     tryE (skill_document contract) (\<lambda>document.
     tryE (skill_fingerprint_document KfSkill invalid_skill document) (\<lambda>f.
     Inr (skill_contract.extend contract (skill_definition.fields f))))))))))))))))))))"

text \<open>What the constructor guarantees.\<close>

definition skill_ok :: "skill_definition \<Rightarrow> bool" where
  "skill_ok k \<longleftrightarrow>
     skill_identifier_ok (kd_skill_id k) \<and> kd_capability_ids k \<noteq> [] \<and>
     list_all skill_identifier_ok (kd_capability_ids k) \<and> distinct (kd_capability_ids k) \<and>
     skill_identifier_ok (kd_backend_id k) \<and> schema_ok (kd_input_schema k) \<and> schema_ok (kd_output_schema k) \<and>
     vs_type (kd_input_schema k) = VtObject \<and> \<not> vs_nullable (kd_input_schema k) \<and>
     distinct (kd_required_context k) \<and> sorted (map context_key (kd_required_context k)) \<and>
     kd_safety_classification k \<noteq> Unclassified \<and> 1 \<le> kd_timeout_ms k \<and> kd_timeout_ms k \<le> 86400000 \<and>
     kf_kind (kd_fingerprint k) = KfSkill"

lemma capability_tuple_Inr:
  assumes "capability_tuple ids = Inr cs"
  shows "cs \<noteq> [] \<and> list_all skill_identifier_ok cs \<and> distinct cs \<and> set cs = set ids"
proof -
  from assms obtain ys where ys: "list_all2 (\<lambda>x y. skill_identifier invalid_skill x = Inr y) ids ys"
    "ids \<noteq> []" "distinct ys" "cs = sort ys"
    by (auto simp: capability_tuple_def res_simps traverse_Inr)
  from ys(1) have "ys = ids \<and> list_all skill_identifier_ok ids"
    by (induction rule: list_all2_induct) (auto split: if_splits)
  with ys show ?thesis by (auto simp: list_all_iff simp flip: set_empty)
qed

lemma mk_skill_definition_ok:
  "mk_skill_definition i v n d caps b s t ctx rs aps cl ex ms cc ic fs av lc md = Inr k \<Longrightarrow> skill_ok k"
  by (auto simp: mk_skill_definition_def Let_def res_simps skill_ok_def
      skill_contract.defs skill_definition.defs validate_schema_eq skill_fingerprint_document_eq
      dest!: capability_tuple_Inr split: if_splits)

end
