(* ===== verification/Skill_Registry.thy ===== *)
theory Skill_Registry
  imports Skill_Models Py_Order
begin

text \<open>The registry of skills and the selections it pins (\<open>skill_manager/registry.py\<close>, \<open>binding.py\<close>).\<close>

abbreviation invalid_skill_registry :: exn where
  "invalid_skill_registry \<equiv> SkillExn InvalidSkillRegistryError"

section \<open>The registry\<close>

text \<open>\<open>_by_id\<close> is the lookup in the ordered tuple; \<open>_by_capability\<close> is kept as built.\<close>

record skill_registry =
  kr_version :: semantic_version
  kr_fingerprint :: skill_fingerprint
  kr_skills :: "skill_definition list"
  kr_by_capability :: "(string \<times> skill_definition list) list"

definition capability_index :: "skill_definition list \<Rightarrow> (string \<times> skill_definition list) list" where
  "capability_index ordered =
     map (\<lambda>(c, definitions). (c, sort_key (\<lambda>k. (kd_skill_id k, kd_version k)) definitions))
       (sort_key fst (group_pairs (concat (map (\<lambda>k. map (\<lambda>c. (c, k)) (kd_capability_ids k)) ordered))))"

definition registry_document :: "semantic_version \<Rightarrow> skill_definition list \<Rightarrow> pyval" where
  "registry_document version ordered = obj [
     (''schema'', PStr ''ayyo.skill-manager.registry.v1''),
     (''skills'', PList (map (\<lambda>k. obj [
        (''fingerprint'', PStr (skill_fingerprint_str (kd_fingerprint k))),
        (''skill_id'', PStr (kd_skill_id k)),
        (''version'', PStr (kd_version k))]) ordered)),
     (''version'', PStr version)]"

definition mk_skill_registry :: "semantic_version \<Rightarrow> skill_definition list \<Rightarrow> skill_registry res" where
  "mk_skill_registry version skills =
     raise_if (256 < length skills) invalid_skill_registry
    (let ordered = sort_key kd_skill_id skills in
     raise_if (has_dup (map kd_skill_id ordered)) invalid_skill_registry
    (tryE (skill_fingerprint_document KfRegistry invalid_skill_registry (registry_document version ordered)) (\<lambda>f.
     Inr \<lparr>kr_version = version, kr_fingerprint = f, kr_skills = ordered,
          kr_by_capability = capability_index ordered\<rparr>)))"

definition resolve_skill :: "skill_registry \<Rightarrow> string \<Rightarrow> skill_definition option res" where
  "resolve_skill registry skill_id =
     tryE (skill_identifier invalid_skill_registry skill_id) (\<lambda>validated.
     Inr (index_get kd_skill_id (kr_skills registry) validated))"

definition for_capability :: "skill_registry \<Rightarrow> string \<Rightarrow> bool \<Rightarrow> skill_definition list res" where
  "for_capability registry capability_id available_only =
     tryE (skill_identifier invalid_skill_registry capability_id) (\<lambda>validated.
     let matches = group_get (kr_by_capability registry) validated in
     Inr (if \<not> available_only then matches
          else filter (\<lambda>k. kd_availability k = SkillAvailable) matches))"

definition availability_of :: "skill_registry \<Rightarrow> string \<Rightarrow> skill_availability option res" where
  "availability_of registry skill_id =
     tryE (resolve_skill registry skill_id) (\<lambda>skill. Inr (map_option kd_availability skill))"

section \<open>Selections\<close>

record skill_selection =
  kl_skill_id :: string
  kl_skill_version :: semantic_version
  kl_skill_fingerprint :: skill_fingerprint
  kl_capability_id :: string
  kl_source_step_id :: string
  kl_registry_version :: semantic_version
  kl_registry_fingerprint :: skill_fingerprint
  kl_fingerprint :: skill_fingerprint

definition selection_document ::
  "string \<Rightarrow> semantic_version \<Rightarrow> skill_fingerprint \<Rightarrow> string \<Rightarrow> string \<Rightarrow> semantic_version \<Rightarrow>
   skill_fingerprint \<Rightarrow> pyval" where
  "selection_document skill_id skill_version skill_fp capability_id step_id registry_version registry_fp = obj [
     (''capability_id'', PStr capability_id),
     (''registry_fingerprint'', PStr (skill_fingerprint_str registry_fp)),
     (''registry_version'', PStr registry_version),
     (''schema'', PStr ''ayyo.skill-manager.selection.v1''),
     (''skill_fingerprint'', PStr (skill_fingerprint_str skill_fp)),
     (''skill_id'', PStr skill_id),
     (''skill_version'', PStr skill_version),
     (''source_step_id'', PStr step_id)]"

definition mk_skill_selection ::
  "string \<Rightarrow> semantic_version \<Rightarrow> skill_fingerprint \<Rightarrow> string \<Rightarrow> string \<Rightarrow> semantic_version \<Rightarrow>
   skill_fingerprint \<Rightarrow> skill_selection res" where
  "mk_skill_selection skill_id skill_version skill_fp capability_id step_id registry_version registry_fp =
     tryE (for_each (\<lambda>i. tryE (skill_identifier skill_invariant i) (\<lambda>_. Inr ()))
       [skill_id, capability_id, step_id]) (\<lambda>_.
     raise_if (kf_kind skill_fp \<noteq> KfSkill) skill_invariant
    (raise_if (kf_kind registry_fp \<noteq> KfRegistry) skill_invariant
    (tryE (skill_fingerprint_document KfSelection skill_invariant
        (selection_document skill_id skill_version skill_fp capability_id step_id registry_version registry_fp))
      (\<lambda>f. Inr \<lparr>kl_skill_id = skill_id, kl_skill_version = skill_version, kl_skill_fingerprint = skill_fp,
        kl_capability_id = capability_id, kl_source_step_id = step_id,
        kl_registry_version = registry_version, kl_registry_fingerprint = registry_fp,
        kl_fingerprint = f\<rparr>))))"

definition select_skill :: "skill_registry \<Rightarrow> string \<Rightarrow> string \<Rightarrow> string \<Rightarrow> skill_selection res" where
  "select_skill registry skill_id capability_id step_id =
     tryE (resolve_skill registry skill_id) (\<lambda>found.
     case found of
       None \<Rightarrow> Inl invalid_skill_registry
     | Some skill \<Rightarrow>
         tryE (skill_identifier invalid_skill_registry capability_id) (\<lambda>capability_id.
         tryE (skill_identifier invalid_skill_registry step_id) (\<lambda>step_id.
         raise_if (capability_id \<notin> set (kd_capability_ids skill)) invalid_skill_registry
        (mk_skill_selection (kd_skill_id skill) (kd_version skill) (kd_fingerprint skill) capability_id step_id
           (kr_version registry) (kr_fingerprint registry)))))"

section \<open>Laws\<close>

lemma group_get_map:
  "group_get (map (\<lambda>(c, ds). (c, f ds)) G) c = (case map_of G c of None \<Rightarrow> [] | Some ds \<Rightarrow> f ds)"
  by (induction G) (auto simp: group_get_def)

lemma map_of_sort_key: "distinct (map fst G) \<Longrightarrow> map_of (sort_key f G) = map_of G"
  by (intro map_of_inject_set [THEN iffD2]) (simp_all add: distinct_map_sort_key)

lemma capability_members:
  assumes "list_all (\<lambda>k. distinct (kd_capability_ids k)) ordered"
  shows "group_get (capability_index ordered) c =
    sort_key (\<lambda>k. (kd_skill_id k, kd_version k)) (filter (\<lambda>k. c \<in> set (kd_capability_ids k)) ordered)"
proof -
  let ?ps = "concat (map (\<lambda>k. map (\<lambda>c. (c, k)) (kd_capability_ids k)) ordered)"
  have one: "map snd (filter (\<lambda>p. fst p = c) (map (\<lambda>c. (c, k)) cs)) = (if c \<in> set cs then [k] else [])"
    if "distinct cs" for cs and k :: skill_definition
    using that by (induction cs) auto
  have "map snd (filter (\<lambda>p. fst p = c) ?ps) = filter (\<lambda>k. c \<in> set (kd_capability_ids k)) ordered"
    using assms by (induction ordered) (simp_all add: one)
  then have "group_get (group_pairs ?ps) c = filter (\<lambda>k. c \<in> set (kd_capability_ids k)) ordered"
    by (simp add: group_get_pairs)
  moreover have "group_get (capability_index ordered) c =
      sort_key (\<lambda>k. (kd_skill_id k, kd_version k)) (group_get (group_pairs ?ps) c)"
    unfolding capability_index_def group_get_map map_of_sort_key [OF group_pairs_distinct]
    by (simp add: group_get_def split: option.splits)
  ultimately show ?thesis by simp
qed

end
