(* ===== verification/Skill_Binding.thy ===== *)
theory Skill_Binding
  imports Skill_Registry Safety_Service
begin

text \<open>The binding of a reviewed plan step to a skill (\<open>skill_manager/binding.py\<close>).\<close>

abbreviation invalid_skill_binding :: exn where
  "invalid_skill_binding \<equiv> SkillExn InvalidSkillBindingError"

section \<open>Enumerations\<close>

datatype binding_status = BindEligible | BindApprovalRequired | BindIneligible

datatype binding_reason =
    ReasonSafetyStale
  | ReasonRegistryStale
  | ReasonSafetyBlocked
  | ReasonSafetyDeferred
  | ReasonSkillUnavailable
  | ReasonCapability
  | ReasonParameters
  | ReasonContext
  | ReasonExpectedResult
  | ReasonClassification
  | ReasonApprovals
  | ReasonApprovalRequired

definition binding_reasons :: "binding_reason list" where
  "binding_reasons = [ReasonSafetyStale, ReasonRegistryStale, ReasonSafetyBlocked, ReasonSafetyDeferred,
     ReasonSkillUnavailable, ReasonCapability, ReasonParameters, ReasonContext, ReasonExpectedResult,
     ReasonClassification, ReasonApprovals, ReasonApprovalRequired]"

datatype invocation_status = InvocationEligible | InvocationApprovalRequired

fun invocation_status_value :: "invocation_status \<Rightarrow> string" where
  "invocation_status_value InvocationEligible = ''eligible_for_runtime_handoff''"
| "invocation_status_value InvocationApprovalRequired = ''external_approval_required''"

section \<open>Invocations\<close>

definition bound_context_document :: "context_reference \<Rightarrow> pyval" where
  "bound_context_document r = obj [
     (''conflict_ids'', str_list (map uuid_str (cf_conflict_ids r))),
     (''domain'', PStr (context_domain_value (cr_domain (cf_requirement r)))),
     (''memory_ids'', str_list (map uuid_str (cf_memory_ids r))),
     (''predicate'', PStr (cr_predicate (cf_requirement r))),
     (''required'', PBool (cf_required r)),
     (''state'', PStr (context_state_value (cf_state r))),
     (''value_digests'', str_list (cf_value_digests r))]"

definition bound_approval_document :: "safety_approval \<Rightarrow> pyval" where
  "bound_approval_document a = obj [
     (''affected_step_id'', PStr (sa_affected_step a)),
     (''approval_class'', PStr (approval_class_value (sa_approval_class a))),
     (''description'', PStr (sa_description a)),
     (''requirement_id'', PStr (sa_requirement_id a)),
     (''source'', PStr (approval_source_value (sa_source a)))]"

text \<open>The sources of an invocation: what the safety decision and the proposal are identified by.\<close>

record invocation_sources =
  is_request_id :: string
  is_decision_id :: string
  is_decision_fingerprint :: exec_fingerprint
  is_safety_decision_id :: string
  is_safety_fingerprint :: safety_fingerprint
  is_proposal_fingerprint :: safety_fingerprint
  is_policy_fingerprint :: safety_fingerprint
  is_policy_version :: string

record skill_invocation =
  ki_invocation_id :: string
  ki_status :: invocation_status
  ki_selection :: skill_selection
  ki_skill_definition :: skill_definition
  ki_backend_id :: string
  ki_expected_result :: expected_result
  ki_output_schema :: value_schema
  ki_context_references :: "context_reference list"
  ki_required_resources :: "resource_requirement list"
  ki_required_approvals :: "safety_approval list"
  ki_safety_classification :: hazard_class
  ki_timeout_ms :: int
  ki_concurrency_policy :: concurrency_policy
  ki_idempotency :: idempotency_class
  ki_failure_semantics :: failure_semantics
  ki_lifecycle :: skill_lifecycle
  ki_sources :: invocation_sources
  ki_fingerprint :: skill_fingerprint
  ki_parameters :: pyval

definition invocation_contract_document ::
  "invocation_status \<Rightarrow> skill_selection \<Rightarrow> skill_definition \<Rightarrow> pyval \<Rightarrow> context_reference list \<Rightarrow>
   safety_approval list \<Rightarrow> invocation_sources \<Rightarrow> pyval \<Rightarrow> pyval" where
  "invocation_contract_document status selection skill parameters references approvals sources output_doc = obj [
     (''backend_id'', PStr (kd_backend_id skill)),
     (''concurrency_policy'', PStr (concurrency_policy_value (kd_concurrency_policy skill))),
     (''context_references'', PList (map bound_context_document references)),
     (''expected_result'', PStr (expected_result_value (kd_expected_result skill))),
     (''failure_semantics'', PStr (failure_semantics_value (kd_failure_semantics skill))),
     (''idempotency'', PStr (idempotency_value (kd_idempotency skill))),
     (''lifecycle'', PStr (skill_lifecycle_value (kd_lifecycle skill))),
     (''output_schema'', output_doc),
     (''parameters'', parameters),
     (''required_approvals'', PList (map bound_approval_document approvals)),
     (''required_resources'', PList (map resource_document (kd_required_resources skill))),
     (''safety_classification'', PStr (hazard_class_value (kd_safety_classification skill))),
     (''schema'', PStr ''ayyo.skill-manager.invocation.v1''),
     (''selection_fingerprint'', PStr (skill_fingerprint_str (kl_fingerprint selection))),
     (''source_executive_decision_id'', PStr (is_decision_id sources)),
     (''source_executive_fingerprint'', PStr (fingerprint_str (is_decision_fingerprint sources))),
     (''source_policy_fingerprint'', PStr (safety_fingerprint_str (is_policy_fingerprint sources))),
     (''source_policy_version'', PStr (is_policy_version sources)),
     (''source_proposal_fingerprint'', PStr (safety_fingerprint_str (is_proposal_fingerprint sources))),
     (''source_request_id'', PStr (is_request_id sources)),
     (''source_safety_decision_id'', PStr (is_safety_decision_id sources)),
     (''source_safety_fingerprint'', PStr (safety_fingerprint_str (is_safety_fingerprint sources))),
     (''status'', PStr (invocation_status_value status)),
     (''timeout_ms'', PInt (kd_timeout_ms skill))]"

text \<open>\<open>except InvalidSkillParametersError as error: raise e\<close>.\<close>

definition parameters_error_as :: "exn \<Rightarrow> 'a res \<Rightarrow> 'a res" where
  "parameters_error_as e r = (case r of Inl x \<Rightarrow> Inl (if x = invalid_skill_parameters then e else x) | Inr v \<Rightarrow> Inr v)"

definition check_sources :: "invocation_sources \<Rightarrow> unit res" where
  "check_sources s =
     raise_if (is_request_id s = [] \<or> is_decision_id s = [] \<or> is_safety_decision_id s = []) skill_invariant
    (raise_if (fp_kind (is_decision_fingerprint s) \<noteq> FpDecision) skill_invariant
    (raise_if (sf_kind (is_safety_fingerprint s) \<noteq> SfDecision \<or> sf_kind (is_proposal_fingerprint s) \<noteq> SfProposal \<or>
        sf_kind (is_policy_fingerprint s) \<noteq> SfPolicy) skill_invariant
    (raise_if (is_policy_version s = []) skill_invariant (Inr ()))))"

definition approval_classes_for :: "safety_approval list \<Rightarrow> string \<Rightarrow> approval_class set" where
  "approval_classes_for approvals step_id =
     sa_approval_class ` {a \<in> set approvals. sa_affected_step a = step_id}"

definition mk_skill_invocation ::
  "invocation_status \<Rightarrow> skill_selection \<Rightarrow> skill_definition \<Rightarrow> pyval \<Rightarrow> context_reference list \<Rightarrow>
   safety_approval list \<Rightarrow> invocation_sources \<Rightarrow> skill_invocation res" where
  "mk_skill_invocation status selection skill parameters references approvals sources =
     raise_if (kl_skill_id selection \<noteq> kd_skill_id skill \<or> kl_skill_version selection \<noteq> kd_version skill \<or>
         kl_skill_fingerprint selection \<noteq> kd_fingerprint skill \<or>
         kl_capability_id selection \<notin> set (kd_capability_ids skill)) skill_invariant
    (tryE (parameters_error_as skill_invariant
        (validate_skill_parameters (kd_input_schema skill) parameters)) (\<lambda>parameter_copy.
     let references = sort_key (\<lambda>r. context_key (cf_requirement r)) references;
         context_keys = map cf_requirement references in
     raise_if (has_dup context_keys) skill_invariant
    (raise_if (list_ex (\<lambda>r. \<not> cf_required r) references) skill_invariant
    (raise_if (set context_keys \<noteq> set (kd_required_context skill)) skill_invariant
    (let approval_keys = map approval_key approvals in
     raise_if (approval_keys \<noteq> sorted_set approval_keys) skill_invariant
    (raise_if (status = InvocationEligible \<and> approvals \<noteq> []) skill_invariant
    (raise_if (status = InvocationApprovalRequired \<and> approvals = []) skill_invariant
    (raise_if (\<not> set (kd_required_approval_classes skill) \<subseteq>
        approval_classes_for approvals (kl_source_step_id selection)) skill_invariant
    (tryE (check_sources sources) (\<lambda>_.
     tryE (schema_document (kd_output_schema skill)) (\<lambda>output_doc.
     tryE (skill_fingerprint_document KfInvocation skill_invariant
        (invocation_contract_document status selection skill parameter_copy references approvals sources
           output_doc)) (\<lambda>f.
     Inr \<lparr>ki_invocation_id = ''skill-invocation-'' @ kf_digest f, ki_status = status,
          ki_selection = selection, ki_skill_definition = skill, ki_backend_id = kd_backend_id skill,
          ki_expected_result = kd_expected_result skill, ki_output_schema = kd_output_schema skill,
          ki_context_references = references, ki_required_resources = kd_required_resources skill,
          ki_required_approvals = approvals, ki_safety_classification = kd_safety_classification skill,
          ki_timeout_ms = kd_timeout_ms skill, ki_concurrency_policy = kd_concurrency_policy skill,
          ki_idempotency = kd_idempotency skill, ki_failure_semantics = kd_failure_semantics skill,
          ki_lifecycle = kd_lifecycle skill, ki_sources = sources, ki_fingerprint = f,
          ki_parameters = parameter_copy\<rparr>))))))))))))"

text \<open>The property \<open>parameters\<close> of an invocation: a copy, asserted to be a dict.\<close>

definition invocation_parameters :: "skill_invocation \<Rightarrow> pyval res" where
  "invocation_parameters i = skill_dict_property (ki_parameters i)"

section \<open>Results\<close>

record binding_result =
  br_status :: binding_status
  br_reasons :: "binding_reason list"
  br_selection :: skill_selection
  br_safety_decision_id :: string
  br_invocation :: "skill_invocation option"

definition check_binding_result :: "binding_result \<Rightarrow> binding_result res" where
  "check_binding_result b =
     raise_if (br_reasons b \<noteq> enum_ordered binding_reasons (set (br_reasons b))) skill_invariant
    (raise_if (br_safety_decision_id b = []) skill_invariant
    (if br_status b = BindIneligible
     then raise_if (br_invocation b \<noteq> None \<or> br_reasons b = []) skill_invariant (Inr b)
     else (case br_invocation b of
         None \<Rightarrow> Inl skill_invariant
       | Some i \<Rightarrow>
           raise_if (ki_status i \<noteq>
               (if br_status b = BindEligible then InvocationEligible else InvocationApprovalRequired))
             skill_invariant
          (raise_if (ki_selection i \<noteq> br_selection b) skill_invariant
          (raise_if (is_safety_decision_id (ki_sources i) \<noteq> br_safety_decision_id b) skill_invariant
          (raise_if (br_status b = BindEligible \<and> br_reasons b \<noteq> []) skill_invariant
          (raise_if (br_status b = BindApprovalRequired \<and> br_reasons b \<noteq> [ReasonApprovalRequired])
             skill_invariant (Inr b))))))))"

section \<open>The service\<close>

record skill_manager =
  km_registry :: skill_registry
  km_safety_kernel :: safety_kernel

text \<open>\<open>except SafetyKernelError as error: raise InvalidSkillBindingError\<close>.\<close>

definition safety_errors_as :: "exn \<Rightarrow> 'a res \<Rightarrow> 'a res" where
  "safety_errors_as e r =
     (case r of Inl x \<Rightarrow> Inl (case x of SafetyExn _ \<Rightarrow> e | _ \<Rightarrow> x) | Inr v \<Rightarrow> Inr v)"

definition ineligible ::
  "skill_selection \<Rightarrow> safety_decision \<Rightarrow> binding_reason set \<Rightarrow> binding_result res" where
  "ineligible selection decision reasons =
     check_binding_result \<lparr>br_status = BindIneligible, br_reasons = enum_ordered binding_reasons reasons,
       br_selection = selection, br_safety_decision_id = yd_decision_id decision, br_invocation = None\<rparr>"

text \<open>The comparison of the step with the skill: the parameters and the reasons against the binding.\<close>

definition step_reasons_for ::
  "skill_definition \<Rightarrow> plan_step option \<Rightarrow> (pyval \<times> binding_reason set) res" where
  "step_reasons_for skill step =
     (case step of
        None \<Rightarrow> Inr (PDict [], {})
      | Some s \<Rightarrow>
          tryE (case tryE (step_parameters s) (validate_skill_parameters (kd_input_schema skill)) of
              Inl x \<Rightarrow> if x = invalid_skill_parameters then Inr (PDict [], {ReasonParameters}) else Inl x
            | Inr v \<Rightarrow> Inr (v, {})) (\<lambda>(parameters, reasons).
          Inr (parameters, reasons \<union>
            (if ps_required_context s \<noteq> kd_required_context skill then {ReasonContext} else {}) \<union>
            (if ps_expected_result s \<noteq> kd_expected_result skill then {ReasonExpectedResult} else {}))))"

definition compatibility ::
  "skill_definition \<Rightarrow> skill_selection \<Rightarrow> plan_step option \<Rightarrow> step_decision option \<Rightarrow> safety_approval list \<Rightarrow>
   (pyval \<times> binding_reason set) res" where
  "compatibility skill selection step safety_step approvals =
     tryE (step_reasons_for skill step) (\<lambda>(parameters, step_reasons).
     Inr (parameters,
       (if step = None \<or> safety_step = None \<or>
           map_option ps_capability_id step \<noteq> Some (kl_capability_id selection) then {ReasonCapability} else {}) \<union>
       (if kl_capability_id selection \<notin> set (kd_capability_ids skill) then {ReasonCapability} else {}) \<union>
       (if kd_availability skill \<noteq> SkillAvailable then {ReasonSkillUnavailable} else {}) \<union>
       step_reasons \<union>
       (case safety_step of None \<Rightarrow> {} | Some d \<Rightarrow>
          if sd_hazard_class d \<noteq> kd_safety_classification skill then {ReasonClassification} else {}) \<union>
       (if \<not> set (kd_required_approval_classes skill) \<subseteq>
           approval_classes_for approvals (kl_source_step_id selection) then {ReasonApprovals} else {})))"

definition decision_sources :: "safety_decision \<Rightarrow> invocation_sources" where
  "decision_sources d = \<lparr>is_request_id = yd_source_request_id d, is_decision_id = yd_source_decision_id d,
     is_decision_fingerprint = yd_source_decision_fingerprint d, is_safety_decision_id = yd_decision_id d,
     is_safety_fingerprint = yd_decision_fingerprint d, is_proposal_fingerprint = yd_proposal_fingerprint d,
     is_policy_fingerprint = yd_policy_fingerprint d, is_policy_version = yd_policy_version d\<rparr>"

text \<open>The end of \<open>bind\<close>, when nothing speaks against the binding.\<close>

definition bind_invocation ::
  "executive_decision \<Rightarrow> safety_decision \<Rightarrow> skill_selection \<Rightarrow> skill_definition \<Rightarrow> pyval \<Rightarrow> binding_result res"
where
  "bind_invocation proposal decision selection skill parameters =
     (let references = filter (\<lambda>r. cf_required r \<and> cf_requirement r \<in> set (kd_required_context skill))
        (ed_context_references proposal) in
      if cf_requirement ` set references \<noteq> set (kd_required_context skill)
      then ineligible selection decision {ReasonContext}
      else
      (let gated = (yd_disposition decision = ExternalApprovalRequired) in
       tryE (mk_skill_invocation (if gated then InvocationApprovalRequired else InvocationEligible)
          selection skill parameters references (yd_required_approvals decision) (decision_sources decision))
        (\<lambda>i. check_binding_result
          \<lparr>br_status = (if gated then BindApprovalRequired else BindEligible),
           br_reasons = (if gated then [ReasonApprovalRequired] else []), br_selection = selection,
           br_safety_decision_id = yd_decision_id decision, br_invocation = Some i\<rparr>)))"

definition selection_stale :: "skill_registry \<Rightarrow> skill_selection \<Rightarrow> skill_definition \<Rightarrow> bool" where
  "selection_stale registry selection skill \<longleftrightarrow>
     kl_registry_version selection \<noteq> kr_version registry \<or>
     kl_registry_fingerprint selection \<noteq> kr_fingerprint registry \<or>
     kl_skill_version selection \<noteq> kd_version skill \<or>
     kl_skill_fingerprint selection \<noteq> kd_fingerprint skill \<or>
     kl_capability_id selection \<notin> set (kd_capability_ids skill)"

definition bind_skill ::
  "skill_manager \<Rightarrow> executive_decision \<Rightarrow> safety_decision \<Rightarrow> skill_selection \<Rightarrow> binding_result res" where
  "bind_skill manager proposal decision selection =
     (let registry = km_registry manager; safety = km_safety_kernel manager in
      tryE (safety_errors_as invalid_skill_binding (safety_revalidate safety decision proposal)) (\<lambda>revalidation.
      if sv_status revalidation = SafetyStale then ineligible selection decision {ReasonSafetyStale}
      else
      tryE (safety_errors_as invalid_skill_binding (evaluate_proposal safety proposal)) (\<lambda>rebuilt.
      raise_if (rebuilt \<noteq> decision) invalid_skill_binding
     (tryE (resolve_skill registry (kl_skill_id selection)) (\<lambda>found.
      case found of
        None \<Rightarrow> ineligible selection decision {ReasonRegistryStale}
      | Some skill \<Rightarrow>
          if selection_stale registry selection skill
          then ineligible selection decision {ReasonRegistryStale}
          else
          tryE (select_skill registry (kd_skill_id skill) (kl_capability_id selection)
              (kl_source_step_id selection)) (\<lambda>current.
          if current \<noteq> selection then ineligible selection decision {ReasonRegistryStale}
          else if yd_disposition decision = Blocked then ineligible selection decision {ReasonSafetyBlocked}
          else if yd_disposition decision = Deferred then ineligible selection decision {ReasonSafetyDeferred}
          else
          (case ed_proposed_plan proposal of
             None \<Rightarrow> Inl (BuiltinExn AssertionError)
           | Some plan \<Rightarrow>
               tryE (compatibility skill selection
                   (find (\<lambda>s. ps_step_id s = kl_source_step_id selection) (pl_steps plan))
                   (find (\<lambda>s. sd_step_id s = kl_source_step_id selection) (yd_step_decisions decision))
                   (yd_required_approvals decision)) (\<lambda>(parameters, reasons).
               if reasons \<noteq> {} then ineligible selection decision reasons
               else bind_invocation proposal decision selection skill parameters))))))))"


text \<open>What a binding that carries an invocation guarantees, and when a binding carries one.\<close>

section \<open>The results of the parts\<close>

lemma ineligible_Inr:
  "ineligible selection decision reasons = Inr b \<Longrightarrow>
   br_invocation b = None \<and> br_status b = BindIneligible \<and> br_reasons b = enum_ordered binding_reasons reasons"
  by (auto simp: ineligible_def check_binding_result_def res_simps)

lemma binding_reasons_all [simp]: "set binding_reasons = UNIV" "distinct binding_reasons"
proof -
  have "r \<in> set binding_reasons" for r by (cases r) (simp_all add: binding_reasons_def)
  then show "set binding_reasons = UNIV" by blast
qed (simp add: binding_reasons_def)

lemma ordered_reasons_set [simp]: "set (enum_ordered binding_reasons R) = R"
  by (simp add: enum_ordered_def)

lemma ineligible_total:
  assumes "yd_decision_id decision \<noteq> []" "reasons \<noteq> {}"
  shows "\<exists>b. ineligible selection decision reasons = Inr b"
proof -
  have "enum_ordered binding_reasons reasons \<noteq> []" using assms(2) ordered_reasons_set [of reasons] by force
  then show ?thesis using assms(1) by (simp add: ineligible_def check_binding_result_def)
qed

lemma select_skill_Inr:
  assumes "select_skill registry skill_id capability_id step_id = Inr selection"
  shows "\<exists>skill. index_get kd_skill_id (kr_skills registry) skill_id = Some skill \<and>
    skill_identifier_ok skill_id \<and> skill_identifier_ok capability_id \<and> skill_identifier_ok step_id \<and>
    capability_id \<in> set (kd_capability_ids skill) \<and> kl_skill_id selection = kd_skill_id skill \<and>
    kl_skill_version selection = kd_version skill \<and> kl_skill_fingerprint selection = kd_fingerprint skill \<and>
    kl_capability_id selection = capability_id \<and> kl_source_step_id selection = step_id \<and>
    kl_registry_version selection = kr_version registry \<and>
    kl_registry_fingerprint selection = kr_fingerprint registry"
  using assms
  by (auto simp: select_skill_def resolve_skill_def mk_skill_selection_def res_simps split: option.splits if_splits)

lemma mk_skill_invocation_Inr:
  assumes "mk_skill_invocation status selection skill parameters references approvals sources = Inr i"
  shows "ki_status i = status \<and> ki_selection i = selection \<and> ki_skill_definition i = skill \<and>
    validate_skill_parameters (kd_input_schema skill) parameters = Inr (ki_parameters i) \<and>
    set (ki_context_references i) = set references \<and>
    cf_requirement ` set references = set (kd_required_context skill) \<and>
    (\<forall>r \<in> set references. cf_required r) \<and> ki_required_approvals i = approvals \<and>
    set (kd_required_approval_classes skill) \<subseteq> approval_classes_for approvals (kl_source_step_id selection) \<and>
    (status = InvocationEligible \<longleftrightarrow> approvals = []) \<and> ki_sources i = sources \<and>
    kl_capability_id selection \<in> set (kd_capability_ids skill)"
proof -
  have caught: "parameters_error_as e r = Inr v \<longleftrightarrow> r = Inr v" for e and r :: "'a res" and v
    by (cases r) (auto simp: parameters_error_as_def)
  show ?thesis
    using assms
    by (cases status)
      (auto simp: mk_skill_invocation_def Let_def res_simps caught list_ex_iff)
qed

lemma validated_parameters:
  assumes "validate_skill_parameters s v = Inr w"
  shows "w = v \<and> skill_dict_property w = Inr w"
  using assms by (auto simp: validate_skill_parameters_def skill_dict_property_def res_simps split: if_splits)

section \<open>Bindings with an invocation\<close>

lemma safety_errors_Inr [simp]: "safety_errors_as e r = Inr v \<longleftrightarrow> r = Inr v"
  by (cases r) (simp_all add: safety_errors_as_def)

lemma compatibility_Inr:
  assumes "compatibility skill selection step verdict approvals = Inr (parameters, {})"
  shows "\<exists>s d v. step = Some s \<and> verdict = Some d \<and> ps_capability_id s = kl_capability_id selection \<and>
    kd_availability skill = SkillAvailable \<and> step_parameters s = Inr v \<and>
    validate_skill_parameters (kd_input_schema skill) v = Inr parameters \<and>
    ps_required_context s = kd_required_context skill \<and> ps_expected_result s = kd_expected_result skill \<and>
    sd_hazard_class d = kd_safety_classification skill"
proof -
  obtain s d where sd: "step = Some s" "verdict = Some d"
    using assms by (cases step; cases verdict) (auto simp: compatibility_def res_simps split: if_splits)
  then show ?thesis
    using assms
    by (auto simp: compatibility_def step_reasons_for_def res_simps split: if_splits sum.splits)
qed

lemma bind_invocation_Inr:
  assumes "bind_invocation proposal decision selection skill parameters = Inr b" "br_invocation b = Some i"
  shows "mk_skill_invocation
      (if yd_disposition decision = ExternalApprovalRequired then InvocationApprovalRequired else InvocationEligible)
      selection skill parameters
      (filter (\<lambda>r. cf_required r \<and> cf_requirement r \<in> set (kd_required_context skill)) (ed_context_references proposal))
      (yd_required_approvals decision) (decision_sources decision) = Inr i \<and>
    br_status b = (if yd_disposition decision = ExternalApprovalRequired then BindApprovalRequired else BindEligible)"
  using assms
  by (auto simp: bind_invocation_def Let_def check_binding_result_def res_simps
      dest: ineligible_Inr split: if_splits)

lemma bind_skill_Inr:
  assumes "bind_skill manager proposal decision selection = Inr b" "br_invocation b = Some i"
  obtains skill plan parameters where
    "evaluate_proposal (km_safety_kernel manager) proposal = Inr decision"
    "yd_disposition decision \<noteq> Blocked" "yd_disposition decision \<noteq> Deferred"
    "index_get kd_skill_id (kr_skills (km_registry manager)) (kl_skill_id selection) = Some skill"
    "select_skill (km_registry manager) (kd_skill_id skill) (kl_capability_id selection)
       (kl_source_step_id selection) = Inr selection"
    "ed_proposed_plan proposal = Some plan"
    "compatibility skill selection
       (find (\<lambda>s. ps_step_id s = kl_source_step_id selection) (pl_steps plan))
       (find (\<lambda>s. sd_step_id s = kl_source_step_id selection) (yd_step_decisions decision))
       (yd_required_approvals decision) = Inr (parameters, {})"
    "bind_invocation proposal decision selection skill parameters = Inr b"
proof -
  have none: "ineligible selection decision R \<noteq> Inr b" for R using assms(2) ineligible_Inr by fastforce
  from assms(1) show ?thesis
    unfolding bind_skill_def Let_def tryE_Inr raise_if_Inr
    by (auto simp: none res_simps resolve_skill_def intro: that split: if_splits option.splits)
qed

end
