(* ===== verification/Skill_Fit.thy ===== *)
theory Skill_Fit
  imports Skill_Binding Safety_Properties
begin

text \<open>
  The whole chain from the Executive through the Safety Kernel to a skill: when a reviewed step of a
  proposed plan is bound.
\<close>

section \<open>Safety decisions\<close>

lemma safety_decision_parts:
  assumes y: "policy_ok y" and ev: "evaluate_proposal \<lparr>sk_policy = y\<rparr> d = Inr z"
  obtains p where "snapshot_proposal True d = Inr p" "z = proposal_decision y p"
    "list_all step_decision_ok (yd_step_decisions z)"
    "yd_step_decisions z = step_verdicts y (pp_steps p) (pp_assumptions p)"
    "distinct (map sd_step_id (yd_step_decisions z))" "yd_step_decisions z \<noteq> []"
    "yd_required_approvals z = decision_approvals (yd_step_decisions z)"
    "yd_disposition z = strongest (map sd_disposition (yd_step_decisions z))"
    "text_ok (yd_decision_id z)" "check_sources (decision_sources z) = Inr ()"
proof -
  from ev obtain p steps where p: "snapshot_proposal True d = Inr p"
    and mk: "mk_safety_decision (pp_source_decision_id p) (pp_source_request_id p) (pp_owner_subject p)
       (pp_source_decision_fingerprint p) (sy_version y) (sy_fingerprint y) (pp_fingerprint p) steps = Inr z"
    by (auto simp: evaluate_proposal_def res_simps)
  note m = mk_safety_decision_Inr [OF mk]
  note e = evaluation_parts [OF y ev p]
  have "text_ok (yd_decision_id z)" using m safety_decision_id_ok by metis
  moreover have "safety_policy_version \<noteq> []" by (simp add: safety_policy_version_def)
  ultimately have "check_sources (decision_sources z) = Inr ()"
    using m by (auto simp: check_sources_def decision_sources_def text_ok_def exact_text_ok_def)
  moreover have steps: "yd_step_decisions z = steps" "steps = step_verdicts y (pp_steps p) (pp_assumptions p)"
    using m decision_disposition(2) [of y p] e(1) by auto
  moreover have "list_all step_decision_ok (yd_step_decisions z)" using e(4) steps by simp
  moreover have "distinct (map sd_step_id (yd_step_decisions z))" "yd_step_decisions z \<noteq> []"
    "yd_required_approvals z = decision_approvals (yd_step_decisions z)"
    "yd_disposition z = strongest (map sd_disposition (yd_step_decisions z))"
    using m steps(1) by auto
  ultimately show ?thesis
    using steps \<open>text_ok (yd_decision_id z)\<close> by (intro that [OF p e(1)]) auto
qed

lemma approvals_ordered:
  assumes "list_all step_decision_ok steps" "distinct (map sd_step_id steps)"
  shows "map approval_key (decision_approvals steps) = sorted_set (map approval_key (decision_approvals steps))"
proof -
  have "inj_on approval_key (set (concat (map sd_required_approvals steps)))"
  proof (rule inj_onI)
    fix a b assume a: "a \<in> set (concat (map sd_required_approvals steps))"
      and b: "b \<in> set (concat (map sd_required_approvals steps))" and key: "approval_key a = approval_key b"
    from a b obtain s t where st: "s \<in> set steps" "a \<in> set (sd_required_approvals s)"
      "t \<in> set steps" "b \<in> set (sd_required_approvals t)" by auto
    then have "sd_step_id s = sd_step_id t"
      using key assms(1) by (auto simp: list_all_iff step_decision_ok_def approval_key_def)
    then have "s = t" using assms(2) st(1,3) by (auto simp: distinct_map dest: inj_onD)
    moreover have "distinct (map approval_key (sd_required_approvals s))"
      using assms(1) st(1) by (simp add: list_all_iff step_decision_ok_def)
    ultimately show "a = b" using st key by (auto simp: distinct_map dest: inj_onD)
  qed
  then show ?thesis by (simp add: decision_approvals_def distinct_map)
qed

lemma approvals_gated:
  assumes "list_all step_decision_ok steps" "steps \<noteq> []"
  shows "strongest (map sd_disposition steps) = ExternalApprovalRequired \<Longrightarrow> decision_approvals steps \<noteq> []"
    "strongest (map sd_disposition steps) = EligibleForDownstream \<Longrightarrow> decision_approvals steps = []"
proof -
  have all: "set (decision_approvals steps) = (\<Union>s \<in> set steps. set (sd_required_approvals s))"
    by (simp add: decision_approvals_def)
  show "decision_approvals steps \<noteq> []" if "strongest (map sd_disposition steps) = ExternalApprovalRequired"
  proof -
    have "ExternalApprovalRequired \<in> set (map sd_disposition steps)"
      using that strongest_in [of "map sd_disposition steps"] assms(2) by simp
    then obtain s where "s \<in> set steps" "sd_disposition s = ExternalApprovalRequired" by auto
    then have "sd_required_approvals s \<noteq> []" using assms(1) by (auto simp: list_all_iff step_decision_ok_def)
    with all \<open>s \<in> set steps\<close> show ?thesis by fastforce
  qed
  show "decision_approvals steps = []" if "strongest (map sd_disposition steps) = EligibleForDownstream"
  proof -
    have "\<forall>s \<in> set steps. sd_required_approvals s = []"
      using that strongest_eligible [of "map sd_disposition steps"] assms
      by (auto simp: list_all_iff step_decision_ok_def)
    then have "concat (map sd_required_approvals steps) = []" by simp
    then show ?thesis by (simp only: decision_approvals_def remdups.simps sort_key_Nil_iff)
  qed
qed

lemma reviewed_verdict:
  assumes y: "policy_ok y" and ev: "evaluate_proposal \<lparr>sk_policy = y\<rparr> d = Inr z"
    and plan: "ed_proposed_plan d = Some plan" "plan_ok plan" and s: "s \<in> set (pl_steps plan)"
  shows "\<exists>v. find (\<lambda>v. sd_step_id v = ps_step_id s) (yd_step_decisions z) = Some v \<and>
    sd_hazard_class v = step_hazard y (step_copy s)"
proof -
  obtain p where p: "snapshot_proposal True d = Inr p"
    "yd_step_decisions z = step_verdicts y (pp_steps p) (pp_assumptions p)"
    "distinct (map sd_step_id (yd_step_decisions z))"
    using safety_decision_parts [OF y ev] by metis
  obtain c where "snapshot_contents d = Inr c" "pp_steps p = pn_steps c"
    using p(1) by (auto simp: snapshot_proposal_Inr)
  then have "snapshot_plan d = Inr (pp_steps p)" by (simp add: snapshot_contents_Inr)
  from snapshot_plan_Inr [OF this] plan obtain raw where
    "traverse snapshot_step (pl_steps plan) = Inr raw" "mset (pp_steps p) = mset raw" by auto
  then have "set (pp_steps p) = step_copy ` set (pl_steps plan)"
    using plan_steps_copied [OF plan(2)] by (metis list.set_map mset_eq_setD sum.inject(2))
  then have "step_copy s \<in> set (pp_steps p)" using s by simp
  from step_verdict_mem [OF this, of y "pp_assumptions p"]
  obtain v where v: "v \<in> set (yd_step_decisions z)" "sd_step_id v = ps_step_id s"
    "sd_hazard_class v = step_hazard y (step_copy s)"
    unfolding p(2) by (auto simp: step_verdict_def step_copy_def)
  then have "find (\<lambda>v. sd_step_id v = ps_step_id s) (yd_step_decisions z) \<noteq> None"
    by (auto simp: find_None_iff)
  then obtain w where w: "find (\<lambda>v. sd_step_id v = ps_step_id s) (yd_step_decisions z) = Some w" by blast
  then have "w \<in> set (yd_step_decisions z)" "sd_step_id w = ps_step_id s"
    by (auto simp: find_Some_iff)
  moreover have "inj_on sd_step_id (set (yd_step_decisions z))" using p(3) by (simp add: distinct_map)
  ultimately have "w = v" using v by (metis inj_onD)
  with w v(3) show ?thesis by blast
qed

section \<open>Steps and skills that fit\<close>

text \<open>What the Skill Manager asks of a step, its reviewed hazard class and the approvals.\<close>

definition step_fits ::
  "skill_definition \<Rightarrow> plan_step \<Rightarrow> hazard_class \<Rightarrow> safety_approval list \<Rightarrow> bool" where
  "step_fits skill s hazard approvals \<longleftrightarrow>
     kd_availability skill = SkillAvailable \<and> bounded_ok skill_json_limits (ps_parameters s) \<and>
     conforms (kd_input_schema skill) (ps_parameters s) \<and> ps_required_context s = kd_required_context skill \<and>
     ps_expected_result s = kd_expected_result skill \<and> hazard = kd_safety_classification skill \<and>
     set (kd_required_approval_classes skill) \<subseteq> approval_classes_for approvals (ps_step_id s)"

lemma compatibility_fit:
  assumes "built_schema (kd_input_schema skill)" "skill_ok skill" "step_ok s"
    and "kl_capability_id selection = ps_capability_id s" "kl_source_step_id selection = ps_step_id s"
    and "ps_capability_id s \<in> set (kd_capability_ids skill)"
  shows "\<exists>parameters reasons.
    compatibility skill selection (Some s) (Some d) approvals = Inr (parameters, reasons) \<and>
    (if step_fits skill s (sd_hazard_class d) approvals then parameters = ps_parameters s \<and> reasons = {}
     else reasons \<noteq> {})"
proof -
  have p: "step_parameters s = Inr (ps_parameters s)"
    using assms(3) by (auto simp: step_parameters_def step_ok_def intro: exec_dict_property_ok)
  have v: "validate_skill_parameters (kd_input_schema skill) (ps_parameters s) =
      (if bounded_ok skill_json_limits (ps_parameters s) \<and> conforms (kd_input_schema skill) (ps_parameters s)
       then Inr (ps_parameters s) else Inl invalid_skill_parameters)"
    using assms(1,2) by (intro validate_skill_parameters_eq) (auto simp: skill_ok_def)
  show ?thesis
    using assms(4-6)
    by (simp add: compatibility_def step_reasons_for_def p v step_fits_def)
qed

lemma mk_skill_invocation_eq:
  assumes "built_schema (kd_input_schema skill)" "skill_ok skill"
    and "kl_skill_id selection = kd_skill_id skill" "kl_skill_version selection = kd_version skill"
      "kl_skill_fingerprint selection = kd_fingerprint skill" "kl_capability_id selection \<in> set (kd_capability_ids skill)"
    and "bounded_ok skill_json_limits v" "conforms (kd_input_schema skill) v"
    and "distinct (map cf_requirement refs)" "\<forall>r \<in> set refs. cf_required r"
      "cf_requirement ` set refs = set (kd_required_context skill)"
    and "map approval_key approvals = sorted_set (map approval_key approvals)"
      "status = InvocationEligible \<longleftrightarrow> approvals = []"
    and "set (kd_required_approval_classes skill) \<subseteq> approval_classes_for approvals (kl_source_step_id selection)"
    and "check_sources sources = Inr ()" "schema_document (kd_output_schema skill) = Inr out"
  shows "(if bounded_ok skill_json_limits (invocation_contract_document status selection skill v
         (sort_key (\<lambda>r. context_key (cf_requirement r)) refs) approvals sources out)
      then \<exists>i. mk_skill_invocation status selection skill v refs approvals sources = Inr i \<and>
         ki_status i = status \<and> ki_selection i = selection \<and> ki_sources i = sources \<and> ki_parameters i = v
      else mk_skill_invocation status selection skill v refs approvals sources = Inl skill_invariant)"
proof -
  have v: "validate_skill_parameters (kd_input_schema skill) v = Inr v"
    using assms(1,2,7,8) by (simp add: validate_skill_parameters_eq skill_ok_def)
  show ?thesis
    using assms(9-15)
    by (cases status)
      (simp_all add: mk_skill_invocation_def Let_def v parameters_error_as_def assms(3-6,16)
        list_ex_iff skill_fingerprint_document_eq raise_if_def image_image)
qed


lemma find_unique:
  assumes "distinct (map f xs)" "x \<in> set xs"
  shows "find (\<lambda>y. f y = f x) xs = Some x"
  using assms by (induction xs) auto

text \<open>The context references of a step that needs exactly what the skill needs.\<close>

lemma reviewed_references:
  assumes "evaluate svc (Inr snapshot) req = Inr proposal" "ed_proposed_plan proposal = Some plan"
    and "request_ok req" "registry_ok (es_registry svc)" "s \<in> set (pl_steps plan)"
  shows "plan_ok plan" "distinct (map cf_requirement (ed_context_references proposal))"
    "set (ps_required_context s) \<subseteq> cf_requirement ` {r \<in> set (ed_context_references proposal). cf_required r}"
proof -
  obtain defs required where d: "build_plan req (definitions_by_id defs) = Inr plan"
    "list_all capability_ok defs" "distinct (map cd_capability_id defs)"
    "set required = set (rq_required_context req) \<union> (\<Union>x \<in> set defs. set (cd_required_context x))"
    "references_for snapshot required (rq_optional_context req) = Inr (ed_context_references proposal)"
    by (rule proposal_sources [OF assms(1-4)])
  have "\<And>x. x \<in> snd ` set (definitions_by_id defs) \<Longrightarrow> capability_ok x"
    using d(2) by (auto simp: definitions_by_id_def list_all_iff)
  then show "plan_ok plan" using build_plan_Inr [OF d(1) assms(3)] by blast
  show "distinct (map cf_requirement (ed_context_references proposal))" by (rule proposal_shape(9) [OF assms(1,2)])
  show "set (ps_required_context s) \<subseteq> cf_requirement ` {r \<in> set (ed_context_references proposal). cf_required r}"
    using references_for_requirements(1) [OF d(5)] plan_unions(1) [OF d(1) assms(3) d(2,3)] assms(5) d(4) by auto
qed

definition bound_references :: "executive_decision \<Rightarrow> skill_definition \<Rightarrow> context_reference list" where
  "bound_references proposal skill =
     filter (\<lambda>r. cf_required r \<and> cf_requirement r \<in> set (kd_required_context skill)) (ed_context_references proposal)"

text \<open>The document the identity of the invocation is computed from.\<close>

definition bound_document ::
  "executive_decision \<Rightarrow> safety_decision \<Rightarrow> skill_selection \<Rightarrow> skill_definition \<Rightarrow> plan_step \<Rightarrow> pyval \<Rightarrow> pyval" where
  "bound_document proposal decision selection skill s out =
     invocation_contract_document
       (if yd_disposition decision = ExternalApprovalRequired then InvocationApprovalRequired else InvocationEligible)
       selection skill (ps_parameters s)
       (sort_key (\<lambda>r. context_key (cf_requirement r)) (bound_references proposal skill))
       (yd_required_approvals decision) (decision_sources decision) out"

lemma bind_invocation_fit:
  assumes "built_schema (kd_input_schema skill)" "skill_ok skill" "step_fits skill s hazard (yd_required_approvals decision)"
    and "kl_skill_id selection = kd_skill_id skill" "kl_skill_version selection = kd_version skill"
      "kl_skill_fingerprint selection = kd_fingerprint skill" "kl_capability_id selection \<in> set (kd_capability_ids skill)"
      "kl_source_step_id selection = ps_step_id s"
    and "distinct (map cf_requirement (ed_context_references proposal))"
    and "set (ps_required_context s) \<subseteq> cf_requirement ` {r \<in> set (ed_context_references proposal). cf_required r}"
    and "map approval_key (yd_required_approvals decision) = sorted_set (map approval_key (yd_required_approvals decision))"
      "yd_disposition decision \<noteq> ExternalApprovalRequired \<longleftrightarrow> yd_required_approvals decision = []"
    and "check_sources (decision_sources decision) = Inr ()" "yd_decision_id decision \<noteq> []"
    and "schema_document (kd_output_schema skill) = Inr out"
  shows "(if bounded_ok skill_json_limits (bound_document proposal decision selection skill s out)
      then \<exists>b i. bind_invocation proposal decision selection skill (ps_parameters s) = Inr b \<and>
         br_invocation b = Some i \<and> ki_parameters i = ps_parameters s
      else bind_invocation proposal decision selection skill (ps_parameters s) = Inl skill_invariant)"
proof -
  let ?status = "if yd_disposition decision = ExternalApprovalRequired
    then InvocationApprovalRequired else InvocationEligible"
  let ?refs = "bound_references proposal skill"
  have fit: "bounded_ok skill_json_limits (ps_parameters s)" "conforms (kd_input_schema skill) (ps_parameters s)"
    "ps_required_context s = kd_required_context skill"
    "set (kd_required_approval_classes skill) \<subseteq>
       approval_classes_for (yd_required_approvals decision) (kl_source_step_id selection)"
    using assms(3,8) by (simp_all add: step_fits_def)
  have refs: "distinct (map cf_requirement ?refs)" "\<forall>r \<in> set ?refs. cf_required r"
    "cf_requirement ` set ?refs = set (kd_required_context skill)"
    using assms(9,10) fit(3) by (auto simp: bound_references_def distinct_map_filter)
  have status: "?status = InvocationEligible \<longleftrightarrow> yd_required_approvals decision = []" using assms(12) by auto
  note mk = mk_skill_invocation_eq [OF assms(1,2,4-7) fit(1,2) refs assms(11) status fit(4) assms(13,15)]
  have bind: "bind_invocation proposal decision selection skill (ps_parameters s) =
      tryE (mk_skill_invocation ?status selection skill (ps_parameters s) ?refs (yd_required_approvals decision)
        (decision_sources decision)) (\<lambda>i. check_binding_result
          \<lparr>br_status = (if yd_disposition decision = ExternalApprovalRequired then BindApprovalRequired else BindEligible),
           br_reasons = (if yd_disposition decision = ExternalApprovalRequired then [ReasonApprovalRequired] else []),
           br_selection = selection, br_safety_decision_id = yd_decision_id decision, br_invocation = Some i\<rparr>)"
    using refs(3) by (simp add: bind_invocation_def bound_references_def Let_def)
  have reasons: "enum_ordered binding_reasons {} = []"
    "enum_ordered binding_reasons {ReasonApprovalRequired} = [ReasonApprovalRequired]"
    by (simp_all add: enum_ordered_def binding_reasons_def)
  show ?thesis
    using mk assms(14)
    by (auto simp: bind bound_document_def check_binding_result_def reasons decision_sources_def split: if_splits)
qed


section \<open>The binding of a reviewed step\<close>

text \<open>
  A proposal of the Executive, evaluated by the Safety Kernel under a policy, a skill selected from the
  registry for one of its steps.
\<close>

lemma bind_skill_steps:
  assumes "evaluate svc (Inr snapshot) req = Inr proposal" "ed_proposed_plan proposal = Some plan"
    and "request_ok req" "registry_ok (es_registry svc)"
    and "policy_ok y" "evaluate_proposal \<lparr>sk_policy = y\<rparr> proposal = Inr decision"
    and "km_safety_kernel manager = \<lparr>sk_policy = y\<rparr>" "s \<in> set (pl_steps plan)"
    and "select_skill (km_registry manager) skill_id (ps_capability_id s) (ps_step_id s) = Inr selection"
      "index_get kd_skill_id (kr_skills (km_registry manager)) skill_id = Some skill"
  shows "\<exists>v. sd_hazard_class v = step_hazard y (step_copy s) \<and>
    bind_skill manager proposal decision selection =
     (if yd_disposition decision = Blocked then ineligible selection decision {ReasonSafetyBlocked}
      else if yd_disposition decision = Deferred then ineligible selection decision {ReasonSafetyDeferred}
      else tryE (compatibility skill selection (Some s) (Some v) (yd_required_approvals decision))
        (\<lambda>(parameters, reasons).
          if reasons \<noteq> {} then ineligible selection decision reasons
          else bind_invocation proposal decision selection skill parameters))"
proof -
  obtain r where r: "safety_revalidate \<lparr>sk_policy = y\<rparr> decision proposal = Inr r" "sv_status r = SafetyCurrent"
  proof -
    obtain p where "snapshot_proposal False proposal = Inr p" "text_ok (yd_decision_id decision)"
      "yd_proposal_fingerprint decision = pp_fingerprint p" "yd_policy_fingerprint decision = sy_fingerprint y"
      "sf_kind (pp_fingerprint p) = SfProposal" "sf_kind (sy_fingerprint y) = SfPolicy"
      using fresh_safety_parts [OF assms(5,6)] by blast
    then show ?thesis
      using safety_revalidate_eq [of "\<lparr>sk_policy = y\<rparr>" proposal p decision] that by auto
  qed
  note refs = reviewed_references [OF assms(1-4,8)]
  obtain v where v: "find (\<lambda>v. sd_step_id v = ps_step_id s) (yd_step_decisions decision) = Some v"
    "sd_hazard_class v = step_hazard y (step_copy s)"
    using reviewed_verdict [OF assms(5,6,2) refs(1) assms(8)] by blast
  have step: "find (\<lambda>t. ps_step_id t = ps_step_id s) (pl_steps plan) = Some s"
    using refs(1) assms(8) by (intro find_unique) (auto simp: plan_ok_def)
  have key: "kd_skill_id skill = skill_id" using index_get_in [OF assms(10)] by simp
  have sel: "skill_identifier_ok skill_id" "ps_capability_id s \<in> set (kd_capability_ids skill)"
    "kl_skill_id selection = skill_id" "kl_skill_version selection = kd_version skill"
    "kl_skill_fingerprint selection = kd_fingerprint skill" "kl_capability_id selection = ps_capability_id s"
    "kl_source_step_id selection = ps_step_id s" "kl_registry_version selection = kr_version (km_registry manager)"
    "kl_registry_fingerprint selection = kr_fingerprint (km_registry manager)"
    using select_skill_Inr [OF assms(9)] assms(10) key by auto
  have found: "resolve_skill (km_registry manager) (kl_skill_id selection) = Inr (Some skill)"
    using sel(1,3) assms(10) by (simp add: resolve_skill_def)
  have fresh: "\<not> selection_stale (km_registry manager) selection skill"
    using sel by (simp add: selection_stale_def)
  have again: "select_skill (km_registry manager) (kd_skill_id skill) (kl_capability_id selection)
      (kl_source_step_id selection) = Inr selection"
    using assms(9) sel key by simp
  show ?thesis
    by (rule exI [of _ v])
      (simp add: v(2) bind_skill_def Let_def assms(2,6,7) r found fresh again [unfolded sel(6,7)] sel(6,7) step v(1)
        safety_errors_as_def)
qed

lemma bind_skill_fit:
  assumes "evaluate svc (Inr snapshot) req = Inr proposal" "ed_proposed_plan proposal = Some plan"
    and "request_ok req" "registry_ok (es_registry svc)"
    and "policy_ok y" "evaluate_proposal \<lparr>sk_policy = y\<rparr> proposal = Inr decision"
    and "km_safety_kernel manager = \<lparr>sk_policy = y\<rparr>" "s \<in> set (pl_steps plan)"
    and "select_skill (km_registry manager) skill_id (ps_capability_id s) (ps_step_id s) = Inr selection"
      "index_get kd_skill_id (kr_skills (km_registry manager)) skill_id = Some skill"
    and "skill_ok skill" "built_schema (kd_input_schema skill)"
    and "schema_document (kd_output_schema skill) = Inr out"
  shows "if yd_disposition decision \<in> {Blocked, Deferred} \<or>
        \<not> step_fits skill s (step_hazard y (step_copy s)) (yd_required_approvals decision)
      then \<exists>b. bind_skill manager proposal decision selection = Inr b \<and> br_status b = BindIneligible \<and>
        br_invocation b = None
      else if bounded_ok skill_json_limits (bound_document proposal decision selection skill s out)
      then \<exists>b i. bind_skill manager proposal decision selection = Inr b \<and> br_invocation b = Some i \<and>
        ki_parameters i = ps_parameters s
      else bind_skill manager proposal decision selection = Inl skill_invariant"
proof -
  note refs = reviewed_references [OF assms(1-4,8)]
  obtain v where v: "sd_hazard_class v = step_hazard y (step_copy s)"
    and bind: "bind_skill manager proposal decision selection =
     (if yd_disposition decision = Blocked then ineligible selection decision {ReasonSafetyBlocked}
      else if yd_disposition decision = Deferred then ineligible selection decision {ReasonSafetyDeferred}
      else tryE (compatibility skill selection (Some s) (Some v) (yd_required_approvals decision))
        (\<lambda>(parameters, reasons).
          if reasons \<noteq> {} then ineligible selection decision reasons
          else bind_invocation proposal decision selection skill parameters))"
    using bind_skill_steps [OF assms(1-10)] by blast
  obtain p where z: "list_all step_decision_ok (yd_step_decisions decision)"
    "distinct (map sd_step_id (yd_step_decisions decision))" "yd_step_decisions decision \<noteq> []"
    "yd_required_approvals decision = decision_approvals (yd_step_decisions decision)"
    "yd_disposition decision = strongest (map sd_disposition (yd_step_decisions decision))"
    "text_ok (yd_decision_id decision)" "check_sources (decision_sources decision) = Inr ()"
    using safety_decision_parts [OF assms(5,6)] by metis
  have id: "yd_decision_id decision \<noteq> []" using z(6) by (auto simp: text_ok_def exact_text_ok_def)
  have step: "step_ok s" using refs(1) assms(8) by (auto simp: plan_ok_def list_all_iff)
  have sel: "ps_capability_id s \<in> set (kd_capability_ids skill)" "kl_skill_id selection = kd_skill_id skill"
    "kl_skill_version selection = kd_version skill" "kl_skill_fingerprint selection = kd_fingerprint skill"
    "kl_capability_id selection = ps_capability_id s" "kl_source_step_id selection = ps_step_id s"
    using select_skill_Inr [OF assms(9)] assms(10) by auto
  obtain parameters reasons where
    c: "compatibility skill selection (Some s) (Some v) (yd_required_approvals decision) = Inr (parameters, reasons)"
    and cases: "if step_fits skill s (step_hazard y (step_copy s)) (yd_required_approvals decision)
      then parameters = ps_parameters s \<and> reasons = {} else reasons \<noteq> {}"
    using compatibility_fit [OF assms(12,11) step sel(5,6,1), of v "yd_required_approvals decision"]
    unfolding v by blast
  have refuse: "\<exists>b. ineligible selection decision R = Inr b \<and> br_status b = BindIneligible \<and> br_invocation b = None"
    if "R \<noteq> {}" for R
    using ineligible_total [OF id that, of selection] ineligible_Inr by metis
  show ?thesis
  proof (cases "yd_disposition decision \<in> {Blocked, Deferred} \<or>
      \<not> step_fits skill s (step_hazard y (step_copy s)) (yd_required_approvals decision)")
    case True
    then show ?thesis using bind c cases refuse by (auto split: if_splits)
  next
    case False
    then have gated: "yd_disposition decision \<noteq> ExternalApprovalRequired \<longleftrightarrow> yd_required_approvals decision = []"
      using approvals_gated [OF z(1,3)] unfolding z(4,5)
      by (cases "strongest (map sd_disposition (yd_step_decisions decision))") auto
    have ordered: "map approval_key (yd_required_approvals decision) =
        sorted_set (map approval_key (yd_required_approvals decision))"
      using approvals_ordered [OF z(1,2)] z(4) by simp
    have member: "kl_capability_id selection \<in> set (kd_capability_ids skill)" using sel(1,5) by simp
    have "bind_skill manager proposal decision selection =
        bind_invocation proposal decision selection skill (ps_parameters s)"
      using False bind c cases by auto
    then show ?thesis
      using False bind_invocation_fit [OF assms(12,11) _ sel(2-4) member sel(6) refs(2,3) ordered gated z(7) id assms(13)]
      by auto
  qed
qed

end
