(* ===== verification/Skill_Fixtures.thy ===== *)
theory Skill_Fixtures
  imports Skill_Fit Safety_Fixtures
begin

text \<open>
  A skill for the step that the Executive proposes in \<open>Exec_Fixtures\<close> and the Safety Kernel reviews in
  \<open>Safety_Fixtures\<close>, registered, selected and bound.
\<close>

definition closed_object :: value_schema where
  "closed_object = ValueSchema VtObject False [] None False [] None None None None None None"

lemma closed_object_mk:
  "mk_value_schema VtObject False [] None False [] None None None None None None = Inr closed_object"
proof -
  have none: "allowed_tuple VtObject False [] = Inr []" by (simp add: allowed_tuple_def)
  show ?thesis
    unfolding mk_value_schema_def Let_def by (simp add: none exceeds_def closed_object_def)
qed

lemma closed_object_built: "built_schema closed_object"
  by (rule built_schema.build [OF _ _ closed_object_mk]) (simp_all only: list.set ball_empty option.distinct simp_thms)

lemma closed_object_ok [simp]: "schema_ok closed_object"
  by (simp add: schema_ok_def schema_nodes_children [of closed_object] schema_within_children [of _ closed_object])
    (simp add: closed_object_def schema_children_def)

definition closed_object_document :: pyval where
  "closed_object_document = obj [
     (''allow_additional_properties'', PBool False), (''allowed_values'', PList []), (''item_schema'', PNone),
     (''max_items'', PNone), (''max_length'', PNone), (''maximum'', PNone), (''min_items'', PNone),
     (''min_length'', PNone), (''minimum'', PNone), (''nullable'', PBool False), (''properties'', PList []),
     (''value_type'', PStr ''object'')]"

lemma closed_object_doc: "document_of_schema e closed_object = Inr closed_object_document"
  by (subst document_of_schema.simps)
    (simp add: validate_graph_eq closed_object_document_def, simp add: closed_object_def)

lemma closed_object_schema_doc [simp]: "schema_document closed_object = Inr closed_object_document"
  by (simp add: schema_document_def closed_object_doc)

lemma closed_object_conforms [simp]: "conforms closed_object (PDict [])"
  by (subst conforms_eq) (simp add: node_ok_def members_ok_def closed_object_def in_bounds_def)

definition demo_contract :: skill_contract where
  "demo_contract = \<lparr>kd_skill_id = ''k1'', kd_version = ''1.0.0'', kd_name = ''look'', kd_description = ''look'',
     kd_capability_ids = [''c1''], kd_backend_id = ''b1'', kd_input_schema = closed_object,
     kd_output_schema = closed_object, kd_required_context = [], kd_required_resources = [],
     kd_required_approval_classes = [], kd_safety_classification = InformationalReadOnly,
     kd_expected_result = ResInformation, kd_timeout_ms = 1000, kd_concurrency_policy = ParallelPolicy,
     kd_idempotency = Idempotent, kd_failure_semantics = NonRetryable, kd_availability = SkillAvailable,
     kd_lifecycle = Validated, kd_metadata = PDict []\<rparr>"

definition demo_skill :: skill_definition where
  "demo_skill = skill_contract.extend demo_contract
     (skill_definition.fields (skill_sha KfSkill (canon (projr (skill_document demo_contract)))))"

lemmas bounded_evals = bounded_ok_def skill_json_limits_def obj_def str_list_def

lemma demo_ids [simp]: "skill_identifier_ok ''k1''" "skill_identifier_ok ''c1''" "skill_identifier_ok ''b1''"
  "skill_identifier_ok ''s1''"
  by (simp_all add: skill_identifier_ok_def identifier_evals lower_alnum_def)

lemma demo_mk_skill:
  "mk_skill_definition ''k1'' ''1.0.0'' ''look'' ''look'' [''c1''] ''b1'' closed_object closed_object [] [] []
     InformationalReadOnly ResInformation 1000 ParallelPolicy Idempotent NonRetryable SkillAvailable Validated
     None = Inr demo_skill"
proof -
  obtain doc where doc: "skill_document demo_contract = Inr doc" "bounded_ok skill_json_limits doc"
    by (simp add: skill_document_def demo_contract_def skill_dict_property_def closed_object_document_def bounded_evals too_many_bits_def)
  have empty: "bounded_ok skill_json_limits (PDict [])" by (simp add: bounded_evals)
  have shape: "vs_type closed_object = VtObject" "\<not> vs_nullable closed_object" by (simp_all add: closed_object_def)
  show ?thesis
    using doc
    by (simp add: mk_skill_definition_def capability_tuple_def Let_def validate_schema_eq shape empty
      check_concurrency_def skill_metadata_def demo_skill_def skill_fingerprint_document_eq
      demo_contract_def [symmetric])
qed

section \<open>The registry and the selection\<close>

definition demo_skills :: skill_registry where
  "demo_skills = \<lparr>kr_version = ''1.0.0'',
     kr_fingerprint = skill_sha KfRegistry (canon (registry_document ''1.0.0'' [demo_skill])),
     kr_skills = [demo_skill], kr_by_capability = capability_index [demo_skill]\<rparr>"

lemma demo_skill_fields [simp]:
  "kd_skill_id demo_skill = ''k1''" "kd_version demo_skill = ''1.0.0''" "kd_capability_ids demo_skill = [''c1'']"
  "kd_backend_id demo_skill = ''b1''" "kd_input_schema demo_skill = closed_object"
  "kd_output_schema demo_skill = closed_object" "kd_required_context demo_skill = []"
  "kd_required_resources demo_skill = []" "kd_required_approval_classes demo_skill = []"
  "kd_safety_classification demo_skill = InformationalReadOnly" "kd_expected_result demo_skill = ResInformation"
  "kd_timeout_ms demo_skill = 1000" "kd_concurrency_policy demo_skill = ParallelPolicy"
  "kd_idempotency demo_skill = Idempotent" "kd_failure_semantics demo_skill = NonRetryable"
  "kd_availability demo_skill = SkillAvailable" "kd_lifecycle demo_skill = Validated"
  "kf_kind (kd_fingerprint demo_skill) = KfSkill" "length (kf_digest (kd_fingerprint demo_skill)) = 64"
  by (simp_all add: demo_skill_def demo_contract_def skill_contract.defs skill_definition.defs)

lemma demo_skill_ok: "skill_ok demo_skill"
  by (rule mk_skill_definition_ok [OF demo_mk_skill])

lemma demo_mk_registry: "mk_skill_registry ''1.0.0'' [demo_skill] = Inr demo_skills"
  by (simp add: mk_skill_registry_def Let_def demo_skills_def skill_fingerprint_document_eq
      registry_document_def bounded_evals skill_fingerprint_str_def)

lemma demo_resolved: "index_get kd_skill_id (kr_skills demo_skills) ''k1'' = Some demo_skill"
  by (simp add: demo_skills_def index_get_def)

definition demo_selection :: skill_selection where
  "demo_selection = projr (select_skill demo_skills ''k1'' ''c1'' ''s1'')"

lemma demo_select: "select_skill demo_skills ''k1'' ''c1'' ''s1'' = Inr demo_selection"
proof -
  have "\<exists>x. select_skill demo_skills ''k1'' ''c1'' ''s1'' = Inr x"
    using demo_resolved
    by (simp add: select_skill_def resolve_skill_def mk_skill_selection_def skill_fingerprint_document_eq
        selection_document_def bounded_evals skill_fingerprint_str_def demo_skills_def)
  then show ?thesis by (auto simp: demo_selection_def)
qed

lemma demo_selection_digest: "length (skill_fingerprint_str (kl_fingerprint demo_selection)) = 81"
proof -
  have "\<exists>doc. kl_fingerprint x = skill_sha KfSelection (canon doc)"
    if "select_skill demo_skills ''k1'' ''c1'' ''s1'' = Inr x" for x
    using that demo_resolved
    by (auto simp: select_skill_def resolve_skill_def mk_skill_selection_def skill_fingerprint_document_eq
        demo_skills_def res_simps split: if_splits)
  from this [OF demo_select] show ?thesis by (auto simp: skill_fingerprint_str_def)
qed

section \<open>The binding\<close>

definition demo_manager :: skill_manager where
  "demo_manager = \<lparr>km_registry = demo_skills,
     km_safety_kernel = \<lparr>sk_policy = demo_policy InformationalReadOnly\<rparr>\<rparr>"

lemma demo_fits: "step_fits demo_skill demo_step InformationalReadOnly approvals"
  by (simp add: step_fits_def demo_step_def bounded_evals)

text \<open>The lengths of the texts that identify the sources of the demonstration.\<close>

lemma demo_source_lengths:
  assumes ev: "evaluate demo_service (Inr demo_snapshot) demo_request = Inr d"
    and z: "evaluate_proposal \<lparr>sk_policy = demo_policy InformationalReadOnly\<rparr> d = Inr z"
  shows "yd_source_decision_id z = ed_decision_id d" "yd_source_request_id z = ''r1''"
    "yd_source_decision_fingerprint z = ed_decision_fingerprint d"
    "yd_policy_version z = safety_policy_version"
    "yd_policy_fingerprint z = sy_fingerprint (demo_policy InformationalReadOnly)"
    "length (safety_fingerprint_str (yd_proposal_fingerprint z)) = 80"
    "length (safety_fingerprint_str (sy_fingerprint (demo_policy InformationalReadOnly))) = 78"
    "length (safety_fingerprint_str (yd_decision_fingerprint z)) = 80" "length (yd_decision_id z) = 80"
    "length (ed_decision_id d) = 73" "length safety_policy_version = 21"
proof -
  let ?y = "demo_policy InformationalReadOnly"
  note f = demo_decision_fields [OF ev]
  obtain p where p: "snapshot_proposal True d = Inr p" "z = proposal_decision ?y p"
    using z by (auto simp: evaluate_proposal_Inr)
  show "yd_source_decision_id z = ed_decision_id d" "yd_source_request_id z = ''r1''"
    "yd_source_decision_fingerprint z = ed_decision_fingerprint d"
    "yd_policy_version z = safety_policy_version" "yd_policy_fingerprint z = sy_fingerprint ?y"
    "length (safety_fingerprint_str (yd_proposal_fingerprint z)) = 80"
    using p(1) f(6,7)
    by (auto simp: p(2) proposal_decision_def Let_def snapshot_proposal_Inr safety_fingerprint_str_def
        demo_hazard_policy_def)
  show "length (safety_fingerprint_str (sy_fingerprint ?y)) = 78"
    "length (safety_fingerprint_str (yd_decision_fingerprint z)) = 80" "length (yd_decision_id z) = 80"
    "length (ed_decision_id d) = 73" "length safety_policy_version = 21"
    using f(11,12)
    by (simp_all add: safety_fingerprint_str_def safety_policy_version_def demo_hazard_policy_def p(2)
        proposal_decision_def Let_def)
qed

lemma demo_document_bounded:
  assumes ev: "evaluate demo_service (Inr demo_snapshot) demo_request = Inr d"
    and z: "evaluate_proposal \<lparr>sk_policy = demo_policy InformationalReadOnly\<rparr> d = Inr z"
    and approvals: "yd_required_approvals z = []"
  shows "bounded_ok skill_json_limits (bound_document d z demo_selection demo_skill demo_step closed_object_document)"
  using demo_decision_fields(13) [OF ev]
  by (simp add: bound_document_def bound_references_def demo_decision_fields(1) [OF ev] approvals
      invocation_contract_document_def decision_sources_def demo_source_lengths [OF ev z]
      demo_selection_digest closed_object_document_def demo_step_def bounded_evals too_many_bits_def sort_key_def)

lemma demo_no_approvals: "ps_required_approvals demo_step = []"
  by (simp add: demo_step_def)

text \<open>The demonstration: a proposal, its review and a binding that carries an invocation.\<close>

lemma demo_chain:
  obtains d z where "evaluate demo_service (Inr demo_snapshot) demo_request = Inr d"
    "ed_proposed_plan d = Some \<lparr>pl_steps = [demo_step]\<rparr>"
    "evaluate_proposal \<lparr>sk_policy = demo_policy InformationalReadOnly\<rparr> d = Inr z"
    "yd_disposition z = EligibleForDownstream" "yd_required_approvals z = []"
    "bounded_ok skill_json_limits (bound_document d z demo_selection demo_skill demo_step closed_object_document)"
proof -
  obtain d where ev: "evaluate demo_service (Inr demo_snapshot) demo_request = Inr d"
    using demo_evaluate by blast
  obtain z where z: "evaluate_proposal \<lparr>sk_policy = demo_policy InformationalReadOnly\<rparr> d = Inr z"
    "yd_step_decisions z = [step_verdict (demo_policy InformationalReadOnly) (step_copy demo_step) []]"
    using demo_evaluation [OF ev] by blast
  obtain p where parts: "yd_required_approvals z = decision_approvals (yd_step_decisions z)"
    "yd_disposition z = strongest (map sd_disposition (yd_step_decisions z))"
    "list_all step_decision_ok (yd_step_decisions z)" "yd_step_decisions z \<noteq> []"
    using safety_decision_parts [OF demo_policy_ok z(1)] by metis
  have "yd_disposition z = EligibleForDownstream"
    by (simp add: parts z(2) step_verdict_def step_disposition_def demo_step_table demo_step_copy strongest_def
        demo_no_approvals)
  moreover from this have "yd_required_approvals z = []"
    using approvals_gated(2) [OF parts(3,4)] parts(1,2) by simp
  ultimately show ?thesis
    using that [OF ev demo_decision_fields(10) [OF ev] z(1)] demo_document_bounded [OF ev z(1)] by blast
qed

lemma demo_bound:
  obtains d z b i where "evaluate demo_service (Inr demo_snapshot) demo_request = Inr d"
    "evaluate_proposal \<lparr>sk_policy = demo_policy InformationalReadOnly\<rparr> d = Inr z"
    "yd_required_approvals z = []" "bind_skill demo_manager d z demo_selection = Inr b"
    "br_invocation b = Some i" "ki_parameters i = PDict []"
proof -
  obtain d z where c: "evaluate demo_service (Inr demo_snapshot) demo_request = Inr d"
    "ed_proposed_plan d = Some \<lparr>pl_steps = [demo_step]\<rparr>"
    "evaluate_proposal \<lparr>sk_policy = demo_policy InformationalReadOnly\<rparr> d = Inr z"
    "yd_disposition z = EligibleForDownstream" "yd_required_approvals z = []"
    "bounded_ok skill_json_limits (bound_document d z demo_selection demo_skill demo_step closed_object_document)"
    by (rule demo_chain)
  have "ps_capability_id demo_step = ''c1''" "ps_step_id demo_step = ''s1''" "ps_parameters demo_step = PDict []"
    by (simp_all add: demo_step_def)
  then have "\<exists>b i. bind_skill demo_manager d z demo_selection = Inr b \<and> br_invocation b = Some i \<and>
      ki_parameters i = PDict []"
    using bind_skill_fit [OF c(1,2) demo_request_ok demo_registry_ok demo_policy_ok c(3), of demo_manager demo_step
        "''k1''" demo_selection demo_skill closed_object_document] c(4,6)
    by (simp add: demo_manager_def demo_select demo_resolved demo_skill_ok closed_object_built demo_step_table demo_fits)
  with that c(1,3,5) show ?thesis by blast
qed

lemma demo_binding:
  obtains d z b i where "evaluate demo_service (Inr demo_snapshot) demo_request = Inr d"
    "bind_skill demo_manager d z demo_selection = Inr b" "br_invocation b = Some i"
  by (rule demo_bound)

end
