(* ===== verification/Skill_Properties.thy ===== *)
theory Skill_Properties
  imports Skill_Fixtures
begin

text \<open>The properties of the Skill Manager.\<close>

section \<open>Bindings\<close>

text \<open>
  C33. A binding that carries an invocation rests on a safety decision that the Safety Kernel takes
  again, unchanged, for this very proposal, and that neither blocks nor defers it.  The invocation is
  for a step of the proposed plan and for the registered, available skill that the selection pins; its
  parameters, which reading them returns, are those of the step and accepted by the input schema of the
  skill; its context references
  are the required ones of the proposal, exactly for the context the step and the skill need; the reviewed
  hazard class is that of the skill; its approvals are all those of the decision, cover the classes the
  skill needs and are present exactly when the invocation waits for them.
\<close>

theorem bound_invocation_authentic:
  assumes "bind_skill manager proposal decision selection = Inr b" "br_invocation b = Some i"
  shows "\<exists>plan s d skill v.
    evaluate_proposal (km_safety_kernel manager) proposal = Inr decision \<and>
    yd_disposition decision \<in> {EligibleForDownstream, ExternalApprovalRequired} \<and>
    ed_proposed_plan proposal = Some plan \<and> s \<in> set (pl_steps plan) \<and>
    ps_step_id s = kl_source_step_id selection \<and> ps_capability_id s = kl_capability_id selection \<and>
    d \<in> set (yd_step_decisions decision) \<and> sd_step_id d = ps_step_id s \<and>
    skill \<in> set (kr_skills (km_registry manager)) \<and> kd_availability skill = SkillAvailable \<and>
    select_skill (km_registry manager) (kd_skill_id skill) (ps_capability_id s) (ps_step_id s) = Inr selection \<and>
    sd_hazard_class d = kd_safety_classification skill \<and>
    ps_expected_result s = kd_expected_result skill \<and>
    ki_selection i = selection \<and> ki_skill_definition i = skill \<and> ki_sources i = decision_sources decision \<and>
    step_parameters s = Inr v \<and> validate_skill_parameters (kd_input_schema skill) v = Inr (ki_parameters i) \<and>
    invocation_parameters i = Inr v \<and>
    ps_required_context s = kd_required_context skill \<and>
    cf_requirement ` set (ki_context_references i) = set (ps_required_context s) \<and>
    set (ki_context_references i) \<subseteq> {r \<in> set (ed_context_references proposal). cf_required r} \<and>
    ki_required_approvals i = yd_required_approvals decision \<and>
    set (kd_required_approval_classes skill) \<subseteq> approval_classes_for (ki_required_approvals i) (ps_step_id s) \<and>
    (ki_status i = InvocationApprovalRequired \<longleftrightarrow> yd_disposition decision = ExternalApprovalRequired) \<and>
    (ki_status i = InvocationApprovalRequired \<longleftrightarrow> ki_required_approvals i \<noteq> [])"
proof -
  obtain skill plan parameters where b:
    "evaluate_proposal (km_safety_kernel manager) proposal = Inr decision"
    "yd_disposition decision \<noteq> Blocked" "yd_disposition decision \<noteq> Deferred"
    "index_get kd_skill_id (kr_skills (km_registry manager)) (kl_skill_id selection) = Some skill"
    "select_skill (km_registry manager) (kd_skill_id skill) (kl_capability_id selection)
       (kl_source_step_id selection) = Inr selection"
    "ed_proposed_plan proposal = Some plan"
    "compatibility skill selection
       (find (\<lambda>s. ps_step_id s = kl_source_step_id selection) (pl_steps plan))
       (find (\<lambda>s. sd_step_id s = kl_source_step_id selection) (yd_step_decisions decision))
       (yd_required_approvals decision) = Inr (parameters, {})"
    "bind_invocation proposal decision selection skill parameters = Inr b"
    by (rule bind_skill_Inr [OF assms])
  obtain s d v where c: "find (\<lambda>s. ps_step_id s = kl_source_step_id selection) (pl_steps plan) = Some s"
    "find (\<lambda>s. sd_step_id s = kl_source_step_id selection) (yd_step_decisions decision) = Some d"
    "ps_capability_id s = kl_capability_id selection" "kd_availability skill = SkillAvailable"
    "step_parameters s = Inr v" "validate_skill_parameters (kd_input_schema skill) v = Inr parameters"
    "ps_required_context s = kd_required_context skill" "ps_expected_result s = kd_expected_result skill"
    "sd_hazard_class d = kd_safety_classification skill"
    using compatibility_Inr [OF b(7)] by blast
  have s: "s \<in> set (pl_steps plan)" "ps_step_id s = kl_source_step_id selection"
    "d \<in> set (yd_step_decisions decision)" "sd_step_id d = kl_source_step_id selection"
    using c(1,2) by (auto simp: find_Some_iff)
  have disposition: "yd_disposition decision \<in> {EligibleForDownstream, ExternalApprovalRequired}"
    using b(2,3) by (cases "yd_disposition decision") auto
  note same = validated_parameters [OF c(6)]
  note i = mk_skill_invocation_Inr [OF conjunct1 [OF bind_invocation_Inr [OF b(8) assms(2)]]]
  have "ki_status i = InvocationApprovalRequired \<longleftrightarrow> ki_required_approvals i \<noteq> []"
    using i by (auto split: if_splits)
  then show ?thesis
    using b c s disposition i same index_get_in [OF b(4)]
    by (intro exI [of _ plan] exI [of _ s] exI [of _ d] exI [of _ skill] exI [of _ v])
      (auto simp: invocation_parameters_def split: if_splits)
qed

lemma bound_invocation_authentic_witness:
  "\<exists>d z (i :: skill_invocation). evaluate_proposal (km_safety_kernel demo_manager) d = Inr z \<and>
     ki_selection i = demo_selection"
proof -
  obtain d z b i where "bind_skill demo_manager d z demo_selection = Inr b" "br_invocation b = Some i"
    by (rule demo_binding)
  from bound_invocation_authentic [OF this]
  have "evaluate_proposal (km_safety_kernel demo_manager) d = Inr z \<and> ki_selection i = demo_selection"
    by (elim exE conjE) (intro conjI)
  then show ?thesis by blast
qed

text \<open>
  C34. A step of a proposal of the Executive that the Safety Kernel has reviewed, and a skill freshly
  selected for it, are bound, with the parameters of the step, exactly when the decision neither blocks nor
  defers and the skill fits the step; otherwise the result says that the step is ineligible.  The one error
  that is left is an invocation whose document leaves the limits of the Skill Manager.
\<close>

theorem reviewed_step_binding:
  assumes "evaluate svc (Inr snapshot) req = Inr proposal" "ed_proposed_plan proposal = Some plan"
    and "request_ok req" "registry_ok (es_registry svc)"
    and "policy_ok y" "evaluate_proposal \<lparr>sk_policy = y\<rparr> proposal = Inr decision"
    and "km_safety_kernel manager = \<lparr>sk_policy = y\<rparr>" "s \<in> set (pl_steps plan)"
    and "select_skill (km_registry manager) skill_id (ps_capability_id s) (ps_step_id s) = Inr selection"
      "index_get kd_skill_id (kr_skills (km_registry manager)) skill_id = Some skill"
    and "skill_ok skill" "built_schema (kd_input_schema skill)"
  shows "\<exists>out. schema_document (kd_output_schema skill) = Inr out \<and>
    (if yd_disposition decision \<in> {Blocked, Deferred} \<or>
        \<not> step_fits skill s (step_hazard y (step_copy s)) (yd_required_approvals decision)
      then \<exists>b. bind_skill manager proposal decision selection = Inr b \<and> br_status b = BindIneligible \<and>
        br_invocation b = None
      else if bounded_ok skill_json_limits (bound_document proposal decision selection skill s out)
      then \<exists>b i. bind_skill manager proposal decision selection = Inr b \<and> br_invocation b = Some i \<and>
        ki_parameters i = ps_parameters s
      else bind_skill manager proposal decision selection = Inl skill_invariant)"
proof -
  have "schema_ok (kd_output_schema skill)" using assms(11) by (simp add: skill_ok_def)
  then obtain out where "schema_document (kd_output_schema skill) = Inr out" using schema_document_total by blast
  then show ?thesis using bind_skill_fit [OF assms] by blast
qed

lemma reviewed_step_binding_witness:
  "\<exists>d z b i. bind_skill demo_manager d z demo_selection = Inr b \<and> br_invocation b = Some i \<and>
     ki_parameters i = PDict []"
proof -
  obtain d z where c: "evaluate demo_service (Inr demo_snapshot) demo_request = Inr d"
    "ed_proposed_plan d = Some \<lparr>pl_steps = [demo_step]\<rparr>"
    "evaluate_proposal \<lparr>sk_policy = demo_policy InformationalReadOnly\<rparr> d = Inr z"
    "yd_disposition z = EligibleForDownstream" "yd_required_approvals z = []"
    "bounded_ok skill_json_limits (bound_document d z demo_selection demo_skill demo_step closed_object_document)"
    by (rule demo_chain)
  have "ps_capability_id demo_step = ''c1''" "ps_step_id demo_step = ''s1''" "ps_parameters demo_step = PDict []"
    by (simp_all add: demo_step_def)
  then show ?thesis
    using reviewed_step_binding [OF c(1,2) demo_request_ok demo_registry_ok demo_policy_ok c(3), of demo_manager
        demo_step "''k1''" demo_selection demo_skill] c(4,6)
    by (simp add: demo_manager_def demo_select demo_resolved demo_skill_ok closed_object_built demo_step_table demo_fits)
      blast
qed

section \<open>Parameters\<close>

text \<open>
  The validator of parameters, a loop over a stack of schemas and values, decides for every schema
  that the constructor builds whether the parameters conform to it, in the recursive sense: the type, the
  allowed values and the bounds at every node, all required properties present, no unexpected one.  The
  accepted parameters are returned unchanged, and there is only one way to fail.
\<close>

theorem parameters_decide_conformance:
  assumes "built_schema s" "schema_ok s" "vs_type s = VtObject" "\<not> vs_nullable s"
  shows "validate_skill_parameters s v =
    (if bounded_ok skill_json_limits v \<and> conforms s v then Inr v else Inl invalid_skill_parameters)"
  by (rule validate_skill_parameters_eq [OF assms])

lemma parameters_decide_conformance_witness:
  "validate_skill_parameters closed_object (PDict []) = Inr (PDict [])"
  using parameters_decide_conformance [OF closed_object_built closed_object_ok, of "PDict []"]
  by (simp add: bounded_evals) (simp add: closed_object_def)

section \<open>The registry\<close>

text \<open>
  A registry knows exactly the skills it was built from, whatever their order: it resolves an
  identifier to the one skill that has it, and lists for a capability the skills that offer it, on demand
  only the available ones, each once and in the order of the identifiers.
\<close>

theorem skill_registry_lookup:
  assumes "mk_skill_registry version skills = Inr registry" "list_all skill_ok skills"
  shows "(\<forall>i. skill_identifier_ok i \<longrightarrow> (\<exists>found. resolve_skill registry i = Inr found \<and>
      (\<forall>k. found = Some k \<longleftrightarrow> k \<in> set skills \<and> kd_skill_id k = i))) \<and>
    (\<forall>c only. skill_identifier_ok c \<longrightarrow> (\<exists>listed. for_capability registry c only = Inr listed \<and>
      set listed = {k \<in> set skills. c \<in> set (kd_capability_ids k) \<and> (only \<longrightarrow> kd_availability k = SkillAvailable)} \<and>
      sorted_wrt (<) (map kd_skill_id listed))) \<and>
    (\<forall>other. mset other = mset skills \<longrightarrow> mk_skill_registry version other = Inr registry)"
proof (intro conjI allI impI)
  let ?ordered = "sort_key kd_skill_id skills"
  have r: "kr_skills registry = ?ordered" "kr_by_capability registry = capability_index ?ordered"
    and dis: "distinct (map kd_skill_id skills)"
    using assms(1) by (auto simp: mk_skill_registry_def Let_def res_simps)
  show "\<exists>found. resolve_skill registry i = Inr found \<and> (\<forall>k. found = Some k \<longleftrightarrow> k \<in> set skills \<and> kd_skill_id k = i)"
    if "skill_identifier_ok i" for i
    using that dis by (simp add: resolve_skill_def r index_get_Some)
  have distinct_ids: "list_all (\<lambda>k. distinct (kd_capability_ids k)) ?ordered"
    using assms(2) by (auto simp: list_all_iff skill_ok_def)
  have strict: "sorted_wrt (<) (map kd_skill_id (filter P ?ordered))" for P
    using dis by (simp add: strict_sorted_iff distinct_map_filter sorted_filter)
  have members: "group_get (kr_by_capability registry) c = filter (\<lambda>k. c \<in> set (kd_capability_ids k)) ?ordered" for c
  proof -
    have "sorted (map (\<lambda>k. (kd_skill_id k, kd_version k)) (filter (\<lambda>k. c \<in> set (kd_capability_ids k)) ?ordered))"
      using strict [of "\<lambda>k. c \<in> set (kd_capability_ids k)"]
      by (auto simp: sorted_wrt_map less_eq_prod_def elim!: sorted_wrt_mono_rel [rotated])
    then show ?thesis by (simp add: r capability_members [OF distinct_ids] sort_key_sorted_id)
  qed
  show "\<exists>listed. for_capability registry c only = Inr listed \<and>
      set listed = {k \<in> set skills. c \<in> set (kd_capability_ids k) \<and> (only \<longrightarrow> kd_availability k = SkillAvailable)} \<and>
      sorted_wrt (<) (map kd_skill_id listed)"
    if "skill_identifier_ok c" for c "only"
    using that strict by (auto simp: for_capability_def members Let_def)
  show "mk_skill_registry version other = Inr registry" if "mset other = mset skills" for other
  proof -
    have "sort_key kd_skill_id other = ?ordered" 
      using dis mset_eq_imp_distinct_iff [of "map kd_skill_id other" "map kd_skill_id skills"]
      by (intro sort_key_unique) (auto simp: that mset_eq_setD [OF that])
    moreover have "length other = length skills" using that by (metis size_mset)
    ultimately show ?thesis using assms(1) by (simp add: mk_skill_registry_def)
  qed
qed

lemma skill_registry_lookup_witness:
  "\<exists>listed. for_capability demo_skills ''c1'' True = Inr listed \<and> set listed = {demo_skill}"
proof -
  have "\<forall>c only. skill_identifier_ok c \<longrightarrow> (\<exists>listed. for_capability demo_skills c only = Inr listed \<and>
      set listed = {k \<in> set [demo_skill]. c \<in> set (kd_capability_ids k) \<and> (only \<longrightarrow> kd_availability k = SkillAvailable)} \<and>
      sorted_wrt (<) (map kd_skill_id listed))"
    using skill_registry_lookup [OF demo_mk_registry] demo_skill_ok by simp
  from this [rule_format, of "''c1''" True] show ?thesis by auto
qed

end
