(* ===== verification/Runtime_Models.thy ===== *)
theory Runtime_Models
  imports Skill_Binding
begin

text \<open>Texts and fingerprints of the Runtime Bridge (\<open>runtime_bridge/models.py\<close>, \<open>canonical.py\<close>, \<open>errors.py\<close>).\<close>

abbreviation invalid_runtime_contract :: exn where
  "invalid_runtime_contract \<equiv> RuntimeExn InvalidRuntimeContractError"

abbreviation invalid_ros_endpoint :: exn where
  "invalid_ros_endpoint \<equiv> RuntimeExn InvalidRosEndpointError"

abbreviation invalid_runtime_registry :: exn where
  "invalid_runtime_registry \<equiv> RuntimeExn InvalidRuntimeRegistryError"

abbreviation invalid_runtime_binding :: exn where
  "invalid_runtime_binding \<equiv> RuntimeExn InvalidRuntimeBindingError"

text \<open>\<open>except SkillManagerError as error: raise e\<close>, and the same for one class of the Runtime Bridge.\<close>

definition skill_errors_as :: "exn \<Rightarrow> 'a res \<Rightarrow> 'a res" where
  "skill_errors_as e r = (case r of Inl x \<Rightarrow> Inl (case x of SkillExn _ \<Rightarrow> e | _ \<Rightarrow> x) | Inr v \<Rightarrow> Inr v)"

definition error_as :: "exn \<Rightarrow> exn \<Rightarrow> 'a res \<Rightarrow> 'a res" where
  "error_as caught e r = (case r of Inl x \<Rightarrow> Inl (if x = caught then e else x) | Inr v \<Rightarrow> Inr v)"

section \<open>Texts\<close>

definition runtime_text :: "exn \<Rightarrow> string \<Rightarrow> string res" where
  "runtime_text e s =
     raise_if (s = [] \<or> s \<noteq> py_strip s) e
    (raise_if (16384 < length s) e
    (raise_if (\<not> utf8_encodable s) e (Inr s)))"

definition runtime_identifier :: "exn \<Rightarrow> string \<Rightarrow> string res" where
  "runtime_identifier e s =
     tryE (runtime_text e s) (\<lambda>text.
     raise_if (256 < length text \<or> \<not> identifier_matches False text) e (Inr text))"

section \<open>Fingerprints\<close>

definition runtime_json_limits :: bounded_limits where
  "runtime_json_limits = \<lparr>max_depth = 32, max_nodes = 4096, max_characters = 1000000,
     max_collection = 256, max_integer_bits = 1024\<rparr>"

definition runtime_canonicalize :: "exn \<Rightarrow> pyval \<Rightarrow> string res" where
  "runtime_canonicalize e v = bounded_canonicalize runtime_json_limits e v"

definition runtime_copy :: "exn \<Rightarrow> pyval \<Rightarrow> pyval res" where
  "runtime_copy e v = bounded_copy runtime_json_limits e v"

datatype runtime_fingerprint_kind = RfEndpoint | RfEndpointBinding | RfRegistry | RfRequest | RfDecision

fun runtime_fingerprint_kind_value :: "runtime_fingerprint_kind \<Rightarrow> string" where
  "runtime_fingerprint_kind_value RfEndpoint = ''endpoint''"
| "runtime_fingerprint_kind_value RfEndpointBinding = ''endpoint_binding''"
| "runtime_fingerprint_kind_value RfRegistry = ''registry''"
| "runtime_fingerprint_kind_value RfRequest = ''request''"
| "runtime_fingerprint_kind_value RfDecision = ''decision''"

record runtime_fingerprint =
  rf_kind :: runtime_fingerprint_kind
  rf_digest :: string
  rf_algorithm :: string
  rf_schema_version :: int

definition mk_runtime_fingerprint ::
  "runtime_fingerprint_kind \<Rightarrow> string \<Rightarrow> string \<Rightarrow> int \<Rightarrow> runtime_fingerprint res" where
  "mk_runtime_fingerprint kind digest algorithm schema =
     raise_if (algorithm \<noteq> ''sha256'' \<or> schema \<noteq> 1) invalid_runtime_contract
    (raise_if (\<not> hex_digest_ok digest) invalid_runtime_contract
    (Inr \<lparr>rf_kind = kind, rf_digest = digest, rf_algorithm = algorithm, rf_schema_version = schema\<rparr>))"

definition runtime_fingerprint_str :: "runtime_fingerprint \<Rightarrow> string" where
  "runtime_fingerprint_str f = runtime_fingerprint_kind_value (rf_kind f) @ '':sha256:'' @ rf_digest f"

definition runtime_fingerprint_document ::
  "runtime_fingerprint_kind \<Rightarrow> exn \<Rightarrow> pyval \<Rightarrow> runtime_fingerprint res" where
  "runtime_fingerprint_document kind e document =
     tryE (runtime_canonicalize e document) (\<lambda>canonical.
     mk_runtime_fingerprint kind (sha256_hex canonical) ''sha256'' 1)"

section \<open>Laws\<close>

definition runtime_sha :: "runtime_fingerprint_kind \<Rightarrow> string \<Rightarrow> runtime_fingerprint" where
  "runtime_sha kind s =
     \<lparr>rf_kind = kind, rf_digest = sha256_hex s, rf_algorithm = ''sha256'', rf_schema_version = 1\<rparr>"

lemma runtime_sha_fields [simp]: "rf_kind (runtime_sha kind s) = kind" "rf_digest (runtime_sha kind s) = sha256_hex s"
  by (simp_all add: runtime_sha_def)

lemma runtime_limits_eq: "runtime_json_limits = skill_json_limits"
  by (simp add: runtime_json_limits_def skill_json_limits_def)

lemma runtime_fingerprint_document_eq:
  "runtime_fingerprint_document kind e document =
     (if bounded_ok skill_json_limits document then Inr (runtime_sha kind (canon document)) else Inl e)"
  by (simp add: runtime_fingerprint_document_def runtime_canonicalize_def bounded_canonicalize_eq
      mk_runtime_fingerprint_def runtime_sha_def runtime_limits_eq)

lemma runtime_copy_eq [simp]: "runtime_copy e v = (if bounded_ok skill_json_limits v then Inr v else Inl e)"
  by (simp add: runtime_copy_def runtime_limits_eq)

lemma runtime_text_eq [simp]: "runtime_text e s = (if text_ok s then Inr s else Inl e)"
  by (auto simp: runtime_text_def text_ok_def exact_text_ok_def max_text_length_def raise_if_def)

lemma runtime_identifier_eq [simp]:
  "runtime_identifier e s = (if skill_identifier_ok s then Inr s else Inl e)"
  by (auto simp: runtime_identifier_def skill_identifier_ok_def raise_if_def)

lemma skill_errors_Inr [simp, res_simps]: "skill_errors_as e r = Inr v \<longleftrightarrow> r = Inr v"
  by (cases r) (simp_all add: skill_errors_as_def)

lemma error_as_Inr [simp, res_simps]: "error_as x e r = Inr v \<longleftrightarrow> r = Inr v"
  by (cases r) (simp_all add: error_as_def)

lemma errors_as_simps [simp]:
  "skill_errors_as e (Inr v) = Inr v" "error_as x e (Inr v) = Inr v"
  "skill_errors_as e (Inl (SkillExn y)) = Inl e" "error_as x e (Inl x) = Inl e"
  by (simp_all add: skill_errors_as_def error_as_def)

section \<open>Equality of schemas\<close>

lemma contents_number_data: "contents_ok n b v \<Longrightarrow> number_data v"
  by (induction v rule: number_data.induct) (auto simp: list_all_iff)

lemma contents_equal: "contents_ok n b v \<Longrightarrow> py_equal v v"
  by (intro py_equal_refl contents_number_data)

function schema_eq :: "value_schema \<Rightarrow> value_schema \<Rightarrow> bool" where
  "schema_eq s t \<longleftrightarrow>
     vs_type s = vs_type t \<and> vs_nullable s = vs_nullable t \<and>
     list_all2 (\<lambda>p q. pr_name p = pr_name q \<and> schema_eq (pr_schema p) (pr_schema q) \<and>
       pr_required p = pr_required q) (vs_properties s) (vs_properties t) \<and>
     (case (vs_item s, vs_item t) of
        (None, None) \<Rightarrow> True | (Some a, Some b) \<Rightarrow> schema_eq a b | _ \<Rightarrow> False) \<and>
     vs_additional s = vs_additional t \<and> list_all2 py_equal (vs_allowed s) (vs_allowed t) \<and>
     rel_option py_equal (vs_minimum s) (vs_minimum t) \<and> rel_option py_equal (vs_maximum s) (vs_maximum t) \<and>
     vs_min_length s = vs_min_length t \<and> vs_max_length s = vs_max_length t \<and>
     vs_min_items s = vs_min_items t \<and> vs_max_items s = vs_max_items t"
  by pat_completeness auto
termination by (relation "measure (\<lambda>(s, t). size s)") (auto simp: size_property size_item)

declare schema_eq.simps [simp del]

lemma finite_number_equal: "finite_number v \<Longrightarrow> py_equal v v"
  by (subst py_equal.simps, cases v rule: finite_number.cases)
    (auto simp: number_value_def split: pyfloat.split)

lemma built_schema_eq_refl: "built_schema s \<Longrightarrow> schema_eq s s"
proof (induction s rule: measure_induct_rule [of size])
  case (less s)
  note b = built_schemaD [OF less.prems]
  have props: "list_all2 (\<lambda>p q. pr_name p = pr_name q \<and> schema_eq (pr_schema p) (pr_schema q) \<and>
      pr_required p = pr_required q) (vs_properties s) (vs_properties s)"
    using b(5) less.IH size_property by (auto intro!: list.rel_refl_strong)
  have item: "case (i, i) of (None, None) \<Rightarrow> True | (Some a, Some b) \<Rightarrow> schema_eq a b | _ \<Rightarrow> False"
    if "vs_item s = i" for i
    using that less.IH [OF size_item b(6)] by (cases i) auto
  have allowed: "list_all2 py_equal (vs_allowed s) (vs_allowed s)"
    using b(4) contents_equal by (auto intro!: list.rel_refl_strong simp: bounded_ok_def)
  have bounds: "rel_option py_equal (vs_minimum s) (vs_minimum s)" "rel_option py_equal (vs_maximum s) (vs_maximum s)"
    using b(8) finite_number_equal
    by (auto simp: mk_value_schema_def Let_def res_simps split: option.splits intro!: option.rel_refl_strong)
  show ?case by (subst schema_eq.simps) (use props item [OF refl] allowed bounds in blast)
qed

end
