(* ===== verification/Runtime_Endpoints.thy ===== *)
theory Runtime_Endpoints
  imports Runtime_Models
begin

text \<open>ROS service endpoints (\<open>runtime_bridge/endpoints.py\<close>).\<close>

section \<open>Names\<close>

text \<open>\<open>[a-z][a-z0-9_]*\<close> and \<open>[A-Z][A-Za-z0-9]*\<close>.\<close>

definition lower_letter :: "char \<Rightarrow> bool" where
  "lower_letter c = (let n = code_point c in 97 \<le> n \<and> n \<le> 122)"

definition upper_letter :: "char \<Rightarrow> bool" where
  "upper_letter c = (let n = code_point c in 65 \<le> n \<and> n \<le> 90)"

definition ros_token :: "string \<Rightarrow> bool" where
  "ros_token s \<longleftrightarrow>
     s \<noteq> [] \<and> lower_letter (hd s) \<and> list_all (\<lambda>c. lower_letter c \<or> is_digit c \<or> c = CHR ''_'') (tl s)"

definition ros_interface :: "string \<Rightarrow> bool" where
  "ros_interface s \<longleftrightarrow>
     s \<noteq> [] \<and> upper_letter (hd s) \<and> list_all (\<lambda>c. lower_letter c \<or> upper_letter c \<or> is_digit c) (tl s)"

definition validate_ros_name :: "(string \<Rightarrow> bool) \<Rightarrow> string \<Rightarrow> string res" where
  "validate_ros_name pattern s =
     raise_if (s = [] \<or> s \<noteq> py_strip s) invalid_ros_endpoint
    (raise_if (256 < length s \<or> \<not> pattern s) invalid_ros_endpoint (Inr s))"

fun split_slashes :: "string \<Rightarrow> string list" where
  "split_slashes [] = [[]]"
| "split_slashes (c # s) =
     (if c = CHR ''/'' then [] # split_slashes s else (c # hd (split_slashes s)) # tl (split_slashes s))"

definition validate_namespace :: "string \<Rightarrow> string res" where
  "validate_namespace s =
     raise_if (s = [] \<or> s \<noteq> py_strip s) invalid_ros_endpoint
    (raise_if (256 < length s \<or> hd s \<noteq> CHR ''/'') invalid_ros_endpoint
    (if s = ''/'' then Inr s
     else raise_if (last s = CHR ''/'' \<or> list_ex (\<lambda>t. \<not> ros_token t) (split_slashes (tl s)))
        invalid_ros_endpoint (Inr s)))"

section \<open>Schemas\<close>

text \<open>
  Every schema is built again from its own fields; \<open>rebuild\<close> in the code is recursive, and any error of the
  constructors of the Skill Manager is an error of the endpoint.
\<close>

function rebuild_schema :: "value_schema \<Rightarrow> value_schema res" where
  "rebuild_schema s =
     skill_errors_as invalid_ros_endpoint
      (tryE (traverse (\<lambda>p. tryE (rebuild_schema (pr_schema p)) (\<lambda>c.
          mk_schema_property (pr_name p) c (pr_required p))) (vs_properties s)) (\<lambda>properties.
       tryE (case vs_item s of None \<Rightarrow> Inr None | Some i \<Rightarrow> tryE (rebuild_schema i) (\<lambda>c. Inr (Some c))) (\<lambda>item.
       mk_value_schema (vs_type s) (vs_nullable s) properties item (vs_additional s) (vs_allowed s)
         (vs_minimum s) (vs_maximum s) (vs_min_length s) (vs_max_length s) (vs_min_items s) (vs_max_items s))))"
  by pat_completeness auto
termination by (relation "measure size") (auto simp: size_property size_item)

declare rebuild_schema.simps [simp del]

definition rebuild_schema_contract :: "value_schema \<Rightarrow> value_schema res" where
  "rebuild_schema_contract s =
     tryE (validate_graph invalid_ros_endpoint s) (\<lambda>_.
     tryE (rebuild_schema s) (\<lambda>rebuilt.
     raise_if (\<not> schema_eq rebuilt s) invalid_ros_endpoint (Inr rebuilt)))"

definition runtime_schema_document :: "value_schema \<Rightarrow> pyval res" where
  "runtime_schema_document s = document_of_schema invalid_ros_endpoint s"

section \<open>Endpoints\<close>

datatype endpoint_availability = EndpointAvailable | EndpointUnavailable | EndpointDisabled

fun endpoint_availability_value :: "endpoint_availability \<Rightarrow> string" where
  "endpoint_availability_value EndpointAvailable = ''available''"
| "endpoint_availability_value EndpointUnavailable = ''unavailable''"
| "endpoint_availability_value EndpointDisabled = ''disabled''"

text \<open>The one kind of endpoint is \<open>service_request\<close>.\<close>

record ros_endpoint =
  re_endpoint_id :: string
  re_backend_id :: string
  re_package_name :: string
  re_interface_name :: string
  re_endpoint_name :: string
  re_namespace :: string
  re_request_schema :: value_schema
  re_response_schema :: value_schema
  re_timeout_ms :: int
  re_availability :: endpoint_availability
  re_fingerprint :: runtime_fingerprint

definition endpoint_document ::
  "string \<Rightarrow> string \<Rightarrow> string \<Rightarrow> string \<Rightarrow> string \<Rightarrow> string \<Rightarrow> pyval \<Rightarrow> pyval \<Rightarrow> int \<Rightarrow>
   endpoint_availability \<Rightarrow> pyval" where
  "endpoint_document endpoint_id backend_id package interface name namespace request response timeout_ms
     availability = obj [
       (''availability'', PStr (endpoint_availability_value availability)),
       (''backend_id'', PStr backend_id),
       (''endpoint_id'', PStr endpoint_id),
       (''endpoint_name'', PStr name),
       (''interface_name'', PStr interface),
       (''kind'', PStr ''service_request''),
       (''namespace'', PStr namespace),
       (''package_name'', PStr package),
       (''request_schema'', request),
       (''response_schema'', response),
       (''schema'', PStr ''ayyo.runtime-bridge.ros-service-endpoint.v1''),
       (''timeout_ms'', PInt timeout_ms)]"

definition mk_ros_endpoint ::
  "string \<Rightarrow> string \<Rightarrow> string \<Rightarrow> string \<Rightarrow> string \<Rightarrow> string \<Rightarrow> value_schema \<Rightarrow> value_schema \<Rightarrow> int \<Rightarrow>
   endpoint_availability \<Rightarrow> ros_endpoint res" where
  "mk_ros_endpoint endpoint_id backend_id package interface name namespace request_schema response_schema
     timeout_ms availability =
     tryE (runtime_identifier invalid_ros_endpoint endpoint_id) (\<lambda>endpoint_id.
     tryE (runtime_identifier invalid_ros_endpoint backend_id) (\<lambda>backend_id.
     tryE (validate_ros_name ros_token package) (\<lambda>package.
     tryE (validate_ros_name ros_interface interface) (\<lambda>interface.
     tryE (validate_ros_name ros_token name) (\<lambda>name.
     tryE (validate_namespace namespace) (\<lambda>namespace.
     tryE (rebuild_schema_contract request_schema) (\<lambda>request_schema.
     tryE (rebuild_schema_contract response_schema) (\<lambda>response_schema.
     raise_if (vs_type request_schema \<noteq> VtObject \<or> vs_nullable request_schema \<or>
         vs_type response_schema \<noteq> VtObject \<or> vs_nullable response_schema) invalid_ros_endpoint
    (raise_if (timeout_ms < 1 \<or> 86400000 < timeout_ms) invalid_ros_endpoint
    (tryE (runtime_schema_document request_schema) (\<lambda>request_doc.
     tryE (runtime_schema_document response_schema) (\<lambda>response_doc.
     tryE (runtime_fingerprint_document RfEndpoint invalid_ros_endpoint
        (endpoint_document endpoint_id backend_id package interface name namespace request_doc response_doc
           timeout_ms availability)) (\<lambda>f.
     Inr \<lparr>re_endpoint_id = endpoint_id, re_backend_id = backend_id, re_package_name = package,
          re_interface_name = interface, re_endpoint_name = name, re_namespace = namespace,
          re_request_schema = request_schema, re_response_schema = response_schema,
          re_timeout_ms = timeout_ms, re_availability = availability, re_fingerprint = f\<rparr>)))))))))))))"

definition fully_qualified_name :: "ros_endpoint \<Rightarrow> string" where
  "fully_qualified_name r =
     (if re_namespace r = ''/'' then [] else re_namespace r) @ ''/'' @ re_endpoint_name r"

text \<open>Equality of endpoints, and the construction of an endpoint from the fields of another.\<close>

definition endpoint_eq :: "ros_endpoint \<Rightarrow> ros_endpoint \<Rightarrow> bool" where
  "endpoint_eq a b \<longleftrightarrow>
     schema_eq (re_request_schema a) (re_request_schema b) \<and>
     schema_eq (re_response_schema a) (re_response_schema b) \<and>
     a\<lparr>re_request_schema := re_request_schema b, re_response_schema := re_response_schema b\<rparr> = b"

definition rebuild_ros_endpoint :: "ros_endpoint \<Rightarrow> ros_endpoint res" where
  "rebuild_ros_endpoint r =
     tryE (mk_ros_endpoint (re_endpoint_id r) (re_backend_id r) (re_package_name r) (re_interface_name r)
        (re_endpoint_name r) (re_namespace r) (re_request_schema r) (re_response_schema r) (re_timeout_ms r)
        (re_availability r)) (\<lambda>rebuilt.
     raise_if (\<not> endpoint_eq rebuilt r) invalid_ros_endpoint (Inr rebuilt))"

section \<open>What construction accepts and returns\<close>

lemma mk_schema_property_eq [simp]:
  "mk_schema_property n c r = (if skill_identifier_ok n then Inr (SchemaProperty n c r) else Inl invalid_schema)"
  by (simp add: mk_schema_property_def)

lemma rebuild_schema_built: "built_schema s \<Longrightarrow> rebuild_schema s = Inr s"
proof (induction s rule: measure_induct_rule [of size])
  case (less s)
  note b = built_schemaD [OF less.prems]
  have "traverse (\<lambda>p. tryE (rebuild_schema (pr_schema p)) (\<lambda>c.
      mk_schema_property (pr_name p) c (pr_required p))) ps = Inr ps" if "set ps \<subseteq> set (vs_properties s)" for ps
    using that
  proof (induction ps)
    case (Cons p ps)
    then have "rebuild_schema (pr_schema p) = Inr (pr_schema p)" "skill_identifier_ok (pr_name p)"
      using less.IH [OF size_property b(5)] b(7) by auto
    with Cons show ?case by simp
  qed simp
  moreover have "(case i of None \<Rightarrow> Inr None | Some i \<Rightarrow> tryE (rebuild_schema i) (\<lambda>c. Inr (Some c))) = Inr i"
    if "vs_item s = i" for i
    using that less.IH [OF size_item b(6)] by (cases i) simp_all
  ultimately show ?case
    by (subst rebuild_schema.simps) (simp add: b(8))
qed

lemma rebuild_schema_Inr: "rebuild_schema s = Inr t \<Longrightarrow> built_schema t"
proof (induction s arbitrary: t rule: measure_induct_rule [of size])
  case (less s)
  from less.prems obtain properties item where
    props: "list_all2 (\<lambda>p q. \<exists>c. rebuild_schema (pr_schema p) = Inr c \<and>
      mk_schema_property (pr_name p) c (pr_required p) = Inr q) (vs_properties s) properties"
    and item: "(case vs_item s of None \<Rightarrow> Inr None | Some i \<Rightarrow> tryE (rebuild_schema i) (\<lambda>c. Inr (Some c))) = Inr item"
    and mk: "mk_value_schema (vs_type s) (vs_nullable s) properties item (vs_additional s) (vs_allowed s)
      (vs_minimum s) (vs_maximum s) (vs_min_length s) (vs_max_length s) (vs_min_items s) (vs_max_items s) = Inr t"
    by (subst (asm) rebuild_schema.simps) (auto simp: tryE_Inr traverse_Inr simp del: mk_schema_property_eq)
  have "built_schema (pr_schema q) \<and> skill_identifier_ok (pr_name q)" if "q \<in> set properties" for q
  proof -
    from list_all2_ex2 [OF props that]
    obtain p c where p: "p \<in> set (vs_properties s)" "rebuild_schema (pr_schema p) = Inr c"
        "mk_schema_property (pr_name p) c (pr_required p) = Inr q"
      by blast
    from less.IH [OF size_property [OF p(1)] p(2)] p(3) show ?thesis by (auto split: if_splits)
  qed
  moreover have "\<forall>i. item = Some i \<longrightarrow> built_schema i"
    using item less.IH size_item by (auto simp: tryE_Inr split: option.splits)
  ultimately show ?case using mk by (intro built_schema.build [OF _ _ mk]) blast+
qed

definition schema_valid :: "value_schema \<Rightarrow> bool" where
  "schema_valid s \<longleftrightarrow> built_schema s \<and> schema_ok s"

lemma schema_contract_valid: "schema_valid s \<Longrightarrow> rebuild_schema_contract s = Inr s"
  by (simp add: rebuild_schema_contract_def schema_valid_def validate_graph_eq rebuild_schema_built
      built_schema_eq_refl)

lemma schema_eq_shape:
  "schema_eq s t \<Longrightarrow> schema_nodes s = schema_nodes t \<and> (schema_within d s \<longleftrightarrow> schema_within d t)"
proof (induction s arbitrary: t d rule: measure_induct_rule [of size])
  case (less s)
  have props: "list_all2 (\<lambda>p q. pr_name p = pr_name q \<and> schema_eq (pr_schema p) (pr_schema q) \<and>
      pr_required p = pr_required q) (vs_properties s) (vs_properties t)"
    and item: "case (vs_item s, vs_item t) of
      (None, None) \<Rightarrow> True | (Some a, Some b) \<Rightarrow> schema_eq a b | _ \<Rightarrow> False"
    using less.prems by (subst (asm) schema_eq.simps, blast)+
  have "list_all2 (\<lambda>a b. schema_eq a b) (map pr_schema (vs_properties s)) (map pr_schema (vs_properties t))"
    using props by (auto simp: list_all2_map1 list_all2_map2 elim: list_all2_mono)
  moreover have "list_all2 (\<lambda>a b. schema_eq a b)
      (case vs_item s of None \<Rightarrow> [] | Some i \<Rightarrow> [i]) (case vs_item t of None \<Rightarrow> [] | Some i \<Rightarrow> [i])"
    using item by (auto split: option.splits)
  ultimately have children: "list_all2 schema_eq (schema_children s) (schema_children t)"
    unfolding schema_children_def by (rule list_all2_appendI)
  have smaller: "size c < size s" if "c \<in> set (schema_children s)" for c
    using that size_property size_item by (auto simp: schema_children_def split: option.splits)
  have same: "schema_nodes a = schema_nodes b \<and> (schema_within k a \<longleftrightarrow> schema_within k b)"
    if "a \<in> set (schema_children s)" "schema_eq a b" for a b k
    using less.IH [OF smaller [OF that(1)] that(2)] .
  have "map schema_nodes as = map schema_nodes bs \<and>
      ((\<forall>a \<in> set as. schema_within k a) \<longleftrightarrow> (\<forall>b \<in> set bs. schema_within k b))"
    if "list_all2 schema_eq as bs" "set as \<subseteq> set (schema_children s)" for as bs k
    using that same by (induction rule: list_all2_induct) auto
  from this [OF children subset_refl] show ?case
    unfolding schema_nodes_children [of s] schema_nodes_children [of t] schema_within_children [of d s]
      schema_within_children [of d t]
    using children by (cases "schema_children s"; cases "schema_children t") auto
qed

lemma schema_contract_Inr:
  assumes "rebuild_schema_contract s = Inr t"
  shows "schema_valid t \<and> schema_eq t s"
  using assms schema_eq_shape [of t s 16] rebuild_schema_Inr [of s t]
  by (auto simp: rebuild_schema_contract_def schema_valid_def validate_graph_eq schema_ok_def res_simps
      split: if_splits)

text \<open>An endpoint that is accepted is built from its own fields, and building it again changes nothing.\<close>

definition endpoint_made :: "ros_endpoint \<Rightarrow> bool" where
  "endpoint_made r \<longleftrightarrow>
     mk_ros_endpoint (re_endpoint_id r) (re_backend_id r) (re_package_name r) (re_interface_name r)
        (re_endpoint_name r) (re_namespace r) (re_request_schema r) (re_response_schema r) (re_timeout_ms r)
        (re_availability r) = Inr r"

lemma mk_ros_endpoint_Inr:
  assumes "mk_ros_endpoint i b p n e s q a t v = Inr r"
  shows "endpoint_made r" "schema_valid (re_request_schema r)" "schema_valid (re_response_schema r)"
    "vs_type (re_request_schema r) = VtObject" "\<not> vs_nullable (re_request_schema r)"
    "re_backend_id r = b" "re_endpoint_id r = i" "re_availability r = v" "re_timeout_ms r = t"
    "schema_eq (re_request_schema r) q" "schema_eq (re_response_schema r) a"
    "skill_identifier_ok b" "re_package_name r = p" "re_interface_name r = n" "re_endpoint_name r = e"
    "re_namespace r = s"
proof -
  from assms have r: "schema_valid (re_request_schema r)" "schema_valid (re_response_schema r)"
    "vs_type (re_request_schema r) = VtObject" "\<not> vs_nullable (re_request_schema r)"
    "re_backend_id r = b" "re_endpoint_id r = i" "re_availability r = v" "re_timeout_ms r = t"
    "schema_eq (re_request_schema r) q" "schema_eq (re_response_schema r) a"
    "skill_identifier_ok b" "re_package_name r = p" "re_interface_name r = n" "re_endpoint_name r = e"
    "re_namespace r = s"
    by (auto simp: mk_ros_endpoint_def validate_ros_name_def validate_namespace_def res_simps
        dest!: schema_contract_Inr split: if_splits)
  then show "schema_valid (re_request_schema r)" "schema_valid (re_response_schema r)"
    "vs_type (re_request_schema r) = VtObject" "\<not> vs_nullable (re_request_schema r)"
    "re_backend_id r = b" "re_endpoint_id r = i" "re_availability r = v" "re_timeout_ms r = t"
    "schema_eq (re_request_schema r) q" "schema_eq (re_response_schema r) a"
    "skill_identifier_ok b" "re_package_name r = p" "re_interface_name r = n" "re_endpoint_name r = e"
    "re_namespace r = s" by blast+
  obtain q' a' where qa: "rebuild_schema_contract q = Inr q'" "rebuild_schema_contract a = Inr a'"
    using assms by (auto simp: mk_ros_endpoint_def tryE_Inr raise_if_Inr)
  have fields: "re_request_schema r = q'" "re_response_schema r = a'"
    using assms by (auto simp: mk_ros_endpoint_def tryE_Inr raise_if_Inr qa)
  then have valid: "schema_valid q'" "schema_valid a'" using r(1,2) by auto
  have "mk_ros_endpoint i b p n e s q' a' t v = mk_ros_endpoint i b p n e s q a t v"
    by (simp only: mk_ros_endpoint_def qa schema_contract_valid [OF valid(1)] schema_contract_valid [OF valid(2)]
        tryE_simps)
  then show "endpoint_made r" using assms r fields by (simp add: endpoint_made_def)
qed

lemma endpoint_made_eq_refl: "endpoint_made r \<Longrightarrow> endpoint_eq r r"
  using mk_ros_endpoint_Inr(2,3) [of _ _ _ _ _ _ _ _ _ _ r] built_schema_eq_refl
  by (auto simp: endpoint_made_def endpoint_eq_def schema_valid_def)

lemma rebuild_endpoint_made: "endpoint_made r \<Longrightarrow> rebuild_ros_endpoint r = Inr r"
  using endpoint_made_eq_refl by (auto simp: rebuild_ros_endpoint_def endpoint_made_def)

lemma rebuild_endpoint_Inr: "rebuild_ros_endpoint r = Inr t \<Longrightarrow> endpoint_made t \<and> endpoint_eq t r"
  by (auto simp: rebuild_ros_endpoint_def res_simps dest: mk_ros_endpoint_Inr)

end
