(* ===== verification/Runtime_Registry.thy ===== *)
theory Runtime_Registry
  imports Runtime_Endpoints
begin

text \<open>The allowlist of bindings of skills to endpoints (\<open>runtime_bridge/registry.py\<close>).\<close>

section \<open>Skill definitions\<close>

definition rebuild_semantic_version :: "semantic_version \<Rightarrow> semantic_version res" where
  "rebuild_semantic_version version =
     tryE (error_as invalid_ros_endpoint invalid_runtime_registry
        (skill_errors_as invalid_runtime_registry (mk_semantic_version version))) (\<lambda>rebuilt.
     raise_if (rebuilt \<noteq> version) invalid_runtime_registry (Inr rebuilt))"

text \<open>The equality of definitions: the schemas by their own equality, the metadata not compared.\<close>

definition skill_eq :: "skill_definition \<Rightarrow> skill_definition \<Rightarrow> bool" where
  "skill_eq a b \<longleftrightarrow>
     schema_eq (kd_input_schema a) (kd_input_schema b) \<and> schema_eq (kd_output_schema a) (kd_output_schema b) \<and>
     a\<lparr>kd_input_schema := kd_input_schema b, kd_output_schema := kd_output_schema b,
       kd_metadata := kd_metadata b\<rparr> = b"

definition rebuild_skill_definition :: "skill_definition \<Rightarrow> skill_definition res" where
  "rebuild_skill_definition k =
     tryE (skill_errors_as invalid_runtime_registry
       (tryE (rebuild_semantic_version (kd_version k)) (\<lambda>version.
        tryE (rebuild_schema_contract (kd_input_schema k)) (\<lambda>input_schema.
        tryE (rebuild_schema_contract (kd_output_schema k)) (\<lambda>output_schema.
        tryE (skill_dict_property (kd_metadata k)) (\<lambda>metadata.
        mk_skill_definition (kd_skill_id k) version (kd_name k) (kd_description k) (kd_capability_ids k)
          (kd_backend_id k) input_schema output_schema (kd_required_context k) (kd_required_resources k)
          (kd_required_approval_classes k) (kd_safety_classification k) (kd_expected_result k) (kd_timeout_ms k)
          (kd_concurrency_policy k) (kd_idempotency k) (kd_failure_semantics k) (kd_availability k)
          (kd_lifecycle k) (Some metadata))))))) (\<lambda>rebuilt.
     raise_if (\<not> skill_eq rebuilt k \<or> kd_fingerprint rebuilt \<noteq> kd_fingerprint k) invalid_runtime_registry
       (Inr rebuilt))"

section \<open>Bindings\<close>

record runtime_binding =
  rb_skill_id :: string
  rb_skill_version :: semantic_version
  rb_skill_fingerprint :: skill_fingerprint
  rb_capability_id :: string
  rb_backend_id :: string
  rb_endpoint :: ros_endpoint
  rb_skill_definition :: skill_definition
  rb_fingerprint :: runtime_fingerprint

definition runtime_binding_document :: "ros_endpoint \<Rightarrow> string \<Rightarrow> skill_definition \<Rightarrow> pyval" where
  "runtime_binding_document endpoint capability_id skill = obj [
     (''backend_id'', PStr (re_backend_id endpoint)),
     (''capability_id'', PStr capability_id),
     (''endpoint_fingerprint'', PStr (runtime_fingerprint_str (re_fingerprint endpoint))),
     (''schema'', PStr ''ayyo.runtime-bridge.endpoint-binding.v1''),
     (''skill_fingerprint'', PStr (skill_fingerprint_str (kd_fingerprint skill))),
     (''skill_id'', PStr (kd_skill_id skill)),
     (''skill_version'', PStr (kd_version skill))]"

definition mk_runtime_binding :: "skill_definition \<Rightarrow> string \<Rightarrow> ros_endpoint \<Rightarrow> runtime_binding res" where
  "mk_runtime_binding skill capability_id endpoint =
     tryE (rebuild_skill_definition skill) (\<lambda>skill.
     tryE (runtime_identifier invalid_runtime_registry capability_id) (\<lambda>capability_id.
     tryE (error_as invalid_ros_endpoint invalid_runtime_registry (rebuild_ros_endpoint endpoint)) (\<lambda>endpoint.
     raise_if (kd_availability skill \<noteq> SkillAvailable) invalid_runtime_registry
    (raise_if (capability_id \<notin> set (kd_capability_ids skill)) invalid_runtime_registry
    (raise_if (kd_backend_id skill \<noteq> re_backend_id endpoint) invalid_runtime_registry
    (raise_if (\<not> schema_eq (kd_input_schema skill) (re_request_schema endpoint)) invalid_runtime_registry
    (raise_if (\<not> schema_eq (kd_output_schema skill) (re_response_schema endpoint)) invalid_runtime_registry
    (raise_if (kd_timeout_ms skill < re_timeout_ms endpoint) invalid_runtime_registry
    (tryE (runtime_fingerprint_document RfEndpointBinding invalid_runtime_registry
        (runtime_binding_document endpoint capability_id skill)) (\<lambda>f.
     Inr \<lparr>rb_skill_id = kd_skill_id skill, rb_skill_version = kd_version skill,
          rb_skill_fingerprint = kd_fingerprint skill, rb_capability_id = capability_id,
          rb_backend_id = re_backend_id endpoint, rb_endpoint = endpoint, rb_skill_definition = skill,
          rb_fingerprint = f\<rparr>))))))))))"

definition runtime_binding_eq :: "runtime_binding \<Rightarrow> runtime_binding \<Rightarrow> bool" where
  "runtime_binding_eq a b \<longleftrightarrow>
     endpoint_eq (rb_endpoint a) (rb_endpoint b) \<and> skill_eq (rb_skill_definition a) (rb_skill_definition b) \<and>
     a\<lparr>rb_endpoint := rb_endpoint b, rb_skill_definition := rb_skill_definition b\<rparr> = b"

section \<open>The registry\<close>

type_synonym runtime_binding_key = "string \<times> semantic_version \<times> string \<times> string"

definition runtime_binding_key :: "runtime_binding \<Rightarrow> runtime_binding_key" where
  "runtime_binding_key b = (rb_skill_id b, rb_skill_version b, rb_capability_id b, rb_backend_id b)"

text \<open>\<open>_by_key\<close> is the lookup in the ordered tuple.\<close>

record runtime_registry =
  rtg_version :: semantic_version
  rtg_fingerprint :: runtime_fingerprint
  rtg_bindings :: "runtime_binding list"

definition endpoint_identity :: "ros_endpoint \<Rightarrow> string \<times> string \<times> string" where
  "endpoint_identity r = (re_package_name r, re_interface_name r, fully_qualified_name r)"

definition runtime_registry_document :: "semantic_version \<Rightarrow> runtime_binding list \<Rightarrow> pyval" where
  "runtime_registry_document version ordered = obj [
     (''bindings'', str_list (map (\<lambda>b. runtime_fingerprint_str (rb_fingerprint b)) ordered)),
     (''schema'', PStr ''ayyo.runtime-bridge.endpoint-registry.v1''),
     (''version'', PStr version)]"

definition mk_runtime_registry :: "semantic_version \<Rightarrow> runtime_binding list \<Rightarrow> runtime_registry res" where
  "mk_runtime_registry version bindings =
     tryE (rebuild_semantic_version version) (\<lambda>version.
     raise_if (256 < length bindings) invalid_runtime_registry
    (let ordered = sort_key runtime_binding_key bindings in
     raise_if (has_dup (map runtime_binding_key ordered)) invalid_runtime_registry
    (raise_if (has_dup (map (\<lambda>b. re_endpoint_id (rb_endpoint b)) ordered)) invalid_runtime_registry
    (raise_if (has_dup (map (\<lambda>b. endpoint_identity (rb_endpoint b)) ordered)) invalid_runtime_registry
    (tryE (runtime_fingerprint_document RfRegistry invalid_runtime_registry
        (runtime_registry_document version ordered)) (\<lambda>f.
     Inr \<lparr>rtg_version = version, rtg_fingerprint = f, rtg_bindings = ordered\<rparr>))))))"

definition resolve_binding ::
  "runtime_registry \<Rightarrow> string \<Rightarrow> semantic_version \<Rightarrow> string \<Rightarrow> string \<Rightarrow> runtime_binding option res" where
  "resolve_binding registry skill_id skill_version capability_id backend_id =
     tryE (runtime_identifier invalid_runtime_registry skill_id) (\<lambda>skill_id.
     tryE (runtime_identifier invalid_runtime_registry capability_id) (\<lambda>capability_id.
     tryE (runtime_identifier invalid_runtime_registry backend_id) (\<lambda>backend_id.
     tryE (rebuild_semantic_version skill_version) (\<lambda>skill_version.
     Inr (index_get runtime_binding_key (rtg_bindings registry)
       (skill_id, skill_version, capability_id, backend_id))))))"

definition runtime_registry_eq :: "runtime_registry \<Rightarrow> runtime_registry \<Rightarrow> bool" where
  "runtime_registry_eq a b \<longleftrightarrow>
     rtg_version a = rtg_version b \<and> rtg_fingerprint a = rtg_fingerprint b \<and>
     list_all2 runtime_binding_eq (rtg_bindings a) (rtg_bindings b)"

section \<open>What construction accepts and returns\<close>

text \<open>Versions that the constructor accepts.\<close>

definition semver_ok :: "semantic_version \<Rightarrow> bool" where
  "semver_ok v \<longleftrightarrow> mk_semantic_version v = Inr v"

lemma rebuild_version_eq [simp]: "semver_ok v \<Longrightarrow> rebuild_semantic_version v = Inr v"
  by (simp add: rebuild_semantic_version_def semver_ok_def)

lemma rebuild_version_Inr: "rebuild_semantic_version v = Inr w \<longleftrightarrow> semver_ok v \<and> w = v"
  by (auto simp: rebuild_semantic_version_def semver_ok_def res_simps)

lemma rebuild_version_cases:
  "rebuild_semantic_version v = (if semver_ok v then Inr v else Inl invalid_runtime_registry)"
proof (cases "semver_ok v")
  case False
  have skill: "mk_semantic_version v = Inl e \<Longrightarrow> \<exists>y. e = SkillExn y" for e
    by (auto simp: mk_semantic_version_def skill_text_def res_simps dest!: for_each_Inl split: option.splits if_splits)
  show ?thesis
  proof (cases "mk_semantic_version v")
    case (Inl e)
    with skill [OF Inl] False show ?thesis by (auto simp: rebuild_semantic_version_def error_as_def)
  next
    case (Inr w)
    with False show ?thesis by (auto simp: rebuild_semantic_version_def semver_ok_def)
  qed
qed simp

text \<open>A definition that is built from its own fields.\<close>

definition skill_made :: "skill_definition \<Rightarrow> bool" where
  "skill_made k \<longleftrightarrow>
     semver_ok (kd_version k) \<and> schema_valid (kd_input_schema k) \<and> schema_valid (kd_output_schema k) \<and>
     mk_skill_definition (kd_skill_id k) (kd_version k) (kd_name k) (kd_description k) (kd_capability_ids k)
       (kd_backend_id k) (kd_input_schema k) (kd_output_schema k) (kd_required_context k)
       (kd_required_resources k) (kd_required_approval_classes k) (kd_safety_classification k)
       (kd_expected_result k) (kd_timeout_ms k) (kd_concurrency_policy k) (kd_idempotency k)
       (kd_failure_semantics k) (kd_availability k) (kd_lifecycle k) (Some (kd_metadata k)) = Inr k"

lemma capability_tuple_again: "capability_tuple ids = Inr cs \<Longrightarrow> capability_tuple cs = Inr cs"
proof -
  assume a: "capability_tuple ids = Inr cs"
  then obtain ys where "traverse (skill_identifier invalid_skill) ids = Inr ys" "cs = sort ys"
      "length ids \<le> 128" "length ys = length ids"
    by (auto simp: capability_tuple_def res_simps dest: traverse_length)
  moreover have "traverse (skill_identifier invalid_skill) cs = Inr cs" if "list_all skill_identifier_ok cs"
    using that by (induction cs) auto
  ultimately show ?thesis
    using capability_tuple_Inr [OF a] by (auto simp: capability_tuple_def sort_key_sorted_id)
qed

lemma check_concurrency_sorted [simp]: "check_concurrency p (sort_key f rs) = check_concurrency p rs"
  by (simp add: check_concurrency_def list_ex_iff)

lemma skill_metadata_again: "skill_metadata m = Inr v \<Longrightarrow> skill_metadata (Some v) = Inr v"
  by (auto simp: skill_metadata_def Let_def res_simps split: if_splits)

lemma skill_metadata_property: "skill_metadata m = Inr v \<Longrightarrow> skill_dict_property v = Inr v"
  by (auto simp: skill_metadata_def skill_dict_property_def Let_def res_simps split: if_splits)

lemma mk_skill_again:
  assumes "mk_skill_definition i v n d caps b s t ctx rs aps cl ex ms cc ic fs av lc md = Inr k"
  shows "mk_skill_definition (kd_skill_id k) (kd_version k) (kd_name k) (kd_description k) (kd_capability_ids k)
       (kd_backend_id k) (kd_input_schema k) (kd_output_schema k) (kd_required_context k)
       (kd_required_resources k) (kd_required_approval_classes k) (kd_safety_classification k)
       (kd_expected_result k) (kd_timeout_ms k) (kd_concurrency_policy k) (kd_idempotency k)
       (kd_failure_semantics k) (kd_availability k) (kd_lifecycle k) (Some (kd_metadata k)) = Inr k"
    "kd_version k = v" "kd_input_schema k = s" "kd_output_schema k = t" "kd_availability k = av"
    "skill_dict_property (kd_metadata k) = Inr (kd_metadata k)"
proof -
  from assms obtain cs m where parts: "capability_tuple caps = Inr cs" "skill_metadata md = Inr m"
    "skill_identifier invalid_skill i = Inr i" "skill_identifier invalid_skill b = Inr b"
    "skill_text invalid_skill n = Inr n" "skill_text invalid_skill d = Inr d"
    and k: "kd_skill_id k = i" "kd_version k = v" "kd_name k = n" "kd_description k = d" "kd_capability_ids k = cs"
      "kd_backend_id k = b" "kd_input_schema k = s" "kd_output_schema k = t"
      "kd_required_context k = sort_key context_key ctx" "kd_required_resources k = sort_key rr_resource_id rs"
      "kd_required_approval_classes k = sort_key approval_class_value aps" "kd_safety_classification k = cl"
      "kd_expected_result k = ex" "kd_timeout_ms k = ms" "kd_concurrency_policy k = cc" "kd_idempotency k = ic"
      "kd_failure_semantics k = fs" "kd_availability k = av" "kd_lifecycle k = lc" "kd_metadata k = m"
    by (auto simp: mk_skill_definition_def Let_def res_simps skill_contract.defs skill_definition.defs split: if_splits)
  note again = capability_tuple_again [OF parts(1)] skill_metadata_again [OF parts(2)]
  have "mk_skill_definition i v n d cs b s t (sort_key context_key ctx) (sort_key rr_resource_id rs)
      (sort_key approval_class_value aps) cl ex ms cc ic fs av lc (Some m) =
    mk_skill_definition i v n d caps b s t ctx rs aps cl ex ms cc ic fs av lc md"
    by (simp only: mk_skill_definition_def parts again tryE_simps sort_key_idem Let_def)
  with assms show "mk_skill_definition (kd_skill_id k) (kd_version k) (kd_name k) (kd_description k) (kd_capability_ids k)
       (kd_backend_id k) (kd_input_schema k) (kd_output_schema k) (kd_required_context k)
       (kd_required_resources k) (kd_required_approval_classes k) (kd_safety_classification k)
       (kd_expected_result k) (kd_timeout_ms k) (kd_concurrency_policy k) (kd_idempotency k)
       (kd_failure_semantics k) (kd_availability k) (kd_lifecycle k) (Some (kd_metadata k)) = Inr k"
    by (simp add: k)
  show "kd_version k = v" "kd_input_schema k = s" "kd_output_schema k = t" "kd_availability k = av"
    "skill_dict_property (kd_metadata k) = Inr (kd_metadata k)"
    using k skill_metadata_property [OF parts(2)] by simp_all
qed

lemma skill_eq_refl: "skill_made k \<Longrightarrow> skill_eq k k"
  by (simp add: skill_eq_def skill_made_def schema_valid_def built_schema_eq_refl)

lemma rebuild_skill_made: "skill_made k \<Longrightarrow> rebuild_skill_definition k = Inr k"
  using mk_skill_again(6) [of _ _ _ _ _ _ _ _ _ _ _ _ _ _ _ _ _ _ _ _ k] skill_eq_refl [of k]
  by (auto simp: rebuild_skill_definition_def skill_made_def schema_contract_valid)

lemma rebuild_skill_Inr:
  assumes "rebuild_skill_definition k = Inr k'"
  shows "skill_made k' \<and> skill_eq k' k"
proof -
  from assms obtain s t m where s: "rebuild_schema_contract (kd_input_schema k) = Inr s"
    "rebuild_schema_contract (kd_output_schema k) = Inr t" and v: "semver_ok (kd_version k)"
    and mk: "mk_skill_definition (kd_skill_id k) (kd_version k) (kd_name k) (kd_description k) (kd_capability_ids k)
          (kd_backend_id k) s t (kd_required_context k) (kd_required_resources k)
          (kd_required_approval_classes k) (kd_safety_classification k) (kd_expected_result k) (kd_timeout_ms k)
          (kd_concurrency_policy k) (kd_idempotency k) (kd_failure_semantics k) (kd_availability k)
          (kd_lifecycle k) (Some m) = Inr k'"
    and eq: "skill_eq k' k"
    by (auto simp: rebuild_skill_definition_def res_simps rebuild_version_Inr)
  note again = mk_skill_again [OF mk]
  show ?thesis
    unfolding skill_made_def again(2) again(3) again(4)
    using again(1) v eq schema_contract_Inr [OF s(1)] schema_contract_Inr [OF s(2)] by (simp add: again)
qed

section \<open>Bindings and registries that construction returns\<close>

definition binding_made :: "runtime_binding \<Rightarrow> bool" where
  "binding_made b \<longleftrightarrow>
     skill_made (rb_skill_definition b) \<and> endpoint_made (rb_endpoint b) \<and>
     mk_runtime_binding (rb_skill_definition b) (rb_capability_id b) (rb_endpoint b) = Inr b"

lemma mk_runtime_binding_Inr:
  assumes "mk_runtime_binding skill capability_id endpoint = Inr b"
  shows "binding_made b"
    "skill_eq (rb_skill_definition b) skill" "endpoint_eq (rb_endpoint b) endpoint"
    "rb_capability_id b = capability_id" "capability_id \<in> set (kd_capability_ids (rb_skill_definition b))"
    "kd_availability (rb_skill_definition b) = SkillAvailable"
    "rb_skill_id b = kd_skill_id (rb_skill_definition b)" "rb_skill_version b = kd_version (rb_skill_definition b)"
    "rb_skill_fingerprint b = kd_fingerprint (rb_skill_definition b)"
    "rb_backend_id b = re_backend_id (rb_endpoint b)" "kd_backend_id (rb_skill_definition b) = rb_backend_id b"
    "schema_eq (kd_input_schema (rb_skill_definition b)) (re_request_schema (rb_endpoint b))"
    "schema_eq (kd_output_schema (rb_skill_definition b)) (re_response_schema (rb_endpoint b))"
    "re_timeout_ms (rb_endpoint b) \<le> kd_timeout_ms (rb_skill_definition b)"
proof -
  from assms obtain k r where kr: "rebuild_skill_definition skill = Inr k" "rebuild_ros_endpoint endpoint = Inr r"
    and fields: "rb_skill_definition b = k" "rb_endpoint b = r" "rb_capability_id b = capability_id"
      "rb_skill_id b = kd_skill_id k" "rb_skill_version b = kd_version k" "rb_skill_fingerprint b = kd_fingerprint k"
      "rb_backend_id b = re_backend_id r"
    and checks: "kd_availability k = SkillAvailable" "capability_id \<in> set (kd_capability_ids k)"
      "kd_backend_id k = re_backend_id r" "schema_eq (kd_input_schema k) (re_request_schema r)"
      "schema_eq (kd_output_schema k) (re_response_schema r)" "re_timeout_ms r \<le> kd_timeout_ms k"
    by (auto simp: mk_runtime_binding_def res_simps split: if_splits)
  note k = rebuild_skill_Inr [OF kr(1)] and r = rebuild_endpoint_Inr [OF kr(2)]
  have "mk_runtime_binding k capability_id r = mk_runtime_binding skill capability_id endpoint"
    by (simp add: mk_runtime_binding_def kr rebuild_skill_made [OF conjunct1 [OF k]]
        rebuild_endpoint_made [OF conjunct1 [OF r]])
  then show "binding_made b" using assms k r by (simp add: binding_made_def fields)
  show "skill_eq (rb_skill_definition b) skill" "endpoint_eq (rb_endpoint b) endpoint"
    "rb_capability_id b = capability_id" "capability_id \<in> set (kd_capability_ids (rb_skill_definition b))"
    "kd_availability (rb_skill_definition b) = SkillAvailable"
    "rb_skill_id b = kd_skill_id (rb_skill_definition b)" "rb_skill_version b = kd_version (rb_skill_definition b)"
    "rb_skill_fingerprint b = kd_fingerprint (rb_skill_definition b)"
    "rb_backend_id b = re_backend_id (rb_endpoint b)" "kd_backend_id (rb_skill_definition b) = rb_backend_id b"
    "schema_eq (kd_input_schema (rb_skill_definition b)) (re_request_schema (rb_endpoint b))"
    "schema_eq (kd_output_schema (rb_skill_definition b)) (re_response_schema (rb_endpoint b))"
    "re_timeout_ms (rb_endpoint b) \<le> kd_timeout_ms (rb_skill_definition b)"
    using k r checks by (simp_all add: fields)
qed

lemma binding_madeD: "binding_made b \<Longrightarrow>
  mk_runtime_binding (rb_skill_definition b) (rb_capability_id b) (rb_endpoint b) = Inr b"
  by (simp add: binding_made_def)

lemmas binding_made_facts = mk_runtime_binding_Inr [OF binding_madeD]

lemma runtime_binding_eq_refl: "binding_made b \<Longrightarrow> runtime_binding_eq b b"
  by (simp add: runtime_binding_eq_def binding_made_def skill_eq_refl endpoint_made_eq_refl)

definition runtime_registry_made :: "runtime_registry \<Rightarrow> bool" where
  "runtime_registry_made r \<longleftrightarrow>
     list_all binding_made (rtg_bindings r) \<and> mk_runtime_registry (rtg_version r) (rtg_bindings r) = Inr r"

lemma mk_runtime_registry_Inr:
  assumes "mk_runtime_registry version bindings = Inr r"
  shows "mk_runtime_registry (rtg_version r) (rtg_bindings r) = Inr r" "set (rtg_bindings r) = set bindings"
    "rtg_version r = version" "semver_ok version"
    "distinct (map runtime_binding_key (rtg_bindings r))"
    "rf_kind (rtg_fingerprint r) = RfRegistry"
proof -
  have fields: "rtg_bindings r = sort_key runtime_binding_key bindings" "rtg_version r = version" "semver_ok version"
    "distinct (map runtime_binding_key bindings)" "rf_kind (rtg_fingerprint r) = RfRegistry"
    using assms
    by (auto simp: mk_runtime_registry_def Let_def res_simps rebuild_version_Inr runtime_fingerprint_document_eq
        split: if_splits)
  have "mk_runtime_registry version (sort_key runtime_binding_key bindings) = mk_runtime_registry version bindings"
    by (simp add: mk_runtime_registry_def)
  with assms show "mk_runtime_registry (rtg_version r) (rtg_bindings r) = Inr r" by (simp add: fields)
  show "set (rtg_bindings r) = set bindings" "rtg_version r = version" "semver_ok version"
    "distinct (map runtime_binding_key (rtg_bindings r))" "rf_kind (rtg_fingerprint r) = RfRegistry"
    using fields by simp_all
qed

lemma runtime_registry_eq_refl: "runtime_registry_made r \<Longrightarrow> runtime_registry_eq r r"
  by (auto simp: runtime_registry_eq_def runtime_registry_made_def list_all_iff
      intro!: list.rel_refl_strong runtime_binding_eq_refl)

lemma resolve_binding_eq:
  "resolve_binding r i v c b =
     (if skill_identifier_ok i \<and> skill_identifier_ok c \<and> skill_identifier_ok b \<and> semver_ok v
      then Inr (index_get runtime_binding_key (rtg_bindings r) (i, v, c, b))
      else Inl invalid_runtime_registry)"
  using rebuild_version_cases [of v] by (simp add: resolve_binding_def split: if_splits)

end
