(* ===== verification/Runtime_Binding.thy ===== *)
theory Runtime_Binding
  imports Runtime_Registry Skill_Binding
begin

text \<open>Requests: invocations of skills bound to their endpoints (\<open>runtime_bridge/binding.py\<close>).\<close>

section \<open>Documents\<close>

definition runtime_context_document :: "context_reference \<Rightarrow> pyval" where
  "runtime_context_document r = obj [
     (''conflict_ids'', str_list (map uuid_str (cf_conflict_ids r))),
     (''domain'', PStr (context_domain_value (cr_domain (cf_requirement r)))),
     (''memory_ids'', str_list (map uuid_str (cf_memory_ids r))),
     (''predicate'', PStr (cr_predicate (cf_requirement r))),
     (''required'', PBool (cf_required r)),
     (''state'', PStr (context_state_value (cf_state r))),
     (''value_digests'', str_list (cf_value_digests r))]"

definition runtime_approval_document :: "safety_approval \<Rightarrow> pyval" where
  "runtime_approval_document a = obj [
     (''affected_step_id'', PStr (sa_affected_step a)),
     (''approval_class'', PStr (approval_class_value (sa_approval_class a))),
     (''description'', PStr (sa_description a)),
     (''requirement_id'', PStr (sa_requirement_id a)),
     (''source'', PStr (approval_source_value (sa_source a)))]"

section \<open>Reconstruction of what the Skill Manager hands over\<close>

definition rebuild_bound_skill :: "skill_definition \<Rightarrow> skill_definition res" where
  "rebuild_bound_skill k = error_as invalid_runtime_registry invalid_runtime_binding (rebuild_skill_definition k)"

definition rebuild_bound_selection :: "skill_selection \<Rightarrow> skill_definition \<Rightarrow> skill_selection res" where
  "rebuild_bound_selection l skill =
     tryE (error_as invalid_runtime_registry invalid_runtime_binding (skill_errors_as invalid_runtime_binding
       (tryE (rebuild_semantic_version (kl_registry_version l)) (\<lambda>registry_version.
        mk_skill_selection (kl_skill_id l) (kl_skill_version l) (kd_fingerprint skill) (kl_capability_id l)
          (kl_source_step_id l) registry_version (kl_registry_fingerprint l))))) (\<lambda>rebuilt.
     raise_if (rebuilt \<noteq> l) invalid_runtime_binding (Inr rebuilt))"

text \<open>The equality of invocations; the parameters are not compared.\<close>

definition invocation_eq :: "skill_invocation \<Rightarrow> skill_invocation \<Rightarrow> bool" where
  "invocation_eq a b \<longleftrightarrow>
     skill_eq (ki_skill_definition a) (ki_skill_definition b) \<and>
     schema_eq (ki_output_schema a) (ki_output_schema b) \<and>
     a\<lparr>ki_skill_definition := ki_skill_definition b, ki_output_schema := ki_output_schema b,
       ki_parameters := ki_parameters b\<rparr> = b"

definition rebuild_invocation :: "skill_invocation \<Rightarrow> skill_invocation res" where
  "rebuild_invocation i =
     tryE (rebuild_bound_skill (ki_skill_definition i)) (\<lambda>skill.
     tryE (rebuild_bound_selection (ki_selection i) skill) (\<lambda>selection.
     tryE (skill_errors_as invalid_runtime_binding
       (tryE (invocation_parameters i) (\<lambda>parameters.
        mk_skill_invocation (ki_status i) selection skill parameters (ki_context_references i)
          (ki_required_approvals i) (ki_sources i)))) (\<lambda>rebuilt.
     raise_if (\<not> invocation_eq rebuilt i \<or> ki_fingerprint rebuilt \<noteq> ki_fingerprint i) invalid_runtime_binding
       (Inr rebuilt))))"

definition rebuild_bound_endpoint :: "ros_endpoint \<Rightarrow> ros_endpoint res" where
  "rebuild_bound_endpoint r = error_as invalid_ros_endpoint invalid_runtime_binding (rebuild_ros_endpoint r)"

text \<open>A binding built again from its parts, in the registry and in a request.\<close>

definition rebuild_runtime_binding :: "runtime_binding \<Rightarrow> runtime_binding res" where
  "rebuild_runtime_binding b =
     tryE (rebuild_bound_skill (rb_skill_definition b)) (\<lambda>skill.
     tryE (rebuild_bound_endpoint (rb_endpoint b)) (\<lambda>endpoint.
     mk_runtime_binding skill (rb_capability_id b) endpoint))"

definition rebuild_runtime_registry :: "runtime_registry \<Rightarrow> runtime_registry res" where
  "rebuild_runtime_registry r =
     tryE (traverse rebuild_runtime_binding (rtg_bindings r)) (\<lambda>bindings.
     tryE (mk_runtime_registry (rtg_version r) bindings) (\<lambda>rebuilt.
     raise_if (\<not> runtime_registry_eq rebuilt r) invalid_runtime_binding (Inr rebuilt)))"

section \<open>Requests\<close>

record runtime_request =
  rtq_request_id :: string
  rtq_invocation :: skill_invocation
  rtq_binding :: runtime_binding
  rtq_registry_version :: semantic_version
  rtq_registry_fingerprint :: runtime_fingerprint
  rtq_fingerprint :: runtime_fingerprint
  rtq_fields :: pyval

definition runtime_request_document ::
  "skill_invocation \<Rightarrow> runtime_binding \<Rightarrow> semantic_version \<Rightarrow> runtime_fingerprint \<Rightarrow> pyval \<Rightarrow> pyval" where
  "runtime_request_document i b version registry_fp values =
     (let l = ki_selection i; s = ki_sources i in obj [
       (''backend_id'', PStr (ki_backend_id i)),
       (''capability_id'', PStr (kl_capability_id l)),
       (''concurrency_policy'', PStr (concurrency_policy_value (ki_concurrency_policy i))),
       (''context_references'', PList (map runtime_context_document (ki_context_references i))),
       (''endpoint_binding_fingerprint'', PStr (runtime_fingerprint_str (rb_fingerprint b))),
       (''endpoint_fingerprint'', PStr (runtime_fingerprint_str (re_fingerprint (rb_endpoint b)))),
       (''invocation_fingerprint'', PStr (skill_fingerprint_str (ki_fingerprint i))),
       (''invocation_id'', PStr (ki_invocation_id i)),
       (''request_fields'', values),
       (''required_approvals'', PList (map runtime_approval_document (ki_required_approvals i))),
       (''required_resources'', PList (map resource_document (ki_required_resources i))),
       (''runtime_registry_fingerprint'', PStr (runtime_fingerprint_str registry_fp)),
       (''runtime_registry_version'', PStr version),
       (''schema'', PStr ''ayyo.runtime-bridge.request.v1''),
       (''skill_fingerprint'', PStr (skill_fingerprint_str (kl_skill_fingerprint l))),
       (''skill_id'', PStr (kl_skill_id l)),
       (''skill_registry_fingerprint'', PStr (skill_fingerprint_str (kl_registry_fingerprint l))),
       (''skill_registry_version'', PStr (kl_registry_version l)),
       (''skill_version'', PStr (kl_skill_version l)),
       (''source_executive_decision_id'', PStr (is_decision_id s)),
       (''source_executive_fingerprint'', PStr (fingerprint_str (is_decision_fingerprint s))),
       (''source_policy_fingerprint'', PStr (safety_fingerprint_str (is_policy_fingerprint s))),
       (''source_policy_version'', PStr (is_policy_version s)),
       (''source_proposal_fingerprint'', PStr (safety_fingerprint_str (is_proposal_fingerprint s))),
       (''source_request_id'', PStr (is_request_id s)),
       (''source_safety_decision_id'', PStr (is_safety_decision_id s)),
       (''source_safety_fingerprint'', PStr (safety_fingerprint_str (is_safety_fingerprint s))),
       (''source_step_id'', PStr (kl_source_step_id l))])"

definition mk_runtime_request ::
  "skill_invocation \<Rightarrow> runtime_binding \<Rightarrow> semantic_version \<Rightarrow> runtime_fingerprint \<Rightarrow> runtime_request res" where
  "mk_runtime_request invocation binding version registry_fp =
     tryE (rebuild_invocation invocation) (\<lambda>i.
     tryE (error_as invalid_runtime_registry invalid_runtime_binding (rebuild_runtime_binding binding)) (\<lambda>b.
     raise_if (\<not> runtime_binding_eq b binding) invalid_runtime_binding
    (raise_if (ki_status i \<noteq> InvocationEligible) invalid_runtime_binding
    (tryE (error_as invalid_runtime_registry invalid_runtime_binding (rebuild_semantic_version version)) (\<lambda>version.
     raise_if (rf_kind registry_fp \<noteq> RfRegistry) invalid_runtime_binding
    (raise_if (rb_skill_id b \<noteq> kl_skill_id (ki_selection i) \<or>
         rb_skill_version b \<noteq> kl_skill_version (ki_selection i) \<or>
         rb_skill_fingerprint b \<noteq> kl_skill_fingerprint (ki_selection i) \<or>
         rb_capability_id b \<noteq> kl_capability_id (ki_selection i) \<or>
         rb_backend_id b \<noteq> ki_backend_id i) invalid_runtime_binding
    (tryE (skill_errors_as invalid_runtime_binding
       (tryE (invocation_parameters i) (validate_skill_parameters (re_request_schema (rb_endpoint b))))) (\<lambda>values.
     tryE (runtime_copy invalid_runtime_binding values) (\<lambda>values.
     tryE (runtime_fingerprint_document RfRequest invalid_runtime_binding
        (runtime_request_document i b version registry_fp values)) (\<lambda>f.
     Inr \<lparr>rtq_request_id = ''runtime-request-'' @ rf_digest f, rtq_invocation = i, rtq_binding = b,
          rtq_registry_version = version, rtq_registry_fingerprint = registry_fp, rtq_fingerprint = f,
          rtq_fields = values\<rparr>))))))))))"

text \<open>The property \<open>request_fields\<close>: a copy, asserted to be a dict.\<close>

definition request_fields :: "runtime_request \<Rightarrow> pyval res" where
  "request_fields q =
     tryE (runtime_copy (RuntimeExn RuntimeValidationError) (rtq_fields q)) (\<lambda>copied.
     raise_if (\<not> is_dict copied) (BuiltinExn AssertionError) (Inr copied))"

definition runtime_request_eq :: "runtime_request \<Rightarrow> runtime_request \<Rightarrow> bool" where
  "runtime_request_eq a b \<longleftrightarrow>
     invocation_eq (rtq_invocation a) (rtq_invocation b) \<and> runtime_binding_eq (rtq_binding a) (rtq_binding b) \<and>
     a\<lparr>rtq_invocation := rtq_invocation b, rtq_binding := rtq_binding b, rtq_fields := rtq_fields b\<rparr> = b"

definition bind_runtime_request :: "skill_invocation \<Rightarrow> runtime_registry \<Rightarrow> runtime_request res" where
  "bind_runtime_request invocation registry =
     tryE (rebuild_invocation invocation) (\<lambda>i.
     tryE (rebuild_runtime_registry registry) (\<lambda>current.
     tryE (resolve_binding current (kl_skill_id (ki_selection i)) (kl_skill_version (ki_selection i))
        (kl_capability_id (ki_selection i)) (ki_backend_id i)) (\<lambda>found.
     case found of
       None \<Rightarrow> Inl invalid_runtime_binding
     | Some b \<Rightarrow>
         raise_if (rb_skill_fingerprint b \<noteq> kl_skill_fingerprint (ki_selection i)) invalid_runtime_binding
        (mk_runtime_request i b (rtg_version current) (rtg_fingerprint current)))))"

section \<open>What is built from its own fields\<close>

definition selection_made :: "skill_selection \<Rightarrow> bool" where
  "selection_made l \<longleftrightarrow>
     mk_skill_selection (kl_skill_id l) (kl_skill_version l) (kl_skill_fingerprint l) (kl_capability_id l)
       (kl_source_step_id l) (kl_registry_version l) (kl_registry_fingerprint l) = Inr l"

definition invocation_made :: "skill_invocation \<Rightarrow> bool" where
  "invocation_made i \<longleftrightarrow>
     skill_made (ki_skill_definition i) \<and> semver_ok (kl_registry_version (ki_selection i)) \<and>
     selection_made (ki_selection i) \<and>
     mk_skill_invocation (ki_status i) (ki_selection i) (ki_skill_definition i) (ki_parameters i)
       (ki_context_references i) (ki_required_approvals i) (ki_sources i) = Inr i"

lemma mk_selection_Inr: "mk_skill_selection a b c d e f g = Inr l \<Longrightarrow>
  selection_made l \<and> kl_registry_version l = f \<and> kl_skill_fingerprint l = c \<and> kl_skill_id l = a \<and>
  kl_skill_version l = b \<and> kl_capability_id l = d \<and> kl_source_step_id l = e \<and> kl_registry_fingerprint l = g"
  by (auto simp: selection_made_def mk_skill_selection_def res_simps split: if_splits)

lemma mk_invocation_again:
  assumes "mk_skill_invocation status selection skill parameters references approvals sources = Inr i"
  shows "mk_skill_invocation (ki_status i) (ki_selection i) (ki_skill_definition i) (ki_parameters i)
      (ki_context_references i) (ki_required_approvals i) (ki_sources i) = Inr i"
    "ki_parameters i = parameters" "invocation_parameters i = Inr (ki_parameters i)"
    "ki_status i = status" "ki_selection i = selection" "ki_skill_definition i = skill"
    "ki_output_schema i = kd_output_schema skill" "ki_backend_id i = kd_backend_id skill"
    "kl_skill_id selection = kd_skill_id skill" "kl_skill_version selection = kd_version skill"
    "kl_skill_fingerprint selection = kd_fingerprint skill"
    "kl_capability_id selection \<in> set (kd_capability_ids skill)"
    "ki_context_references i = sort_key (\<lambda>r. context_key (cf_requirement r)) references"
proof -
  have caught: "parameters_error_as e r = Inr v \<longleftrightarrow> r = Inr v" for e and r :: "'a res" and v
    by (cases r) (auto simp: parameters_error_as_def)
  have fields: "ki_status i = status" "ki_selection i = selection" "ki_skill_definition i = skill"
    "ki_output_schema i = kd_output_schema skill" "ki_backend_id i = kd_backend_id skill"
    "kl_skill_id selection = kd_skill_id skill" "kl_skill_version selection = kd_version skill"
    "kl_skill_fingerprint selection = kd_fingerprint skill"
    "kl_capability_id selection \<in> set (kd_capability_ids skill)"
    "ki_context_references i = sort_key (\<lambda>r. context_key (cf_requirement r)) references"
    "ki_required_approvals i = approvals" "ki_sources i = sources"
    and valid: "validate_skill_parameters (kd_input_schema skill) parameters = Inr (ki_parameters i)"
    using assms by (auto simp: mk_skill_invocation_def Let_def res_simps caught)
  note same = validated_parameters [OF valid]
  have "mk_skill_invocation status selection skill parameters
      (sort_key (\<lambda>r. context_key (cf_requirement r)) references) approvals sources =
    mk_skill_invocation status selection skill parameters references approvals sources"
    by (simp only: mk_skill_invocation_def sort_key_idem Let_def)
  then show "mk_skill_invocation (ki_status i) (ki_selection i) (ki_skill_definition i) (ki_parameters i)
      (ki_context_references i) (ki_required_approvals i) (ki_sources i) = Inr i"
    using assms same by (simp add: fields)
  show "ki_parameters i = parameters" "invocation_parameters i = Inr (ki_parameters i)"
    using same by (auto simp: invocation_parameters_def)
  show "ki_status i = status" "ki_selection i = selection" "ki_skill_definition i = skill"
    "ki_output_schema i = kd_output_schema skill" "ki_backend_id i = kd_backend_id skill"
    "kl_skill_id selection = kd_skill_id skill" "kl_skill_version selection = kd_version skill"
    "kl_skill_fingerprint selection = kd_fingerprint skill"
    "kl_capability_id selection \<in> set (kd_capability_ids skill)"
    "ki_context_references i = sort_key (\<lambda>r. context_key (cf_requirement r)) references"
    using fields by simp_all
qed

lemma invocation_madeD: "invocation_made i \<Longrightarrow>
  mk_skill_invocation (ki_status i) (ki_selection i) (ki_skill_definition i) (ki_parameters i)
    (ki_context_references i) (ki_required_approvals i) (ki_sources i) = Inr i"
  by (simp add: invocation_made_def)

lemmas invocation_made_facts = mk_invocation_again [OF invocation_madeD]

lemma invocation_eq_refl: "invocation_made i \<Longrightarrow> invocation_eq i i"
  using invocation_made_facts(7) [of i]
  by (auto simp: invocation_eq_def invocation_made_def skill_eq_refl skill_made_def schema_valid_def
      built_schema_eq_refl)

lemma rebuild_bound_skill_made [simp]: "skill_made k \<Longrightarrow> rebuild_bound_skill k = Inr k"
  by (simp add: rebuild_bound_skill_def rebuild_skill_made)

lemma rebuild_invocation_made: "invocation_made i \<Longrightarrow> rebuild_invocation i = Inr i"
proof -
  assume i: "invocation_made i"
  note f = invocation_made_facts [OF i]
  have "rebuild_bound_selection (ki_selection i) (ki_skill_definition i) = Inr (ki_selection i)"
    using i f(11) by (simp add: rebuild_bound_selection_def invocation_made_def selection_made_def)
  then show ?thesis
    using i f(1,3) invocation_eq_refl [OF i] by (simp add: rebuild_invocation_def invocation_made_def)
qed

lemma rebuild_invocation_Inr:
  assumes "rebuild_invocation i = Inr j"
  shows "invocation_made j \<and> invocation_eq j i \<and> ki_parameters j = ki_parameters i"
proof -
  from assms obtain skill selection parameters where
    skill: "rebuild_skill_definition (ki_skill_definition i) = Inr skill"
    and selection: "rebuild_bound_selection (ki_selection i) skill = Inr selection"
    and parameters: "invocation_parameters i = Inr parameters"
    and mk: "mk_skill_invocation (ki_status i) selection skill parameters (ki_context_references i)
      (ki_required_approvals i) (ki_sources i) = Inr j"
    and eq: "invocation_eq j i"
    by (auto simp: rebuild_invocation_def rebuild_bound_skill_def res_simps)
  have "selection_made selection" "semver_ok (kl_registry_version selection)"
    using selection by (auto simp: rebuild_bound_selection_def res_simps rebuild_version_Inr dest!: mk_selection_Inr)
  moreover have "parameters = ki_parameters i"
    using parameters by (auto simp: invocation_parameters_def skill_dict_property_def res_simps split: if_splits)
  ultimately show ?thesis
    using mk_invocation_again [OF mk] eq rebuild_skill_Inr [OF skill] by (simp add: invocation_made_def)
qed

lemma rebuild_runtime_binding_made: "binding_made b \<Longrightarrow> rebuild_runtime_binding b = Inr b"
  by (simp add: rebuild_runtime_binding_def binding_made_def rebuild_bound_endpoint_def rebuild_endpoint_made)

lemma rebuild_runtime_binding_Inr: "rebuild_runtime_binding b = Inr c \<Longrightarrow> binding_made c"
  by (auto simp: rebuild_runtime_binding_def res_simps dest: mk_runtime_binding_Inr(1))

lemma rebuild_registry_made: "runtime_registry_made r \<Longrightarrow> rebuild_runtime_registry r = Inr r"
proof -
  assume r: "runtime_registry_made r"
  then have "traverse rebuild_runtime_binding (rtg_bindings r) = Inr (rtg_bindings r)"
    using traverse_map [of "rtg_bindings r" rebuild_runtime_binding id] rebuild_runtime_binding_made
    by (auto simp: runtime_registry_made_def list_all_iff)
  moreover have "mk_runtime_registry (rtg_version r) (rtg_bindings r) = Inr r"
    using r by (simp add: runtime_registry_made_def)
  ultimately show ?thesis
    using runtime_registry_eq_refl [OF r] by (simp add: rebuild_runtime_registry_def)
qed

lemma rebuild_registry_Inr:
  assumes "rebuild_runtime_registry r = Inr s"
  shows "runtime_registry_made s \<and> runtime_registry_eq s r"
proof -
  from assms obtain bs where bs: "traverse rebuild_runtime_binding (rtg_bindings r) = Inr bs"
    and mk: "mk_runtime_registry (rtg_version r) bs = Inr s" and eq: "runtime_registry_eq s r"
    by (auto simp: rebuild_runtime_registry_def res_simps)
  have "list_all binding_made bs"
    using bs unfolding traverse_Inr
    by (induction rule: list_all2_induct) (auto dest: rebuild_runtime_binding_Inr)
  then show ?thesis
    using mk_runtime_registry_Inr [OF mk] eq by (simp add: runtime_registry_made_def list_all_iff)
qed

section \<open>Requests that construction returns\<close>

definition request_made :: "runtime_request \<Rightarrow> bool" where
  "request_made q \<longleftrightarrow>
     invocation_made (rtq_invocation q) \<and> binding_made (rtq_binding q) \<and>
     mk_runtime_request (rtq_invocation q) (rtq_binding q) (rtq_registry_version q) (rtq_registry_fingerprint q) = Inr q"

text \<open>Constructing a request from what was constructed: one condition for each error.\<close>

definition request_agrees :: "skill_invocation \<Rightarrow> runtime_binding \<Rightarrow> bool" where
  "request_agrees i b \<longleftrightarrow>
     rb_skill_id b = kl_skill_id (ki_selection i) \<and> rb_skill_version b = kl_skill_version (ki_selection i) \<and>
     rb_skill_fingerprint b = kl_skill_fingerprint (ki_selection i) \<and>
     rb_capability_id b = kl_capability_id (ki_selection i) \<and> rb_backend_id b = ki_backend_id i"

lemma mk_request_made_eq:
  assumes "invocation_made i" "binding_made b"
  shows "mk_runtime_request i b v f =
    (if ki_status i = InvocationEligible \<and> semver_ok v \<and> rf_kind f = RfRegistry \<and> request_agrees i b
     then tryE (skill_errors_as invalid_runtime_binding
         (validate_skill_parameters (re_request_schema (rb_endpoint b)) (ki_parameters i))) (\<lambda>w.
       let document = runtime_request_document i b v f w in
       if bounded_ok skill_json_limits w \<and> bounded_ok skill_json_limits document
       then Inr \<lparr>rtq_request_id = ''runtime-request-'' @ sha256_hex (canon document), rtq_invocation = i,
         rtq_binding = b, rtq_registry_version = v, rtq_registry_fingerprint = f,
         rtq_fingerprint = runtime_sha RfRequest (canon document), rtq_fields = w\<rparr>
       else Inl invalid_runtime_binding)
     else Inl invalid_runtime_binding)"
proof -
  have version: "error_as invalid_runtime_registry invalid_runtime_binding (rebuild_semantic_version v) =
      (if semver_ok v then Inr v else Inl invalid_runtime_binding)"
    using rebuild_version_cases [of v] by (simp split: if_splits)
  show ?thesis
    unfolding mk_runtime_request_def rebuild_invocation_made [OF assms(1)] rebuild_runtime_binding_made [OF assms(2)]
      version
    using runtime_binding_eq_refl [OF assms(2)]
    by (auto simp: invocation_made_facts(3) [OF assms(1)] runtime_fingerprint_document_eq request_agrees_def Let_def raise_if_def
        intro!: tryE_cong)
qed

lemma mk_runtime_request_Inr:
  assumes "mk_runtime_request invocation binding version fp = Inr q"
  shows "request_made q" "invocation_eq (rtq_invocation q) invocation" "runtime_binding_eq (rtq_binding q) binding"
    "ki_status (rtq_invocation q) = InvocationEligible" "request_agrees (rtq_invocation q) (rtq_binding q)"
    "rtq_registry_version q = version" "rtq_registry_fingerprint q = fp"
    "rtq_fields q = ki_parameters invocation" "request_fields q = Inr (rtq_fields q)"
    "rtq_fields q = ki_parameters (rtq_invocation q)"
    "validate_skill_parameters (re_request_schema (rb_endpoint (rtq_binding q))) (rtq_fields q) = Inr (rtq_fields q)"
    "rf_kind (rtq_fingerprint q) = RfRequest" "semver_ok version" "rf_kind fp = RfRegistry"
    "rtq_request_id q = ''runtime-request-'' @ rf_digest (rtq_fingerprint q)"
proof -
  from assms obtain i b where i: "rebuild_invocation invocation = Inr i"
    and b: "rebuild_runtime_binding binding = Inr b" "runtime_binding_eq b binding"
    by (auto simp: mk_runtime_request_def res_simps)
  note im = rebuild_invocation_Inr [OF i]
  have bm: "binding_made b" by (rule rebuild_runtime_binding_Inr [OF b(1)])
  have same: "mk_runtime_request i b version fp = mk_runtime_request invocation binding version fp"
    by (simp add: mk_runtime_request_def i b rebuild_invocation_made im rebuild_runtime_binding_made bm
        runtime_binding_eq_refl)
  with assms have mk: "mk_runtime_request i b version fp = Inr q" by simp
  then have q: "ki_status i = InvocationEligible" "semver_ok version" "rf_kind fp = RfRegistry" "request_agrees i b"
      "validate_skill_parameters (re_request_schema (rb_endpoint b)) (ki_parameters i) = Inr (rtq_fields q)"
      "rtq_invocation q = i" "rtq_binding q = b" "rtq_registry_version q = version" "rtq_registry_fingerprint q = fp"
      "rf_kind (rtq_fingerprint q) = RfRequest" "bounded_ok skill_json_limits (rtq_fields q)"
      "rtq_request_id q = ''runtime-request-'' @ rf_digest (rtq_fingerprint q)"
    unfolding mk_request_made_eq [OF conjunct1 [OF im] bm]
    by (auto simp: res_simps Let_def split: if_splits)
  note same_fields = validated_parameters [OF q(5)]
  have dict: "is_dict (rtq_fields q)"
    using q(5) by (auto simp: validate_skill_parameters_def res_simps split: if_splits)
  show "request_made q" "invocation_eq (rtq_invocation q) invocation" "runtime_binding_eq (rtq_binding q) binding"
    "ki_status (rtq_invocation q) = InvocationEligible" "request_agrees (rtq_invocation q) (rtq_binding q)"
    "rtq_registry_version q = version" "rtq_registry_fingerprint q = fp"
    "rtq_fields q = ki_parameters invocation" "request_fields q = Inr (rtq_fields q)"
    "rtq_fields q = ki_parameters (rtq_invocation q)"
    "validate_skill_parameters (re_request_schema (rb_endpoint (rtq_binding q))) (rtq_fields q) = Inr (rtq_fields q)"
    "rf_kind (rtq_fingerprint q) = RfRequest" "semver_ok version" "rf_kind fp = RfRegistry"
    "rtq_request_id q = ''runtime-request-'' @ rf_digest (rtq_fingerprint q)"
    using q im b bm mk same_fields dict by (auto simp: request_made_def request_fields_def)
qed

lemma request_madeD: "request_made q \<Longrightarrow>
  mk_runtime_request (rtq_invocation q) (rtq_binding q) (rtq_registry_version q) (rtq_registry_fingerprint q) = Inr q"
  by (simp add: request_made_def)

lemmas request_made_facts = mk_runtime_request_Inr [OF request_madeD]

lemma runtime_request_eq_refl: "request_made q \<Longrightarrow> runtime_request_eq q q"
  by (simp add: runtime_request_eq_def request_made_def invocation_eq_refl runtime_binding_eq_refl)

lemma bind_runtime_request_Inr:
  assumes "bind_runtime_request invocation registry = Inr q"
  obtains current where "rebuild_runtime_registry registry = Inr current" "rtq_binding q \<in> set (rtg_bindings current)"
    "rtq_registry_version q = rtg_version current" "rtq_registry_fingerprint q = rtg_fingerprint current"
    "request_made q" "invocation_eq (rtq_invocation q) invocation"
proof -
  from assms obtain i current b where i: "rebuild_invocation invocation = Inr i"
    and r: "rebuild_runtime_registry registry = Inr current"
    and b: "b \<in> set (rtg_bindings current)"
    and mk: "mk_runtime_request i b (rtg_version current) (rtg_fingerprint current) = Inr q"
    by (auto simp: bind_runtime_request_def res_simps resolve_binding_eq split: option.splits if_splits
        dest!: index_get_in)
  note im = rebuild_invocation_Inr [OF i]
  have bm: "binding_made b"
    using b rebuild_registry_Inr [OF r] by (simp add: runtime_registry_made_def list_all_iff)
  have "rtq_invocation q = i" "rtq_binding q = b"
    using mk unfolding mk_request_made_eq [OF conjunct1 [OF im] bm]
    by (auto simp: res_simps Let_def split: if_splits)
  with that r b im mk_runtime_request_Inr [OF mk] show thesis by blast
qed

end
