(* ===== verification/Runtime_Decision.thy ===== *)
theory Runtime_Decision
  imports Runtime_Binding
begin

text \<open>Decisions on the eligibility of a binding for the runtime (\<open>runtime_bridge/decision.py\<close>).\<close>

section \<open>Enumerations\<close>

datatype runtime_eligibility =
    RuntimeEligible | RuntimeApprovalRequired | RuntimeDeferred | RuntimeBlocked | RuntimeRejected
  | RuntimeUnavailable | RuntimeStale

fun runtime_eligibility_value :: "runtime_eligibility \<Rightarrow> string" where
  "runtime_eligibility_value RuntimeEligible = ''eligible''"
| "runtime_eligibility_value RuntimeApprovalRequired = ''approval_required''"
| "runtime_eligibility_value RuntimeDeferred = ''deferred''"
| "runtime_eligibility_value RuntimeBlocked = ''blocked''"
| "runtime_eligibility_value RuntimeRejected = ''rejected''"
| "runtime_eligibility_value RuntimeUnavailable = ''unavailable''"
| "runtime_eligibility_value RuntimeStale = ''stale''"

datatype runtime_reason =
    UpstreamApprovalRequired | UpstreamBlocked | UpstreamDeferred | UpstreamStale | UpstreamIneligible
  | UpstreamSkillUnavailable | EndpointNotRegistered | EndpointIsUnavailable | SkillFingerprintMismatch
  | RuntimeRegistryChanged | UpstreamBindingChanged | EndpointChanged

fun runtime_reason_value :: "runtime_reason \<Rightarrow> string" where
  "runtime_reason_value UpstreamApprovalRequired = ''upstream_approval_required''"
| "runtime_reason_value UpstreamBlocked = ''upstream_blocked''"
| "runtime_reason_value UpstreamDeferred = ''upstream_deferred''"
| "runtime_reason_value UpstreamStale = ''upstream_stale''"
| "runtime_reason_value UpstreamIneligible = ''upstream_ineligible''"
| "runtime_reason_value UpstreamSkillUnavailable = ''skill_unavailable''"
| "runtime_reason_value EndpointNotRegistered = ''endpoint_not_registered''"
| "runtime_reason_value EndpointIsUnavailable = ''endpoint_unavailable''"
| "runtime_reason_value SkillFingerprintMismatch = ''skill_fingerprint_mismatch''"
| "runtime_reason_value RuntimeRegistryChanged = ''runtime_registry_changed''"
| "runtime_reason_value UpstreamBindingChanged = ''upstream_binding_changed''"
| "runtime_reason_value EndpointChanged = ''endpoint_changed''"

definition runtime_reasons :: "runtime_reason list" where
  "runtime_reasons = [UpstreamApprovalRequired, UpstreamBlocked, UpstreamDeferred, UpstreamStale,
     UpstreamIneligible, UpstreamSkillUnavailable, EndpointNotRegistered, EndpointIsUnavailable,
     SkillFingerprintMismatch, RuntimeRegistryChanged, UpstreamBindingChanged, EndpointChanged]"

fun binding_status_value :: "binding_status \<Rightarrow> string" where
  "binding_status_value BindEligible = ''eligible_for_runtime_handoff''"
| "binding_status_value BindApprovalRequired = ''external_approval_required''"
| "binding_status_value BindIneligible = ''ineligible''"

section \<open>Reconstruction of a binding result\<close>

definition rebuild_skill_selection :: "skill_selection \<Rightarrow> skill_selection res" where
  "rebuild_skill_selection l =
     tryE (skill_errors_as invalid_runtime_binding
        (mk_skill_selection (kl_skill_id l) (kl_skill_version l) (kl_skill_fingerprint l) (kl_capability_id l)
          (kl_source_step_id l) (kl_registry_version l) (kl_registry_fingerprint l))) (\<lambda>rebuilt.
     raise_if (rebuilt \<noteq> l) invalid_runtime_binding (Inr rebuilt))"

definition binding_result_eq :: "binding_result \<Rightarrow> binding_result \<Rightarrow> bool" where
  "binding_result_eq a b \<longleftrightarrow>
     rel_option invocation_eq (br_invocation a) (br_invocation b) \<and> a\<lparr>br_invocation := br_invocation b\<rparr> = b"

definition rebuild_binding_result :: "binding_result \<Rightarrow> binding_result res" where
  "rebuild_binding_result b =
     tryE (rebuild_skill_selection (br_selection b)) (\<lambda>selection.
     tryE (case br_invocation b of None \<Rightarrow> Inr None
       | Some i \<Rightarrow> tryE (rebuild_invocation i) (\<lambda>j. Inr (Some j))) (\<lambda>invocation.
     tryE (skill_errors_as invalid_runtime_binding (check_binding_result
        \<lparr>br_status = br_status b, br_reasons = br_reasons b, br_selection = selection,
         br_safety_decision_id = br_safety_decision_id b, br_invocation = invocation\<rparr>)) (\<lambda>rebuilt.
     raise_if (\<not> binding_result_eq rebuilt b) invalid_runtime_binding (Inr rebuilt))))"

section \<open>Decisions\<close>

record runtime_decision =
  rd_decision_id :: string
  rd_status :: runtime_eligibility
  rd_reasons :: "runtime_reason list"
  rd_binding_status :: binding_status
  rd_selection_fingerprint :: skill_fingerprint
  rd_safety_decision_id :: string
  rd_invocation_fingerprint :: "skill_fingerprint option"
  rd_registry_fingerprint :: runtime_fingerprint
  rd_request :: "runtime_request option"
  rd_fingerprint :: runtime_fingerprint

text \<open>
  A request built again from its parts, and whether it is the request that was given: \<open>!=\<close> on the
  requests and, when they are equal, on their fields.
\<close>

definition rebuild_runtime_request :: "runtime_request \<Rightarrow> runtime_request res" where
  "rebuild_runtime_request q =
     mk_runtime_request (rtq_invocation q) (rtq_binding q) (rtq_registry_version q) (rtq_registry_fingerprint q)"

definition request_changed :: "runtime_request \<Rightarrow> runtime_request \<Rightarrow> bool res" where
  "request_changed again q =
     (if \<not> runtime_request_eq again q then Inr True
      else tryE (request_fields again) (\<lambda>a. tryE (request_fields q) (\<lambda>b. Inr (\<not> py_equal a b))))"

definition decision_request ::
  "runtime_eligibility \<Rightarrow> runtime_reason list \<Rightarrow> runtime_request option \<Rightarrow> runtime_request option res" where
  "decision_request status reasons request =
     (if status = RuntimeEligible then
        (case request of
           None \<Rightarrow> Inl invalid_runtime_contract
         | Some q \<Rightarrow>
             raise_if (reasons \<noteq> []) invalid_runtime_contract
            (tryE (rebuild_runtime_request q) (\<lambda>rebuilt.
             tryE (request_changed rebuilt q) (\<lambda>changed.
             raise_if changed invalid_runtime_contract (Inr (Some rebuilt))))))
      else raise_if (request \<noteq> None \<or> reasons = []) invalid_runtime_contract (Inr request))"

fun required_reason :: "runtime_eligibility \<Rightarrow> runtime_reason option" where
  "required_reason RuntimeApprovalRequired = Some UpstreamApprovalRequired"
| "required_reason RuntimeDeferred = Some UpstreamDeferred"
| "required_reason RuntimeBlocked = Some UpstreamBlocked"
| "required_reason RuntimeStale = Some UpstreamStale"
| "required_reason RuntimeUnavailable = Some EndpointIsUnavailable"
| "required_reason _ = None"

definition runtime_decision_document ::
  "runtime_eligibility \<Rightarrow> runtime_reason list \<Rightarrow> binding_result \<Rightarrow> runtime_fingerprint \<Rightarrow>
   runtime_request option \<Rightarrow> pyval" where
  "runtime_decision_document status reasons b registry_fp request = obj [
     (''reasons'', str_list (map runtime_reason_value reasons)),
     (''request_fingerprint'',
        case request of None \<Rightarrow> PNone | Some q \<Rightarrow> PStr (runtime_fingerprint_str (rtq_fingerprint q))),
     (''runtime_registry_fingerprint'', PStr (runtime_fingerprint_str registry_fp)),
     (''schema'', PStr ''ayyo.runtime-bridge.decision.v1''),
     (''source_binding_status'', PStr (binding_status_value (br_status b))),
     (''source_invocation_fingerprint'',
        case br_invocation b of None \<Rightarrow> PNone | Some i \<Rightarrow> PStr (skill_fingerprint_str (ki_fingerprint i))),
     (''source_safety_decision_id'', PStr (br_safety_decision_id b)),
     (''source_selection_fingerprint'', PStr (skill_fingerprint_str (kl_fingerprint (br_selection b)))),
     (''status'', PStr (runtime_eligibility_value status))]"

definition check_decision_reasons ::
  "runtime_eligibility \<Rightarrow> runtime_reason list \<Rightarrow> binding_result \<Rightarrow> unit res" where
  "check_decision_reasons status reasons b =
     raise_if (case required_reason status of
         None \<Rightarrow> False
       | Some r \<Rightarrow> r \<notin> set reasons \<and>
           \<not> (status = RuntimeUnavailable \<and> UpstreamSkillUnavailable \<in> set reasons)) invalid_runtime_contract
    (raise_if (status = RuntimeApprovalRequired \<and> br_status b \<noteq> BindApprovalRequired) invalid_runtime_contract
    (raise_if (status = RuntimeBlocked \<and>
         (br_status b \<noteq> BindIneligible \<or> ReasonSafetyBlocked \<notin> set (br_reasons b))) invalid_runtime_contract
    (raise_if (status = RuntimeDeferred \<and>
         (br_status b \<noteq> BindIneligible \<or> ReasonSafetyDeferred \<notin> set (br_reasons b))) invalid_runtime_contract
    (Inr ()))))"

definition mk_runtime_decision ::
  "runtime_eligibility \<Rightarrow> runtime_reason list \<Rightarrow> binding_result \<Rightarrow> runtime_fingerprint \<Rightarrow>
   runtime_request option \<Rightarrow> runtime_decision res" where
  "mk_runtime_decision status reasons binding_result registry_fp request =
     tryE (rebuild_binding_result binding_result) (\<lambda>b.
     raise_if (reasons \<noteq> enum_ordered runtime_reasons (set reasons)) invalid_runtime_contract
    (raise_if (rf_kind registry_fp \<noteq> RfRegistry) invalid_runtime_contract
    (tryE (decision_request status reasons request) (\<lambda>request.
     tryE (check_decision_reasons status reasons b) (\<lambda>_.
     tryE (runtime_fingerprint_document RfDecision invalid_runtime_contract
        (runtime_decision_document status reasons b registry_fp request)) (\<lambda>f.
     Inr \<lparr>rd_decision_id = ''runtime-decision-'' @ rf_digest f, rd_status = status, rd_reasons = reasons,
          rd_binding_status = br_status b, rd_selection_fingerprint = kl_fingerprint (br_selection b),
          rd_safety_decision_id = br_safety_decision_id b,
          rd_invocation_fingerprint = map_option ki_fingerprint (br_invocation b),
          rd_registry_fingerprint = registry_fp, rd_request = request, rd_fingerprint = f\<rparr>))))))"

definition runtime_decision_eq :: "runtime_decision \<Rightarrow> runtime_decision \<Rightarrow> bool" where
  "runtime_decision_eq a b \<longleftrightarrow>
     rel_option runtime_request_eq (rd_request a) (rd_request b) \<and> a\<lparr>rd_request := rd_request b\<rparr> = b"

section \<open>The bridge\<close>

record runtime_bridge =
  bg_registry :: runtime_registry

definition mk_runtime_bridge :: "runtime_registry \<Rightarrow> runtime_bridge res" where
  "mk_runtime_bridge registry =
     tryE (rebuild_runtime_registry registry) (\<lambda>_. Inr \<lparr>bg_registry = registry\<rparr>)"

fun reason_map :: "binding_reason \<Rightarrow> (runtime_eligibility \<times> runtime_reason) option" where
  "reason_map ReasonSafetyBlocked = Some (RuntimeBlocked, UpstreamBlocked)"
| "reason_map ReasonSafetyDeferred = Some (RuntimeDeferred, UpstreamDeferred)"
| "reason_map ReasonSafetyStale = Some (RuntimeStale, UpstreamStale)"
| "reason_map ReasonRegistryStale = Some (RuntimeStale, UpstreamStale)"
| "reason_map ReasonSkillUnavailable = Some (RuntimeUnavailable, UpstreamSkillUnavailable)"
| "reason_map _ = None"

fun eligibility_rank :: "runtime_eligibility \<Rightarrow> int" where
  "eligibility_rank RuntimeRejected = 0"
| "eligibility_rank RuntimeUnavailable = 1"
| "eligibility_rank RuntimeStale = 2"
| "eligibility_rank RuntimeApprovalRequired = 3"
| "eligibility_rank RuntimeDeferred = 4"
| "eligibility_rank RuntimeBlocked = 5"
| "eligibility_rank RuntimeEligible = - 1"

text \<open>\<open>max(items, key=rank.get)\<close>: the first of the greatest.\<close>

fun highest_rank :: "runtime_eligibility list \<Rightarrow> runtime_eligibility \<Rightarrow> runtime_eligibility" where
  "highest_rank [] m = m"
| "highest_rank (s # ss) m = highest_rank ss (if eligibility_rank m < eligibility_rank s then s else m)"

definition ineligible_outcome :: "binding_reason list \<Rightarrow> runtime_eligibility \<times> runtime_reason set" where
  "ineligible_outcome reasons =
     (case List.map_filter reason_map reasons of
        [] \<Rightarrow> (RuntimeRejected, {UpstreamIneligible})
      | m # ms \<Rightarrow> (highest_rank (map fst ms) (fst m), snd ` set (m # ms)))"

definition evaluate_eligible :: "runtime_registry \<Rightarrow> binding_result \<Rightarrow> runtime_decision res" where
  "evaluate_eligible registry b =
     (case br_invocation b of
        None \<Rightarrow> Inl (BuiltinExn AssertionError)
      | Some i \<Rightarrow>
          let decide = (\<lambda>status reasons request.
            mk_runtime_decision status reasons b (rtg_fingerprint registry) request) in
          tryE (resolve_binding registry (kl_skill_id (ki_selection i)) (kl_skill_version (ki_selection i))
             (kl_capability_id (ki_selection i)) (ki_backend_id i)) (\<lambda>found.
          case found of
            None \<Rightarrow> decide RuntimeRejected [EndpointNotRegistered] None
          | Some e \<Rightarrow>
              if rb_skill_fingerprint e \<noteq> kl_skill_fingerprint (ki_selection i)
              then decide RuntimeStale [UpstreamStale, SkillFingerprintMismatch] None
              else if re_availability (rb_endpoint e) \<noteq> EndpointAvailable
              then decide RuntimeUnavailable [EndpointIsUnavailable] None
              else tryE (bind_runtime_request i registry) (\<lambda>q. decide RuntimeEligible [] (Some q))))"

definition evaluate_binding :: "runtime_bridge \<Rightarrow> binding_result \<Rightarrow> runtime_decision res" where
  "evaluate_binding bridge binding_result =
     tryE (rebuild_binding_result binding_result) (\<lambda>b.
     tryE (rebuild_runtime_registry (bg_registry bridge)) (\<lambda>registry.
     if br_status b = BindIneligible then
       (let (status, reasons) = ineligible_outcome (br_reasons b) in
        mk_runtime_decision status (enum_ordered runtime_reasons reasons) b (rtg_fingerprint registry) None)
     else if br_status b = BindApprovalRequired then
       mk_runtime_decision RuntimeApprovalRequired [UpstreamApprovalRequired] b (rtg_fingerprint registry) None
     else evaluate_eligible registry b))"

definition decision_endpoint :: "runtime_decision \<Rightarrow> runtime_fingerprint option" where
  "decision_endpoint d = map_option (\<lambda>q. re_fingerprint (rb_endpoint (rtq_binding q))) (rd_request d)"

definition revalidate_decision ::
  "runtime_bridge \<Rightarrow> runtime_decision \<Rightarrow> binding_result \<Rightarrow> runtime_decision res" where
  "revalidate_decision bridge prior binding_result =
     tryE (evaluate_binding bridge binding_result) (\<lambda>current.
     if runtime_decision_eq current prior then Inr prior
     else
       (let reasons = {UpstreamStale} \<union>
          (if rd_registry_fingerprint current \<noteq> rd_registry_fingerprint prior
           then {RuntimeRegistryChanged} else {}) \<union>
          (if rd_selection_fingerprint current \<noteq> rd_selection_fingerprint prior \<or>
              rd_safety_decision_id current \<noteq> rd_safety_decision_id prior \<or>
              rd_invocation_fingerprint current \<noteq> rd_invocation_fingerprint prior
           then {UpstreamBindingChanged} else {}) \<union>
          (if decision_endpoint prior \<noteq> decision_endpoint current then {EndpointChanged} else {}) in
        tryE (rebuild_binding_result binding_result) (\<lambda>b.
        mk_runtime_decision RuntimeStale (enum_ordered runtime_reasons reasons) b
          (rd_registry_fingerprint current) None)))"

definition assert_current_decision ::
  "runtime_bridge \<Rightarrow> runtime_decision \<Rightarrow> binding_result \<Rightarrow> runtime_decision res" where
  "assert_current_decision bridge prior binding_result =
     tryE (revalidate_decision bridge prior binding_result) (\<lambda>result.
     raise_if (rd_status result = RuntimeStale) (RuntimeExn StaleRuntimeDecisionError) (Inr result))"


text \<open>What the bridge decides for constructed bindings and registries, and what its decisions guarantee.\<close>

section \<open>Binding results\<close>

definition binding_result_made :: "binding_result \<Rightarrow> bool" where
  "binding_result_made b \<longleftrightarrow>
     selection_made (br_selection b) \<and> (\<forall>i. br_invocation b = Some i \<longrightarrow> invocation_made i) \<and>
     check_binding_result b = Inr b"

lemma check_binding_result_same: "check_binding_result b = Inr c \<Longrightarrow> c = b"
  by (auto simp: check_binding_result_def res_simps split: if_splits option.splits)

lemma selection_made_rebuild: "selection_made l \<Longrightarrow> rebuild_skill_selection l = Inr l"
  by (simp add: rebuild_skill_selection_def selection_made_def)

lemma rebuild_selection_Inr: "rebuild_skill_selection l = Inr m \<Longrightarrow> m = l \<and> selection_made l"
  by (auto simp: rebuild_skill_selection_def selection_made_def res_simps)

lemma binding_result_eq_refl: "binding_result_made b \<Longrightarrow> binding_result_eq b b"
  by (auto simp: binding_result_eq_def binding_result_made_def intro!: option.rel_refl_strong invocation_eq_refl)

lemma rebuild_binding_made: "binding_result_made b \<Longrightarrow> rebuild_binding_result b = Inr b"
proof -
  assume b: "binding_result_made b"
  have "(case br_invocation b of None \<Rightarrow> Inr None | Some i \<Rightarrow> tryE (rebuild_invocation i) (\<lambda>j. Inr (Some j))) =
      Inr (br_invocation b)"
    using b by (auto simp: binding_result_made_def rebuild_invocation_made split: option.splits)
  moreover have "\<lparr>br_status = br_status b, br_reasons = br_reasons b, br_selection = br_selection b,
         br_safety_decision_id = br_safety_decision_id b, br_invocation = br_invocation b\<rparr> = b" by simp
  ultimately show ?thesis
    using b binding_result_eq_refl [OF b] unfolding rebuild_binding_result_def binding_result_made_def
    by (simp only: selection_made_rebuild tryE_simps errors_as_simps raise_if_simps simp_thms)
qed

lemma rebuild_binding_Inr:
  assumes "rebuild_binding_result b = Inr c"
  shows "binding_result_made c \<and> binding_result_eq c b"
proof -
  from assms obtain invocation where l: "selection_made (br_selection b)"
    and i: "(case br_invocation b of None \<Rightarrow> Inr None | Some i \<Rightarrow> tryE (rebuild_invocation i) (\<lambda>j. Inr (Some j))) =
      Inr invocation"
    and c: "c = \<lparr>br_status = br_status b, br_reasons = br_reasons b, br_selection = br_selection b,
         br_safety_decision_id = br_safety_decision_id b, br_invocation = invocation\<rparr>"
      "check_binding_result c = Inr c" "binding_result_eq c b"
    by (auto simp: rebuild_binding_result_def res_simps dest!: rebuild_selection_Inr
        dest: check_binding_result_same)
  from i have "\<forall>j. invocation = Some j \<longrightarrow> invocation_made j"
    by (auto simp: res_simps dest: rebuild_invocation_Inr split: option.splits)
  with l c show ?thesis by (simp add: binding_result_made_def)
qed

section \<open>Decisions\<close>

lemma runtime_reasons_all [simp]: "set runtime_reasons = UNIV" "distinct runtime_reasons"
proof -
  have "r \<in> set runtime_reasons" for r by (cases r) (simp_all add: runtime_reasons_def)
  then show "set runtime_reasons = UNIV" by blast
qed (simp add: runtime_reasons_def)

lemma runtime_ordered_set [simp]: "set (enum_ordered runtime_reasons R) = R"
  by (simp add: enum_ordered_def)

lemma rebuild_request_made: "request_made q \<Longrightarrow> rebuild_runtime_request q = Inr q"
  by (simp add: rebuild_runtime_request_def request_made_def)

lemma request_unchanged: "request_made q \<Longrightarrow> request_changed q q = Inr False"
proof -
  assume q: "request_made q"
  have "bounded_ok skill_json_limits (rtq_fields q)"
    using request_made_facts(9) [OF q] by (auto simp: request_fields_def res_simps split: if_splits)
  then show ?thesis
    using runtime_request_eq_refl [OF q] request_made_facts(9) [OF q]
    by (auto simp: request_changed_def bounded_ok_def intro: contents_equal)
qed

text \<open>A decision built from a constructed binding: each field, and the one way to fail that is left.\<close>

lemma mk_decision_made:
  assumes "binding_result_made b" "reasons = enum_ordered runtime_reasons R" "rf_kind fp = RfRegistry"
    and "decision_request status reasons request = Inr request" "check_decision_reasons status reasons b = Inr ()"
  shows "mk_runtime_decision status reasons b fp request =
    (let document = runtime_decision_document status reasons b fp request in
     if bounded_ok skill_json_limits document
     then Inr \<lparr>rd_decision_id = ''runtime-decision-'' @ sha256_hex (canon document), rd_status = status,
       rd_reasons = reasons, rd_binding_status = br_status b,
       rd_selection_fingerprint = kl_fingerprint (br_selection b),
       rd_safety_decision_id = br_safety_decision_id b,
       rd_invocation_fingerprint = map_option ki_fingerprint (br_invocation b),
       rd_registry_fingerprint = fp, rd_request = request, rd_fingerprint = runtime_sha RfDecision (canon document)\<rparr>
     else Inl invalid_runtime_contract)"
  using assms
  by (simp add: mk_runtime_decision_def rebuild_binding_made runtime_fingerprint_document_eq Let_def)

lemma mk_runtime_decision_Inr:
  assumes "mk_runtime_decision status reasons b fp request = Inr d"
  shows "rd_status d = status" "rd_reasons d = reasons" "rd_registry_fingerprint d = fp"
    "rf_kind (rd_fingerprint d) = RfDecision" "rd_decision_id d = ''runtime-decision-'' @ rf_digest (rd_fingerprint d)"
    "rd_request d = Some q \<Longrightarrow> status = RuntimeEligible \<and> request_made q"
    "status = RuntimeEligible \<Longrightarrow> rd_request d \<noteq> None"
    "\<exists>c. rebuild_binding_result b = Inr c \<and> rd_binding_status d = br_status c \<and>
       rd_selection_fingerprint d = kl_fingerprint (br_selection c) \<and>
       rd_safety_decision_id d = br_safety_decision_id c \<and>
       rd_invocation_fingerprint d = map_option ki_fingerprint (br_invocation c)"
proof -
  from assms obtain r where d: "rd_status d = status" "rd_reasons d = reasons" "rd_registry_fingerprint d = fp"
      "rf_kind (rd_fingerprint d) = RfDecision"
      "rd_decision_id d = ''runtime-decision-'' @ rf_digest (rd_fingerprint d)" "rd_request d = r"
      "decision_request status reasons request = Inr r"
      "\<exists>c. rebuild_binding_result b = Inr c \<and> rd_binding_status d = br_status c \<and>
       rd_selection_fingerprint d = kl_fingerprint (br_selection c) \<and>
       rd_safety_decision_id d = br_safety_decision_id c \<and>
       rd_invocation_fingerprint d = map_option ki_fingerprint (br_invocation c)"
    by (auto simp: mk_runtime_decision_def res_simps runtime_fingerprint_document_eq split: if_splits)
  then show "rd_status d = status" "rd_reasons d = reasons" "rd_registry_fingerprint d = fp"
    "rf_kind (rd_fingerprint d) = RfDecision" "rd_decision_id d = ''runtime-decision-'' @ rf_digest (rd_fingerprint d)"
    "\<exists>c. rebuild_binding_result b = Inr c \<and> rd_binding_status d = br_status c \<and>
       rd_selection_fingerprint d = kl_fingerprint (br_selection c) \<and>
       rd_safety_decision_id d = br_safety_decision_id c \<and>
       rd_invocation_fingerprint d = map_option ki_fingerprint (br_invocation c)"
    by blast+
  show "status = RuntimeEligible \<Longrightarrow> rd_request d \<noteq> None"
    using d(6,7) by (auto simp: decision_request_def res_simps split: option.splits dest: sym)
  show "rd_request d = Some q \<Longrightarrow> status = RuntimeEligible \<and> request_made q"
    using d(6,7)
    by (auto simp: decision_request_def rebuild_runtime_request_def res_simps
        dest: mk_runtime_request_Inr(1) split: option.splits if_splits)
qed

lemma decision_request_made:
  "request_made q \<Longrightarrow> decision_request RuntimeEligible [] (Some q) = Inr (Some q)"
  by (simp add: decision_request_def rebuild_request_made request_unchanged)

lemma runtime_decision_eq_refl:
  "(\<And>q. rd_request d = Some q \<Longrightarrow> request_made q) \<Longrightarrow> runtime_decision_eq d d"
  by (auto simp: runtime_decision_eq_def intro!: option.rel_refl_strong runtime_request_eq_refl)

section \<open>Evaluation\<close>

definition invocation_key :: "skill_invocation \<Rightarrow> runtime_binding_key" where
  "invocation_key i = (kl_skill_id (ki_selection i), kl_skill_version (ki_selection i),
     kl_capability_id (ki_selection i), ki_backend_id i)"

lemma resolve_invocation:
  assumes "invocation_made i"
  shows "resolve_binding registry (kl_skill_id (ki_selection i)) (kl_skill_version (ki_selection i))
      (kl_capability_id (ki_selection i)) (ki_backend_id i) =
    Inr (index_get runtime_binding_key (rtg_bindings registry) (invocation_key i))"
proof -
  note f = invocation_made_facts [OF assms]
  have k: "skill_made (ki_skill_definition i)" using assms by (simp add: invocation_made_def)
  then have "skill_ok (ki_skill_definition i)" "semver_ok (kd_version (ki_skill_definition i))"
    by (auto simp: skill_made_def dest: mk_skill_definition_ok)
  then show ?thesis
    using f(8-12) by (auto simp: resolve_binding_eq invocation_key_def skill_ok_def list_all_iff)
qed

lemma bind_request_made:
  assumes "invocation_made i" "runtime_registry_made registry"
    "index_get runtime_binding_key (rtg_bindings registry) (invocation_key i) = Some e"
    "rb_skill_fingerprint e = kl_skill_fingerprint (ki_selection i)"
  shows "bind_runtime_request i registry = mk_runtime_request i e (rtg_version registry) (rtg_fingerprint registry)"
  using assms
  by (simp add: bind_runtime_request_def rebuild_invocation_made rebuild_registry_made resolve_invocation)

text \<open>The request for a constructed, eligible invocation that its registered binding agrees with.\<close>

lemma registered_binding:
  assumes "runtime_registry_made registry" "index_get runtime_binding_key (rtg_bindings registry) k = Some e"
  shows "e \<in> set (rtg_bindings registry)" "binding_made e" "runtime_binding_key e = k"
  using assms index_get_in [OF assms(2)] by (auto simp: runtime_registry_made_def list_all_iff)

lemma registry_made_kind: "runtime_registry_made r \<Longrightarrow> rf_kind (rtg_fingerprint r) = RfRegistry \<and> semver_ok (rtg_version r)"
  using mk_runtime_registry_Inr(4,6) by (auto simp: runtime_registry_made_def)

lemma evaluate_made:
  assumes "rebuild_binding_result binding_result = Inr b" "rebuild_runtime_registry (bg_registry bridge) = Inr registry"
  shows "evaluate_binding bridge binding_result = evaluate_binding \<lparr>bg_registry = registry\<rparr> b"
  using assms rebuild_binding_Inr [OF assms(1)] rebuild_registry_Inr [OF assms(2)]
  by (simp add: evaluate_binding_def rebuild_binding_made rebuild_registry_made)

lemma outcome_ineligible: "fst (ineligible_outcome rs) \<noteq> RuntimeEligible"
proof -
  have top: "highest_rank ss m \<in> insert m (set ss)" for ss m
    by (induction ss m rule: highest_rank.induct) auto
  have "reason_map x = Some m \<Longrightarrow> fst m \<noteq> RuntimeEligible" for x m by (cases x) auto
  then have mapped: "\<forall>m \<in> set (List.map_filter reason_map rs). fst m \<noteq> RuntimeEligible"
    by (auto simp: map_filter_def)
  show ?thesis
  proof (cases "List.map_filter reason_map rs")
    case (Cons m ms)
    with mapped have "RuntimeEligible \<notin> insert (fst m) (set (map fst ms))" by auto
    with top [of "map fst ms" "fst m"] have "highest_rank (map fst ms) (fst m) \<noteq> RuntimeEligible" by metis
    with Cons show ?thesis by (simp add: ineligible_outcome_def)
  qed (simp add: ineligible_outcome_def)
qed

lemma evaluate_eligible_made:
  assumes "invocation_made i" "runtime_registry_made registry" "br_invocation b = Some i"
  shows "evaluate_eligible registry b =
    (case index_get runtime_binding_key (rtg_bindings registry) (invocation_key i) of
       None \<Rightarrow> mk_runtime_decision RuntimeRejected [EndpointNotRegistered] b (rtg_fingerprint registry) None
     | Some e \<Rightarrow>
         if rb_skill_fingerprint e \<noteq> kl_skill_fingerprint (ki_selection i)
         then mk_runtime_decision RuntimeStale [UpstreamStale, SkillFingerprintMismatch] b (rtg_fingerprint registry) None
         else if re_availability (rb_endpoint e) \<noteq> EndpointAvailable
         then mk_runtime_decision RuntimeUnavailable [EndpointIsUnavailable] b (rtg_fingerprint registry) None
         else tryE (mk_runtime_request i e (rtg_version registry) (rtg_fingerprint registry)) (\<lambda>q.
           mk_runtime_decision RuntimeEligible [] b (rtg_fingerprint registry) (Some q)))"
  using assms
  by (cases "index_get runtime_binding_key (rtg_bindings registry) (invocation_key i)")
    (simp_all add: evaluate_eligible_def resolve_invocation Let_def bind_request_made)

text \<open>A decision that carries a request, or is eligible, was taken at the end of the evaluation.\<close>

lemma evaluate_request:
  assumes "evaluate_binding bridge binding_result = Inr d"
  obtains b registry where "rebuild_binding_result binding_result = Inr b"
    "rebuild_runtime_registry (bg_registry bridge) = Inr registry"
    "rd_registry_fingerprint d = rtg_fingerprint registry"
    "rd_status d = RuntimeEligible \<longleftrightarrow> rd_request d \<noteq> None"
    "\<And>q. rd_request d = Some q \<Longrightarrow> request_made q \<and> br_status b = BindEligible \<and>
       br_invocation b = Some (rtq_invocation q) \<and> rtq_binding q \<in> set (rtg_bindings registry) \<and>
       re_availability (rb_endpoint (rtq_binding q)) = EndpointAvailable \<and>
       rtq_registry_version q = rtg_version registry \<and> rtq_registry_fingerprint q = rtg_fingerprint registry"
proof -
  from assms obtain b registry where b: "rebuild_binding_result binding_result = Inr b"
    and r: "rebuild_runtime_registry (bg_registry bridge) = Inr registry"
    by (auto simp: evaluate_binding_def res_simps)
  have bm: "binding_result_made b" and rm: "runtime_registry_made registry"
    using rebuild_binding_Inr [OF b] rebuild_registry_Inr [OF r] by auto
  have none: "rd_registry_fingerprint d = rtg_fingerprint registry \<and> rd_status d \<noteq> RuntimeEligible \<and> rd_request d = None"
    if "mk_runtime_decision s rs b (rtg_fingerprint registry) None = Inr d" "s \<noteq> RuntimeEligible" for s rs
    using that(2) mk_runtime_decision_Inr(1,3) [OF that(1)] mk_runtime_decision_Inr(6) [OF that(1)]
    by (cases "rd_request d") auto
  note no = that [OF b r]
  show thesis
  proof (cases "br_status b = BindEligible")
    case False
    then obtain s rs where "mk_runtime_decision s rs b (rtg_fingerprint registry) None = Inr d" "s \<noteq> RuntimeEligible"
      using assms outcome_ineligible [of "br_reasons b"]
      by (cases "br_status b") (auto simp: evaluate_binding_def b r case_prod_beta)
    from no none [OF this] show thesis by simp
  next
    case True
    then obtain i where i: "br_invocation b = Some i" "invocation_made i"
      using bm by (auto simp: binding_result_made_def check_binding_result_def res_simps split: option.splits)
    have d: "evaluate_eligible registry b = Inr d"
      using assms True by (simp add: evaluate_binding_def b r)
    show thesis
    proof (cases "\<exists>x. index_get runtime_binding_key (rtg_bindings registry) (invocation_key i) = Some x \<and>
        rb_skill_fingerprint x = kl_skill_fingerprint (ki_selection i) \<and>
        re_availability (rb_endpoint x) = EndpointAvailable")
      case False
      then obtain s rs where "mk_runtime_decision s rs b (rtg_fingerprint registry) None = Inr d" "s \<noteq> RuntimeEligible"
        using d unfolding evaluate_eligible_made [OF i(2) rm i(1)] by (auto split: option.splits if_splits)
      from no none [OF this] show thesis by simp
    next
      case True
      then obtain x where x: "index_get runtime_binding_key (rtg_bindings registry) (invocation_key i) = Some x"
        "rb_skill_fingerprint x = kl_skill_fingerprint (ki_selection i)"
        "re_availability (rb_endpoint x) = EndpointAvailable" by blast
      then obtain q where mk: "mk_runtime_request i x (rtg_version registry) (rtg_fingerprint registry) = Inr q"
        and q: "mk_runtime_decision RuntimeEligible [] b (rtg_fingerprint registry) (Some q) = Inr d"
        using d unfolding evaluate_eligible_made [OF i(2) rm i(1)] by (auto simp: tryE_Inr)
      note xm = registered_binding [OF rm x(1)]
      have parts: "rtq_invocation q = i" "rtq_binding q = x"
        using mk unfolding mk_request_made_eq [OF i(2) xm(2)] by (auto simp: res_simps Let_def split: if_splits)
      have qm: "request_made q" by (rule mk_runtime_request_Inr(1) [OF mk])
      have "rd_request d = Some q"
        using q by (auto simp: mk_runtime_decision_def res_simps decision_request_made [OF qm])
      then show thesis
        using that [OF b r] mk_runtime_decision_Inr(1,3) [OF q] \<open>br_status b = BindEligible\<close> i x xm parts qm
          mk_runtime_request_Inr(6,7) [OF mk] by simp
    qed
  qed
qed

end
