(* ===== verification/Runtime_Handoff.thy ===== *)
theory Runtime_Handoff
  imports Runtime_Decision
begin

text \<open>
  The handing over from the Skill Manager to the Runtime Bridge: what the Skill Manager binds is rebuilt
  unchanged, and the decision the bridge takes on it, case by case.
\<close>

section \<open>What the Skill Manager binds\<close>

definition skill_registry_made :: "skill_registry \<Rightarrow> bool" where
  "skill_registry_made r \<longleftrightarrow> semver_ok (kr_version r) \<and> list_all skill_made (kr_skills r)"

definition returns_only :: "('a \<Rightarrow> bool) \<Rightarrow> 'a res \<Rightarrow> bool" where
  "returns_only P r \<longleftrightarrow> (\<forall>v. r = Inr v \<longrightarrow> P v)"

lemma returns_onlyI:
  "returns_only P (Inl e)"
  "(\<And>v. r = Inr v \<Longrightarrow> returns_only P (k v)) \<Longrightarrow> returns_only P (tryE r k)"
  "returns_only P m \<Longrightarrow> returns_only P (raise_if c e m)"
  "returns_only P m \<Longrightarrow> returns_only P n \<Longrightarrow> returns_only P (if c then m else n)"
  "returns_only P m \<Longrightarrow> (\<And>x. returns_only P (f x)) \<Longrightarrow> returns_only P (case z of None \<Rightarrow> m | Some x \<Rightarrow> f x)"
  "(\<And>x y. returns_only P (g x y)) \<Longrightarrow> returns_only P (case w of (x, y) \<Rightarrow> g x y)"
  by (auto simp: returns_only_def res_simps split: option.splits prod.splits if_splits)

lemma check_returns: "br_selection c = selection \<Longrightarrow>
  returns_only (\<lambda>b. check_binding_result b = Inr b \<and> br_selection b = selection) (check_binding_result c)"
  unfolding returns_only_def by (metis check_binding_result_same)

lemma bind_skill_selection:
  assumes "bind_skill manager proposal decision selection = Inr b"
  shows "check_binding_result b = Inr b \<and> br_selection b = selection"
proof -
  let ?R = "returns_only (\<lambda>b. check_binding_result b = Inr b \<and> br_selection b = selection)"
  have out: "?R (ineligible selection decision reasons)" for reasons
    unfolding ineligible_def by (rule check_returns) simp
  have bound: "?R (bind_invocation proposal decision selection skill parameters)" for skill parameters
    unfolding bind_invocation_def Let_def by (intro returns_onlyI out check_returns) simp
  have "?R (bind_skill manager proposal decision selection)"
    unfolding bind_skill_def Let_def by (intro returns_onlyI out bound)
  with assms show ?thesis by (simp add: returns_only_def)
qed

lemma bind_skill_made:
  assumes "bind_skill manager proposal decision selection = Inr b"
    and "skill_registry_made (km_registry manager)" "selection_made selection"
  shows "binding_result_made b"
proof -
  note s = bind_skill_selection [OF assms(1)]
  have "invocation_made i" if i: "br_invocation b = Some i" for i
  proof -
    obtain skill plan parameters where k:
      "index_get kd_skill_id (kr_skills (km_registry manager)) (kl_skill_id selection) = Some skill"
      "select_skill (km_registry manager) (kd_skill_id skill) (kl_capability_id selection)
         (kl_source_step_id selection) = Inr selection"
      "bind_invocation proposal decision selection skill parameters = Inr b"
      by (rule bind_skill_Inr [OF assms(1) i])
    have "skill_made skill"
      using assms(2) index_get_in [OF k(1)] by (auto simp: skill_registry_made_def list_all_iff)
    moreover have "semver_ok (kl_registry_version selection)"
      using assms(2) select_skill_Inr [OF k(2)] by (auto simp: skill_registry_made_def)
    ultimately show ?thesis
      using mk_invocation_again(1,5,6) [OF conjunct1 [OF bind_invocation_Inr [OF k(3) i]]] assms(3)
      by (simp add: invocation_made_def)
  qed
  with s assms(3) show ?thesis by (simp add: binding_result_made_def)
qed

section \<open>Decision documents stay within the limits\<close>

lemma str_list_counts:
  "node_count (str_list ss) = Suc (length ss)" "char_count (str_list ss) = sum_list (map length ss)"
  "depth_within d (str_list ss) \<longleftrightarrow> ss = [] \<or> 0 < d"
  "contents_ok n b (str_list ss) \<longleftrightarrow> length ss \<le> n"
  by (induction ss) (auto simp: str_list_def)

lemma optional_text:
  "node_count (case z of None \<Rightarrow> PNone | Some x \<Rightarrow> PStr (f x)) = 1"
  "depth_within d (case z of None \<Rightarrow> PNone | Some x \<Rightarrow> PStr (f x))"
  "contents_ok n b (case z of None \<Rightarrow> PNone | Some x \<Rightarrow> PStr (f x))"
  by (cases z; simp)+

lemma made_digests:
  "selection_made l \<Longrightarrow> length (kf_digest (kl_fingerprint l)) = 64"
  "invocation_made i \<Longrightarrow> length (kf_digest (ki_fingerprint i)) = 64"
  "runtime_registry_made r \<Longrightarrow> length (rf_digest (rtg_fingerprint r)) = 64"
  "request_made q \<Longrightarrow> length (rf_digest (rtq_fingerprint q)) = 64"
proof -
  have digest: "length (sha256_hex s) = 64" for s
    using sha256_hex_ok [of s] by (simp add: hex_digest_ok_def)
  have caught: "parameters_error_as e r = Inr v \<longleftrightarrow> r = Inr v" for e and r :: "'a res" and v
    by (cases r) (auto simp: parameters_error_as_def)
  have "mk_skill_selection c1 c2 c3 c4 c5 c6 c7 = Inr x \<Longrightarrow> length (kf_digest (kl_fingerprint x)) = 64"
    for c1 c2 c3 c4 c5 c6 c7 x
    by (auto simp: mk_skill_selection_def res_simps skill_fingerprint_document_eq digest split: if_splits)
  then show "selection_made l \<Longrightarrow> length (kf_digest (kl_fingerprint l)) = 64" unfolding selection_made_def by blast
  have "mk_skill_invocation c1 c2 c3 c4 c5 c6 c7 = Inr x \<Longrightarrow> length (kf_digest (ki_fingerprint x)) = 64"
    for c1 c2 c3 c4 c5 c6 c7 x
    by (auto simp: mk_skill_invocation_def Let_def res_simps caught skill_fingerprint_document_eq digest split: if_splits)
  then show "invocation_made i \<Longrightarrow> length (kf_digest (ki_fingerprint i)) = 64" unfolding invocation_made_def by blast
  have "mk_runtime_registry c1 c2 = Inr x \<Longrightarrow> length (rf_digest (rtg_fingerprint x)) = 64" for c1 c2 x
    by (auto simp: mk_runtime_registry_def Let_def res_simps runtime_fingerprint_document_eq digest split: if_splits)
  then show "runtime_registry_made r \<Longrightarrow> length (rf_digest (rtg_fingerprint r)) = 64"
    unfolding runtime_registry_made_def by blast
  have "mk_runtime_request c1 c2 c3 c4 = Inr x \<Longrightarrow> length (rf_digest (rtq_fingerprint x)) = 64" for c1 c2 c3 c4 x
    by (auto simp: mk_runtime_request_def res_simps runtime_fingerprint_document_eq digest split: if_splits)
  then show "request_made q \<Longrightarrow> length (rf_digest (rtq_fingerprint q)) = 64" unfolding request_made_def by blast
qed

lemma decision_document_bounded:
  assumes "binding_result_made b" "length (br_safety_decision_id b) \<le> 16384"
    and "length (rf_digest fp) = 64" "\<And>q. request = Some q \<Longrightarrow> request_made q"
    and "reasons = enum_ordered runtime_reasons R"
  shows "bounded_ok skill_json_limits (runtime_decision_document status reasons b fp request)"
proof -
  have "length reasons \<le> length runtime_reasons"
    by (simp add: assms(5) enum_ordered_def)
  then have few: "length reasons \<le> 12" by (simp add: runtime_reasons_def)
  have "length (runtime_reason_value r) \<le> 26" for r by (cases r) simp_all
  then have "sum_list (map length (map runtime_reason_value rs)) \<le> 26 * length rs" for rs
    by (induction rs) (auto simp: add_mono)
  from this [of reasons] few have chars: "sum_list (map length (map runtime_reason_value reasons)) \<le> 312" by linarith
  have v1: "length (runtime_fingerprint_kind_value k) \<le> 28" for k by (cases k) simp_all
  have v2: "length (skill_fingerprint_kind_value k) \<le> 28" for k by (cases k) simp_all
  have v3: "length (binding_status_value k) \<le> 28" for k by (cases k) simp_all
  have v4: "length (runtime_eligibility_value k) \<le> 17" for k by (cases k) simp_all
  have l: "length (kf_digest (kl_fingerprint (br_selection b))) = 64"
    using assms(1) made_digests(1) by (simp add: binding_result_made_def)
  have iv: "char_count (case br_invocation b of None \<Rightarrow> PNone
      | Some i \<Rightarrow> PStr (skill_fingerprint_str (ki_fingerprint i))) \<le> 100"
    using assms(1) made_digests(2) v2 by (auto simp: skill_fingerprint_str_def binding_result_made_def split: option.splits)
  have rq: "char_count (case request of None \<Rightarrow> PNone
      | Some q \<Rightarrow> PStr (runtime_fingerprint_str (rtq_fingerprint q))) \<le> 100"
    using assms(4) made_digests(4) v1 by (auto simp: runtime_fingerprint_str_def split: option.splits)
  note small = few chars v1 [of "rf_kind fp"] v2 [of "kf_kind (kl_fingerprint (br_selection b))"]
    v3 [of "br_status b"] v4 [of status]
  show ?thesis
    using small assms(2,3) l rq iv
    by (simp add: runtime_decision_document_def bounded_ok_def skill_json_limits_def obj_def str_list_counts
        optional_text runtime_fingerprint_str_def [of fp] skill_fingerprint_str_def [of "kl_fingerprint (br_selection b)"])
qed

section \<open>The decision, case by case\<close>

text \<open>What the gravest reason of an ineligible binding makes of it.\<close>

definition ineligible_status :: "binding_reason set \<Rightarrow> runtime_eligibility" where
  "ineligible_status R =
     (if ReasonSafetyBlocked \<in> R then RuntimeBlocked
      else if ReasonSafetyDeferred \<in> R then RuntimeDeferred
      else if ReasonSafetyStale \<in> R \<or> ReasonRegistryStale \<in> R then RuntimeStale
      else if ReasonSkillUnavailable \<in> R then RuntimeUnavailable else RuntimeRejected)"

lemma highest_rank_max:
  "highest_rank ss m \<in> insert m (set ss) \<and> (\<forall>s \<in> insert m (set ss). eligibility_rank s \<le> eligibility_rank (highest_rank ss m))"
  by (induction ss m rule: highest_rank.induct) (auto split: if_splits)

lemma mapped_reasons:
  "x \<in> set (List.map_filter reason_map rs) \<longleftrightarrow> (\<exists>r \<in> set rs. reason_map r = Some x)"
  by (force simp: map_filter_def)

lemma reason_map_iff:
  "reason_map r = Some (s, u) \<longleftrightarrow>
     r = ReasonSafetyBlocked \<and> s = RuntimeBlocked \<and> u = UpstreamBlocked \<or>
     r = ReasonSafetyDeferred \<and> s = RuntimeDeferred \<and> u = UpstreamDeferred \<or>
     r \<in> {ReasonSafetyStale, ReasonRegistryStale} \<and> s = RuntimeStale \<and> u = UpstreamStale \<or>
     r = ReasonSkillUnavailable \<and> s = RuntimeUnavailable \<and> u = UpstreamSkillUnavailable"
  by (cases r) auto

lemma ineligible_outcome_eq:
  "fst (ineligible_outcome rs) = ineligible_status (set rs) \<and>
   (\<forall>u. required_reason (ineligible_status (set rs)) = Some u \<longrightarrow>
     u \<in> snd (ineligible_outcome rs) \<or> u = EndpointIsUnavailable \<and> UpstreamSkillUnavailable \<in> snd (ineligible_outcome rs)) \<and>
   snd (ineligible_outcome rs) \<noteq> {}"
proof (cases "List.map_filter reason_map rs")
  case Nil
  then have none: "reason_map r = None" if "r \<in> set rs" for r
    using mapped_reasons [of _ rs] that by (cases "reason_map r") auto
  have "ineligible_status (set rs) = RuntimeRejected"
    using none [of ReasonSafetyBlocked] none [of ReasonSafetyDeferred] none [of ReasonSafetyStale]
      none [of ReasonRegistryStale] none [of ReasonSkillUnavailable]
    by (auto simp: ineligible_status_def)
  with Nil show ?thesis by (simp add: ineligible_outcome_def)
next
  case (Cons m ms)
  define M where "M = set (List.map_filter reason_map rs)"
  define h where "h = fst (ineligible_outcome rs)"
  have snd: "snd (ineligible_outcome rs) = snd ` M"
    by (simp add: ineligible_outcome_def Cons M_def)
  have h: "h \<in> fst ` M" "\<forall>s \<in> fst ` M. eligibility_rank s \<le> eligibility_rank h"
    using highest_rank_max [of "map fst ms" "fst m"] by (auto simp: h_def M_def ineligible_outcome_def Cons)
  have M: "(s, u) \<in> M \<longleftrightarrow> (\<exists>r \<in> set rs. reason_map r = Some (s, u))" for s u
    by (simp add: M_def mapped_reasons)
  obtain u where u: "(h, u) \<in> M" using h(1) by auto
  have top: "eligibility_rank s \<le> eligibility_rank h" if "(s, v) \<in> M" for s v
    using h(2) that by force
  have "h = ineligible_status (set rs)"
    using u top [of RuntimeBlocked UpstreamBlocked] top [of RuntimeDeferred UpstreamDeferred]
      top [of RuntimeStale UpstreamStale] top [of RuntimeUnavailable UpstreamSkillUnavailable]
    by (auto simp: ineligible_status_def M reason_map_iff) blast+
  moreover have "required_reason h = Some v \<Longrightarrow> v = u \<or> v = EndpointIsUnavailable \<and> UpstreamSkillUnavailable = u" for v
    using u by (auto simp: M reason_map_iff)
  moreover have "u \<in> snd ` M" using u by force
  ultimately show ?thesis using h_def snd by auto
qed

text \<open>The binding that the allowlist has for an invocation.\<close>

definition registered_for :: "runtime_registry \<Rightarrow> skill_invocation \<Rightarrow> runtime_binding option" where
  "registered_for registry i = index_get runtime_binding_key (rtg_bindings registry) (invocation_key i)"

definition expected_status :: "runtime_registry \<Rightarrow> binding_result \<Rightarrow> runtime_eligibility" where
  "expected_status registry b =
     (case br_invocation b of
        None \<Rightarrow> ineligible_status (set (br_reasons b))
      | Some i \<Rightarrow>
          if ki_status i = InvocationApprovalRequired then RuntimeApprovalRequired
          else (case registered_for registry i of
              None \<Rightarrow> RuntimeRejected
            | Some e \<Rightarrow>
                if rb_skill_fingerprint e \<noteq> kl_skill_fingerprint (ki_selection i) then RuntimeStale
                else if re_availability (rb_endpoint e) \<noteq> EndpointAvailable then RuntimeUnavailable
                else RuntimeEligible))"

lemma binding_result_cases:
  assumes "binding_result_made b"
  shows "br_status b = BindIneligible \<and> br_invocation b = None \<and> br_reasons b \<noteq> [] \<or>
    (\<exists>i. br_invocation b = Some i \<and> invocation_made i \<and>
      (br_status b = BindEligible \<and> ki_status i = InvocationEligible \<or>
       br_status b = BindApprovalRequired \<and> ki_status i = InvocationApprovalRequired))"
  using assms
  by (cases "br_status b")
    (auto simp: binding_result_made_def check_binding_result_def res_simps split: option.splits if_splits)

lemma decision_without_request:
  assumes "binding_result_made b" "length (br_safety_decision_id b) \<le> 16384" "runtime_registry_made registry"
    and "status \<noteq> RuntimeEligible" "reasons = enum_ordered runtime_reasons R" "R \<noteq> {}"
    and "check_decision_reasons status reasons b = Inr ()"
  shows "\<exists>d. mk_runtime_decision status reasons b (rtg_fingerprint registry) None = Inr d \<and>
    rd_status d = status \<and> rd_request d = None \<and> rd_reasons d = reasons"
proof -
  have "reasons \<noteq> []" using assms(5,6) by (auto simp: enum_ordered_def filter_empty_conv)
  then have "decision_request status reasons None = Inr None" using assms(4) by (simp add: decision_request_def)
  then show ?thesis
    using mk_decision_made [OF assms(1,5) _ _ assms(7), of "rtg_fingerprint registry" None]
      registry_made_kind [OF assms(3)]
      decision_document_bounded [OF assms(1,2) made_digests(3) [OF assms(3)] _ assms(5), of None]
    by (simp add: Let_def)
qed

definition request_document_for :: "runtime_registry \<Rightarrow> skill_invocation \<Rightarrow> runtime_binding \<Rightarrow> pyval" where
  "request_document_for registry i e =
     runtime_request_document i e (rtg_version registry) (rtg_fingerprint registry) (ki_parameters i)"

lemma eligible_request:
  assumes b: "binding_result_made b" "length (br_safety_decision_id b) \<le> 16384"
    and r: "runtime_registry_made registry"
    and i: "br_status b = BindEligible" "br_invocation b = Some i" "invocation_made i" "ki_status i = InvocationEligible"
    and x: "registered_for registry i = Some x" "rb_skill_fingerprint x = kl_skill_fingerprint (ki_selection i)"
      "re_availability (rb_endpoint x) = EndpointAvailable"
  shows "if conforms (re_request_schema (rb_endpoint x)) (ki_parameters i) \<and>
      bounded_ok skill_json_limits (request_document_for registry i x)
    then \<exists>d q. evaluate_eligible registry b = Inr d \<and> rd_status d = RuntimeEligible \<and>
      rd_reasons d = [] \<and> rd_request d = Some q \<and> rtq_invocation q = i \<and> rtq_binding q = x \<and>
      request_fields q = Inr (ki_parameters i)
    else evaluate_eligible registry b = Inl invalid_runtime_binding"
proof -
  have found: "index_get runtime_binding_key (rtg_bindings registry) (invocation_key i) = Some x"
    using x(1) by (simp add: registered_for_def)
  note xm = registered_binding [OF r found]
  have ev: "evaluate_eligible registry b =
      tryE (mk_runtime_request i x (rtg_version registry) (rtg_fingerprint registry)) (\<lambda>q.
        mk_runtime_decision RuntimeEligible [] b (rtg_fingerprint registry) (Some q))"
    using x by (simp add: evaluate_eligible_made [OF i(3) r i(2)] found)
  have agrees: "request_agrees i x"
    using xm(3) x(2) by (simp add: request_agrees_def runtime_binding_key_def invocation_key_def)
  have em: "endpoint_made (rb_endpoint x)" using xm(2) by (simp add: binding_made_def)
  note schema = mk_ros_endpoint_Inr(2,4,5) [OF em [unfolded endpoint_made_def]]
  have bounded: "bounded_ok skill_json_limits (ki_parameters i)"
    using invocation_made_facts(3) [OF i(3)]
    by (auto simp: invocation_parameters_def skill_dict_property_def res_simps split: if_splits)
  have accepts: "validate_skill_parameters (re_request_schema (rb_endpoint x)) (ki_parameters i) =
      (if conforms (re_request_schema (rb_endpoint x)) (ki_parameters i) then Inr (ki_parameters i)
       else Inl invalid_skill_parameters)"
    using validate_skill_parameters_eq [of "re_request_schema (rb_endpoint x)" "ki_parameters i"] schema bounded
    by (simp add: schema_valid_def)
  note mk = mk_request_made_eq [OF i(3) xm(2), of "rtg_version registry" "rtg_fingerprint registry"]
  have bad: "mk_runtime_request i x (rtg_version registry) (rtg_fingerprint registry) = Inl invalid_runtime_binding"
    if "\<not> (conforms (re_request_schema (rb_endpoint x)) (ki_parameters i) \<and>
      bounded_ok skill_json_limits (request_document_for registry i x))"
    using registry_made_kind [OF r] agrees i(4) bounded that
    by (simp add: mk accepts request_document_for_def Let_def)
  have good: "\<exists>q. mk_runtime_request i x (rtg_version registry) (rtg_fingerprint registry) = Inr q \<and>
      rtq_invocation q = i \<and> rtq_binding q = x"
    if "conforms (re_request_schema (rb_endpoint x)) (ki_parameters i)"
      "bounded_ok skill_json_limits (request_document_for registry i x)"
    using registry_made_kind [OF r] agrees i(4) bounded that
    by (simp add: mk accepts request_document_for_def Let_def)
  show ?thesis
  proof (cases "conforms (re_request_schema (rb_endpoint x)) (ki_parameters i) \<and>
      bounded_ok skill_json_limits (request_document_for registry i x)")
    case True
    then obtain q where q: "mk_runtime_request i x (rtg_version registry) (rtg_fingerprint registry) = Inr q"
      "rtq_invocation q = i" "rtq_binding q = x" using good by blast
    have qm: "request_made q" by (rule mk_runtime_request_Inr(1) [OF q(1)])
    have fields: "request_fields q = Inr (ki_parameters i)"
      using mk_runtime_request_Inr(8,9) [OF q(1)] by simp
    have "[] = enum_ordered runtime_reasons {}" by (simp add: enum_ordered_def)
    then show ?thesis
      using True q fields
        mk_decision_made [OF b(1) _ _ decision_request_made [OF qm], of "{}" "rtg_fingerprint registry"]
        registry_made_kind [OF r]
        decision_document_bounded [OF b made_digests(3) [OF r], of "Some q" "[]" "{}" RuntimeEligible] qm
      by (simp add: ev check_decision_reasons_def Let_def)
  next
    case False
    then show ?thesis using bad by (simp add: ev if_not_P)
  qed
qed

text \<open>The table: the decision that the bridge takes on a constructed binding.\<close>

lemma evaluate_table:
  assumes b: "binding_result_made b" "length (br_safety_decision_id b) \<le> 16384"
    and r: "runtime_registry_made registry"
  shows "if expected_status registry b = RuntimeEligible
    then \<exists>i e. br_invocation b = Some i \<and> registered_for registry i = Some e \<and>
      (if conforms (re_request_schema (rb_endpoint e)) (ki_parameters i) \<and>
          bounded_ok skill_json_limits (request_document_for registry i e)
       then \<exists>d q. evaluate_binding \<lparr>bg_registry = registry\<rparr> b = Inr d \<and> rd_status d = RuntimeEligible \<and>
         rd_reasons d = [] \<and> rd_request d = Some q \<and> rtq_invocation q = i \<and> rtq_binding q = e \<and>
         request_fields q = Inr (ki_parameters i)
       else evaluate_binding \<lparr>bg_registry = registry\<rparr> b = Inl invalid_runtime_binding)
    else \<exists>d. evaluate_binding \<lparr>bg_registry = registry\<rparr> b = Inr d \<and> rd_status d = expected_status registry b \<and>
      rd_request d = None \<and> rd_reasons d \<noteq> []"
proof -
  note rebuilt = rebuild_binding_made [OF b(1)] rebuild_registry_made [OF r]
  consider (ineligible) "br_status b = BindIneligible" "br_invocation b = None" "br_reasons b \<noteq> []"
    | (approval) i where "br_status b = BindApprovalRequired" "br_invocation b = Some i"
        "ki_status i = InvocationApprovalRequired"
    | (eligible) i where "br_status b = BindEligible" "br_invocation b = Some i" "invocation_made i"
        "ki_status i = InvocationEligible"
    using binding_result_cases [OF b(1)] by (elim disjE exE conjE) auto
  then show ?thesis
  proof cases
    case ineligible
    let ?rs = "br_reasons b"
    note out = ineligible_outcome_eq [of ?rs]
    have checks: "check_decision_reasons (ineligible_status (set ?rs))
        (enum_ordered runtime_reasons (snd (ineligible_outcome ?rs))) b = Inr ()"
      using out ineligible(1)
      by (auto simp: check_decision_reasons_def ineligible_status_def split: if_splits)
    have "ineligible_status (set ?rs) \<noteq> RuntimeEligible" by (simp add: ineligible_status_def)
    from decision_without_request [OF b r this refl _ checks] out
    obtain d where d: "mk_runtime_decision (ineligible_status (set ?rs))
        (enum_ordered runtime_reasons (snd (ineligible_outcome ?rs))) b (rtg_fingerprint registry) None = Inr d"
      "rd_status d = ineligible_status (set ?rs)" "rd_request d = None"
      "rd_reasons d = enum_ordered runtime_reasons (snd (ineligible_outcome ?rs))" by blast
    moreover have "rd_reasons d \<noteq> []"
      using out runtime_ordered_set [of "snd (ineligible_outcome ?rs)"] d(4) by (metis empty_set)
    ultimately show ?thesis
      using ineligible out
      by (auto simp: evaluate_binding_def rebuilt expected_status_def case_prod_beta ineligible_status_def)
  next
    case approval
    have "check_decision_reasons RuntimeApprovalRequired [UpstreamApprovalRequired] b = Inr ()"
      using approval by (simp add: check_decision_reasons_def)
    moreover have "[UpstreamApprovalRequired] = enum_ordered runtime_reasons {UpstreamApprovalRequired}"
      by (simp add: enum_ordered_def runtime_reasons_def)
    ultimately show ?thesis
      using decision_without_request [OF b r, of RuntimeApprovalRequired "[UpstreamApprovalRequired]"
          "{UpstreamApprovalRequired}"] approval
      by (auto simp: evaluate_binding_def rebuilt expected_status_def)
  next
    case eligible
    note ev = evaluate_eligible_made [OF eligible(3) r eligible(2)]
    have e: "evaluate_binding \<lparr>bg_registry = registry\<rparr> b = evaluate_eligible registry b"
      using eligible by (simp add: evaluate_binding_def rebuilt)
    have one: "[EndpointNotRegistered] = enum_ordered runtime_reasons {EndpointNotRegistered}"
      "[EndpointIsUnavailable] = enum_ordered runtime_reasons {EndpointIsUnavailable}"
      "[UpstreamStale, SkillFingerprintMismatch] = enum_ordered runtime_reasons {UpstreamStale, SkillFingerprintMismatch}"
      by (simp_all add: enum_ordered_def runtime_reasons_def)
    have checks: "check_decision_reasons RuntimeRejected [EndpointNotRegistered] b = Inr ()"
      "check_decision_reasons RuntimeUnavailable [EndpointIsUnavailable] b = Inr ()"
      "check_decision_reasons RuntimeStale [UpstreamStale, SkillFingerprintMismatch] b = Inr ()"
      by (simp_all add: check_decision_reasons_def)
    note no_request = decision_without_request [OF b r _ one(1) _ checks(1)]
      decision_without_request [OF b r _ one(2) _ checks(2)] decision_without_request [OF b r _ one(3) _ checks(3)]
    show ?thesis
    proof (cases "expected_status registry b = RuntimeEligible")
      case False
      then show ?thesis
        using no_request eligible
        by (auto simp: e ev expected_status_def registered_for_def split: option.splits if_splits)
    next
      case True
      then obtain x where x: "registered_for registry i = Some x"
        "rb_skill_fingerprint x = kl_skill_fingerprint (ki_selection i)"
        "re_availability (rb_endpoint x) = EndpointAvailable"
        using eligible by (auto simp: expected_status_def split: option.splits if_splits)
      show ?thesis
        using eligible_request [OF b r eligible x] True eligible(2) x(1) by (auto simp: e)
    qed
  qed
qed

end
