(* ===== verification/Runtime_Transport.thy ===== *)
theory Runtime_Transport
  imports Runtime_Decision
begin

text \<open>
  The boundary to a transport (\<open>runtime_bridge/transport.py\<close>).  The transport is code outside the package,
  given as a parameter: what its operations return or raise for a request.  Every call of one of its
  operations is recorded, in order.
\<close>

section \<open>Receipts and transports\<close>

datatype transport_availability = TransportAvailable | TransportUnavailable

datatype transport_acceptance = TransportAccepted | TransportRejected

record transport_receipt =
  tr_transport_id :: string
  tr_request_id :: string
  tr_request_fingerprint :: runtime_fingerprint
  tr_acceptance :: transport_acceptance
  tr_correlation_id :: string
  tr_detail :: string

definition check_transport_receipt :: "transport_receipt \<Rightarrow> transport_receipt res" where
  "check_transport_receipt r =
     tryE (runtime_identifier invalid_runtime_contract (tr_transport_id r)) (\<lambda>_.
     tryE (runtime_text invalid_runtime_contract (tr_request_id r)) (\<lambda>_.
     raise_if (rf_kind (tr_request_fingerprint r) \<noteq> RfRequest) invalid_runtime_contract
    (tryE (runtime_text invalid_runtime_contract (tr_correlation_id r)) (\<lambda>_.
     tryE (runtime_text invalid_runtime_contract (tr_detail r)) (\<lambda>_. Inr r)))))"

text \<open>
  What a transport raises: \<open>RuntimeTransportUnavailableError\<close>, \<open>RuntimeTransportRejectedError\<close>, another
  \<open>RuntimeTransportError\<close>, each with its text, or any other exception.
\<close>

datatype transport_raise =
    RaisesUnavailable string | RaisesRejected string | RaisesTransport string | RaisesOther exn

record runtime_transport =
  tp_id :: string
  tp_availability :: "runtime_request \<Rightarrow> transport_raise + transport_availability"
  tp_dispatch :: "runtime_request \<Rightarrow> transport_raise + transport_receipt"

datatype transport_call = CallAvailability runtime_request | CallDispatch runtime_request

section \<open>Results\<close>

datatype dispatch_status =
    NotEligible | NotDispatched | TransportIsUnavailable | RejectedBeforeDispatch | RejectedByTransport
  | AcceptedByTransport | TransportFailed

datatype dispatch_failure =
    FailDecisionNotEligible | FailDispatchNotAttempted | FailStaleDecision | FailTransportUnavailable
  | FailTransportRejected | FailTransportFailure

record dispatch_result =
  dr_status :: dispatch_status
  dr_decision_id :: string
  dr_decision_fingerprint :: runtime_fingerprint
  dr_request_id :: "string option"
  dr_request_fingerprint :: "runtime_fingerprint option"
  dr_transport_id :: "string option"
  dr_failure_code :: "dispatch_failure option"
  dr_detail :: string
  dr_receipt :: "transport_receipt option"

text \<open>\<open>__post_init__\<close> of the result: the order of its checks is that of the code.\<close>

definition check_result_request :: "dispatch_result \<Rightarrow> unit res" where
  "check_result_request r =
     raise_if ((dr_request_id r = None) \<noteq> (dr_request_fingerprint r = None)) invalid_runtime_contract
    (case dr_request_id r of
       None \<Rightarrow> Inr ()
     | Some i \<Rightarrow>
         tryE (runtime_text invalid_runtime_contract i) (\<lambda>_.
         case dr_request_fingerprint r of
           None \<Rightarrow> Inl invalid_runtime_contract
         | Some f \<Rightarrow> raise_if (rf_kind f \<noteq> RfRequest) invalid_runtime_contract (Inr ())))"

definition check_result_receipt :: "dispatch_result \<Rightarrow> unit res" where
  "check_result_receipt r =
     tryE (if dr_status r = AcceptedByTransport then
         raise_if (dr_failure_code r \<noteq> None \<or> map_option tr_acceptance (dr_receipt r) \<noteq> Some TransportAccepted)
           invalid_runtime_contract (Inr ())
       else (case dr_receipt r of
           None \<Rightarrow> Inr ()
         | Some receipt \<Rightarrow>
             raise_if (\<not> (dr_status r = RejectedByTransport \<and> tr_acceptance receipt = TransportRejected))
               invalid_runtime_contract (Inr ()))) (\<lambda>_.
     raise_if (dr_status r \<noteq> AcceptedByTransport \<and> dr_failure_code r = None) invalid_runtime_contract (Inr ()))"

definition check_dispatch_result :: "dispatch_result \<Rightarrow> dispatch_result res" where
  "check_dispatch_result r =
     tryE (runtime_text invalid_runtime_contract (dr_decision_id r)) (\<lambda>_.
     raise_if (rf_kind (dr_decision_fingerprint r) \<noteq> RfDecision) invalid_runtime_contract
    (tryE (check_result_request r) (\<lambda>_.
     tryE (case dr_transport_id r of
         None \<Rightarrow> Inr []
       | Some t \<Rightarrow> runtime_identifier invalid_runtime_contract t) (\<lambda>_.
     tryE (runtime_text invalid_runtime_contract (dr_detail r)) (\<lambda>_.
     tryE (case dr_receipt r of
         None \<Rightarrow> Inr None
       | Some receipt \<Rightarrow> tryE (check_transport_receipt receipt) (\<lambda>c. Inr (Some c))) (\<lambda>receipt.
     tryE (check_result_receipt (r\<lparr>dr_receipt := receipt\<rparr>)) (\<lambda>_. Inr (r\<lparr>dr_receipt := receipt\<rparr>))))))))"

definition result_for ::
  "runtime_decision \<Rightarrow> dispatch_status \<Rightarrow> dispatch_failure option \<Rightarrow> string \<Rightarrow> string option \<Rightarrow>
   transport_receipt option \<Rightarrow> dispatch_result res" where
  "result_for decision status failure detail transport_id receipt =
     check_dispatch_result
       \<lparr>dr_status = status, dr_decision_id = rd_decision_id decision,
        dr_decision_fingerprint = rd_fingerprint decision,
        dr_request_id = map_option rtq_request_id (rd_request decision),
        dr_request_fingerprint = map_option rtq_fingerprint (rd_request decision),
        dr_transport_id = transport_id, dr_failure_code = failure, dr_detail = detail, dr_receipt = receipt\<rparr>"

section \<open>The dispatcher\<close>

definition not_eligible_result :: "runtime_decision \<Rightarrow> dispatch_result res" where
  "not_eligible_result decision = result_for decision NotEligible (Some FailDecisionNotEligible)
     ''Runtime eligibility was not established; no transport was called.'' None None"

definition not_dispatched :: "runtime_decision \<Rightarrow> dispatch_result res" where
  "not_dispatched decision =
     (if rd_status decision \<noteq> RuntimeEligible then not_eligible_result decision
      else result_for decision NotDispatched (Some FailDispatchNotAttempted)
        ''The eligible request was deliberately not handed to a transport.'' None None)"

text \<open>\<open>except RuntimeValidationError\<close>.\<close>

fun runtime_validation :: "exn \<Rightarrow> bool" where
  "runtime_validation (RuntimeExn x) = (x \<noteq> StaleRuntimeDecisionError)"
| "runtime_validation _ = False"

text \<open>The part before the transport is looked at: a result ends the dispatch, nothing lets it go on.\<close>

definition stale_before_dispatch ::
  "runtime_bridge \<Rightarrow> runtime_decision \<Rightarrow> binding_result \<Rightarrow> runtime_request \<Rightarrow> string option res" where
  "stale_before_dispatch bridge decision b q =
     (case rebuild_runtime_request q of
        Inl e \<Rightarrow>
          if runtime_validation e then Inr (Some ''The runtime request failed integrity reconstruction.'') else Inl e
      | Inr again \<Rightarrow>
          tryE (request_changed again q) (\<lambda>changed.
          if changed then Inr (Some ''The runtime request changed after eligibility evaluation.'')
          else
          tryE (evaluate_binding bridge b) (\<lambda>current.
          if \<not> runtime_decision_eq current decision
          then Inr (Some ''Runtime or upstream state changed after eligibility evaluation.'')
          else Inr None)))"

text \<open>The handing over of the request, once the transport has said that it is available.\<close>

definition hand_over :: "runtime_transport \<Rightarrow> string \<Rightarrow> runtime_decision \<Rightarrow> runtime_request \<Rightarrow> dispatch_result res" where
  "hand_over transport transport_id decision q =
     (case tp_dispatch transport q of
        Inl (RaisesUnavailable m) \<Rightarrow>
          result_for decision TransportIsUnavailable (Some FailTransportUnavailable) m (Some transport_id) None
      | Inl (RaisesRejected m) \<Rightarrow>
          result_for decision RejectedByTransport (Some FailTransportRejected) m (Some transport_id) None
      | Inl (RaisesTransport m) \<Rightarrow>
          result_for decision TransportFailed (Some FailTransportFailure) m (Some transport_id) None
      | Inl (RaisesOther e) \<Rightarrow> Inl e
      | Inr receipt \<Rightarrow>
          raise_if (tr_transport_id receipt \<noteq> transport_id \<or> tr_request_id receipt \<noteq> rtq_request_id q \<or>
             tr_request_fingerprint receipt \<noteq> rtq_fingerprint q) invalid_runtime_contract
         (if tr_acceptance receipt = TransportRejected
          then result_for decision RejectedByTransport (Some FailTransportRejected) (tr_detail receipt)
            (Some transport_id) (Some receipt)
          else result_for decision AcceptedByTransport None
            ''Transport accepted the request; physical or task completion is not established.''
            (Some transport_id) (Some receipt)))"

definition use_transport ::
  "runtime_transport \<Rightarrow> runtime_decision \<Rightarrow> runtime_request \<Rightarrow> transport_call list \<times> dispatch_result res" where
  "use_transport transport decision q =
     (case runtime_identifier invalid_runtime_contract (tp_id transport) of
        Inl e \<Rightarrow> ([], Inl e)
      | Inr transport_id \<Rightarrow>
          (case tp_availability transport q of
             Inl (RaisesUnavailable m) \<Rightarrow>
               ([CallAvailability q],
                result_for decision TransportIsUnavailable (Some FailTransportUnavailable) m (Some transport_id) None)
           | Inl (RaisesRejected m) \<Rightarrow>
               ([CallAvailability q],
                result_for decision TransportFailed (Some FailTransportFailure) m (Some transport_id) None)
           | Inl (RaisesTransport m) \<Rightarrow>
               ([CallAvailability q],
                result_for decision TransportFailed (Some FailTransportFailure) m (Some transport_id) None)
           | Inl (RaisesOther e) \<Rightarrow> ([CallAvailability q], Inl e)
           | Inr TransportUnavailable \<Rightarrow>
               ([CallAvailability q],
                result_for decision TransportIsUnavailable (Some FailTransportUnavailable)
                  ''The configured transport reported itself unavailable.'' (Some transport_id) None)
           | Inr TransportAvailable \<Rightarrow>
               ([CallAvailability q, CallDispatch q], hand_over transport transport_id decision q)))"

definition dispatch_decision ::
  "runtime_bridge \<Rightarrow> runtime_decision \<Rightarrow> binding_result \<Rightarrow> runtime_transport \<Rightarrow>
   transport_call list \<times> dispatch_result res" where
  "dispatch_decision bridge decision b transport =
     (if rd_status decision \<noteq> RuntimeEligible then ([], not_eligible_result decision)
      else (case rd_request decision of
          None \<Rightarrow> ([], Inl (BuiltinExn AssertionError))
        | Some q \<Rightarrow>
            (case stale_before_dispatch bridge decision b q of
               Inl e \<Rightarrow> ([], Inl e)
             | Inr (Some detail) \<Rightarrow>
                 ([], result_for decision RejectedBeforeDispatch (Some FailStaleDecision) detail None None)
             | Inr None \<Rightarrow> use_transport transport decision q)))"

text \<open>The sentinel for a robot without a configured ROS adapter.\<close>

definition unavailable_ros_transport :: "string \<Rightarrow> runtime_transport" where
  "unavailable_ros_transport transport_id =
     \<lparr>tp_id = transport_id, tp_availability = (\<lambda>q. Inr TransportUnavailable),
      tp_dispatch = (\<lambda>q. Inl (RaisesUnavailable ''No typed ROS service adapter is configured for this endpoint.''))\<rparr>"

end
