(* ===== verification/Runtime_Boundary.thy ===== *)
theory Runtime_Boundary
  imports Runtime_Handoff Runtime_Transport
begin

text \<open>
  What the dispatcher guarantees at the boundary: when a transport is called at all, and what the results
  say.  The laws of a transport that answers for its requests are a locale.
\<close>

section \<open>Decisions have identities\<close>

definition decision_identified :: "runtime_decision \<Rightarrow> bool" where
  "decision_identified d \<longleftrightarrow>
     text_ok (rd_decision_id d) \<and> rf_kind (rd_fingerprint d) = RfDecision \<and>
     (case rd_request d of None \<Rightarrow> True
      | Some q \<Rightarrow> text_ok (rtq_request_id q) \<and> rf_kind (rtq_fingerprint q) = RfRequest)"

lemma runtime_decision_id_ok: "text_ok (''runtime-decision-'' @ sha256_hex s)"
  by (rule digest_text_ok) (simp_all add: py_isspace_def code_point_def)

lemma runtime_request_id_ok: "text_ok (''runtime-request-'' @ sha256_hex s)"
  by (rule digest_text_ok) (simp_all add: py_isspace_def code_point_def)

lemma request_identified: "request_made q \<Longrightarrow> text_ok (rtq_request_id q) \<and> rf_kind (rtq_fingerprint q) = RfRequest"
proof -
  have "mk_runtime_request c1 c2 c3 c4 = Inr x \<Longrightarrow> text_ok (rtq_request_id x) \<and> rf_kind (rtq_fingerprint x) = RfRequest"
    for c1 c2 c3 c4 x
    using runtime_request_id_ok
    by (auto simp: mk_runtime_request_def res_simps runtime_fingerprint_document_eq split: if_splits)
  then show "request_made q \<Longrightarrow> ?thesis" unfolding request_made_def by blast
qed

lemma mk_decision_identified: "returns_only decision_identified (mk_runtime_decision status reasons b fp request)"
proof -
  have "decision_identified d" if d: "mk_runtime_decision status reasons b fp request = Inr d" for d
  proof -
    have "text_ok (rd_decision_id d)"
      using d runtime_decision_id_ok
      by (auto simp: mk_runtime_decision_def res_simps runtime_fingerprint_document_eq split: if_splits)
    then show ?thesis
      using mk_runtime_decision_Inr(4,6) [OF d] request_identified
      by (auto simp: decision_identified_def split: option.splits)
  qed
  then show ?thesis by (simp add: returns_only_def)
qed

lemma evaluated_identified: "evaluate_binding bridge b = Inr d \<Longrightarrow> decision_identified d"
proof -
  have "returns_only decision_identified (evaluate_binding bridge b)"
    unfolding evaluate_binding_def evaluate_eligible_def Let_def
    by (intro returns_onlyI mk_decision_identified)
  then show "evaluate_binding bridge b = Inr d \<Longrightarrow> ?thesis" by (simp add: returns_only_def)
qed

section \<open>Results\<close>

lemma result_for_failure:
  assumes "decision_identified d" "text_ok detail" "\<And>t. transport_id = Some t \<Longrightarrow> skill_identifier_ok t"
    and "status \<noteq> AcceptedByTransport"
  shows "\<exists>r. result_for d status (Some f) detail transport_id None = Inr r \<and> dr_status r = status \<and>
    dr_failure_code r = Some f \<and> dr_receipt r = None \<and> dr_decision_id r = rd_decision_id d \<and>
    dr_request_id r = map_option rtq_request_id (rd_request d)"
  using assms
  by (cases transport_id; cases "rd_request d")
    (auto simp: result_for_def check_dispatch_result_def check_result_request_def check_result_receipt_def
      decision_identified_def)

lemma check_receipt_same [simp]: "check_transport_receipt r = Inr c \<Longrightarrow> c = r"
  by (auto simp: check_transport_receipt_def res_simps)

lemma result_for_receipt:
  assumes "decision_identified d" "text_ok detail" "skill_identifier_ok t" "check_transport_receipt receipt = Inr receipt"
    and "if status = AcceptedByTransport then f = None \<and> tr_acceptance receipt = TransportAccepted
      else f \<noteq> None \<and> status = RejectedByTransport \<and> tr_acceptance receipt = TransportRejected"
  shows "\<exists>r. result_for d status f detail (Some t) (Some receipt) = Inr r \<and> dr_status r = status \<and>
    dr_failure_code r = f \<and> dr_receipt r = Some receipt \<and> dr_decision_id r = rd_decision_id d \<and>
    dr_request_id r = map_option rtq_request_id (rd_request d)"
  using assms
  by (cases "rd_request d")
    (auto simp: result_for_def check_dispatch_result_def check_result_request_def check_result_receipt_def
      decision_identified_def split: if_splits)

lemma result_for_Inr:
  assumes "result_for d status f detail t receipt = Inr r"
  shows "dr_status r = status \<and> dr_receipt r = receipt \<and> dr_failure_code r = f \<and> dr_transport_id r = t \<and>
    dr_request_id r = map_option rtq_request_id (rd_request d) \<and>
    dr_request_fingerprint r = map_option rtq_fingerprint (rd_request d) \<and>
    (status = AcceptedByTransport \<longrightarrow> map_option tr_acceptance receipt = Some TransportAccepted)"
proof -
  let ?r = "\<lparr>dr_status = status, dr_decision_id = rd_decision_id d, dr_decision_fingerprint = rd_fingerprint d,
    dr_request_id = map_option rtq_request_id (rd_request d),
    dr_request_fingerprint = map_option rtq_fingerprint (rd_request d),
    dr_transport_id = t, dr_failure_code = f, dr_detail = detail, dr_receipt = receipt\<rparr>"
  from assms obtain c where c: "(case receipt of None \<Rightarrow> Inr None
      | Some x \<Rightarrow> tryE (check_transport_receipt x) (\<lambda>y. Inr (Some y))) = Inr c"
    and ok: "check_result_receipt (?r\<lparr>dr_receipt := c\<rparr>) = Inr ()" and r: "r = ?r\<lparr>dr_receipt := c\<rparr>"
    by (auto simp: result_for_def check_dispatch_result_def tryE_Inr raise_if_Inr simp del: runtime_text_eq runtime_identifier_eq)
  have "c = receipt"
    using c by (cases receipt) (auto simp: tryE_Inr dest: check_receipt_same)
  with ok r show ?thesis by (auto simp: check_result_receipt_def res_simps)
qed

section \<open>When the transport is called\<close>

lemma stale_before_none:
  assumes "stale_before_dispatch bridge decision b q = Inr None"
  obtains again current v w where
    "mk_runtime_request (rtq_invocation q) (rtq_binding q) (rtq_registry_version q) (rtq_registry_fingerprint q) = Inr again"
    "runtime_request_eq again q" "request_fields again = Inr v" "request_fields q = Inr w" "py_equal v w"
    "evaluate_binding bridge b = Inr current" "runtime_decision_eq current decision"
  using assms
  by (auto simp: stale_before_dispatch_def rebuild_runtime_request_def request_changed_def res_simps
      split: sum.splits if_splits)

lemma use_transport_calls:
  "fst (use_transport transport decision q) =
     (if \<not> skill_identifier_ok (tp_id transport) then []
      else if tp_availability transport q = Inr TransportAvailable then [CallAvailability q, CallDispatch q]
      else [CallAvailability q])"
  by (auto simp: use_transport_def split: sum.splits transport_raise.splits transport_availability.splits)

lemma dispatch_calls:
  assumes "dispatch_decision bridge decision b transport = (calls, outcome)" "calls \<noteq> []"
  obtains q where "rd_status decision = RuntimeEligible" "rd_request decision = Some q"
    "stale_before_dispatch bridge decision b q = Inr None" "(calls, outcome) = use_transport transport decision q"
  using assms
  by (auto simp: dispatch_decision_def split: if_splits option.splits sum.splits)

lemma dispatch_uncalled_status:
  assumes "dispatch_decision bridge decision b transport = ([], Inr r)"
  shows "dr_status r \<in> {NotEligible, RejectedBeforeDispatch}"
proof -
  have "use_transport transport decision q \<noteq> ([], Inr r)" for q
    by (auto simp: use_transport_def split: sum.splits transport_raise.splits transport_availability.splits)
  with assms show ?thesis
    by (auto simp: dispatch_decision_def not_eligible_result_def dest!: result_for_Inr
        split: if_splits option.splits sum.splits)
qed

lemma dispatch_uncalled_failure:
  assumes "dispatch_decision bridge decision b transport = ([], Inr r)"
  shows "dr_failure_code r \<noteq> None"
proof -
  have "use_transport transport decision q \<noteq> ([], Inr r)" for q
    by (auto simp: use_transport_def split: sum.splits transport_raise.splits transport_availability.splits)
  with assms show ?thesis
    by (auto simp: dispatch_decision_def not_eligible_result_def dest!: result_for_Inr
        split: if_splits option.splits sum.splits)
qed

lemma hand_over_Inr:
  assumes "hand_over transport t decision q = Inr r"
  shows "dr_status r \<in> {TransportIsUnavailable, RejectedByTransport, TransportFailed} \<and> dr_failure_code r \<noteq> None \<or>
    dr_status r = AcceptedByTransport \<and> dr_failure_code r = None \<and>
    (\<exists>receipt. tp_dispatch transport q = Inr receipt \<and> dr_receipt r = Some receipt \<and>
      tr_acceptance receipt = TransportAccepted \<and> tr_transport_id receipt = t \<and>
      tr_request_id receipt = rtq_request_id q \<and> tr_request_fingerprint receipt = rtq_fingerprint q) \<and>
    dr_request_id r = map_option rtq_request_id (rd_request decision) \<and>
    dr_request_fingerprint r = map_option rtq_fingerprint (rd_request decision)"
  using assms
  by (auto simp: hand_over_def raise_if_Inr dest!: result_for_Inr split: sum.splits transport_raise.splits if_splits)

lemma use_transport_Inr:
  assumes "use_transport transport decision q = (calls, Inr r)"
  shows "dr_status r \<in> {TransportIsUnavailable, RejectedByTransport, TransportFailed} \<and> dr_failure_code r \<noteq> None \<or>
    calls = [CallAvailability q, CallDispatch q] \<and> hand_over transport (tp_id transport) decision q = Inr r"
  using assms
  by (auto simp: use_transport_def dest!: result_for_Inr
      split: sum.splits transport_raise.splits transport_availability.splits if_splits)

section \<open>Transports that answer for their requests\<close>

fun reported :: "transport_raise \<Rightarrow> bool" where
  "reported (RaisesUnavailable m) = text_ok m"
| "reported (RaisesRejected m) = text_ok m"
| "reported (RaisesTransport m) = text_ok m"
| "reported (RaisesOther e) = False"

text \<open>The outcome that the answers of a transport to a request stand for.\<close>

definition transport_verdict :: "runtime_transport \<Rightarrow> runtime_request \<Rightarrow> dispatch_status" where
  "transport_verdict transport q =
     (case tp_availability transport q of
        Inl (RaisesUnavailable m) \<Rightarrow> TransportIsUnavailable
      | Inl _ \<Rightarrow> TransportFailed
      | Inr TransportUnavailable \<Rightarrow> TransportIsUnavailable
      | Inr TransportAvailable \<Rightarrow>
          (case tp_dispatch transport q of
             Inl (RaisesUnavailable m) \<Rightarrow> TransportIsUnavailable
           | Inl (RaisesRejected m) \<Rightarrow> RejectedByTransport
           | Inl _ \<Rightarrow> TransportFailed
           | Inr receipt \<Rightarrow>
               if tr_acceptance receipt = TransportRejected then RejectedByTransport else AcceptedByTransport))"

locale transport_contract =
  fixes transport :: runtime_transport
  assumes named: "skill_identifier_ok (tp_id transport)"
    and availability_reported: "tp_availability transport q = Inl x \<Longrightarrow> reported x"
    and dispatch_reported: "tp_dispatch transport q = Inl x \<Longrightarrow> reported x"
    and receipt_matches: "tp_dispatch transport q = Inr r \<Longrightarrow> check_transport_receipt r = Inr r \<and>
      tr_transport_id r = tp_id transport \<and> tr_request_id r = rtq_request_id q \<and>
      tr_request_fingerprint r = rtq_fingerprint q"
begin

lemma failing:
  assumes "decision_identified d" "text_ok detail" "status \<noteq> AcceptedByTransport"
  shows "\<exists>r. result_for d status (Some f) detail (Some (tp_id transport)) None = Inr r \<and> dr_status r = status"
  using result_for_failure [OF assms(1,2) _ assms(3), of "Some (tp_id transport)"] named by blast

lemma handed_over:
  assumes "decision_identified d" "rd_request d = Some q" "tp_availability transport q = Inr TransportAvailable"
  shows "\<exists>r. hand_over transport (tp_id transport) d q = Inr r \<and> dr_status r = transport_verdict transport q"
proof (cases "tp_dispatch transport q")
  case (Inl x)
  then show ?thesis
    using dispatch_reported [OF Inl] assms
    by (cases x) (auto simp: hand_over_def transport_verdict_def intro!: failing)
next
  case (Inr receipt)
  note m = receipt_matches [OF Inr]
  have detail: "text_ok (tr_detail receipt)"
    using m by (auto simp: check_transport_receipt_def res_simps split: if_splits)
  have said: "text_ok ''Transport accepted the request; physical or task completion is not established.''"
    by (simp add: text_ok_def exact_text_ok_def py_strip_def py_isspace_def code_point_def max_text_length_def)
  show ?thesis
    using m assms Inr
      result_for_receipt [OF assms(1) detail named, of receipt RejectedByTransport "Some FailTransportRejected"]
      result_for_receipt [OF assms(1) said named, of receipt AcceptedByTransport None]
    by (cases "tr_acceptance receipt") (auto simp: hand_over_def transport_verdict_def)
qed

lemma answered:
  assumes "decision_identified d" "rd_request d = Some q"
  shows "\<exists>r. use_transport transport d q =
      (if tp_availability transport q = Inr TransportAvailable then [CallAvailability q, CallDispatch q]
       else [CallAvailability q], Inr r) \<and> dr_status r = transport_verdict transport q"
proof -
  have said: "text_ok ''The configured transport reported itself unavailable.''"
    by (simp add: text_ok_def exact_text_ok_def py_strip_def py_isspace_def code_point_def max_text_length_def)
  show ?thesis
  proof (cases "tp_availability transport q")
    case (Inl x)
    then show ?thesis
      using availability_reported [OF Inl] named assms(1)
      by (cases x) (auto simp: use_transport_def transport_verdict_def intro!: failing)
  next
    case (Inr a)
    then show ?thesis
      using named failing [OF assms(1) said] handed_over [OF assms]
      by (cases a) (auto simp: use_transport_def transport_verdict_def)
  qed
qed

end

lemma sentinel_named [simp]: "skill_identifier_ok ''ros.service.unconfigured''"
  by (simp add: skill_identifier_ok_def identifier_evals lower_alnum_def)

text \<open>The transport of the package itself keeps the contract.\<close>

interpretation unconfigured: transport_contract "unavailable_ros_transport ''ros.service.unconfigured''"
  by unfold_locales
    (auto simp: unavailable_ros_transport_def text_ok_def exact_text_ok_def py_strip_def py_isspace_def
      code_point_def max_text_length_def)

section \<open>Fresh decisions\<close>

lemma evaluated_request_made: "evaluate_binding bridge b = Inr d \<Longrightarrow> rd_request d = Some q \<Longrightarrow> request_made q"
  by (elim evaluate_request) blast

lemma fresh_not_stale:
  assumes "evaluate_binding bridge b = Inr d" "rd_request d = Some q"
  shows "stale_before_dispatch bridge d b q = Inr None"
proof -
  note qm = evaluated_request_made [OF assms]
  have "runtime_decision_eq d d"
    by (rule runtime_decision_eq_refl) (use evaluated_request_made [OF assms(1)] in blast)
  then show ?thesis
    using assms(1) by (simp add: stale_before_dispatch_def rebuild_request_made [OF qm] request_unchanged [OF qm])
qed

end
