(* ===== verification/Runtime_Fixtures.thy ===== *)
theory Runtime_Fixtures
  imports Runtime_Boundary Skill_Fixtures
begin

text \<open>
  An endpoint for the skill of \<open>Skill_Fixtures\<close>, registered in an allowlist, and the request that is made
  of the binding of the demonstration.
\<close>

section \<open>The endpoint and the allowlist\<close>

lemma closed_object_valid [simp]: "schema_valid closed_object"
  by (simp add: schema_valid_def closed_object_built)

lemma closed_object_shape [simp]: "vs_type closed_object = VtObject" "\<not> vs_nullable closed_object"
  by (simp_all add: closed_object_def)

definition demo_endpoint :: ros_endpoint where
  "demo_endpoint = \<lparr>re_endpoint_id = ''e1'', re_backend_id = ''b1'', re_package_name = ''demo'',
     re_interface_name = ''Look'', re_endpoint_name = ''look'', re_namespace = ''/'',
     re_request_schema = closed_object, re_response_schema = closed_object, re_timeout_ms = 1000,
     re_availability = EndpointAvailable,
     re_fingerprint = runtime_sha RfEndpoint (canon (endpoint_document ''e1'' ''b1'' ''demo'' ''Look'' ''look'' ''/''
       closed_object_document closed_object_document 1000 EndpointAvailable))\<rparr>"

lemma demo_endpoint_id [simp]: "skill_identifier_ok ''e1''"
  by (simp add: skill_identifier_ok_def identifier_evals lower_alnum_def)

lemma demo_mk_endpoint:
  "mk_ros_endpoint ''e1'' ''b1'' ''demo'' ''Look'' ''look'' ''/'' closed_object closed_object 1000
     EndpointAvailable = Inr demo_endpoint"
proof -
  have names: "validate_ros_name ros_token ''demo'' = Inr ''demo''" "validate_ros_name ros_token ''look'' = Inr ''look''"
    "validate_ros_name ros_interface ''Look'' = Inr ''Look''" "validate_namespace ''/'' = Inr ''/''"
    by (simp_all add: validate_ros_name_def validate_namespace_def ros_token_def ros_interface_def lower_letter_def
        upper_letter_def identifier_evals)
  have "bounded_ok skill_json_limits (endpoint_document ''e1'' ''b1'' ''demo'' ''Look'' ''look'' ''/''
      closed_object_document closed_object_document 1000 EndpointAvailable)"
    by (simp add: endpoint_document_def closed_object_document_def bounded_evals too_many_bits_def)
  then show ?thesis
    by (simp add: mk_ros_endpoint_def names schema_contract_valid runtime_schema_document_def closed_object_doc
        runtime_fingerprint_document_eq demo_endpoint_def)
qed

lemma demo_semver [simp]: "semver_ok ''1.0.0''"
  by (simp add: semver_ok_def mk_semantic_version_def version_match_def split_first_def version_number_def
      version_labels_def identifier_evals is_digit_def)

lemma demo_skill_made: "skill_made demo_skill"
  using mk_skill_again(1) [OF demo_mk_skill] by (simp add: skill_made_def)

definition demo_binding_for :: runtime_binding where
  "demo_binding_for = projr (mk_runtime_binding demo_skill ''c1'' demo_endpoint)"

lemma demo_mk_binding: "mk_runtime_binding demo_skill ''c1'' demo_endpoint = Inr demo_binding_for"
proof -
  have e: "endpoint_made demo_endpoint" by (rule mk_ros_endpoint_Inr(1) [OF demo_mk_endpoint])
  have refl: "schema_eq closed_object closed_object" by (rule built_schema_eq_refl [OF closed_object_built])
  have "length (rf_digest (re_fingerprint demo_endpoint)) = 64" by (simp add: demo_endpoint_def)
  then have "bounded_ok skill_json_limits (runtime_binding_document demo_endpoint ''c1'' demo_skill)"
    by (simp add: runtime_binding_document_def demo_endpoint_def runtime_fingerprint_str_def skill_fingerprint_str_def
        bounded_evals)
  then have "\<exists>x. mk_runtime_binding demo_skill ''c1'' demo_endpoint = Inr x"
    using refl
    by (simp add: mk_runtime_binding_def rebuild_skill_made [OF demo_skill_made] rebuild_endpoint_made [OF e]
        runtime_fingerprint_document_eq) (simp add: demo_endpoint_def)
  then show ?thesis by (auto simp: demo_binding_for_def)
qed

lemmas demo_binding_facts = mk_runtime_binding_Inr [OF demo_mk_binding]

lemma demo_binding_endpoint [simp]:
  "rb_endpoint demo_binding_for = demo_endpoint" "rb_skill_definition demo_binding_for = demo_skill"
  "length (rf_digest (rb_fingerprint demo_binding_for)) = 64"
proof -
  have "mk_runtime_binding demo_skill ''c1'' demo_endpoint = Inr x \<Longrightarrow>
      rb_endpoint x = demo_endpoint \<and> rb_skill_definition x = demo_skill \<and> length (rf_digest (rb_fingerprint x)) = 64" for x
    using rebuild_skill_made [OF demo_skill_made] rebuild_endpoint_made [OF mk_ros_endpoint_Inr(1) [OF demo_mk_endpoint]]
    by (auto simp: mk_runtime_binding_def res_simps runtime_fingerprint_document_eq split: if_splits)
  from this [OF demo_mk_binding]
  show "rb_endpoint demo_binding_for = demo_endpoint" "rb_skill_definition demo_binding_for = demo_skill"
    "length (rf_digest (rb_fingerprint demo_binding_for)) = 64" by blast+
qed

definition demo_allowlist :: runtime_registry where
  "demo_allowlist = projr (mk_runtime_registry ''1.0.0'' [demo_binding_for])"

lemma demo_mk_allowlist: "mk_runtime_registry ''1.0.0'' [demo_binding_for] = Inr demo_allowlist"
proof -
  have "length (runtime_fingerprint_str (rb_fingerprint demo_binding_for)) \<le> 100"
    by (cases "rf_kind (rb_fingerprint demo_binding_for)") (simp_all add: runtime_fingerprint_str_def)
  then have "bounded_ok skill_json_limits (runtime_registry_document ''1.0.0'' [demo_binding_for])"
    by (simp add: runtime_registry_document_def bounded_evals)
  then have "\<exists>r. mk_runtime_registry ''1.0.0'' [demo_binding_for] = Inr r"
    by (simp add: mk_runtime_registry_def Let_def runtime_fingerprint_document_eq)
  then show ?thesis by (auto simp: demo_allowlist_def)
qed

lemma demo_allowlist_made: "runtime_registry_made demo_allowlist"
  using mk_runtime_registry_Inr(1,2) [OF demo_mk_allowlist] demo_binding_facts(1)
  by (simp add: runtime_registry_made_def list_all_iff)

lemma demo_skills_made: "skill_registry_made demo_skills"
  by (simp add: skill_registry_made_def demo_skills_def demo_skill_made)

lemma demo_selection_made: "selection_made demo_selection"
  using demo_select by (auto simp: select_skill_def res_simps dest: mk_selection_Inr split: option.splits)

section \<open>The request\<close>

lemma invocation_shape:
  assumes "invocation_made i"
  shows "ki_required_resources i = kd_required_resources (ki_skill_definition i)"
    "ki_concurrency_policy i = kd_concurrency_policy (ki_skill_definition i)"
    "ki_invocation_id i = ''skill-invocation-'' @ kf_digest (ki_fingerprint i)"
    "kf_kind (ki_fingerprint i) = KfInvocation"
proof -
  have caught: "parameters_error_as e r = Inr v \<longleftrightarrow> r = Inr v" for e and r :: "'a res" and v
    by (cases r) (auto simp: parameters_error_as_def)
  have "mk_skill_invocation c1 c2 c3 c4 c5 c6 c7 = Inr x \<Longrightarrow>
      ki_required_resources x = kd_required_resources (ki_skill_definition x) \<and>
      ki_concurrency_policy x = kd_concurrency_policy (ki_skill_definition x) \<and>
      ki_invocation_id x = ''skill-invocation-'' @ kf_digest (ki_fingerprint x) \<and>
      kf_kind (ki_fingerprint x) = KfInvocation" for c1 c2 c3 c4 c5 c6 c7 x
    by (auto simp: mk_skill_invocation_def Let_def res_simps caught skill_fingerprint_document_eq split: if_splits)
  from this [OF invocation_madeD [OF assms]]
  show "ki_required_resources i = kd_required_resources (ki_skill_definition i)"
    "ki_concurrency_policy i = kd_concurrency_policy (ki_skill_definition i)"
    "ki_invocation_id i = ''skill-invocation-'' @ kf_digest (ki_fingerprint i)"
    "kf_kind (ki_fingerprint i) = KfInvocation" by blast+
qed

lemma demo_selection_fields:
  "kl_skill_id demo_selection = ''k1''" "kl_skill_version demo_selection = ''1.0.0''"
  "kl_capability_id demo_selection = ''c1''" "kl_source_step_id demo_selection = ''s1''"
  "kl_registry_version demo_selection = ''1.0.0''"
  "kl_skill_fingerprint demo_selection = kd_fingerprint demo_skill"
  "length (kf_digest (kl_registry_fingerprint demo_selection)) = 64"
  "kf_kind (kl_registry_fingerprint demo_selection) = KfRegistry"
  using select_skill_Inr [OF demo_select] demo_resolved
  by (simp_all add: demo_skills_def)

lemma demo_invocation:
  assumes "evaluate demo_service (Inr demo_snapshot) demo_request = Inr d"
    "evaluate_proposal \<lparr>sk_policy = demo_policy InformationalReadOnly\<rparr> d = Inr z" "yd_required_approvals z = []"
    "bind_skill demo_manager d z demo_selection = Inr b" "br_invocation b = Some i"
  shows "binding_result_made b" "invocation_made i" "ki_selection i = demo_selection"
    "ki_skill_definition i = demo_skill" "ki_context_references i = []" "ki_required_approvals i = []"
    "ki_sources i = decision_sources z" "ki_status i = InvocationEligible" "br_safety_decision_id b = yd_decision_id z"
proof -
  show made: "binding_result_made b"
    using bind_skill_made [OF assms(4) _ demo_selection_made] demo_skills_made by (simp add: demo_manager_def)
  then show "invocation_made i" using assms(5) by (simp add: binding_result_made_def)
  obtain skill plan parameters where k:
    "index_get kd_skill_id (kr_skills (km_registry demo_manager)) (kl_skill_id demo_selection) = Some skill"
    "bind_invocation d z demo_selection skill parameters = Inr b"
    by (rule bind_skill_Inr [OF assms(4,5)])
  have skill: "skill = demo_skill"
    using k(1) demo_resolved by (simp add: demo_manager_def demo_selection_fields)
  note i = mk_skill_invocation_Inr [OF conjunct1 [OF bind_invocation_Inr [OF k(2) assms(5)]]]
  then show s: "ki_selection i = demo_selection" "ki_skill_definition i = demo_skill" "ki_context_references i = []"
    "ki_required_approvals i = []" "ki_sources i = decision_sources z"
    using skill assms(3) demo_decision_fields(1) [OF assms(1)] by auto
  show "ki_status i = InvocationEligible" using i assms(3) by (auto split: if_splits)
  have "br_safety_decision_id b = is_safety_decision_id (ki_sources i)"
    using made assms(5) by (auto simp: binding_result_made_def check_binding_result_def res_simps split: if_splits)
  then show "br_safety_decision_id b = yd_decision_id z" by (simp add: s decision_sources_def)
qed

lemma demo_runtime:
  obtains d z b e q where "bind_skill demo_manager d z demo_selection = Inr b" "binding_result_made b"
    "length (br_safety_decision_id b) \<le> 16384"
    "evaluate_binding \<lparr>bg_registry = demo_allowlist\<rparr> b = Inr e" "rd_status e = RuntimeEligible" "rd_request e = Some q"
proof -
  obtain d z b i where c: "evaluate demo_service (Inr demo_snapshot) demo_request = Inr d"
    "evaluate_proposal \<lparr>sk_policy = demo_policy InformationalReadOnly\<rparr> d = Inr z" "yd_required_approvals z = []"
    "bind_skill demo_manager d z demo_selection = Inr b" "br_invocation b = Some i" "ki_parameters i = PDict []"
    by (rule demo_bound)
  note i = demo_invocation [OF c(1-5)]
  note facts = invocation_made_facts [OF i(2)] and shape = invocation_shape [OF i(2)]
  note lengths = demo_source_lengths [OF c(1,2)]
  have short: "length (br_safety_decision_id b) \<le> 16384" using lengths(9) i(9) by simp
  have key: "invocation_key i = runtime_binding_key demo_binding_for"
    using facts(8) demo_binding_facts
    by (simp add: invocation_key_def runtime_binding_key_def i demo_selection_fields)
  have "mk_runtime_registry ''1.0.0'' [demo_binding_for] = Inr r \<Longrightarrow> rtg_bindings r = [demo_binding_for]" for r
    by (auto simp: mk_runtime_registry_def Let_def res_simps sort_key_def split: if_splits)
  from this [OF demo_mk_allowlist] have found: "registered_for demo_allowlist i = Some demo_binding_for"
    by (simp add: registered_for_def key index_get_def)
  have fp: "rb_skill_fingerprint demo_binding_for = kl_skill_fingerprint (ki_selection i)"
    using facts(11) demo_binding_facts(9) by (simp add: i)
  have available: "re_availability demo_endpoint = EndpointAvailable" "re_request_schema demo_endpoint = closed_object"
    by (simp_all add: demo_endpoint_def)
  have digests: "length (kf_digest (ki_fingerprint i)) = 64" "length (rf_digest (rtg_fingerprint demo_allowlist)) = 64"
    "length (rf_digest (re_fingerprint demo_endpoint)) = 64" "rf_kind (re_fingerprint demo_endpoint) = RfEndpoint"
    using made_digests(2) [OF i(2)] made_digests(3) [OF demo_allowlist_made] by (simp_all add: demo_endpoint_def)
  have version: "rtg_version demo_allowlist = ''1.0.0''" by (rule mk_runtime_registry_Inr(3) [OF demo_mk_allowlist])
  have binding_fp: "length (runtime_fingerprint_str (rb_fingerprint demo_binding_for)) \<le> 100"
    by (cases "rf_kind (rb_fingerprint demo_binding_for)") (simp_all add: runtime_fingerprint_str_def)
  have bounded: "bounded_ok skill_json_limits (request_document_for demo_allowlist i demo_binding_for)"
    using binding_fp digests demo_decision_fields(11,13) [OF c(1)] registry_made_kind [OF demo_allowlist_made]
    by (simp add: request_document_for_def runtime_request_document_def Let_def i c(6) shape facts(8,10,11)
        demo_selection_fields decision_sources_def lengths version bounded_evals runtime_fingerprint_str_def
        skill_fingerprint_str_def)
  have "expected_status demo_allowlist b = RuntimeEligible"
    by (simp add: expected_status_def c(5) i(8) found fp available)
  then show thesis
    using evaluate_table [OF i(1) short demo_allowlist_made] that [OF c(4) i(1) short] c(5,6) found available bounded
    by auto
qed

end
