(* ===== verification/Runtime_Properties.thy ===== *)
theory Runtime_Properties
  imports Runtime_Fixtures
begin

text \<open>The properties of the Runtime Bridge.\<close>

section \<open>The boundary\<close>

text \<open>
  C35. A transport is only called for an eligible decision that the bridge takes again, equal, for the
  binding handed over with it, and only in two ways: to ask whether it is available, and, when it says
  so, to hand over the request of the decision, once.  The binding then carries an invocation that needs no
  approval; the allowlist, rebuilt, has an available endpoint for it, with the same skill, version,
  fingerprint, capability and backend, and it is the endpoint of the request; and the fields of the request
  equal the parameters of its invocation, which the schema of the endpoint accepts.
\<close>

theorem runtime_dispatch_gate:
  assumes "dispatch_decision bridge decision b transport = (calls, outcome)" "calls \<noteq> []"
  shows "\<exists>q result i registry e again w.
    rd_status decision = RuntimeEligible \<and> rd_request decision = Some q \<and>
    calls = (if tp_availability transport q = Inr TransportAvailable
      then [CallAvailability q, CallDispatch q] else [CallAvailability q]) \<and>
    (\<exists>current. evaluate_binding bridge b = Inr current \<and> runtime_decision_eq current decision) \<and>
    rebuild_binding_result b = Inr result \<and> br_status result = BindEligible \<and> br_invocation result = Some i \<and>
    ki_status i = InvocationEligible \<and> ki_required_approvals i = [] \<and> invocation_eq i (rtq_invocation q) \<and>
    rebuild_runtime_registry (bg_registry bridge) = Inr registry \<and> e \<in> set (rtg_bindings registry) \<and>
    re_availability (rb_endpoint e) = EndpointAvailable \<and> request_agrees i e \<and>
    runtime_binding_eq e (rtq_binding q) \<and> rtq_registry_fingerprint q = rtg_fingerprint registry \<and>
    rebuild_runtime_request q = Inr again \<and> runtime_request_eq again q \<and>
    request_fields q = Inr w \<and> py_equal (ki_parameters (rtq_invocation q)) w \<and>
    validate_skill_parameters (re_request_schema (rb_endpoint (rtq_binding again))) (ki_parameters (rtq_invocation q)) =
      Inr (ki_parameters (rtq_invocation q))"
proof -
  obtain q where q: "rd_status decision = RuntimeEligible" "rd_request decision = Some q"
    "stale_before_dispatch bridge decision b q = Inr None" "(calls, outcome) = use_transport transport decision q"
    by (rule dispatch_calls [OF assms])
  obtain again current v w where a:
    "mk_runtime_request (rtq_invocation q) (rtq_binding q) (rtq_registry_version q) (rtq_registry_fingerprint q) = Inr again"
    "runtime_request_eq again q" "request_fields again = Inr v" "request_fields q = Inr w" "py_equal v w"
    "evaluate_binding bridge b = Inr current" "runtime_decision_eq current decision"
    by (rule stale_before_none [OF q(3)])
  obtain c where c: "rd_request current = Some c" "runtime_request_eq c q"
    using a(7) q(2) by (auto simp: runtime_decision_eq_def option_rel_Some2)
  obtain result registry where e: "rebuild_binding_result b = Inr result"
    "rebuild_runtime_registry (bg_registry bridge) = Inr registry"
    and cm: "request_made c \<and> br_status result = BindEligible \<and>
       br_invocation result = Some (rtq_invocation c) \<and> rtq_binding c \<in> set (rtg_bindings registry) \<and>
       re_availability (rb_endpoint (rtq_binding c)) = EndpointAvailable \<and>
       rtq_registry_version c = rtg_version registry \<and> rtq_registry_fingerprint c = rtg_fingerprint registry"
    by (rule evaluate_request [OF a(6)]) (use c(1) in blast)
  note made = request_made_facts [OF conjunct1 [OF cm]] and rebuilt = mk_runtime_request_Inr [OF a(1)]
  have im: "invocation_made (rtq_invocation c)" using cm by (simp add: request_made_def)
  have "ki_required_approvals (rtq_invocation c) = []"
    using mk_skill_invocation_Inr [OF invocation_madeD [OF im]] made(4) by simp
  moreover have "calls = (if tp_availability transport q = Inr TransportAvailable
      then [CallAvailability q, CallDispatch q] else [CallAvailability q])"
    using use_transport_calls [of transport decision q] q(4) assms(2) by (metis fst_conv)
  moreover have "v = ki_parameters (rtq_invocation q)" using a(3) rebuilt(8,9) by simp
  moreover have "runtime_binding_eq (rtq_binding c) (rtq_binding q)" "invocation_eq (rtq_invocation c) (rtq_invocation q)"
    "rtq_registry_fingerprint q = rtg_fingerprint registry"
    using c(2) cm by (auto simp: runtime_request_eq_def dest: arg_cong [where f = rtq_registry_fingerprint])
  ultimately show ?thesis
    using q(1,2) a e cm made(4,5) rebuilt(8,11)
    by (intro exI [of _ q] exI [of _ result] exI [of _ "rtq_invocation c"] exI [of _ registry]
        exI [of _ "rtq_binding c"] exI [of _ again] exI [of _ w])
      (auto simp: rebuild_runtime_request_def)
qed

lemma runtime_dispatch_gate_witness:
  "\<exists>b d. rd_status d = RuntimeEligible \<and>
     (\<exists>current. evaluate_binding \<lparr>bg_registry = demo_allowlist\<rparr> b = Inr current \<and> runtime_decision_eq current d)"
proof -
  let ?t = "unavailable_ros_transport ''ros.service.unconfigured''"
  obtain d z b e q where r: "bind_skill demo_manager d z demo_selection = Inr b" "binding_result_made b"
    "length (br_safety_decision_id b) \<le> 16384"
    "evaluate_binding \<lparr>bg_registry = demo_allowlist\<rparr> b = Inr e" "rd_status e = RuntimeEligible" "rd_request e = Some q"
    by (rule demo_runtime)
  have s: "dispatch_decision \<lparr>bg_registry = demo_allowlist\<rparr> e b ?t = use_transport ?t e q"
    using r fresh_not_stale [OF r(4,6)] by (simp add: dispatch_decision_def)
  have "fst (use_transport ?t e q) \<noteq> []"
    using use_transport_calls [of ?t e q] by (simp add: unavailable_ros_transport_def)
  then obtain calls outcome where "dispatch_decision \<lparr>bg_registry = demo_allowlist\<rparr> e b ?t = (calls, outcome)" "calls \<noteq> []"
    unfolding s by (metis prod.exhaust fst_conv)
  from runtime_dispatch_gate [OF this] have "rd_status e = RuntimeEligible \<and>
      (\<exists>current. evaluate_binding \<lparr>bg_registry = demo_allowlist\<rparr> b = Inr current \<and> runtime_decision_eq current e)"
    by (elim exE conjE) blast
  then show ?thesis by blast
qed

text \<open>
  C36. What a result says about the transport is true.  The decision was refused or stale exactly when no
  transport was called.  A result that says the transport accepted the request rests on a receipt the
  transport returned for this very request, under its own name, after it had been asked whether it is
  available, and the receipt is part of the result; every other result has a failure code.
\<close>

theorem dispatch_result_honest:
  assumes "dispatch_decision bridge decision b transport = (calls, Inr r)"
  shows "(calls = [] \<longleftrightarrow> dr_status r \<in> {NotEligible, RejectedBeforeDispatch}) \<and>
    (dr_failure_code r = None \<longleftrightarrow> dr_status r = AcceptedByTransport) \<and>
    (if dr_status r = AcceptedByTransport
     then \<exists>q receipt. rd_request decision = Some q \<and> calls = [CallAvailability q, CallDispatch q] \<and>
       tp_dispatch transport q = Inr receipt \<and> dr_receipt r = Some receipt \<and>
       tr_acceptance receipt = TransportAccepted \<and> tr_transport_id receipt = tp_id transport \<and>
       tr_request_id receipt = rtq_request_id q \<and> tr_request_fingerprint receipt = rtq_fingerprint q \<and>
       dr_request_id r = Some (rtq_request_id q) \<and> dr_request_fingerprint r = Some (rtq_fingerprint q)
     else True)"
proof (cases "calls = []")
  case True
  then show ?thesis
    using assms dispatch_uncalled_status dispatch_uncalled_failure by fastforce
next
  case False
  obtain q where q: "rd_request decision = Some q" "(calls, Inr r) = use_transport transport decision q"
    by (rule dispatch_calls [OF assms False])
  note out = use_transport_Inr [OF q(2) [symmetric]]
  show ?thesis
  proof (cases "hand_over transport (tp_id transport) decision q = Inr r")
    case True
    with False out hand_over_Inr [OF True] q(1) show ?thesis by (elim disjE) auto
  next
    case other: False
    with False out show ?thesis by auto
  qed
qed

lemma dispatch_result_honest_witness:
  "\<exists>b d r. rd_request d \<noteq> None \<and>
     dispatch_decision \<lparr>bg_registry = demo_allowlist\<rparr> d b (unavailable_ros_transport ''ros.service.unconfigured'') =
       ([CallAvailability (the (rd_request d))], Inr r) \<and> dr_status r \<notin> {NotEligible, RejectedBeforeDispatch}"
proof -
  let ?t = "unavailable_ros_transport ''ros.service.unconfigured''"
  obtain d z b e q where r: "bind_skill demo_manager d z demo_selection = Inr b" "binding_result_made b"
    "length (br_safety_decision_id b) \<le> 16384"
    "evaluate_binding \<lparr>bg_registry = demo_allowlist\<rparr> b = Inr e" "rd_status e = RuntimeEligible" "rd_request e = Some q"
    by (rule demo_runtime)
  obtain x where x: "dispatch_decision \<lparr>bg_registry = demo_allowlist\<rparr> e b ?t = ([CallAvailability q], Inr x)"
    using r fresh_not_stale [OF r(4,6)] unconfigured.answered [OF evaluated_identified [OF r(4)] r(6)]
    by (auto simp: dispatch_decision_def unavailable_ros_transport_def)
  from dispatch_result_honest [OF x] have "dr_status x \<notin> {NotEligible, RejectedBeforeDispatch}" by auto
  with x r(6) show ?thesis by (intro exI [of _ b] exI [of _ e] exI [of _ x]) simp
qed

text \<open>
  C37. An eligible decision, one with a request, that was just taken is not found stale: the request reaches every transport that keeps the
  contract - a proper name, errors with a text, and receipts for the request they were given - and the
  dispatch ends with the result that the answers of the transport stand for, never with an exception.
\<close>

theorem fresh_decision_dispatched:
  assumes "transport_contract transport" "evaluate_binding bridge b = Inr d" "rd_request d = Some q"
  shows "\<exists>r. dispatch_decision bridge d b transport =
      (if tp_availability transport q = Inr TransportAvailable then [CallAvailability q, CallDispatch q]
       else [CallAvailability q], Inr r) \<and>
    dr_status r = transport_verdict transport q"
proof -
  have "rd_status d = RuntimeEligible" using assms(2,3) by (elim evaluate_request) simp
  then show ?thesis
    using transport_contract.answered [OF assms(1) evaluated_identified [OF assms(2)] assms(3)]
      fresh_not_stale [OF assms(2,3)] assms(3)
    by (simp add: dispatch_decision_def)
qed

lemma fresh_decision_dispatched_witness:
  "\<exists>b d r q. evaluate_binding \<lparr>bg_registry = demo_allowlist\<rparr> b = Inr d \<and>
     dispatch_decision \<lparr>bg_registry = demo_allowlist\<rparr> d b (unavailable_ros_transport ''ros.service.unconfigured'') =
       ([CallAvailability q], Inr r) \<and> dr_status r = TransportIsUnavailable"
proof -
  obtain d z b e q where r: "bind_skill demo_manager d z demo_selection = Inr b" "binding_result_made b"
    "length (br_safety_decision_id b) \<le> 16384"
    "evaluate_binding \<lparr>bg_registry = demo_allowlist\<rparr> b = Inr e" "rd_status e = RuntimeEligible" "rd_request e = Some q"
    by (rule demo_runtime)
  from fresh_decision_dispatched [OF unconfigured.transport_contract_axioms r(4,6)] r(4)
  show ?thesis by (auto simp: unavailable_ros_transport_def transport_verdict_def)
qed

section \<open>The decisions\<close>

text \<open>
  C38. The decision of the bridge on what the Skill Manager bound, as a table.  An ineligible binding is
  blocked, deferred, stale, unavailable or rejected by its gravest reason, one that waits for an approval
  stays so; for an eligible one the allowlist decides: not registered is rejected, another fingerprint of the
  skill is stale, an endpoint that is not available is unavailable.  Otherwise the decision is eligible and
  carries the request of this invocation to the registered endpoint, with the bound parameters as its
  fields, unless they do not conform to the request schema of the endpoint or the document of the request
  leaves the limits: that is the only error.
\<close>

theorem runtime_evaluation_table:
  assumes "bind_skill manager proposal decision selection = Inr b"
    and "skill_registry_made (km_registry manager)" "selection_made selection"
    and "length (br_safety_decision_id b) \<le> 16384" "runtime_registry_made registry"
  shows "if expected_status registry b = RuntimeEligible
    then \<exists>i e. br_invocation b = Some i \<and> registered_for registry i = Some e \<and>
      (if conforms (re_request_schema (rb_endpoint e)) (ki_parameters i) \<and>
          bounded_ok skill_json_limits (request_document_for registry i e)
       then \<exists>d q. evaluate_binding \<lparr>bg_registry = registry\<rparr> b = Inr d \<and> rd_status d = RuntimeEligible \<and>
         rd_reasons d = [] \<and> rd_request d = Some q \<and> rtq_invocation q = i \<and> rtq_binding q = e \<and>
         request_fields q = Inr (ki_parameters i)
       else evaluate_binding \<lparr>bg_registry = registry\<rparr> b = Inl invalid_runtime_binding)
    else \<exists>d. evaluate_binding \<lparr>bg_registry = registry\<rparr> b = Inr d \<and> rd_status d = expected_status registry b \<and>
      rd_request d = None \<and> rd_reasons d \<noteq> []"
  by (rule evaluate_table [OF bind_skill_made [OF assms(1-3)] assms(4,5)])

lemma runtime_evaluation_table_witness:
  "\<exists>b d q (i :: skill_invocation). br_invocation b = Some i \<and>
     evaluate_binding \<lparr>bg_registry = demo_allowlist\<rparr> b = Inr d \<and> rd_request d = Some q \<and>
     rtq_invocation q = i \<and> request_fields q = Inr (ki_parameters i)"
proof -
  obtain d z b e q where r: "bind_skill demo_manager d z demo_selection = Inr b" "binding_result_made b"
    "length (br_safety_decision_id b) \<le> 16384"
    "evaluate_binding \<lparr>bg_registry = demo_allowlist\<rparr> b = Inr e" "rd_status e = RuntimeEligible" "rd_request e = Some q"
    by (rule demo_runtime)
  have "skill_registry_made (km_registry demo_manager)" using demo_skills_made by (simp add: demo_manager_def)
  from runtime_evaluation_table [OF r(1) this demo_selection_made r(3) demo_allowlist_made] r(4,6)
  show ?thesis by (auto split: if_splits)
qed

text \<open>
  C39. Revalidating a decision takes it again on the current binding.  When the decision taken now is equal,
  the prior one is returned; otherwise the result is a stale decision without a request whose reasons say
  exactly what changed: the allowlist, the binding, the endpoint.  Asserting that a decision is current
  returns it in the first case, unless it says itself that it is stale, and else raises
  \<open>StaleRuntimeDecisionError\<close>.  A decision just taken is equal to itself.
\<close>

theorem runtime_revalidation_exact:
  assumes "binding_result_made b" "length (br_safety_decision_id b) \<le> 16384"
    and "runtime_registry_made (bg_registry bridge)" "evaluate_binding bridge b = Inr current"
  shows "\<exists>r. revalidate_decision bridge prior b = Inr r \<and> runtime_decision_eq current current \<and>
    (if runtime_decision_eq current prior then r = prior
     else rd_status r = RuntimeStale \<and> rd_request r = None \<and> UpstreamStale \<in> set (rd_reasons r) \<and>
       (RuntimeRegistryChanged \<in> set (rd_reasons r) \<longleftrightarrow>
         rd_registry_fingerprint current \<noteq> rd_registry_fingerprint prior) \<and>
       (UpstreamBindingChanged \<in> set (rd_reasons r) \<longleftrightarrow>
         rd_selection_fingerprint current \<noteq> rd_selection_fingerprint prior \<or>
         rd_safety_decision_id current \<noteq> rd_safety_decision_id prior \<or>
         rd_invocation_fingerprint current \<noteq> rd_invocation_fingerprint prior) \<and>
       (EndpointChanged \<in> set (rd_reasons r) \<longleftrightarrow> decision_endpoint current \<noteq> decision_endpoint prior)) \<and>
    assert_current_decision bridge prior b =
      (if runtime_decision_eq current prior \<and> rd_status prior \<noteq> RuntimeStale then Inr prior
       else Inl (RuntimeExn StaleRuntimeDecisionError))"
proof -
  have same: "runtime_decision_eq current current"
    by (rule runtime_decision_eq_refl) (rule evaluated_request_made [OF assms(4)])
  show ?thesis
  proof (cases "runtime_decision_eq current prior")
    case True
    then show ?thesis
      using assms(4) same by (simp add: revalidate_decision_def assert_current_decision_def)
  next
    case False
    let ?R = "{UpstreamStale} \<union>
      (if rd_registry_fingerprint current \<noteq> rd_registry_fingerprint prior then {RuntimeRegistryChanged} else {}) \<union>
      (if rd_selection_fingerprint current \<noteq> rd_selection_fingerprint prior \<or>
          rd_safety_decision_id current \<noteq> rd_safety_decision_id prior \<or>
          rd_invocation_fingerprint current \<noteq> rd_invocation_fingerprint prior then {UpstreamBindingChanged} else {}) \<union>
      (if decision_endpoint prior \<noteq> decision_endpoint current then {EndpointChanged} else {})"
    let ?rs = "enum_ordered runtime_reasons ?R"
    have registry: "rd_registry_fingerprint current = rtg_fingerprint (bg_registry bridge)"
      by (rule evaluate_request [OF assms(4)]) (simp add: rebuild_registry_made [OF assms(3)])
    have "check_decision_reasons RuntimeStale ?rs b = Inr ()" by (simp add: check_decision_reasons_def)
    from decision_without_request [OF assms(1,2,3) _ refl _ this]
    obtain r where r: "mk_runtime_decision RuntimeStale ?rs b (rtg_fingerprint (bg_registry bridge)) None = Inr r"
      "rd_status r = RuntimeStale" "rd_request r = None" "rd_reasons r = ?rs" by auto
    have again: "revalidate_decision bridge prior b = Inr r"
      using False r(1) unfolding revalidate_decision_def assms(4) tryE_simps Let_def
      by (simp add: rebuild_binding_made [OF assms(1)] registry)
    have "set (rd_reasons r) = ?R" unfolding r(4) by (rule runtime_ordered_set)
    then show ?thesis
      using False again r(2,3) same
      by (intro exI [of _ r]) (auto simp: assert_current_decision_def)
  qed
qed

lemma runtime_revalidation_exact_witness:
  "\<exists>b d. evaluate_binding \<lparr>bg_registry = demo_allowlist\<rparr> b = Inr d \<and>
     assert_current_decision \<lparr>bg_registry = demo_allowlist\<rparr> d b = Inr d"
proof -
  obtain d z b e q where r: "bind_skill demo_manager d z demo_selection = Inr b" "binding_result_made b"
    "length (br_safety_decision_id b) \<le> 16384"
    "evaluate_binding \<lparr>bg_registry = demo_allowlist\<rparr> b = Inr e" "rd_status e = RuntimeEligible" "rd_request e = Some q"
    by (rule demo_runtime)
  have "runtime_registry_made (bg_registry \<lparr>bg_registry = demo_allowlist\<rparr>)" by (simp add: demo_allowlist_made)
  from runtime_revalidation_exact [OF r(2,3) this r(4), of e] r(5)
  have "assert_current_decision \<lparr>bg_registry = demo_allowlist\<rparr> e b = Inr e" by auto
  with r(4) show ?thesis by blast
qed

section \<open>The allowlist\<close>

text \<open>
  C40. An allowlist that its reconstruction accepts is well typed, and reconstruction does not change it
  again: its bindings have distinct keys, each binds a well-formed, available skill that declares the
  capability to a well-formed endpoint of the same backend, whose schemas equal those of the skill and
  whose timeout is within that of the skill, and the endpoint, the skill and the binding are those that
  their constructors build from their fields.  A lookup of a key finds the one binding that has it.
\<close>

theorem rebuilt_allowlist_typed:
  assumes "rebuild_runtime_registry registry = Inr r"
  shows "rebuild_runtime_registry r = Inr r \<and> runtime_registry_eq r registry \<and>
    distinct (map runtime_binding_key (rtg_bindings r)) \<and>
    (\<forall>i v c b. skill_identifier_ok i \<and> skill_identifier_ok c \<and> skill_identifier_ok b \<and> semver_ok v \<longrightarrow>
      (\<exists>found. resolve_binding r i v c b = Inr found \<and>
        (\<forall>e. found = Some e \<longleftrightarrow> e \<in> set (rtg_bindings r) \<and> runtime_binding_key e = (i, v, c, b)))) \<and>
    (\<forall>e \<in> set (rtg_bindings r). let k = rb_skill_definition e; p = rb_endpoint e in
      rebuild_runtime_binding e = Inr e \<and> rebuild_skill_definition k = Inr k \<and> rebuild_ros_endpoint p = Inr p \<and>
      skill_ok k \<and> kd_availability k = SkillAvailable \<and> rb_capability_id e \<in> set (kd_capability_ids k) \<and>
      rb_skill_id e = kd_skill_id k \<and> rb_skill_version e = kd_version k \<and>
      rb_skill_fingerprint e = kd_fingerprint k \<and> rb_backend_id e = kd_backend_id k \<and>
      re_backend_id p = kd_backend_id k \<and>
      schema_ok (re_request_schema p) \<and> vs_type (re_request_schema p) = VtObject \<and> \<not> vs_nullable (re_request_schema p) \<and>
      schema_eq (kd_input_schema k) (re_request_schema p) \<and> schema_eq (kd_output_schema k) (re_response_schema p) \<and>
      re_timeout_ms p \<le> kd_timeout_ms k)"
proof (intro conjI allI impI ballI)
  note r = rebuild_registry_Inr [OF assms]
  then show "rebuild_runtime_registry r = Inr r" "runtime_registry_eq r registry"
    using rebuild_registry_made by auto
  show dis: "distinct (map runtime_binding_key (rtg_bindings r))"
    using r mk_runtime_registry_Inr(5) by (auto simp: runtime_registry_made_def)
  show "\<exists>found. resolve_binding r i v c b = Inr found \<and>
      (\<forall>e. found = Some e \<longleftrightarrow> e \<in> set (rtg_bindings r) \<and> runtime_binding_key e = (i, v, c, b))"
    if "skill_identifier_ok i \<and> skill_identifier_ok c \<and> skill_identifier_ok b \<and> semver_ok v" for i v c b
    using that dis by (simp add: resolve_binding_eq index_get_Some)
  fix e assume "e \<in> set (rtg_bindings r)"
  with r have e: "binding_made e" by (auto simp: runtime_registry_made_def list_all_iff)
  note f = binding_made_facts [OF e]
  have k: "skill_made (rb_skill_definition e)" and p: "endpoint_made (rb_endpoint e)"
    using e by (simp_all add: binding_made_def)
  have "skill_ok (rb_skill_definition e)" using k by (auto simp: skill_made_def dest: mk_skill_definition_ok)
  moreover note mk_ros_endpoint_Inr(2,4,5) [OF p [unfolded endpoint_made_def]]
  ultimately show "let k = rb_skill_definition e; p = rb_endpoint e in
      rebuild_runtime_binding e = Inr e \<and> rebuild_skill_definition k = Inr k \<and> rebuild_ros_endpoint p = Inr p \<and>
      skill_ok k \<and> kd_availability k = SkillAvailable \<and> rb_capability_id e \<in> set (kd_capability_ids k) \<and>
      rb_skill_id e = kd_skill_id k \<and> rb_skill_version e = kd_version k \<and>
      rb_skill_fingerprint e = kd_fingerprint k \<and> rb_backend_id e = kd_backend_id k \<and>
      re_backend_id p = kd_backend_id k \<and>
      schema_ok (re_request_schema p) \<and> vs_type (re_request_schema p) = VtObject \<and> \<not> vs_nullable (re_request_schema p) \<and>
      schema_eq (kd_input_schema k) (re_request_schema p) \<and> schema_eq (kd_output_schema k) (re_response_schema p) \<and>
      re_timeout_ms p \<le> kd_timeout_ms k"
    using f rebuild_runtime_binding_made [OF e] rebuild_skill_made [OF k] rebuild_endpoint_made [OF p]
    by (simp add: Let_def schema_valid_def)
qed

lemma rebuilt_allowlist_typed_witness:
  "runtime_registry_eq demo_allowlist demo_allowlist \<and>
   (\<exists>found. resolve_binding demo_allowlist ''k1'' ''1.0.0'' ''c1'' ''b1'' = Inr found)"
proof -
  have "runtime_registry_eq demo_allowlist demo_allowlist \<and>
      (\<forall>i v c b. skill_identifier_ok i \<and> skill_identifier_ok c \<and> skill_identifier_ok b \<and> semver_ok v \<longrightarrow>
        (\<exists>found. resolve_binding demo_allowlist i v c b = Inr found))"
    using rebuilt_allowlist_typed [OF rebuild_registry_made [OF demo_allowlist_made]] by blast
  then show ?thesis by simp
qed

end
