(* ===== verification/Spec2Isabelle.thy ===== *)
theory Spec2Isabelle
  imports Json_Properties Exec_Properties Safety_Properties Memory_Properties Context_Properties Validation_Properties
    Skill_Properties Runtime_Properties
begin

text \<open>
  The decision core of The Humanoid Ayyo: how evidence is validated before it is stored, how memories
  are stored, corrected and projected to the context of the owner, how a request becomes an executive
  decision with a plan on that context, how the plan is judged by the Safety Kernel, how its steps are bound to skills, and how a bound step
  becomes a request that is handed to a transport. All of it is Python under \<open>src/<package>/src/ayyo_<package>/\<close>.

  \<^bold>\<open>The parts and how they interact.\<close>  Memory OS (\<open>memory/\<close>) keeps memories and the conflicts between
  them in SQLite. The memory validation (\<open>memory_validation/service.py\<close>) judges candidate evidence
  against the memories of its identity and applies the decisions that permit it.
  The Personal Context service (\<open>personal_context/service.py\<close>) reads memories and
  conflicts and projects them (\<open>projector.py\<close>) to a versioned snapshot of what is known about the owner. A request (\<open>executive/models.py\<close>) names capability
  invocations, the context they need, approvals, constraints and assumptions. The Executive
  (\<open>executive/service.py\<close>) has the Personal Context service build a snapshot, looks the capabilities up in
  its registry (\<open>capabilities.py\<close>), reads the cited keys of the snapshot (\<open>personal_context/models.py\<close>), lets the planner
  (\<open>planner.py\<close>) build one step per invocation, and returns a fingerprinted decision. The Safety
  Kernel (\<open>safety_kernel/src/ayyo_safety/\<close>) trusts nothing of it: it copies the decision
  (\<open>proposal.py\<close>), checks it again, sorts the plan again, evaluates every step against its policy
  (\<open>policy.py\<close>, \<open>service.py\<close>) and returns a fingerprinted safety decision. Both decisions can be
  revalidated later. The Skill Manager (\<open>skill_manager/binding.py\<close>) has the safety decision evaluated
  again and, when skill and step fit, returns an inert invocation of a registered skill. The Runtime Bridge
  (\<open>runtime_bridge/decision.py\<close>) builds all of that again from its fields, looks the skill up in its allowlist of
  ROS endpoints and decides; its dispatcher (\<open>transport.py\<close>) takes the decision again before it hands
  the request to a transport. Everything is fingerprinted by SHA-256 of a canonical JSON text
  (\<open>json_value.py\<close>, \<open>canonical.py\<close>).

  \<^bold>\<open>Prelude.\<close>  \<open>Py_Prelude\<close>: the errors of the program (\<open>exn\<close>: one constructor per package and
  \<open>BuiltinExn\<close>), results \<open>exn + 'a\<close>, sequencing \<open>tryE\<close>, guards \<open>raise_if\<close>, \<open>traverse\<close> and
  \<open>for_each\<close> for loops that may raise, and the string operations \<open>strip\<close>, \<open>isalnum\<close>, UTF-8
  encodability, and a calculus for the errors a computation can raise. \<open>Py_Order\<close>: sorted
  sets, uniqueness and order checks, the locale \<open>ordered_unique\<close> of the collection constructors
  of the packages, and the dictionaries of lists that loops with \<open>setdefault\<close> build. \<open>Sha256\<close>: the digest, over 32-bit words.

  \<^bold>\<open>JSON\<close> (\<open>executive/json_value.py\<close>, \<open>safety_kernel/canonical.py\<close>).  \<open>Json_Value\<close>: values
  (\<open>pyval\<close>; a float is its \<open>repr\<close>), the stack loops of validation and of canonical text. \<open>Json_Graph\<close>:
  the same validation on an object graph with identities, sharing and cycles, and its agreement with
  the trees a graph unfolds to. \<open>Json_Copy\<close>: the copying loop on the heap (\<open>partial_function\<close>; its
  termination is proved). \<open>Json_Canonical\<close>: a reader that recovers a value from its canonical text.
  \<open>Json_Bounds\<close>: the counters as sizes of the tree. \<open>Json_Properties\<close>: the properties.

  \<^bold>\<open>Memory OS\<close> (\<open>memory/models.py\<close>, \<open>sqlite_schema.py\<close>, \<open>sqlite_store.py\<close>, \<open>service.py\<close>).
  \<open>Memory_Models\<close>: the dataclasses. \<open>Json_Loads\<close>: \<open>json.loads\<close> on the texts that \<open>json.dumps\<close> writes.
  \<open>Memory_Rows\<close>: the columns of a memory and both directions of the conversion. \<open>Memory_Store\<close>: the two
  tables with their constraints, the statements and the operations of \<open>SQLiteMemoryStore\<close>.
  \<open>Memory_Service\<close>: the operations of \<open>MemoryService\<close>, and what they do to the tables. \<open>Memory_Spec\<close>:
  the state as memories and conflicts, and the abstract mutations; \<open>Memory_Refinement\<close>: the tables
  implement them; \<open>Memory_Invariant\<close>: what the mutations keep. \<open>Memory_Reachable\<close>: the stores a program
  can reach, by a step relation with one rule per mutation, for any arguments. \<open>Memory_History\<close>: the
  loops of \<open>get_revision_history\<close>. \<open>Memory_Properties\<close>: a concrete run and the properties.

  \<^bold>\<open>Memory validation\<close> (\<open>memory_validation/errors.py\<close>, \<open>normalization.py\<close>, \<open>models.py\<close>, \<open>policy.py\<close>,
  \<open>service.py\<close>).  \<open>Validation_Models\<close>: the normalization of identities and data, and the dataclasses.
  \<open>Validation_Policy\<close>: the policy with its checks, and the abstract table of its decisions
  (\<open>policy_verdict\<close>). \<open>Validation_Service\<close>: \<open>evaluate\<close> and \<open>apply\<close> (\<open>validation_evaluate\<close>, \<open>validation_apply\<close>)
  over Memory OS, and the locale \<open>evidence_source\<close>, what the policy relies on in the memory it is shown,
  interpreted on the reads of a reachable store. \<open>Validation_Properties\<close>: the table over the tables of
  Memory OS, the effect of an application, and its idempotence. Its instants are in UTC, and its NFC is
  the identity: the characters of the model are below U+0100.

  \<^bold>\<open>Personal Context\<close> (\<open>personal_context/models.py\<close>, \<open>json_value.py\<close>, \<open>projector.py\<close>, \<open>service.py\<close>).
  \<open>Context_Models\<close>: identities, evidence, values, entries, snapshots, versions and \<open>get_context\<close>.
  \<open>Context_Projector\<close>: the projector and the service. \<open>Context_Reads\<close>,
  \<open>Context_Entries\<close>, \<open>Context_Snapshot\<close>: what it returns on two reads that fit together (\<open>coherent_reads\<close>).
  \<open>Context_Source\<close>: the locale \<open>memory_source\<close>, what the service relies on in Memory OS, interpreted on
  the two reads of a reachable store. \<open>Context_Torn\<close>: reads of two states, and what they can raise. \<open>Context_Lookup\<close>: lookups as
  statements on the tables. \<open>Context_Chain\<close>: what an executive decision cites of them.
  \<open>Context_Fixtures\<close>, \<open>Context_Properties\<close>: concrete objects and the properties.

  \<^bold>\<open>Executive.\<close>  \<open>Dep_Graph\<close>: dependency graphs and the locale \<open>topological\<close> of the routines that
  sort them, and \<open>topological_pair\<close> of two of them. \<open>Exec_Order\<close>: Kahn's loop
  (\<open>_validate_dependency_graph\<close>) and its invariant. \<open>Exec_Models\<close>, \<open>Exec_Request\<close>, \<open>Exec_Decision\<close>:
  the dataclasses of \<open>models.py\<close>. \<open>Exec_Capabilities\<close>: the registry. \<open>Exec_Planner\<close>: merging (locale
  \<open>keyed_merge\<close>) and the plan. \<open>Exec_Service\<close>: \<open>evaluate\<close> and \<open>revalidate\<close>. Both begin with
  \<open>build_snapshot()\<close>; its outcome, a snapshot or the error it raised, is their argument \<open>built\<close>, and the
  properties over a store give it as \<open>build_snapshot owner s s'\<close>, the model of that call. \<open>Exec_Errors\<close>:
  the errors these can raise on a snapshot. \<open>Exec_Fixtures\<close>: concrete objects for witnesses. \<open>Exec_Properties\<close>: decision
  table, grounding of plans, identity and currency of decisions, permutation of collections.

  \<^bold>\<open>Safety Kernel.\<close>  \<open>Safety_Models\<close> and \<open>Safety_Decision\<close>: \<open>models.py\<close>. \<open>Safety_Policy\<close>: \<open>policy.py\<close>.
  \<open>Safety_Proposal\<close>: \<open>proposal.py\<close>, with the layered sort in \<open>Safety_Order\<close>. \<open>Safety_Service\<close>:
  \<open>service.py\<close>, with the decision table of a step as its specification. \<open>Safety_Snapshot\<close>,
  \<open>Safety_Evaluation\<close>, \<open>Safety_Errors\<close>: what an accepted proposal guarantees, when an evaluation
  succeeds, which errors it raises. \<open>Safety_Chain\<close>: a decision of the Executive passes every check.
  \<open>Safety_Fixtures\<close>, \<open>Safety_Properties\<close>: concrete objects and the properties.

  \<^bold>\<open>Skill Manager\<close> (\<open>skill_manager/src/ayyo_skill_manager/\<close>).  \<open>Json_Bounded\<close>: \<open>canonical.py\<close>, whose
  validation also bounds collections and integers. \<open>Py_Numbers\<close>: the order of Python's integers and
  floats, a float being the exact double of its \<open>repr\<close>, and \<open>==\<close> of JSON values where it is coarser than
  identity (\<open>1 == 1.0\<close>). \<open>Skill_Schema\<close>: identifiers and versions of \<open>models.py\<close>, and \<open>schema.py\<close>; a schema
  is a finite tree, so the check for cycles of its traversal never rejects. \<open>Skill_Parameters\<close>:
  \<open>parameters.py\<close>, and the recursive conformance (\<open>conforms\<close>) that its loop decides. \<open>Skill_Models\<close>: the rest
  of \<open>models.py\<close>. \<open>Skill_Registry\<close>: \<open>registry.py\<close> and selections. \<open>Skill_Binding\<close>: \<open>binding.py\<close>,
  and what a binding with an invocation guarantees. \<open>Skill_Fit\<close>: the whole chain from
  \<open>evaluate\<close> through the Safety Kernel to \<open>bind\<close>, and when (\<open>step_fits\<close>) it ends with an invocation.
  \<open>Skill_Fixtures\<close>, \<open>Skill_Properties\<close>: concrete objects and the properties.

  \<^bold>\<open>Runtime Bridge\<close> (\<open>runtime_bridge/src/ayyo_runtime_bridge/\<close>).  \<open>Runtime_Models\<close>: \<open>==\<close> of schemas, \<open>errors.py\<close>, \<open>canonical.py\<close> (the
  validation of the Skill Manager at the same limits) and \<open>models.py\<close>. \<open>Runtime_Endpoints\<close>: \<open>endpoints.py\<close>.
  \<open>Runtime_Registry\<close>: \<open>registry.py\<close>. \<open>Runtime_Binding\<close>: \<open>binding.py\<close>. \<open>Runtime_Decision\<close>: \<open>decision.py\<close>, and what its
  decisions guarantee.
  \<open>Runtime_Transport\<close>: \<open>transport.py\<close>; a transport is a parameter, the function from requests to what its two
  operations return or raise, and the calls that are made of it are recorded in their order. The bridge
  builds everything it is given again from its fields; the equality of the two is that of the dataclasses, in
  which schemas are equal by \<open>==\<close> and metadata, parameters and request fields are not compared. For every class,
  \<open>X_made\<close> says that an object is what its constructor builds from its fields, and the lemmas
  \<open>rebuild_X_made\<close>, \<open>rebuild_X_Inr\<close> that reconstruction is the identity on such objects and returns only such
  objects. \<open>Runtime_Handoff\<close>: what \<open>bind\<close> of the Skill Manager
  returns is of this kind, and the table of the decisions on it (\<open>expected_status\<close>). \<open>Runtime_Boundary\<close>: when
  the dispatcher calls a transport, and the locale \<open>transport_contract\<close> of transports that answer for their
  requests, interpreted on the one of the package, which is never available. \<open>Runtime_Fixtures\<close>,
  \<open>Runtime_Properties\<close>: concrete objects and the properties.

  \<^bold>\<open>Conventions.\<close>  A constructor is a function \<open>mk_X\<close> (or \<open>check_X\<close>, when it keeps its arguments)
  that returns the record or the error; keyword arguments are arguments in the order of the code.
  \<open>isinstance\<close> checks of arguments that are annotated with a type of the program hold by typing;
  JSON values are dynamic, and their checks are branches. Strings are lists of code points below 256.
  The messages of exceptions are not modelled, their classes are; those of the errors of a transport, which
  become part of a result, are. A record built by hand need not
  satisfy its constructor's checks: the Safety Kernel is modelled on every record of the type, so
  forged decisions are among its inputs. The results of the clock, of \<open>uuid4\<close> and of the factory of
  identifiers are arguments of an operation (record \<open>surroundings\<close>). A UUID is a word of 128 bits, a hash-ordered set is
  a set that the code sorts before it can be observed.

  \<^bold>\<open>Bounds and termination.\<close>  All limits are those of the code: 256 levels, 10,000 nodes and 4,000,000
  characters of JSON, 250,000 nodes and 32,000,000 characters for the fingerprints of the Safety
  Kernel, 32 levels, 4,096 nodes and 1,024-bit integers in the Skill Manager and the Runtime Bridge, 64 steps, 128 items. No definition has fuel: the worklist loops are \<open>function\<close>s with a
  measure; the loop that copies a graph, which runs after validation, and the loops of
  \<open>get_revision_history\<close>, which follow identifiers in the table, are \<open>partial_function\<close>s that are
  proved to return. The limit on the depth of recursion of \<open>json.loads\<close> is not modelled.

  \<^bold>\<open>SQLite.\<close>  A table is a list of rows of text columns, and a statement is the function that its
  documentation gives: a CHECK passes when it is NULL, \<open>length\<close> and \<open>trim\<close> end at NUL, a REAL column
  stores \<open>-0.0\<close> as \<open>0.0\<close>. A transaction is atomic: an error leaves the tables as they were.

  \<^bold>\<open>Not modelled.\<close>  The connection, the migrations, the validation of an existing schema and the
  locking of SQLite (input and output), the packages around the chain (memory
  consolidation, working memory, policy registry, promotion control, approval eligibility, learning
  evaluation), the world model and perception, manipulation (geometry on floating-point numbers), and
  the ROS nodes, transports and scripts, which are input and output.
\<close>

end
